(* ===== verification/Prelude.thy ===== *)
theory Prelude
  imports Main "HOL-Library.Sublist"
begin

text \<open>
  Shared vocabulary of the development: the result type of fallible Go functions, sequencing of
  fallible stateful calls, the wrap-around of Go's fixed-width integers, and the part of Go's
  package \<open>strings\<close> that the sources use (byte strings, as Go has them). Lemmas that several
  components need are declared \<open>simp\<close> or collected in the named collections below.
\<close>

named_theorems go_defs "unfolding rules of small Go helpers"
named_theorems inv_intros "preservation lemmas of component invariants"

section \<open>Results and stateful fallible calls\<close>

text \<open>
  A Go function returning \<open>(T, error)\<close> gives a value of type \<open>'e + 'a\<close>, with \<open>Inl\<close> for the error
  path. A function that also changes a state takes it as its last argument and returns it.
\<close>

type_synonym ('e, 'a) result = "'e + 'a"
type_synonym ('s, 'e, 'a) op = "'s \<Rightarrow> ('e + 'a) \<times> 's"

definition retE :: "'a \<Rightarrow> ('s, 'e, 'a) op" where
  "retE x = (\<lambda>s. (Inr x, s))"

definition failE :: "'e \<Rightarrow> ('s, 'e, 'a) op" where
  "failE e = (\<lambda>s. (Inl e, s))"

definition bindE :: "('s, 'e, 'a) op \<Rightarrow> ('a \<Rightarrow> ('s, 'e, 'b) op) \<Rightarrow> ('s, 'e, 'b) op" where
  "bindE m f = (\<lambda>s. case m s of (Inl e, s') \<Rightarrow> (Inl e, s') | (Inr x, s') \<Rightarrow> f x s')"

definition mapErrE :: "('e \<Rightarrow> 'f) \<Rightarrow> ('s, 'e, 'a) op \<Rightarrow> ('s, 'f, 'a) op" where
  "mapErrE g m = (\<lambda>s. case m s of (Inl e, s') \<Rightarrow> (Inl (g e), s') | (Inr x, s') \<Rightarrow> (Inr x, s'))"

text \<open>A loop over a slice that stops at the first error.\<close>

primrec mapE :: "('a \<Rightarrow> ('s, 'e, 'b) op) \<Rightarrow> 'a list \<Rightarrow> ('s, 'e, 'b list) op" where
  "mapE f [] = retE []"
| "mapE f (x # xs) = bindE (f x) (\<lambda>y. bindE (mapE f xs) (\<lambda>ys. retE (y # ys)))"

definition forE :: "('a \<Rightarrow> ('s, 'e, unit) op) \<Rightarrow> 'a list \<Rightarrow> ('s, 'e, unit) op" where
  "forE f xs = bindE (mapE f xs) (\<lambda>_. retE ())"

lemma retE_apply [simp]: "retE x s = (Inr x, s)"
  by (simp add: retE_def)

lemma failE_apply [simp]: "failE e s = (Inl e, s)"
  by (simp add: failE_def)

lemma bindE_Inr [simp]: "m s = (Inr x, s') \<Longrightarrow> bindE m f s = f x s'"
  by (simp add: bindE_def)

lemma bindE_Inl [simp]: "m s = (Inl e, s') \<Longrightarrow> bindE m f s = (Inl e, s')"
  by (simp add: bindE_def)

lemma bindE_eq_Inr:
  "bindE m f s = (Inr y, t) \<longleftrightarrow> (\<exists>x s'. m s = (Inr x, s') \<and> f x s' = (Inr y, t))"
  by (auto simp: bindE_def split: prod.splits sum.splits)

lemma bindE_eq_Inl:
  "bindE m f s = (Inl e, t) \<longleftrightarrow>
     m s = (Inl e, t) \<or> (\<exists>x s'. m s = (Inr x, s') \<and> f x s' = (Inl e, t))"
  by (auto simp: bindE_def split: prod.splits sum.splits)

lemma mapErrE_eq_Inr [simp]: "mapErrE g m s = (Inr y, t) \<longleftrightarrow> m s = (Inr y, t)"
  by (auto simp: mapErrE_def split: prod.splits sum.splits)

lemma mapErrE_eq_Inl: "mapErrE g m s = (Inl f, t) \<longleftrightarrow> (\<exists>e. m s = (Inl e, t) \<and> f = g e)"
  by (auto simp: mapErrE_def split: prod.splits sum.splits)

lemma snd_mapErrE: "snd (mapErrE g m s) = snd (m s)"
  by (simp add: mapErrE_def split: prod.splits sum.splits)

lemma forE_Nil [simp]: "forE f [] s = (Inr (), s)"
  by (simp add: forE_def bindE_def)

lemma forE_Cons_Inr:
  "forE f (x # xs) s = (Inr (), t) \<longleftrightarrow> (\<exists>s'. f x s = (Inr (), s') \<and> forE f xs s' = (Inr (), t))"
  by (auto simp: forE_def bindE_eq_Inr)

lemma bindE_inv:
  assumes "\<And>r t. m s = (r, t) \<Longrightarrow> P t"
    and "\<And>x t. m s = (Inr x, t) \<Longrightarrow> P t \<Longrightarrow> P (snd (f x t))"
    and "bindE m f s = (r, u)"
  shows "P u"
  using assms by (fastforce simp: bindE_def split: prod.splits sum.splits)

lemmas bindE_eqs = bindE_eq_Inr bindE_eq_Inl

text \<open>What holds when a call succeeds: a precondition, the call and a condition on its result.\<close>

definition ensures :: "('s \<Rightarrow> bool) \<Rightarrow> ('s, 'e, 'a) op \<Rightarrow> ('a \<Rightarrow> 's \<Rightarrow> bool) \<Rightarrow> bool" where
  "ensures P m Q \<longleftrightarrow> (\<forall>s x t. P s \<longrightarrow> m s = (Inr x, t) \<longrightarrow> Q x t)"

lemma ensuresD: "ensures P m Q \<Longrightarrow> P s \<Longrightarrow> m s = (Inr x, t) \<Longrightarrow> Q x t"
  by (simp add: ensures_def)

lemma ensures_bindE:
  assumes "ensures P m Q" and "\<And>x. ensures (Q x) (f x) R"
  shows "ensures P (bindE m f) R"
  using assms unfolding ensures_def bindE_eq_Inr by blast

lemma ensures_retE: "(\<And>s. P s \<Longrightarrow> Q x s) \<Longrightarrow> ensures P (retE x) Q"
  by (simp add: ensures_def)

lemma ensures_failE: "ensures P (failE e) Q"
  by (simp add: ensures_def)

lemma ensures_mapErrE: "ensures P m Q \<Longrightarrow> ensures P (mapErrE g m) Q"
  by (simp add: ensures_def)

lemma ensures_if: "(b \<Longrightarrow> ensures P m Q) \<Longrightarrow> (\<not> b \<Longrightarrow> ensures P n Q) \<Longrightarrow> ensures P (if b then m else n) Q"
  by simp

lemma ensures_weaken: "ensures P m Q \<Longrightarrow> (\<And>x s. Q x s \<Longrightarrow> R x s) \<Longrightarrow> ensures P m R"
  unfolding ensures_def by blast

lemma ensures_pre: "ensures P m Q \<Longrightarrow> (\<And>s. R s \<Longrightarrow> P s) \<Longrightarrow> ensures R m Q"
  unfolding ensures_def by blast

lemma ensures_forE:
  assumes "\<And>ys x. x \<in> set xs \<Longrightarrow> ensures (I ys) (f x) (\<lambda>_. I (ys @ [x]))"
  shows "ensures (I []) (forE f xs) (\<lambda>_. I xs)"
proof -
  have "ensures (I zs) (forE f ys) (\<lambda>_. I (zs @ ys))" if "set ys \<subseteq> set xs" for ys zs
    using that
  proof (induction ys arbitrary: zs)
    case (Cons y ys)
    then have head: "ensures (I zs) (f y) (\<lambda>_. I (zs @ [y]))" and "set ys \<subseteq> set xs" using assms by simp_all
    then have tail: "ensures (I (zs @ [y])) (forE f ys) (\<lambda>_. I ((zs @ [y]) @ ys))" using Cons.IH by blast
    show ?case unfolding ensures_def
    proof (intro allI impI)
      fix s x t
      assume "I zs s" and "forE f (y # ys) s = (Inr x, t)"
      then obtain s' where "f y s = (Inr (), s')" "forE f ys s' = (Inr (), t)" by (auto simp: forE_Cons_Inr)
      then have "I ((zs @ [y]) @ ys) t" using ensuresD [OF head \<open>I zs s\<close>] ensuresD [OF tail] by blast
      then show "I (zs @ y # ys) t" by simp
    qed
  qed (simp add: ensures_def)
  from this [of xs "[]"] show ?thesis by simp
qed

lemmas ensures_rules = ensures_bindE ensures_retE ensures_failE ensures_mapErrE ensures_if

section \<open>Fixed-width signed integers\<close>

text \<open>
  Go's \<open>int64\<close> (and \<open>int\<close> on the 64-bit platforms the service is built for) and \<open>int32\<close>: values are
  integers, and the conversion or the arithmetic that may leave the range wraps explicitly.
\<close>

definition wrap :: "nat \<Rightarrow> int \<Rightarrow> int" where
  "wrap w x = (x + 2 ^ (w - 1)) mod 2 ^ w - 2 ^ (w - 1)"

abbreviation int64 :: "int \<Rightarrow> int" where
  "int64 \<equiv> wrap 64"

abbreviation int32 :: "int \<Rightarrow> int" where
  "int32 \<equiv> wrap 32"

definition in_int :: "nat \<Rightarrow> int \<Rightarrow> bool" where
  "in_int w x \<longleftrightarrow> - (2 ^ (w - 1)) \<le> x \<and> x < 2 ^ (w - 1)"

lemma pow2_split: "0 < w \<Longrightarrow> (2::int) ^ w = 2 ^ (w - 1) + 2 ^ (w - 1)"
  by (cases w) auto

lemma wrap_in_int: "0 < w \<Longrightarrow> in_int w (wrap w x)"
proof -
  assume "0 < w"
  then have "(2::int) ^ w = 2 ^ (w - 1) + 2 ^ (w - 1)" by (rule pow2_split)
  moreover have "0 \<le> (x + 2 ^ (w - 1)) mod 2 ^ w" "(x + 2 ^ (w - 1)) mod 2 ^ w < 2 ^ w"
    by simp_all
  ultimately show ?thesis by (auto simp: in_int_def wrap_def)
qed

lemma wrap_id: "0 < w \<Longrightarrow> in_int w x \<Longrightarrow> wrap w x = x"
  using pow2_split [of w] by (auto simp: in_int_def wrap_def intro!: mod_pos_pos_trivial)

lemma int64_id: "- (2 ^ 63) \<le> x \<Longrightarrow> x < 2 ^ 63 \<Longrightarrow> int64 x = x"
  by (rule wrap_id) (auto simp: in_int_def)

lemma int64_over: "2 ^ 63 \<le> x \<Longrightarrow> x < 2 ^ 63 + 2 ^ 64 \<Longrightarrow> int64 x = x - 2 ^ 64"
proof -
  assume "2 ^ 63 \<le> x" "x < 2 ^ 63 + 2 ^ 64"
  then have "(x + 2 ^ 63 - 2 ^ 64) mod 2 ^ 64 = x + 2 ^ 63 - 2 ^ 64"
    by (intro mod_pos_pos_trivial) auto
  then have "(x + 2 ^ 63) mod 2 ^ 64 = x + 2 ^ 63 - 2 ^ 64" by (simp only: minus_mod_self2)
  then show ?thesis by (simp add: wrap_def)
qed

lemma int32_id: "- (2 ^ 31) \<le> x \<Longrightarrow> x < 2 ^ 31 \<Longrightarrow> int32 x = x"
  by (rule wrap_id) (auto simp: in_int_def)

text \<open>Go's integer division truncates towards zero.\<close>

definition go_div :: "int \<Rightarrow> int \<Rightarrow> int" where
  "go_div a b = (if (a < 0) = (b < 0) then \<bar>a\<bar> div \<bar>b\<bar> else - (\<bar>a\<bar> div \<bar>b\<bar>))"

lemma go_div_nonneg [simp]: "0 \<le> a \<Longrightarrow> 0 < b \<Longrightarrow> go_div a b = a div b"
  by (simp add: go_div_def)

text \<open>\<open>time.Duration\<close> counts nanoseconds.\<close>

definition Milliseconds :: "int \<Rightarrow> int" where
  "Milliseconds d = go_div d 1000000"

section \<open>Byte strings\<close>

text \<open>
  \<open>strings.TrimSpace\<close> strips, on either side, the UTF-8 encodings of the code points that
  \<open>unicode.IsSpace\<close> accepts.
\<close>

definition space_runes :: "string list" where
  "space_runes =
     [[CHR 0x09], [CHR 0x0A], [CHR 0x0B], [CHR 0x0C], [CHR 0x0D], [CHR 0x20],
      [CHR 0xC2, CHR 0x85], [CHR 0xC2, CHR 0xA0], [CHR 0xE1, CHR 0x9A, CHR 0x80],
      [CHR 0xE2, CHR 0x80, CHR 0x80], [CHR 0xE2, CHR 0x80, CHR 0x81], [CHR 0xE2, CHR 0x80, CHR 0x82],
      [CHR 0xE2, CHR 0x80, CHR 0x83], [CHR 0xE2, CHR 0x80, CHR 0x84], [CHR 0xE2, CHR 0x80, CHR 0x85],
      [CHR 0xE2, CHR 0x80, CHR 0x86], [CHR 0xE2, CHR 0x80, CHR 0x87], [CHR 0xE2, CHR 0x80, CHR 0x88],
      [CHR 0xE2, CHR 0x80, CHR 0x89], [CHR 0xE2, CHR 0x80, CHR 0x8A], [CHR 0xE2, CHR 0x80, CHR 0xA8],
      [CHR 0xE2, CHR 0x80, CHR 0xA9], [CHR 0xE2, CHR 0x80, CHR 0xAF], [CHR 0xE2, CHR 0x81, CHR 0x9F],
      [CHR 0xE3, CHR 0x80, CHR 0x80]]"

fun has_prefix :: "'a list \<Rightarrow> 'a list \<Rightarrow> bool" where
  "has_prefix s [] = True"
| "has_prefix [] (p # ps) = False"
| "has_prefix (c # s) (p # ps) = (c = p \<and> has_prefix s ps)"

definition has_suffix :: "'a list \<Rightarrow> 'a list \<Rightarrow> bool" where
  "has_suffix s p = has_prefix (rev s) (rev p)"

definition leading :: "string list \<Rightarrow> string \<Rightarrow> string option" where
  "leading ws s = find (\<lambda>w. w \<noteq> [] \<and> has_prefix s w) ws"

function trim_by :: "string list \<Rightarrow> string \<Rightarrow> string" where
  "trim_by ws s = (case leading ws s of None \<Rightarrow> s | Some w \<Rightarrow> trim_by ws (drop (length w) s))"
  by pat_completeness auto
termination
proof (relation "measure (\<lambda>(ws, s). length s)", goal_cases)
  case 1 show ?case by simp
next
  case (2 ws s w)
  then have "w \<noteq> []" "has_prefix s w" by (auto simp: leading_def find_Some_iff)
  then have "s \<noteq> []" "w \<noteq> []" by (cases s; cases w; auto)+
  then show ?case by (simp add: diff_less)
qed

declare trim_by.simps [simp del]

definition TrimSpace :: "string \<Rightarrow> string" where
  "TrimSpace s = rev (trim_by (map rev space_runes) (rev (trim_by space_runes s)))"

definition is_ascii :: "string \<Rightarrow> bool" where
  "is_ascii s = list_all (\<lambda>c. of_char c < (128::nat)) s"

definition lower_char :: "char \<Rightarrow> char" where
  "lower_char c =
     (if (65::nat) \<le> of_char c \<and> of_char c \<le> (90::nat) then char_of ((of_char c :: nat) + 32) else c)"

text \<open>
  \<open>strings.ToLower\<close> maps the ASCII letters byte by byte; a string with other bytes goes through
  Unicode's tables, which are the parameter \<open>ulower\<close>.
\<close>

definition ToLower :: "(string \<Rightarrow> string) \<Rightarrow> string \<Rightarrow> string" where
  "ToLower ulower s = (if is_ascii s then map lower_char s else ulower s)"

fun split_on :: "char \<Rightarrow> string \<Rightarrow> string list" where
  "split_on c [] = [[]]"
| "split_on c (x # xs) =
     (if x = c then [] # split_on c xs
      else (case split_on c xs of [] \<Rightarrow> [[x]] | p # ps \<Rightarrow> (x # p) # ps))"

fun join_with :: "string \<Rightarrow> string list \<Rightarrow> string" where
  "join_with sep [] = []"
| "join_with sep [p] = p"
| "join_with sep (p # q # ps) = p @ sep @ join_with sep (q # ps)"

text \<open>\<open>strings.Cut(s, sep)\<close> for a one-byte separator: before, after, found.\<close>

fun cut_at :: "char \<Rightarrow> string \<Rightarrow> string \<times> string \<times> bool" where
  "cut_at c [] = ([], [], False)"
| "cut_at c (x # xs) =
     (if x = c then ([], xs, True)
      else (case cut_at c xs of (b, a, f) \<Rightarrow> (x # b, a, f)))"

lemma has_prefix_iff: "has_prefix s p \<longleftrightarrow> prefix p s"
  by (induction s p rule: has_prefix.induct) auto

lemma has_suffix_iff: "has_suffix s p \<longleftrightarrow> suffix p s"
  by (simp add: has_suffix_def has_prefix_iff suffix_to_prefix)

lemma trim_by_no_leading: "leading ws (trim_by ws s) = None"
proof (induction ws s rule: trim_by.induct)
  case (1 ws s)
  then show ?case by (subst trim_by.simps) (auto split: option.splits simp: trim_by.simps [of ws s])
qed

lemma trim_by_fixed: "leading ws s = None \<Longrightarrow> trim_by ws s = s"
  by (simp add: trim_by.simps)

lemma trim_by_suffix: "suffix (trim_by ws s) s"
proof (induction ws s rule: trim_by.induct)
  case (1 ws s)
  show ?case
  proof (cases "leading ws s")
    case None
    then show ?thesis by (simp add: trim_by_fixed)
  next
    case (Some w)
    with 1 have "suffix (trim_by ws (drop (length w) s)) (drop (length w) s)" by simp
    then have "suffix (trim_by ws (drop (length w) s)) s"
      by (rule suffix_order.trans) (rule suffix_drop)
    with Some show ?thesis by (simp add: trim_by.simps [of ws s])
  qed
qed

lemma leading_prefix_None: "prefix t s \<Longrightarrow> leading ws s = None \<Longrightarrow> leading ws t = None"
  by (auto simp: leading_def find_None_iff has_prefix_iff dest: prefix_order.trans)

theorem TrimSpace_idem [simp]: "TrimSpace (TrimSpace s) = TrimSpace s"
proof -
  define l where "l = trim_by space_runes s"
  define r where "r = trim_by (map rev space_runes) (rev l)"
  have "suffix r (rev l)" by (simp add: r_def trim_by_suffix)
  then have "prefix (rev r) l" by (simp add: suffix_to_prefix)
  moreover have "leading space_runes l = None" by (simp add: l_def trim_by_no_leading)
  ultimately have "leading space_runes (rev r) = None" by (rule leading_prefix_None)
  then have "trim_by space_runes (rev r) = rev r" by (rule trim_by_fixed)
  moreover have "trim_by (map rev space_runes) r = r"
    by (rule trim_by_fixed) (simp add: r_def trim_by_no_leading)
  ultimately have "TrimSpace (rev r) = rev r" by (simp add: TrimSpace_def)
  then show ?thesis by (simp add: TrimSpace_def r_def l_def)
qed

lemma split_on_nonempty [simp]: "split_on c s \<noteq> []"
  by (induction s) (auto split: list.splits)

lemma split_on_no_sep: "c \<notin> set s \<Longrightarrow> split_on c s = [s]"
  by (induction s) auto

lemma split_on_append_sep: "c \<notin> set p \<Longrightarrow> split_on c (p @ c # s) = p # split_on c s"
  by (induction p) auto

lemma split_on_join:
  "ps \<noteq> [] \<Longrightarrow> \<forall>p \<in> set ps. c \<notin> set p \<Longrightarrow> split_on c (join_with [c] ps) = ps"
proof (induction "[c]" ps rule: join_with.induct)
  case 1 then show ?case by simp
next
  case (2 p) then show ?case by (simp add: split_on_no_sep)
next
  case (3 p q ps) then show ?case by (simp add: split_on_append_sep)
qed

lemma join_split_on: "join_with [c] (split_on c s) = s"
proof (induction s)
  case (Cons x s)
  then show ?case by (cases "split_on c s"; cases "tl (split_on c s)") auto
qed simp

lemma split_on_parts: "p \<in> set (split_on c s) \<Longrightarrow> c \<notin> set p"
  by (induction s arbitrary: p) (auto split: if_splits list.splits)

lemma trim_by_Nil [simp]: "trim_by ws [] = []"
  using trim_by_suffix [of ws "[]"] by simp

lemma TrimSpace_Nil [simp]: "TrimSpace [] = []"
  by (simp add: TrimSpace_def)

lemma cut_at_no_sep: "c \<notin> set s \<Longrightarrow> cut_at c s = (s, [], False)"
  by (induction s) auto

lemma cut_at_append_sep: "c \<notin> set p \<Longrightarrow> cut_at c (p @ c # s) = (p, s, True)"
  by (induction p) auto

lemma cut_at_found: "cut_at c s = (b, a, True) \<Longrightarrow> s = b @ c # a \<and> c \<notin> set b"
  by (induction s arbitrary: b) (auto split: if_splits prod.splits)

lemma cut_at_not_found: "cut_at c s = (b, a, False) \<Longrightarrow> b = s \<and> a = [] \<and> c \<notin> set s"
  by (induction s arbitrary: b) (auto split: if_splits prod.splits)

end
