(* ===== verification/Pagination.thy ===== *)
theory Pagination
  imports Prelude
begin

text \<open>
  Model of \<open>src/pkg/pagination/pagination.go\<close>: clamping of the requested page and size, and the
  navigation metadata of a page. Go's \<open>int\<close> and \<open>int64\<close> are integers in the 64-bit range.
\<close>

definition DefaultSize :: int where
  "DefaultSize = 20"

definition MaxSize :: int where
  "MaxSize = 100"

record meta =
  Page :: int
  Size :: int
  Total :: int
  Pages :: int
  HasNext :: bool
  HasPrev :: bool

record 'a page =
  Items :: "'a list"
  Meta :: meta

definition Normalize :: "int \<Rightarrow> int \<Rightarrow> int \<times> int" where
  "Normalize page sz =
     (let page = (if page < 1 then 1 else page);
          sz = (if sz < 1 then DefaultSize else sz);
          sz = (if sz > MaxSize then MaxSize else sz)
      in (page, sz))"

definition maximum_int :: int where
  "maximum_int = 2 ^ 63 - 1"

definition NewMeta :: "int \<Rightarrow> int \<Rightarrow> int \<Rightarrow> meta" where
  "NewMeta page sz tot =
     (let (page, sz) = Normalize page sz;
          tot = (if tot < 0 then 0 else tot);
          pages =
            (if tot > 0 then
               (let pageCount = tot div sz;
                    pageCount = (if tot mod sz \<noteq> 0 then pageCount + 1 else pageCount)
                in if pageCount > maximum_int then maximum_int else pageCount)
             else 0)
      in \<lparr>Page = page, Size = sz, Total = tot, Pages = pages,
          HasNext = page < pages, HasPrev = (page > 1 \<and> pages > 0)\<rparr>)"

text \<open>A nil slice is \<open>None\<close>; \<open>New\<close> turns it into the empty, non-nil slice.\<close>

definition New :: "'a list option \<Rightarrow> int \<Rightarrow> int \<Rightarrow> int \<Rightarrow> 'a page" where
  "New items page sz tot =
     \<lparr>Items = (case items of None \<Rightarrow> [] | Some xs \<Rightarrow> xs), Meta = NewMeta page sz tot\<rparr>"

lemma Normalize_bounds:
  "Normalize page sz = (p, s) \<Longrightarrow> 1 \<le> p \<and> 1 \<le> s \<and> s \<le> 100"
  by (auto simp: Normalize_def Let_def DefaultSize_def MaxSize_def split: if_splits)

lemma Normalize_id: "1 \<le> page \<Longrightarrow> 1 \<le> sz \<Longrightarrow> sz \<le> 100 \<Longrightarrow> Normalize page sz = (page, sz)"
  by (simp add: Normalize_def DefaultSize_def MaxSize_def)

lemma Normalize_idem: "Normalize page sz = (p, s) \<Longrightarrow> Normalize p s = (p, s)"
  using Normalize_bounds Normalize_id by blast

text \<open>The page count the code computes, characterised by the first index of each page.\<close>

definition ceil_div :: "int \<Rightarrow> int \<Rightarrow> int" where
  "ceil_div t s = (if t mod s \<noteq> 0 then t div s + 1 else t div s)"

lemma less_ceil_div_iff:
  assumes "0 < s"
  shows "p < ceil_div t s \<longleftrightarrow> p * s < t"
proof -
  have t: "t = t div s * s + t mod s" by simp
  have m: "0 \<le> t mod s" "t mod s < s" using assms by simp_all
  have le: "p * s \<le> t div s * s \<longleftrightarrow> p \<le> t div s" using assms by simp
  have gt: "(t div s + 1) * s \<le> p * s \<longleftrightarrow> t div s + 1 \<le> p" using assms by simp
  show ?thesis
  proof (cases "t mod s = 0")
    case True
    with t have "t = t div s * s" by simp
    then have "p * s < t \<longleftrightarrow> p * s < t div s * s" by metis
    with True assms show ?thesis by (simp add: ceil_div_def)
  next
    case False
    with m have "0 < t mod s" by simp
    then have "t div s * s < t" using t by linarith
    moreover have "t < (t div s + 1) * s" using t m unfolding distrib_right by linarith
    ultimately have "p * s < t \<longleftrightarrow> p \<le> t div s"
      using le gt by (cases "p \<le> t div s") auto
    with False show ?thesis by (auto simp: ceil_div_def)
  qed
qed

lemma ceil_div_le: "0 < s \<Longrightarrow> 0 \<le> t \<Longrightarrow> ceil_div t s \<le> t"
proof -
  assume "0 < s" "0 \<le> t"
  then have "\<not> t < ceil_div t s"
    by (simp add: less_ceil_div_iff not_less mult_le_cancel_left1)
  then show ?thesis by simp
qed

lemma NewMeta_pages:
  assumes "tot < 2 ^ 63"
  shows "Pages (NewMeta page sz tot) = ceil_div (max 0 tot) (Size (NewMeta page sz tot))"
    and "Page (NewMeta page sz tot) = max 1 page"
    and "1 \<le> Size (NewMeta page sz tot) \<and> Size (NewMeta page sz tot) \<le> 100"
    and "Total (NewMeta page sz tot) = max 0 tot"
proof -
  obtain p s where ps: "Normalize page sz = (p, s)" by fastforce
  then have b: "1 \<le> p" "1 \<le> s" "s \<le> 100" using Normalize_bounds by auto
  have c: "ceil_div tot s \<le> maximum_int" if "0 < tot"
    using ceil_div_le [of s tot] that b assms by (simp add: maximum_int_def)
  have z: "ceil_div 0 s = 0" using b by (simp add: ceil_div_def)
  show "Pages (NewMeta page sz tot) = ceil_div (max 0 tot) (Size (NewMeta page sz tot))"
    using c z by (cases "0 < tot") (auto simp: NewMeta_def ps Let_def max_def ceil_div_def split: if_splits)
  show "1 \<le> Size (NewMeta page sz tot) \<and> Size (NewMeta page sz tot) \<le> 100"
    using b by (simp add: NewMeta_def ps Let_def)
  show "Page (NewMeta page sz tot) = max 1 page"
    using ps by (auto simp: NewMeta_def Normalize_def Let_def split: if_splits)
  show "Total (NewMeta page sz tot) = max 0 tot"
    by (auto simp: NewMeta_def ps Let_def)
qed

text \<open>
  For every requested page, size and 64-bit total, the metadata is exact: the page is at least
  1, the sz between 1 and 100, the number of pages is the total divided by the sz rounded up
  (so the guard against overflow never changes it), another page follows exactly when items remain
  after this one, and the pages are exactly those whose first item index is below the total.
\<close>

theorem NewMeta_exact:
  assumes "tot < 2 ^ 63" and "m = NewMeta page sz tot"
  shows "1 \<le> Page m \<and> 1 \<le> Size m \<and> Size m \<le> 100 \<and> Total m = max 0 tot \<and>
    (\<forall>i. (0 \<le> i \<and> i < Pages m) = (0 \<le> i \<and> i * Size m < Total m)) \<and>
    HasNext m = (Page m * Size m < Total m) \<and>
    HasPrev m = (1 < Page m \<and> 0 < Total m)"
proof -
  note facts = NewMeta_pages [OF assms(1), of page sz, folded assms(2)]
  have s: "0 < Size m" using facts(3) by simp
  have n: "HasNext m = (Page m < Pages m)" and h: "HasPrev m = (Page m > 1 \<and> Pages m > 0)"
    by (simp_all add: assms(2) NewMeta_def Let_def split: prod.split)
  have pages: "p < Pages m \<longleftrightarrow> p * Size m < Total m" for p
    using less_ceil_div_iff [OF s, of p "Total m"] facts(1,4) by simp
  have bounds: "1 \<le> Page m" "1 \<le> Size m" "Size m \<le> 100" "Total m = max 0 tot"
    using facts(2-4) by simp_all
  show ?thesis
    unfolding n h pages by (simp add: bounds)
qed

theorem NewMeta_exact_witness:
  "NewMeta 2 10 25 = \<lparr>Page = 2, Size = 10, Total = 25, Pages = 3, HasNext = True, HasPrev = True\<rparr> \<and>
   (HasNext (NewMeta 2 10 25) \<longleftrightarrow> Page (NewMeta 2 10 25) * Size (NewMeta 2 10 25) < Total (NewMeta 2 10 25))"
  using NewMeta_exact [OF _ refl, of 25 2 10]
  by (simp add: NewMeta_def Normalize_def DefaultSize_def MaxSize_def maximum_int_def)

end
