(* ===== verification/Resilience.thy ===== *)
theory Resilience
  imports Prelude "HOL-Library.Word"
begin

text \<open>
  Model of \<open>src/pkg/platform/resilience\<close>: the circuit breaker (\<open>breaker.go\<close>) as a state machine with
  calls in flight, and the retry loop with exponential backoff (\<open>retry.go\<close>). The mutex makes each of
  \<open>acquire\<close>, \<open>record\<close> and \<open>State\<close> one atomic step; calls overlap between \<open>acquire\<close> and \<open>record\<close>.
  Times and durations are nanoseconds. The clock is read once by each step and passed to it.
\<close>

section \<open>Circuit breaker\<close>

datatype BreakerState = StateClosed | StateOpen | StateHalfOpen

definition BreakerState_String :: "BreakerState \<Rightarrow> string" where
  "BreakerState_String state =
     (case state of StateClosed \<Rightarrow> ''closed'' | StateOpen \<Rightarrow> ''open'' | StateHalfOpen \<Rightarrow> ''half-open'')"

record CircuitBreaker =
  failureThreshold :: "32 word"
  openTimeout :: int
  state :: BreakerState
  generation :: "64 word"
  failures :: "32 word"
  openedAt :: int
  probeInFlight :: bool

datatype breaker_config_error = ThresholdNotPositive | TimeoutNotPositive | ClockRequired

definition NewCircuitBreaker ::
    "32 word \<Rightarrow> int \<Rightarrow> bool \<Rightarrow> breaker_config_error + CircuitBreaker" where
  "NewCircuitBreaker threshold timeout hasClock =
     (if threshold = 0 then Inl ThresholdNotPositive
      else if timeout \<le> 0 then Inl TimeoutNotPositive
      else if \<not> hasClock then Inl ClockRequired
      else Inr \<lparr>failureThreshold = threshold, openTimeout = timeout, state = StateClosed,
                generation = 0, failures = 0, openedAt = 0, probeInFlight = False\<rparr>)"

definition advanceState :: "int \<Rightarrow> CircuitBreaker \<Rightarrow> CircuitBreaker" where
  "advanceState now b =
     (if state b = StateOpen \<and> now - openedAt b \<ge> openTimeout b
      then b\<lparr>state := StateHalfOpen, generation := generation b + 1, probeInFlight := False\<rparr>
      else b)"

definition open_breaker :: "int \<Rightarrow> CircuitBreaker \<Rightarrow> CircuitBreaker" where
  "open_breaker now b =
     b\<lparr>state := StateOpen, generation := generation b + 1, failures := 0,
        openedAt := now, probeInFlight := False\<rparr>"

definition State :: "int \<Rightarrow> CircuitBreaker \<Rightarrow> BreakerState \<times> CircuitBreaker" where
  "State now b = (let b = advanceState now b in (state b, b))"

datatype breaker_error = ErrCircuitOpen

definition acquire :: "int \<Rightarrow> CircuitBreaker \<Rightarrow> (breaker_error + 64 word) \<times> CircuitBreaker" where
  "acquire now b =
     (let b = advanceState now b in
      if state b = StateOpen then (Inl ErrCircuitOpen, b)
      else if state b = StateHalfOpen then
        (if probeInFlight b then (Inl ErrCircuitOpen, b)
         else let b = b\<lparr>probeInFlight := True\<rparr> in (Inr (generation b), b))
      else (Inr (generation b), b))"

text \<open>
  \<open>errors.Is\<close> is the parameter \<open>is_err\<close>. The caller cancelled when its context has an error and the
  operation's error is that one.
\<close>

definition callerCancelled :: "('e \<Rightarrow> 'e \<Rightarrow> bool) \<Rightarrow> 'e option \<Rightarrow> 'e option \<Rightarrow> bool" where
  "callerCancelled is_err ctxErr err =
     (case (ctxErr, err) of (Some c, Some e) \<Rightarrow> is_err e c | _ \<Rightarrow> False)"

definition record_result ::
    "('e \<Rightarrow> 'e \<Rightarrow> bool) \<Rightarrow> int \<Rightarrow> 'e option \<Rightarrow> 64 word \<Rightarrow> 'e option \<Rightarrow> CircuitBreaker \<Rightarrow> CircuitBreaker" where
  "record_result is_err now ctxErr gen err b =
     (if gen \<noteq> generation b then b
      else if state b = StateHalfOpen then
        (let b = b\<lparr>probeInFlight := False\<rparr> in
         if callerCancelled is_err ctxErr err then b
         else if err = None then b\<lparr>state := StateClosed, generation := generation b + 1, failures := 0\<rparr>
         else open_breaker now b)
      else if err = None then b\<lparr>failures := 0\<rparr>
      else if callerCancelled is_err ctxErr err then b
      else let b = b\<lparr>failures := failures b + 1\<rparr> in
           if failures b \<ge> failureThreshold b then open_breaker now b else b)"

text \<open>
  \<open>Execute\<close> of one call that no other call overlaps: the context is checked, the breaker is acquired,
  the operation runs, and its outcome is recorded. A panic is recorded as the failure
  \<open>panicErr\<close> and rethrown.
\<close>

datatype 'e call_outcome = Returned "'e option" | Panicked

datatype 'e execute_result = CtxError 'e | CircuitOpen | Done "'e call_outcome"

definition Execute ::
    "('e \<Rightarrow> 'e \<Rightarrow> bool) \<Rightarrow> 'e \<Rightarrow> int \<Rightarrow> 'e option \<Rightarrow> int \<Rightarrow> 'e option \<Rightarrow> 'e call_outcome \<Rightarrow> CircuitBreaker
      \<Rightarrow> 'e execute_result \<times> CircuitBreaker" where
  "Execute is_err panicErr now ctxBefore now' ctxAfter outcome b =
     (case ctxBefore of
        Some e \<Rightarrow> (CtxError e, b)
      | None \<Rightarrow>
          (case acquire now b of
             (Inl _, b) \<Rightarrow> (CircuitOpen, b)
           | (Inr gen, b) \<Rightarrow>
               (case outcome of
                  Panicked \<Rightarrow> (Done Panicked, record_result is_err now' ctxAfter gen (Some panicErr) b)
                | Returned err \<Rightarrow> (Done (Returned err), record_result is_err now' ctxAfter gen err b))))"

subsection \<open>Overlapping calls\<close>

text \<open>
  The system: the breaker and the calls in flight, each with the generation it was admitted under
  and whether it was admitted as a half-open probe.
\<close>

record breaker_sys =
  br :: CircuitBreaker
  inflight :: "(64 word \<times> bool) list"

inductive breaker_step :: "breaker_sys \<Rightarrow> breaker_sys \<Rightarrow> bool" where
  admit: "acquire now (br s) = (Inr g, b) \<Longrightarrow>
     breaker_step s (s\<lparr>br := b, inflight := (g, state b = StateHalfOpen) # inflight s\<rparr>)"
| reject: "acquire now (br s) = (Inl e, b) \<Longrightarrow> breaker_step s (s\<lparr>br := b\<rparr>)"
| finish: "inflight s = xs @ (g, p) # ys \<Longrightarrow>
     breaker_step s (s\<lparr>br := record_result is_err now ctxErr g (err :: string option) (br s), inflight := xs @ ys\<rparr>)"
| observe: "State now (br s) = (st, b) \<Longrightarrow> breaker_step s (s\<lparr>br := b\<rparr>)"

text \<open>States reached from a new breaker in a given number of steps.\<close>

inductive breaker_reach :: "nat \<Rightarrow> breaker_sys \<Rightarrow> bool" where
  start: "NewCircuitBreaker threshold timeout True = Inr b \<Longrightarrow> breaker_reach 0 \<lparr>br = b, inflight = []\<rparr>"
| step: "breaker_reach n s \<Longrightarrow> breaker_step s t \<Longrightarrow> breaker_reach (Suc n) t"

definition live :: "breaker_sys \<Rightarrow> (64 word \<times> bool) list" where
  "live s = filter (\<lambda>t. fst t = generation (br s)) (inflight s)"

definition breaker_inv :: "nat \<Rightarrow> breaker_sys \<Rightarrow> bool" where
  "breaker_inv n s \<longleftrightarrow>
     failureThreshold (br s) \<noteq> 0 \<and> 0 < openTimeout (br s) \<and>
     failures (br s) < failureThreshold (br s) \<and>
     unat (generation (br s)) \<le> n \<and>
     (\<forall>t \<in> set (inflight s). unat (fst t) \<le> unat (generation (br s))) \<and>
     (state (br s) \<noteq> StateClosed \<longrightarrow> failures (br s) = 0) \<and>
     (state (br s) = StateOpen \<longrightarrow> live s = [] \<and> \<not> probeInFlight (br s)) \<and>
     (state (br s) = StateClosed \<longrightarrow> (\<forall>t \<in> set (live s). \<not> snd t) \<and> \<not> probeInFlight (br s)) \<and>
     (state (br s) = StateHalfOpen \<longrightarrow>
        live s = (if probeInFlight (br s) then [(generation (br s), True)] else []))"

lemma unat_lt2p32: "unat (w :: 32 word) < 2 ^ 32"
  using unsigned_less [of w] by simp

lemma unat_bump: "unat (g :: 64 word) \<le> n \<Longrightarrow> Suc n < 2 ^ 64 \<Longrightarrow> unat (g + 1) = Suc (unat g)"
  by (subst unat_add_lem [THEN iffD1]) auto

lemma no_live_after_bump:
  assumes "\<forall>t \<in> set xs. unat (fst t) \<le> unat (g :: 64 word)" and "unat (g + 1) = Suc (unat g)"
  shows "filter (\<lambda>t. fst t = g + 1) xs = []"
  using assms by (auto simp: filter_empty_conv)

lemma bounded_after_bump:
  assumes "\<forall>t \<in> set xs. unat (fst t) \<le> unat (g :: 64 word)" and "unat (g + 1) = Suc (unat g)"
  shows "\<forall>t \<in> set xs. unat (fst t) \<le> unat (g + 1)"
  using assms by auto

lemma breaker_inv_mono: "breaker_inv n s \<Longrightarrow> breaker_inv (Suc n) s"
  by (auto simp: breaker_inv_def)

lemma breaker_inv_advance:
  assumes "breaker_inv n s" and "Suc n < 2 ^ 64"
  shows "breaker_inv (Suc n) (s\<lparr>br := advanceState now (br s)\<rparr>)"
proof (cases "state (br s) = StateOpen \<and> now - openedAt (br s) \<ge> openTimeout (br s)")
  case True
  have b: "unat (generation (br s) + 1) = Suc (unat (generation (br s)))"
    using assms by (auto simp: breaker_inv_def intro: unat_bump)
  show ?thesis
    using assms True b no_live_after_bump [of "inflight s" "generation (br s)"]
    by (auto simp: breaker_inv_def advanceState_def live_def)
next
  case False
  then have "advanceState now (br s) = br s" by (auto simp: advanceState_def)
  with assms show ?thesis by (simp add: breaker_inv_mono)
qed

lemma breaker_inv_open:
  assumes "breaker_inv n s" and "Suc n < 2 ^ 64" and "set xs \<subseteq> set (inflight s)"
    and "generation b = generation (br s)" "failureThreshold b = failureThreshold (br s)"
      "openTimeout b = openTimeout (br s)"
  shows "breaker_inv (Suc n) (s\<lparr>br := open_breaker now b, inflight := xs\<rparr>)"
proof -
  have b: "unat (generation (br s) + 1) = Suc (unat (generation (br s)))"
    using assms(1,2) by (auto simp: breaker_inv_def intro: unat_bump)
  have xs: "\<forall>t \<in> set xs. unat (fst t) \<le> unat (generation (br s))"
    using assms(1,3) by (auto simp: breaker_inv_def)
  show ?thesis
    using assms b no_live_after_bump [OF xs b] bounded_after_bump [OF xs b]
    by (auto simp: breaker_inv_def open_breaker_def live_def word_gt_0)
qed

lemma breaker_inv_admit_closed:
  assumes "breaker_inv n s" and "state (br s) = StateClosed"
  shows "breaker_inv n (s\<lparr>inflight := (generation (br s), False) # inflight s\<rparr>)"
  using assms by (auto simp: breaker_inv_def live_def)

lemma breaker_inv_admit_probe:
  assumes "breaker_inv n s" and "state (br s) = StateHalfOpen" and "\<not> probeInFlight (br s)"
  shows "breaker_inv n (s\<lparr>br := (br s)\<lparr>probeInFlight := True\<rparr>,
                          inflight := (generation (br s), True) # inflight s\<rparr>)"
  using assms by (auto simp: breaker_inv_def live_def word_gt_0)

lemma breaker_inv_admit:
  assumes "breaker_inv n s" and "Suc n < 2 ^ 64" and acq: "acquire now (br s) = (Inr g, b)"
  shows "breaker_inv (Suc n) (s\<lparr>br := b, inflight := (g, state b = StateHalfOpen) # inflight s\<rparr>)"
proof -
  define c where "c = advanceState now (br s)"
  have inv: "breaker_inv (Suc n) (s\<lparr>br := c\<rparr>)"
    unfolding c_def by (rule breaker_inv_advance [OF assms(1,2)])
  show ?thesis
  proof (cases "state c")
    case StateOpen
    with acq show ?thesis by (simp add: acquire_def Let_def c_def [symmetric])
  next
    case StateClosed
    with acq have "b = c" "g = generation c"
      by (auto simp: acquire_def Let_def c_def [symmetric])
    with breaker_inv_admit_closed [OF inv] StateClosed show ?thesis by simp
  next
    case StateHalfOpen
    with acq have "\<not> probeInFlight c" "b = c\<lparr>probeInFlight := True\<rparr>" "g = generation c"
      by (auto simp: acquire_def Let_def c_def [symmetric] split: if_splits)
    with breaker_inv_admit_probe [OF inv] StateHalfOpen show ?thesis by simp
  qed
qed

lemma breaker_inv_reject:
  assumes "breaker_inv n s" and "Suc n < 2 ^ 64" and "acquire now (br s) = (Inl e, b)"
  shows "breaker_inv (Suc n) (s\<lparr>br := b\<rparr>)"
proof -
  have "b = advanceState now (br s)" using assms(3) by (auto simp: acquire_def Let_def split: if_splits)
  then show ?thesis using breaker_inv_advance [OF assms(1,2)] by simp
qed

text \<open>Removing the finished call from the calls in flight.\<close>

lemma live_removed:
  "inflight s = xs @ (g, p) # ys \<Longrightarrow>
   live s = filter (\<lambda>t. fst t = generation (br s)) xs @
     (if g = generation (br s) then [(g, p)] else []) @ filter (\<lambda>t. fst t = generation (br s)) ys"
  by (simp add: live_def)

lemma breaker_inv_finish_halfopen:
  assumes inv: "breaker_inv n s" and bd: "Suc n < 2 ^ 64"
    and fl: "inflight s = xs @ (generation (br s), p) # ys" and st: "state (br s) = StateHalfOpen"
  shows "breaker_inv (Suc n) (s\<lparr>br := (br s)\<lparr>probeInFlight := False\<rparr>, inflight := xs @ ys\<rparr>)"
    and "breaker_inv (Suc n) (s\<lparr>br := (br s)\<lparr>probeInFlight := False, state := StateClosed,
           generation := generation (br s) + 1, failures := 0\<rparr>, inflight := xs @ ys\<rparr>)"
proof -
  have b: "unat (generation (br s) + 1) = Suc (unat (generation (br s)))"
    using inv bd by (auto simp: breaker_inv_def intro: unat_bump)
  have xs: "\<forall>t \<in> set (xs @ ys). unat (fst t) \<le> unat (generation (br s))"
    using inv fl by (auto simp: breaker_inv_def)
  have none: "filter (\<lambda>t. fst t = generation (br s)) xs = []" "filter (\<lambda>t. fst t = generation (br s)) ys = []"
    using inv st live_removed [OF fl] by (auto simp: breaker_inv_def append_eq_Cons_conv split: if_splits)
  show "breaker_inv (Suc n) (s\<lparr>br := (br s)\<lparr>probeInFlight := False\<rparr>, inflight := xs @ ys\<rparr>)"
    using inv st xs none by (auto simp: breaker_inv_def live_def)
  show "breaker_inv (Suc n) (s\<lparr>br := (br s)\<lparr>probeInFlight := False, state := StateClosed,
           generation := generation (br s) + 1, failures := 0\<rparr>, inflight := xs @ ys\<rparr>)"
    using inv b no_live_after_bump [OF xs b] bounded_after_bump [OF xs b]
    by (auto simp: breaker_inv_def live_def word_gt_0)
qed

lemma breaker_inv_finish_closed:
  assumes inv: "breaker_inv n s" and fl: "inflight s = xs @ t # ys"
    and st: "state (br s) = StateClosed" and f: "f < failureThreshold (br s)"
  shows "breaker_inv (Suc n) (s\<lparr>br := (br s)\<lparr>failures := f\<rparr>, inflight := xs @ ys\<rparr>)"
  using assms by (auto simp: breaker_inv_def live_def split: if_splits)

lemma breaker_inv_finish:
  assumes inv: "breaker_inv n s" and bd: "Suc n < 2 ^ 64" and fl: "inflight s = xs @ (g, p) # ys"
  shows "breaker_inv (Suc n) (s\<lparr>br := record_result is_err now ctxErr g err (br s), inflight := xs @ ys\<rparr>)"
proof (cases "g = generation (br s)")
  case False
  with inv fl show ?thesis
    by (auto simp: record_result_def breaker_inv_def live_def split: if_splits)
next
  case True
  have openI: "breaker_inv (Suc n) (s\<lparr>br := open_breaker now b', inflight := xs @ ys\<rparr>)"
    if "generation b' = generation (br s)" "failureThreshold b' = failureThreshold (br s)"
      "openTimeout b' = openTimeout (br s)" for b'
    by (rule breaker_inv_open [OF inv bd _ that]) (auto simp: fl)
  show ?thesis
  proof (cases "state (br s)")
    case StateOpen
    then show ?thesis using inv live_removed [OF fl] True by (auto simp: breaker_inv_def)
  next
    case StateHalfOpen
    show ?thesis
      using breaker_inv_finish_halfopen [OF inv bd fl [unfolded True] StateHalfOpen] StateHalfOpen True openI
      by (simp add: record_result_def Let_def)
  next
    case StateClosed
    note keep = breaker_inv_finish_closed [OF inv fl StateClosed]
    have "0 < failureThreshold (br s)" "failures (br s) < failureThreshold (br s)"
      using inv by (auto simp: breaker_inv_def word_gt_0)
    with keep [of 0] keep [of "failures (br s)"] keep [of "failures (br s) + 1"] StateClosed True openI
    show ?thesis by (simp add: record_result_def Let_def)
  qed
qed

lemma breaker_inv_step:
  assumes "breaker_step s t" and "breaker_inv n s" and "Suc n < 2 ^ 64"
  shows "breaker_inv (Suc n) t"
  using assms
proof (induction rule: breaker_step.induct)
  case (admit now s g b)
  then show ?case by (intro breaker_inv_admit) auto
next
  case (reject now s e b)
  then show ?case by (intro breaker_inv_reject) auto
next
  case (finish s xs g p ys is_err now ctxErr err)
  then show ?case by (intro breaker_inv_finish) auto
next
  case (observe now s st b)
  then have "b = advanceState now (br s)" by (simp add: State_def Let_def)
  with observe breaker_inv_advance show ?case by simp
qed

lemma breaker_inv_reach: "breaker_reach n s \<Longrightarrow> n < 2 ^ 64 \<Longrightarrow> breaker_inv n s"
proof (induction rule: breaker_reach.induct)
  case (start threshold timeout b)
  then show ?case
    by (auto simp: NewCircuitBreaker_def breaker_inv_def live_def word_gt_0 split: if_splits)
next
  case (step n s t)
  then show ?case by (simp add: breaker_inv_step)
qed

text \<open>
  C38: in every state a new breaker can reach in fewer than 2 to the 64 steps, however its calls
  overlap: the failure count stays below the threshold; while the circuit is open or half-open the
  count is zero; when it is open no call that could still change the breaker is in flight; and when
  it is half-open at most one such call is in flight, it is the probe, and the probe flag says
  whether it is there.
\<close>

theorem breaker_reachable_safe:
  assumes "breaker_reach n s" and "n < 2 ^ 64"
  shows "failures (br s) < failureThreshold (br s) \<and>
    (state (br s) \<noteq> StateClosed \<longrightarrow> failures (br s) = 0) \<and>
    (state (br s) = StateOpen \<longrightarrow> live s = []) \<and>
    (state (br s) = StateHalfOpen \<longrightarrow>
       live s = (if probeInFlight (br s) then [(generation (br s), True)] else []))"
  using breaker_inv_reach [OF assms] unfolding breaker_inv_def by blast

text \<open>The witness: a breaker with threshold 1 that failed once, waited, and admitted a probe.\<close>

definition sample_breaker :: CircuitBreaker where
  "sample_breaker = \<lparr>failureThreshold = 1, openTimeout = 5, state = StateClosed,
     generation = 0, failures = 0, openedAt = 0, probeInFlight = False\<rparr>"

lemma sample_breaker_probe:
  "breaker_reach 3 \<lparr>br = sample_breaker\<lparr>state := StateHalfOpen, generation := 2, openedAt := 10,
     probeInFlight := True\<rparr>, inflight = [(2, True)]\<rparr>"
proof -
  have 0: "breaker_reach 0 \<lparr>br = sample_breaker, inflight = []\<rparr>"
    by (rule breaker_reach.start [of 1 5]) (simp add: NewCircuitBreaker_def sample_breaker_def)
  have "breaker_step \<lparr>br = sample_breaker, inflight = []\<rparr>
      (\<lparr>br = sample_breaker, inflight = []\<rparr>\<lparr>br := sample_breaker,
         inflight := (0, state sample_breaker = StateHalfOpen) # inflight \<lparr>br = sample_breaker, inflight = []\<rparr>\<rparr>)"
    by (rule breaker_step.admit [of 7]) (simp add: acquire_def advanceState_def sample_breaker_def)
  with 0 have 1: "breaker_reach (Suc 0) \<lparr>br = sample_breaker, inflight = [(0, False)]\<rparr>"
    using breaker_reach.step by (force simp: sample_breaker_def)
  have "breaker_step \<lparr>br = sample_breaker, inflight = [(0, False)]\<rparr>
      (\<lparr>br = sample_breaker, inflight = [(0, False)]\<rparr>
         \<lparr>br := record_result (=) 10 None 0 (Some ''x'') (br \<lparr>br = sample_breaker, inflight = [(0, False)]\<rparr>),
          inflight := [] @ []\<rparr>)"
    by (rule breaker_step.finish [where p = False]) simp
  with 1 have 2: "breaker_reach (Suc (Suc 0)) \<lparr>br = open_breaker 10 sample_breaker, inflight = []\<rparr>"
    using breaker_reach.step
    by (force simp: sample_breaker_def record_result_def open_breaker_def callerCancelled_def)
  define ob where "ob = (open_breaker 10 sample_breaker)"
  have "breaker_step \<lparr>br = ob, inflight = []\<rparr>
      (\<lparr>br = ob, inflight = []\<rparr>\<lparr>br := sample_breaker\<lparr>state := StateHalfOpen, generation := 2, openedAt := 10,
          probeInFlight := True\<rparr>,
         inflight := (2, state (sample_breaker\<lparr>state := StateHalfOpen, generation := 2, openedAt := 10,
          probeInFlight := True\<rparr>) = StateHalfOpen) # inflight \<lparr>br = ob, inflight = []\<rparr>\<rparr>)"
    by (rule breaker_step.admit [of 15])
      (simp add: acquire_def advanceState_def sample_breaker_def ob_def open_breaker_def)
  with 2 show ?thesis
    using breaker_reach.step by (fastforce simp: ob_def numeral_3_eq_3)
qed

theorem breaker_reachable_safe_witness:
  "live \<lparr>br = sample_breaker\<lparr>state := StateHalfOpen, generation := 2, openedAt := 10,
     probeInFlight := True\<rparr>, inflight = [(2, True)]\<rparr> = [(2, True)]"
  using breaker_reachable_safe [OF sample_breaker_probe] by simp

subsection \<open>Opening after consecutive failures\<close>

fun fail_times :: "int \<Rightarrow> nat \<Rightarrow> CircuitBreaker \<Rightarrow> CircuitBreaker" where
  "fail_times now 0 b = b"
| "fail_times now (Suc k) b =
     fail_times now k (snd (Execute (=) ''panic'' now None now None (Returned (Some ''down'')) b))"

lemma fail_once:
  assumes "state b = StateClosed" and "unat (failures b) + 1 < 2 ^ 32"
  shows "snd (Execute (=) p now None now None (Returned (Some e)) b) =
    (if Suc (unat (failures b)) < unat (failureThreshold b) then b\<lparr>failures := failures b + 1\<rparr>
     else open_breaker now (b\<lparr>failures := failures b + 1\<rparr>))"
proof -
  have "unat (failures b + 1) = Suc (unat (failures b))"
    using assms(2) by (subst unat_add_lem [THEN iffD1]) auto
  then show ?thesis using assms(1)
    by (auto simp: Execute_def acquire_def advanceState_def record_result_def Let_def
        callerCancelled_def word_le_nat_alt)
qed

lemma fail_times_closed:
  "state b = StateClosed \<Longrightarrow> unat (failures b) + k < unat (failureThreshold b) \<Longrightarrow>
   fail_times now k b = b\<lparr>failures := failures b + of_nat k\<rparr>"
proof (induction k arbitrary: b)
  case 0
  then show ?case by simp
next
  case (Suc k)
  have T: "unat (failureThreshold b) < 2 ^ 32" using unat_lt2p32 [of "failureThreshold b"] by simp
  with Suc.prems have u: "unat (failures b + 1) = Suc (unat (failures b))"
    by (subst unat_add_lem [THEN iffD1]) auto
  from Suc.prems T have "snd (Execute (=) ''panic'' now None now None (Returned (Some ''down'')) b) =
      b\<lparr>failures := failures b + 1\<rparr>"
    by (subst fail_once) auto
  with Suc.IH [of "b\<lparr>failures := failures b + 1\<rparr>"] Suc.prems u show ?case
    by (simp add: algebra_simps)
qed

lemma fail_times_add: "fail_times now (m + k) b = fail_times now k (fail_times now m b)"
  by (induction m arbitrary: b) auto

text \<open>
  A closed breaker with no failures counted stays closed under fewer failing calls than its
  threshold, is open after exactly as many, and then refuses every call until the open timeout has
  passed, at which moment it admits one probe and refuses a second one.
\<close>

theorem breaker_opens_at_threshold:
  assumes "state b = StateClosed" and "failures b = 0" and "0 < unat (failureThreshold b)"
  shows "(k < unat (failureThreshold b) \<longrightarrow> state (fail_times now k b) = StateClosed) \<and>
    (\<forall>c. c = fail_times now (unat (failureThreshold b)) b \<longrightarrow>
       state c = StateOpen \<and>
       (later - now < openTimeout b \<longrightarrow> acquire later c = (Inl ErrCircuitOpen, c)) \<and>
       (openTimeout b \<le> later - now \<longrightarrow>
          (\<exists>g d. acquire later c = (Inr g, d) \<and> state d = StateHalfOpen \<and>
                 fst (acquire later d) = Inl ErrCircuitOpen)))"
proof -
  obtain m where m: "unat (failureThreshold b) = Suc m" using assms(3) by (cases "unat (failureThreshold b)") auto
  have T: "unat (failureThreshold b) < 2 ^ 32" using unat_lt2p32 [of "failureThreshold b"] by simp
  have um: "unat (of_nat m :: 32 word) = m" using m T by (simp add: unat_of_nat)
  define c where "c = fail_times now m b"
  have c: "c = b\<lparr>failures := of_nat m\<rparr>"
    unfolding c_def using assms m by (subst fail_times_closed) auto
  have "fail_times now (Suc m) b = snd (Execute (=) ''panic'' now None now None (Returned (Some ''down'')) c)"
    using fail_times_add [of now m 1 b] by (simp add: c_def)
  also have "\<dots> = open_breaker now (c\<lparr>failures := failures c + 1\<rparr>)"
    using assms m T um by (subst fail_once) (auto simp: c)
  finally have o: "fail_times now (unat (failureThreshold b)) b = open_breaker now (c\<lparr>failures := failures c + 1\<rparr>)"
    by (simp add: m)
  have "state (fail_times now k b) = StateClosed" if "k < unat (failureThreshold b)"
    using that assms by (subst fail_times_closed) auto
  then show ?thesis
    unfolding o by (auto simp: open_breaker_def acquire_def advanceState_def Let_def c)
qed

theorem breaker_opens_at_threshold_witness:
  "state (fail_times 10 0 sample_breaker) = StateClosed \<and> state (fail_times 10 1 sample_breaker) = StateOpen"
  using breaker_opens_at_threshold [of sample_breaker 0 10 0] by (simp add: sample_breaker_def)

end
