(* ===== verification/Retry.thy ===== *)
theory Retry
  imports Prelude
begin

text \<open>
  Model of \<open>src/pkg/platform/resilience/retry.go\<close>: the retry loop and its exponential backoff. The
  operation and the context are parameters: for each attempt, what the operation returns, whether
  the context already has an error before the attempt, and whether it is done before the timer
  fires in the wait after the attempt (the \<open>select\<close> of the source). The model returns, beside the
  result, the attempts made and the delays waited for. Durations are 64-bit nanoseconds.
\<close>

record 'e RetryPolicy =
  MaxAttempts :: int
  InitialBackoff :: int
  MaxBackoff :: int
  RetryIf :: "('e \<Rightarrow> bool) option"

record 'e retry_env =
  operation :: "int \<Rightarrow> 'e option"
  ctx_before :: "int \<Rightarrow> 'e option"
  ctx_waiting :: "int \<Rightarrow> 'e option"

datatype 'e retry_result = ErrInvalidRetryPolicy | RetryNil | RetryErr 'e

definition nextBackoff :: "int \<Rightarrow> int \<Rightarrow> int" where
  "nextBackoff current maximum =
     (if current = 0 then 0
      else if maximum > 0 \<and> current \<ge> maximum then maximum
      else let n = int64 (current * 2) in
           if n < current \<or> (maximum > 0 \<and> n > maximum) then maximum else n)"

definition gives_up :: "'e RetryPolicy \<Rightarrow> int \<Rightarrow> 'e \<Rightarrow> bool" where
  "gives_up P attempt e \<longleftrightarrow>
     attempt = MaxAttempts P \<or> (case RetryIf P of None \<Rightarrow> False | Some f \<Rightarrow> \<not> f e)"

function retry_loop ::
    "'e RetryPolicy \<Rightarrow> 'e retry_env \<Rightarrow> int \<Rightarrow> int \<Rightarrow> int list \<Rightarrow> int list \<Rightarrow> 'e retry_result \<times> int list \<times> int list" where
  "retry_loop P E attempt delay calls waits =
     (if attempt \<le> MaxAttempts P then
        (case ctx_before E attempt of
           Some e \<Rightarrow> (RetryErr e, calls, waits)
         | None \<Rightarrow>
             (case operation E attempt of
                None \<Rightarrow> (RetryNil, calls @ [attempt], waits)
              | Some e \<Rightarrow>
                  if gives_up P attempt e then (RetryErr e, calls @ [attempt], waits)
                  else if delay > 0 then
                    (case ctx_waiting E attempt of
                       Some c \<Rightarrow> (RetryErr c, calls @ [attempt], waits @ [delay])
                     | None \<Rightarrow> retry_loop P E (attempt + 1) (nextBackoff delay (MaxBackoff P))
                                 (calls @ [attempt]) (waits @ [delay]))
                  else retry_loop P E (attempt + 1) (nextBackoff delay (MaxBackoff P))
                         (calls @ [attempt]) waits))
      else (RetryNil, calls, waits))"
  by pat_completeness auto
termination
  by (relation "measure (\<lambda>(P, E, attempt, _). nat (MaxAttempts P + 1 - attempt))") auto

declare retry_loop.simps [simp del]

definition Retry :: "'e RetryPolicy \<Rightarrow> 'e retry_env \<Rightarrow> 'e retry_result \<times> int list \<times> int list" where
  "Retry P E =
     (if MaxAttempts P \<le> 0 \<or> InitialBackoff P < 0 \<or> MaxBackoff P < 0
      then (ErrInvalidRetryPolicy, [], [])
      else retry_loop P E 1 (InitialBackoff P) [] [])"

section \<open>Attempts\<close>

text \<open>What one run of the loop promises, from any attempt on.\<close>

definition retry_ok ::
    "'e RetryPolicy \<Rightarrow> 'e retry_env \<Rightarrow> int \<Rightarrow> 'e retry_result \<Rightarrow> int list \<Rightarrow> bool" where
  "retry_ok P E attempt r made \<longleftrightarrow>
     made = [attempt..attempt + int (length made) - 1] \<and>
     attempt + int (length made) - 1 \<le> MaxAttempts P \<and>
     (\<forall>i \<in> set (butlast made). \<exists>e. operation E i = Some e \<and> \<not> gives_up P i e) \<and>
     (r = RetryNil \<longleftrightarrow> made \<noteq> [] \<and> operation E (last made) = None)"

lemma retry_ok_Cons:
  assumes "retry_ok P E (attempt + 1) r made" and "operation E attempt = Some e" and "\<not> gives_up P attempt e"
  shows "retry_ok P E attempt r (attempt # made)"
proof -
  have "[attempt..attempt + int (length made)] = attempt # [attempt + 1..attempt + int (length made)]"
    by (simp add: upto_rec1)
  with assms show ?thesis
    by (cases "made = []") (auto simp: retry_ok_def)
qed

lemma retry_loop_ok:
  assumes "attempt \<le> MaxAttempts P"
  shows "retry_loop P E attempt delay calls waits = (r, calls', waits') \<Longrightarrow>
    \<exists>made. calls' = calls @ made \<and> retry_ok P E attempt r made"
  using assms
proof (induction P E attempt delay calls waits arbitrary: r calls' waits' rule: retry_loop.induct)
  case (1 P E attempt delay calls waits)
  note run = "1.prems"(1) [unfolded retry_loop.simps [of P E attempt]]
  have stop: "retry_ok P E attempt r [attempt]"
    if "operation E attempt = None \<longleftrightarrow> r = RetryNil" for r
    using that "1.prems"(2) by (auto simp: retry_ok_def)
  have none: "retry_ok P E attempt r []" if "r \<noteq> RetryNil" for r
    using that "1.prems"(2) by (simp add: retry_ok_def)
  show ?case
  proof (cases "ctx_before E attempt")
    case (Some e)
    with run "1.prems"(2) none show ?thesis by auto
  next
    case cb: None
    show ?thesis
    proof (cases "operation E attempt")
      case None
      with cb run "1.prems"(2) stop show ?thesis by auto
    next
      case (Some e)
      show ?thesis
      proof (cases "gives_up P attempt e")
        case True
        with Some cb run "1.prems"(2) stop show ?thesis by auto
      next
        case False
        then have lt: "attempt + 1 \<le> MaxAttempts P" using "1.prems"(2) by (auto simp: gives_up_def)
        show ?thesis
        proof (cases "delay > 0 \<and> ctx_waiting E attempt \<noteq> None")
          case True
          with Some cb run "1.prems"(2) False stop show ?thesis by auto
        next
          case go: False
          define ws where "ws = (if delay > 0 then waits @ [delay] else waits)"
          have "retry_loop P E (attempt + 1) (nextBackoff delay (MaxBackoff P)) (calls @ [attempt]) ws =
              (r, calls', waits')"
            using Some cb run "1.prems"(2) False go by (auto simp: ws_def split: if_splits)
          then obtain made where "calls' = (calls @ [attempt]) @ made" "retry_ok P E (attempt + 1) r made"
            using "1.IH" [OF "1.prems"(2) cb Some False] go lt
            by (cases "delay > 0") (fastforce simp: ws_def)+
          moreover from this(2) Some False have "retry_ok P E attempt r (attempt # made)"
            by (rule retry_ok_Cons)
          ultimately show ?thesis by auto
        qed
      qed
    qed
  qed
qed

text \<open>
  C39: a run of Retry with a valid policy makes the attempts 1, 2, ..., k for some k of at most
  MaxAttempts, in this order; every attempt but the last failed with an error that the policy
  retries; and the run reports success exactly when the last attempt it made succeeded (so the
  final return of the loop, without a successful attempt, is never reached).
\<close>

theorem Retry_attempts:
  assumes "0 < MaxAttempts P" and "0 \<le> InitialBackoff P" and "0 \<le> MaxBackoff P"
    and "Retry P E = (r, calls, waits)"
  shows "calls = [1..int (length calls)] \<and> int (length calls) \<le> MaxAttempts P \<and>
    (\<forall>i \<in> set (butlast calls). \<exists>e. operation E i = Some e \<and> \<not> gives_up P i e) \<and>
    (r = RetryNil \<longleftrightarrow> calls \<noteq> [] \<and> operation E (last calls) = None)"
proof -
  have "retry_loop P E 1 (InitialBackoff P) [] [] = (r, calls, waits)"
    using assms by (simp add: Retry_def)
  from retry_loop_ok [OF _ this] assms(1) have "retry_ok P E 1 r calls" by auto
  then show ?thesis by (simp add: retry_ok_def)
qed

theorem Retry_attempts_witness:
  "Retry \<lparr>MaxAttempts = 5, InitialBackoff = 3, MaxBackoff = 10, RetryIf = None\<rparr>
     \<lparr>operation = (\<lambda>i. if i < 4 then Some ''down'' else None), ctx_before = (\<lambda>_. None), ctx_waiting = (\<lambda>_. None)\<rparr> =
     (RetryNil, [1, 2, 3, 4], [3, 6, 10]) \<and> [1, 2, 3, 4] = [1..int (length [1::int, 2, 3, 4])]"
proof -
  let ?P = "\<lparr>MaxAttempts = 5, InitialBackoff = 3, MaxBackoff = 10, RetryIf = None\<rparr> :: string RetryPolicy"
  let ?E = "\<lparr>operation = (\<lambda>i. if i < 4 then Some ''down'' else None), ctx_before = (\<lambda>_. None),
             ctx_waiting = (\<lambda>_. None)\<rparr> :: string retry_env"
  have run: "Retry ?P ?E = (RetryNil, [1, 2, 3, 4], [3, 6, 10])"
    by (simp add: Retry_def retry_loop.simps gives_up_def nextBackoff_def wrap_def)
  from Retry_attempts [OF _ _ _ run] have "[1, 2, 3, 4] = [1..int (length [1::int, 2, 3, 4])]" by simp
  with run show ?thesis by blast
qed

section \<open>Backoff\<close>

lemma nextBackoff_capped:
  assumes "0 \<le> c" "c < 2 ^ 63" "0 < m" "m < 2 ^ 63"
  shows "nextBackoff c m = (if c = 0 then 0 else min m (2 * c))"
proof (cases "2 * c < 2 ^ 63")
  case True
  then have "int64 (c * 2) = 2 * c" using assms by (subst int64_id) auto
  with assms show ?thesis by (auto simp: nextBackoff_def Let_def)
next
  case False
  then have "int64 (c * 2) = 2 * c - 2 ^ 64"
    using assms by (subst int64_over) auto
  with assms False show ?thesis by (auto simp: nextBackoff_def Let_def)
qed

lemma retry_loop_waits:
  "retry_loop P E attempt delay calls waits = (r, calls', waits') \<Longrightarrow> 0 < delay \<Longrightarrow>
   (\<forall>d > 0. nextBackoff d (MaxBackoff P) > 0) \<Longrightarrow>
   \<exists>ws. waits' = waits @ ws \<and>
     (\<forall>i < length ws. ws ! i = ((\<lambda>d. nextBackoff d (MaxBackoff P)) ^^ i) delay)"
proof (induction P E attempt delay calls waits arbitrary: r calls' waits' rule: retry_loop.induct)
  case (1 P E attempt delay calls waits)
  define nx where "nx = (\<lambda>d. nextBackoff d (MaxBackoff P))"
  note run = "1.prems"(1) [unfolded retry_loop.simps [of P E attempt]]
  show ?case
  proof (cases "attempt \<le> MaxAttempts P \<and> ctx_before E attempt = None \<and>
      (\<exists>e. operation E attempt = Some e \<and> \<not> gives_up P attempt e)")
    case False
    with run have "waits' = waits" by (auto split: if_splits option.splits)
    then show ?thesis by auto
  next
    case True
    then obtain e where h: "attempt \<le> MaxAttempts P" "ctx_before E attempt = None"
      "operation E attempt = Some e" "\<not> gives_up P attempt e" by auto
    show ?thesis
    proof (cases "ctx_waiting E attempt")
      case (Some c)
      with run h "1.prems"(2) have "waits' = waits @ [delay]" by auto
      then show ?thesis by auto
    next
      case None
      with run h "1.prems"(2) have
        "retry_loop P E (attempt + 1) (nextBackoff delay (MaxBackoff P)) (calls @ [attempt]) (waits @ [delay]) = (r, calls', waits')"
        by auto
      from "1.IH"(1) [OF h "1.prems"(2) None this] "1.prems"(2,3)
      obtain ws where ws: "waits' = (waits @ [delay]) @ ws"
        "\<forall>i < length ws. ws ! i = (nx ^^ i) (nx delay)" by (auto simp: nx_def)
      then have "\<forall>i < length (delay # ws). (delay # ws) ! i = (nx ^^ i) delay"
        by (auto simp: less_Suc_eq_0_disj funpow_swap1)
      with ws(1) show ?thesis by (intro exI [of _ "delay # ws"]) (auto simp: nx_def)
    qed
  qed
qed

lemma nextBackoff_iter:
  assumes "0 < d" "d < 2 ^ 63" "0 < m" "m < 2 ^ 63"
  shows "((\<lambda>d. nextBackoff d m) ^^ i) d = (if i = 0 then d else min m (d * 2 ^ i))"
proof (induction i)
  case (Suc i)
  show ?case
  proof (cases "i = 0")
    case True
    then show ?thesis using assms by (simp add: nextBackoff_capped)
  next
    case False
    have "0 < min m (d * 2 ^ i)" "min m (d * 2 ^ i) < 2 ^ 63" using assms by auto
    with False Suc assms show ?thesis by (auto simp: nextBackoff_capped min_def)
  qed
qed simp

text \<open>
  With a positive initial and maximal backoff, the delays of a run are the initial backoff and
  then the initial backoff times 2, 4, 8, ..., each capped at the maximum, even where the doubling
  overflows 64 bits; only the first delay can exceed the maximum.
\<close>

theorem Retry_backoff:
  assumes "0 < InitialBackoff P" "InitialBackoff P < 2 ^ 63" "0 < MaxBackoff P" "MaxBackoff P < 2 ^ 63"
    and "Retry P E = (r, calls, waits)" and "i < length waits"
  shows "waits ! i = (if i = 0 then InitialBackoff P else min (MaxBackoff P) (InitialBackoff P * 2 ^ i))"
proof -
  have pos: "\<forall>d > 0. nextBackoff d (MaxBackoff P) > 0"
    using assms(3) by (auto simp: nextBackoff_def Let_def)
  from assms(5,6) have "retry_loop P E 1 (InitialBackoff P) [] [] = (r, calls, waits)"
    by (auto simp: Retry_def split: if_splits)
  from retry_loop_waits [OF this assms(1) pos] assms(6)
  have "waits ! i = ((\<lambda>d. nextBackoff d (MaxBackoff P)) ^^ i) (InitialBackoff P)" by auto
  then show ?thesis using assms(1-4) by (simp add: nextBackoff_iter)
qed

theorem Retry_backoff_witness:
  "[3, 6, 10] ! 2 = min 10 ((3::int) * 2 ^ 2)"
proof -
  let ?P = "\<lparr>MaxAttempts = 5, InitialBackoff = 3, MaxBackoff = 10, RetryIf = None\<rparr> :: string RetryPolicy"
  let ?E = "\<lparr>operation = (\<lambda>i. if i < 4 then Some ''down'' else None), ctx_before = (\<lambda>_. None),
             ctx_waiting = (\<lambda>_. None)\<rparr> :: string retry_env"
  have run: "Retry ?P ?E = (RetryNil, [1, 2, 3, 4], [3, 6, 10])"
    by (simp add: Retry_def retry_loop.simps gives_up_def nextBackoff_def wrap_def)
  from Retry_backoff [OF _ _ _ _ run, of 2] show ?thesis by simp
qed

text \<open>
  Without a maximum the doubling is exact while it fits 64 bits, and the first doubling that
  does not fit gives 0, after which the loop retries without any delay.
\<close>

theorem nextBackoff_uncapped:
  assumes "0 < c" "c < 2 ^ 63"
  shows "nextBackoff c 0 = (if 2 * c < 2 ^ 63 then 2 * c else 0) \<and> nextBackoff 0 0 = 0"
proof (cases "2 * c < 2 ^ 63")
  case True
  then have "int64 (c * 2) = 2 * c" using assms by (subst int64_id) auto
  with True assms show ?thesis by (simp add: nextBackoff_def)
next
  case False
  then have "int64 (c * 2) = 2 * c - 2 ^ 64"
    using assms by (subst int64_over) auto
  with assms False show ?thesis by (auto simp: nextBackoff_def Let_def)
qed

theorem nextBackoff_uncapped_witness: "nextBackoff (2 ^ 62) 0 = 0"
  using nextBackoff_uncapped [of "2 ^ 62"] by simp

end
