(* ===== verification/Rate_Limit.thy ===== *)
theory Rate_Limit
  imports Prelude
begin

text \<open>
  Model of the in-process sliding-window limiter, \<open>MemoryRateLimiter\<close> of \<open>src/pkg/httpkit/middleware.go\<close>, the
  reference backend; \<open>Redis_Rate_Limit\<close> holds the one on Redis and the middleware.
\<close>

section \<open>The in-process limiter\<close>

record RateLimitDecision =
  Allowed :: bool
  Remaining :: int
  RetryAfter :: int

datatype limiter_error =
    LimiterNil | LimitNotPositive | WindowNotPositive
  | RedisClientRequired | LimitAndWindowNotPositive
  | ScriptFailed string | UnexpectedResultLength nat | ParseRedisInteger string | UnexpectedRedisType

text \<open>A missing key of the Go map reads as the nil slice.\<close>

record MemoryRateLimiter =
  attempts :: "string \<Rightarrow> int list"

definition NewMemoryRateLimiter :: MemoryRateLimiter where
  "NewMemoryRateLimiter = \<lparr>attempts = (\<lambda>_. [])\<rparr>"

definition Allow ::
    "int \<Rightarrow> string \<Rightarrow> int \<Rightarrow> int \<Rightarrow> MemoryRateLimiter option
      \<Rightarrow> (limiter_error + RateLimitDecision) \<times> MemoryRateLimiter option" where
  "Allow now key limit window limiter =
     (case limiter of
        None \<Rightarrow> (Inl LimiterNil, None)
      | Some L \<Rightarrow>
          if limit \<le> 0 then (Inl LimitNotPositive, limiter)
          else if window \<le> 0 then (Inl WindowNotPositive, limiter)
          else
            let cutoff = now - window;
                as = dropWhile (\<lambda>a. \<not> a > cutoff) (attempts L key)
            in if int (length as) \<ge> limit then
                 (Inr \<lparr>Allowed = False, Remaining = 0, RetryAfter = hd as + window - now\<rparr>,
                  Some (L\<lparr>attempts := (attempts L)(key := as)\<rparr>))
               else
                 let as = as @ [now] in
                 (Inr \<lparr>Allowed = True, Remaining = limit - int (length as), RetryAfter = 0\<rparr>,
                  Some (L\<lparr>attempts := (attempts L)(key := as)\<rparr>)))"

text \<open>A sequence of requests for one key at the given times, and the times that were allowed.\<close>

fun allowed_times :: "string \<Rightarrow> int \<Rightarrow> int \<Rightarrow> MemoryRateLimiter \<Rightarrow> int list \<Rightarrow> int list" where
  "allowed_times key limit window L [] = []"
| "allowed_times key limit window L (t # ts) =
     (case Allow t key limit window (Some L) of
        (Inr d, Some L') \<Rightarrow> (if Allowed d then [t] else []) @ allowed_times key limit window L' ts
      | _ \<Rightarrow> [])"

text \<open>A history of allowed requests never holds more than the limit in the window before any of them.\<close>

definition within_limit :: "int \<Rightarrow> int \<Rightarrow> int list \<Rightarrow> bool" where
  "within_limit limit window H \<longleftrightarrow>
     (\<forall>A x B. H = A @ x # B \<longrightarrow> int (length (filter (\<lambda>y. x - window < y) (A @ [x]))) \<le> limit)"

lemma within_limit_snoc:
  "within_limit limit window H \<Longrightarrow> int (length (filter (\<lambda>y. t - window < y) (H @ [t]))) \<le> limit \<Longrightarrow>
   within_limit limit window (H @ [t])"
  unfolding within_limit_def
proof (intro allI impI)
  fix A x B
  assume H: "\<forall>A x B. H = A @ x # B \<longrightarrow> int (length (filter (\<lambda>y. x - window < y) (A @ [x]))) \<le> limit"
    and t: "int (length (filter (\<lambda>y. t - window < y) (H @ [t]))) \<le> limit" and eq: "H @ [t] = A @ x # B"
  show "int (length (filter (\<lambda>y. x - window < y) (A @ [x]))) \<le> limit"
  proof (cases B rule: rev_cases)
    case Nil
    with eq t show ?thesis by simp
  next
    case (snoc B' b)
    with eq have "H = A @ x # B'" by simp
    with H show ?thesis by blast
  qed
qed

lemma sorted_dropWhile_le: "sorted xs \<Longrightarrow> dropWhile (\<lambda>a. \<not> a > c) xs = filter (\<lambda>a. c < a) (xs :: int list)"
proof (induction xs)
  case (Cons x xs)
  then have "c < x \<Longrightarrow> filter (\<lambda>a. c < a) xs = xs" by (auto simp: filter_id_conv)
  with Cons show ?case by simp
qed simp

lemma length_filter_weaken: "(\<And>x. x \<in> set xs \<Longrightarrow> P x \<Longrightarrow> Q x) \<Longrightarrow> length (filter P xs) \<le> length (filter Q xs)"
  by (induction xs) (auto simp: le_Suc_eq)

lemma within_limit_windows:
  assumes "sorted H" and "within_limit limit window H" and "0 \<le> limit"
  shows "int (length (filter (\<lambda>y. t - window < y \<and> y \<le> t) H)) \<le> limit"
proof (cases "takeWhile (\<lambda>y. y \<le> t) H" rule: rev_cases)
  case Nil
  have "filter (\<lambda>y. t - window < y \<and> y \<le> t) H = []"
  proof (cases H)
    case (Cons h hs)
    with Nil have "\<not> h \<le> t" by (auto split: if_splits)
    with assms(1) Cons show ?thesis by (auto simp: filter_empty_conv)
  qed simp
  then show ?thesis using assms(3) by simp
next
  case (snoc A x)
  let ?D = "dropWhile (\<lambda>y. y \<le> t) H"
  have H: "H = A @ x # ?D" using takeWhile_dropWhile_id [of "\<lambda>y. y \<le> t" H] snoc by simp
  have "\<forall>y \<in> set ?D. t < y"
    using sorted_dropWhile_le [OF assms(1), of t] by (simp add: not_less)
  moreover have xt: "x \<le> t" using snoc set_takeWhileD [of x "\<lambda>y. y \<le> t" H] by simp
  ultimately have "filter (\<lambda>y. t - window < y \<and> y \<le> t) H =
      filter (\<lambda>y. t - window < y \<and> y \<le> t) (A @ [x])"
    by (subst H) (auto simp: filter_empty_conv)
  moreover have "length (filter (\<lambda>y. t - window < y \<and> y \<le> t) (A @ [x])) \<le>
      length (filter (\<lambda>y. x - window < y) (A @ [x]))"
    using xt by (intro length_filter_weaken) auto
  moreover have "int (length (filter (\<lambda>y. x - window < y) (A @ [x]))) \<le> limit"
    using assms(2) H unfolding within_limit_def by blast
  ultimately show ?thesis by simp
qed

text \<open>The list the limiter keeps is the part of the history that may still matter.\<close>

lemma allowed_times_within:
  assumes "0 < limit" "0 < window" "sorted (H @ ts)" "within_limit limit window H"
    and "attempts L key = filter (\<lambda>y. c < y) H" "\<forall>t \<in> set ts. c \<le> t - window"
  shows "sorted (H @ allowed_times key limit window L ts) \<and>
    within_limit limit window (H @ allowed_times key limit window L ts)"
  using assms
proof (induction ts arbitrary: H L c)
  case Nil
  then show ?case by simp
next
  case (Cons t ts)
  let ?as = "filter (\<lambda>y. t - window < y) H"
  have "sorted (attempts L key)" using Cons.prems by (simp add: sorted_append sorted_filter [where f = id, simplified])
  then have as: "dropWhile (\<lambda>a. \<not> a > t - window) (attempts L key) = ?as"
    using Cons.prems by (auto simp: sorted_dropWhile_le intro!: filter_cong)
  have later: "\<forall>u \<in> set ts. t - window \<le> u - window" using Cons.prems by (auto simp: sorted_append)
  show ?case
  proof (cases "int (length ?as) \<ge> limit")
    case True
    define L' where "L' = L\<lparr>attempts := (attempts L)(key := ?as)\<rparr>"
    have "allowed_times key limit window L (t # ts) = allowed_times key limit window L' ts"
      using True Cons.prems(1,2) by (simp add: Allow_def as Let_def L'_def)
    moreover have "attempts L' key = filter (\<lambda>y. t - window < y) H" by (simp add: L'_def)
    moreover have "sorted (H @ ts)" using Cons.prems(3) by (simp add: sorted_append)
    ultimately show ?thesis
      using Cons.IH [of H L' "t - window"] Cons.prems(1,2,4) later by simp
  next
    case False
    define L' where "L' = L\<lparr>attempts := (attempts L)(key := ?as @ [t])\<rparr>"
    have "allowed_times key limit window L (t # ts) = t # allowed_times key limit window L' ts"
      using False Cons.prems(1,2) by (simp add: Allow_def as Let_def L'_def)
    moreover have "attempts L' key = filter (\<lambda>y. t - window < y) (H @ [t])"
      using Cons.prems(2) by (simp add: L'_def)
    moreover have "within_limit limit window (H @ [t])"
      using False Cons.prems(2,4) by (intro within_limit_snoc) auto
    ultimately show ?thesis
      using Cons.IH [of "H @ [t]" L' "t - window"] Cons.prems(1,2,3) later by simp
  qed
qed

text \<open>
  C40: starting from an empty limiter, over any sequence of requests for a key at non-decreasing
  times, every window of the configured length holds at most \<open>limit\<close> allowed requests.
\<close>

theorem memory_limiter_sliding_window:
  assumes "0 < limit" and "0 < window" and "sorted ts"
  shows "int (length (filter (\<lambda>y. t - window < y \<and> y \<le> t)
    (allowed_times key limit window NewMemoryRateLimiter ts))) \<le> limit"
proof -
  have "sorted ([] @ allowed_times key limit window NewMemoryRateLimiter ts) \<and>
      within_limit limit window ([] @ allowed_times key limit window NewMemoryRateLimiter ts)"
    using assms
    by (intro allowed_times_within [where c = "(if ts = [] then 0 else hd ts) - window"])
      (cases ts; auto simp: within_limit_def NewMemoryRateLimiter_def)+
  then show ?thesis using within_limit_windows assms(1) by simp
qed

theorem memory_limiter_sliding_window_witness:
  "allowed_times ''k'' 2 10 NewMemoryRateLimiter [1, 2, 3, 11, 12] = [1, 2, 11, 12] \<and>
   int (length (filter (\<lambda>y. 12 - 10 < y \<and> y \<le> 12) (allowed_times ''k'' 2 10 NewMemoryRateLimiter [1, 2, 3, 11, 12]))) \<le> 2"
  using memory_limiter_sliding_window [of 2 10 "[1, 2, 3, 11, 12]" 12 "''k''"]
  by (simp add: Allow_def NewMemoryRateLimiter_def Let_def)

end
