(* ===== verification/Strconv.thy ===== *)
theory Strconv
  imports Prelude
begin

text \<open>
  The part of Go's package \<open>strconv\<close> that the sources use: decimal formatting (\<open>FormatInt\<close>, \<open>Itoa\<close>,
  \<open>FormatUint\<close>), \<open>ParseBool\<close>, \<open>ParseInt\<close> and \<open>ParseUint\<close> in base 10, and lower-case hexadecimal of
  \<open>encoding/hex\<close>, with their round trips. Redis stores its counters in the same decimal notation.
\<close>

section \<open>Decimal numbers\<close>

definition digit_char :: "nat \<Rightarrow> char" where
  "digit_char d = char_of (48 + d)"

definition digit_val :: "char \<Rightarrow> nat option" where
  "digit_val c = (if 48 \<le> (of_char c :: nat) \<and> (of_char c :: nat) \<le> 57 then Some (of_char c - 48) else None)"

fun FormatUint :: "nat \<Rightarrow> string" where
  "FormatUint n = (if n < 10 then [digit_char n] else FormatUint (n div 10) @ [digit_char (n mod 10)])"

declare FormatUint.simps [simp del]

definition ParseBool :: "string \<Rightarrow> bool option" where
  "ParseBool s =
     (if s \<in> {''1'', ''t'', ''T'', ''TRUE'', ''true'', ''True''} then Some True
      else if s \<in> {''0'', ''f'', ''F'', ''FALSE'', ''false'', ''False''} then Some False else None)"

definition FormatInt :: "int \<Rightarrow> string" where
  "FormatInt x = (if x < 0 then CHR ''-'' # FormatUint (nat (- x)) else FormatUint (nat x))"

fun digits_val :: "nat \<Rightarrow> string \<Rightarrow> nat option" where
  "digits_val acc [] = Some acc"
| "digits_val acc (c # cs) = (case digit_val c of None \<Rightarrow> None | Some d \<Rightarrow> digits_val (10 * acc + d) cs)"

definition decimal :: "string \<Rightarrow> nat option" where
  "decimal s = (if s = [] then None else digits_val 0 s)"

text \<open>\<open>ParseInt(s, 10, 64)\<close>: an optional sign, at least one digit, and the range check.\<close>

definition ParseInt :: "string \<Rightarrow> int option" where
  "ParseInt s =
     (let (neg, ds) = (case s of
          c # cs \<Rightarrow> if c = CHR ''-'' then (True, cs) else if c = CHR ''+'' then (False, cs) else (False, s)
        | [] \<Rightarrow> (False, []))
      in case decimal ds of
           None \<Rightarrow> None
         | Some n \<Rightarrow> let x = (if neg then - int n else int n) in if in_int 64 x then Some x else None)"

lemma of_char_digit: "d < 10 \<Longrightarrow> (of_char (digit_char d) :: nat) = 48 + d"
  by (simp add: digit_char_def)

lemma digit_val_digit_char [simp]: "d < 10 \<Longrightarrow> digit_val (digit_char d) = Some d"
  by (simp add: digit_val_def of_char_digit)

lemma digit_char_not_sign: "d < 10 \<Longrightarrow> digit_char d \<noteq> CHR ''-'' \<and> digit_char d \<noteq> CHR ''+'' \<and> digit_char d \<noteq> CHR '':''"
  using of_char_digit [of d] by auto

lemma digits_val_append:
  "digits_val acc (xs @ ys) = (case digits_val acc xs of None \<Rightarrow> None | Some n \<Rightarrow> digits_val n ys)"
  by (induction xs arbitrary: acc) (auto split: option.splits)

lemma digits_val_FormatUint [simp]: "digits_val 0 (FormatUint n) = Some n"
proof (induction n rule: FormatUint.induct)
  case (1 n)
  show ?case
  proof (cases "n < 10")
    case True
    then show ?thesis by (subst FormatUint.simps) simp
  next
    case False
    with 1 show ?thesis by (subst FormatUint.simps) (simp add: digits_val_append)
  qed
qed

lemma FormatUint_Cons: "\<exists>d cs. FormatUint n = digit_char d # cs \<and> d < 10"
proof (induction n rule: FormatUint.induct)
  case (1 n)
  show ?case
  proof (cases "n < 10")
    case True
    then show ?thesis by (subst FormatUint.simps) auto
  next
    case False
    with 1 show ?thesis by (subst FormatUint.simps) fastforce
  qed
qed

lemma decimal_FormatUint [simp]: "decimal (FormatUint n) = Some n"
  using FormatUint_Cons [of n] by (auto simp: decimal_def)

lemma ParseInt_FormatInt [simp]: "in_int 64 x \<Longrightarrow> ParseInt (FormatInt x) = Some x"
proof -
  assume x: "in_int 64 x"
  show ?thesis
  proof (cases "x < 0")
    case True
    with x show ?thesis by (simp add: ParseInt_def FormatInt_def)
  next
    case False
    obtain d cs where "FormatUint (nat x) = digit_char d # cs" "d < 10"
      using FormatUint_Cons by blast
    with digit_char_not_sign [of d] have "(case FormatUint (nat x) of
          c # cs \<Rightarrow> if c = CHR ''-'' then (True, cs) else if c = CHR ''+'' then (False, cs) else (False, FormatUint (nat x))
        | [] \<Rightarrow> (False, [])) = (False, FormatUint (nat x))" by simp
    with False x show ?thesis by (simp add: ParseInt_def FormatInt_def)
  qed
qed

section \<open>Hexadecimal\<close>

definition hex_digit :: "nat \<Rightarrow> char" where
  "hex_digit d = (if d < 10 then char_of (48 + d) else char_of (87 + d))"

text \<open>\<open>hex.EncodeToString\<close> on bytes given as characters.\<close>

definition hex_encode :: "string \<Rightarrow> string" where
  "hex_encode bs = concat (map (\<lambda>c. [hex_digit (of_char c div 16), hex_digit (of_char c mod 16)]) bs)"

lemma of_char_hex_digit:
  "d < 16 \<Longrightarrow> (of_char (hex_digit d) :: nat) = (if d < 10 then 48 + d else 87 + d)"
  by (simp add: hex_digit_def)

lemma hex_digit_inj: "d < 16 \<Longrightarrow> e < 16 \<Longrightarrow> hex_digit d = hex_digit e \<longleftrightarrow> d = e"
proof
  assume "d < 16" "e < 16" "hex_digit d = hex_digit e"
  then have "(if d < 10 then 48 + d else 87 + d) = (if e < 10 then 48 + e else 87 + e)"
    using of_char_hex_digit [of d] of_char_hex_digit [of e] by metis
  with \<open>d < 16\<close> \<open>e < 16\<close> show "d = e" by (auto split: if_splits)
qed simp

lemma hex_encode_Cons: "hex_encode (c # cs) =
    hex_digit (of_char c div 16) # hex_digit (of_char c mod 16) # hex_encode cs"
  by (simp add: hex_encode_def)

lemma hex_encode_inj [simp]: "hex_encode xs = hex_encode ys \<longleftrightarrow> xs = ys"
proof (induction xs arbitrary: ys)
  case Nil
  then show ?case by (cases ys) (auto simp: hex_encode_def)
next
  case (Cons x xs)
  show ?case
  proof (cases ys)
    case Nil
    then show ?thesis by (auto simp: hex_encode_def)
  next
    case ys: (Cons y zs)
    have "(of_char x :: nat) div 16 < 16" "(of_char y :: nat) div 16 < 16"
      using nat_of_char_less_256 [of x] nat_of_char_less_256 [of y] by linarith+
    then have "hex_encode (x # xs) = hex_encode (y # zs) \<longleftrightarrow>
        ((of_char x :: nat) div 16 = of_char y div 16 \<and> (of_char x :: nat) mod 16 = of_char y mod 16) \<and>
        xs = zs"
      by (auto simp: hex_encode_Cons hex_digit_inj Cons.IH)
    moreover have "((of_char x :: nat) div 16 = of_char y div 16 \<and> (of_char x :: nat) mod 16 = of_char y mod 16) \<longleftrightarrow> x = y"
      by (metis div_mult_mod_eq of_char_eq_iff)
    ultimately show ?thesis by (simp add: ys)
  qed
qed

lemma hex_encode_length [simp]: "length (hex_encode bs) = 2 * length bs"
  by (induction bs) (auto simp: hex_encode_def)

text \<open>\<open>hex.DecodeString\<close> accepts both cases and rejects an odd length.\<close>

definition hex_val :: "char \<Rightarrow> nat option" where
  "hex_val c =
     (let n = (of_char c :: nat) in
      if 48 \<le> n \<and> n \<le> 57 then Some (n - 48)
      else if 97 \<le> n \<and> n \<le> 102 then Some (n - 87)
      else if 65 \<le> n \<and> n \<le> 70 then Some (n - 55) else None)"

fun hex_decode :: "string \<Rightarrow> string option" where
  "hex_decode [] = Some []"
| "hex_decode [c] = None"
| "hex_decode (c # d # cs) =
     (case (hex_val c, hex_val d, hex_decode cs) of
        (Some h, Some l, Some bs) \<Rightarrow> Some (char_of (16 * h + l) # bs)
      | _ \<Rightarrow> None)"

lemma hex_val_hex_digit [simp]: "d < 16 \<Longrightarrow> hex_val (hex_digit d) = Some d"
  using of_char_hex_digit [of d] by (auto simp: hex_val_def Let_def)

lemma hex_decode_encode [simp]: "hex_decode (hex_encode bs) = Some bs"
proof (induction bs)
  case Nil
  then show ?case by (simp add: hex_encode_def)
next
  case (Cons b bs)
  have "(of_char b :: nat) div 16 < 16" using nat_of_char_less_256 [of b] by linarith
  then show ?case using Cons by (simp add: hex_encode_Cons)
qed

lemma hex_digit_not_dash: "d < 16 \<Longrightarrow> CHR ''-'' \<noteq> hex_digit d"
proof
  assume "d < 16" "CHR ''-'' = hex_digit d"
  then have "(of_char (CHR ''-'') :: nat) = (if d < 10 then 48 + d else 87 + d)"
    using of_char_hex_digit [of d] by metis
  then show False by (simp split: if_splits)
qed

lemma hex_encode_no_dash [simp]: "CHR ''-'' \<notin> set (hex_encode bs)"
proof (induction bs)
  case (Cons b bs)
  have "(of_char b :: nat) div 16 < 16" using nat_of_char_less_256 [of b] by linarith
  then have "CHR ''-'' \<noteq> hex_digit (of_char b div 16)" "CHR ''-'' \<noteq> hex_digit (of_char b mod 16)"
    by (simp_all add: hex_digit_not_dash)
  then show ?case using Cons by (simp add: hex_encode_Cons)
qed (simp add: hex_encode_def)

section \<open>UTF-8\<close>

text \<open>
  \<open>utf8.RuneCountInString\<close>: a well-formed sequence is one rune, every other byte one as well. The ranges
  of the second byte exclude overlong forms, surrogates and values beyond U+10FFFF.
\<close>

definition in_range :: "nat \<Rightarrow> nat \<Rightarrow> char \<Rightarrow> bool" where
  "in_range lo hi c \<longleftrightarrow> lo \<le> of_char c \<and> of_char c \<le> hi"

definition second_byte :: "nat \<Rightarrow> (nat \<times> nat)" where
  "second_byte b = (if b = 0xE0 then (0xA0, 0xBF) else if b = 0xED then (0x80, 0x9F)
     else if b = 0xF0 then (0x90, 0xBF) else if b = 0xF4 then (0x80, 0x8F) else (0x80, 0xBF))"

fun rune_size :: "string \<Rightarrow> nat" where
  "rune_size [] = 0"
| "rune_size (c # cs) =
     (let b = of_char c; (lo, hi) = second_byte b in
      if 0xC2 \<le> b \<and> b \<le> 0xDF \<and> 1 \<le> length cs \<and> in_range 0x80 0xBF (cs ! 0) then 2
      else if 0xE0 \<le> b \<and> b \<le> 0xEF \<and> 2 \<le> length cs \<and> in_range lo hi (cs ! 0) \<and> in_range 0x80 0xBF (cs ! 1) then 3
      else if 0xF0 \<le> b \<and> b \<le> 0xF4 \<and> 3 \<le> length cs \<and> in_range lo hi (cs ! 0) \<and> in_range 0x80 0xBF (cs ! 1)
        \<and> in_range 0x80 0xBF (cs ! 2) then 4
      else 1)"

lemma rune_size_bounds: "s \<noteq> [] \<Longrightarrow> 1 \<le> rune_size s \<and> rune_size s \<le> length s"
  by (cases s) (auto simp: Let_def split: prod.splits)

function RuneCount :: "string \<Rightarrow> nat" where
  "RuneCount s = (if s = [] then 0 else Suc (RuneCount (drop (rune_size s) s)))"
  by auto
termination by (relation "measure length") (use rune_size_bounds in fastforce)+

declare RuneCount.simps [simp del]

lemma RuneCount_bounds: "RuneCount s \<le> length s \<and> length s \<le> 4 * RuneCount s"
proof (induction s rule: RuneCount.induct)
  case (1 s)
  show ?case
  proof (cases "s = []")
    case False
    moreover have "rune_size s \<le> 4" by (cases s) (auto simp: Let_def split: prod.splits)
    ultimately show ?thesis using 1 rune_size_bounds [of s] by (simp add: RuneCount.simps [of s]) linarith
  qed (simp add: RuneCount.simps)
qed

lemma RuneCount_ascii: "is_ascii s \<Longrightarrow> RuneCount s = length s"
proof (induction s)
  case (Cons c s)
  then have "rune_size (c # s) = 1" by (auto simp: is_ascii_def Let_def split: prod.splits)
  then show ?case using Cons by (subst RuneCount.simps) (simp add: is_ascii_def)
qed (simp add: RuneCount.simps)

text \<open>
  \<open>strings.EqualFold\<close> compares ASCII strings up to case; strings with other bytes go through Unicode's
  simple folding, an argument.
\<close>

definition EqualFold :: "(string \<Rightarrow> string \<Rightarrow> bool) \<Rightarrow> string \<Rightarrow> string \<Rightarrow> bool" where
  "EqualFold ufold a b = (if is_ascii a \<and> is_ascii b then map lower_char a = map lower_char b else ufold a b)"

end
