(* ===== verification/Redis.thy ===== *)
theory Redis
  imports Strconv
begin

text \<open>
  Redis is a service outside the repository. The Lua scripts and clients of the sources are modelled
  as programs over a parameter \<open>exec\<close> that runs one command at a point in time on an opaque server
  state, and the locale \<open>redis\<close> states what the sources rely on: with respect to the observation
  \<open>view\<close> (the live keys with their values and deadlines), every command behaves as Redis documents
  it, and a key disappears exactly when its deadline passes. A script is atomic, so a script is a
  composition of commands at one point in time.
\<close>

section \<open>Commands, replies and the documented effect of each command\<close>

datatype rval = VString string | VHash "string \<Rightarrow> string option" | VZset "(string \<times> int) list"

type_synonym keyspace = "string \<Rightarrow> (rval \<times> int option) option"

datatype reply = RNil | ROk | RInt int | RBulk string | RMulti "reply list"

datatype redis_error = WrongType | NotInteger | InvalidExpire | LuaError

datatype redis_cmd =
    GET string | SET_PX string string int | DEL "string list" | EXISTS string
  | INCR string | PEXPIRE string int | PTTL string
  | HSET string "(string \<times> string) list" | HGET string string | HINCRBY string string int
  | ZREMRANGEBYSCORE string int | ZCARD string | ZRANGE_FIRST string | ZADD string int string

definition EXPIRE :: "string \<Rightarrow> int \<Rightarrow> redis_cmd" where
  "EXPIRE k s = PEXPIRE k (1000 * s)"

definition SET_EX :: "string \<Rightarrow> string \<Rightarrow> int \<Rightarrow> redis_cmd" where
  "SET_EX k v s = SET_PX k v (1000 * s)"

text \<open>Keys whose deadline has passed are not observable.\<close>

definition live :: "int \<Rightarrow> keyspace \<Rightarrow> keyspace" where
  "live t K k = (case K k of
      Some (v, Some e) \<Rightarrow> if t < e then Some (v, Some e) else None
    | x \<Rightarrow> x)"

text \<open>Sorted sets are kept in the order of scores, then of members, as \<open>ZRANGE\<close> reports them.\<close>

fun zinsert :: "string \<times> int \<Rightarrow> (string \<times> int) list \<Rightarrow> (string \<times> int) list" where
  "zinsert x [] = [x]"
| "zinsert x (y # ys) =
     (if snd x < snd y \<or> snd x = snd y \<and> lexordp (\<lambda>a b. (of_char a :: nat) < of_char b) (fst x) (fst y)
      then x # y # ys else y # zinsert x ys)"

fun redis_doc :: "int \<Rightarrow> redis_cmd \<Rightarrow> keyspace \<Rightarrow> (redis_error + reply) \<times> keyspace" where
  "redis_doc t (GET k) K = (case K k of
      None \<Rightarrow> (Inr RNil, K) | Some (VString v, e) \<Rightarrow> (Inr (RBulk v), K) | Some _ \<Rightarrow> (Inl WrongType, K))"
| "redis_doc t (SET_PX k v px) K =
     (if px \<le> 0 then (Inl InvalidExpire, K) else (Inr ROk, K(k \<mapsto> (VString v, Some (t + px)))))"
| "redis_doc t (DEL ks) K =
     (Inr (RInt (int (length (filter (\<lambda>k. K k \<noteq> None) (remdups ks))))),
      (\<lambda>k. if k \<in> set ks then None else K k))"
| "redis_doc t (EXISTS k) K = (Inr (RInt (if K k = None then 0 else 1)), K)"
| "redis_doc t (INCR k) K = (case K k of
      None \<Rightarrow> (Inr (RInt 1), K(k \<mapsto> (VString (FormatInt 1), None)))
    | Some (VString v, e) \<Rightarrow> (case ParseInt v of
          None \<Rightarrow> (Inl NotInteger, K)
        | Some n \<Rightarrow> if in_int 64 (n + 1) then (Inr (RInt (n + 1)), K(k \<mapsto> (VString (FormatInt (n + 1)), e)))
                    else (Inl NotInteger, K))
    | Some _ \<Rightarrow> (Inl WrongType, K))"
| "redis_doc t (PEXPIRE k px) K = (case K k of
      None \<Rightarrow> (Inr (RInt 0), K)
    | Some (v, e) \<Rightarrow> (Inr (RInt 1), K(k := if px \<le> 0 then None else Some (v, Some (t + px)))))"
| "redis_doc t (PTTL k) K = (Inr (RInt (case K k of
      None \<Rightarrow> - 2 | Some (v, None) \<Rightarrow> - 1 | Some (v, Some e) \<Rightarrow> e - t)), K)"
| "redis_doc t (HSET k fs) K = (case K k of
      None \<Rightarrow> (Inr (RInt (int (length fs))), K(k \<mapsto> (VHash (map_of (rev fs)), None)))
    | Some (VHash h, e) \<Rightarrow> (Inr (RInt (int (length (filter (\<lambda>f. h f = None) (map fst fs))))),
        K(k \<mapsto> (VHash (h ++ map_of (rev fs)), e)))
    | Some _ \<Rightarrow> (Inl WrongType, K))"
| "redis_doc t (HGET k f) K = (case K k of
      None \<Rightarrow> (Inr RNil, K)
    | Some (VHash h, e) \<Rightarrow> (Inr (case h f of None \<Rightarrow> RNil | Some v \<Rightarrow> RBulk v), K)
    | Some _ \<Rightarrow> (Inl WrongType, K))"
| "redis_doc t (HINCRBY k f d) K = (case K k of
      None \<Rightarrow> (Inr (RInt d), K(k \<mapsto> (VHash [f \<mapsto> FormatInt d], None)))
    | Some (VHash h, e) \<Rightarrow> (case (case h f of None \<Rightarrow> Some 0 | Some v \<Rightarrow> ParseInt v) of
          None \<Rightarrow> (Inl NotInteger, K)
        | Some n \<Rightarrow> if in_int 64 (n + d)
                    then (Inr (RInt (n + d)), K(k \<mapsto> (VHash (h(f \<mapsto> FormatInt (n + d))), e)))
                    else (Inl NotInteger, K))
    | Some _ \<Rightarrow> (Inl WrongType, K))"
| "redis_doc t (ZREMRANGEBYSCORE k m) K = (case K k of
      None \<Rightarrow> (Inr (RInt 0), K)
    | Some (VZset z, e) \<Rightarrow>
        let z' = filter (\<lambda>x. m < snd x) z in
        (Inr (RInt (int (length z) - int (length z'))), K(k := if z' = [] then None else Some (VZset z', e)))
    | Some _ \<Rightarrow> (Inl WrongType, K))"
| "redis_doc t (ZCARD k) K = (case K k of
      None \<Rightarrow> (Inr (RInt 0), K) | Some (VZset z, e) \<Rightarrow> (Inr (RInt (int (length z))), K)
    | Some _ \<Rightarrow> (Inl WrongType, K))"
| "redis_doc t (ZRANGE_FIRST k) K = (case K k of
      None \<Rightarrow> (Inr (RMulti []), K)
    | Some (VZset [], e) \<Rightarrow> (Inr (RMulti []), K)
    | Some (VZset ((m, s) # z), e) \<Rightarrow> (Inr (RMulti [RBulk m, RBulk (FormatInt s)]), K)
    | Some _ \<Rightarrow> (Inl WrongType, K))"
| "redis_doc t (ZADD k s m) K = (case K k of
      None \<Rightarrow> (Inr (RInt 1), K(k \<mapsto> (VZset [(m, s)], None)))
    | Some (VZset z, e) \<Rightarrow>
        (Inr (RInt (if m \<in> set (map fst z) then 0 else 1)),
         K(k \<mapsto> (VZset (zinsert (m, s) (filter (\<lambda>x. fst x \<noteq> m) z)), e)))
    | Some _ \<Rightarrow> (Inl WrongType, K))"

lemma live_simps:
  "K k = None \<Longrightarrow> live t K k = None"
  "K k = Some (v, None) \<Longrightarrow> live t K k = Some (v, None)"
  "K k = Some (v, Some e) \<Longrightarrow> live t K k = (if t < e then Some (v, Some e) else None)"
  by (simp_all add: live_def)

lemma live_live: "t \<le> t' \<Longrightarrow> live t' (live t K) = live t' K"
  by (rule ext) (auto simp: live_def split: option.splits)

lemma live_Some: "live t K k = Some x \<Longrightarrow> K k = Some x"
  by (auto simp: live_def split: option.splits if_splits)

definition all_live :: "int \<Rightarrow> keyspace \<Rightarrow> bool" where
  "all_live t K \<longleftrightarrow> live t K = K"

lemma all_live_iff: "all_live t K \<longleftrightarrow> (\<forall>k v e. K k = Some (v, Some e) \<longrightarrow> t < e)"
proof -
  have "live t K k = K k \<longleftrightarrow> (\<forall>v e. K k = Some (v, Some e) \<longrightarrow> t < e)" for k
    by (auto simp: live_def split: option.splits)
  then show ?thesis by (auto simp: all_live_def fun_eq_iff)
qed

lemma redis_doc_all_live: "all_live t K \<Longrightarrow> all_live t (snd (redis_doc t c K))"
  by (cases c) (auto simp: all_live_iff Let_def split: option.splits rval.splits list.splits)

lemma DEL_one: "redis_doc t (DEL [k]) K = (Inr (RInt (if K k = None then 0 else 1)), K(k := None))"
  by (auto simp: fun_eq_iff)

text \<open>A command changes only the keys it names.\<close>

fun cmd_keys :: "redis_cmd \<Rightarrow> string set" where
  "cmd_keys (GET k) = {k}" | "cmd_keys (SET_PX k v px) = {k}" | "cmd_keys (DEL ks) = set ks" | "cmd_keys (EXISTS k) = {k}"
| "cmd_keys (INCR k) = {k}" | "cmd_keys (PEXPIRE k px) = {k}" | "cmd_keys (PTTL k) = {k}"
| "cmd_keys (HSET k fs) = {k}" | "cmd_keys (HGET k f) = {k}" | "cmd_keys (HINCRBY k f d) = {k}"
| "cmd_keys (ZREMRANGEBYSCORE k m) = {k}" | "cmd_keys (ZCARD k) = {k}" | "cmd_keys (ZRANGE_FIRST k) = {k}"
| "cmd_keys (ZADD k s m) = {k}"

definition leaves :: "string \<Rightarrow> (keyspace, 'e, 'a) op \<Rightarrow> bool" where
  "leaves l m \<longleftrightarrow> (\<forall>K. snd (m K) l = K l)"

lemma leavesD: "leaves l m \<Longrightarrow> snd (m K) l = K l"
  by (simp add: leaves_def)

lemma leaves_doc: "l \<notin> cmd_keys c \<Longrightarrow> leaves l (redis_doc t c)"
  by (cases c) (auto simp: leaves_def Let_def split: option.splits rval.splits list.splits)

lemma leaves_retE: "leaves l (retE x)"
  by (simp add: leaves_def)

lemma leaves_failE: "leaves l (failE x)"
  by (simp add: leaves_def)

lemma leaves_bindE:
  assumes "leaves l m" and "\<And>x. leaves l (f x)"
  shows "leaves l (bindE m f)"
  unfolding leaves_def
proof (intro allI)
  fix K
  obtain a s where m: "m K = (a, s)" by force
  show "snd (bindE m f K) l = K l"
    using m leavesD [OF assms(1), of K] leavesD [OF assms(2)] by (cases a) (simp_all add: bindE_def)
qed

lemma leaves_mapErrE:
  assumes "leaves l m"
  shows "leaves l (mapErrE g m)"
  unfolding leaves_def
proof (intro allI)
  fix K
  obtain a s where m: "m K = (a, s)" by force
  show "snd (mapErrE g m K) l = K l"
    using m leavesD [OF assms, of K] by (cases a) (simp_all add: mapErrE_def)
qed

lemma leaves_if: "(b \<Longrightarrow> leaves l m) \<Longrightarrow> (\<not> b \<Longrightarrow> leaves l n) \<Longrightarrow> leaves l (if b then m else n)"
  by simp

section \<open>The service as a parameter\<close>

text \<open>Failures between the client and the server: a lost request changes nothing, a lost reply comes
  after the script has run.\<close>

datatype net = Delivered | LostRequest | LostReply

type_synonym 'r redis_exec = "int \<Rightarrow> redis_cmd \<Rightarrow> 'r \<Rightarrow> (redis_error + reply) \<times> 'r"

text \<open>The client library reports a nil reply as the error \<open>redis.Nil\<close>.\<close>

datatype client_error = ScriptError redis_error | NetError | NilReply

definition client_reply :: "(redis_error + reply) \<Rightarrow> client_error + reply" where
  "client_reply x = (case x of Inl e \<Rightarrow> Inl (ScriptError e) | Inr RNil \<Rightarrow> Inl NilReply | Inr y \<Rightarrow> Inr y)"

definition Eval :: "net \<Rightarrow> ('r, redis_error, reply) op \<Rightarrow> ('r, client_error, reply) op" where
  "Eval n script r = (case n of
      Delivered \<Rightarrow> (client_reply (fst (script r)), snd (script r))
    | LostRequest \<Rightarrow> (Inl NetError, r)
    | LostReply \<Rightarrow> (Inl NetError, snd (script r)))"

text \<open>
  A program on the server state simulates a program on keyspaces when it gives the same result and
  the observations agree afterwards.
\<close>

definition redis_sim ::
    "('r \<Rightarrow> keyspace) \<Rightarrow> ('r, 'e, 'a) op \<Rightarrow> (keyspace, 'e, 'a) op \<Rightarrow> bool" where
  "redis_sim v m m' \<longleftrightarrow> (\<forall>r. fst (m r) = fst (m' (v r)) \<and> v (snd (m r)) = snd (m' (v r)))"

lemma redis_sim_retE [intro]: "redis_sim v (retE x) (retE x)"
  by (simp add: redis_sim_def)

lemma redis_sim_failE [intro]: "redis_sim v (failE x) (failE x)"
  by (simp add: redis_sim_def)

lemma redis_sim_bindE [intro]:
  assumes "redis_sim v m m'" and "\<And>x. redis_sim v (f x) (f' x)"
  shows "redis_sim v (bindE m f) (bindE m' f')"
  unfolding redis_sim_def
proof (intro allI)
  fix r
  obtain a s where m: "m r = (a, s)" by force
  obtain a' s' where m': "m' (v r) = (a', s')" by force
  have eq: "a' = a" "s' = v s" using assms(1) m m' by (metis fst_conv redis_sim_def, metis snd_conv redis_sim_def)
  show "fst (bindE m f r) = fst (bindE m' f' (v r)) \<and> v (snd (bindE m f r)) = snd (bindE m' f' (v r))"
    using assms(2) m m' eq by (cases a) (auto simp: redis_sim_def bindE_def)
qed

lemma redis_sim_if [intro]: "redis_sim v m m' \<Longrightarrow> redis_sim v n n' \<Longrightarrow>
    redis_sim v (if b then m else n) (if b then m' else n')"
  by simp

lemma redis_sim_Eval [intro]: "redis_sim v m m' \<Longrightarrow> redis_sim v (Eval n m) (Eval n m')"
  by (cases n) (auto simp: redis_sim_def Eval_def)

lemma redis_sim_mapErrE [intro]:
  assumes "redis_sim v m m'"
  shows "redis_sim v (mapErrE g m) (mapErrE g m')"
  unfolding redis_sim_def
proof (intro allI)
  fix r
  obtain a s where m: "m r = (a, s)" by force
  obtain a' s' where m': "m' (v r) = (a', s')" by force
  have "a' = a" "s' = v s" using assms m m' by (metis fst_conv redis_sim_def, metis snd_conv redis_sim_def)
  then show "fst (mapErrE g m r) = fst (mapErrE g m' (v r)) \<and> v (snd (mapErrE g m r)) = snd (mapErrE g m' (v r))"
    using m m' by (cases a) (simp_all add: mapErrE_def)
qed

lemma leaves_Eval: "leaves l m \<Longrightarrow> leaves l (Eval n m)"
  by (cases n) (auto simp: leaves_def Eval_def)

lemmas leaves_rules = leaves_retE leaves_failE leaves_bindE leaves_mapErrE leaves_if leaves_Eval

lemma redis_simD: "redis_sim v m m' \<Longrightarrow> m r = (x, s) \<Longrightarrow> m' (v r) = (x, v s)"
  unfolding redis_sim_def by (metis prod.collapse fst_conv snd_conv)

locale redis =
  fixes exec :: "'r redis_exec" and view :: "int \<Rightarrow> 'r \<Rightarrow> keyspace"
  assumes exec_doc: "redis_sim (view t) (exec t c) (redis_doc t c)"
    and view_expire: "t \<le> t' \<Longrightarrow> view t' r = live t' (view t r)"
begin

lemma view_all_live: "all_live t (view t r)"
  using view_expire [of t t r] by (simp add: all_live_def)

lemma view_Some_later: "t \<le> t' \<Longrightarrow> view t' r k = Some x \<Longrightarrow> view t r k = Some x"
  using view_expire live_Some by metis

lemma view_snd: "redis_sim (view t) m m' \<Longrightarrow> view t (snd (m r)) = snd (m' (view t r))"
  by (simp add: redis_sim_def)

lemma view_fst: "redis_sim (view t) m m' \<Longrightarrow> fst (m r) = fst (m' (view t r))"
  by (simp add: redis_sim_def)

end

text \<open>A server that stores deadlines and drops expired keys on access satisfies the contract.\<close>

definition lazy_exec :: "keyspace redis_exec" where
  "lazy_exec t c K = redis_doc t c (live t K)"

interpretation lazy: redis lazy_exec live
proof
  show "redis_sim (live t) (lazy_exec t c) (redis_doc t c)" for t c
    using redis_doc_all_live [of t "live t K" c for K]
    by (auto simp: redis_sim_def lazy_exec_def all_live_def live_live)
  show "t \<le> t' \<Longrightarrow> live t' r = live t' (live t r)" for t t' r
    by (simp add: live_live)
qed

end
