(* ===== verification/Redis_Rate_Limit.thy ===== *)
theory Redis_Rate_Limit
  imports Rate_Limit Redis
begin

text \<open>
  The sliding-window limiter on Redis (\<open>src/pkg/platform/httpserver/redis_rate_limiter.go\<close>), the middleware that
  asks a limiter (\<open>RateLimit\<close> of \<open>src/pkg/httpkit/middleware.go\<close>) and the paths that fail closed
  (\<open>isCriticalRateLimitPath\<close> of \<open>src/internal/app/api.go\<close>). The theorem: when its messages arrive and its clock is that
  of the server, the limiter on Redis decides as the reference backend of \<open>Rate_Limit\<close> does.
\<close>

section \<open>Script and limiter\<close>

definition reply_count :: "reply \<Rightarrow> ('r, redis_error, int) op" where
  "reply_count r = (case r of RInt n \<Rightarrow> retE n | _ \<Rightarrow> failE LuaError)"

definition retry_after :: "int \<Rightarrow> int \<Rightarrow> reply \<Rightarrow> ('r, redis_error, int) op" where
  "retry_after now window oldest = (case oldest of
      RMulti [_, RBulk s] \<Rightarrow> (case ParseInt s of Some x \<Rightarrow> retE (max 1 (window - (now - x))) | None \<Rightarrow> failE LuaError)
    | _ \<Rightarrow> retE window)"

definition slidingWindowScript ::
    "'r redis_exec \<Rightarrow> int \<Rightarrow> string \<Rightarrow> int \<Rightarrow> int \<Rightarrow> int \<Rightarrow> string \<Rightarrow> ('r, redis_error, reply) op" where
  "slidingWindowScript exec t key now window limit member =
     bindE (exec t (ZREMRANGEBYSCORE key (now - window))) (\<lambda>_.
     bindE (exec t (ZCARD key)) (\<lambda>c.
     bindE (reply_count c) (\<lambda>count.
     if count \<ge> limit then
       bindE (exec t (ZRANGE_FIRST key)) (\<lambda>oldest.
       bindE (retry_after now window oldest) (\<lambda>retry.
       bindE (exec t (PEXPIRE key window)) (\<lambda>_.
       retE (RMulti [RInt 0, RInt 0, RInt retry]))))
     else
       bindE (exec t (ZADD key now member)) (\<lambda>_.
       bindE (exec t (PEXPIRE key window)) (\<lambda>_.
       retE (RMulti [RInt 1, RInt (limit - count - 1), RInt 0]))))))"

text \<open>
  The arguments are numbers of the script, doubles that are exact for the times and limits in use (below \<open>2 ^ 53\<close>).
  The sequence number is an unsigned 64-bit counter. A missing client is the flag \<open>rl_client\<close>.
\<close>

record RedisRateLimiter =
  rl_client :: bool
  rl_prefix :: string
  rl_sequence :: nat
  rl_nonce :: string

definition newLimiterNonce :: "string option \<Rightarrow> nat \<Rightarrow> string" where
  "newLimiterNonce rnd fallback = (case rnd of
      Some bs \<Rightarrow> hex_encode bs
    | None \<Rightarrow> ''fallback-'' @ FormatUint ((fallback + 1) mod 2 ^ 64))"

definition NewRedisRateLimiter :: "bool \<Rightarrow> string \<Rightarrow> string \<Rightarrow> RedisRateLimiter" where
  "NewRedisRateLimiter client pfx nonce =
     \<lparr>rl_client = client, rl_prefix = (if pfx = [] then ''rate_limit'' else pfx), rl_sequence = 0, rl_nonce = nonce\<rparr>"

definition redisInt :: "reply \<Rightarrow> limiter_error + int" where
  "redisInt v = (case v of
      RInt n \<Rightarrow> Inr n
    | RBulk s \<Rightarrow> (case ParseInt s of None \<Rightarrow> Inl (ParseRedisInteger s) | Some n \<Rightarrow> Inr n)
    | _ \<Rightarrow> Inl UnexpectedRedisType)"

definition decision_of :: "reply list \<Rightarrow> limiter_error + RateLimitDecision" where
  "decision_of result =
     (if length result \<noteq> 3 then Inl (UnexpectedResultLength (length result))
      else case redisInt (result ! 0) of
        Inl e \<Rightarrow> Inl e
      | Inr allowed \<Rightarrow> (case redisInt (result ! 1) of
          Inl e \<Rightarrow> Inl e
        | Inr remaining \<Rightarrow> (case redisInt (result ! 2) of
            Inl e \<Rightarrow> Inl e
          | Inr retryMillis \<Rightarrow> Inr \<lparr>Allowed = (allowed = 1), Remaining = remaining, RetryAfter = int64 (retryMillis * 1000000)\<rparr>)))"

definition limiter_member :: "RedisRateLimiter \<Rightarrow> int \<Rightarrow> nat \<Rightarrow> string" where
  "limiter_member L nowMillis n = rl_nonce L @ ''-'' @ FormatInt nowMillis @ ''-'' @ FormatUint n"

text \<open>
  \<open>Allow\<close> at the server's time \<open>t\<close> with the process's clock \<open>now\<close> in nanoseconds; the result, the limiter with its
  counter and the server.
\<close>

definition RedisRateLimiter_Allow ::
    "'r redis_exec \<Rightarrow> net \<Rightarrow> int \<Rightarrow> int \<Rightarrow> string \<Rightarrow> int \<Rightarrow> int \<Rightarrow> RedisRateLimiter \<times> 'r
      \<Rightarrow> (limiter_error + RateLimitDecision) \<times> RedisRateLimiter \<times> 'r" where
  "RedisRateLimiter_Allow exec n t now key limit window = (\<lambda>(L, r).
     if \<not> rl_client L then (Inl RedisClientRequired, L, r)
     else if limit \<le> 0 \<or> window \<le> 0 then (Inl LimitAndWindowNotPositive, L, r)
     else
       let nowMillis = now div 1000000; windowMillis = Milliseconds window;
           n' = (rl_sequence L + 1) mod 2 ^ 64; L' = L\<lparr>rl_sequence := n'\<rparr>;
           (result, r') = Eval n (slidingWindowScript exec t (rl_prefix L @ '':'' @ key) nowMillis windowMillis limit (limiter_member L nowMillis n')) r
       in (case result of
             Inr (RMulti rs) \<Rightarrow> (decision_of rs, L', r')
           | Inr _ \<Rightarrow> (Inl (ScriptFailed ''unexpected type''), L', r')
           | Inl _ \<Rightarrow> (Inl (ScriptFailed ''execute rate limit script''), L', r')))"

section \<open>Middleware\<close>

text \<open>What the middleware does with a request: it passes it on or answers itself.\<close>

datatype rate_answer = Served "(string \<times> string) list" | Unavailable | TooManyRequests "(string \<times> string) list"

record 'w RateLimitConfig =
  rc_Limiter :: "(string \<Rightarrow> int \<Rightarrow> int \<Rightarrow> 'w \<Rightarrow> (limiter_error + RateLimitDecision) \<times> 'w) option"
  rc_Limit :: int
  rc_Window :: int
  rc_Critical :: "(string \<Rightarrow> bool) option"

definition RateLimitConfig_Validate :: "'w RateLimitConfig \<Rightarrow> string option" where
  "RateLimitConfig_Validate c =
     (if rc_Limiter c = None then Some ''rate limiter is required''
      else if rc_Limit c \<le> 0 then Some ''rate limit must be positive''
      else if rc_Window c \<le> 0 then Some ''rate limit window must be positive'' else None)"

definition is_critical :: "'w RateLimitConfig \<Rightarrow> string \<Rightarrow> bool" where
  "is_critical c path = (case rc_Critical c of None \<Rightarrow> False | Some f \<Rightarrow> f path)"

text \<open>\<open>int(math.Ceil(d.Seconds()))\<close>, at least 1; the limiters' delays are short enough for the float to be exact.\<close>

definition retry_seconds :: "int \<Rightarrow> int" where
  "retry_seconds d = max 1 (- ((- d) div 1000000000))"

definition RateLimit :: "'w RateLimitConfig \<Rightarrow> string \<Rightarrow> string \<Rightarrow> 'w \<Rightarrow> rate_answer \<times> 'w" where
  "RateLimit c key path w =
     (let failing = (if is_critical c path then Unavailable else Served []) in
      case rc_Limiter c of
        None \<Rightarrow> (failing, w)
      | Some allow \<Rightarrow>
          if rc_Limit c \<le> 0 \<or> rc_Window c \<le> 0 then (failing, w)
          else (case allow key (rc_Limit c) (rc_Window c) w of
              (Inl _, w') \<Rightarrow> (failing, w')
            | (Inr d, w') \<Rightarrow>
                let headers = [(''X-RateLimit-Limit'', FormatInt (rc_Limit c)), (''X-RateLimit-Remaining'', FormatInt (Remaining d))] in
                if \<not> Allowed d then (TooManyRequests (headers @ [(''Retry-After'', FormatInt (retry_seconds (RetryAfter d)))]), w')
                else (Served headers, w')))"

definition isCriticalRateLimitPath :: "string \<Rightarrow> bool" where
  "isCriticalRateLimitPath path =
     ((length path \<ge> 12 \<and> take 12 path = ''/api/v1/auth'') \<or> has_prefix path ''/api/v1/users/me/security''
      \<or> path = ''/api/v1/audit-logs'' \<or> path = ''/api/v1/task-executions'')"

section \<open>What a key holds\<close>

text \<open>
  At time \<open>t\<close> the sorted set of a key and the list \<open>M\<close> of the reference backend, in milliseconds, agree on the
  window; a set whose deadline has passed has nothing left in the window.
\<close>

definition zset_ok :: "int \<Rightarrow> int \<Rightarrow> (string \<times> int) list \<Rightarrow> int list \<Rightarrow> bool" where
  "zset_ok t W z M \<longleftrightarrow> sorted (map snd z) \<and> (\<forall>s \<in> set (map snd z). s \<le> t \<and> in_int 64 s) \<and>
     filter (\<lambda>s. t - W < s) (map snd z) = filter (\<lambda>s. t - W < s) M"

definition window_rep :: "int \<Rightarrow> int \<Rightarrow> keyspace \<Rightarrow> string \<Rightarrow> int list \<Rightarrow> bool" where
  "window_rep t W K k M \<longleftrightarrow> (case K k of
      None \<Rightarrow> zset_ok t W [] M
    | Some (VZset z, Some e) \<Rightarrow> zset_ok t W z M \<and> (\<forall>s \<in> set (map snd z). s + W \<le> e)
    | _ \<Rightarrow> False)"

lemma window_rep_iff:
  "window_rep t W K k M \<longleftrightarrow> K k = None \<and> zset_ok t W [] M \<or>
     (\<exists>z e. K k = Some (VZset z, Some e) \<and> zset_ok t W z M \<and> (\<forall>s \<in> set (map snd z). s + W \<le> e))"
proof (cases "K k")
  case (Some v)
  obtain x y where "v = (x, y)" by force
  then show ?thesis using Some by (cases x; cases y) (auto simp: window_rep_def)
qed (simp add: window_rep_def)

lemma filter_later: "t \<le> t' \<Longrightarrow> filter (\<lambda>s. t - W < s) xs = filter (\<lambda>s. t - W < s) ys \<Longrightarrow>
    filter (\<lambda>s. t' - W < s) xs = filter (\<lambda>s. t' - W < (s :: int)) ys"
proof -
  assume "t \<le> t'" and eq: "filter (\<lambda>s. t - W < s) xs = filter (\<lambda>s. t - W < s) ys"
  then have "filter (\<lambda>s. t' - W < s) zs = filter (\<lambda>s. t' - W < s) (filter (\<lambda>s. t - W < s) zs)" for zs by (auto intro!: filter_cong)
  then show ?thesis using eq by metis
qed

lemma zset_ok_later: "zset_ok t W z M \<Longrightarrow> t \<le> t' \<Longrightarrow> zset_ok t' W z M"
  unfolding zset_ok_def using filter_later [of t t' W "map snd z" M] by force

lemma window_rep_live:
  assumes "window_rep t W K k M" "t \<le> t'"
  shows "window_rep t' W (live t' K) k M"
proof (cases "K k = None")
  case True
  then show ?thesis using assms zset_ok_later by (auto simp: window_rep_iff live_simps)
next
  case False
  then obtain z e where v: "K k = Some (VZset z, Some e)" "zset_ok t W z M" "\<forall>s \<in> set (map snd z). s + W \<le> e"
    using assms(1) by (auto simp: window_rep_iff)
  note later = zset_ok_later [OF v(2) assms(2)]
  have "zset_ok t' W [] M" if "\<not> t' < e"
  proof -
    have "filter (\<lambda>s. t' - W < s) (map snd z) = []" using v(3) that by (auto simp: filter_empty_conv)
    then show ?thesis using later by (simp add: zset_ok_def)
  qed
  then show ?thesis using v later by (simp add: window_rep_iff live_simps)
qed

lemma zinsert_scores: "sorted (map snd z) \<Longrightarrow> \<forall>s \<in> set (map snd z). s \<le> t \<Longrightarrow> map snd (zinsert (m, t) z) = map snd z @ [t]"
proof (induction z)
  case (Cons y z)
  show ?case
  proof (cases "snd y = t")
    case True
    then have "\<forall>s \<in> set (map snd z). s = t" using Cons.prems by force
    then have "map snd z @ [t] = t # map snd z" by (induction z) auto
    then show ?thesis using True Cons by simp
  next
    case False
    then show ?thesis using Cons by auto
  qed
qed simp

lemma zinsert_members: "fst ` set (zinsert x z) = insert (fst x) (fst ` set z)"
  by (induction z) auto

section \<open>The script on a keyspace\<close>

text \<open>The decision of the reference backend in milliseconds, and the list it leaves.\<close>

definition window_step :: "int \<Rightarrow> int \<Rightarrow> int \<Rightarrow> int list \<Rightarrow> reply \<times> int list" where
  "window_step t W limit M =
     (let A = filter (\<lambda>s. t - W < s) M in
      if int (length A) \<ge> limit then (RMulti [RInt 0, RInt 0, RInt (hd A + W - t)], A)
      else (RMulti [RInt 1, RInt (limit - int (length A) - 1), RInt 0], A @ [t]))"

lemma filter_map_snd: "filter P (map snd z) = map snd (filter (\<lambda>x. P (snd x)) z)"
  by (simp add: filter_map comp_def)

text \<open>The set of the key, nothing when it is missing.\<close>

definition zset_at :: "keyspace \<Rightarrow> string \<Rightarrow> (string \<times> int) list" where
  "zset_at K k = (case K k of Some (VZset z, _) \<Rightarrow> z | _ \<Rightarrow> [])"

lemma window_rep_zset:
  "window_rep t W K k M \<Longrightarrow> zset_ok t W (zset_at K k) M \<and> (K k = None \<and> zset_at K k = [] \<or> (\<exists>e. K k = Some (VZset (zset_at K k), Some e)))"
  by (auto simp: window_rep_iff zset_at_def)

text \<open>After the old entries have gone, in the two branches of the script.\<close>

lemma script_tail:
  assumes K: "K k = None \<and> z = [] \<or> (\<exists>e. z \<noteq> [] \<and> K k = Some (VZset z, Some e))"
    and z: "sorted (map snd z)" "\<forall>s \<in> set (map snd z). s \<le> t \<and> t - W < s \<and> in_int 64 s" "m \<notin> fst ` set z"
    and pos: "0 < W" "1 \<le> limit" "in_int 64 t"
  defines "S \<equiv> bindE (redis_doc t (ZCARD k)) (\<lambda>c. bindE (reply_count c) (\<lambda>count.
     if count \<ge> limit then
       bindE (redis_doc t (ZRANGE_FIRST k)) (\<lambda>oldest. bindE (retry_after t W oldest) (\<lambda>retry.
       bindE (redis_doc t (PEXPIRE k W)) (\<lambda>_. retE (RMulti [RInt 0, RInt 0, RInt retry]))))
     else bindE (redis_doc t (ZADD k t m)) (\<lambda>_. bindE (redis_doc t (PEXPIRE k W)) (\<lambda>_.
       retE (RMulti [RInt 1, RInt (limit - count - 1), RInt 0])))))"
  shows "S K = (if int (length z) \<ge> limit then (Inr (RMulti [RInt 0, RInt 0, RInt (snd (hd z) + W - t)]), K(k \<mapsto> (VZset z, Some (t + W))))
    else (Inr (RMulti [RInt 1, RInt (limit - int (length z) - 1), RInt 0]), K(k \<mapsto> (VZset (zinsert (m, t) z), Some (t + W)))))"
proof (cases "int (length z) \<ge> limit")
  case True
  then have "z \<noteq> []" using pos by auto
  then obtain y ys e where y: "z = y # ys" "K k = Some (VZset z, Some e)" using K by (cases z) auto
  then have "max 1 (W - (t - snd y)) = snd y + W - t" "in_int 64 (snd y)" using z(2) by auto
  then show ?thesis using True y pos
    by (cases y) (simp add: S_def bindE_def reply_count_def retry_after_def)
next
  case False
  have "filter (\<lambda>x. fst x \<noteq> m) z = z" using z(3) by (auto simp: filter_id_conv)
  then show ?thesis using False K pos by (auto simp: S_def bindE_def reply_count_def)
qed

lemma zset_ok_self: "sorted (map snd z) \<Longrightarrow> \<forall>s \<in> set (map snd z). s \<le> t \<and> in_int 64 s \<Longrightarrow> zset_ok t W z (map snd z)"
  by (simp add: zset_ok_def)

lemma script_doc:
  assumes rep: "window_rep t W K k M" and pos: "0 < W" "1 \<le> limit" "in_int 64 t" and fresh: "m \<notin> fst ` set (zset_at K k)"
    and run: "slidingWindowScript redis_doc t k t W limit m K = (x, K')"
  shows "x = Inr (fst (window_step t W limit M)) \<and> window_rep t W K' k (snd (window_step t W limit M)) \<and>
    fst ` set (zset_at K' k) \<subseteq> insert m (fst ` set (zset_at K k))"
proof -
  define z where "z = filter (\<lambda>x. t - W < snd x) (zset_at K k)"
  note ok = window_rep_zset [OF rep]
  have A: "filter (\<lambda>s. t - W < s) M = map snd z" using ok by (simp add: zset_ok_def z_def filter_map_snd)
  have z: "sorted (map snd z)" "\<forall>s \<in> set (map snd z). s \<le> t \<and> t - W < s \<and> in_int 64 s" "m \<notin> fst ` set z"
    using ok fresh by (auto simp: z_def zset_ok_def intro!: sorted_filter)
  define K1 where "K1 = (if K k = None then K else K(k := if z = [] then None else Some (VZset z, snd (the (K k)))))"
  have K1: "K1 k = None \<and> z = [] \<or> (\<exists>e. z \<noteq> [] \<and> K1 k = Some (VZset z, Some e))" using ok by (auto simp: K1_def z_def)
  have "\<exists>x. redis_doc t (ZREMRANGEBYSCORE k (t - W)) K = (Inr x, K1)" using ok by (auto simp: K1_def z_def Let_def)
  then have run': "(x, K') = (if int (length z) \<ge> limit then (Inr (RMulti [RInt 0, RInt 0, RInt (snd (hd z) + W - t)]), K1(k \<mapsto> (VZset z, Some (t + W))))
    else (Inr (RMulti [RInt 1, RInt (limit - int (length z) - 1), RInt 0]), K1(k \<mapsto> (VZset (zinsert (m, t) z), Some (t + W)))))"
    using script_tail [where K = K1 and k = k and z = z and t = t and W = W and m = m and limit = limit, OF K1 z pos] run unfolding slidingWindowScript_def by auto
  have sub: "fst ` set z \<subseteq> fst ` set (zset_at K k)" by (auto simp: z_def)
  show ?thesis
  proof (cases "int (length z) \<ge> limit")
    case True
    then have "z \<noteq> []" using pos by auto
    then show ?thesis using True run' A z sub zset_ok_self [of z t W]
      by (auto simp: window_step_def window_rep_iff zset_at_def hd_map)
  next
    case False
    have zi: "map snd (zinsert (m, t) z) = map snd z @ [t]" using z by (intro zinsert_scores) auto
    then have "zset_ok t W (zinsert (m, t) z) (map snd z @ [t])"
      using zset_ok_self [of "zinsert (m, t) z" t W] z pos(3) unfolding zi by (auto simp: sorted_append)
    moreover have "\<forall>s \<in> set (map snd (zinsert (m, t) z)). s + W \<le> t + W" unfolding zi using z by auto
    ultimately show ?thesis using False run' A sub
      by (auto simp: window_step_def window_rep_iff zset_at_def zinsert_members)
  qed
qed

lemma leaves_script: "l \<noteq> k \<Longrightarrow> leaves l (slidingWindowScript redis_doc t k now W limit m)"
  unfolding slidingWindowScript_def reply_count_def retry_after_def
  by (auto intro!: leaves_rules leaves_doc split: reply.split list.split option.split)

context redis
begin

lemma script_sim: "redis_sim (view t) (slidingWindowScript exec t k now W limit m) (slidingWindowScript redis_doc t k now W limit m)"
  unfolding slidingWindowScript_def reply_count_def retry_after_def
  by (intro redis_sim_bindE redis_sim_if redis_sim_retE exec_doc) (auto split: reply.split list.split option.split)

end

section \<open>Runs of requests\<close>

text \<open>Requests, each with its time in milliseconds and its key, to the limiter on Redis and to the reference backend.\<close>

fun redis_run :: "'r redis_exec \<Rightarrow> int \<Rightarrow> int \<Rightarrow> (int \<times> string) list \<Rightarrow> RedisRateLimiter \<times> 'r \<Rightarrow> (limiter_error + RateLimitDecision) list" where
  "redis_run exec limit window [] s = []"
| "redis_run exec limit window ((t, key) # reqs) s =
     (case RedisRateLimiter_Allow exec Delivered t (t * 1000000) key limit window s of (x, s') \<Rightarrow> x # redis_run exec limit window reqs s')"

fun memory_run :: "int \<Rightarrow> int \<Rightarrow> (int \<times> string) list \<Rightarrow> MemoryRateLimiter \<Rightarrow> (limiter_error + RateLimitDecision) list" where
  "memory_run limit window [] L = []"
| "memory_run limit window ((t, key) # reqs) L =
     (case Allow (t * 1000000) key limit window (Some L) of
        (x, Some L') \<Rightarrow> x # memory_run limit window reqs L'
      | (x, None) \<Rightarrow> [x])"

definition in_nanos :: "(string \<Rightarrow> int list) \<Rightarrow> MemoryRateLimiter" where
  "in_nanos M = \<lparr>attempts = (\<lambda>key. map (\<lambda>s. s * 1000000) (M key))\<rparr>"

lemma window_step_sorted: "sorted M \<Longrightarrow> \<forall>s \<in> set M. s \<le> t \<Longrightarrow> sorted (snd (window_step t W limit M)) \<and> (\<forall>s \<in> set (snd (window_step t W limit M)). s \<le> t)"
  by (auto simp: window_step_def Let_def sorted_append sorted_wrt_filter)

lemma Allow_step:
  assumes "sorted (M key)" "0 < W" "1 \<le> limit" "in_int 64 (W * 1000000)" "\<forall>s \<in> set (M key). s \<le> t"
  shows "\<exists>rs. fst (window_step t W limit (M key)) = RMulti rs \<and>
    Allow (t * 1000000) key limit (W * 1000000) (Some (in_nanos M)) = (decision_of rs, Some (in_nanos (M(key := snd (window_step t W limit (M key))))))"
proof -
  define A where "A = filter (\<lambda>s. t - W < s) (M key)"
  have d: "dropWhile (\<lambda>a. \<not> a > t * 1000000 - W * 1000000) (map (\<lambda>s. s * 1000000) (M key)) = map (\<lambda>s. s * 1000000) A"
  proof -
    have "dropWhile (\<lambda>a. \<not> a > t * 1000000 - W * 1000000) (map (\<lambda>s. s * 1000000) (M key)) = map (\<lambda>s. s * 1000000) (dropWhile (\<lambda>s. \<not> s > t - W) (M key))"
      by (simp add: dropWhile_map comp_def) (intro arg_cong [where f = "map _"] dropWhile_cong; auto)
    then show ?thesis using sorted_dropWhile_le [OF assms(1)] by (simp add: A_def)
  qed
  have upd: "(in_nanos M)\<lparr>attempts := (attempts (in_nanos M))(key := map (\<lambda>s. s * 1000000) B)\<rparr> = in_nanos (M(key := B))" for B
    by (auto simp: in_nanos_def fun_eq_iff)
  have at: "attempts (in_nanos M) key = map (\<lambda>s. s * 1000000) (M key)" by (simp add: in_nanos_def)
  have pos: "\<not> limit \<le> 0" "\<not> W * 1000000 \<le> 0" using assms by auto
  show ?thesis
  proof (cases "int (length A) \<ge> limit")
    case True
    then have ne: "A \<noteq> []" using assms(3) by auto
    then have "hd A \<in> set A" by simp
    then have h: "t - W < hd A" "hd A \<le> t" using assms(5) by (auto simp: A_def)
    then have w: "int64 ((hd A + W - t) * 1000000) = (hd A + W - t) * 1000000" using assms(4) by (intro wrap_id) (auto simp: in_int_def)
    have w': "hd A * 1000000 + W * 1000000 - t * 1000000 = (hd A + W - t) * 1000000" by (simp add: algebra_simps)
    have "window_step t W limit (M key) = (RMulti [RInt 0, RInt 0, RInt (hd A + W - t)], A)"
      using True by (simp add: window_step_def A_def Let_def)
    moreover have "decision_of [RInt 0, RInt 0, RInt (hd A + W - t)] = Inr \<lparr>Allowed = False, Remaining = 0, RetryAfter = hd A * 1000000 + W * 1000000 - t * 1000000\<rparr>"
      by (simp add: decision_of_def redisInt_def w [folded w'])
    ultimately show ?thesis using True ne pos unfolding Allow_def by (simp only: at d upd Let_def option.case if_False length_map if_True reply.inject fst_conv snd_conv) (simp add: hd_map)
  next
    case False
    have "window_step t W limit (M key) = (RMulti [RInt 1, RInt (limit - int (length A) - 1), RInt 0], A @ [t])"
      using False by (simp add: window_step_def A_def Let_def)
    moreover have "decision_of [RInt 1, RInt (limit - int (length A) - 1), RInt 0] = Inr \<lparr>Allowed = True, Remaining = limit - int (length A) - 1, RetryAfter = 0\<rparr>"
      by (simp add: decision_of_def redisInt_def wrap_def)
    ultimately show ?thesis using False pos upd [of "A @ [t]"] unfolding Allow_def
      by (simp only: at d Let_def option.case if_False length_map fst_conv snd_conv reply.inject) simp
  qed
qed

text \<open>The members a limiter has written, and their sequence numbers.\<close>

lemma minus_notin_FormatUint: "CHR ''-'' \<notin> set (FormatUint n)"
proof (induction n rule: FormatUint.induct)
  case (1 n)
  then show ?case using digit_char_not_sign [of n] digit_char_not_sign [of "n mod 10"]
    by (subst FormatUint.simps) auto
qed

lemma minus_split: "xs @ CHR ''-'' # ys = us @ CHR ''-'' # vs \<Longrightarrow> CHR ''-'' \<notin> set ys \<Longrightarrow> CHR ''-'' \<notin> set vs \<Longrightarrow> ys = vs"
  by (auto simp: append_eq_append_conv2 append_eq_Cons_conv Cons_eq_append_conv)

lemma limiter_member_inj: "limiter_member L now n = limiter_member L now' n' \<Longrightarrow> n = n'"
proof -
  assume "limiter_member L now n = limiter_member L now' n'"
  then have "FormatUint n = FormatUint n'"
    using minus_split [of "rl_nonce L @ ''-'' @ FormatInt now" "FormatUint n" "rl_nonce L @ ''-'' @ FormatInt now'" "FormatUint n'"]
    by (simp add: limiter_member_def minus_notin_FormatUint)
  then show ?thesis by (metis digits_val_FormatUint option.inject)
qed

definition written :: "RedisRateLimiter \<Rightarrow> string set" where
  "written L = {limiter_member L now n | now n. n \<le> rl_sequence L}"

lemma written_fresh: "limiter_member L now (Suc (rl_sequence L)) \<notin> written L"
  by (auto simp: written_def dest: limiter_member_inj)

lemma written_next: "insert (limiter_member L now (Suc (rl_sequence L))) (written L) \<subseteq> written (L\<lparr>rl_sequence := Suc (rl_sequence L)\<rparr>)"
  by (fastforce simp: written_def limiter_member_def)

text \<open>What holds between the limiter on Redis and the reference backend.\<close>

definition limiter_rel :: "int \<Rightarrow> int \<Rightarrow> RedisRateLimiter \<Rightarrow> keyspace \<Rightarrow> (string \<Rightarrow> int list) \<Rightarrow> bool" where
  "limiter_rel t W L K M \<longleftrightarrow> rl_client L \<and> (\<forall>key. let k = rl_prefix L @ '':'' @ key in
     window_rep t W K k (M key) \<and> sorted (M key) \<and> (\<forall>s \<in> set (M key). s \<le> t) \<and> fst ` set (zset_at K k) \<subseteq> written L)"

lemma limiter_rel_live: "limiter_rel t W L K M \<Longrightarrow> t \<le> t' \<Longrightarrow> limiter_rel t' W L (live t' K) M"
proof -
  assume rel: "limiter_rel t W L K M" and le: "t \<le> t'"
  have "zset_at (live t' K) k = [] \<or> zset_at (live t' K) k = zset_at K k" for k
    by (auto simp: zset_at_def live_def split: option.splits)
  then have "set (zset_at (live t' K) k) \<subseteq> set (zset_at K k)" for k by (metis empty_subsetI list.set(1) order_refl)
  then have "fst ` set (zset_at (live t' K) k) \<subseteq> X" if "fst ` set (zset_at K k) \<subseteq> X" for k X using that by (meson image_mono order_trans)
  moreover have "\<forall>key. \<forall>s \<in> set (M key). s \<le> t'" using rel le unfolding limiter_rel_def Let_def by (meson order_trans)
  ultimately show ?thesis using rel window_rep_live [OF _ le] unfolding limiter_rel_def Let_def by simp
qed

lemma limiter_rel_step:
  assumes rel: "limiter_rel t W L K M" and pos: "0 < W" "1 \<le> limit" "in_int 64 t"
    and run: "slidingWindowScript redis_doc t (rl_prefix L @ '':'' @ key) t W limit (limiter_member L t (Suc (rl_sequence L))) K = (x, K')"
  shows "x = Inr (fst (window_step t W limit (M key))) \<and>
    limiter_rel t W (L\<lparr>rl_sequence := Suc (rl_sequence L)\<rparr>) K' (M(key := snd (window_step t W limit (M key))))"
proof -
  let ?k = "rl_prefix L @ '':'' @ key"
  let ?L = "L\<lparr>rl_sequence := Suc (rl_sequence L)\<rparr>"
  note r = rel [unfolded limiter_rel_def Let_def]
  have fresh: "limiter_member L t (Suc (rl_sequence L)) \<notin> fst ` set (zset_at K ?k)" using r written_fresh by blast
  have rep: "window_rep t W K ?k (M key)" using r by blast
  note own = script_doc [OF rep pos fresh run]
  have other: "K' l = K l" if "l \<noteq> ?k" for l
    using leaves_script [OF that, of t t W limit "limiter_member L t (Suc (rl_sequence L))"] run by (metis leaves_def snd_conv)
  have sub: "written L \<subseteq> written ?L" using written_next by blast
  have "window_rep t W K' (rl_prefix L @ '':'' @ q) ((M(key := snd (window_step t W limit (M key)))) q) \<and>
      fst ` set (zset_at K' (rl_prefix L @ '':'' @ q)) \<subseteq> written ?L" for q
  proof (cases "q = key")
    case True
    have "fst ` set (zset_at K ?k) \<subseteq> written L" using r by blast
    then have "fst ` set (zset_at K' ?k) \<subseteq> written ?L" using own written_next [of L t] by blast
    then show ?thesis using True own by simp
  next
    case False
    then have "K' (rl_prefix L @ '':'' @ q) = K (rl_prefix L @ '':'' @ q)" by (intro other) simp
    then have "window_rep t W K' (rl_prefix L @ '':'' @ q) (M q) = window_rep t W K (rl_prefix L @ '':'' @ q) (M q)"
      "zset_at K' (rl_prefix L @ '':'' @ q) = zset_at K (rl_prefix L @ '':'' @ q)" by (simp_all only: window_rep_def zset_at_def)
    moreover have "fst ` set (zset_at K (rl_prefix L @ '':'' @ q)) \<subseteq> written ?L" using r sub by blast
    ultimately show ?thesis using False r by simp
  qed
  moreover have "sorted ((M(key := snd (window_step t W limit (M key)))) q) \<and> (\<forall>s \<in> set ((M(key := snd (window_step t W limit (M key)))) q). s \<le> t)" for q
    using r window_step_sorted [of "M key" t W limit] by (cases "q = key") auto
  ultimately show ?thesis using own r unfolding limiter_rel_def Let_def by simp
qed

context redis
begin

lemma limiter_step:
  assumes rel: "limiter_rel t W L (view t r) M" and pos: "0 < W" "1 \<le> limit" "in_int 64 t" "in_int 64 (W * 1000000)"
    and seq: "Suc (rl_sequence L) < 2 ^ 64"
  shows "\<exists>r'. RedisRateLimiter_Allow exec Delivered t (t * 1000000) key limit (W * 1000000) (L, r) =
      (fst (Allow (t * 1000000) key limit (W * 1000000) (Some (in_nanos M))), L\<lparr>rl_sequence := Suc (rl_sequence L)\<rparr>, r') \<and>
    (let M' = M(key := snd (window_step t W limit (M key))) in
      limiter_rel t W (L\<lparr>rl_sequence := Suc (rl_sequence L)\<rparr>) (view t r') M' \<and>
      snd (Allow (t * 1000000) key limit (W * 1000000) (Some (in_nanos M))) = Some (in_nanos M'))"
proof -
  let ?S = "slidingWindowScript exec t (rl_prefix L @ '':'' @ key) t W limit (limiter_member L t (Suc (rl_sequence L)))"
  obtain x r' where run: "?S r = (x, r')" by force
  note step = limiter_rel_step [OF rel pos(1-3) redis_simD [OF script_sim run]]
  note r = rel [unfolded limiter_rel_def Let_def]
  obtain rs where rs: "fst (window_step t W limit (M key)) = RMulti rs"
    "Allow (t * 1000000) key limit (W * 1000000) (Some (in_nanos M)) =
      (decision_of rs, Some (in_nanos (M(key := snd (window_step t W limit (M key))))))"
    using Allow_step [of M key W limit t] r pos by blast
  have "Eval Delivered ?S r = (Inr (RMulti rs), r')" using run step rs by (simp add: Eval_def client_reply_def)
  moreover have "Milliseconds (W * 1000000) = W" using pos by (simp add: Milliseconds_def go_div_def)
  moreover have "Suc (rl_sequence L) mod 2 ^ 64 = Suc (rl_sequence L)" using seq by simp
  ultimately have "RedisRateLimiter_Allow exec Delivered t (t * 1000000) key limit (W * 1000000) (L, r) =
      (decision_of rs, L\<lparr>rl_sequence := Suc (rl_sequence L)\<rparr>, r')"
    using r pos(1,2) by (simp add: RedisRateLimiter_Allow_def Let_def)
  then show ?thesis using step rs(2) by (simp add: Let_def)
qed

lemma run_equiv:
  assumes "limiter_rel t W L (view t r) M" and pos: "0 < W" "1 \<le> limit" "in_int 64 (W * 1000000)"
    and "sorted (t # map fst reqs)" "\<forall>u \<in> set (map fst reqs). in_int 64 u" "rl_sequence L + length reqs < 2 ^ 64"
  shows "redis_run exec limit (W * 1000000) reqs (L, r) = memory_run limit (W * 1000000) reqs (in_nanos M)"
  using assms(1,5-)
proof (induction reqs arbitrary: t L r M)
  case (Cons req reqs)
  obtain u key where req: "req = (u, key)" by force
  have le: "t \<le> u" "in_int 64 u" "Suc (rl_sequence L) < 2 ^ 64" using Cons.prems req by auto
  have rel: "limiter_rel u W L (view u r) M" using limiter_rel_live [OF Cons.prems(1) le(1)] view_expire [OF le(1)] by simp
  define M' where "M' = M(key := snd (window_step u W limit (M key)))"
  obtain r' where r': "RedisRateLimiter_Allow exec Delivered u (u * 1000000) key limit (W * 1000000) (L, r) =
      (fst (Allow (u * 1000000) key limit (W * 1000000) (Some (in_nanos M))), L\<lparr>rl_sequence := Suc (rl_sequence L)\<rparr>, r')"
    "limiter_rel u W (L\<lparr>rl_sequence := Suc (rl_sequence L)\<rparr>) (view u r') M'"
    "snd (Allow (u * 1000000) key limit (W * 1000000) (Some (in_nanos M))) = Some (in_nanos M')"
    using limiter_step [OF rel pos(1,2) le(2) pos(3) le(3), of key] by (auto simp: M'_def Let_def)
  have "redis_run exec limit (W * 1000000) reqs (L\<lparr>rl_sequence := Suc (rl_sequence L)\<rparr>, r') = memory_run limit (W * 1000000) reqs (in_nanos M')"
    using Cons.prems req by (intro Cons.IH [OF r'(2)]) auto
  then show ?case using r'(1,3) req by (simp add: split_beta split: option.split)
qed simp

end

text \<open>
  C36: from keys that Redis does not hold, over any requests at non-decreasing milliseconds whose messages arrive, the
  limiter on Redis answers every request, on every key, with the decision, the remaining count and the delay of the
  in-process reference backend, for a window of whole milliseconds. The numbers of the script are doubles, so the
  times and the limit stay below \<open>2 ^ 53\<close>.
\<close>

theorem redis_limiter_equivalent:
  assumes "redis exec view" and "\<forall>key. view t r (pfx @ '':'' @ key) = None" and "pfx \<noteq> []"
    and "0 < W" and "1 \<le> limit" and "limit < 2 ^ 53" and "in_int 64 (W * 1000000)"
    and "sorted (t # map fst reqs)" and "\<forall>u \<in> set (map fst reqs). 0 \<le> u \<and> u < 2 ^ 53" and "length reqs < 2 ^ 64"
  shows "redis_run exec limit (W * 1000000) reqs (NewRedisRateLimiter True pfx nonce, r) =
    memory_run limit (W * 1000000) reqs NewMemoryRateLimiter"
proof -
  have "limiter_rel t W (NewRedisRateLimiter True pfx nonce) (view t r) (\<lambda>_. [])"
    using assms(2,3) by (simp add: limiter_rel_def NewRedisRateLimiter_def window_rep_def zset_ok_def zset_at_def)
  moreover have "in_nanos (\<lambda>_. []) = NewMemoryRateLimiter" by (simp add: in_nanos_def NewMemoryRateLimiter_def)
  moreover have "\<forall>u \<in> set (map fst reqs). in_int 64 u" using assms(9) by (force simp: in_int_def)
  ultimately show ?thesis
    using redis.run_equiv [OF assms(1), where t = t and L = "NewRedisRateLimiter True pfx nonce" and r = r and M = "\<lambda>_. []"] assms(4,5,7,8,10)
    by (simp add: NewRedisRateLimiter_def)
qed

theorem redis_limiter_equivalent_witness:
  "redis_run lazy_exec 1 (10 * 1000000) [(0, ''a''), (4, ''a''), (11, ''a'')] (NewRedisRateLimiter True ''rl'' ''n'', Map.empty) =
    memory_run 1 (10 * 1000000) [(0, ''a''), (4, ''a''), (11, ''a'')] NewMemoryRateLimiter"
  using redis_limiter_equivalent [of lazy_exec live 0 Map.empty "''rl''" 10 1 "[(0, ''a''), (4, ''a''), (11, ''a'')]" "''n''"] lazy.redis_axioms
  by (simp add: live_simps in_int_def)

end
