(* ===== verification/Database.thy ===== *)
theory Database
  imports Redis "HOL-Library.Product_Lexorder" "HOL-Library.List_Lexorder" "HOL-Library.Char_ord"
begin

text \<open>
  What the stores share: the errors of the PostgreSQL driver, the environment of a connection (the
  clock, the generator of UUIDs, the fate of every statement), one statement as an atomic step that
  other transactions may precede, and the nullable values of \<open>pgtype\<close>. The SQL text of the queries is
  part of the sources (\<open>src/pkg/platform/database/dbgen\<close>, \<open>src/pkg/migrations\<close>); each store theory
  states every query as a function on its tables.
\<close>

datatype pg_error = PgError string | ErrNoRows | ConnError

text \<open>
  \<open>db_fault i\<close> is the fate of the \<open>i\<close>-th statement, \<open>db_clock i\<close> the value of \<open>NOW()\<close> during it and
  \<open>db_uuid i\<close> what \<open>gen_random_uuid()\<close> gives in it. \<open>collate_key\<close> stands for the collation of the
  database and \<open>jsonb\<close> for the normalisation of JSON documents, \<open>None\<close> on a malformed one.
\<close>

record db_env =
  db_calls :: nat
  db_fault :: "nat \<Rightarrow> net"
  db_clock :: "nat \<Rightarrow> int"
  db_uuid :: "nat \<Rightarrow> string"
  collate_key :: "string \<Rightarrow> string"
  jsonb :: "string \<Rightarrow> string option"

definition sql_now :: "('d db_env_scheme) \<Rightarrow> int" where
  "sql_now s = db_clock s (db_calls s)"

definition sql_uuid :: "('d db_env_scheme) \<Rightarrow> string" where
  "sql_uuid s = db_uuid s (db_calls s)"

type_synonym 'd interference = "nat \<Rightarrow> 'd db_env_scheme \<Rightarrow> 'd db_env_scheme"

definition next_call :: "'d db_env_scheme \<Rightarrow> 'd db_env_scheme" where
  "next_call s = s\<lparr>db_calls := Suc (db_calls s)\<rparr>"

text \<open>
  One statement: other transactions run first (\<open>env\<close>), then the statement takes effect or not
  depending on its fate; a statement that fails in the database changes nothing.
\<close>

definition stmt ::
    "'d interference \<Rightarrow> ('d db_env_scheme \<Rightarrow> pg_error + ('a \<times> 'd db_env_scheme))
      \<Rightarrow> ('d db_env_scheme, pg_error, 'a) op" where
  "stmt env q s0 =
     (let s = env (db_calls s0) s0 in
      case db_fault s (db_calls s) of
        LostRequest \<Rightarrow> (Inl ConnError, next_call s)
      | f \<Rightarrow> (case q s of
            Inl e \<Rightarrow> (Inl (if f = Delivered then e else ConnError), next_call s)
          | Inr (x, s') \<Rightarrow> (if f = Delivered then Inr x else Inl ConnError, next_call s')))"

lemma stmt_cases:
  assumes "stmt env q s0 = (r, t)"
  obtains (skip) e where "r = Inl e" "t = next_call (env (db_calls s0) s0)"
  | (error) e where "q (env (db_calls s0) s0) = Inl e" "r = Inl e" "t = next_call (env (db_calls s0) s0)"
  | (lost) x s' where "q (env (db_calls s0) s0) = Inr (x, s')" "r = Inl ConnError" "t = next_call s'"
  | (finish) x s' where "q (env (db_calls s0) s0) = Inr (x, s')" "r = Inr x" "t = next_call s'"
  using assms
  by (auto simp: stmt_def Let_def split: net.splits sum.splits if_splits)

lemma stmt_Inr:
  "stmt env q s0 = (Inr x, t) \<longleftrightarrow>
     db_fault (env (db_calls s0) s0) (db_calls (env (db_calls s0) s0)) = Delivered \<and>
     (\<exists>s'. q (env (db_calls s0) s0) = Inr (x, s') \<and> t = next_call s')"
  by (auto simp: stmt_def Let_def split: net.splits sum.splits)

section \<open>Contracts of stores under interference\<close>

text \<open>
  A store's contract is an invariant \<open>cinv\<close> and a relation \<open>le\<close> that says how the tables may change.
  Other processes are relied on to respect both (\<open>rely_by\<close>); a query that respects them (\<open>keeps_by\<close>)
  makes an operation that guarantees them in turn (\<open>guar_by\<close>), whatever the fate of its statements.
\<close>

definition rely_by :: "('d db_env_scheme \<Rightarrow> bool) \<Rightarrow> ('d db_env_scheme \<Rightarrow> 'd db_env_scheme \<Rightarrow> bool) \<Rightarrow> 'd interference \<Rightarrow> bool" where
  "rely_by cinv le env \<longleftrightarrow> (\<forall>i s. cinv s \<longrightarrow> le s (env i s) \<and> cinv (env i s))"

definition keeps_by ::
    "('d db_env_scheme \<Rightarrow> bool) \<Rightarrow> ('d db_env_scheme \<Rightarrow> 'd db_env_scheme \<Rightarrow> bool)
      \<Rightarrow> ('d db_env_scheme \<Rightarrow> pg_error + 'a \<times> 'd db_env_scheme) \<Rightarrow> bool" where
  "keeps_by cinv le q \<longleftrightarrow> (\<forall>s x t. cinv s \<longrightarrow> q s = Inr (x, t) \<longrightarrow> le s t \<and> cinv t)"

definition guar_by ::
    "('d db_env_scheme \<Rightarrow> bool) \<Rightarrow> ('d db_env_scheme \<Rightarrow> 'd db_env_scheme \<Rightarrow> bool)
      \<Rightarrow> ('d db_env_scheme, 'e, 'a) op \<Rightarrow> bool" where
  "guar_by cinv le m \<longleftrightarrow> (\<forall>s. cinv s \<longrightarrow> le s (snd (m s)) \<and> cinv (snd (m s)))"

text \<open>The same from states that satisfy a precondition, and for the committed runs of a transaction.\<close>

definition guar_from ::
    "('d db_env_scheme \<Rightarrow> bool) \<Rightarrow> ('d db_env_scheme \<Rightarrow> 'd db_env_scheme \<Rightarrow> bool) \<Rightarrow> ('d db_env_scheme \<Rightarrow> bool)
      \<Rightarrow> ('d db_env_scheme, 'e, 'a) op \<Rightarrow> bool" where
  "guar_from cinv le P m \<longleftrightarrow> (\<forall>s. cinv s \<longrightarrow> P s \<longrightarrow> le s (snd (m s)) \<and> cinv (snd (m s)))"

definition commits_by ::
    "('d db_env_scheme \<Rightarrow> bool) \<Rightarrow> ('d db_env_scheme \<Rightarrow> 'd db_env_scheme \<Rightarrow> bool)
      \<Rightarrow> ('d db_env_scheme, 'e, 'a) op \<Rightarrow> bool" where
  "commits_by cinv le m \<longleftrightarrow> (\<forall>s x t. cinv s \<longrightarrow> m s = (Inr x, t) \<longrightarrow> le s t \<and> cinv t)"

text \<open>
  \<open>RunInTx\<close>: the statements of the callback run on the transaction's own view; an error of the
  callback or of the commit's request discards it, a lost reply of the commit does not.
\<close>

datatype 'e tx_error = BeginFailed | CommitFailed | TxError 'e

definition rollback_to :: "'d db_env_scheme \<Rightarrow> 'd db_env_scheme \<Rightarrow> 'd db_env_scheme" where
  "rollback_to s t = s\<lparr>db_calls := db_calls t\<rparr>"

definition RunInTx ::
    "'d interference \<Rightarrow> ('d db_env_scheme, 'e, 'a) op \<Rightarrow> ('d db_env_scheme, 'e tx_error, 'a) op" where
  "RunInTx env fn s0 =
     (let s = env (db_calls s0) s0 in
      if db_fault s (db_calls s) \<noteq> Delivered then (Inl BeginFailed, next_call s)
      else case fn (next_call s) of
        (Inl e, t) \<Rightarrow> (Inl (TxError e), next_call (rollback_to s t))
      | (Inr x, t) \<Rightarrow>
          (case db_fault t (db_calls t) of
             Delivered \<Rightarrow> (Inr x, next_call t)
           | LostRequest \<Rightarrow> (Inl CommitFailed, next_call (rollback_to s t))
           | LostReply \<Rightarrow> (Inl CommitFailed, next_call t)))"

definition no_interference :: "'d interference" where
  "no_interference i s = s"

lemma RunInTx_cases:
  assumes "RunInTx env fn s = (r, t)"
  obtains (unbegun) "r = Inl BeginFailed" "t = next_call (env (db_calls s) s)"
  | (aborted) e t' where "r = Inl (TxError e)" "fn (next_call (env (db_calls s) s)) = (Inl e, t')"
      "t = next_call (rollback_to (env (db_calls s) s) t')"
  | (uncommitted) x t' where "r = Inl CommitFailed" "fn (next_call (env (db_calls s) s)) = (Inr x, t')"
      "t = next_call (rollback_to (env (db_calls s) s) t')"
  | (unknown) x t' where "r = Inl CommitFailed" "fn (next_call (env (db_calls s) s)) = (Inr x, t')" "t = next_call t'"
  | (committed) x t' where "r = Inr x" "fn (next_call (env (db_calls s) s)) = (Inr x, t')" "t = next_call t'"
proof -
  let ?e = "env (db_calls s) s"
  obtain r' t' where fn: "fn (next_call ?e) = (r', t')" by (cases "fn (next_call ?e)")
  show thesis
  proof (cases "db_fault ?e (db_calls ?e) = Delivered")
    case True
    note run = assms [unfolded RunInTx_def Let_def fn]
    show thesis
    proof (cases r')
      case (Inl e)
      then show thesis using run fn aborted [of e t'] True by simp
    next
      case (Inr x)
      then show thesis
        using run fn uncommitted [of x t'] unknown [of x t'] committed [of x t'] True
        by (cases "db_fault t' (db_calls t')") simp_all
    qed
  qed (use assms unbegun in \<open>simp add: RunInTx_def Let_def\<close>)
qed

locale db_contract =
  fixes cinv :: "'d db_env_scheme \<Rightarrow> bool" and le :: "'d db_env_scheme \<Rightarrow> 'd db_env_scheme \<Rightarrow> bool"
  assumes le_refl: "le s s" and le_trans: "le s t \<Longrightarrow> le t u \<Longrightarrow> le s u"
    and inv_calls: "cinv (s\<lparr>db_calls := n\<rparr>) = cinv s" and le_calls: "le s (s\<lparr>db_calls := n\<rparr>)"
begin

lemma next_call_ok: "cinv (next_call s) = cinv s" "le s (next_call s)"
  by (simp_all add: next_call_def inv_calls le_calls)

lemma guar_stmt: "rely_by cinv le env \<Longrightarrow> keeps_by cinv le q \<Longrightarrow> guar_by cinv le (stmt env q)"
  unfolding guar_by_def
proof (intro allI impI)
  fix s
  assume rely: "rely_by cinv le env" and keeps: "keeps_by cinv le q" and s: "cinv s"
  let ?e = "env (db_calls s) s"
  have e: "le s ?e" "cinv ?e" using rely s by (auto simp: rely_by_def)
  have q: "le ?e t \<and> cinv t" if "q ?e = Inr (x, t)" for x t using keeps e(2) that by (auto simp: keeps_by_def)
  obtain r u where st: "stmt env q s = (r, u)" by (cases "stmt env q s")
  then have "le ?e u \<and> cinv u"
    by (cases rule: stmt_cases) (use e(2) q next_call_ok le_trans in auto)
  with e(1) st show "le s (snd (stmt env q s)) \<and> cinv (snd (stmt env q s))" by (auto intro: le_trans)
qed

lemma guar_retE: "guar_by cinv le (retE x)" and guar_failE: "guar_by cinv le (failE e)"
  by (simp_all add: guar_by_def le_refl)

lemma guar_bindE:
  fixes m :: "('d db_env_scheme, 'e, 'a) op"
  assumes "guar_by cinv le m" and "\<And>x. guar_by cinv le (f x)"
  shows "guar_by cinv le (bindE m f)"
  unfolding guar_by_def
proof (intro allI impI)
  fix s :: "'d db_env_scheme"
  assume s: "cinv s"
  obtain r t where m: "m s = (r, t)" by (cases "m s")
  have t: "le s t" "cinv t" using assms(1) s m unfolding guar_by_def by (metis snd_conv)+
  show "le s (snd (bindE m f s)) \<and> cinv (snd (bindE m f s))"
  proof (cases r)
    case (Inl e)
    with m t show ?thesis by (simp add: bindE_def)
  next
    case (Inr x)
    have "le t (snd (f x t)) \<and> cinv (snd (f x t))" using assms(2) t(2) unfolding guar_by_def by blast
    with Inr m t show ?thesis by (auto simp: bindE_def intro: le_trans)
  qed
qed

lemma guar_mapErrE: "guar_by cinv le m \<Longrightarrow> guar_by cinv le (mapErrE g m)"
  unfolding guar_by_def mapErrE_def by (auto split: prod.splits sum.splits)

lemma guar_if: "guar_by cinv le m \<Longrightarrow> guar_by cinv le n \<Longrightarrow> guar_by cinv le (if b then m else n)"
  by simp

lemma guar_option:
  "guar_by cinv le m \<Longrightarrow> (\<And>x. guar_by cinv le (f x)) \<Longrightarrow> guar_by cinv le (case z of None \<Rightarrow> m | Some x \<Rightarrow> f x)"
  by (cases z) auto

lemma guar_sum:
  "(\<And>x. guar_by cinv le (g x)) \<Longrightarrow> (\<And>x. guar_by cinv le (f x)) \<Longrightarrow> guar_by cinv le (case z of Inl x \<Rightarrow> g x | Inr x \<Rightarrow> f x)"
  by (cases z) auto

lemma rely_none: "rely_by cinv le no_interference"
  by (simp add: rely_by_def no_interference_def le_refl)

lemma guar_RunInTx:
  assumes "rely_by cinv le env" and "commits_by cinv le fn"
  shows "guar_by cinv le (RunInTx env fn)"
  unfolding guar_by_def
proof (intro allI impI)
  fix s :: "'d db_env_scheme"
  assume s: "cinv s"
  let ?e = "env (db_calls s) s"
  have e: "le s ?e" "cinv ?e" using assms(1) s by (auto simp: rely_by_def)
  obtain r t where fn: "fn (next_call ?e) = (r, t)" by (cases "fn (next_call ?e)")
  have "le (next_call ?e) t \<and> cinv t" if "r = Inr x" for x
    using assms(2) e(2) fn next_call_ok(1) that unfolding commits_by_def by blast
  then have t: "le ?e t \<and> cinv t" if "r = Inr x" for x using that next_call_ok(2) le_trans by blast
  have roll: "le ?e (rollback_to ?e t)" "cinv (rollback_to ?e t)"
    using e(2) by (simp_all add: rollback_to_def inv_calls le_calls)
  have nc: "le ?e (next_call u) \<and> cinv (next_call u)" if "le ?e u" "cinv u" for u
    using that le_trans [OF _ next_call_ok(2)] next_call_ok(1) by blast
  have "le ?e (snd (RunInTx env fn s)) \<and> cinv (snd (RunInTx env fn s))"
  proof (cases "db_fault ?e (db_calls ?e) = Delivered")
    case True
    show ?thesis
    proof (cases r)
      case (Inl x)
      then show ?thesis using nc [OF roll] fn True by (simp add: RunInTx_def Let_def)
    next
      case (Inr x)
      then show ?thesis using nc [OF roll] nc [of t] t fn True
        by (simp add: RunInTx_def Let_def split: net.split)
    qed
  next
    case False
    then show ?thesis using nc [OF le_refl e(2)] by (simp add: RunInTx_def Let_def)
  qed
  with e(1) show "le s (snd (RunInTx env fn s)) \<and> cinv (snd (RunInTx env fn s))" by (blast intro: le_trans)
qed

lemma guar_mapE:
  fixes f :: "'x \<Rightarrow> ('d db_env_scheme, 'e, 'b) op" and xs :: "'x list"
  assumes "\<And>x. guar_by cinv le (f x)"
  shows "guar_by cinv le (mapE f xs)"
proof (induction xs)
  case (Cons x xs)
  show ?case unfolding mapE.simps by (intro guar_bindE assms Cons.IH guar_retE)
next
  case Nil
  show ?case unfolding mapE.simps by (rule guar_retE)
qed

lemma guar_commits: "guar_by cinv le m \<Longrightarrow> commits_by cinv le m"
  unfolding guar_by_def commits_by_def by (metis snd_conv)

lemma guar_fromI: "guar_by cinv le m \<Longrightarrow> guar_from cinv le P m"
  by (simp add: guar_by_def guar_from_def)

lemma guar_from_bindE:
  fixes m :: "('d db_env_scheme, 'e, 'a) op"
  assumes "guar_from cinv le P m" and "\<And>x. guar_by cinv le (f x)"
  shows "guar_from cinv le P (bindE m f)"
  unfolding guar_from_def
proof (intro allI impI)
  fix s :: "'d db_env_scheme"
  assume s: "cinv s" "P s"
  obtain r t where m: "m s = (r, t)" by (cases "m s")
  have t: "le s t" "cinv t" using assms(1) s m unfolding guar_from_def by (metis snd_conv)+
  show "le s (snd (bindE m f s)) \<and> cinv (snd (bindE m f s))"
  proof (cases r)
    case (Inl e)
    with m t show ?thesis by (simp add: bindE_def)
  next
    case (Inr x)
    have "le t (snd (f x t)) \<and> cinv (snd (f x t))" using assms(2) t(2) unfolding guar_by_def by blast
    with Inr m t show ?thesis by (auto simp: bindE_def intro: le_trans)
  qed
qed

lemma guar_from_mapErrE: "guar_from cinv le P m \<Longrightarrow> guar_from cinv le P (mapErrE g m)"
  unfolding guar_from_def mapErrE_def by (auto split: prod.splits sum.splits)

text \<open>A check whose outcome other processes cannot undo, followed by what relies on it.\<close>

lemma guar_checked:
  fixes m :: "('d db_env_scheme, 'e, 'a) op"
  assumes "guar_by cinv le m" and "\<And>s x t. cinv s \<Longrightarrow> m s = (Inr x, t) \<Longrightarrow> P x t" and "\<And>x. guar_from cinv le (P x) (f x)"
  shows "guar_by cinv le (bindE m f)"
  unfolding guar_by_def
proof (intro allI impI)
  fix s :: "'d db_env_scheme"
  assume s: "cinv s"
  obtain r t where m: "m s = (r, t)" by (cases "m s")
  have t: "le s t" "cinv t" using assms(1) s m unfolding guar_by_def by (metis snd_conv)+
  show "le s (snd (bindE m f s)) \<and> cinv (snd (bindE m f s))"
  proof (cases r)
    case (Inl e)
    with m t show ?thesis by (simp add: bindE_def)
  next
    case (Inr x)
    have "P x t" using assms(2) [OF s] m Inr by simp
    then have "le t (snd (f x t)) \<and> cinv (snd (f x t))" using assms(3) t(2) unfolding guar_from_def by blast
    with Inr m t show ?thesis by (auto simp: bindE_def intro: le_trans)
  qed
qed

lemma guar_from_stmt:
  assumes rely: "rely_by cinv le env" and stable: "\<And>s t. P s \<Longrightarrow> cinv s \<Longrightarrow> cinv t \<Longrightarrow> le s t \<Longrightarrow> P t"
    and keeps: "\<And>s x t. cinv s \<Longrightarrow> P s \<Longrightarrow> q s = Inr (x, t) \<Longrightarrow> le s t \<and> cinv t"
  shows "guar_from cinv le P (stmt env q)"
  unfolding guar_from_def
proof (intro allI impI)
  fix s
  assume s: "cinv s" "P s"
  let ?e = "env (db_calls s) s"
  have e: "le s ?e" "cinv ?e" using rely s by (auto simp: rely_by_def)
  have "P ?e" using stable s e by blast
  then have q: "le ?e t \<and> cinv t" if "q ?e = Inr (x, t)" for x t using keeps e(2) that by blast
  obtain r u where st: "stmt env q s = (r, u)" by (cases "stmt env q s")
  then have "le ?e u \<and> cinv u"
    by (cases rule: stmt_cases) (use e(2) q next_call_ok le_trans in auto)
  with e(1) st show "le s (snd (stmt env q s)) \<and> cinv (snd (stmt env q s))" by (auto intro: le_trans)
qed

lemmas guar_rules = guar_stmt guar_retE guar_failE guar_bindE guar_mapErrE guar_if guar_option guar_sum guar_RunInTx

end

text \<open>Text columns must not be blank: \<open>btrim(x) <> ''\<close> strips spaces only.\<close>

definition blank :: "string \<Rightarrow> bool" where
  "blank s = list_all (\<lambda>c. c = CHR '' '') s"

definition nullableText :: "string \<Rightarrow> string option" where
  "nullableText v = (if v \<noteq> [] then Some v else None)"

definition textValue :: "string option \<Rightarrow> string" where
  "textValue v = (case v of None \<Rightarrow> [] | Some s \<Rightarrow> s)"

lemma textValue_nullableText [simp]: "textValue (nullableText v) = v"
  by (simp add: textValue_def nullableText_def)

section \<open>UUIDs\<close>

text \<open>A \<open>pgtype.UUID\<close> is its sixteen bytes, or invalid (\<open>NULL\<close>).\<close>

definition parseUUID :: "string \<Rightarrow> string option" where
  "parseUUID v =
     (case hex_decode (filter (\<lambda>c. c \<noteq> CHR ''-'') v) of
        None \<Rightarrow> None
      | Some bs \<Rightarrow> if length bs = 16 then Some bs else None)"

definition nullableUUID :: "string \<Rightarrow> string option option" where
  "nullableUUID v = (if v = [] then Some None else map_option Some (parseUUID v))"

definition formatUUID :: "string option \<Rightarrow> string" where
  "formatUUID v = (case v of
      None \<Rightarrow> []
    | Some bs \<Rightarrow>
        let h = hex_encode bs in
        take 8 h @ ''-'' @ take 4 (drop 8 h) @ ''-'' @ take 4 (drop 12 h) @ ''-'' @ take 4 (drop 16 h) @ ''-''
          @ take 12 (drop 20 h))"

lemma filter_dash_id [simp]: "CHR ''-'' \<notin> set xs \<Longrightarrow> filter (\<lambda>c. c \<noteq> CHR ''-'') xs = xs"
  by (induction xs) auto

lemma uuid_pieces:
  "length h = 32 \<Longrightarrow> take 8 h @ take 4 (drop 8 h) @ take 4 (drop 12 h) @ take 4 (drop 16 h) @ take 12 (drop 20 h) = h"
proof -
  assume "length h = 32"
  have "take 4 (drop 16 h) @ take 12 (drop 20 h) = drop 16 h"
    using append_take_drop_id [of 4 "drop 16 h"] \<open>length h = 32\<close> by simp
  moreover have "take 4 (drop 12 h) @ drop 16 h = drop 12 h"
    using append_take_drop_id [of 4 "drop 12 h"] by simp
  moreover have "take 4 (drop 8 h) @ drop 12 h = drop 8 h"
    using append_take_drop_id [of 4 "drop 8 h"] by simp
  ultimately show ?thesis by simp
qed

lemma parseUUID_formatUUID: "length bs = 16 \<Longrightarrow> parseUUID (formatUUID (Some bs)) = Some bs"
proof -
  assume len: "length bs = 16"
  let ?h = "hex_encode bs"
  have nodash: "CHR ''-'' \<notin> set (take n (drop m ?h))" for n m
    using hex_encode_no_dash [of bs] by (meson in_set_dropD in_set_takeD)
  from nodash [of _ 0] have "filter (\<lambda>c. c \<noteq> CHR ''-'') (formatUUID (Some bs)) =
      take 8 ?h @ take 4 (drop 8 ?h) @ take 4 (drop 12 ?h) @ take 4 (drop 16 ?h) @ take 12 (drop 20 ?h)"
    by (simp add: formatUUID_def Let_def nodash)
  also have "\<dots> = ?h" by (rule uuid_pieces) (simp add: len)
  finally show ?thesis using len by (simp add: parseUUID_def)
qed

lemma parseUUID_length: "parseUUID v = Some bs \<Longrightarrow> length bs = 16"
  by (auto simp: parseUUID_def split: option.splits if_splits)

end
