(* ===== verification/Task_Model.thy ===== *)
theory Task_Model
  imports Database
begin

text \<open>
  The task module's vocabulary (\<open>src/pkg/modules/task/model.go\<close>): statuses and their transitions,
  executions, messages and publish options; the bounds on submissions of \<open>service.go\<close>; the handler
  registry and the task catalogue (\<open>registry.go\<close>, \<open>runtime_catalog.go\<close>). Durations are nanoseconds.
\<close>

section \<open>Statuses\<close>

type_synonym Status = string

definition StatusQueued :: Status where "StatusQueued = ''queued''"
definition StatusRunning :: Status where "StatusRunning = ''running''"
definition StatusSucceeded :: Status where "StatusSucceeded = ''succeeded''"
definition StatusFailed :: Status where "StatusFailed = ''failed''"
definition StatusCancelled :: Status where "StatusCancelled = ''cancelled''"

lemmas status_defs = StatusQueued_def StatusRunning_def StatusSucceeded_def StatusFailed_def StatusCancelled_def

lemma status_neq [simp]:
  "StatusQueued \<noteq> StatusRunning" "StatusQueued \<noteq> StatusSucceeded" "StatusQueued \<noteq> StatusFailed" "StatusQueued \<noteq> StatusCancelled"
  "StatusRunning \<noteq> StatusQueued" "StatusRunning \<noteq> StatusSucceeded" "StatusRunning \<noteq> StatusFailed" "StatusRunning \<noteq> StatusCancelled"
  "StatusSucceeded \<noteq> StatusQueued" "StatusSucceeded \<noteq> StatusRunning" "StatusSucceeded \<noteq> StatusFailed" "StatusSucceeded \<noteq> StatusCancelled"
  "StatusFailed \<noteq> StatusQueued" "StatusFailed \<noteq> StatusRunning" "StatusFailed \<noteq> StatusSucceeded" "StatusFailed \<noteq> StatusCancelled"
  "StatusCancelled \<noteq> StatusQueued" "StatusCancelled \<noteq> StatusRunning" "StatusCancelled \<noteq> StatusSucceeded" "StatusCancelled \<noteq> StatusFailed"
  by (simp_all add: status_defs)

datatype transition_error = ErrInvalidTransition Status Status

fun allowed_next :: "Status \<Rightarrow> Status list" where
  "allowed_next from =
     (if from = StatusQueued then [StatusRunning, StatusFailed, StatusCancelled]
      else if from = StatusRunning then [StatusSucceeded, StatusFailed, StatusCancelled]
      else [])"

definition ValidateTransition :: "Status \<Rightarrow> Status \<Rightarrow> transition_error option" where
  "ValidateTransition from to =
     (if from = to \<and> from = StatusRunning then None
      else if to \<in> set (allowed_next from) then None
      else Some (ErrInvalidTransition from to))"

definition ParseStatus :: "string \<Rightarrow> Status \<times> bool" where
  "ParseStatus v = (v, v \<in> set [StatusQueued, StatusRunning, StatusSucceeded, StatusFailed, StatusCancelled])"

definition terminal :: "Status \<Rightarrow> bool" where
  "terminal s \<longleftrightarrow> s \<in> {StatusSucceeded, StatusFailed, StatusCancelled}"

section \<open>Data\<close>

record Execution =
  ex_ID :: string
  ex_DefinitionID :: string
  ex_TaskType :: string
  ex_QueueID :: string
  ex_IdempotencyKey :: string
  ex_Payload :: string
  ex_Status :: Status
  ex_Attempt :: int
  ex_ProcessedRows :: int
  ex_ErrorSummary :: string
  ex_StartedAt :: "int option"
  ex_FinishedAt :: "int option"

record Message =
  msg_ExecutionID :: string
  msg_TaskType :: string
  msg_Payload :: string

record PublishOptions =
  po_QueueID :: string
  po_MaxRetries :: int
  po_Timeout :: int
  po_UniqueFor :: int
  po_ProcessAfter :: int

record NewExecution =
  ne_DefinitionID :: string
  ne_TaskType :: string
  ne_QueueID :: string
  ne_IdempotencyKey :: string
  ne_Payload :: string

record ExecutionUpdate =
  eu_ID :: string
  eu_Status :: Status
  eu_StartedAt :: "int option"
  eu_FinishedAt :: "int option"
  eu_ErrorSummary :: string
  eu_ProcessedRows :: int
  eu_Attempt :: int
  eu_ExpectedStatus :: Status
  eu_ExpectedAttempt :: int

record PendingPublish =
  pp_ExecutionStatus :: Status
  pp_Message :: Message
  pp_Options :: PublishOptions

record Submission =
  su_DefinitionID :: string
  su_TaskType :: string
  su_Payload :: string
  su_IdempotencyKey :: string
  su_MaxRetries :: int
  su_Timeout :: int
  su_UniqueFor :: int
  su_ProcessAfter :: int

record NewDefinition =
  nd_Name :: string
  nd_TaskType :: string
  nd_Description :: string
  nd_DefaultPayload :: string
  nd_MaxRetries :: int
  nd_Timeout :: int

record Definition =
  de_ID :: string
  de_Name :: string
  de_TaskType :: string
  de_Description :: string
  de_DefaultPayload :: string
  de_MaxRetries :: int
  de_Timeout :: int
  de_Active :: bool

record Schedule =
  sc_ID :: string
  sc_DefinitionID :: string
  sc_CronExpression :: string
  sc_Timezone :: string
  sc_Payload :: string
  sc_Enabled :: bool
  sc_TaskType :: string
  sc_MaxRetries :: int
  sc_Timeout :: int

record ExecutionQuery =
  eq_TaskType :: string
  eq_Status :: Status
  eq_Page :: int
  eq_Size :: int

section \<open>Bounds on submissions\<close>

definition Second :: int where "Second = 1000000000"

definition MaxSubmissionRetries :: int where "MaxSubmissionRetries = 25"
definition MaxSubmissionTimeout :: int where "MaxSubmissionTimeout = 24 * 3600 * Second"
definition MaxSubmissionUniqueFor :: int where "MaxSubmissionUniqueFor = 7 * 24 * 3600 * Second"
definition MaxSubmissionProcessAfter :: int where "MaxSubmissionProcessAfter = 30 * 24 * 3600 * Second"

lemmas submission_bounds =
  Second_def MaxSubmissionRetries_def MaxSubmissionTimeout_def MaxSubmissionUniqueFor_def MaxSubmissionProcessAfter_def

datatype submission_error =
    RetriesNegative | RetriesTooMany | TimeoutNotPositive | TimeoutTooLong
  | UniqueForNegative | UniqueForTooLong | ProcessAfterNegative | ProcessAfterTooLong

definition ValidateSubmission :: "Submission \<Rightarrow> submission_error option" where
  "ValidateSubmission s =
     (if su_MaxRetries s < 0 then Some RetriesNegative
      else if su_MaxRetries s > MaxSubmissionRetries then Some RetriesTooMany
      else if su_Timeout s \<le> 0 then Some TimeoutNotPositive
      else if su_Timeout s > MaxSubmissionTimeout then Some TimeoutTooLong
      else if su_UniqueFor s < 0 then Some UniqueForNegative
      else if su_UniqueFor s > MaxSubmissionUniqueFor then Some UniqueForTooLong
      else if su_ProcessAfter s < 0 then Some ProcessAfterNegative
      else if su_ProcessAfter s > MaxSubmissionProcessAfter then Some ProcessAfterTooLong
      else None)"

text \<open>A duration in whole seconds as the database stores it: \<open>int32(d / time.Second)\<close>.\<close>

definition seconds32 :: "int \<Rightarrow> int" where
  "seconds32 d = int32 (go_div d Second)"

lemma seconds32_exact: "0 \<le> d \<Longrightarrow> d \<le> MaxSubmissionProcessAfter \<Longrightarrow> seconds32 d = d div Second"
proof -
  assume d: "0 \<le> d" "d \<le> MaxSubmissionProcessAfter"
  then have "d div Second \<le> 30 * 24 * 3600" "0 \<le> d div Second"
    by (simp_all add: submission_bounds)
  with d show ?thesis by (simp add: seconds32_def int32_id Second_def)
qed

section \<open>Handlers\<close>

datatype registry_error = ErrHandlerRegistered string | ErrHandlerNotFound string | ErrInvalidTaskCatalog
  | DuplicateTaskType string

type_synonym 'h Registry = "string \<Rightarrow> 'h option"

definition NewRegistry :: "'h Registry" where
  "NewRegistry = Map.empty"

definition Register :: "string \<Rightarrow> 'h \<Rightarrow> 'h Registry \<Rightarrow> registry_error option \<times> 'h Registry" where
  "Register taskType handler reg =
     (if reg taskType \<noteq> None then (Some (ErrHandlerRegistered taskType), reg)
      else (None, reg(taskType \<mapsto> handler)))"

definition Resolve :: "string \<Rightarrow> 'h Registry \<Rightarrow> registry_error + 'h" where
  "Resolve taskType reg = (case reg taskType of None \<Rightarrow> Inl (ErrHandlerNotFound taskType) | Some h \<Rightarrow> Inr h)"

text \<open>A registration's handler may be nil (\<open>None\<close>); the catalogue accepts only non-nil ones.\<close>

record 'h TaskCatalog =
  cat_registrations :: "(string \<times> 'h) list"
  cat_types :: "string set"

fun catalog_loop :: "(string \<times> 'h option) list \<Rightarrow> 'h TaskCatalog \<Rightarrow> registry_error + 'h TaskCatalog" where
  "catalog_loop [] c = Inr c"
| "catalog_loop ((ty, h) # rs) c =
     (let taskType = TrimSpace ty in
      case h of
        None \<Rightarrow> Inl ErrInvalidTaskCatalog
      | Some handler \<Rightarrow>
          if taskType = [] then Inl ErrInvalidTaskCatalog
          else if taskType \<in> cat_types c then Inl (DuplicateTaskType taskType)
          else catalog_loop rs \<lparr>cat_registrations = cat_registrations c @ [(taskType, handler)],
                                cat_types = insert taskType (cat_types c)\<rparr>)"

definition NewTaskCatalog :: "(string \<times> 'h option) list \<Rightarrow> registry_error + 'h TaskCatalog" where
  "NewTaskCatalog rs = catalog_loop rs \<lparr>cat_registrations = [], cat_types = {}\<rparr>"

definition Contains :: "'h TaskCatalog option \<Rightarrow> string \<Rightarrow> bool" where
  "Contains c ty = (case c of None \<Rightarrow> False | Some c \<Rightarrow> ty \<in> cat_types c)"

definition Types :: "'h TaskCatalog option \<Rightarrow> string list" where
  "Types c = (case c of None \<Rightarrow> [] | Some c \<Rightarrow> sort (map fst (cat_registrations c)))"

fun register_all :: "(string \<times> 'h) list \<Rightarrow> 'h Registry \<Rightarrow> registry_error option \<times> 'h Registry" where
  "register_all [] reg = (None, reg)"
| "register_all ((ty, h) # rs) reg =
     (case Register ty h reg of (Some e, reg') \<Rightarrow> (Some e, reg') | (None, reg') \<Rightarrow> register_all rs reg')"

definition RegisterHandlers :: "'h TaskCatalog option \<Rightarrow> 'h Registry \<Rightarrow> registry_error option \<times> 'h Registry" where
  "RegisterHandlers c reg =
     (case c of None \<Rightarrow> (Some ErrInvalidTaskCatalog, reg) | Some c \<Rightarrow> register_all (cat_registrations c) reg)"

definition catalog_ok :: "'h TaskCatalog \<Rightarrow> bool" where
  "catalog_ok c \<longleftrightarrow> distinct (map fst (cat_registrations c)) \<and> cat_types c = set (map fst (cat_registrations c)) \<and>
     (\<forall>ty \<in> cat_types c. ty \<noteq> [] \<and> TrimSpace ty = ty)"

lemma catalog_loop_step:
  "catalog_loop ((ty, h) # rs) c = Inr d \<longleftrightarrow>
     (\<exists>handler. h = Some handler \<and> TrimSpace ty \<noteq> [] \<and> TrimSpace ty \<notin> cat_types c \<and>
        catalog_loop rs \<lparr>cat_registrations = cat_registrations c @ [(TrimSpace ty, handler)],
                         cat_types = insert (TrimSpace ty) (cat_types c)\<rparr> = Inr d)"
  by (cases h) (simp_all add: Let_def)

lemma catalog_loop_inv:
  "catalog_loop rs c = Inr d \<Longrightarrow> catalog_ok c \<Longrightarrow>
   catalog_ok d \<and> map fst (cat_registrations d) = map fst (cat_registrations c) @ map (TrimSpace \<circ> fst) rs"
proof (induction rs arbitrary: c)
  case (Cons r rs)
  obtain ty h where r: "r = (ty, h)" by force
  with Cons.prems obtain handler where new: "TrimSpace ty \<noteq> []" "TrimSpace ty \<notin> cat_types c"
    and rest: "catalog_loop rs \<lparr>cat_registrations = cat_registrations c @ [(TrimSpace ty, handler)],
                         cat_types = insert (TrimSpace ty) (cat_types c)\<rparr> = Inr d"
    by (auto simp only: catalog_loop_step)
  from new Cons.prems(2) have "catalog_ok \<lparr>cat_registrations = cat_registrations c @ [(TrimSpace ty, handler)],
                         cat_types = insert (TrimSpace ty) (cat_types c)\<rparr>"
    by (simp add: catalog_ok_def)
  from Cons.IH [OF rest this] show ?case by (simp add: r)
qed simp

lemma register_all_ok:
  "distinct (map fst rs) \<Longrightarrow> (\<forall>ty \<in> set (map fst rs). reg ty = None) \<Longrightarrow>
   register_all rs reg = (None, reg ++ map_of rs)"
proof (induction rs arbitrary: reg)
  case (Cons r rs)
  obtain ty h where r: "r = (ty, h)" by force
  with Cons.prems have "reg ty = None" by simp
  moreover have "register_all rs (reg(ty \<mapsto> h)) = (None, reg(ty \<mapsto> h) ++ map_of rs)"
    using Cons.prems r by (intro Cons.IH) auto
  ultimately have "register_all (r # rs) reg = (None, reg(ty \<mapsto> h) ++ map_of rs)"
    by (simp only: r register_all.simps Register_def) simp
  moreover have "reg(ty \<mapsto> h) ++ map_of rs = reg ++ map_of (r # rs)"
    using Cons.prems(1) r by (simp add: map_add_upd_left map_of_eq_None_iff dom_map_of_conv_image_fst)
  ultimately show ?case by (simp only:)
qed simp

text \<open>
  The catalogue built from a list of registrations lists every trimmed task type exactly once in
  ascending order, \<open>Contains\<close> answers exactly for the listed types, and registering the catalogue in
  a new registry succeeds and makes exactly the listed types resolvable.
\<close>

theorem catalog_registers_listed_types:
  assumes "NewTaskCatalog rs = Inr c"
  shows "sorted (Types (Some c)) \<and> distinct (Types (Some c)) \<and>
    set (Types (Some c)) = set (map (TrimSpace \<circ> fst) rs) \<and>
    (\<forall>ty. Contains (Some c) ty \<longleftrightarrow> ty \<in> set (Types (Some c))) \<and>
    fst (RegisterHandlers (Some c) NewRegistry) = None \<and>
    (\<forall>ty. (\<exists>h. Resolve ty (snd (RegisterHandlers (Some c) NewRegistry)) = Inr h) \<longleftrightarrow> Contains (Some c) ty)"
proof -
  have empty: "catalog_ok \<lparr>cat_registrations = [], cat_types = {}\<rparr>" by (simp add: catalog_ok_def)
  have "catalog_ok c \<and> map fst (cat_registrations c) = [] @ map (TrimSpace \<circ> fst) rs"
    using assms catalog_loop_inv [OF _ empty, of rs c]
    unfolding NewTaskCatalog_def by simp
  then have ok: "catalog_ok c" and types: "map fst (cat_registrations c) = map (TrimSpace \<circ> fst) rs"
    by simp_all
  have reg: "RegisterHandlers (Some c) NewRegistry = (None, map_of (cat_registrations c))"
    using ok register_all_ok [of "cat_registrations c" Map.empty]
    by (simp add: RegisterHandlers_def NewRegistry_def catalog_ok_def)
  have "(\<exists>h. Resolve ty (map_of (cat_registrations c)) = Inr h) \<longleftrightarrow> Contains (Some c) ty" for ty
  proof -
    have "(\<exists>h. Resolve ty (map_of (cat_registrations c)) = Inr h) \<longleftrightarrow> map_of (cat_registrations c) ty \<noteq> None"
      by (cases "map_of (cat_registrations c) ty") (simp_all add: Resolve_def)
    then show ?thesis using ok by (simp add: Contains_def catalog_ok_def map_of_eq_None_iff)
  qed
  moreover have "Contains (Some c) ty \<longleftrightarrow> ty \<in> set (Types (Some c))" for ty
    using ok by (simp add: Types_def Contains_def catalog_ok_def)
  moreover have "distinct (Types (Some c))" using ok by (simp add: Types_def catalog_ok_def)
  moreover have "set (Types (Some c)) = set (map (TrimSpace \<circ> fst) rs)"
    unfolding types [symmetric] by (simp add: Types_def)
  moreover have "sorted (Types (Some c))" by (simp add: Types_def)
  ultimately show ?thesis unfolding reg by simp
qed

definition sample_registrations :: "(string \<times> nat option) list" where
  "sample_registrations = [(''b'', Some 1), (''a'', Some 2)]"

theorem catalog_registers_listed_types_witness:
  "\<exists>c. NewTaskCatalog sample_registrations = Inr c \<and> distinct (Types (Some c)) \<and>
     fst (RegisterHandlers (Some c) NewRegistry) = None"
proof -
  have "TrimSpace ''a'' = ''a''" "TrimSpace ''b'' = ''b''" by code_simp+
  then obtain c where "NewTaskCatalog sample_registrations = Inr c"
    by (simp add: NewTaskCatalog_def sample_registrations_def Let_def)
  with catalog_registers_listed_types [OF this] show ?thesis by blast
qed

end
