(* ===== verification/Task_Store.thy ===== *)
theory Task_Store
  imports Task_Model Pagination
begin

text \<open>
  The task tables (\<open>src/pkg/migrations/000003_tasks.up.sql\<close>, \<open>000005_task_outbox.up.sql\<close>), the queries
  of \<open>src/pkg/platform/database/dbgen/tasks.sql.go\<close> on them, and the stores of
  \<open>src/pkg/platform/database/taskstore/postgres.go\<close>. Every query is one atomic statement; other
  processes may run between any two statements of an operation.
\<close>

section \<open>Rows and tables\<close>

record TaskDefinition =
  td_id :: string
  td_name :: string
  td_task_type :: string
  td_description :: string
  td_default_payload :: string
  td_max_retries :: int
  td_timeout_seconds :: int
  td_is_active :: bool
  td_created_at :: int
  td_updated_at :: int

record TaskExecution =
  te_id :: string
  te_definition_id :: "string option"
  te_task_type :: string
  te_queue_id :: "string option"
  te_idempotency_key :: "string option"
  te_payload :: string
  te_status :: string
  te_attempt :: int
  te_processed_rows :: int
  te_error_summary :: "string option"
  te_queued_at :: int
  te_started_at :: "int option"
  te_finished_at :: "int option"
  te_created_at :: int
  te_updated_at :: int

record TaskOutboxMessage =
  ob_queue_id :: string
  ob_execution_id :: string
  ob_task_type :: string
  ob_payload :: string
  ob_max_retries :: int
  ob_timeout_seconds :: int
  ob_unique_for_seconds :: int
  ob_process_after_seconds :: int
  ob_published_at :: "int option"
  ob_created_at :: int
  ob_updated_at :: int

record TaskSchedule =
  ts_id :: string
  ts_definition_id :: string
  ts_cron_expression :: string
  ts_timezone :: string
  ts_payload :: string
  ts_is_enabled :: bool
  ts_created_at :: int

record task_db = db_env +
  definitions :: "TaskDefinition list"
  executions :: "TaskExecution list"
  outbox :: "TaskOutboxMessage list"
  schedules :: "TaskSchedule list"

type_synonym task_env = "nat \<Rightarrow> task_db \<Rightarrow> task_db"

section \<open>Queries\<close>

definition null_or :: "string option \<Rightarrow> string \<Rightarrow> bool" where
  "null_or f v = (case f of None \<Rightarrow> True | Some x \<Rightarrow> v = x)"

definition CreateTaskDefinition ::
    "string \<Rightarrow> string \<Rightarrow> string \<Rightarrow> string \<Rightarrow> int \<Rightarrow> int \<Rightarrow> task_db \<Rightarrow> pg_error + TaskDefinition \<times> task_db" where
  "CreateTaskDefinition name ty desc payload retries timeout s =
     (if payload = [] then Inl (PgError ''23502'')
      else case jsonb s payload of
        None \<Rightarrow> Inl (PgError ''22P02'')
      | Some p \<Rightarrow>
          if blank name \<or> blank ty \<or> retries < 0 \<or> timeout \<le> 0 then Inl (PgError ''23514'')
          else if sql_uuid s \<in> td_id ` set (definitions s) \<or> name \<in> td_name ` set (definitions s)
          then Inl (PgError ''23505'')
          else let row = \<lparr>td_id = sql_uuid s, td_name = name, td_task_type = ty, td_description = desc,
                 td_default_payload = p, td_max_retries = retries, td_timeout_seconds = timeout, td_is_active = True,
                 td_created_at = sql_now s, td_updated_at = sql_now s\<rparr>
               in Inr (row, s\<lparr>definitions := definitions s @ [row]\<rparr>))"

text \<open>The new row of an insert into \<open>task_executions\<close>, with the defaults of the table.\<close>

definition new_execution ::
    "string option \<Rightarrow> string \<Rightarrow> string option \<Rightarrow> string option \<Rightarrow> string \<Rightarrow> task_db \<Rightarrow> TaskExecution" where
  "new_execution def ty queue key payload s =
     \<lparr>te_id = sql_uuid s, te_definition_id = def, te_task_type = ty, te_queue_id = queue, te_idempotency_key = key,
      te_payload = payload, te_status = StatusQueued, te_attempt = 0, te_processed_rows = 0, te_error_summary = None,
      te_queued_at = sql_now s, te_started_at = None, te_finished_at = None, te_created_at = sql_now s,
      te_updated_at = sql_now s\<rparr>"

text \<open>Not-null and check constraints, then unique indexes, then foreign keys at the end of the statement.\<close>

definition CreateTaskExecution ::
    "string option \<Rightarrow> string \<Rightarrow> string option \<Rightarrow> string option \<Rightarrow> string \<Rightarrow> task_db \<Rightarrow> pg_error + TaskExecution \<times> task_db" where
  "CreateTaskExecution def ty queue key payload s =
     (if payload = [] then Inl (PgError ''23502'')
      else case jsonb s payload of
        None \<Rightarrow> Inl (PgError ''22P02'')
      | Some p \<Rightarrow>
          if blank ty then Inl (PgError ''23514'')
          else if sql_uuid s \<in> te_id ` set (executions s) \<or>
             (key \<noteq> None \<and> (ty, key) \<in> (\<lambda>e. (te_task_type e, te_idempotency_key e)) ` set (executions s))
          then Inl (PgError ''23505'')
          else if def \<noteq> None \<and> the def \<notin> td_id ` set (definitions s) then Inl (PgError ''23503'')
          else let row = new_execution def ty queue key p s
               in Inr (row, s\<lparr>executions := executions s @ [row]\<rparr>))"

definition CreateTaskExecutionWithPendingPublish ::
    "string option \<Rightarrow> string \<Rightarrow> string option \<Rightarrow> string option \<Rightarrow> string \<Rightarrow> int \<Rightarrow> int \<Rightarrow> int \<Rightarrow> int
      \<Rightarrow> task_db \<Rightarrow> pg_error + TaskExecution \<times> task_db" where
  "CreateTaskExecutionWithPendingPublish def ty queue key payload retries timeout uniqueFor processAfter s =
     (case CreateTaskExecution def ty queue key payload s of
        Inl e \<Rightarrow> Inl e
      | Inr (row, s') \<Rightarrow>
          (case queue of
             None \<Rightarrow> Inl (PgError ''23502'')
           | Some q \<Rightarrow>
               if blank q \<or> retries < 0 \<or> timeout < 0 \<or> uniqueFor < 0 \<or> processAfter < 0 then Inl (PgError ''23514'')
               else if q \<in> ob_queue_id ` set (outbox s) \<or> te_id row \<in> ob_execution_id ` set (outbox s)
               then Inl (PgError ''23505'')
               else Inr (row, s'\<lparr>outbox := outbox s' @
                 [\<lparr>ob_queue_id = q, ob_execution_id = te_id row, ob_task_type = ty, ob_payload = te_payload row,
                   ob_max_retries = retries, ob_timeout_seconds = timeout, ob_unique_for_seconds = uniqueFor,
                   ob_process_after_seconds = processAfter, ob_published_at = None, ob_created_at = sql_now s,
                   ob_updated_at = sql_now s\<rparr>]\<rparr>)))"

definition GetTaskExecution :: "string \<Rightarrow> task_db \<Rightarrow> pg_error + TaskExecution \<times> task_db" where
  "GetTaskExecution i s =
     (case find (\<lambda>e. te_id e = i) (executions s) of None \<Rightarrow> Inl ErrNoRows | Some e \<Rightarrow> Inr (e, s))"

definition execution_matches :: "string option \<Rightarrow> string option \<Rightarrow> TaskExecution \<Rightarrow> bool" where
  "execution_matches ty st e \<longleftrightarrow> null_or ty (te_task_type e) \<and> null_or st (te_status e)"

definition ListTaskExecutions ::
    "string option \<Rightarrow> string option \<Rightarrow> int \<Rightarrow> int \<Rightarrow> task_db \<Rightarrow> pg_error + TaskExecution list \<times> task_db" where
  "ListTaskExecutions ty st offset limit s =
     (if limit < 0 then Inl (PgError ''2201W'') else if offset < 0 then Inl (PgError ''2201X'')
      else Inr (take (nat limit) (drop (nat offset)
        (rev (sort_key (\<lambda>e. (te_created_at e, te_id e)) (filter (execution_matches ty st) (executions s))))), s))"

definition CountTaskExecutions :: "string option \<Rightarrow> string option \<Rightarrow> task_db \<Rightarrow> pg_error + int \<times> task_db" where
  "CountTaskExecutions ty st s = Inr (int (length (filter (execution_matches ty st) (executions s))), s)"

definition coalesce :: "'a option \<Rightarrow> 'a option \<Rightarrow> 'a option" where
  "coalesce a b = (case a of None \<Rightarrow> b | Some _ \<Rightarrow> a)"

definition claimable :: "string \<Rightarrow> int \<Rightarrow> TaskExecution \<Rightarrow> bool" where
  "claimable i attempt e \<longleftrightarrow> te_id e = i \<and> te_status e \<in> {StatusQueued, StatusRunning} \<and> te_attempt e < attempt"

definition claim_row :: "int \<Rightarrow> int option \<Rightarrow> int \<Rightarrow> TaskExecution \<Rightarrow> TaskExecution" where
  "claim_row attempt startedAt now e = e\<lparr>te_status := StatusRunning, te_started_at := coalesce (te_started_at e) startedAt,
     te_attempt := attempt, te_updated_at := now\<rparr>"

definition ClaimTaskExecution :: "string \<Rightarrow> int \<Rightarrow> int option \<Rightarrow> task_db \<Rightarrow> pg_error + int \<times> task_db" where
  "ClaimTaskExecution i attempt startedAt s =
     (let hit = filter (claimable i attempt) (executions s) in
      if hit \<noteq> [] \<and> attempt < 0 then Inl (PgError ''23514'')
      else Inr (int (length hit),
        s\<lparr>executions := map (\<lambda>e. if claimable i attempt e then claim_row attempt startedAt (sql_now s) e else e)
          (executions s)\<rparr>))"

definition updatable :: "string \<Rightarrow> string \<Rightarrow> int \<Rightarrow> TaskExecution \<Rightarrow> bool" where
  "updatable i st attempt e \<longleftrightarrow> te_id e = i \<and> te_status e = st \<and> te_attempt e = attempt"

definition update_row ::
    "string \<Rightarrow> int option \<Rightarrow> int option \<Rightarrow> string option \<Rightarrow> int \<Rightarrow> int \<Rightarrow> int \<Rightarrow> TaskExecution \<Rightarrow> TaskExecution" where
  "update_row status startedAt finishedAt summary rows attempt now e =
     e\<lparr>te_status := status, te_started_at := coalesce startedAt (te_started_at e),
       te_finished_at := coalesce finishedAt (te_finished_at e), te_error_summary := summary,
       te_processed_rows := rows, te_attempt := attempt, te_updated_at := now\<rparr>"

definition UpdateTaskExecutionStatus ::
    "string \<Rightarrow> int option \<Rightarrow> int option \<Rightarrow> string option \<Rightarrow> int \<Rightarrow> int \<Rightarrow> string \<Rightarrow> string \<Rightarrow> int
      \<Rightarrow> task_db \<Rightarrow> pg_error + int \<times> task_db" where
  "UpdateTaskExecutionStatus status startedAt finishedAt summary rows attempt i expStatus expAttempt s =
     (let hit = filter (updatable i expStatus expAttempt) (executions s) in
      if hit \<noteq> [] \<and> (\<not> snd (ParseStatus status) \<or> attempt < 0 \<or> rows < 0) then Inl (PgError ''23514'')
      else Inr (int (length hit),
        s\<lparr>executions := map (\<lambda>e. if updatable i expStatus expAttempt e
            then update_row status startedAt finishedAt summary rows attempt (sql_now s) e else e) (executions s)\<rparr>))"

record PendingRow =
  pr_ExecutionID :: string
  pr_ExecutionStatus :: string
  pr_Outbox :: TaskOutboxMessage

text \<open>The join with \<open>task_executions\<close> drops a message whose execution is gone.\<close>

definition pending_join :: "task_db \<Rightarrow> PendingRow list" where
  "pending_join s =
     concat (map (\<lambda>m. map (\<lambda>e. \<lparr>pr_ExecutionID = ob_execution_id m, pr_ExecutionStatus = te_status e, pr_Outbox = m\<rparr>)
         (filter (\<lambda>e. te_id e = ob_execution_id m) (executions s)))
       (sort_key (\<lambda>m. (ob_created_at m, collate_key s (ob_queue_id m))) (filter (\<lambda>m. ob_published_at m = None) (outbox s))))"

definition ListPendingTaskOutboxMessages :: "int \<Rightarrow> task_db \<Rightarrow> pg_error + PendingRow list \<times> task_db" where
  "ListPendingTaskOutboxMessages limit s =
     (if limit < 0 then Inl (PgError ''2201W'') else Inr (take (nat limit) (pending_join s), s))"

definition publish_row :: "int \<Rightarrow> TaskOutboxMessage \<Rightarrow> TaskOutboxMessage" where
  "publish_row now m = m\<lparr>ob_published_at := Some now, ob_updated_at := now\<rparr>"

definition MarkTaskOutboxMessagePublished :: "string \<Rightarrow> task_db \<Rightarrow> pg_error + unit \<times> task_db" where
  "MarkTaskOutboxMessagePublished q s =
     Inr ((), s\<lparr>outbox := map (\<lambda>m. if ob_queue_id m = q \<and> ob_published_at m = None then publish_row (sql_now s) m else m)
       (outbox s)\<rparr>)"

definition ListEnabledTaskSchedules :: "task_db \<Rightarrow> pg_error + (TaskSchedule \<times> TaskDefinition) list \<times> task_db" where
  "ListEnabledTaskSchedules s =
     Inr (concat (map (\<lambda>t. map (Pair t) (filter (\<lambda>d. td_id d = ts_definition_id t \<and> td_is_active d) (definitions s)))
       (sort_key (\<lambda>t. (ts_created_at t, ts_id t)) (filter ts_is_enabled (schedules s)))), s)"

section \<open>Stores\<close>

datatype store_error =
    ErrExecutionNotFound | ErrExecutionConflict | ErrDuplicateSubmission string | ErrDefinitionNotFound
  | InvalidUUID string | StorePg pg_error

definition executionFromRow :: "TaskExecution \<Rightarrow> Execution" where
  "executionFromRow row =
     \<lparr>ex_ID = formatUUID (Some (te_id row)), ex_DefinitionID = formatUUID (te_definition_id row),
      ex_TaskType = te_task_type row, ex_QueueID = textValue (te_queue_id row),
      ex_IdempotencyKey = textValue (te_idempotency_key row), ex_Payload = te_payload row, ex_Status = te_status row,
      ex_Attempt = te_attempt row, ex_ProcessedRows = te_processed_rows row,
      ex_ErrorSummary = textValue (te_error_summary row), ex_StartedAt = te_started_at row,
      ex_FinishedAt = te_finished_at row\<rparr>"

definition definitionFromRow :: "TaskDefinition \<Rightarrow> Definition" where
  "definitionFromRow row =
     \<lparr>de_ID = formatUUID (Some (td_id row)), de_Name = td_name row, de_TaskType = td_task_type row,
      de_Description = td_description row, de_DefaultPayload = td_default_payload row,
      de_MaxRetries = td_max_retries row, de_Timeout = int64 (td_timeout_seconds row * Second),
      de_Active = td_is_active row\<rparr>"

definition mapExecutionWriteError :: "string \<Rightarrow> pg_error \<Rightarrow> store_error" where
  "mapExecutionWriteError key e =
     (if e = PgError ''23505'' then ErrDuplicateSubmission key
      else if e = PgError ''23503'' then ErrDefinitionNotFound else StorePg e)"

definition CreateDefinition :: "task_env \<Rightarrow> NewDefinition \<Rightarrow> (task_db, store_error, Definition) op" where
  "CreateDefinition env d =
     bindE (mapErrE StorePg (stmt env (CreateTaskDefinition (nd_Name d) (nd_TaskType d) (nd_Description d)
        (nd_DefaultPayload d) (int32 (nd_MaxRetries d)) (seconds32 (nd_Timeout d)))))
     (\<lambda>row. retE (definitionFromRow row))"

definition CreateExecution :: "task_env \<Rightarrow> NewExecution \<Rightarrow> (task_db, store_error, Execution) op" where
  "CreateExecution env n =
     (case nullableUUID (ne_DefinitionID n) of
        None \<Rightarrow> failE (InvalidUUID (ne_DefinitionID n))
      | Some def \<Rightarrow>
          bindE (mapErrE (mapExecutionWriteError (ne_IdempotencyKey n)) (stmt env (CreateTaskExecution def (ne_TaskType n)
            (nullableText (ne_QueueID n)) (nullableText (ne_IdempotencyKey n)) (ne_Payload n))))
          (\<lambda>row. retE (executionFromRow row)))"

definition CreateExecutionWithPendingPublish ::
    "task_env \<Rightarrow> NewExecution \<Rightarrow> PublishOptions \<Rightarrow> (task_db, store_error, Execution) op" where
  "CreateExecutionWithPendingPublish env n po =
     (case nullableUUID (ne_DefinitionID n) of
        None \<Rightarrow> failE (InvalidUUID (ne_DefinitionID n))
      | Some def \<Rightarrow>
          bindE (mapErrE (mapExecutionWriteError (ne_IdempotencyKey n))
            (stmt env (CreateTaskExecutionWithPendingPublish def (ne_TaskType n)
              (nullableText (po_QueueID po)) (nullableText (ne_IdempotencyKey n)) (ne_Payload n)
              (int32 (po_MaxRetries po)) (seconds32 (po_Timeout po)) (seconds32 (po_UniqueFor po))
              (seconds32 (po_ProcessAfter po)))))
          (\<lambda>row. retE (executionFromRow row)))"

definition GetExecution :: "task_env \<Rightarrow> string \<Rightarrow> (task_db, store_error, Execution) op" where
  "GetExecution env i =
     (case parseUUID i of
        None \<Rightarrow> failE ErrExecutionNotFound
      | Some u \<Rightarrow>
          bindE (mapErrE (\<lambda>e. if e = ErrNoRows then ErrExecutionNotFound else StorePg e) (stmt env (GetTaskExecution u)))
            (\<lambda>row. retE (executionFromRow row)))"

definition ListExecutions :: "task_env \<Rightarrow> ExecutionQuery \<Rightarrow> (task_db, store_error, Execution page) op" where
  "ListExecutions env q =
     (let (pg, sz) = Normalize (eq_Page q) (eq_Size q);
          ty = nullableText (eq_TaskType q); st = nullableText (eq_Status q) in
      bindE (mapErrE StorePg (stmt env (ListTaskExecutions ty st (int32 (int64 (int64 (pg - 1) * sz))) (int32 sz)))) (\<lambda>rows.
      bindE (mapErrE StorePg (stmt env (CountTaskExecutions ty st))) (\<lambda>tot.
      retE (New (Some (map executionFromRow rows)) pg sz tot))))"

definition ClaimExecution :: "task_env \<Rightarrow> string \<Rightarrow> int \<Rightarrow> int \<Rightarrow> (task_db, store_error, unit) op" where
  "ClaimExecution env i attempt startedAt =
     (case parseUUID i of
        None \<Rightarrow> failE (InvalidUUID i)
      | Some u \<Rightarrow>
          bindE (mapErrE StorePg (stmt env (ClaimTaskExecution u (int32 attempt) (Some startedAt))))
            (\<lambda>rows. if rows = 0 then failE ErrExecutionConflict else retE ()))"

definition UpdateExecution :: "task_env \<Rightarrow> ExecutionUpdate \<Rightarrow> (task_db, store_error, unit) op" where
  "UpdateExecution env u =
     (case parseUUID (eu_ID u) of
        None \<Rightarrow> failE (InvalidUUID (eu_ID u))
      | Some i \<Rightarrow>
          bindE (mapErrE StorePg (stmt env (UpdateTaskExecutionStatus (eu_Status u) (eu_StartedAt u) (eu_FinishedAt u)
              (nullableText (eu_ErrorSummary u)) (eu_ProcessedRows u) (int32 (eu_Attempt u)) i (eu_ExpectedStatus u)
              (int32 (eu_ExpectedAttempt u)))))
            (\<lambda>rows. if rows = 0 then failE ErrExecutionConflict else retE ()))"

definition pendingFromRow :: "PendingRow \<Rightarrow> PendingPublish" where
  "pendingFromRow r =
     (let m = pr_Outbox r in
      \<lparr>pp_ExecutionStatus = pr_ExecutionStatus r,
       pp_Message = \<lparr>msg_ExecutionID = formatUUID (Some (pr_ExecutionID r)), msg_TaskType = ob_task_type m,
         msg_Payload = ob_payload m\<rparr>,
       pp_Options = \<lparr>po_QueueID = ob_queue_id m, po_MaxRetries = ob_max_retries m,
         po_Timeout = int64 (ob_timeout_seconds m * Second), po_UniqueFor = int64 (ob_unique_for_seconds m * Second),
         po_ProcessAfter = int64 (ob_process_after_seconds m * Second)\<rparr>\<rparr>)"

definition ListPendingPublishes :: "task_env \<Rightarrow> int \<Rightarrow> (task_db, store_error, PendingPublish list) op" where
  "ListPendingPublishes env limit =
     bindE (mapErrE StorePg (stmt env (ListPendingTaskOutboxMessages (int32 limit)))) (\<lambda>rows. retE (map pendingFromRow rows))"

definition MarkPublishSucceeded :: "task_env \<Rightarrow> string \<Rightarrow> (task_db, store_error, unit) op" where
  "MarkPublishSucceeded env q = mapErrE StorePg (stmt env (MarkTaskOutboxMessagePublished q))"

definition ListEnabledSchedules :: "task_env \<Rightarrow> (task_db, store_error, Schedule list) op" where
  "ListEnabledSchedules env =
     bindE (mapErrE StorePg (stmt env ListEnabledTaskSchedules)) (\<lambda>rows.
       retE (map (\<lambda>(t, d). \<lparr>sc_ID = formatUUID (Some (ts_id t)), sc_DefinitionID = formatUUID (Some (ts_definition_id t)),
         sc_CronExpression = ts_cron_expression t, sc_Timezone = ts_timezone t, sc_Payload = ts_payload t,
         sc_Enabled = ts_is_enabled t, sc_TaskType = td_task_type d, sc_MaxRetries = td_max_retries d,
         sc_Timeout = int64 (td_timeout_seconds d * Second)\<rparr>) rows))"

section \<open>Integrity and evolution of the tables\<close>

text \<open>The constraints of the two migrations that the store relies on.\<close>

definition task_inv :: "task_db \<Rightarrow> bool" where
  "task_inv s \<longleftrightarrow>
     distinct (map te_id (executions s)) \<and>
     distinct (map (\<lambda>e. (te_task_type e, te_idempotency_key e)) (filter (\<lambda>e. te_idempotency_key e \<noteq> None) (executions s))) \<and>
     (\<forall>e \<in> set (executions s). snd (ParseStatus (te_status e)) \<and> 0 \<le> te_attempt e \<and> 0 \<le> te_processed_rows e) \<and>
     distinct (map ob_queue_id (outbox s)) \<and> distinct (map ob_execution_id (outbox s)) \<and>
     ob_execution_id ` set (outbox s) \<subseteq> te_id ` set (executions s)"

text \<open>How one row may change over time.\<close>

definition status_le :: "Status \<Rightarrow> Status \<Rightarrow> bool" where
  "status_le a b \<longleftrightarrow> a = b \<or> a = StatusQueued \<or> a = StatusRunning \<and> terminal b"

definition exec_le :: "TaskExecution \<Rightarrow> TaskExecution \<Rightarrow> bool" where
  "exec_le e f \<longleftrightarrow>
     te_id f = te_id e \<and> te_definition_id f = te_definition_id e \<and> te_task_type f = te_task_type e \<and>
     te_queue_id f = te_queue_id e \<and> te_idempotency_key f = te_idempotency_key e \<and> te_payload f = te_payload e \<and>
     te_attempt e \<le> te_attempt f \<and> status_le (te_status e) (te_status f) \<and> (terminal (te_status e) \<longrightarrow> f = e)"

definition outbox_le :: "TaskOutboxMessage \<Rightarrow> TaskOutboxMessage \<Rightarrow> bool" where
  "outbox_le m n \<longleftrightarrow>
     n\<lparr>ob_published_at := None, ob_updated_at := 0\<rparr> = m\<lparr>ob_published_at := None, ob_updated_at := 0\<rparr> \<and>
     (ob_published_at m \<noteq> None \<longrightarrow> ob_published_at n = ob_published_at m)"

text \<open>How the database may change: rows are only added or evolve, none disappears.\<close>

definition task_le :: "task_db \<Rightarrow> task_db \<Rightarrow> bool" where
  "task_le s t \<longleftrightarrow>
     (\<forall>e \<in> set (executions s). \<exists>f \<in> set (executions t). exec_le e f) \<and>
     (\<forall>m \<in> set (outbox s). \<exists>n \<in> set (outbox t). outbox_le m n)"

lemma terminal_simps [simp]:
  "terminal StatusSucceeded" "terminal StatusFailed" "terminal StatusCancelled"
  "\<not> terminal StatusQueued" "\<not> terminal StatusRunning"
  by (simp_all add: terminal_def)

lemma status_le_refl [simp]: "status_le a a"
  by (simp add: status_le_def)

lemma status_le_trans: "status_le a b \<Longrightarrow> status_le b c \<Longrightarrow> status_le a c"
  by (auto simp: status_le_def)

lemma exec_le_refl [simp]: "exec_le e e"
  by (simp add: exec_le_def)

lemma exec_le_trans: "exec_le e f \<Longrightarrow> exec_le f g \<Longrightarrow> exec_le e g"
proof -
  assume ef: "exec_le e f" and fg: "exec_le f g"
  have "status_le (te_status e) (te_status g)" using ef fg status_le_trans [of "te_status e" "te_status f" "te_status g"] by (simp add: exec_le_def)
  moreover have "g = e" if "terminal (te_status e)"
  proof -
    have "f = e" using ef that by (simp add: exec_le_def)
    then show ?thesis using fg that by (simp add: exec_le_def)
  qed
  ultimately show ?thesis using ef fg by (simp add: exec_le_def)
qed

lemma outbox_le_fields:
  assumes "outbox_le m n"
  shows "ob_queue_id n = ob_queue_id m"
    "ob_execution_id n = ob_execution_id m"
    "ob_task_type n = ob_task_type m"
    "ob_payload n = ob_payload m"
    "ob_max_retries n = ob_max_retries m"
    "ob_timeout_seconds n = ob_timeout_seconds m"
    "ob_unique_for_seconds n = ob_unique_for_seconds m"
    "ob_process_after_seconds n = ob_process_after_seconds m"
proof -
  have eq: "n\<lparr>ob_published_at := None, ob_updated_at := 0\<rparr> = m\<lparr>ob_published_at := None, ob_updated_at := 0\<rparr>"
    using assms by (simp only: outbox_le_def)
  show "ob_queue_id n = ob_queue_id m"
    "ob_execution_id n = ob_execution_id m"
    "ob_task_type n = ob_task_type m"
    "ob_payload n = ob_payload m"
    "ob_max_retries n = ob_max_retries m"
    "ob_timeout_seconds n = ob_timeout_seconds m"
    "ob_unique_for_seconds n = ob_unique_for_seconds m"
    "ob_process_after_seconds n = ob_process_after_seconds m"
    using arg_cong [OF eq, of ob_queue_id] arg_cong [OF eq, of ob_execution_id] arg_cong [OF eq, of ob_task_type] arg_cong [OF eq, of ob_payload] arg_cong [OF eq, of ob_max_retries] arg_cong [OF eq, of ob_timeout_seconds] arg_cong [OF eq, of ob_unique_for_seconds] arg_cong [OF eq, of ob_process_after_seconds] by simp_all
qed

lemma outbox_le_refl [simp]: "outbox_le m m"
  by (simp add: outbox_le_def)

lemma outbox_le_trans: "outbox_le m n \<Longrightarrow> outbox_le n q \<Longrightarrow> outbox_le m q"
  by (auto simp: outbox_le_def)

lemma task_le_refl [simp]: "task_le s s"
  by (auto simp: task_le_def intro: exec_le_refl outbox_le_refl)

lemma task_le_trans: "task_le s t \<Longrightarrow> task_le t u \<Longrightarrow> task_le s u"
  unfolding task_le_def by (meson exec_le_trans outbox_le_trans)

lemma next_call_simps [simp]:
  "executions (next_call s) = executions s" "outbox (next_call s) = outbox s" "definitions (next_call s) = definitions s"
  by (simp_all add: next_call_def)

lemma task_next_call [simp]: "task_le s (next_call s)" "task_inv (next_call s) = task_inv s"
  by (auto simp: task_le_def task_inv_def intro: exec_le_refl outbox_le_refl)

text \<open>A statement that replaces rows in place by later versions of themselves.\<close>

lemma executions_update:
  assumes "task_inv s" and "\<And>e. e \<in> set (executions s) \<Longrightarrow> exec_le e (f e)"
    and "\<And>e. e \<in> set (executions s) \<Longrightarrow> snd (ParseStatus (te_status (f e))) \<and> 0 \<le> te_attempt (f e) \<and> 0 \<le> te_processed_rows (f e)"
  shows "task_le s (s\<lparr>executions := map f (executions s)\<rparr>)" and "task_inv (s\<lparr>executions := map f (executions s)\<rparr>)"
proof -
  show "task_le s (s\<lparr>executions := map f (executions s)\<rparr>)"
    using assms(2) by (auto simp: task_le_def intro: outbox_le_refl)
  have same: "te_id (f e) = te_id e" "te_task_type (f e) = te_task_type e" "te_idempotency_key (f e) = te_idempotency_key e"
    if "e \<in> set (executions s)" for e
    using assms(2) [OF that] by (simp_all add: exec_le_def)
  have ids: "map te_id (map f (executions s)) = map te_id (executions s)" by (simp add: same)
  have keys: "map (\<lambda>e. (te_task_type e, te_idempotency_key e)) (filter (\<lambda>e. te_idempotency_key e \<noteq> None) (map f (executions s))) =
      map (\<lambda>e. (te_task_type e, te_idempotency_key e)) (filter (\<lambda>e. te_idempotency_key e \<noteq> None) (executions s))"
    by (auto simp: filter_map same comp_def intro!: map_cong filter_cong)
  have "te_id ` f ` set (executions s) = te_id ` set (executions s)" unfolding image_image by (rule image_cong) (simp_all add: same)
  with assms(1,3) ids keys show "task_inv (s\<lparr>executions := map f (executions s)\<rparr>)"
    by (auto simp: task_inv_def comp_def same cong: map_cong)
qed

lemma outbox_update:
  assumes "task_inv s" and "\<And>m. m \<in> set (outbox s) \<Longrightarrow> outbox_le m (f m)"
  shows "task_le s (s\<lparr>outbox := map f (outbox s)\<rparr>)" and "task_inv (s\<lparr>outbox := map f (outbox s)\<rparr>)"
proof -
  show "task_le s (s\<lparr>outbox := map f (outbox s)\<rparr>)"
    using assms(2) by (auto simp: task_le_def intro: exec_le_refl)
  have same: "ob_queue_id (f m) = ob_queue_id m" "ob_execution_id (f m) = ob_execution_id m"
    if "m \<in> set (outbox s)" for m
    using outbox_le_fields [OF assms(2) [OF that]] by simp_all
  have "map ob_queue_id (map f (outbox s)) = map ob_queue_id (outbox s)"
    "map ob_execution_id (map f (outbox s)) = map ob_execution_id (outbox s)" by (simp_all add: same)
  moreover have "ob_execution_id ` f ` set (outbox s) = ob_execution_id ` set (outbox s)"
    unfolding image_image by (rule image_cong) (simp_all add: same)
  ultimately show "task_inv (s\<lparr>outbox := map f (outbox s)\<rparr>)"
    using assms(1) by (auto simp: task_inv_def comp_def same cong: map_cong)
qed

text \<open>What one query may do to the tables; queries that only read do nothing.\<close>

abbreviation keeps :: "(task_db \<Rightarrow> pg_error + 'a \<times> task_db) \<Rightarrow> bool" where
  "keeps \<equiv> keeps_by task_inv task_le"

abbreviation task_rely :: "task_env \<Rightarrow> bool" where
  "task_rely \<equiv> rely_by task_inv task_le"

abbreviation guar :: "(task_db, 'e, 'a) op \<Rightarrow> bool" where
  "guar \<equiv> guar_by task_inv task_le"

interpretation tasks: db_contract task_inv task_le
proof
  show "task_le s t \<Longrightarrow> task_le t u \<Longrightarrow> task_le s u" for s t u by (rule task_le_trans)
  show "task_inv (s\<lparr>db_calls := n\<rparr>) = task_inv s" for s n by (simp add: task_inv_def)
  show "task_le s (s\<lparr>db_calls := n\<rparr>)" for s n by (auto simp: task_le_def intro: exec_le_refl outbox_le_refl)
qed (rule task_le_refl)

lemma claim_row_le: "claimable i a e \<Longrightarrow> exec_le e (claim_row a st now e)"
  by (auto simp: claimable_def claim_row_def exec_le_def status_le_def)

lemma keeps_Claim: "keeps (ClaimTaskExecution i a st)"
  unfolding keeps_by_def
proof (intro allI impI)
  fix s x t
  assume inv: "task_inv s" and q: "ClaimTaskExecution i a st s = Inr (x, t)"
  let ?f = "\<lambda>e. if claimable i a e then claim_row a st (sql_now s) e else e"
  have t: "t = s\<lparr>executions := map ?f (executions s)\<rparr>"
    using q by (auto simp: ClaimTaskExecution_def Let_def split: if_splits)
  have "snd (ParseStatus (te_status (?f e))) \<and> 0 \<le> te_attempt (?f e) \<and> 0 \<le> te_processed_rows (?f e)"
    if "e \<in> set (executions s)" for e
    using inv that by (auto simp: task_inv_def claim_row_def claimable_def ParseStatus_def)
  with executions_update [OF inv, of ?f] show "task_le s t \<and> task_inv t"
    unfolding t by (simp add: claim_row_le)
qed

lemma update_row_le:
  "updatable i st a e \<Longrightarrow> status_le st status \<Longrightarrow> \<not> terminal st \<Longrightarrow> a \<le> b \<Longrightarrow>
   exec_le e (update_row status x y z n b now e)"
  by (auto simp: updatable_def update_row_def exec_le_def)

lemma keeps_Update:
  assumes "status_le st status" and "\<not> terminal st" and "a \<le> b"
  shows "keeps (UpdateTaskExecutionStatus status x y z n b i st a)"
  unfolding keeps_by_def
proof (intro allI impI)
  fix s r t
  assume inv: "task_inv s" and q: "UpdateTaskExecutionStatus status x y z n b i st a s = Inr (r, t)"
  let ?f = "\<lambda>e. if updatable i st a e then update_row status x y z n b (sql_now s) e else e"
  have t: "t = s\<lparr>executions := map ?f (executions s)\<rparr>"
    using q by (auto simp: UpdateTaskExecutionStatus_def Let_def split: if_splits)
  have ok: "filter (updatable i st a) (executions s) = [] \<or> snd (ParseStatus status) \<and> 0 \<le> b \<and> 0 \<le> n"
    using q by (auto simp: UpdateTaskExecutionStatus_def Let_def split: if_splits)
  have "snd (ParseStatus (te_status (?f e))) \<and> 0 \<le> te_attempt (?f e) \<and> 0 \<le> te_processed_rows (?f e)"
    if "e \<in> set (executions s)" for e
    using inv that ok by (auto simp: task_inv_def update_row_def filter_empty_conv)
  with executions_update [OF inv, of ?f] show "task_le s t \<and> task_inv t"
    unfolding t using assms by (simp add: update_row_le)
qed

lemma keeps_Mark: "keeps (MarkTaskOutboxMessagePublished q)"
  unfolding keeps_by_def MarkTaskOutboxMessagePublished_def
  using outbox_update by (auto simp: publish_row_def outbox_le_def)

lemma keeps_Create: "keeps (CreateTaskExecution d ty qu k p)"
  unfolding keeps_by_def
proof (intro allI impI)
  fix s r t
  assume inv: "task_inv s" and q: "CreateTaskExecution d ty qu k p s = Inr (r, t)"
  then obtain p' where t: "t = s\<lparr>executions := executions s @ [new_execution d ty qu k p' s]\<rparr>"
    and fresh: "sql_uuid s \<notin> te_id ` set (executions s)"
    and key: "k = None \<or> (ty, k) \<notin> (\<lambda>e. (te_task_type e, te_idempotency_key e)) ` set (executions s)"
    by (auto simp: CreateTaskExecution_def Let_def split: if_splits option.splits)
  have "task_le s t" by (auto simp: t task_le_def intro: exec_le_refl outbox_le_refl)
  moreover have "task_inv t"
    using inv fresh key by (auto simp: t task_inv_def new_execution_def ParseStatus_def)
  ultimately show "task_le s t \<and> task_inv t" by simp
qed

lemma CreatePending_cases:
  assumes "CreateTaskExecutionWithPendingPublish d ty qu k p a b c e s = Inr (row, t)"
  obtains q s' m where "qu = Some q" "CreateTaskExecution d ty qu k p s = Inr (row, s')"
    "t = s'\<lparr>outbox := outbox s' @ [m]\<rparr>" "ob_queue_id m = q" "ob_execution_id m = te_id row" "ob_task_type m = ty"
    "ob_payload m = te_payload row" "ob_max_retries m = a" "ob_timeout_seconds m = b" "ob_unique_for_seconds m = c"
    "ob_process_after_seconds m = e" "ob_published_at m = None"
    "q \<notin> ob_queue_id ` set (outbox s)" "te_id row \<notin> ob_execution_id ` set (outbox s)"
  using assms
  by (auto simp: CreateTaskExecutionWithPendingPublish_def split: sum.splits option.splits prod.splits if_splits)

lemma Create_effect:
  "CreateTaskExecution d ty qu k p s = Inr (row, t) \<Longrightarrow>
   executions t = executions s @ [row] \<and> outbox t = outbox s \<and> te_id row \<notin> te_id ` set (executions s) \<and>
   te_status row = StatusQueued \<and> te_attempt row = 0 \<and> te_task_type row = ty \<and> te_queue_id row = qu \<and>
   te_idempotency_key row = k \<and> te_definition_id row = d \<and> jsonb s p = Some (te_payload row)"
  by (auto simp: CreateTaskExecution_def Let_def new_execution_def split: if_splits option.splits)

lemma keeps_CreatePending: "keeps (CreateTaskExecutionWithPendingPublish d ty qu k p a b c e)"
  unfolding keeps_by_def
proof (intro allI impI)
  fix s row t
  assume inv: "task_inv s" and q: "CreateTaskExecutionWithPendingPublish d ty qu k p a b c e s = Inr (row, t)"
  from q obtain q s' m where c: "CreateTaskExecution d ty qu k p s = Inr (row, s')"
    "t = s'\<lparr>outbox := outbox s' @ [m]\<rparr>" "ob_queue_id m = q" "ob_execution_id m = te_id row"
    "q \<notin> ob_queue_id ` set (outbox s)" "te_id row \<notin> ob_execution_id ` set (outbox s)"
    by (rule CreatePending_cases) blast
  note eff = Create_effect [OF c(1)]
  have "task_le s s'" "task_inv s'" using keeps_Create inv c(1) unfolding keeps_by_def by blast+
  with c eff show "task_le s t \<and> task_inv t" by (auto simp: task_le_def task_inv_def)
qed

lemma keeps_Get: "keeps (GetTaskExecution i)"
  by (auto simp: keeps_by_def GetTaskExecution_def split: option.splits)

lemma keeps_List: "keeps (ListTaskExecutions a b c d)"
  by (auto simp: keeps_by_def ListTaskExecutions_def split: if_splits)

lemma keeps_Count: "keeps (CountTaskExecutions a b)"
  by (auto simp: keeps_by_def CountTaskExecutions_def)

lemma keeps_Pending: "keeps (ListPendingTaskOutboxMessages l)"
  by (auto simp: keeps_by_def ListPendingTaskOutboxMessages_def split: if_splits)

lemmas keeps_queries = keeps_Claim keeps_Mark keeps_Create keeps_CreatePending keeps_Get keeps_List keeps_Count keeps_Pending

section \<open>Operations in the presence of other processes\<close>

lemma guar_store:
  assumes "task_rely env"
  shows "guar (CreateExecution env n)" "guar (CreateExecutionWithPendingPublish env n po)" "guar (GetExecution env i)"
    "guar (ClaimExecution env i a t)" "guar (ListPendingPublishes env l)" "guar (MarkPublishSucceeded env q)"
  unfolding CreateExecution_def CreateExecutionWithPendingPublish_def GetExecution_def ClaimExecution_def
    ListPendingPublishes_def MarkPublishSucceeded_def
  by (auto intro!: assms keeps_queries tasks.guar_rules)

lemma guar_UpdateExecution:
  assumes "task_rely env" and "status_le (eu_ExpectedStatus u) (eu_Status u)" and "\<not> terminal (eu_ExpectedStatus u)"
    and "int32 (eu_ExpectedAttempt u) \<le> int32 (eu_Attempt u)"
  shows "guar (UpdateExecution env u)"
  unfolding UpdateExecution_def using assms by (auto intro!: keeps_Update tasks.guar_rules)

end
