(* ===== verification/Task_Service.thy ===== *)
theory Task_Service
  imports Task_Store
begin

text \<open>
  The submission service and the processor of \<open>src/pkg/modules/task/service.go\<close>, with the scheduled
  submissions of \<open>scheduled_submission.go\<close>. The publisher and the task handlers are parameters; the
  store is \<open>Task_Store\<close>. All lemmas hold for every fate of the statements and every interference of
  other processes that respects \<open>task_rely\<close>.
\<close>

section \<open>Errors and state\<close>

datatype ctx_error = Canceled | DeadlineExceeded

text \<open>An error of a handler: its text and the context errors it wraps.\<close>

datatype handler_error = HandlerError (handler_text: string) (handler_wraps: "ctx_error list")

datatype 'p task_error =
    SubmitInvalid submission_error | SubmitStore store_error | NilPublisher
  | PublishFailed 'p | PublishFailedTransition 'p transition_error | PublishFailedMark 'p store_error
  | GetTask store_error | BadTransition transition_error | ClaimTask store_error | HandlerMissing registry_error
  | HandlerFailed handler_error | HandlerFailedMark handler_error store_error
  | MarkSucceededFailed store_error | MarkFailedFailed store_error
  | BadScheduledPayload string | ScheduledIncomplete

definition on_db :: "(task_db, 'e, 'a) op \<Rightarrow> (task_db \<times> 'q, 'e, 'a) op" where
  "on_db m = (\<lambda>(d, q). case m d of (r, d') \<Rightarrow> (r, (d', q)))"

definition on_queue :: "('q, 'e, 'a) op \<Rightarrow> (task_db \<times> 'q, 'e, 'a) op" where
  "on_queue m = (\<lambda>(d, q). case m q of (r, q') \<Rightarrow> (r, (d, q')))"

text \<open>The observer's calls: task type, status and duration.\<close>

type_synonym observations = "(string \<times> Status \<times> int) list"

definition observe :: "string \<Rightarrow> Status \<Rightarrow> int \<Rightarrow> (task_db \<times> observations, 'e, unit) op" where
  "observe ty st d = on_queue (\<lambda>obs. (Inr (), obs @ [(ty, st, d)]))"

section \<open>Submission\<close>

type_synonym ('q, 'p) publisher = "Message \<Rightarrow> PublishOptions \<Rightarrow> ('q, 'p, unit) op"

definition tryE :: "('s, 'e, 'a) op \<Rightarrow> ('s, 'f, ('e + 'a)) op" where
  "tryE m = (\<lambda>s. case m s of (r, s') \<Rightarrow> (Inr r, s'))"

text \<open>With the outbox, publishing at once is only an optimisation: every failure is left to the dispatcher.\<close>

definition submit_publish ::
    "task_env \<Rightarrow> ('q, 'p) publisher option \<Rightarrow> Message \<Rightarrow> PublishOptions \<Rightarrow> Execution
      \<Rightarrow> (task_db \<times> 'q, 'p task_error, Execution) op" where
  "submit_publish env publisher message po execution =
     (case publisher of
        None \<Rightarrow> retE execution
      | Some publish \<Rightarrow>
          bindE (tryE (on_queue (publish message po))) (\<lambda>published.
          case published of
            Inl _ \<Rightarrow> retE execution
          | Inr _ \<Rightarrow> bindE (tryE (on_db (MarkPublishSucceeded env (po_QueueID po)))) (\<lambda>_. retE execution)))"

definition Submit ::
    "task_env \<Rightarrow> bool \<Rightarrow> ('q, 'p) publisher option \<Rightarrow> ('p \<Rightarrow> string) \<Rightarrow> string \<Rightarrow> int \<Rightarrow> Submission
      \<Rightarrow> (task_db \<times> 'q, 'p task_error, Execution) op" where
  "Submit env isOutbox publisher errText newID now su =
     (case ValidateSubmission su of
        Some e \<Rightarrow> failE (SubmitInvalid e)
      | None \<Rightarrow>
        let n = \<lparr>ne_DefinitionID = su_DefinitionID su, ne_TaskType = su_TaskType su, ne_QueueID = newID,
                 ne_IdempotencyKey = su_IdempotencyKey su, ne_Payload = su_Payload su\<rparr>;
            po = \<lparr>po_QueueID = newID, po_MaxRetries = su_MaxRetries su, po_Timeout = su_Timeout su,
                  po_UniqueFor = su_UniqueFor su, po_ProcessAfter = su_ProcessAfter su\<rparr>;
            message = (\<lambda>ex. \<lparr>msg_ExecutionID = ex_ID ex, msg_TaskType = su_TaskType su, msg_Payload = su_Payload su\<rparr>)
        in if isOutbox then
             bindE (mapErrE SubmitStore (on_db (CreateExecutionWithPendingPublish env n po))) (\<lambda>execution.
             submit_publish env publisher (message execution) po execution)
           else
             bindE (mapErrE SubmitStore (on_db (CreateExecution env n))) (\<lambda>execution.
             case publisher of
               None \<Rightarrow> failE NilPublisher
             | Some publish \<Rightarrow>
                 bindE (tryE (on_queue (publish (message execution) po))) (\<lambda>published.
                 case published of
                   Inr _ \<Rightarrow> retE execution
                 | Inl err \<Rightarrow>
                     (case ValidateTransition (ex_Status execution) StatusFailed of
                        Some te \<Rightarrow> failE (PublishFailedTransition err te)
                      | None \<Rightarrow>
                          bindE (mapErrE (PublishFailedMark err) (on_db (UpdateExecution env
                            \<lparr>eu_ID = ex_ID execution, eu_Status = StatusFailed, eu_StartedAt = None, eu_FinishedAt = Some now,
                             eu_ErrorSummary = errText err, eu_ProcessedRows = 0, eu_Attempt = 0,
                             eu_ExpectedStatus = ex_Status execution, eu_ExpectedAttempt = ex_Attempt execution\<rparr>)))
                          (\<lambda>_. failE (PublishFailed err))))))"

text \<open>The decoder of the scheduled payload is the parameter \<open>decode\<close>.\<close>

record ScheduledSubmission =
  ss_DefinitionID :: string
  ss_TaskType :: string
  ss_Payload :: string
  ss_MaxRetries :: int
  ss_Timeout :: int

definition ScheduledSubmissionHandle ::
    "(string \<Rightarrow> string + ScheduledSubmission) \<Rightarrow> task_env \<Rightarrow> bool \<Rightarrow> ('q, 'p) publisher option \<Rightarrow> ('p \<Rightarrow> string)
      \<Rightarrow> string \<Rightarrow> int \<Rightarrow> string \<Rightarrow> (task_db \<times> 'q, 'p task_error, int) op" where
  "ScheduledSubmissionHandle decode env isOutbox publisher errText newID now payload =
     (case decode payload of
        Inl e \<Rightarrow> failE (BadScheduledPayload e)
      | Inr req \<Rightarrow>
          if ss_DefinitionID req = [] \<or> ss_TaskType req = [] then failE ScheduledIncomplete
          else bindE (Submit env isOutbox publisher errText newID now
            \<lparr>su_DefinitionID = ss_DefinitionID req, su_TaskType = ss_TaskType req, su_Payload = ss_Payload req,
             su_IdempotencyKey = [], su_MaxRetries = ss_MaxRetries req, su_Timeout = ss_Timeout req,
             su_UniqueFor = 0, su_ProcessAfter = 0\<rparr>) (\<lambda>_. retE 0))"

section \<open>Processing\<close>

text \<open>
  A handler is a function from the payload to an error or the number of processed rows; \<open>ctxErr\<close> is
  \<open>ctx.Err()\<close> after it returned. \<open>started\<close> and \<open>finished\<close> are the processor's two readings of its clock.
\<close>

type_synonym handler = "string \<Rightarrow> handler_error + int"

definition Process ::
    "task_env \<Rightarrow> handler Registry \<Rightarrow> ctx_error option \<Rightarrow> int \<Rightarrow> int \<Rightarrow> Message \<Rightarrow> int
      \<Rightarrow> (task_db \<times> observations, 'p task_error, unit) op" where
  "Process env registry ctxErr started finished message attempt =
     bindE (mapErrE GetTask (on_db (GetExecution env (msg_ExecutionID message)))) (\<lambda>execution.
     case ValidateTransition (ex_Status execution) StatusRunning of
       Some e \<Rightarrow> failE (BadTransition e)
     | None \<Rightarrow>
     bindE (mapErrE ClaimTask (on_db (ClaimExecution env (msg_ExecutionID message) attempt started))) (\<lambda>_.
     bindE (observe (msg_TaskType message) StatusRunning 0) (\<lambda>_.
     case Resolve (msg_TaskType message) registry of
       Inl e \<Rightarrow> failE (HandlerMissing e)
     | Inr h \<Rightarrow>
       (case h (msg_Payload message) of
          Inl err \<Rightarrow>
            (case ctxErr of
               Some c \<Rightarrow>
                 if c \<in> set (handler_wraps err) then
                   bindE (mapErrE (HandlerFailedMark err) (on_db (UpdateExecution env
                     \<lparr>eu_ID = msg_ExecutionID message, eu_Status = StatusCancelled, eu_StartedAt = None,
                      eu_FinishedAt = Some finished, eu_ErrorSummary = handler_text err, eu_ProcessedRows = 0,
                      eu_Attempt = attempt, eu_ExpectedStatus = StatusRunning, eu_ExpectedAttempt = attempt\<rparr>))) (\<lambda>_.
                   bindE (observe (msg_TaskType message) StatusCancelled (finished - started)) (\<lambda>_.
                   failE (HandlerFailed err)))
                 else failE (HandlerFailed err)
             | None \<Rightarrow> failE (HandlerFailed err))
        | Inr rows \<Rightarrow>
            bindE (mapErrE MarkSucceededFailed (on_db (UpdateExecution env
              \<lparr>eu_ID = msg_ExecutionID message, eu_Status = StatusSucceeded, eu_StartedAt = Some started,
               eu_FinishedAt = Some finished, eu_ErrorSummary = [], eu_ProcessedRows = rows,
               eu_Attempt = attempt, eu_ExpectedStatus = StatusRunning, eu_ExpectedAttempt = attempt\<rparr>))) (\<lambda>_.
            observe (msg_TaskType message) StatusSucceeded (finished - started))))))"

definition Fail ::
    "task_env \<Rightarrow> int \<Rightarrow> Message \<Rightarrow> int \<Rightarrow> string \<Rightarrow> (task_db \<times> observations, 'p task_error, unit) op" where
  "Fail env finished message attempt cause =
     bindE (mapErrE GetTask (on_db (GetExecution env (msg_ExecutionID message)))) (\<lambda>execution.
     case ValidateTransition (ex_Status execution) StatusFailed of
       Some e \<Rightarrow> failE (BadTransition e)
     | None \<Rightarrow>
         bindE (mapErrE MarkFailedFailed (on_db (UpdateExecution env
           \<lparr>eu_ID = msg_ExecutionID message, eu_Status = StatusFailed, eu_StartedAt = None,
            eu_FinishedAt = Some finished, eu_ErrorSummary = cause, eu_ProcessedRows = 0,
            eu_Attempt = attempt, eu_ExpectedStatus = StatusRunning, eu_ExpectedAttempt = attempt\<rparr>))) (\<lambda>_.
         observe (msg_TaskType message) StatusFailed
           (case ex_StartedAt execution of None \<Rightarrow> 0 | Some st \<Rightarrow> finished - st)))"

section \<open>Guarantees\<close>

definition guar2 :: "(task_db \<times> 'q, 'e, 'a) op \<Rightarrow> bool" where
  "guar2 m \<longleftrightarrow> (\<forall>s. task_inv (fst s) \<longrightarrow> task_le (fst s) (fst (snd (m s))) \<and> task_inv (fst (snd (m s))))"

lemma guar2_on_db [inv_intros]: "guar m \<Longrightarrow> guar2 (on_db m)"
  unfolding guar_by_def guar2_def on_db_def by (auto split: prod.splits)

lemma guar2_on_queue [inv_intros]: "guar2 (on_queue m)"
  unfolding guar2_def on_queue_def by (auto split: prod.splits)

lemma guar2_observe [inv_intros]: "guar2 (observe ty st d)"
  unfolding observe_def by (rule guar2_on_queue)

lemma guar2_retE [inv_intros]: "guar2 (retE x)" and guar2_failE [inv_intros]: "guar2 (failE e)"
  by (simp_all add: guar2_def)

lemma snd_tryE: "snd (tryE m s) = snd (m s)" and snd_mapErrE: "snd (mapErrE g m s) = snd (m s)"
  by (simp_all add: tryE_def mapErrE_def split: prod.splits sum.splits)

lemma guar2_tryE [inv_intros]: "guar2 m \<Longrightarrow> guar2 (tryE m)"
  by (simp add: guar2_def snd_tryE)

lemma guar2_mapErrE [inv_intros]: "guar2 m \<Longrightarrow> guar2 (mapErrE g m)"
  by (simp add: guar2_def snd_mapErrE)

lemma guar2_bindE [inv_intros]:
  fixes m :: "(task_db \<times> 'q, 'e, 'a) op"
  assumes "guar2 m" and "\<And>s x t. task_inv (fst s) \<Longrightarrow> m s = (Inr x, t) \<Longrightarrow> guar2 (f x)"
  shows "guar2 (bindE m f)"
  unfolding guar2_def
proof (intro allI impI)
  fix s :: "task_db \<times> 'q"
  assume inv: "task_inv (fst s)"
  obtain r t where m: "m s = (r, t)" by (cases "m s")
  with assms(1) inv have t: "task_le (fst s) (fst t)" "task_inv (fst t)"
    unfolding guar2_def by (metis snd_conv)+
  show "task_le (fst s) (fst (snd (bindE m f s))) \<and> task_inv (fst (snd (bindE m f s)))"
  proof (cases r)
    case (Inl e)
    with m t show ?thesis by (simp add: bindE_def)
  next
    case (Inr x)
    with assms(2) [OF inv] m have "guar2 (f x)" by blast
    with t(2) have "task_le (fst t) (fst (snd (f x t))) \<and> task_inv (fst (snd (f x t)))"
      unfolding guar2_def by blast
    with Inr m t show ?thesis by (auto simp: bindE_def intro: task_le_trans)
  qed
qed

lemma guar2_Process: "task_rely env \<Longrightarrow> guar2 (Process env registry ctxErr started finished message attempt)"
  unfolding Process_def
  by (auto intro!: inv_intros guar_store guar_UpdateExecution split: option.split sum.split simp: status_le_def)

lemma guar2_Fail: "task_rely env \<Longrightarrow> guar2 (Fail env finished message attempt cause)"
  unfolding Fail_def
  by (auto intro!: inv_intros guar_store guar_UpdateExecution split: option.split simp: status_le_def)

lemma CreateExecution_new:
  assumes "CreateExecution env n s = (Inr ex, t)"
  shows "ex_Status ex = StatusQueued \<and> ex_Attempt ex = 0"
proof -
  obtain def row where "stmt env (CreateTaskExecution def (ne_TaskType n)
      (nullableText (ne_QueueID n)) (nullableText (ne_IdempotencyKey n)) (ne_Payload n)) s = (Inr row, t)"
    and "ex = executionFromRow row"
    using assms by (auto simp: CreateExecution_def bindE_eqs split: option.splits)
  then show ?thesis by (auto simp: stmt_Inr executionFromRow_def dest!: Create_effect)
qed

lemma guar2_submit_publish: "task_rely env \<Longrightarrow> guar2 (submit_publish env publisher message po ex)"
  unfolding submit_publish_def by (auto intro!: inv_intros guar_store split: option.split sum.split)

lemma guar2_Submit: "task_rely env \<Longrightarrow> guar2 (Submit env isOutbox publisher errText newID now su)"
  unfolding Submit_def Let_def
  apply (auto intro!: inv_intros guar_store guar2_submit_publish split: option.split sum.split)
  apply (rule guar_UpdateExecution)
  apply (auto simp: on_db_def status_le_def split: prod.splits dest!: CreateExecution_new)
  done

section \<open>Outcomes\<close>

lemma on_db_Inr: "on_db m (d, q) = (Inr x, (d', q')) \<longleftrightarrow> m d = (Inr x, d') \<and> q' = q"
  by (auto simp: on_db_def split: prod.splits)

lemma observe_Inr: "observe ty st dur (d, obs) = (Inr x, (d', obs')) \<longleftrightarrow> d' = d \<and> obs' = obs @ [(ty, st, dur)]"
  by (auto simp: observe_def on_queue_def)

lemma GetExecution_Inr:
  assumes "GetExecution env i s = (Inr ex, t)"
  shows "\<exists>u e. parseUUID i = Some u \<and> e \<in> set (executions t) \<and> te_id e = u \<and> ex = executionFromRow e"
  using assms
  by (force simp: GetExecution_def bindE_eqs stmt_Inr GetTaskExecution_def find_Some_iff split: option.splits)

lemma ClaimExecution_Inr:
  assumes "ClaimExecution env i a st s = (Inr (), t)"
  shows "\<exists>u e. parseUUID i = Some u \<and> e \<in> set (executions t) \<and> te_id e = u \<and> te_status e = StatusRunning \<and>
    te_attempt e = int32 a"
proof -
  obtain u s' where u: "parseUUID i = Some u" and q: "\<exists>rows. rows \<noteq> 0 \<and>
      ClaimTaskExecution u (int32 a) (Some st) (env (db_calls s) s) = Inr (rows, s')" and t: "t = next_call s'"
    using assms by (auto simp: ClaimExecution_def bindE_eqs stmt_Inr split: option.splits if_splits)
  let ?e = "env (db_calls s) s"
  from q obtain e where e: "e \<in> set (executions ?e)" "claimable u (int32 a) e"
    by (auto simp: ClaimTaskExecution_def Let_def filter_empty_conv split: if_splits)
  then have "claim_row (int32 a) (Some st) (sql_now ?e) e \<in> set (executions s')"
    using q by (force simp: ClaimTaskExecution_def Let_def split: if_splits)
  moreover have "te_id e = u" using e(2) by (simp add: claimable_def)
  ultimately show ?thesis using u t by (force simp: claim_row_def)
qed

lemma UpdateExecution_Inr:
  assumes "UpdateExecution env up s = (Inr (), t)"
  shows "\<exists>u e f. parseUUID (eu_ID up) = Some u \<and> e \<in> set (executions (env (db_calls s) s)) \<and>
    updatable u (eu_ExpectedStatus up) (int32 (eu_ExpectedAttempt up)) e \<and> f \<in> set (executions t) \<and>
    f = update_row (eu_Status up) (eu_StartedAt up) (eu_FinishedAt up) (nullableText (eu_ErrorSummary up))
      (eu_ProcessedRows up) (int32 (eu_Attempt up)) (sql_now (env (db_calls s) s)) e"
proof -
  let ?e = "env (db_calls s) s"
  obtain u s' rows where u: "parseUUID (eu_ID up) = Some u" and t: "t = next_call s'" and rows: "rows \<noteq> 0"
    and q: "UpdateTaskExecutionStatus (eu_Status up) (eu_StartedAt up) (eu_FinishedAt up)
        (nullableText (eu_ErrorSummary up)) (eu_ProcessedRows up) (int32 (eu_Attempt up)) u (eu_ExpectedStatus up)
        (int32 (eu_ExpectedAttempt up)) ?e = Inr (rows, s')"
    using assms by (auto simp: UpdateExecution_def bindE_eqs stmt_Inr split: option.splits if_splits)
  from q rows obtain e where e: "e \<in> set (executions ?e)" "updatable u (eu_ExpectedStatus up) (int32 (eu_ExpectedAttempt up)) e"
    by (auto simp: UpdateTaskExecutionStatus_def Let_def filter_empty_conv split: if_splits)
  then have "update_row (eu_Status up) (eu_StartedAt up) (eu_FinishedAt up) (nullableText (eu_ErrorSummary up))
      (eu_ProcessedRows up) (int32 (eu_Attempt up)) (sql_now ?e) e \<in> set (executions s')"
    using q by (force simp: UpdateTaskExecutionStatus_def Let_def split: if_splits)
  with u t e show ?thesis by auto
qed

text \<open>
  When \<open>Process\<close> reports success, the registered handler accepted the payload, the execution is
  stored as succeeded under exactly this attempt with the handler's row count and finishing time,
  and the observer saw the running and the succeeded status, in this order.
\<close>

theorem process_success_recorded:
  assumes "Process env registry ctxErr started finished msg a (d, obs) = (Inr (), (d', obs'))"
  shows "\<exists>u h rows e. parseUUID (msg_ExecutionID msg) = Some u \<and>
    Resolve (msg_TaskType msg) registry = Inr h \<and> h (msg_Payload msg) = Inr rows \<and>
    e \<in> set (executions d') \<and> te_id e = u \<and> te_status e = StatusSucceeded \<and> te_attempt e = int32 a \<and>
    te_processed_rows e = rows \<and> te_finished_at e = Some finished \<and> te_error_summary e = None \<and>
    obs' = obs @ [(msg_TaskType msg, StatusRunning, 0), (msg_TaskType msg, StatusSucceeded, finished - started)]"
proof -
  obtain h rows d1 where h: "Resolve (msg_TaskType msg) registry = Inr h" "h (msg_Payload msg) = Inr rows"
    and up: "UpdateExecution env
              \<lparr>eu_ID = msg_ExecutionID msg, eu_Status = StatusSucceeded, eu_StartedAt = Some started,
               eu_FinishedAt = Some finished, eu_ErrorSummary = [], eu_ProcessedRows = rows,
               eu_Attempt = a, eu_ExpectedStatus = StatusRunning, eu_ExpectedAttempt = a\<rparr> d1 = (Inr (), d')"
    and obs: "obs' = obs @ [(msg_TaskType msg, StatusRunning, 0), (msg_TaskType msg, StatusSucceeded, finished - started)]"
    using assms unfolding Process_def
    by (auto simp: bindE_eq_Inr on_db_Inr observe_Inr split: option.splits sum.splits if_splits)
  from UpdateExecution_Inr [OF up] obtain u e f where "parseUUID (msg_ExecutionID msg) = Some u"
    "updatable u StatusRunning (int32 a) e" "f \<in> set (executions d')"
    "f = update_row StatusSucceeded (Some started) (Some finished) (nullableText []) rows (int32 a)
      (sql_now (env (db_calls d1) d1)) e"
    by auto
  with h obs show ?thesis
    by (intro exI [of _ u] exI [of _ h] exI [of _ rows] exI [of _ f])
      (simp add: update_row_def updatable_def coalesce_def nullableText_def)
qed

lemma CreatePending_Inr:
  assumes "CreateExecutionWithPendingPublish env n po s = (Inr ex, t)"
  shows "\<exists>row m. ex = executionFromRow row \<and> row \<in> set (executions t) \<and> m \<in> set (outbox t) \<and>
    te_id row \<notin> te_id ` set (executions (env (db_calls s) s)) \<and>
    te_task_type row = ne_TaskType n \<and> te_idempotency_key row = nullableText (ne_IdempotencyKey n) \<and>
    nullableUUID (ne_DefinitionID n) = Some (te_definition_id row) \<and>
    jsonb (env (db_calls s) s) (ne_Payload n) = Some (te_payload row) \<and> te_status row = StatusQueued \<and>
    ob_execution_id m = te_id row \<and> ob_queue_id m = po_QueueID po \<and> ob_task_type m = ne_TaskType n \<and>
    ob_payload m = te_payload row \<and> ob_max_retries m = int32 (po_MaxRetries po) \<and>
    ob_timeout_seconds m = seconds32 (po_Timeout po) \<and> ob_unique_for_seconds m = seconds32 (po_UniqueFor po) \<and>
    ob_process_after_seconds m = seconds32 (po_ProcessAfter po) \<and>
    (ne_IdempotencyKey n \<noteq> [] \<longrightarrow> (ne_TaskType n, Some (ne_IdempotencyKey n)) \<notin>
       (\<lambda>e. (te_task_type e, te_idempotency_key e)) ` set (executions (env (db_calls s) s)))"
proof -
  let ?e = "env (db_calls s) s"
  obtain def row s' where q: "CreateTaskExecutionWithPendingPublish def (ne_TaskType n)
              (nullableText (po_QueueID po)) (nullableText (ne_IdempotencyKey n)) (ne_Payload n)
              (int32 (po_MaxRetries po)) (seconds32 (po_Timeout po)) (seconds32 (po_UniqueFor po))
              (seconds32 (po_ProcessAfter po)) ?e = Inr (row, s')"
    and def: "nullableUUID (ne_DefinitionID n) = Some def" and ex: "ex = executionFromRow row" and t: "t = next_call s'"
    using assms by (auto simp: CreateExecutionWithPendingPublish_def bindE_eqs stmt_Inr split: option.splits)
  from q obtain qid s2 m where c: "nullableText (po_QueueID po) = Some qid"
    "CreateTaskExecution def (ne_TaskType n) (nullableText (po_QueueID po)) (nullableText (ne_IdempotencyKey n))
      (ne_Payload n) ?e = Inr (row, s2)"
    "s' = s2\<lparr>outbox := outbox s2 @ [m]\<rparr>" "ob_queue_id m = qid" "ob_execution_id m = te_id row"
    "ob_task_type m = ne_TaskType n" "ob_payload m = te_payload row" "ob_max_retries m = int32 (po_MaxRetries po)"
    "ob_timeout_seconds m = seconds32 (po_Timeout po)" "ob_unique_for_seconds m = seconds32 (po_UniqueFor po)"
    "ob_process_after_seconds m = seconds32 (po_ProcessAfter po)"
    by (rule CreatePending_cases) blast
  have key: "ne_IdempotencyKey n \<noteq> [] \<longrightarrow> (ne_TaskType n, Some (ne_IdempotencyKey n)) \<notin>
       (\<lambda>e. (te_task_type e, te_idempotency_key e)) ` set (executions ?e)"
    using c(2) by (auto simp: CreateTaskExecution_def Let_def nullableText_def split: if_splits option.splits)
  show ?thesis
    using Create_effect [OF c(2)] c key ex t def
    by (intro exI [of _ row] exI [of _ m]) (auto simp: nullableText_def split: if_splits)
qed

lemma guar_fst: "guar2 m \<Longrightarrow> task_inv d \<Longrightarrow> m (d, q) = (r, (d', q')) \<Longrightarrow> task_le d d' \<and> task_inv d'"
  unfolding guar2_def by (metis fst_conv snd_conv)

text \<open>The continuation of \<open>Submit\<close> after the rows exist only adds to them.\<close>

lemma Submit_outbox_Inr:
  assumes "Submit env True publisher errText newID now su (d, q) = (Inr ex, (d', q'))" and "task_rely env" and "task_inv d"
  shows "ValidateSubmission su = None \<and>
    (\<exists>d1. CreateExecutionWithPendingPublish env
        \<lparr>ne_DefinitionID = su_DefinitionID su, ne_TaskType = su_TaskType su, ne_QueueID = newID,
                 ne_IdempotencyKey = su_IdempotencyKey su, ne_Payload = su_Payload su\<rparr>
        \<lparr>po_QueueID = newID, po_MaxRetries = su_MaxRetries su, po_Timeout = su_Timeout su,
                  po_UniqueFor = su_UniqueFor su, po_ProcessAfter = su_ProcessAfter su\<rparr> d = (Inr ex, d1) \<and>
      task_le d1 d')"
proof -
  let ?n = "\<lparr>ne_DefinitionID = su_DefinitionID su, ne_TaskType = su_TaskType su, ne_QueueID = newID,
                 ne_IdempotencyKey = su_IdempotencyKey su, ne_Payload = su_Payload su\<rparr>"
  let ?po = "\<lparr>po_QueueID = newID, po_MaxRetries = su_MaxRetries su, po_Timeout = su_Timeout su,
                  po_UniqueFor = su_UniqueFor su, po_ProcessAfter = su_ProcessAfter su\<rparr>"
  have ok: "ValidateSubmission su = None"
    using assms(1) by (auto simp: Submit_def split: option.splits)
  obtain r d1 where c: "CreateExecutionWithPendingPublish env ?n ?po d = (r, d1)" by (cases "CreateExecutionWithPendingPublish env ?n ?po d")
  obtain ex1 where r: "r = Inr ex1"
    using assms(1) ok c by (cases r) (auto simp: Submit_def Let_def bindE_def mapErrE_def on_db_def)
  have d1: "task_inv d1" using guar_store(2) [OF assms(2)] assms(3) c unfolding guar_by_def by (metis snd_conv)
  let ?k = "submit_publish env publisher \<lparr>msg_ExecutionID = ex_ID ex1, msg_TaskType = su_TaskType su, msg_Payload = su_Payload su\<rparr> ?po ex1"
  have k: "?k (d1, q) = (Inr ex, (d', q'))"
    using assms(1) ok c r by (simp add: Submit_def Let_def bindE_def mapErrE_def on_db_def)
  have "guar2 ?k" by (rule guar2_submit_publish [OF assms(2)])
  from guar_fst [OF this d1 k] have le: "task_le d1 d'" by simp
  have "ex = ex1"
    using k by (auto simp: submit_publish_def bindE_def tryE_def split: option.splits sum.splits prod.splits)
  with ok c r le show ?thesis by auto
qed

section \<open>A sample run\<close>

definition sample_db :: task_db where
  "sample_db = \<lparr>db_calls = 0, db_fault = (\<lambda>_. Delivered), db_clock = int, db_uuid = (\<lambda>_. replicate 16 CHR ''u''),
     collate_key = id, jsonb = Some, definitions = [], executions = [], outbox = [], schedules = []\<rparr>"

definition quiet :: task_env where
  "quiet i s = s"

definition sample_submission :: Submission where
  "sample_submission = \<lparr>su_DefinitionID = [], su_TaskType = ''t'', su_Payload = ''{}'', su_IdempotencyKey = ''k'',
     su_MaxRetries = 3, su_Timeout = 60 * Second, su_UniqueFor = 0, su_ProcessAfter = 0\<rparr>"

definition sample_row :: TaskExecution where
  "sample_row = \<lparr>te_id = replicate 16 CHR ''u'', te_definition_id = None, te_task_type = ''t'', te_queue_id = Some ''q1'',
     te_idempotency_key = Some ''k'', te_payload = ''{}'', te_status = StatusQueued, te_attempt = 0, te_processed_rows = 0,
     te_error_summary = None, te_queued_at = 0, te_started_at = None, te_finished_at = None, te_created_at = 0,
     te_updated_at = 0\<rparr>"

definition sample_message :: TaskOutboxMessage where
  "sample_message = \<lparr>ob_queue_id = ''q1'', ob_execution_id = replicate 16 CHR ''u'', ob_task_type = ''t'',
     ob_payload = ''{}'', ob_max_retries = 3, ob_timeout_seconds = 60, ob_unique_for_seconds = 0,
     ob_process_after_seconds = 0, ob_published_at = None, ob_created_at = 0, ob_updated_at = 0\<rparr>"

text \<open>The tables after the submission, before its message is published.\<close>

definition submitted_db :: task_db where
  "submitted_db = sample_db\<lparr>db_calls := 1, executions := [sample_row], outbox := [sample_message]\<rparr>"

lemma quiet_rely: "task_rely quiet"
  by (simp add: rely_by_def quiet_def)

lemma sample_valid: "ValidateSubmission sample_submission = None"
  by (simp add: ValidateSubmission_def sample_submission_def submission_bounds)

lemma sample_seconds: "seconds32 (60 * Second) = 60" "seconds32 0 = 0" "int32 3 = 3" "int32 1 = 1" "int32 0 = 0"
  by (simp_all add: seconds32_def Second_def int32_id)

lemma sample_submit:
  "Submit quiet True (None :: (nat, 'p) publisher option) errText ''q1'' 5 sample_submission (sample_db, q) =
     (Inr (executionFromRow sample_row), (submitted_db, q))"
  unfolding Submit_def sample_valid option.case
  by (simp add: Let_def submit_publish_def CreateExecutionWithPendingPublish_def
      sample_submission_def nullableUUID_def bindE_def mapErrE_def on_db_def stmt_def quiet_def sample_db_def
      CreateTaskExecutionWithPendingPublish_def CreateTaskExecution_def blank_def nullableText_def sample_seconds
      new_execution_def sql_now_def sql_uuid_def next_call_def submitted_db_def sample_row_def sample_message_def)

lemma sample_inv: "task_inv sample_db" "task_inv submitted_db"
  by (simp_all add: task_inv_def sample_db_def submitted_db_def sample_row_def sample_message_def ParseStatus_def)

definition sample_msg :: Message where
  "sample_msg = \<lparr>msg_ExecutionID = formatUUID (Some (replicate 16 CHR ''u'')), msg_TaskType = ''t'', msg_Payload = ''{}''\<rparr>"

definition sample_handlers :: "handler Registry" where
  "sample_handlers = [''t'' \<mapsto> (\<lambda>_. Inr 7)]"

lemma sample_parse: "parseUUID (formatUUID (Some (replicate 16 CHR ''u''))) = Some (replicate 16 CHR ''u'')"
  by (rule parseUUID_formatUUID) simp

definition sample_run :: "(unit task_error + unit) \<times> (task_db \<times> observations)" where
  "sample_run = Process quiet sample_handlers None 8 9 sample_msg 1 (submitted_db, [])"

lemma sample_process: "fst sample_run = Inr ()"
  unfolding sample_run_def Process_def
  by (simp add: GetExecution_def ClaimExecution_def UpdateExecution_def sample_msg_def sample_parse bindE_def mapErrE_def
      on_db_def observe_def on_queue_def stmt_def quiet_def submitted_db_def sample_db_def next_call_def
      GetTaskExecution_def sample_row_def executionFromRow_def ValidateTransition_def Resolve_def sample_handlers_def
      ClaimTaskExecution_def claimable_def claim_row_def UpdateTaskExecutionStatus_def updatable_def update_row_def
      ParseStatus_def sample_seconds Let_def)

theorem process_success_recorded_witness:
  "\<exists>e d' obs'. sample_run = (Inr (), (d', obs')) \<and>
     e \<in> set (executions d') \<and> te_status e = StatusSucceeded \<and> te_processed_rows e = 7"
proof -
  obtain d' obs' where run: "sample_run = (Inr (), (d', obs'))"
    using sample_process by (metis prod.collapse)
  from process_success_recorded [OF this [unfolded sample_run_def]] obtain h rows e where
    "Resolve (msg_TaskType sample_msg) sample_handlers = Inr h" "h (msg_Payload sample_msg) = Inr rows"
    "e \<in> set (executions d')" "te_status e = StatusSucceeded" "te_processed_rows e = rows" by blast
  moreover from this(1,2) have "rows = 7" by (auto simp: Resolve_def sample_handlers_def sample_msg_def)
  ultimately show ?thesis using run by blast
qed

end
