(* ===== verification/Task_Queue.thy ===== *)
theory Task_Queue
  imports Task_Service
begin

text \<open>
  The queue side of the task system (\<open>src/pkg/platform/queue/asynq.go\<close>): the publisher, the worker's
  task handler, the handling of exhausted retries and the outbox dispatcher. The queue itself is the
  third-party package asynq; its \<open>EnqueueContext\<close> is the parameter \<open>enqueue\<close> on an opaque state, and
  the locale \<open>asynq\<close> states what the code relies on. JSON encoding of messages is the parameter
  \<open>marshal\<close> and decoding the parameter \<open>unmarshal\<close>.
\<close>

section \<open>Publisher\<close>

datatype asynq_option = MaxRetry int | Queue string | TaskID string | Timeout int | Unique int | ProcessIn int

datatype enqueue_error = ErrTaskIDConflict | ErrDuplicateTask | EnqueueOther string

datatype publish_error = EncodeFailed string | DuplicateTaskSubmission string | EnqueueFailed string

type_synonym 'q enqueue = "string \<Rightarrow> string \<Rightarrow> asynq_option list \<Rightarrow> ('q, enqueue_error, unit) op"

definition enqueueOptions :: "string \<Rightarrow> PublishOptions \<Rightarrow> asynq_option list" where
  "enqueueOptions queueName po =
     [MaxRetry (po_MaxRetries po)]
     @ (if queueName \<noteq> [] then [Queue queueName] else [])
     @ (if po_QueueID po \<noteq> [] then [TaskID (po_QueueID po)] else [])
     @ (if po_Timeout po > 0 then [Timeout (po_Timeout po)] else [])
     @ (if po_UniqueFor po > 0 then [Unique (po_UniqueFor po)] else [])
     @ (if po_ProcessAfter po > 0 then [ProcessIn (po_ProcessAfter po)] else [])"

definition Publish ::
    "'q enqueue \<Rightarrow> (Message \<Rightarrow> string + string) \<Rightarrow> string \<Rightarrow> Message \<Rightarrow> PublishOptions \<Rightarrow> ('q, publish_error, unit) op" where
  "Publish enqueue marshal queueName message po =
     (case marshal message of
        Inl e \<Rightarrow> failE (EncodeFailed e)
      | Inr payload \<Rightarrow>
          (\<lambda>q. case enqueue (msg_TaskType message) payload (enqueueOptions queueName po) q of
             (Inr _, q') \<Rightarrow> (Inr (), q')
           | (Inl ErrTaskIDConflict, q') \<Rightarrow> (Inr (), q')
           | (Inl ErrDuplicateTask, q') \<Rightarrow> (Inl (DuplicateTaskSubmission (po_QueueID po)), q')
           | (Inl (EnqueueOther e), q') \<Rightarrow> (Inl (EnqueueFailed e), q')))"

section \<open>Worker side\<close>

definition decodeMessage :: "(string \<Rightarrow> string + Message) \<Rightarrow> string \<Rightarrow> string \<Rightarrow> string + Message" where
  "decodeMessage unmarshal taskType payload =
     (case unmarshal payload of
        Inl e \<Rightarrow> Inl e
      | Inr m \<Rightarrow> Inr (if msg_TaskType m = [] then m\<lparr>msg_TaskType := taskType\<rparr> else m))"

text \<open>What the worker's handler tells asynq: retry later, drop the task, or archive it.\<close>

datatype 'p verdict = RetryTask "'p task_error" | RevokeTask "'p task_error" | SkipRetry string

text \<open>\<open>pgctx\<close> says which driver errors wrap a context error.\<close>

fun store_ctx :: "(pg_error \<Rightarrow> bool) \<Rightarrow> store_error \<Rightarrow> bool" where
  "store_ctx pgctx (StorePg e) = pgctx e"
| "store_ctx pgctx _ = False"

fun is_ctx_error :: "(pg_error \<Rightarrow> bool) \<Rightarrow> 'p task_error \<Rightarrow> bool" where
  "is_ctx_error pgctx (GetTask e) = store_ctx pgctx e"
| "is_ctx_error pgctx (ClaimTask e) = store_ctx pgctx e"
| "is_ctx_error pgctx (HandlerFailed h) = (handler_wraps h \<noteq> [])"
| "is_ctx_error pgctx (HandlerFailedMark h e) = (handler_wraps h \<noteq> [] \<or> store_ctx pgctx e)"
| "is_ctx_error pgctx (MarkSucceededFailed e) = store_ctx pgctx e"
| "is_ctx_error pgctx _ = False"

fun is_conflict :: "'p task_error \<Rightarrow> bool" where
  "is_conflict (GetTask e) = (e = ErrExecutionConflict)"
| "is_conflict (ClaimTask e) = (e = ErrExecutionConflict)"
| "is_conflict (HandlerFailedMark h e) = (e = ErrExecutionConflict)"
| "is_conflict (MarkSucceededFailed e) = (e = ErrExecutionConflict)"
| "is_conflict _ = False"

definition ProcessTask ::
    "(string \<Rightarrow> string + Message) \<Rightarrow> (pg_error \<Rightarrow> bool) \<Rightarrow> task_env \<Rightarrow> handler Registry \<Rightarrow> ctx_error option \<Rightarrow> int \<Rightarrow> int
      \<Rightarrow> int \<Rightarrow> string \<Rightarrow> string \<Rightarrow> (task_db \<times> observations, 'p verdict, unit) op" where
  "ProcessTask unmarshal pgctx env registry ctxErr started finished retryCount taskType payload =
     (case decodeMessage unmarshal taskType payload of
        Inl e \<Rightarrow> failE (SkipRetry e)
      | Inr message \<Rightarrow>
          mapErrE (\<lambda>err. if is_ctx_error pgctx err then RevokeTask err
                         else if is_conflict err then RevokeTask err else RetryTask err)
            (Process env registry ctxErr started finished message (int64 (retryCount + 1))))"

datatype 'p exhausted_error = ExhaustedDecode string | ExhaustedFail "'p task_error"

definition HandleExhausted ::
    "(string \<Rightarrow> string + Message) \<Rightarrow> task_env \<Rightarrow> int \<Rightarrow> string \<Rightarrow> string \<Rightarrow> string \<Rightarrow> int \<Rightarrow> int
      \<Rightarrow> (task_db \<times> observations, 'p exhausted_error, unit) op" where
  "HandleExhausted unmarshal env finished taskType payload cause retryCount maxRetry =
     (if retryCount < maxRetry then retE ()
      else case decodeMessage unmarshal taskType payload of
        Inl e \<Rightarrow> failE (ExhaustedDecode e)
      | Inr message \<Rightarrow> mapErrE ExhaustedFail (Fail env finished message (int64 (retryCount + 1)) cause))"

text \<open>The error handler registered with the server; a failed synchronisation is only logged.\<close>

definition HandleError ::
    "(string \<Rightarrow> string + Message) \<Rightarrow> (pg_error \<Rightarrow> bool) \<Rightarrow> task_env \<Rightarrow> int \<Rightarrow> string \<Rightarrow> string
      \<Rightarrow> 'p verdict \<Rightarrow> string \<Rightarrow> int option \<Rightarrow> int option
      \<Rightarrow> task_db \<times> observations \<Rightarrow> 'p exhausted_error option \<times> (task_db \<times> observations)" where
  "HandleError unmarshal pgctx env finished taskType payload err errText retryCount maxRetry s =
     (case err of
        RevokeTask _ \<Rightarrow> (None, s)
      | _ \<Rightarrow>
        (case (retryCount, maxRetry) of
           (Some rc, Some mr) \<Rightarrow>
             if rc < mr then (None, s)
             else (case HandleExhausted unmarshal env finished taskType payload errText rc mr s of
                     (Inl e, s') \<Rightarrow> (Some e, s') | (Inr _, s') \<Rightarrow> (None, s'))
         | _ \<Rightarrow> (None, s)))"

section \<open>Outbox dispatcher\<close>

datatype dispatch_error =
    ListPendingFailed store_error | PublishQueued string publish_error | MarkQueued string store_error

fun dispatch_loop ::
    "task_env \<Rightarrow> ('q, publish_error) publisher \<Rightarrow> PendingPublish list \<Rightarrow> (task_db \<times> 'q, dispatch_error, unit) op" where
  "dispatch_loop env publish [] = retE ()"
| "dispatch_loop env publish (p # ps) =
     bindE (if pp_ExecutionStatus p = StatusQueued
            then mapErrE (PublishQueued (po_QueueID (pp_Options p))) (on_queue (publish (pp_Message p) (pp_Options p)))
            else retE ()) (\<lambda>_.
     bindE (mapErrE (MarkQueued (po_QueueID (pp_Options p))) (on_db (MarkPublishSucceeded env (po_QueueID (pp_Options p)))))
     (\<lambda>_. dispatch_loop env publish ps))"

definition DispatchPending ::
    "task_env \<Rightarrow> ('q, publish_error) publisher \<Rightarrow> int \<Rightarrow> (task_db \<times> 'q, dispatch_error, unit) op" where
  "DispatchPending env publish limit =
     bindE (mapErrE ListPendingFailed (on_db (ListPendingPublishes env limit))) (dispatch_loop env publish)"

section \<open>All operations together\<close>

lemma guar2_dispatch_loop: "task_rely env \<Longrightarrow> guar2 (dispatch_loop env publish ps)"
  by (induction ps) (auto intro!: inv_intros guar_store)

lemma guar2_DispatchPending: "task_rely env \<Longrightarrow> guar2 (DispatchPending env publish limit)"
  unfolding DispatchPending_def by (auto intro!: inv_intros guar_store guar2_dispatch_loop)

text \<open>
  Runs of the whole system on the task tables: any number of processes submit, dispatch, process and
  fail tasks, each with its own clock, network faults and handlers. While an operation runs, the
  others run between its statements (\<open>env\<close>), and their runs are again of this kind. The states of the
  queue are coded as numbers.
\<close>

inductive task_runs :: "task_db \<Rightarrow> task_db \<Rightarrow> bool" where
  none: "task_runs d d"
| seq: "task_runs d d' \<Longrightarrow> task_runs d' d'' \<Longrightarrow> task_runs d d''"
| submit: "(\<And>i s. task_runs s (env i s)) \<Longrightarrow>
    task_runs d (fst (snd (Submit env isOutbox (publisher :: (nat, publish_error) publisher option) errText newID now su (d, q))))"
| claim_process: "(\<And>i s. task_runs s (env i s)) \<Longrightarrow>
    task_runs d (fst (snd (Process env registry ctxErr started finished message attempt (d, obs)
      :: (publish_error task_error + unit) \<times> (task_db \<times> observations))))"
| fail: "(\<And>i s. task_runs s (env i s)) \<Longrightarrow>
    task_runs d (fst (snd (Fail env finished message attempt cause (d, obs)
      :: (publish_error task_error + unit) \<times> (task_db \<times> observations))))"
| dispatch: "(\<And>i s. task_runs s (env i s)) \<Longrightarrow>
    task_runs d (fst (snd (DispatchPending env (publish :: (nat, publish_error) publisher) limit (d, q))))"

lemma guar2D: "guar2 m \<Longrightarrow> task_inv d \<Longrightarrow> task_le d (fst (snd (m (d, q)))) \<and> task_inv (fst (snd (m (d, q))))"
  unfolding guar2_def by (drule spec [of _ "(d, q)"]) simp

lemma task_runs_guar: "task_runs d d' \<Longrightarrow> task_inv d \<Longrightarrow> task_le d d' \<and> task_inv d'"
proof (induction rule: task_runs.induct)
  case (seq d d' d'')
  then show ?case using task_le_trans by blast
next
  case (submit env d isOutbox publisher errText newID now su q)
  have "task_rely env" unfolding rely_by_def using submit.IH by blast
  from guar2D [OF guar2_Submit [OF this] submit.prems] show ?case .
next
  case (claim_process env d registry ctxErr started finished message attempt obs)
  have "task_rely env" unfolding rely_by_def using claim_process.IH by blast
  from guar2D [OF guar2_Process [OF this] claim_process.prems] show ?case .
next
  case (fail env d finished message attempt cause obs)
  have "task_rely env" unfolding rely_by_def using fail.IH by blast
  from guar2D [OF guar2_Fail [OF this] fail.prems] show ?case .
next
  case (dispatch env d publish limit q)
  have "task_rely env" unfolding rely_by_def using dispatch.IH by blast
  from guar2D [OF guar2_DispatchPending [OF this] dispatch.prems] show ?case .
qed simp

lemma status_le_allowed:
  assumes "status_le a b" and "snd (ParseStatus b)"
  shows "b = a \<or> ValidateTransition a b = None \<or> a = StatusQueued \<and> b = StatusSucceeded"
  using assms(1) unfolding status_le_def
proof (elim disjE conjE)
  assume "a = StatusQueued"
  with assms(2) show ?thesis by (auto simp: ParseStatus_def ValidateTransition_def)
next
  assume "a = StatusRunning" "terminal b"
  then show ?thesis by (auto simp: terminal_def ValidateTransition_def)
qed simp

text \<open>
  C28: whatever the processes do, an execution never disappears, its attempt number never decreases,
  its status only moves forward along \<open>ValidateTransition\<close>, and once succeeded, failed or cancelled
  its row never changes again; the constraints of the tables keep holding.
\<close>

theorem task_executions_only_advance:
  assumes "task_runs d d'" and "task_inv d" and "e \<in> set (executions d)"
  shows "task_inv d' \<and>
    (\<exists>f \<in> set (executions d'). te_id f = te_id e \<and> te_payload f = te_payload e \<and> te_attempt e \<le> te_attempt f \<and>
      (te_status f = te_status e \<or> ValidateTransition (te_status e) (te_status f) = None \<or>
       te_status e = StatusQueued \<and> te_status f = StatusSucceeded) \<and>
      (terminal (te_status e) \<longrightarrow> f = e))"
proof -
  have le: "task_le d d'" and inv: "task_inv d'" using task_runs_guar [OF assms(1,2)] by auto
  then obtain f where f: "f \<in> set (executions d')" "exec_le e f" using assms(3) by (auto simp: task_le_def)
  have "snd (ParseStatus (te_status f))" using inv f(1) by (auto simp: task_inv_def)
  then have st: "te_status f = te_status e \<or> ValidateTransition (te_status e) (te_status f) = None \<or>
       te_status e = StatusQueued \<and> te_status f = StatusSucceeded"
    using f(2) unfolding exec_le_def by (blast dest: status_le_allowed)
  have row: "te_id f = te_id e" "te_payload f = te_payload e" "te_attempt e \<le> te_attempt f" "terminal (te_status e) \<longrightarrow> f = e"
    using f(2) by (simp_all add: exec_le_def)
  show ?thesis by (rule conjI [OF inv], rule bexI [OF _ f(1)]) (intro conjI row st)
qed

lemma same_id: "task_inv d \<Longrightarrow> e \<in> set (executions d) \<Longrightarrow> f \<in> set (executions d) \<Longrightarrow> te_id e = te_id f \<Longrightarrow> e = f"
  by (rule inj_onD [of te_id "set (executions d)"]) (simp_all add: task_inv_def distinct_map)

text \<open>A row that has reached an attempt refuses every claim up to it.\<close>

lemma no_stale_claim:
  assumes "task_inv s" and "task_rely env" and "e \<in> set (executions s)" and "parseUUID i = Some (te_id e)"
    and "int32 b \<le> te_attempt e"
  shows "fst (ClaimExecution env i b st s) \<noteq> Inr ()"
proof
  assume "fst (ClaimExecution env i b st s) = Inr ()"
  then obtain t where c: "ClaimExecution env i b st s = (Inr (), t)" by (metis prod.collapse)
  let ?e = "env (db_calls s) s"
  have e: "task_le s ?e" "task_inv ?e" using assms(1,2) by (auto simp: rely_by_def)
  from e(1) assms(3) obtain f where f: "f \<in> set (executions ?e)" "exec_le e f" by (auto simp: task_le_def)
  from c assms(4) obtain rows s' where "rows \<noteq> 0"
      "ClaimTaskExecution (te_id e) (int32 b) (Some st) ?e = Inr (rows, s')"
    by (auto simp: ClaimExecution_def bindE_eqs stmt_Inr split: if_splits)
  then obtain g where g: "g \<in> set (executions ?e)" "claimable (te_id e) (int32 b) g"
    by (auto simp: ClaimTaskExecution_def Let_def filter_empty_conv split: if_splits)
  have "g = f" using same_id [OF e(2) g(1) f(1)] g(2) f(2) by (simp add: claimable_def exec_le_def)
  with g(2) f(2) assms(5) show False by (simp add: claimable_def exec_le_def)
qed

lemma no_stale_update:
  assumes "task_inv s" and "task_rely env" and "e \<in> set (executions s)" and "parseUUID (eu_ID up) = Some (te_id e)"
    and "int32 (eu_ExpectedAttempt up) < te_attempt e"
  shows "fst (UpdateExecution env up s) \<noteq> Inr ()"
proof
  assume "fst (UpdateExecution env up s) = Inr ()"
  then obtain t where c: "UpdateExecution env up s = (Inr (), t)" by (metis prod.collapse)
  let ?e = "env (db_calls s) s"
  have e: "task_le s ?e" "task_inv ?e" using assms(1,2) by (auto simp: rely_by_def)
  from e(1) assms(3) obtain f where f: "f \<in> set (executions ?e)" "exec_le e f" by (auto simp: task_le_def)
  from UpdateExecution_Inr [OF c] assms(4) obtain g where g: "g \<in> set (executions ?e)"
      "updatable (te_id e) (eu_ExpectedStatus up) (int32 (eu_ExpectedAttempt up)) g"
    by auto
  have "g = f" using same_id [OF e(2) g(1) f(1)] g(2) f(2) by (simp add: updatable_def exec_le_def)
  with g(2) f(2) assms(5) show False by (simp add: updatable_def exec_le_def)
qed

lemma task_runs_rely: "(\<And>i s. task_runs s (env i s)) \<Longrightarrow> task_rely env"
  using task_runs_guar by (auto simp: rely_by_def)

text \<open>
  C29: at most one worker owns an attempt: after a successful claim, however the system runs on, no
  other claim of the same or an earlier attempt succeeds, and a worker of an earlier attempt can no
  longer write a result.
\<close>

theorem claim_is_exclusive:
  assumes "task_inv s" and "\<And>i s. task_runs s (env i s)" and "\<And>i s. task_runs s (env' i s)"
    and "ClaimExecution env i a st s = (Inr (), s1)" and "task_runs s1 s2"
  shows "(int32 b \<le> int32 a \<longrightarrow> fst (ClaimExecution env' i b st' s2) \<noteq> Inr ()) \<and>
    (eu_ID up = i \<longrightarrow> int32 (eu_ExpectedAttempt up) < int32 a \<longrightarrow> fst (UpdateExecution env' up s2) \<noteq> Inr ())"
proof -
  have rely: "task_rely env" "task_rely env'" using assms(2,3) by (auto intro: task_runs_rely)
  have s1: "task_inv s1" using guar_store(4) [OF rely(1)] assms(1,4) unfolding guar_by_def by (metis snd_conv)
  then have s2: "task_le s1 s2" "task_inv s2" using task_runs_guar [OF assms(5)] by auto
  from ClaimExecution_Inr [OF assms(4)] obtain e where e: "e \<in> set (executions s1)"
    "parseUUID i = Some (te_id e)" "te_attempt e = int32 a" by auto
  from s2(1) e(1) obtain f where f: "f \<in> set (executions s2)" "exec_le e f" by (auto simp: task_le_def)
  have "parseUUID i = Some (te_id f)" "int32 a \<le> te_attempt f" using e f by (simp_all add: exec_le_def)
  with no_stale_claim [OF s2(2) rely(2) f(1)] no_stale_update [OF s2(2) rely(2) f(1)] show ?thesis
    by (metis order.strict_trans2 order_trans)
qed

text \<open>
  A submission that was accepted with an idempotency key blocks its key: as long as the system
  runs, no submission of the same task type with the same key is accepted again.
\<close>

theorem submission_is_idempotent:
  assumes "task_inv d" and "\<And>i s. task_runs s (env i s)" and "\<And>i s. task_runs s (env' i s)"
    and "Submit env True publisher errText newID now su (d, q) = (Inr ex, (d1, q1))" and "task_runs d1 d2"
    and "su_IdempotencyKey su \<noteq> []" and "su_TaskType su' = su_TaskType su" and "su_IdempotencyKey su' = su_IdempotencyKey su"
  shows "fst (Submit env' True publisher' errText' newID' now' su' (d2, q2)) \<noteq> Inr ex'"
proof
  assume "fst (Submit env' True publisher' errText' newID' now' su' (d2, q2)) = Inr ex'"
  then obtain d3 q3 where s2: "Submit env' True publisher' errText' newID' now' su' (d2, q2) = (Inr ex', (d3, q3))"
    by (metis prod.collapse)
  have rely: "task_rely env" "task_rely env'" using assms(2,3) by (auto intro: task_runs_rely)
  have d1: "task_inv d1" using guar_fst [OF guar2_Submit [OF rely(1)] assms(1,4)] by simp
  have d2: "task_le d1 d2" "task_inv d2" using task_runs_guar [OF assms(5) d1] by auto
  let ?e = "env' (db_calls d2) d2"
  have e: "task_le d2 ?e" using rely(2) d2(2) by (simp add: rely_by_def)
  from Submit_outbox_Inr [OF assms(4) rely(1) assms(1)] obtain d0 where
    "CreateExecutionWithPendingPublish env
        \<lparr>ne_DefinitionID = su_DefinitionID su, ne_TaskType = su_TaskType su, ne_QueueID = newID,
                 ne_IdempotencyKey = su_IdempotencyKey su, ne_Payload = su_Payload su\<rparr>
        \<lparr>po_QueueID = newID, po_MaxRetries = su_MaxRetries su, po_Timeout = su_Timeout su,
                  po_UniqueFor = su_UniqueFor su, po_ProcessAfter = su_ProcessAfter su\<rparr> d = (Inr ex, d0)"
    and le0: "task_le d0 d1" by auto
  from CreatePending_Inr [OF this(1)] obtain row where row: "row \<in> set (executions d0)"
    "te_task_type row = su_TaskType su" "te_idempotency_key row = Some (su_IdempotencyKey su)"
    using assms(6) by (auto simp: nullableText_def)
  have "task_le d0 ?e" using le0 d2(1) e by (meson task_le_trans)
  with row obtain f where f: "f \<in> set (executions ?e)" "te_task_type f = su_TaskType su"
      "te_idempotency_key f = Some (su_IdempotencyKey su)"
    by (auto simp: task_le_def exec_le_def)
  from Submit_outbox_Inr [OF s2 rely(2) d2(2)] obtain d4 where
    "CreateExecutionWithPendingPublish env'
        \<lparr>ne_DefinitionID = su_DefinitionID su', ne_TaskType = su_TaskType su', ne_QueueID = newID',
                 ne_IdempotencyKey = su_IdempotencyKey su', ne_Payload = su_Payload su'\<rparr>
        \<lparr>po_QueueID = newID', po_MaxRetries = su_MaxRetries su', po_Timeout = su_Timeout su',
                  po_UniqueFor = su_UniqueFor su', po_ProcessAfter = su_ProcessAfter su'\<rparr> d2 = (Inr ex', d4)"
    by auto
  from CreatePending_Inr [OF this] f assms(6,7,8) show False by force
qed

section \<open>The outbox loses nothing\<close>

text \<open>
  The contract of the queue: \<open>accepted\<close> is the set of task identifiers it has taken so far. An
  acknowledged task is taken, a conflict on the identifier means that it had been taken before, and
  nothing is forgotten.
\<close>

locale asynq =
  fixes enqueue :: "'q enqueue" and accepted :: "'q \<Rightarrow> string set"
  assumes enqueue_ok: "enqueue ty p opts q = (Inr (), q') \<Longrightarrow> TaskID i \<in> set opts \<Longrightarrow> i \<in> accepted q'"
    and enqueue_conflict: "enqueue ty p opts q = (Inl ErrTaskIDConflict, q') \<Longrightarrow> TaskID i \<in> set opts \<Longrightarrow> i \<in> accepted q'"
    and enqueue_mono: "accepted q \<subseteq> accepted (snd (enqueue ty p opts q))"
begin

lemma Publish_accepted:
  assumes "Publish enqueue marshal qn msg po q = (Inr (), q')" and "po_QueueID po \<noteq> []"
  shows "po_QueueID po \<in> accepted q'"
proof -
  have "TaskID (po_QueueID po) \<in> set (enqueueOptions qn po)" using assms(2) by (simp add: enqueueOptions_def)
  with assms(1) show ?thesis
    by (auto simp: Publish_def split: sum.splits prod.splits enqueue_error.splits
        intro: enqueue_ok enqueue_conflict)
qed

lemma Publish_mono: "accepted q \<subseteq> accepted (snd (Publish enqueue marshal qn msg po q))"
proof (cases "marshal msg")
  case (Inr payload)
  have "snd (Publish enqueue marshal qn msg po q) = snd (enqueue (msg_TaskType msg) payload (enqueueOptions qn po) q)"
    using Inr by (auto simp: Publish_def split: sum.splits prod.splits enqueue_error.splits)
  then show ?thesis using enqueue_mono by metis
qed (simp add: Publish_def)

end

text \<open>A queue that remembers the identifiers it was given satisfies the contract.\<close>

definition set_enqueue :: "string list enqueue" where
  "set_enqueue ty p opts q =
     (let ids = concat (map (\<lambda>x. case x of TaskID i \<Rightarrow> [i] | _ \<Rightarrow> []) opts) in
      if \<exists>i \<in> set ids. i \<in> set q then (if list_all (\<lambda>i. i \<in> set q) ids then (Inl ErrTaskIDConflict, q) else (Inl (EnqueueOther ''mixed''), q))
      else (Inr (), ids @ q))"

interpretation set_queue: asynq set_enqueue set
  by unfold_locales (force simp: set_enqueue_def Let_def list_all_iff split: if_splits)+

text \<open>
  A message may be marked as published only if the queue has taken it or its execution is no longer
  waiting to be queued.
\<close>

definition outbox_safe :: "string set \<Rightarrow> task_db \<Rightarrow> bool" where
  "outbox_safe A d \<longleftrightarrow> (\<forall>m \<in> set (outbox d). ob_queue_id m \<noteq> [] \<and> (ob_published_at m \<noteq> None \<longrightarrow>
     ob_queue_id m \<in> A \<or> (\<exists>e \<in> set (executions d). te_id e = ob_execution_id m \<and> te_status e \<noteq> StatusQueued)))"

text \<open>Interference that keeps the outbox safe for the identifiers taken when the operation starts.\<close>

definition safe_rely :: "string set \<Rightarrow> task_env \<Rightarrow> bool" where
  "safe_rely A env \<longleftrightarrow> task_rely env \<and> (\<forall>B i d. A \<subseteq> B \<longrightarrow> task_inv d \<longrightarrow> outbox_safe B d \<longrightarrow> outbox_safe B (env i d))"

lemma outbox_safe_mono: "outbox_safe A d \<Longrightarrow> A \<subseteq> B \<Longrightarrow> outbox_safe B d"
  by (auto simp: outbox_safe_def)

lemma outbox_safe_cong: "outbox_safe A d \<Longrightarrow> executions d' = executions d \<Longrightarrow> outbox d' = outbox d \<Longrightarrow> outbox_safe A d'"
  by (simp add: outbox_safe_def)

text \<open>The message with the given identifier, if there is one, may be marked.\<close>

definition markable :: "string set \<Rightarrow> string \<Rightarrow> task_db \<Rightarrow> bool" where
  "markable A i d \<longleftrightarrow> i \<in> A \<or>
     (\<exists>m \<in> set (outbox d). ob_queue_id m = i \<and> (\<exists>e \<in> set (executions d). te_id e = ob_execution_id m \<and> te_status e \<noteq> StatusQueued))"

lemma markable_le:
  assumes "markable A i d" and "task_le d d'" and "A \<subseteq> B"
  shows "markable B i d'"
proof (cases "i \<in> A")
  case True
  with assms(3) show ?thesis by (auto simp: markable_def)
next
  case False
  with assms(1) obtain m e where m: "m \<in> set (outbox d)" "ob_queue_id m = i" and e: "e \<in> set (executions d)"
    "te_id e = ob_execution_id m" "te_status e \<noteq> StatusQueued" by (auto simp: markable_def)
  from assms(2) m(1) e(1) obtain n f where n: "n \<in> set (outbox d')" "outbox_le m n" and f: "f \<in> set (executions d')" "exec_le e f"
    unfolding task_le_def by meson
  have "ob_queue_id n = i" "ob_execution_id n = ob_execution_id m"
    using outbox_le_fields [OF n(2)] m(2) by simp_all
  moreover have "te_id f = ob_execution_id m" "te_status f \<noteq> StatusQueued"
    using f(2) e by (auto simp: exec_le_def status_le_def)
  ultimately show ?thesis using n(1) f(1) unfolding markable_def by metis
qed

lemma mark_safe:
  assumes "task_inv d" and "outbox_safe A d" and "markable A i d"
    and "MarkTaskOutboxMessagePublished i d = Inr ((), d')"
  shows "outbox_safe A d'"
proof -
  let ?f = "\<lambda>m. if ob_queue_id m = i \<and> ob_published_at m = None then publish_row (sql_now d) m else m"
  have d': "d' = d\<lparr>outbox := map ?f (outbox d)\<rparr>" using assms(4) by (simp add: MarkTaskOutboxMessagePublished_def)
  have inj: "inj_on ob_queue_id (set (outbox d))" using assms(1) by (simp add: task_inv_def distinct_map)
  have hit: "ob_queue_id m \<in> A \<or>
      (\<exists>e \<in> set (executions d). te_id e = ob_execution_id m \<and> te_status e \<noteq> StatusQueued)"
    if "m \<in> set (outbox d)" "ob_queue_id m = i" for m
    using assms(2,3) that inj unfolding markable_def outbox_safe_def by (metis inj_onD)
  show ?thesis unfolding outbox_safe_def
  proof
    fix n
    assume "n \<in> set (outbox d')"
    then obtain m where m: "m \<in> set (outbox d)" "n = ?f m" by (auto simp: d')
    have d: "executions d' = executions d" by (simp add: d')
    from m(1) assms(2) have "ob_queue_id m \<noteq> [] \<and> (ob_published_at m \<noteq> None \<longrightarrow>
       ob_queue_id m \<in> A \<or> (\<exists>e \<in> set (executions d). te_id e = ob_execution_id m \<and> te_status e \<noteq> StatusQueued))"
      by (simp add: outbox_safe_def)
    with hit [OF m(1)] m(2) show "ob_queue_id n \<noteq> [] \<and> (ob_published_at n \<noteq> None \<longrightarrow>
       ob_queue_id n \<in> A \<or> (\<exists>e \<in> set (executions d'). te_id e = ob_execution_id n \<and> te_status e \<noteq> StatusQueued))"
      unfolding d by (cases "ob_queue_id m = i \<and> ob_published_at m = None") (simp_all add: publish_row_def)
  qed
qed

lemma MarkPublish_safe:
  assumes "task_inv d" and "outbox_safe B d" and "markable B i d" and "safe_rely A env" and "A \<subseteq> B"
  shows "outbox_safe B (snd (MarkPublishSucceeded env i d))"
proof -
  let ?e = "env (db_calls d) d"
  have e: "task_le d ?e" "task_inv ?e" "outbox_safe B ?e"
    using assms by (auto simp: safe_rely_def rely_by_def)
  have mk: "markable B i ?e" using markable_le [OF assms(3) e(1)] by simp
  obtain r t where st: "stmt env (MarkTaskOutboxMessagePublished i) d = (r, t)" by (cases "stmt env (MarkTaskOutboxMessagePublished i) d")
  then have "outbox_safe B t"
  proof (cases rule: stmt_cases)
    case (lost x s')
    then show ?thesis using mark_safe [OF e(2,3) mk] by (auto intro: outbox_safe_cong)
  next
    case (finish x s')
    then show ?thesis using mark_safe [OF e(2,3) mk] by (auto intro: outbox_safe_cong)
  qed (use e(3) in \<open>auto intro: outbox_safe_cong\<close>)
  with st show ?thesis by (simp add: MarkPublishSucceeded_def snd_mapErrE)
qed

lemma pending_rows:
  assumes "r \<in> set (pending_join d)"
  shows "pr_Outbox r \<in> set (outbox d) \<and> ob_published_at (pr_Outbox r) = None \<and>
    (\<exists>e \<in> set (executions d). te_id e = ob_execution_id (pr_Outbox r) \<and> te_status e = pr_ExecutionStatus r)"
  using assms by (auto simp: pending_join_def)

lemma ListPendingPublishes_rows:
  assumes "ListPendingPublishes env l d = (Inr ps, d')" and "p \<in> set ps"
  shows "\<exists>m e. m \<in> set (outbox d') \<and> ob_queue_id m = po_QueueID (pp_Options p) \<and> e \<in> set (executions d') \<and>
    te_id e = ob_execution_id m \<and> te_status e = pp_ExecutionStatus p"
proof -
  obtain r where r: "r \<in> set (pending_join (env (db_calls d) d))" and p: "p = pendingFromRow r"
    and d': "d' = next_call (env (db_calls d) d)"
    using assms by (auto simp: ListPendingPublishes_def bindE_eqs stmt_Inr ListPendingTaskOutboxMessages_def
        split: if_splits dest!: in_set_takeD)
  from pending_rows [OF r] show ?thesis by (auto simp: p d' pendingFromRow_def Let_def)
qed

lemma ListPendingPublishes_safe:
  assumes "safe_rely A env" and "A \<subseteq> B" and "task_inv d" and "outbox_safe B d"
  shows "outbox_safe B (snd (ListPendingPublishes env l d))"
proof -
  let ?e = "env (db_calls d) d"
  have e: "outbox_safe B ?e" using assms by (auto simp: safe_rely_def)
  obtain r t where st: "stmt env (ListPendingTaskOutboxMessages (int32 l)) d = (r, t)"
    by (cases "stmt env (ListPendingTaskOutboxMessages (int32 l)) d")
  then have "outbox_safe B t"
    by (cases rule: stmt_cases)
      (use e in \<open>auto intro: outbox_safe_cong simp: ListPendingTaskOutboxMessages_def split: if_splits\<close>)
  moreover have "snd (ListPendingPublishes env l d) = t"
    using st by (auto simp: ListPendingPublishes_def bindE_def mapErrE_def split: sum.splits)
  ultimately show ?thesis by simp
qed

context asynq
begin

lemma dispatch_loop_safe:
  assumes "task_inv d" and "outbox_safe (accepted q) d" and "safe_rely A env" and "A \<subseteq> accepted q"
    and "\<And>p. p \<in> set ps \<Longrightarrow> po_QueueID (pp_Options p) \<noteq> [] \<and>
      (pp_ExecutionStatus p \<noteq> StatusQueued \<longrightarrow> markable {} (po_QueueID (pp_Options p)) d)"
    and "dispatch_loop env (Publish enqueue marshal qn) ps (d, q) = (r, (d', q'))"
  shows "outbox_safe (accepted q') d'"
  using assms
proof (induction ps arbitrary: d q)
  case Nil
  then show ?case by simp
next
  case (Cons p ps)
  let ?i = "po_QueueID (pp_Options p)"
  have rely: "task_rely env" using Cons.prems(3) by (simp add: safe_rely_def)
  obtain x q1 where pub: "(if pp_ExecutionStatus p = StatusQueued
      then mapErrE (PublishQueued ?i) (on_queue (Publish enqueue marshal qn (pp_Message p) (pp_Options p)))
      else retE ()) (d, q) = (x, (d, q1))" and mono: "accepted q \<subseteq> accepted q1"
    and mk: "x = Inr () \<Longrightarrow> markable (accepted q1) ?i d"
  proof (cases "pp_ExecutionStatus p = StatusQueued")
    case True
    obtain y q2 where y: "Publish enqueue marshal qn (pp_Message p) (pp_Options p) q = (y, q2)"
      by (cases "Publish enqueue marshal qn (pp_Message p) (pp_Options p) q")
    have "accepted q \<subseteq> accepted q2" using Publish_mono [of q marshal qn "pp_Message p" "pp_Options p"] y by simp
    moreover have "y = Inr () \<Longrightarrow> ?i \<in> accepted q2" using Publish_accepted y Cons.prems(5) [of p] by auto
    ultimately show ?thesis
      using True y by (intro that [of "case y of Inl e \<Rightarrow> Inl (PublishQueued ?i e) | Inr z \<Rightarrow> Inr z" q2])
        (auto simp: on_queue_def mapErrE_def markable_def split: sum.splits)
  next
    case False
    then have "markable {} ?i d" using Cons.prems(5) [of p] by simp
    then have "markable (accepted q) ?i d" by (rule markable_le) auto
    with False show ?thesis by (intro that [of "Inr ()" q]) auto
  qed
  have safe: "outbox_safe (accepted q1) d" using Cons.prems(2) mono by (rule outbox_safe_mono)
  show ?case
  proof (cases x)
    case (Inl e)
    then show ?thesis using Cons.prems(6) pub safe by (simp add: bindE_def)
  next
    case (Inr u)
    let ?m = "mapErrE (MarkQueued ?i) (on_db (MarkPublishSucceeded env ?i)) :: (task_db \<times> 'a, dispatch_error, unit) op"
    obtain a d1 where a: "MarkPublishSucceeded env ?i d = (a, d1)" by (cases "MarkPublishSucceeded env ?i d")
    define y where "y = (case a of Inl e \<Rightarrow> Inl (MarkQueued ?i e) | Inr z \<Rightarrow> Inr z)"
    have y: "?m (d, q1) = (y, (d1, q1))" using a by (cases a) (simp_all add: y_def on_db_def mapErrE_def)
    have d1: "d1 = snd (MarkPublishSucceeded env ?i d)" using a by simp
    have A: "A \<subseteq> accepted q1" using Cons.prems(4) mono by auto
    have s1: "outbox_safe (accepted q1) d1"
      using MarkPublish_safe [OF Cons.prems(1) safe mk Cons.prems(3) A] Inr d1 by simp
    have le: "task_le d d1" "task_inv d1"
      using guar_store(6) [OF rely] Cons.prems(1) d1 unfolding guar_by_def by blast+
    show ?thesis
    proof (cases y)
      case (Inl e)
      then show ?thesis using Cons.prems(6) pub Inr y s1 by (simp add: bindE_def)
    next
      case (Inr v)
      have "dispatch_loop env (Publish enqueue marshal qn) ps (d1, q1) = (r, (d', q'))"
        using Cons.prems(6) pub \<open>x = Inr u\<close> y Inr by (simp add: bindE_def)
      then show ?thesis
        using Cons.IH [OF le(2) s1 Cons.prems(3) A] Cons.prems(5) markable_le [OF _ le(1)] by (meson list.set_intros(2) subset_refl)
    qed
  qed
qed

lemma DispatchPending_safe:
  assumes "task_inv d" and "outbox_safe (accepted q) d" and "safe_rely (accepted q) env"
    and "DispatchPending env (Publish enqueue marshal qn) limit (d, q) = (r, (d', q'))"
  shows "outbox_safe (accepted q') d'"
proof -
  have rely: "task_rely env" using assms(3) by (simp add: safe_rely_def)
  obtain x d1 where x: "ListPendingPublishes env limit d = (x, d1)" by (cases "ListPendingPublishes env limit d")
  have d1: "task_inv d1" using guar_store(5) [OF rely] assms(1) x unfolding guar_by_def by (metis snd_conv)
  have s1: "outbox_safe (accepted q) d1"
    using ListPendingPublishes_safe [OF assms(3) subset_refl assms(1,2), of limit] x by simp
  show ?thesis
  proof (cases x)
    case (Inl e)
    then show ?thesis using assms(4) x s1 by (simp add: DispatchPending_def bindE_def mapErrE_def on_db_def)
  next
    case (Inr ps)
    have loop: "dispatch_loop env (Publish enqueue marshal qn) ps (d1, q) = (r, (d', q'))"
      using assms(4) x Inr by (simp add: DispatchPending_def bindE_def mapErrE_def on_db_def)
    have "po_QueueID (pp_Options p) \<noteq> [] \<and> (pp_ExecutionStatus p \<noteq> StatusQueued \<longrightarrow> markable {} (po_QueueID (pp_Options p)) d1)"
      if "p \<in> set ps" for p
      using ListPendingPublishes_rows [of env limit d ps d1 p] x Inr that s1
      unfolding markable_def outbox_safe_def by metis
    then show ?thesis using dispatch_loop_safe [OF d1 s1 assms(3) subset_refl _ loop] by blast
  qed
qed

end

text \<open>
  C30: a pass of the outbox dispatcher, whatever fails in it and whatever other processes do to the
  tables meanwhile, never marks a message as published that the queue has not taken, unless its
  execution has already left the queued state. Relied on of the other processes (\<open>safe_rely\<close>): their moves keep the
  invariant of the tables and only advance them, and they mark only messages that the queue had taken when the pass
  started, that the pass itself has handed over, or whose execution has left the queued state. Not covered is a message
  that a second dispatcher hands over and marks during the pass: that one is the pass of the second dispatcher.
\<close>

theorem dispatch_loses_nothing:
  assumes "asynq enqueue accepted" and "task_inv d" and "outbox_safe (accepted q) d" and "safe_rely (accepted q) env"
    and "DispatchPending env (Publish enqueue marshal qn) limit (d, q) = (r, (d', q'))"
  shows "outbox_safe (accepted q') d'"
  by (rule asynq.DispatchPending_safe [OF assms])

section \<open>Draining the outbox\<close>

definition unpublished :: "task_db \<Rightarrow> string set" where
  "unpublished d = ob_queue_id ` {m \<in> set (outbox d). ob_published_at m = None}"

lemma Mark_quiet:
  assumes "db_fault d = (\<lambda>_. Delivered)"
  shows "\<exists>d'. MarkPublishSucceeded quiet i d = (Inr (), d') \<and> db_fault d' = (\<lambda>_. Delivered) \<and>
    unpublished d' = unpublished d - {i}"
proof -
  let ?f = "\<lambda>m. if ob_queue_id m = i \<and> ob_published_at m = None then publish_row (sql_now d) m else m"
  have "MarkPublishSucceeded quiet i d = (Inr (), next_call (d\<lparr>outbox := map ?f (outbox d)\<rparr>))"
    using assms by (simp add: MarkPublishSucceeded_def stmt_def quiet_def MarkTaskOutboxMessagePublished_def mapErrE_def)
  moreover have "unpublished (next_call (d\<lparr>outbox := map ?f (outbox d)\<rparr>)) = unpublished d - {i}"
  proof -
    have "{m \<in> set (map ?f (outbox d)). ob_published_at m = None} =
        {m \<in> set (outbox d). ob_published_at m = None \<and> ob_queue_id m \<noteq> i}"
      by (auto simp: publish_row_def split: if_splits)
    then show ?thesis by (auto simp: unpublished_def)
  qed
  ultimately show ?thesis using assms by (simp add: next_call_def)
qed

text \<open>The queue after the messages of queued executions were handed to it, one after the other.\<close>

definition handed_over :: "('q, publish_error) publisher \<Rightarrow> PendingPublish list \<Rightarrow> 'q \<Rightarrow> 'q" where
  "handed_over publish ps q =
     foldl (\<lambda>q p. snd (publish (pp_Message p) (pp_Options p) q)) q (filter (\<lambda>p. pp_ExecutionStatus p = StatusQueued) ps)"

lemma dispatch_loop_drains:
  assumes "\<And>m po q. fst (publish m po q) = Inr ()" and "db_fault d = (\<lambda>_. Delivered)"
  shows "\<exists>d'. dispatch_loop quiet publish ps (d, q) = (Inr (), (d', handed_over publish ps q)) \<and>
    unpublished d' = unpublished d - set (map (\<lambda>p. po_QueueID (pp_Options p)) ps)"
  using assms(2)
proof (induction ps arbitrary: d q)
  case (Cons p ps)
  let ?i = "po_QueueID (pp_Options p)"
  let ?q = "if pp_ExecutionStatus p = StatusQueued then snd (publish (pp_Message p) (pp_Options p) q) else q"
  have one: "(if pp_ExecutionStatus p = StatusQueued
      then mapErrE (PublishQueued ?i) (on_queue (publish (pp_Message p) (pp_Options p)))
      else retE ()) (d, q) = (Inr (), (d, ?q))"
    using assms(1) [of "pp_Message p" "pp_Options p" q]
    by (cases "publish (pp_Message p) (pp_Options p) q") (auto simp: on_queue_def mapErrE_def)
  obtain d1 where d1: "MarkPublishSucceeded quiet ?i d = (Inr (), d1)" "db_fault d1 = (\<lambda>_. Delivered)"
    "unpublished d1 = unpublished d - {?i}" using Mark_quiet [OF Cons.prems] by blast
  obtain d2 where "dispatch_loop quiet publish ps (d1, ?q) = (Inr (), (d2, handed_over publish ps ?q))"
    "unpublished d2 = unpublished d1 - set (map (\<lambda>p. po_QueueID (pp_Options p)) ps)"
    using Cons.IH [OF d1(2), of ?q] by blast
  then show ?case using one d1 by (auto simp: bindE_def mapErrE_def on_db_def handed_over_def)
qed (simp add: handed_over_def)

context asynq
begin

lemma handed_over_mono: "accepted q \<subseteq> accepted (handed_over (Publish enqueue marshal qn) ps q)"
proof (induction ps arbitrary: q)
  case (Cons p ps)
  then show ?case using Publish_mono [of q marshal qn "pp_Message p" "pp_Options p"] unfolding handed_over_def
    by simp (meson subset_trans)
qed (simp add: handed_over_def)

lemma handed_over_accepted:
  assumes "\<And>m po q. fst (Publish enqueue marshal qn m po q) = Inr ()"
    and "p \<in> set ps" and "pp_ExecutionStatus p = StatusQueued" and "po_QueueID (pp_Options p) \<noteq> []"
  shows "po_QueueID (pp_Options p) \<in> accepted (handed_over (Publish enqueue marshal qn) ps q)"
  using assms(2)
proof (induction ps arbitrary: q)
  case (Cons x ps)
  let ?q = "\<lambda>x. snd (Publish enqueue marshal qn (pp_Message x) (pp_Options x) q)"
  show ?case
  proof (cases "x = p")
    case True
    have "Publish enqueue marshal qn (pp_Message p) (pp_Options p) q = (Inr (), ?q p)" using assms(1) by (simp add: prod_eq_iff)
    from Publish_accepted [OF this assms(4)] handed_over_mono [of "?q p" marshal qn ps] show ?thesis
      using True assms(3) by (auto simp: handed_over_def)
  next
    case False
    then have "p \<in> set ps" using Cons.prems by simp
    from Cons.IH [OF this, of "if pp_ExecutionStatus x = StatusQueued then ?q x else q"] show ?thesis by (simp add: handed_over_def split: if_splits)
  qed
qed simp

end

lemma pending_join_covers:
  assumes "task_inv d" and "m \<in> set (outbox d)" and "ob_published_at m = None"
  shows "\<exists>r \<in> set (pending_join d). pr_Outbox r = m"
proof -
  have "ob_execution_id m \<in> te_id ` set (executions d)" using assms(1,2) by (auto simp: task_inv_def)
  then obtain e where e: "e \<in> set (executions d)" "te_id e = ob_execution_id m" by (metis imageE)
  let ?r = "\<lparr>pr_ExecutionID = ob_execution_id m, pr_ExecutionStatus = te_status e, pr_Outbox = m\<rparr>"
  have "?r \<in> set (pending_join d)" using assms(2,3) e by (auto simp: pending_join_def)
  then show ?thesis by (rule bexI [rotated]) simp
qed

text \<open>
  C32: when nothing fails, the queue takes every message and the batch is large enough for what is pending (the loop
  passes 100), one pass of the dispatcher succeeds and leaves no message unpublished. It has handed exactly the messages
  of queued executions to the queue, each once, oldest first and with its own options, so every message that was pending
  for a queued execution is one that the queue has accepted.
\<close>

theorem dispatch_drains_outbox:
  assumes "asynq enqueue accepted" and "task_inv d" and "\<forall>m \<in> set (outbox d). ob_queue_id m \<noteq> []"
    and "db_fault d = (\<lambda>_. Delivered)" and "\<And>m po q. fst (Publish enqueue marshal qn m po q) = Inr ()"
    and "int (length (pending_join d)) \<le> limit" and "limit < 2 ^ 31"
    and run: "DispatchPending quiet (Publish enqueue marshal qn) limit (d, q) = (r, (d', q'))"
  shows "r = Inr () \<and> (\<forall>m \<in> set (outbox d'). ob_published_at m \<noteq> None) \<and>
    q' = foldl (\<lambda>q p. snd (Publish enqueue marshal qn (pp_Message p) (pp_Options p) q)) q
      (filter (\<lambda>p. pp_ExecutionStatus p = StatusQueued) (map pendingFromRow (pending_join d))) \<and>
    (\<forall>m \<in> set (outbox d). \<forall>e \<in> set (executions d).
       ob_published_at m = None \<and> te_id e = ob_execution_id m \<and> te_status e = StatusQueued \<longrightarrow> ob_queue_id m \<in> accepted q')"
proof -
  let ?ps = "map pendingFromRow (pending_join d)"
  have lim: "int32 limit = limit" "0 \<le> limit" using assms(6,7) by (auto intro!: int32_id)
  have list: "ListPendingPublishes quiet limit d = (Inr ?ps, next_call d)"
    using assms(4,6) lim by (simp add: ListPendingPublishes_def bindE_def mapErrE_def stmt_def quiet_def
        ListPendingTaskOutboxMessages_def)
  have fault: "db_fault (next_call d) = (\<lambda>_. Delivered)" using assms(4) by (simp add: next_call_def)
  from dispatch_loop_drains [of "Publish enqueue marshal qn", OF assms(5) fault, of ?ps q] obtain d1 where
    loop: "dispatch_loop quiet (Publish enqueue marshal qn) ?ps (next_call d, q) = (Inr (), (d1, handed_over (Publish enqueue marshal qn) ?ps q))"
    and un: "unpublished d1 = unpublished (next_call d) - set (map (\<lambda>p. po_QueueID (pp_Options p)) ?ps)" by blast
  from loop list run have fin: "r = Inr ()" "d' = d1" "q' = handed_over (Publish enqueue marshal qn) ?ps q"
    by (simp_all add: DispatchPending_def bindE_def mapErrE_def on_db_def)
  have "unpublished (next_call d) \<subseteq> set (map (\<lambda>p. po_QueueID (pp_Options p)) ?ps)"
    using pending_join_covers [OF assms(2)] by (force simp: unpublished_def pendingFromRow_def Let_def)
  with un have "unpublished d' = {}" unfolding fin(2) by blast
  then have marked: "\<forall>m \<in> set (outbox d'). ob_published_at m \<noteq> None" by (auto simp: unpublished_def)
  have taken: "ob_queue_id m \<in> accepted q'"
    if "m \<in> set (outbox d)" "e \<in> set (executions d)" "ob_published_at m = None" "te_id e = ob_execution_id m" "te_status e = StatusQueued" for m e
  proof -
    let ?p = "pendingFromRow \<lparr>pr_ExecutionID = ob_execution_id m, pr_ExecutionStatus = te_status e, pr_Outbox = m\<rparr>"
    have "?p \<in> set ?ps" using that by (force simp: pending_join_def)
    moreover have "pp_ExecutionStatus ?p = StatusQueued" "po_QueueID (pp_Options ?p) = ob_queue_id m"
      using that by (simp_all add: pendingFromRow_def Let_def)
    ultimately show ?thesis
      using asynq.handed_over_accepted [OF assms(1,5), of ?p ?ps q] assms(3) that(1) unfolding fin(3) by simp
  qed
  show ?thesis using fin(1) marked taken unfolding fin(3) handed_over_def by blast
qed

section \<open>What a submission stores\<close>

lemma seconds_roundtrip: "0 \<le> d \<Longrightarrow> d \<le> MaxSubmissionProcessAfter \<Longrightarrow> int64 (seconds32 d * Second) = d - d mod Second"
proof -
  assume d: "0 \<le> d" "d \<le> MaxSubmissionProcessAfter"
  have "d div Second * Second = d - d mod Second" by (simp add: minus_mod_eq_div_mult)
  moreover have "0 \<le> d mod Second" "d mod Second \<le> d" using d(1) by (simp_all add: Second_def zmod_le_nonneg_dividend)
  moreover have "d < 2 ^ 63" using d(2) by (simp add: submission_bounds)
  ultimately show ?thesis using seconds32_exact [OF d] by (simp add: int64_id)
qed

text \<open>
  An accepted submission has a new execution row with its type, key, definition and payload, as PostgreSQL normalises
  it, and an outbox row for it. What the dispatcher later reads back from the outbox are the message for this execution
  and the submitted options, with the durations rounded down to whole seconds: no bound or conversion to 32 bits changes
  them otherwise. The execution that is returned says the same.
\<close>

theorem submission_stored_exactly:
  assumes "Submit env True publisher errText newID now su (d, q) = (Inr ex, (d', q'))" and "task_rely env" and "task_inv d"
  shows "\<exists>row m. row \<in> set (executions d') \<and> m \<in> set (outbox d') \<and> te_id row \<notin> te_id ` set (executions d) \<and>
    ex_ID ex = formatUUID (Some (te_id row)) \<and> te_task_type row = su_TaskType su \<and> te_idempotency_key row = nullableText (su_IdempotencyKey su) \<and>
    nullableUUID (su_DefinitionID su) = Some (te_definition_id row) \<and> jsonb (env (db_calls d) d) (su_Payload su) = Some (te_payload row) \<and>
    ex_TaskType ex = su_TaskType su \<and> ex_IdempotencyKey ex = su_IdempotencyKey su \<and> ex_DefinitionID ex = formatUUID (te_definition_id row) \<and>
    ex_Payload ex = te_payload row \<and> ex_Status ex = StatusQueued \<and>
    ob_execution_id m = te_id row \<and>
    pp_Message (pendingFromRow \<lparr>pr_ExecutionID = te_id row, pr_ExecutionStatus = te_status row, pr_Outbox = m\<rparr>) =
      \<lparr>msg_ExecutionID = ex_ID ex, msg_TaskType = su_TaskType su, msg_Payload = te_payload row\<rparr> \<and>
    (let po = pp_Options (pendingFromRow \<lparr>pr_ExecutionID = te_id row, pr_ExecutionStatus = te_status row, pr_Outbox = m\<rparr>) in
     po_QueueID po = newID \<and> po_MaxRetries po = su_MaxRetries su \<and>
     po_Timeout po = su_Timeout su - su_Timeout su mod Second \<and>
     po_UniqueFor po = su_UniqueFor su - su_UniqueFor su mod Second \<and>
     po_ProcessAfter po = su_ProcessAfter su - su_ProcessAfter su mod Second)"
proof -
  from Submit_outbox_Inr [OF assms] obtain d1 where ok: "ValidateSubmission su = None" and le: "task_le d1 d'"
    and c: "CreateExecutionWithPendingPublish env
        \<lparr>ne_DefinitionID = su_DefinitionID su, ne_TaskType = su_TaskType su, ne_QueueID = newID,
                 ne_IdempotencyKey = su_IdempotencyKey su, ne_Payload = su_Payload su\<rparr>
        \<lparr>po_QueueID = newID, po_MaxRetries = su_MaxRetries su, po_Timeout = su_Timeout su,
                  po_UniqueFor = su_UniqueFor su, po_ProcessAfter = su_ProcessAfter su\<rparr> d = (Inr ex, d1)" by auto
  from CreatePending_Inr [OF c] obtain row m where r: "ex = executionFromRow row" "row \<in> set (executions d1)"
    "te_id row \<notin> te_id ` set (executions (env (db_calls d) d))" "te_task_type row = su_TaskType su"
    "te_idempotency_key row = nullableText (su_IdempotencyKey su)" "nullableUUID (su_DefinitionID su) = Some (te_definition_id row)"
    "jsonb (env (db_calls d) d) (su_Payload su) = Some (te_payload row)" "te_status row = StatusQueued" and m: "m \<in> set (outbox d1)"
    "ob_execution_id m = te_id row" "ob_queue_id m = newID" "ob_max_retries m = int32 (su_MaxRetries su)"
    "ob_timeout_seconds m = seconds32 (su_Timeout su)" "ob_unique_for_seconds m = seconds32 (su_UniqueFor su)"
    "ob_process_after_seconds m = seconds32 (su_ProcessAfter su)" "ob_task_type m = su_TaskType su" "ob_payload m = te_payload row" by auto
  from le r(2) m(1) obtain row' m' where r': "row' \<in> set (executions d')" "exec_le row row'"
    and m': "m' \<in> set (outbox d')" "outbox_le m m'" unfolding task_le_def by meson
  have id: "te_id row' = te_id row" "te_task_type row' = te_task_type row" "te_idempotency_key row' = te_idempotency_key row"
    "te_definition_id row' = te_definition_id row" "te_payload row' = te_payload row"
    using r'(2) by (simp_all add: exec_le_def)
  have "task_le d (env (db_calls d) d)" using assms(2,3) by (simp add: rely_by_def)
  then have "te_id ` set (executions d) \<subseteq> te_id ` set (executions (env (db_calls d) d))"
    unfolding task_le_def exec_le_def by (metis (no_types, lifting) image_eqI image_subsetI)
  then have fresh: "te_id row' \<notin> te_id ` set (executions d)" using r(3) id by auto
  have b: "0 \<le> su_MaxRetries su" "su_MaxRetries su \<le> 25" "0 \<le> su_Timeout su" "su_Timeout su \<le> MaxSubmissionProcessAfter"
    "0 \<le> su_UniqueFor su" "su_UniqueFor su \<le> MaxSubmissionProcessAfter" "0 \<le> su_ProcessAfter su"
    "su_ProcessAfter su \<le> MaxSubmissionProcessAfter"
    using ok by (auto simp: ValidateSubmission_def submission_bounds split: if_splits)
  have "int32 (su_MaxRetries su) = su_MaxRetries su" using b by (intro int32_id) auto
  with outbox_le_fields [OF m'(2)] m id r(1,4-8) fresh b show ?thesis
    by (intro exI [of _ row'] exI [of _ m'])
      (simp add: pendingFromRow_def Let_def seconds_roundtrip executionFromRow_def r'(1) m'(1))
qed

section \<open>Witnesses\<close>

lemma quiet_runs: "task_runs s (quiet i s)"
  by (simp add: quiet_def task_runs.none)

lemma sample_runs: "task_runs sample_db submitted_db"
proof -
  have "task_runs sample_db (fst (snd (Submit quiet True (None :: (nat, publish_error) publisher option)
      (\<lambda>_. []) ''q1'' 5 sample_submission (sample_db, 0))))"
    by (rule task_runs.submit) (rule quiet_runs)
  then show ?thesis by (simp add: sample_submit)
qed

definition claimed_db :: task_db where
  "claimed_db = snd (ClaimExecution quiet (msg_ExecutionID sample_msg) 1 8 submitted_db)"

lemma sample_claim: "ClaimExecution quiet (msg_ExecutionID sample_msg) 1 8 submitted_db = (Inr (), claimed_db)"
proof -
  have "fst (ClaimExecution quiet (msg_ExecutionID sample_msg) 1 8 submitted_db) = Inr ()"
    by (simp add: ClaimExecution_def sample_msg_def sample_parse bindE_def mapErrE_def stmt_def quiet_def
        submitted_db_def sample_db_def next_call_def sample_row_def ClaimTaskExecution_def claimable_def sample_seconds Let_def)
  then show ?thesis unfolding claimed_db_def by (metis prod.collapse)
qed

theorem task_executions_only_advance_witness:
  "\<exists>f \<in> set (executions (fst (snd sample_run))). te_id f = te_id sample_row \<and> te_attempt sample_row \<le> te_attempt f"
proof -
  let ?d = "fst (snd (Process quiet sample_handlers None 8 9 sample_msg 1 (submitted_db, [])
      :: (publish_error task_error + unit) \<times> (task_db \<times> observations)))"
  have run: "task_runs submitted_db ?d" by (rule task_runs.claim_process) (rule quiet_runs)
  have "sample_row \<in> set (executions submitted_db)" by (simp add: submitted_db_def)
  from task_executions_only_advance [OF run sample_inv(2) this]
  have "\<exists>f \<in> set (executions ?d). te_id f = te_id sample_row \<and> te_attempt sample_row \<le> te_attempt f" by blast
  moreover have "?d = fst (snd sample_run)"
    unfolding sample_run_def Process_def
    by (simp add: GetExecution_def ClaimExecution_def UpdateExecution_def sample_msg_def sample_parse bindE_def mapErrE_def
      on_db_def observe_def on_queue_def stmt_def quiet_def submitted_db_def sample_db_def next_call_def
      GetTaskExecution_def sample_row_def executionFromRow_def ValidateTransition_def Resolve_def sample_handlers_def
      ClaimTaskExecution_def claimable_def claim_row_def UpdateTaskExecutionStatus_def updatable_def update_row_def
      ParseStatus_def sample_seconds Let_def)
  ultimately show ?thesis by metis
qed

theorem claim_is_exclusive_witness:
  "fst (ClaimExecution quiet (msg_ExecutionID sample_msg) 1 9 claimed_db) \<noteq> Inr ()"
  using claim_is_exclusive [of submitted_db quiet quiet, OF sample_inv(2) quiet_runs quiet_runs sample_claim task_runs.none, of 1 9]
  by blast

theorem submission_is_idempotent_witness:
  "fst (Submit quiet True (None :: (nat, publish_error) publisher option) (\<lambda>_. []) ''q2'' 6 sample_submission
     (submitted_db, 0)) \<noteq> Inr (executionFromRow sample_row)"
proof -
  have "su_IdempotencyKey sample_submission \<noteq> []" by (simp add: sample_submission_def)
  from submission_is_idempotent [OF sample_inv(1) quiet_runs quiet_runs sample_submit task_runs.none this refl refl]
  show ?thesis .
qed

lemma sample_outbox_safe: "outbox_safe A submitted_db"
  by (simp add: outbox_safe_def submitted_db_def sample_message_def)

lemma quiet_safe_rely: "safe_rely A quiet"
  by (simp add: safe_rely_def quiet_rely quiet_def)

theorem dispatch_loses_nothing_witness:
  "case DispatchPending quiet (Publish set_enqueue (\<lambda>_. Inr ''m'') ''default'') 100 (submitted_db, []) of
     (r, (d', q')) \<Rightarrow> outbox_safe (set q') d'"
proof -
  obtain r d' q' where "DispatchPending quiet (Publish set_enqueue (\<lambda>_. Inr ''m'') ''default'') 100 (submitted_db, []) = (r, (d', q'))"
    by (metis prod.collapse)
  with dispatch_loses_nothing [OF set_queue.asynq_axioms sample_inv(2) sample_outbox_safe quiet_safe_rely this]
  show ?thesis by simp
qed

lemma set_publish_ok: "fst (Publish set_enqueue (\<lambda>_. Inr ''m'') qn m po q) = Inr ()"
  by (auto simp: Publish_def set_enqueue_def enqueueOptions_def Let_def split: prod.splits sum.splits enqueue_error.splits if_splits)

theorem dispatch_drains_outbox_witness:
  "\<exists>d' q'. DispatchPending quiet (Publish set_enqueue (\<lambda>_. Inr ''m'') ''default'') 100 (submitted_db, []) = (Inr (), (d', q')) \<and>
     ob_queue_id sample_message \<in> set q'"
proof -
  obtain r d' q' where run: "DispatchPending quiet (Publish set_enqueue (\<lambda>_. Inr ''m'') ''default'') 100 (submitted_db, []) = (r, (d', q'))"
    by (metis prod.collapse)
  have "length (pending_join submitted_db) = 1"
    by (simp add: pending_join_def submitted_db_def sample_message_def sample_row_def)
  then have "int (length (pending_join submitted_db)) \<le> 100" by simp
  from dispatch_drains_outbox [OF set_queue.asynq_axioms sample_inv(2) _ _ set_publish_ok this _ run] run
  show ?thesis
    by (auto simp: submitted_db_def sample_db_def sample_message_def sample_row_def)
qed

theorem submission_stored_exactly_witness:
  "\<exists>row m. row \<in> set (executions submitted_db) \<and> m \<in> set (outbox submitted_db) \<and> ob_execution_id m = te_id row"
  using submission_stored_exactly [OF sample_submit quiet_rely sample_inv(1)] by metis

end
