(* ===== verification/Iam_Db.thy ===== *)
theory Iam_Db
  imports Database
begin

text \<open>
  The identity tables (\<open>src/pkg/migrations/000001_identity.up.sql\<close>, \<open>000007_user_preferences.up.sql\<close>,
  \<open>000008_role_system_protection.up.sql\<close>, \<open>000009_authentication.up.sql\<close>) and the queries on them:
  \<open>users.sql.go\<close>, \<open>rbac.sql.go\<close>, \<open>preferences.sql.go\<close> and \<open>authentication.sql.go\<close> of
  \<open>src/pkg/platform/database/dbgen\<close>. A query returns a driver error or its result and the new tables.
\<close>

section \<open>Rows and tables\<close>

record UserRow =
  us_id :: string
  us_email :: string
  us_username :: string
  us_password_hash :: string
  us_display_name :: string
  us_is_active :: bool
  us_created_at :: int
  us_updated_at :: int
  us_email_verified_at :: "int option"

record RoleRow =
  ro_id :: string
  ro_name :: string
  ro_description :: string
  ro_created_at :: int
  ro_updated_at :: int
  ro_is_system :: bool

record PermissionRow =
  pe_id :: string
  pe_name :: string
  pe_description :: string
  pe_created_at :: int

record UserPreferenceRow =
  up_user_id :: string
  up_theme :: string
  up_color_mode :: string
  up_accent_color :: "string option"
  up_font_scale :: string
  up_radius_scale :: string
  up_created_at :: int
  up_updated_at :: int

record AuthenticationSettingRow =
  as_password_login_enabled :: bool
  as_registration_enabled :: bool
  as_registration_email_verification_required :: bool
  as_allowed_email_domains :: "string list"
  as_bootstrap_admin_user_id :: "string option"
  as_initialized_at :: "int option"

record UserSecuritySettingRow =
  ss_user_id :: string
  ss_mode :: string
  ss_totp_secret :: "string option"
  ss_pending_secret :: "string option"
  ss_pending_expires_at :: "int option"
  ss_last_totp_step :: int
  ss_recovery_hashes :: "string list"
  ss_recovery_codes_expires_at :: "int option"
  ss_version :: int

text \<open>\<open>ilike text pattern\<close> is the database's case-insensitive pattern match.\<close>

record iam_db = db_env +
  ilike :: "string \<Rightarrow> string \<Rightarrow> bool"
  users :: "UserRow list"
  roles :: "RoleRow list"
  permissions :: "PermissionRow list"
  user_roles :: "(string \<times> string) list"
  role_permissions :: "(string \<times> string) list"
  preferences :: "UserPreferenceRow list"
  settings :: "AuthenticationSettingRow list"
  security :: "UserSecuritySettingRow list"
  consumptions :: "(string \<times> int) list"

type_synonym iam_env = "nat \<Rightarrow> iam_db \<Rightarrow> iam_db"

type_synonym 'a iam_query = "iam_db \<Rightarrow> pg_error + 'a \<times> iam_db"

definition one :: "('a \<Rightarrow> bool) \<Rightarrow> 'a list \<Rightarrow> iam_db \<Rightarrow> pg_error + 'a \<times> iam_db" where
  "one P xs s = (case find P xs of None \<Rightarrow> Inl ErrNoRows | Some x \<Rightarrow> Inr (x, s))"

section \<open>Users\<close>

definition GetUserByEmail :: "string \<Rightarrow> UserRow iam_query" where
  "GetUserByEmail email s = one (\<lambda>u. us_email u = email) (users s) s"

definition GetUserByID :: "string \<Rightarrow> UserRow iam_query" where
  "GetUserByID i s = one (\<lambda>u. us_id u = i) (users s) s"

definition user_matches :: "string option \<Rightarrow> bool option \<Rightarrow> iam_db \<Rightarrow> UserRow \<Rightarrow> bool" where
  "user_matches q active s u \<longleftrightarrow>
     (case q of None \<Rightarrow> True
      | Some p \<Rightarrow> (let pat = ''%'' @ p @ ''%'' in
          ilike s (us_email u) pat \<or> ilike s (us_username u) pat \<or> ilike s (us_display_name u) pat)) \<and>
     (case active of None \<Rightarrow> True | Some a \<Rightarrow> us_is_active u = a)"

definition ListUsers :: "string option \<Rightarrow> bool option \<Rightarrow> int \<Rightarrow> int \<Rightarrow> UserRow list iam_query" where
  "ListUsers q active offset limit s =
     (if limit < 0 then Inl (PgError ''2201W'') else if offset < 0 then Inl (PgError ''2201X'')
      else Inr (take (nat limit) (drop (nat offset)
        (rev (sort_key (\<lambda>u. (us_created_at u, us_id u)) (filter (user_matches q active s) (users s))))), s))"

definition CountUsers :: "string option \<Rightarrow> bool option \<Rightarrow> int iam_query" where
  "CountUsers q active s = Inr (int (length (filter (user_matches q active s) (users s))), s)"

definition CreateUser :: "string \<Rightarrow> string \<Rightarrow> string \<Rightarrow> string \<Rightarrow> UserRow iam_query" where
  "CreateUser email username passwordHash displayName s =
     (if blank email \<or> blank username \<or> blank passwordHash then Inl (PgError ''23514'')
      else if sql_uuid s \<in> us_id ` set (users s) \<or> email \<in> us_email ` set (users s) \<or> username \<in> us_username ` set (users s)
      then Inl (PgError ''23505'')
      else let u = \<lparr>us_id = sql_uuid s, us_email = email, us_username = username, us_password_hash = passwordHash,
                    us_display_name = displayName, us_is_active = True, us_created_at = sql_now s,
                    us_updated_at = sql_now s, us_email_verified_at = None\<rparr>
           in Inr (u, s\<lparr>users := users s @ [u]\<rparr>))"

definition SetUserActive :: "string \<Rightarrow> bool \<Rightarrow> int iam_query" where
  "SetUserActive i active s =
     Inr (int (length (filter (\<lambda>u. us_id u = i) (users s))),
       s\<lparr>users := map (\<lambda>u. if us_id u = i then u\<lparr>us_is_active := active, us_updated_at := sql_now s\<rparr> else u) (users s)\<rparr>)"

definition UpdateUserPassword :: "string \<Rightarrow> string \<Rightarrow> int iam_query" where
  "UpdateUserPassword i hash s =
     (if i \<in> us_id ` set (users s) \<and> blank hash then Inl (PgError ''23514'')
      else Inr (int (length (filter (\<lambda>u. us_id u = i) (users s))),
       s\<lparr>users := map (\<lambda>u. if us_id u = i then u\<lparr>us_password_hash := hash, us_updated_at := sql_now s\<rparr> else u) (users s)\<rparr>))"

text \<open>The new address counts as verified only if it is the verified one.\<close>

definition profile_row :: "string \<Rightarrow> string \<Rightarrow> string \<Rightarrow> int \<Rightarrow> UserRow \<Rightarrow> UserRow" where
  "profile_row email username displayName now u =
     u\<lparr>us_email_verified_at := (if us_email u = email then us_email_verified_at u else None), us_email := email,
       us_username := username, us_display_name := displayName, us_updated_at := now\<rparr>"

definition UpdateUserProfile :: "string \<Rightarrow> string \<Rightarrow> string \<Rightarrow> string \<Rightarrow> UserRow iam_query" where
  "UpdateUserProfile i email username displayName s =
     (case find (\<lambda>u. us_id u = i) (users s) of
        None \<Rightarrow> Inl ErrNoRows
      | Some u \<Rightarrow>
          if blank email \<or> blank username then Inl (PgError ''23514'')
          else if \<exists>v \<in> set (users s). us_id v \<noteq> i \<and> (us_email v = email \<or> us_username v = username)
          then Inl (PgError ''23505'')
          else let f = profile_row email username displayName (sql_now s) in
               Inr (f u, s\<lparr>users := map (\<lambda>v. if us_id v = i then f v else v) (users s)\<rparr>))"

definition MarkEmailVerified :: "string \<Rightarrow> UserRow iam_query" where
  "MarkEmailVerified i s =
     (case find (\<lambda>u. us_id u = i) (users s) of
        None \<Rightarrow> Inl ErrNoRows
      | Some u \<Rightarrow> let f = (\<lambda>v. v\<lparr>us_email_verified_at := Some (sql_now s)\<rparr>) in
          Inr (f u, s\<lparr>users := map (\<lambda>v. if us_id v = i then f v else v) (users s)\<rparr>))"

section \<open>Roles and permissions\<close>

definition GetRoleByID :: "string \<Rightarrow> RoleRow iam_query" where
  "GetRoleByID i s = one (\<lambda>r. ro_id r = i) (roles s) s"

definition GetRoleByName :: "string \<Rightarrow> RoleRow iam_query" where
  "GetRoleByName n s = one (\<lambda>r. ro_name r = n) (roles s) s"

definition is_admin_role :: "RoleRow \<Rightarrow> bool" where
  "is_admin_role r \<longleftrightarrow> ro_name r = ''admin'' \<and> ro_is_system r"

definition GetSystemAdminRole :: "RoleRow iam_query" where
  "GetSystemAdminRole s = one is_admin_role (roles s) s"

text \<open>As \<open>GetSystemAdminRole\<close>, taking the row's lock.\<close>

definition LockSystemAdminRole :: "RoleRow iam_query" where
  "LockSystemAdminRole s = one is_admin_role (roles s) s"

definition GetPermissionByID :: "string \<Rightarrow> PermissionRow iam_query" where
  "GetPermissionByID i s = one (\<lambda>p. pe_id p = i) (permissions s) s"

definition GetPermissionByName :: "string \<Rightarrow> PermissionRow iam_query" where
  "GetPermissionByName n s = one (\<lambda>p. pe_name p = n) (permissions s) s"

definition ListRoles :: "RoleRow list iam_query" where
  "ListRoles s = Inr (sort_key (\<lambda>r. collate_key s (ro_name r)) (roles s), s)"

definition ListRolesForUser :: "string \<Rightarrow> RoleRow list iam_query" where
  "ListRolesForUser u s =
     Inr (sort_key (\<lambda>r. collate_key s (ro_name r)) (filter (\<lambda>r. (u, ro_id r) \<in> set (user_roles s)) (roles s)), s)"

definition ListPermissions :: "PermissionRow list iam_query" where
  "ListPermissions s = Inr (sort_key (\<lambda>p. collate_key s (pe_name p)) (permissions s), s)"

definition ListRolePermissions :: "string \<Rightarrow> PermissionRow list iam_query" where
  "ListRolePermissions r s =
     Inr (sort_key (\<lambda>p. collate_key s (pe_name p)) (filter (\<lambda>p. (r, pe_id p) \<in> set (role_permissions s)) (permissions s)), s)"

definition granted :: "iam_db \<Rightarrow> string \<Rightarrow> PermissionRow \<Rightarrow> bool" where
  "granted s u p \<longleftrightarrow>
     (\<exists>ur \<in> set (user_roles s). fst ur = u \<and> (snd ur, pe_id p) \<in> set (role_permissions s)) \<and>
     (\<exists>v \<in> set (users s). us_id v = u \<and> us_is_active v)"

definition ListUserPermissions :: "string \<Rightarrow> string list iam_query" where
  "ListUserPermissions u s =
     Inr (sort_key (collate_key s) (remdups (map pe_name (filter (granted s u) (permissions s)))), s)"

definition AssignUserRole :: "string \<Rightarrow> string \<Rightarrow> unit iam_query" where
  "AssignUserRole u r s =
     (if (u, r) \<in> set (user_roles s) then Inr ((), s)
      else if u \<notin> us_id ` set (users s) \<or> r \<notin> ro_id ` set (roles s) then Inl (PgError ''23503'')
      else Inr ((), s\<lparr>user_roles := user_roles s @ [(u, r)]\<rparr>))"

definition GrantRolePermission :: "string \<Rightarrow> string \<Rightarrow> unit iam_query" where
  "GrantRolePermission r p s =
     (if (r, p) \<in> set (role_permissions s) then Inr ((), s)
      else if r \<notin> ro_id ` set (roles s) \<or> p \<notin> pe_id ` set (permissions s) then Inl (PgError ''23503'')
      else Inr ((), s\<lparr>role_permissions := role_permissions s @ [(r, p)]\<rparr>))"

definition CreateRole :: "string \<Rightarrow> string \<Rightarrow> RoleRow iam_query" where
  "CreateRole name desc s =
     (if blank name then Inl (PgError ''23514'')
      else if sql_uuid s \<in> ro_id ` set (roles s) \<or> name \<in> ro_name ` set (roles s) then Inl (PgError ''23505'')
      else let r = \<lparr>ro_id = sql_uuid s, ro_name = name, ro_description = desc, ro_created_at = sql_now s,
                    ro_updated_at = sql_now s, ro_is_system = False\<rparr>
           in Inr (r, s\<lparr>roles := roles s @ [r]\<rparr>))"

definition UpdateRole :: "string \<Rightarrow> string \<Rightarrow> string \<Rightarrow> RoleRow iam_query" where
  "UpdateRole i name desc s =
     (case find (\<lambda>r. ro_id r = i) (roles s) of
        None \<Rightarrow> Inl ErrNoRows
      | Some r \<Rightarrow>
          if blank name then Inl (PgError ''23514'')
          else if \<exists>q \<in> set (roles s). ro_id q \<noteq> i \<and> ro_name q = name then Inl (PgError ''23505'')
          else let f = (\<lambda>q. q\<lparr>ro_name := name, ro_description := desc, ro_updated_at := sql_now s\<rparr>) in
               Inr (f r, s\<lparr>roles := map (\<lambda>q. if ro_id q = i then f q else q) (roles s)\<rparr>))"

text \<open>Deleting a role cascades to its assignments and grants.\<close>

definition DeleteRole :: "string \<Rightarrow> int iam_query" where
  "DeleteRole i s =
     Inr (int (length (filter (\<lambda>r. ro_id r = i) (roles s))),
       if i \<in> ro_id ` set (roles s)
       then s\<lparr>roles := filter (\<lambda>r. ro_id r \<noteq> i) (roles s), user_roles := filter (\<lambda>x. snd x \<noteq> i) (user_roles s),
              role_permissions := filter (\<lambda>x. fst x \<noteq> i) (role_permissions s)\<rparr>
       else s)"

definition DeleteUserRoles :: "string \<Rightarrow> unit iam_query" where
  "DeleteUserRoles u s = Inr ((), s\<lparr>user_roles := filter (\<lambda>x. fst x \<noteq> u) (user_roles s)\<rparr>)"

definition DeleteRolePermissions :: "string \<Rightarrow> unit iam_query" where
  "DeleteRolePermissions r s = Inr ((), s\<lparr>role_permissions := filter (\<lambda>x. fst x \<noteq> r) (role_permissions s)\<rparr>)"

definition LockActiveSystemAdministratorIDs :: "string list iam_query" where
  "LockActiveSystemAdministratorIDs s =
     Inr (map us_id (filter (\<lambda>u. us_is_active u \<and>
        (\<exists>r \<in> set (roles s). is_admin_role r \<and> (us_id u, ro_id r) \<in> set (user_roles s))) (users s)), s)"

section \<open>Preferences\<close>

definition hex_color :: "string \<Rightarrow> bool" where
  "hex_color c = (case c of [] \<Rightarrow> False | h # cs \<Rightarrow> h = CHR ''#'' \<and> length cs = 6 \<and> list_all (\<lambda>d. hex_val d \<noteq> None) cs)"

definition GetUserPreferences :: "string \<Rightarrow> UserPreferenceRow iam_query" where
  "GetUserPreferences i s = one (\<lambda>p. up_user_id p = i) (preferences s) s"

definition UpsertUserPreferences ::
    "string \<Rightarrow> string \<Rightarrow> string \<Rightarrow> string option \<Rightarrow> string \<Rightarrow> string \<Rightarrow> unit iam_query" where
  "UpsertUserPreferences i theme mode accent font radius s =
     (if theme \<notin> {''enterprise'', ''cyberpunk''} \<or> mode \<notin> {''light'', ''dark'', ''system''} \<or>
         font \<notin> {''small'', ''standard'', ''large''} \<or> radius \<notin> {''square'', ''compact'', ''rounded''} \<or>
         (case accent of None \<Rightarrow> False | Some c \<Rightarrow> \<not> hex_color c)
      then Inl (PgError ''23514'')
      else case find (\<lambda>p. up_user_id p = i) (preferences s) of
        Some _ \<Rightarrow> Inr ((), s\<lparr>preferences := map (\<lambda>p. if up_user_id p = i
            then p\<lparr>up_theme := theme, up_color_mode := mode, up_accent_color := accent, up_font_scale := font,
                   up_radius_scale := radius, up_updated_at := sql_now s\<rparr> else p) (preferences s)\<rparr>)
      | None \<Rightarrow>
          if i \<notin> us_id ` set (users s) then Inl (PgError ''23503'')
          else Inr ((), s\<lparr>preferences := preferences s @ [\<lparr>up_user_id = i, up_theme = theme, up_color_mode = mode,
            up_accent_color = accent, up_font_scale = font, up_radius_scale = radius, up_created_at = sql_now s,
            up_updated_at = sql_now s\<rparr>]\<rparr>))"

section \<open>Authentication\<close>

definition GetAuthenticationSettings :: "AuthenticationSettingRow iam_query" where
  "GetAuthenticationSettings s = one (\<lambda>_. True) (settings s) s"

definition LockAuthenticationSettings :: "AuthenticationSettingRow iam_query" where
  "LockAuthenticationSettings s = one (\<lambda>_. True) (settings s) s"

definition PutAuthenticationSettings :: "bool \<Rightarrow> bool \<Rightarrow> bool \<Rightarrow> string list \<Rightarrow> unit iam_query" where
  "PutAuthenticationSettings login reg ver domains s =
     Inr ((), s\<lparr>settings := map (\<lambda>a. a\<lparr>as_password_login_enabled := login, as_registration_enabled := reg,
       as_registration_email_verification_required := ver, as_allowed_email_domains := domains\<rparr>) (settings s)\<rparr>)"

definition InitializeAuthentication :: "string \<Rightarrow> int iam_query" where
  "InitializeAuthentication i s =
     Inr (int (length (filter (\<lambda>a. as_bootstrap_admin_user_id a = Some i) (settings s))),
       s\<lparr>settings := map (\<lambda>a. if as_bootstrap_admin_user_id a = Some i
         then a\<lparr>as_initialized_at := (case as_initialized_at a of None \<Rightarrow> Some (sql_now s) | x \<Rightarrow> x)\<rparr> else a) (settings s)\<rparr>)"

definition bindable :: "string \<Rightarrow> AuthenticationSettingRow \<Rightarrow> bool" where
  "bindable i a \<longleftrightarrow> as_bootstrap_admin_user_id a = None \<or> as_bootstrap_admin_user_id a = Some i"

definition BindBootstrapAdmin :: "string \<Rightarrow> int iam_query" where
  "BindBootstrapAdmin i s =
     (if (\<exists>a \<in> set (settings s). bindable i a) \<and> i \<notin> us_id ` set (users s) then Inl (PgError ''23503'')
      else Inr (int (length (filter (bindable i) (settings s))),
        s\<lparr>settings := map (\<lambda>a. if bindable i a then a\<lparr>as_bootstrap_admin_user_id := Some i\<rparr> else a) (settings s)\<rparr>))"

definition new_security :: "string \<Rightarrow> UserSecuritySettingRow" where
  "new_security i = \<lparr>ss_user_id = i, ss_mode = ''default'', ss_totp_secret = None, ss_pending_secret = None,
     ss_pending_expires_at = None, ss_last_totp_step = - 1, ss_recovery_hashes = [], ss_recovery_codes_expires_at = None,
     ss_version = 0\<rparr>"

definition EnsureSecuritySettings :: "string \<Rightarrow> unit iam_query" where
  "EnsureSecuritySettings i s =
     (if i \<in> ss_user_id ` set (security s) then Inr ((), s)
      else if i \<notin> us_id ` set (users s) then Inl (PgError ''23503'')
      else Inr ((), s\<lparr>security := security s @ [new_security i]\<rparr>))"

definition GetSecuritySettings :: "string \<Rightarrow> UserSecuritySettingRow iam_query" where
  "GetSecuritySettings i s = one (\<lambda>x. ss_user_id x = i) (security s) s"

definition LockSecuritySettings :: "string \<Rightarrow> UserSecuritySettingRow iam_query" where
  "LockSecuritySettings i s = one (\<lambda>x. ss_user_id x = i) (security s) s"

definition map_security :: "(UserSecuritySettingRow \<Rightarrow> bool) \<Rightarrow> (UserSecuritySettingRow \<Rightarrow> UserSecuritySettingRow) \<Rightarrow> iam_db \<Rightarrow> iam_db" where
  "map_security P f s = s\<lparr>security := map (\<lambda>x. if P x then f x else x) (security s)\<rparr>"

text \<open>\<open>version + 1\<close> on a BIGINT raises an error when it overflows.\<close>

definition bump :: "UserSecuritySettingRow \<Rightarrow> UserSecuritySettingRow" where
  "bump x = x\<lparr>ss_version := ss_version x + 1\<rparr>"

definition can_bump :: "(UserSecuritySettingRow \<Rightarrow> bool) \<Rightarrow> iam_db \<Rightarrow> bool" where
  "can_bump P s \<longleftrightarrow> (\<forall>x \<in> set (security s). P x \<longrightarrow> in_int 64 (ss_version x + 1))"

definition InvalidatePasswordCredentials :: "string \<Rightarrow> unit iam_query" where
  "InvalidatePasswordCredentials i s =
     (let P = (\<lambda>x. ss_user_id x = i) in
      if \<not> can_bump P s then Inl (PgError ''22003'')
      else Inr ((), map_security P (\<lambda>x. bump (x\<lparr>ss_pending_secret := None, ss_pending_expires_at := None\<rparr>)) s))"

definition SaveConsumedSecurityCredential :: "string \<Rightarrow> int \<Rightarrow> string list \<Rightarrow> unit iam_query" where
  "SaveConsumedSecurityCredential i step hashes s =
     (let P = (\<lambda>x. ss_user_id x = i) in
      if \<not> can_bump P s then Inl (PgError ''22003'')
      else Inr ((), map_security P (\<lambda>x. bump (x\<lparr>ss_last_totp_step := step, ss_recovery_hashes := hashes\<rparr>)) s))"

definition valid_mode :: "string \<Rightarrow> string option \<Rightarrow> bool" where
  "valid_mode mode secret \<longleftrightarrow> mode \<in> {''default'', ''email'', ''totp''} \<and> (mode \<noteq> ''totp'' \<or> secret \<noteq> None)"

definition SaveSecuritySettings ::
    "string \<Rightarrow> string \<Rightarrow> string option \<Rightarrow> string option \<Rightarrow> int option \<Rightarrow> int \<Rightarrow> string list \<Rightarrow> int \<Rightarrow> int option \<Rightarrow> int iam_query" where
  "SaveSecuritySettings i mode secret pending pendingExp step hashes version recoveryExp s =
     (let P = (\<lambda>x. ss_user_id x = i \<and> ss_version x = version) in
      if (\<exists>x \<in> set (security s). P x) \<and> \<not> valid_mode mode secret then Inl (PgError ''23514'')
      else if \<not> can_bump P s then Inl (PgError ''22003'')
      else Inr (int (length (filter P (security s))),
        map_security P (\<lambda>x. bump (x\<lparr>ss_mode := mode, ss_totp_secret := secret, ss_pending_secret := pending,
          ss_pending_expires_at := pendingExp, ss_last_totp_step := step, ss_recovery_hashes := hashes,
          ss_recovery_codes_expires_at := recoveryExp\<rparr>)) s))"

definition PruneAuthenticationConsumptions :: "unit iam_query" where
  "PruneAuthenticationConsumptions s = Inr ((), s\<lparr>consumptions := filter (\<lambda>c. \<not> snd c < sql_now s) (consumptions s)\<rparr>)"

definition InsertAuthenticationConsumption :: "string \<Rightarrow> int \<Rightarrow> unit iam_query" where
  "InsertAuthenticationConsumption c expires s =
     (if c \<in> fst ` set (consumptions s) then Inl (PgError ''23505'')
      else Inr ((), s\<lparr>consumptions := consumptions s @ [(c, expires)]\<rparr>))"

end
