(* ===== verification/Iam_Model.thy ===== *)
theory Iam_Model
  imports Iam_Db
begin

text \<open>
  The data of \<open>src/pkg/modules/iam\<close>: the errors and structures of \<open>model.go\<close> and \<open>authentication.go\<close>,
  the validation of preferences, the permission check of \<open>rbac.go\<close>, and the normalisation of inputs in
  \<open>service.go\<close>. Two facts tie it to the database: validated preferences satisfy the table's constraints,
  and a permission check is characterised by the three patterns that grant it.
\<close>

section \<open>Errors and data\<close>

text \<open>
  The sentinel errors, followed by the errors the packages below wrap: an identifier that is not a
  UUID, an error of the driver, and a transaction that could not begin or commit.
\<close>

datatype iam_error =
    ErrNotFound | ErrInvalidCredentials | ErrInactiveUser | ErrDuplicateIdentity | ErrInvalidRefresh
  | ErrPermissionDenied | ErrInvalidUserInput | ErrCannotDeactivateSelf | ErrLastActiveAdministrator
  | ErrSystemRoleProtected | ErrManagementUnavailable
  | ErrAuthenticationForbidden | ErrEmailNotVerified | ErrInvalidCode | ErrEmailCodeRequired | ErrSecurityConflict
  | ErrAuthenticationUnavailable | ErrMailRejected
  | FieldValidationError "(string \<times> string) list" | RateLimitError int
  | InvalidUUID string | Driver pg_error | TxNotBegun | TxNotCommitted | OtherError string

record Role =
  role_ID :: string
  role_Name :: string
  role_Description :: string
  role_IsSystem :: bool

record Permission =
  perm_ID :: string
  perm_Name :: string
  perm_Description :: string

record RoleDetail = Role +
  role_Permissions :: "Permission list"

record User =
  user_EmailVerifiedAt :: "int option"
  user_ID :: string
  user_Email :: string
  user_Username :: string
  user_DisplayName :: string
  user_PasswordHash :: string
  user_Active :: bool
  user_CreatedAt :: int
  user_UpdatedAt :: int
  user_Roles :: "Role list"

record AuthenticatedUser = User +
  user_Permissions :: "string list"

record Preferences =
  pr_Theme :: string
  pr_ColorMode :: string
  pr_AccentColor :: "string option"
  pr_FontScale :: string
  pr_RadiusScale :: string

record CreateUserInput =
  cu_Email :: string
  cu_Username :: string
  cu_Password :: string
  cu_DisplayName :: string

record UpdateUserInput =
  uu_Email :: string
  uu_Username :: string
  uu_DisplayName :: string

record RoleInput =
  ri_Name :: string
  ri_Description :: string

record UserFilter =
  uf_Query :: string
  uf_Active :: "bool option"

record AuthenticationSettings =
  se_PasswordLoginEnabled :: bool
  se_RegistrationEnabled :: bool
  se_RegistrationEmailVerificationRequired :: bool
  se_AllowedEmailDomains :: "string list"

record AuthenticationState = AuthenticationSettings +
  se_BootstrapAdminUserID :: string
  se_InitializedAt :: "int option"

text \<open>A byte slice is \<open>None\<close> when it is \<open>nil\<close>.\<close>

record SecurityState =
  sec_RecoveryCodesExpiresAt :: "int option"
  sec_Mode :: string
  sec_TOTPEnabled :: bool
  sec_RecoveryCodesRemaining :: int
  sec_Version :: int
  sec_Secret :: "string option"
  sec_PendingSecret :: "string option"
  sec_PendingExpiresAt :: "int option"
  sec_LastTOTPStep :: int
  sec_RecoveryHashes :: "string list"

record CodeReceipt =
  rec_ID :: string
  rec_ExpiresAt :: int

section \<open>Preferences\<close>

definition DefaultPreferences :: Preferences where
  "DefaultPreferences = \<lparr>pr_Theme = ''enterprise'', pr_ColorMode = ''system'', pr_AccentColor = None,
     pr_FontScale = ''standard'', pr_RadiusScale = ''compact''\<rparr>"

definition Preferences_Validate :: "Preferences \<Rightarrow> iam_error option" where
  "Preferences_Validate p =
     (if pr_Theme p \<noteq> ''enterprise'' \<and> pr_Theme p \<noteq> ''cyberpunk'' then Some ErrInvalidUserInput
      else if pr_ColorMode p \<noteq> ''light'' \<and> pr_ColorMode p \<noteq> ''dark'' \<and> pr_ColorMode p \<noteq> ''system'' then Some ErrInvalidUserInput
      else if pr_FontScale p \<noteq> ''small'' \<and> pr_FontScale p \<noteq> ''standard'' \<and> pr_FontScale p \<noteq> ''large'' then Some ErrInvalidUserInput
      else if pr_RadiusScale p \<noteq> ''square'' \<and> pr_RadiusScale p \<noteq> ''compact'' \<and> pr_RadiusScale p \<noteq> ''rounded'' then Some ErrInvalidUserInput
      else if (case pr_AccentColor p of None \<Rightarrow> False | Some c \<Rightarrow> \<not> hex_color c) then Some ErrInvalidUserInput
      else None)"

section \<open>Permissions\<close>

fun has_permission_loop :: "string list \<Rightarrow> string \<Rightarrow> string \<Rightarrow> bool \<Rightarrow> bool" where
  "has_permission_loop [] required module hasAction = False"
| "has_permission_loop (p # ps) required module hasAction =
     (if p = ''*'' \<or> p = required then True
      else if hasAction \<and> p = module @ '':*'' then True
      else has_permission_loop ps required module hasAction)"

definition HasPermission :: "string list \<Rightarrow> string \<Rightarrow> bool" where
  "HasPermission perms required =
     (if required = [] then False
      else case cut_at (CHR '':'') required of
        (module, _, hasAction) \<Rightarrow> has_permission_loop perms required module hasAction)"

lemma has_permission_loop_iff:
  "has_permission_loop ps r m h \<longleftrightarrow> (\<exists>p \<in> set ps. p = ''*'' \<or> p = r \<or> h \<and> p = m @ '':*'')"
  by (induction ps) auto

lemma HasPermission_iff:
  "HasPermission perms required \<longleftrightarrow>
     required \<noteq> [] \<and>
     (''*'' \<in> set perms \<or> required \<in> set perms \<or>
      (\<exists>module action. required = module @ '':'' @ action \<and> CHR '':'' \<notin> set module \<and> module @ '':*'' \<in> set perms))"
proof (cases "cut_at (CHR '':'') required")
  case (fields m a h)
  have mod: "h \<and> m @ '':*'' \<in> set perms \<longleftrightarrow>
    (\<exists>module action. required = module @ '':'' @ action \<and> CHR '':'' \<notin> set module \<and> module @ '':*'' \<in> set perms)" (is "_ = ?R")
  proof
    assume "h \<and> m @ '':*'' \<in> set perms"
    then show ?R using cut_at_found [of _ required m a] fields by (intro exI [of _ m] exI [of _ a]) simp
  next
    assume ?R
    then obtain m' a' where "required = m' @ '':'' @ a'" "CHR '':'' \<notin> set m'" "m' @ '':*'' \<in> set perms" by blast
    then show "h \<and> m @ '':*'' \<in> set perms" using cut_at_append_sep [of _ m' a'] fields by simp
  qed
  have "HasPermission perms required \<longleftrightarrow> required \<noteq> [] \<and>
      (''*'' \<in> set perms \<or> required \<in> set perms \<or> h \<and> m @ '':*'' \<in> set perms)"
    unfolding HasPermission_def has_permission_loop_iff fields prod.case by (cases "required = []") auto
  then show ?thesis unfolding mod .
qed

section \<open>Normalisation of inputs\<close>

definition normalizeRoleInput :: "RoleInput \<Rightarrow> iam_error + RoleInput" where
  "normalizeRoleInput i =
     (let j = i\<lparr>ri_Name := TrimSpace (ri_Name i), ri_Description := TrimSpace (ri_Description i)\<rparr> in
      if ri_Name j = [] then Inl ErrInvalidUserInput else Inr j)"

fun normalizedIDs_loop :: "string list \<Rightarrow> string list \<Rightarrow> iam_error + string list" where
  "normalizedIDs_loop result [] = Inr result"
| "normalizedIDs_loop result (v # vs) =
     (let w = TrimSpace v in
      if w = [] then Inl ErrInvalidUserInput
      else if w \<in> set result then normalizedIDs_loop result vs
      else normalizedIDs_loop (result @ [w]) vs)"

definition normalizedIDs :: "string list \<Rightarrow> iam_error + string list" where
  "normalizedIDs = normalizedIDs_loop []"

lemma normalizedIDs_loop_Inr:
  "normalizedIDs_loop acc vs = Inr ws \<Longrightarrow> distinct acc \<Longrightarrow>
   distinct ws \<and> set ws = set acc \<union> TrimSpace ` set vs \<and> [] \<notin> TrimSpace ` set vs"
  by (induction acc vs rule: normalizedIDs_loop.induct) (auto simp: Let_def split: if_splits)

lemma normalizedIDs_Inr:
  "normalizedIDs vs = Inr ws \<Longrightarrow> distinct ws \<and> set ws = TrimSpace ` set vs \<and> [] \<notin> set ws"
  using normalizedIDs_loop_Inr [of "[]" vs ws] by (auto simp: normalizedIDs_def)

lemma normalizedIDs_total: "[] \<notin> TrimSpace ` set vs \<Longrightarrow> \<exists>ws. normalizedIDs vs = Inr ws"
proof -
  have "[] \<notin> TrimSpace ` set vs \<Longrightarrow> \<exists>ws. normalizedIDs_loop acc vs = Inr ws" for acc
    by (induction acc vs rule: normalizedIDs_loop.induct) (auto simp: Let_def)
  then show "[] \<notin> TrimSpace ` set vs \<Longrightarrow> \<exists>ws. normalizedIDs vs = Inr ws" by (simp add: normalizedIDs_def)
qed

end
