(* ===== verification/Iam_Ports.thy ===== *)
theory Iam_Ports
  imports Iam_Model
begin

text \<open>
  The interfaces between the identity services and what they use: the repositories of
  \<open>src/pkg/modules/iam/model.go\<close>, the ports of \<open>authentication.go\<close>, and the structures of the services
  (\<open>service.go\<close>, \<open>authentication_service.go\<close>). A Go interface is a record of operations on a state \<open>'w\<close>,
  the world outside the service: tables, caches, clocks, random sources and the moves of other processes.
\<close>

section \<open>Calls\<close>

text \<open>The error of a call as a value, as code that inspects \<open>err\<close> has it.\<close>

definition tryE :: "('w, 'e, 'a) op \<Rightarrow> ('w, 'f, 'e + 'a) op" where
  "tryE m = (\<lambda>w. (Inr (fst (m w)), snd (m w)))"

lemma tryE_eq [simp]: "tryE m w = (Inr (fst (m w)), snd (m w))"
  by (simp add: tryE_def)

type_synonym ('w, 'a) call = "('w, iam_error, 'a) op"

section \<open>Data of the services\<close>

record TokenPair =
  tp_AccessToken :: string
  tp_RefreshToken :: string
  tp_TokenType :: string
  tp_ExpiresIn :: int

record LoginInput =
  li_Email :: string
  li_Password :: string
  li_EmailCode :: string

record LoginResult =
  lr_TokenPair :: TokenPair
  lr_Status :: string
  lr_ChallengeID :: string
  lr_ChallengeExpiresIn :: int

record RegisterInput =
  rg_Username :: string
  rg_Email :: string
  rg_Password :: string
  rg_EmailCode :: string

record VerifyInput =
  vi_ChallengeID :: string
  vi_Code :: string
  vi_RecoveryCode :: string

record SecurityProof =
  sp_Password :: string
  sp_Code :: string
  sp_RecoveryCode :: string

record Enrollment =
  en_Secret :: string
  en_OTPAuthURI :: string
  en_ExpiresIn :: int

record UserQuery =
  uq_Filter :: UserFilter
  uq_Page :: int
  uq_Size :: int

record Challenge =
  ch_UserID :: string
  ch_Version :: int

section \<open>Interfaces\<close>

record 'w UserRepository =
  ur_FindByEmail :: "string \<Rightarrow> ('w, User) call"
  ur_FindByID :: "string \<Rightarrow> ('w, User) call"
  ur_List :: "UserFilter \<Rightarrow> int \<Rightarrow> int \<Rightarrow> ('w, User list \<times> int) call"
  ur_Create :: "CreateUserInput \<Rightarrow> ('w, User) call"
  ur_SetActive :: "string \<Rightarrow> bool \<Rightarrow> ('w, unit) call"

record 'w PreferencesRepository =
  pr_GetPreferences :: "string \<Rightarrow> ('w, Preferences) call"
  pr_PutPreferences :: "string \<Rightarrow> Preferences \<Rightarrow> ('w, unit) call"

record 'w ManagementRepository =
  mr_UpdateUser :: "string \<Rightarrow> UpdateUserInput \<Rightarrow> ('w, User) call"
  mr_UpdateUserPassword :: "string \<Rightarrow> string \<Rightarrow> ('w, unit) call"
  mr_SetUserActive :: "string \<Rightarrow> bool \<Rightarrow> ('w, unit) call"
  mr_ReplaceUserRoles :: "string \<Rightarrow> string list \<Rightarrow> ('w, unit) call"
  mr_Role :: "string \<Rightarrow> ('w, RoleDetail) call"
  mr_CreateRole :: "RoleInput \<Rightarrow> ('w, Role) call"
  mr_UpdateRole :: "string \<Rightarrow> RoleInput \<Rightarrow> ('w, Role) call"
  mr_DeleteRole :: "string \<Rightarrow> ('w, unit) call"
  mr_ReplaceRolePermissions :: "string \<Rightarrow> string list \<Rightarrow> ('w, unit) call"

text \<open>A nil slice of permissions is \<open>None\<close>.\<close>

record 'w RBACRepository =
  rr_PermissionsForUser :: "string \<Rightarrow> ('w, string list option) call"
  rr_Roles :: "('w, Role list) call"
  rr_Permissions :: "('w, Permission list) call"
  rr_AssignRole :: "string \<Rightarrow> string \<Rightarrow> ('w, unit) call"
  rr_GrantPermission :: "string \<Rightarrow> string \<Rightarrow> ('w, unit) call"

record 'w PasswordService =
  pw_Hash :: "string \<Rightarrow> ('w, string) call"
  pw_Verify :: "string \<Rightarrow> string \<Rightarrow> iam_error + bool"

text \<open>What the service uses of \<open>JWTManager\<close> and \<open>RefreshStore\<close>.\<close>

record 'w JWTPort =
  jwt_Issue :: "string \<Rightarrow> ('w, string) call"
  jwt_ttl :: int

record 'w RefreshPort =
  rf_Issue :: "string \<Rightarrow> ('w, string) call"
  rf_Lookup :: "string \<Rightarrow> ('w, string) call"
  rf_Rotate :: "string \<Rightarrow> string \<Rightarrow> ('w, string) call"
  rf_Revoke :: "string \<Rightarrow> ('w, unit) call"
  rf_RevokeAll :: "string \<Rightarrow> ('w, unit) call"

record 'w AuthenticationRepository =
  ar_Authentication :: "('w, AuthenticationState) call"
  ar_PutAuthentication :: "AuthenticationSettings \<Rightarrow> ('w, unit) call"
  ar_Initialize :: "string \<Rightarrow> ('w, unit) call"
  ar_Security :: "string \<Rightarrow> ('w, SecurityState) call"
  ar_SaveSecurity :: "string \<Rightarrow> SecurityState \<Rightarrow> int \<Rightarrow> ('w, unit) call"
  ar_Register :: "CreateUserInput \<Rightarrow> CodeReceipt option \<Rightarrow> ('w, User) call"
  ar_VerifyEmail :: "string \<Rightarrow> string \<Rightarrow> CodeReceipt \<Rightarrow> ('w, User) call"
  ar_ConsumeCredential :: "string \<Rightarrow> string \<Rightarrow> int \<Rightarrow> int \<Rightarrow> string \<Rightarrow> ('w, unit) call"

record 'w VerificationCodeStore =
  vc_Issue :: "string \<Rightarrow> string \<Rightarrow> string \<Rightarrow> ('w, string) call"
  vc_Verify :: "string \<Rightarrow> string \<Rightarrow> string \<Rightarrow> ('w, CodeReceipt) call"
  vc_VerifyAndConsume :: "string \<Rightarrow> string \<Rightarrow> string \<Rightarrow> ('w, unit) call"
  vc_Consume :: "string \<Rightarrow> string \<Rightarrow> CodeReceipt \<Rightarrow> ('w, unit) call"

record 'w SecondFactorCrypto =
  sf_NewSecret :: "string \<Rightarrow> ('w, string \<times> string) call"
  sf_Encrypt :: "string \<Rightarrow> string \<Rightarrow> ('w, string) call"
  sf_Decrypt :: "string option \<Rightarrow> string \<Rightarrow> iam_error + string"
  sf_Verify :: "string \<Rightarrow> string \<Rightarrow> int \<Rightarrow> int \<Rightarrow> iam_error + int"
  sf_RecoveryCodes :: "('w, string list \<times> string list) call"
  sf_RecoveryHash :: "string \<Rightarrow> string"

record 'w Challenges =
  cs_Issue :: "Challenge \<Rightarrow> ('w, string) call"
  cs_Attempt :: "string \<Rightarrow> ('w, Challenge) call"
  cs_Consume :: "string \<Rightarrow> ('w, unit) call"

section \<open>The services\<close>

text \<open>
  \<open>authentication.base\<close> is the service that holds the authentication service, so the operations of the
  latter take both. \<open>as_now\<close> reads the clock and does not fail. Unicode's tables and the parser of mail
  addresses, parts of Go's library, are held beside the ports that \<open>New...\<close> receives.
\<close>

record 'w AuthenticationService =
  as_recoveryTTL :: int
  as_repo :: "'w AuthenticationRepository"
  as_codes :: "'w VerificationCodeStore"
  as_mail :: "string \<Rightarrow> string \<Rightarrow> string \<Rightarrow> ('w, unit) call"
  as_crypto :: "'w SecondFactorCrypto"
  as_challenges :: "'w Challenges"
  as_now :: "'w \<Rightarrow> int \<times> 'w"

record text_tables =
  tx_lower :: "string \<Rightarrow> string"
  tx_fold :: "string \<Rightarrow> string \<Rightarrow> bool"
  tx_address :: "string \<Rightarrow> string option"

record 'w Service =
  sv_authentication :: "'w AuthenticationService option"
  sv_users :: "'w UserRepository"
  sv_rbac :: "'w RBACRepository option"
  sv_preferences :: "'w PreferencesRepository option"
  sv_management :: "'w ManagementRepository option"
  sv_passwords :: "'w PasswordService"
  sv_jwt :: "'w JWTPort"
  sv_refresh :: "'w RefreshPort"
  sv_text :: text_tables

definition clock :: "'w AuthenticationService \<Rightarrow> ('w, int) call" where
  "clock s = (\<lambda>w. (Inr (fst (as_now s w)), snd (as_now s w)))"

definition NewServiceWithManagement ::
    "text_tables \<Rightarrow> 'w UserRepository \<Rightarrow> 'w RBACRepository option \<Rightarrow> 'w PreferencesRepository option \<Rightarrow> 'w ManagementRepository option
      \<Rightarrow> 'w PasswordService \<Rightarrow> 'w JWTPort \<Rightarrow> 'w RefreshPort \<Rightarrow> 'w Service" where
  "NewServiceWithManagement tx ur rbac pf management passwords jwt refresh =
     \<lparr>sv_authentication = None, sv_users = ur, sv_rbac = rbac, sv_preferences = pf, sv_management = management,
      sv_passwords = passwords, sv_jwt = jwt, sv_refresh = refresh, sv_text = tx\<rparr>"

definition NewServiceWithPreferences ::
    "text_tables \<Rightarrow> 'w UserRepository \<Rightarrow> 'w RBACRepository option \<Rightarrow> 'w PreferencesRepository option
      \<Rightarrow> 'w PasswordService \<Rightarrow> 'w JWTPort \<Rightarrow> 'w RefreshPort \<Rightarrow> 'w Service" where
  "NewServiceWithPreferences tx ur rbac pf passwords jwt refresh =
     NewServiceWithManagement tx ur rbac pf None passwords jwt refresh"

definition NewService ::
    "text_tables \<Rightarrow> 'w UserRepository \<Rightarrow> 'w RBACRepository option \<Rightarrow> 'w PasswordService \<Rightarrow> 'w JWTPort \<Rightarrow> 'w RefreshPort \<Rightarrow> 'w Service" where
  "NewService tx ur rbac passwords jwt refresh = NewServiceWithPreferences tx ur rbac None passwords jwt refresh"

definition DefaultRecoveryCodeTTL :: int where
  "DefaultRecoveryCodeTTL = 30 * 24 * 3600 * 1000000000"

text \<open>The authentication service, and the base service that now points to it.\<close>

definition NewAuthenticationService ::
    "'w Service \<Rightarrow> 'w AuthenticationRepository \<Rightarrow> 'w VerificationCodeStore \<Rightarrow> (string \<Rightarrow> string \<Rightarrow> string \<Rightarrow> ('w, unit) call)
      \<Rightarrow> 'w SecondFactorCrypto \<Rightarrow> 'w Challenges \<Rightarrow> ('w \<Rightarrow> int \<times> 'w) \<Rightarrow> int list \<Rightarrow> 'w AuthenticationService \<times> 'w Service" where
  "NewAuthenticationService base repo codes mailer crypto challenges now recoveryTTL =
     (let service = \<lparr>as_recoveryTTL = (case recoveryTTL of t # _ \<Rightarrow> if t > 0 then t else DefaultRecoveryCodeTTL | [] \<Rightarrow> DefaultRecoveryCodeTTL),
          as_repo = repo, as_codes = codes, as_mail = mailer, as_crypto = crypto, as_challenges = challenges, as_now = now\<rparr>
      in (service, base\<lparr>sv_authentication := Some service\<rparr>))"

end
