(* ===== verification/Iam_Service.thy ===== *)
theory Iam_Service
  imports Iam_Ports Pagination
begin

text \<open>
  The identity service, \<open>src/pkg/modules/iam/service.go\<close>: sessions, the current user, preferences, and the
  management of users and roles, over the interfaces of \<open>Iam_Ports\<close>. \<open>Service.Login\<close>, which delegates
  to the authentication service, is in \<open>Auth_Service\<close>.
\<close>

section \<open>Tokens\<close>

definition dummyPasswordHash :: string where
  "dummyPasswordHash = ''$argon2id$v=19$m=65536,t=3,p=2$AAAAAAAAAAAAAAAAAAAAAA$AAAAAAAAAAAAAAAAAAAAAAAAAAAAAAAAAAAAAAAAAAA''"

text \<open>\<open>int64(ttl.Seconds())\<close>: the whole seconds of a duration that is not negative.\<close>

definition tokenPair :: "'w Service \<Rightarrow> string \<Rightarrow> string \<Rightarrow> TokenPair" where
  "tokenPair s access refresh = \<lparr>tp_AccessToken = access, tp_RefreshToken = refresh, tp_TokenType = ''Bearer'',
     tp_ExpiresIn = go_div (jwt_ttl (sv_jwt s)) 1000000000\<rparr>"

definition issuePair :: "'w Service \<Rightarrow> string \<Rightarrow> ('w, TokenPair) call" where
  "issuePair s userID =
     bindE (jwt_Issue (sv_jwt s) userID) (\<lambda>access.
     bindE (rf_Issue (sv_refresh s) userID) (\<lambda>refresh.
     retE (tokenPair s access refresh)))"

definition Service_Logout :: "'w Service \<Rightarrow> string \<Rightarrow> ('w, unit) call" where
  "Service_Logout s raw = rf_Revoke (sv_refresh s) raw"

definition Service_RevokeAll :: "'w Service \<Rightarrow> string \<Rightarrow> ('w, unit) call" where
  "Service_RevokeAll s userID = rf_RevokeAll (sv_refresh s) userID"

section \<open>Guards\<close>

definition requireInitialized :: "'w Service \<Rightarrow> ('w, unit) call" where
  "requireInitialized s = (case sv_authentication s of
      None \<Rightarrow> retE ()
    | Some a \<Rightarrow> bindE (ar_Authentication (as_repo a)) (\<lambda>state.
        if se_InitializedAt state = None then failE ErrInvalidCredentials else retE ()))"

definition requireActiveUser :: "'w Service \<Rightarrow> string \<Rightarrow> ('w, unit) call" where
  "requireActiveUser s userID =
     bindE (requireInitialized s) (\<lambda>_.
     bindE (ur_FindByID (sv_users s) userID) (\<lambda>user.
     if \<not> user_Active user then failE ErrInactiveUser else retE ()))"

definition managementRepository :: "'w Service \<Rightarrow> ('w, 'w ManagementRepository) call" where
  "managementRepository s = (case sv_management s of None \<Rightarrow> failE ErrManagementUnavailable | Some m \<Rightarrow> retE m)"

text \<open>A nil \<open>rbac\<close> makes the call of its method panic.\<close>

definition rbac :: "'w Service \<Rightarrow> ('w, 'w RBACRepository) call" where
  "rbac s = (case sv_rbac s of None \<Rightarrow> failE (OtherError ''nil pointer dereference'') | Some r \<Rightarrow> retE r)"

section \<open>Sessions and the current user\<close>

definition Service_Refresh :: "'w Service \<Rightarrow> string \<Rightarrow> ('w, TokenPair) call" where
  "Service_Refresh s raw =
     bindE (requireInitialized s) (\<lambda>_.
     bindE (rf_Lookup (sv_refresh s) raw) (\<lambda>userID.
     bindE (mapErrE (\<lambda>e. if e = ErrNotFound then ErrInvalidRefresh else e) (ur_FindByID (sv_users s) userID)) (\<lambda>user.
     if \<not> user_Active user then failE ErrInvalidRefresh
     else bindE (jwt_Issue (sv_jwt s) userID) (\<lambda>access.
     bindE (rf_Rotate (sv_refresh s) raw userID) (\<lambda>refresh.
     retE (tokenPair s access refresh))))))"

definition Service_CurrentUser :: "'w Service \<Rightarrow> string \<Rightarrow> ('w, AuthenticatedUser) call" where
  "Service_CurrentUser s userID =
     bindE (requireInitialized s) (\<lambda>_.
     bindE (ur_FindByID (sv_users s) userID) (\<lambda>user.
     if \<not> user_Active user then failE ErrInactiveUser
     else case sv_rbac s of
       None \<Rightarrow> retE (User.extend user \<lparr>user_Permissions = []\<rparr>)
     | Some r \<Rightarrow> bindE (rr_PermissionsForUser r userID) (\<lambda>ps.
         retE (User.extend user \<lparr>user_Permissions = (case ps of None \<Rightarrow> [] | Some l \<Rightarrow> l)\<rparr>))))"

definition Service_Preferences :: "'w Service \<Rightarrow> string \<Rightarrow> ('w, Preferences) call" where
  "Service_Preferences s userID =
     bindE (requireActiveUser s userID) (\<lambda>_.
     case sv_preferences s of
       None \<Rightarrow> failE ErrNotFound
     | Some p \<Rightarrow> bindE (tryE (pr_GetPreferences p userID)) (\<lambda>r.
         case r of
           Inl e \<Rightarrow> if e = ErrNotFound then retE DefaultPreferences else failE e
         | Inr v \<Rightarrow> retE v))"

definition Service_PutPreferences :: "'w Service \<Rightarrow> string \<Rightarrow> Preferences \<Rightarrow> ('w, unit) call" where
  "Service_PutPreferences s userID v =
     (case Preferences_Validate v of
        Some e \<Rightarrow> failE e
      | None \<Rightarrow>
          bindE (requireActiveUser s userID) (\<lambda>_.
          case sv_preferences s of None \<Rightarrow> failE ErrNotFound | Some p \<Rightarrow> pr_PutPreferences p userID v))"

section \<open>Management\<close>

definition normal_input :: "'w Service \<Rightarrow> string \<Rightarrow> string" where
  "normal_input s v = ToLower (tx_lower (sv_text s)) (TrimSpace v)"

definition Service_Users :: "'w Service \<Rightarrow> UserQuery \<Rightarrow> ('w, User page) call" where
  "Service_Users s q =
     (let (p, size) = Normalize (uq_Page q) (uq_Size q) in
      bindE (ur_List (sv_users s) \<lparr>uf_Query = TrimSpace (uf_Query (uq_Filter q)), uf_Active = uf_Active (uq_Filter q)\<rparr> size
          (int64 (int64 (p - 1) * size))) (\<lambda>(items, total).
      retE (New (Some items) p size total)))"

definition Service_CreateUser :: "'w Service \<Rightarrow> CreateUserInput \<Rightarrow> ('w, User) call" where
  "Service_CreateUser s input =
     (let email = normal_input s (cu_Email input); username = TrimSpace (cu_Username input) in
      if email = [] \<or> username = [] \<or> length (cu_Password input) < 12 then failE ErrInvalidUserInput
      else bindE (pw_Hash (sv_passwords s) (cu_Password input)) (\<lambda>hash.
        ur_Create (sv_users s) (input\<lparr>cu_Email := email, cu_Username := username, cu_Password := hash\<rparr>)))"

definition Service_UpdateUser :: "'w Service \<Rightarrow> string \<Rightarrow> UpdateUserInput \<Rightarrow> ('w, User) call" where
  "Service_UpdateUser s userID input =
     (let email = normal_input s (uu_Email input); username = TrimSpace (uu_Username input) in
      if email = [] \<or> username = [] then failE ErrInvalidUserInput
      else bindE (managementRepository s) (\<lambda>m.
        mr_UpdateUser m userID \<lparr>uu_Email = email, uu_Username = username, uu_DisplayName = TrimSpace (uu_DisplayName input)\<rparr>))"

definition Service_ResetUserPassword :: "'w Service \<Rightarrow> string \<Rightarrow> string \<Rightarrow> ('w, unit) call" where
  "Service_ResetUserPassword s userID password =
     (if length password < 12 then failE ErrInvalidUserInput
      else bindE (managementRepository s) (\<lambda>m.
        bindE (pw_Hash (sv_passwords s) password) (\<lambda>hash.
        bindE (rf_RevokeAll (sv_refresh s) userID) (\<lambda>_.
        mr_UpdateUserPassword m userID hash))))"

text \<open>\<open>subject\<close> is \<open>Subject(ctx)\<close>, the authenticated caller.\<close>

definition Service_SetUserActive :: "'w Service \<Rightarrow> string \<Rightarrow> string \<Rightarrow> bool \<Rightarrow> ('w, unit) call" where
  "Service_SetUserActive s subject userID active =
     bindE (if active then retE ()
            else if subject \<noteq> [] \<and> subject = userID then failE ErrCannotDeactivateSelf
            else rf_RevokeAll (sv_refresh s) userID) (\<lambda>_.
     case sv_management s of
       Some m \<Rightarrow> mr_SetUserActive m userID active
     | None \<Rightarrow> ur_SetActive (sv_users s) userID active)"

definition Service_Roles :: "'w Service \<Rightarrow> ('w, Role list) call" where
  "Service_Roles s = bindE (rbac s) rr_Roles"

definition Service_Permissions :: "'w Service \<Rightarrow> ('w, Permission list) call" where
  "Service_Permissions s = bindE (rbac s) rr_Permissions"

definition Service_ReplaceUserRoles :: "'w Service \<Rightarrow> string \<Rightarrow> string list \<Rightarrow> ('w, unit) call" where
  "Service_ReplaceUserRoles s userID roleIDs =
     bindE (managementRepository s) (\<lambda>m.
     case normalizedIDs roleIDs of Inl e \<Rightarrow> failE e | Inr ids \<Rightarrow> mr_ReplaceUserRoles m userID ids)"

definition Service_Role :: "'w Service \<Rightarrow> string \<Rightarrow> ('w, RoleDetail) call" where
  "Service_Role s roleID = bindE (managementRepository s) (\<lambda>m. mr_Role m roleID)"

definition Service_CreateRole :: "'w Service \<Rightarrow> RoleInput \<Rightarrow> ('w, Role) call" where
  "Service_CreateRole s input =
     bindE (managementRepository s) (\<lambda>m.
     case normalizeRoleInput input of Inl e \<Rightarrow> failE e | Inr i \<Rightarrow> mr_CreateRole m i)"

definition Service_UpdateRole :: "'w Service \<Rightarrow> string \<Rightarrow> RoleInput \<Rightarrow> ('w, Role) call" where
  "Service_UpdateRole s roleID input =
     bindE (managementRepository s) (\<lambda>m.
     case normalizeRoleInput input of Inl e \<Rightarrow> failE e | Inr i \<Rightarrow> mr_UpdateRole m roleID i)"

definition Service_DeleteRole :: "'w Service \<Rightarrow> string \<Rightarrow> ('w, unit) call" where
  "Service_DeleteRole s roleID = bindE (managementRepository s) (\<lambda>m. mr_DeleteRole m roleID)"

definition Service_ReplaceRolePermissions :: "'w Service \<Rightarrow> string \<Rightarrow> string list \<Rightarrow> ('w, unit) call" where
  "Service_ReplaceRolePermissions s roleID permissionIDs =
     bindE (managementRepository s) (\<lambda>m.
     case normalizedIDs permissionIDs of Inl e \<Rightarrow> failE e | Inr ids \<Rightarrow> mr_ReplaceRolePermissions m roleID ids)"

definition Service_AssignRole :: "'w Service \<Rightarrow> string \<Rightarrow> string \<Rightarrow> ('w, unit) call" where
  "Service_AssignRole s userID roleID = bindE (rbac s) (\<lambda>r. rr_AssignRole r userID roleID)"

definition Service_GrantPermission :: "'w Service \<Rightarrow> string \<Rightarrow> string \<Rightarrow> ('w, unit) call" where
  "Service_GrantPermission s roleID permissionID = bindE (rbac s) (\<lambda>r. rr_GrantPermission r roleID permissionID)"

definition Service_Authorize :: "'w Service \<Rightarrow> string \<Rightarrow> string \<Rightarrow> ('w, unit) call" where
  "Service_Authorize s userID required =
     bindE (case sv_authentication s of None \<Rightarrow> retE () | Some a \<Rightarrow> requireActiveUser s userID) (\<lambda>_.
     bindE (rbac s) (\<lambda>r.
     bindE (rr_PermissionsForUser r userID) (\<lambda>p.
     if HasPermission (case p of None \<Rightarrow> [] | Some l \<Rightarrow> l) required then retE () else failE ErrPermissionDenied)))"

end
