(* ===== verification/Auth_Service.thy ===== *)
theory Auth_Service
  imports Iam_Service
begin

text \<open>
  The authentication service, \<open>src/pkg/modules/iam/authentication_service.go\<close>, with the validation helpers
  of \<open>authentication.go\<close> and \<open>Service.Login\<close>: password login with its second factors, registration,
  verification of addresses, enrolment and removal of the authenticator.
\<close>

section \<open>Validation\<close>

definition is_digit :: "char \<Rightarrow> bool" where
  "is_digit c \<longleftrightarrow> in_range 48 57 c"

definition emailCodePattern :: "string \<Rightarrow> bool" where
  "emailCodePattern code \<longleftrightarrow> length code = 6 \<and> list_all is_digit code"

definition is_alnum :: "char \<Rightarrow> bool" where
  "is_alnum c \<longleftrightarrow> in_range 48 57 c \<or> in_range 65 90 c \<or> in_range 97 122 c"

text \<open>\<open>domainPattern\<close>: two or more labels, each starting and ending with a letter or digit, with hyphens inside.\<close>

definition domain_label :: "string \<Rightarrow> bool" where
  "domain_label l \<longleftrightarrow> l \<noteq> [] \<and> is_alnum (hd l) \<and> is_alnum (last l) \<and> list_all (\<lambda>c. is_alnum c \<or> c = CHR ''-'') l"

definition domainPattern :: "string \<Rightarrow> bool" where
  "domainPattern d \<longleftrightarrow> 2 \<le> length (split_on (CHR ''.'') d) \<and> list_all domain_label (split_on (CHR ''.'') d)"

definition AuthenticationSettings_Validate :: "('a AuthenticationSettings_scheme) \<Rightarrow> iam_error option" where
  "AuthenticationSettings_Validate v =
     (if length (se_AllowedEmailDomains v) > 100 then Some ErrInvalidUserInput
      else if list_ex (\<lambda>d. length d > 253 \<or> \<not> domainPattern d) (se_AllowedEmailDomains v) then Some ErrInvalidUserInput
      else None)"

definition DefaultAuthenticationSettings :: AuthenticationSettings where
  "DefaultAuthenticationSettings = \<lparr>se_PasswordLoginEnabled = True, se_RegistrationEnabled = False,
     se_RegistrationEmailVerificationRequired = True, se_AllowedEmailDomains = []\<rparr>"

definition normalizeEmail :: "text_tables \<Rightarrow> string \<Rightarrow> iam_error + string" where
  "normalizeEmail tx v =
     (let email = ToLower (tx_lower tx) (TrimSpace v) in
      case tx_address tx email of
        None \<Rightarrow> Inl ErrInvalidUserInput
      | Some a \<Rightarrow> if a \<noteq> email \<or> length email > 254 then Inl ErrInvalidUserInput else Inr email)"

text \<open>A map of field messages; a later message for a field replaces the earlier one.\<close>

definition put_field :: "bool \<Rightarrow> string \<Rightarrow> string \<Rightarrow> (string \<times> string) list \<Rightarrow> (string \<times> string) list" where
  "put_field b k v fs = (if b then (k, v) # filter (\<lambda>f. fst f \<noteq> k) fs else fs)"

definition reject_fields :: "(string \<times> string) list \<Rightarrow> ('w, unit) call" where
  "reject_fields fs = (if fs \<noteq> [] then failE (FieldValidationError fs) else retE ())"

definition code_fields :: "string \<Rightarrow> ('w, unit) call" where
  "code_fields code = (if \<not> emailCodePattern code
     then failE (FieldValidationError [(''email_code'', ''must contain six digits'')]) else retE ())"

section \<open>Password login\<close>

definition credentials :: "'w Service \<Rightarrow> string \<Rightarrow> string \<Rightarrow> ('w, User) call" where
  "credentials base email password =
     bindE (tryE (ur_FindByEmail (sv_users base) (normal_input base email))) (\<lambda>r.
     let hash = (case r of Inr user \<Rightarrow> user_PasswordHash user | Inl _ \<Rightarrow> dummyPasswordHash);
         v = pw_Verify (sv_passwords base) password hash in
     case r of
       Inl e \<Rightarrow> if e \<noteq> ErrNotFound then failE e else failE ErrInvalidCredentials
     | Inr user \<Rightarrow> (case v of
           Inl _ \<Rightarrow> failE ErrInvalidCredentials
         | Inr ok \<Rightarrow> if \<not> ok \<or> \<not> user_Active user then failE ErrInvalidCredentials else retE user))"

definition no_pair :: TokenPair where
  "no_pair = \<lparr>tp_AccessToken = [], tp_RefreshToken = [], tp_TokenType = [], tp_ExpiresIn = 0\<rparr>"

definition with_pair :: "TokenPair \<Rightarrow> LoginResult" where
  "with_pair p = \<lparr>lr_TokenPair = p, lr_Status = [], lr_ChallengeID = [], lr_ChallengeExpiresIn = 0\<rparr>"

text \<open>The first login: the bootstrap administrator initialises authentication.\<close>

definition bootstrap_login :: "'w Service \<Rightarrow> 'w AuthenticationService \<Rightarrow> AuthenticationState \<Rightarrow> User \<Rightarrow> ('w, LoginResult) call" where
  "bootstrap_login base s state user =
     (if se_BootstrapAdminUserID state = [] \<or> user_ID user \<noteq> se_BootstrapAdminUserID state then failE ErrInvalidCredentials
      else bindE (issuePair base (user_ID user)) (\<lambda>pair.
        bindE (tryE (ar_Initialize (as_repo s) (user_ID user))) (\<lambda>r.
        case r of
          Inl e \<Rightarrow> bindE (tryE (Service_Logout base (tp_RefreshToken pair))) (\<lambda>_. failE e)
        | Inr _ \<Rightarrow> retE (with_pair pair))))"

definition totp_challenge :: "'w Service \<Rightarrow> 'w AuthenticationService \<Rightarrow> User \<Rightarrow> SecurityState \<Rightarrow> ('w, LoginResult) call" where
  "totp_challenge base s user sec =
     (if \<not> sec_TOTPEnabled sec then failE ErrInvalidCredentials
      else bindE (ur_FindByID (sv_users base) (user_ID user)) (\<lambda>current.
        if \<not> user_Active current \<or> user_PasswordHash current \<noteq> user_PasswordHash user then failE ErrInvalidCredentials
        else bindE (cs_Issue (as_challenges s) \<lparr>ch_UserID = user_ID user, ch_Version = sec_Version sec\<rparr>) (\<lambda>challenge.
          retE \<lparr>lr_TokenPair = no_pair, lr_Status = ''totp_required'', lr_ChallengeID = challenge, lr_ChallengeExpiresIn = 300\<rparr>)))"

definition email_factor :: "'w AuthenticationService \<Rightarrow> User \<Rightarrow> string \<Rightarrow> ('w, unit) call" where
  "email_factor s user code =
     (if user_EmailVerifiedAt user = None then failE ErrInvalidCredentials
      else if code = [] then failE ErrEmailCodeRequired
      else bindE (code_fields code) (\<lambda>_. vc_VerifyAndConsume (as_codes s) (user_Email user) ''login'' code))"

definition Auth_Login :: "'w Service \<Rightarrow> 'w AuthenticationService \<Rightarrow> LoginInput \<Rightarrow> ('w, LoginResult) call" where
  "Auth_Login base s input =
     bindE (ar_Authentication (as_repo s)) (\<lambda>state.
     bindE (credentials base (li_Email input) (li_Password input)) (\<lambda>user.
     if se_InitializedAt state = None then bootstrap_login base s state user
     else if \<not> se_PasswordLoginEnabled state then failE ErrInvalidCredentials
     else bindE (ar_Security (as_repo s) (user_ID user)) (\<lambda>sec.
       if sec_Mode sec = ''totp'' then totp_challenge base s user sec
       else bindE (if sec_Mode sec = ''email'' then email_factor s user (li_EmailCode input) else retE ()) (\<lambda>_.
         bindE (issuePair base (user_ID user)) (\<lambda>pair. retE (with_pair pair))))))"

text \<open>\<open>Service.Login\<close>: without an authentication service it checks the password itself.\<close>

definition Service_Login :: "'w Service \<Rightarrow> string \<Rightarrow> string \<Rightarrow> ('w, TokenPair) call" where
  "Service_Login s email password = (case sv_authentication s of
      Some a \<Rightarrow>
        bindE (Auth_Login s a \<lparr>li_Email = email, li_Password = password, li_EmailCode = []\<rparr>) (\<lambda>result.
        if lr_Status result = ''totp_required'' then failE ErrInvalidCredentials else retE (lr_TokenPair result))
    | None \<Rightarrow>
        bindE (tryE (ur_FindByEmail (sv_users s) (normal_input s email))) (\<lambda>r.
        let v = pw_Verify (sv_passwords s) password (case r of Inr user \<Rightarrow> user_PasswordHash user | Inl _ \<Rightarrow> dummyPasswordHash) in
        case r of
          Inl e \<Rightarrow> if e = ErrNotFound then failE ErrInvalidCredentials else failE e
        | Inr user \<Rightarrow> (case v of
              Inl e \<Rightarrow> failE e
            | Inr ok \<Rightarrow> if \<not> ok then failE ErrInvalidCredentials
                else if \<not> user_Active user then failE ErrInactiveUser
                else issuePair s (user_ID user))))"

section \<open>Proofs of the second factor\<close>

definition after :: "int option \<Rightarrow> int \<Rightarrow> bool" where
  "after e now \<longleftrightarrow> (case e of None \<Rightarrow> False | Some t \<Rightarrow> t > now)"

definition consumeProof :: "'w AuthenticationService \<Rightarrow> string \<Rightarrow> SecurityState \<Rightarrow> string \<Rightarrow> string \<Rightarrow> string \<Rightarrow> ('w, unit) call" where
  "consumeProof s i sec credential code recovery =
     (if (code = []) = (recovery = []) then failE ErrInvalidCode
      else if code \<noteq> [] then
        (case sf_Decrypt (as_crypto s) (sec_Secret sec) i of
           Inl e \<Rightarrow> failE e
         | Inr secret \<Rightarrow>
             bindE (clock s) (\<lambda>now.
             case sf_Verify (as_crypto s) secret code now (sec_LastTOTPStep sec) of
               Inl e \<Rightarrow> failE e
             | Inr step \<Rightarrow> ar_ConsumeCredential (as_repo s) i credential (sec_Version sec) step []))
      else
        bindE (if sec_RecoveryCodesExpiresAt sec = None then retE False
               else bindE (clock s) (\<lambda>now. retE (after (sec_RecoveryCodesExpiresAt sec) now))) (\<lambda>valid.
        if \<not> valid then failE ErrInvalidCode
        else let hash = sf_RecoveryHash (as_crypto s) recovery in
          if hash \<notin> set (sec_RecoveryHashes sec) then failE ErrInvalidCode
          else ar_ConsumeCredential (as_repo s) i credential (sec_Version sec) (- 1) hash))"

definition Auth_VerifyLogin :: "'w Service \<Rightarrow> 'w AuthenticationService \<Rightarrow> VerifyInput \<Rightarrow> ('w, TokenPair) call" where
  "Auth_VerifyLogin base s input =
     (let fs = put_field (vi_ChallengeID input = []) ''challenge_id'' ''required'' [];
          fs = put_field ((vi_Code input = []) = (vi_RecoveryCode input = [])) ''code'' ''provide either code or recovery_code'' fs;
          fs = put_field (vi_Code input \<noteq> [] \<and> \<not> emailCodePattern (vi_Code input)) ''code'' ''must contain six digits'' fs in
      bindE (reject_fields fs) (\<lambda>_.
      bindE (cs_Attempt (as_challenges s) (vi_ChallengeID input)) (\<lambda>challenge.
      bindE (mapErrE (\<lambda>_. ErrInvalidCredentials) (ur_FindByID (sv_users base) (ch_UserID challenge))) (\<lambda>user.
      if \<not> user_Active user then failE ErrInvalidCredentials
      else bindE (ar_Authentication (as_repo s)) (\<lambda>state.
      if se_InitializedAt state = None \<or> \<not> se_PasswordLoginEnabled state then failE ErrInvalidCredentials
      else bindE (ar_Security (as_repo s) (user_ID user)) (\<lambda>sec.
      if sec_Mode sec \<noteq> ''totp'' \<or> \<not> sec_TOTPEnabled sec \<or> sec_Version sec \<noteq> ch_Version challenge then failE ErrInvalidCode
      else bindE (consumeProof s (user_ID user) sec (vi_ChallengeID input) (vi_Code input) (vi_RecoveryCode input)) (\<lambda>_.
      bindE (cs_Consume (as_challenges s) (vi_ChallengeID input)) (\<lambda>_.
      issuePair base (user_ID user)))))))))"

section \<open>Email codes and registration\<close>

definition Auth_RequestEmailCode :: "'w Service \<Rightarrow> 'w AuthenticationService \<Rightarrow> string \<Rightarrow> string \<Rightarrow> string \<Rightarrow> ('w, unit) call" where
  "Auth_RequestEmailCode base s email purpose ip =
     bindE (ar_Authentication (as_repo s)) (\<lambda>state.
     if purpose = ''register'' \<and> (se_InitializedAt state = None \<or> \<not> se_RegistrationEnabled state) then failE ErrAuthenticationForbidden
     else let r = normalizeEmail (sv_text base) email;
              fs = put_field (purpose \<noteq> ''register'' \<and> purpose \<noteq> ''login'') ''purpose'' ''must be register or login'' [];
              fs = put_field (case r of Inl _ \<Rightarrow> True | Inr _ \<Rightarrow> False) ''email'' ''must be a valid email address'' fs in
       bindE (reject_fields fs) (\<lambda>_.
       case r of
         Inl e \<Rightarrow> failE e
       | Inr address \<Rightarrow>
           bindE (vc_Issue (as_codes s) address purpose ip) (\<lambda>code.
           bindE (tryE (as_mail s address purpose code)) (\<lambda>m.
           case m of Inl e \<Rightarrow> if e = ErrMailRejected then retE () else failE e | Inr _ \<Rightarrow> retE ()))))"

definition domain_in :: "text_tables \<Rightarrow> string list \<Rightarrow> string \<Rightarrow> bool" where
  "domain_in tx ds domain \<longleftrightarrow> list_ex (\<lambda>d. EqualFold (tx_fold tx) d domain) ds"

text \<open>The domain is what follows the first \<open>@\<close>; an address without one would make the index panic.\<close>

definition check_domain :: "text_tables \<Rightarrow> string list \<Rightarrow> string \<Rightarrow> ('w, unit) call" where
  "check_domain tx ds email =
     (if ds = [] then retE ()
      else case cut_at (CHR ''@'') email of
        (_, domain, True) \<Rightarrow> if domain_in tx ds domain then retE () else failE ErrAuthenticationForbidden
      | _ \<Rightarrow> failE (OtherError ''index out of range''))"

definition registration_receipt :: "'w AuthenticationService \<Rightarrow> AuthenticationState \<Rightarrow> string \<Rightarrow> string \<Rightarrow> ('w, CodeReceipt option) call" where
  "registration_receipt s state email code =
     (if \<not> se_RegistrationEmailVerificationRequired state then retE None
      else if code = [] then failE ErrEmailCodeRequired
      else bindE (code_fields code) (\<lambda>_.
        bindE (vc_Verify (as_codes s) email ''register'' code) (\<lambda>r. retE (Some r))))"

definition register_fields :: "(iam_error + string) \<Rightarrow> string \<Rightarrow> string \<Rightarrow> (string \<times> string) list" where
  "register_fields email username password =
     (let fs = put_field (case email of Inl _ \<Rightarrow> True | Inr _ \<Rightarrow> False) ''email'' ''must be a valid email address'' [];
          fs = put_field (RuneCount username = 0 \<or> RuneCount username > 100) ''username'' ''must contain 1 to 100 characters'' fs
      in put_field (RuneCount password < 12 \<or> RuneCount password > 1024) ''password'' ''must contain 12 to 1024 characters'' fs)"

definition Auth_Register :: "'w Service \<Rightarrow> 'w AuthenticationService \<Rightarrow> RegisterInput \<Rightarrow> ('w, User) call" where
  "Auth_Register base s input =
     bindE (ar_Authentication (as_repo s)) (\<lambda>state.
     if se_InitializedAt state = None \<or> \<not> se_RegistrationEnabled state then failE ErrAuthenticationForbidden
     else let r = normalizeEmail (sv_text base) (rg_Email input); username = TrimSpace (rg_Username input) in
       bindE (reject_fields (register_fields r username (rg_Password input))) (\<lambda>_.
       case r of
         Inl e \<Rightarrow> failE e
       | Inr email \<Rightarrow>
           bindE (check_domain (sv_text base) (se_AllowedEmailDomains state) email) (\<lambda>_.
           bindE (registration_receipt s state email (rg_EmailCode input)) (\<lambda>receipt.
           bindE (pw_Hash (sv_passwords base) (rg_Password input)) (\<lambda>hash.
           bindE (ar_Register (as_repo s)
             \<lparr>cu_Email = email, cu_Username = username, cu_Password = hash, cu_DisplayName = []\<rparr> receipt) (\<lambda>user.
           bindE (case receipt of None \<Rightarrow> retE () | Some c \<Rightarrow> bindE (tryE (vc_Consume (as_codes s) email ''register'' c)) (\<lambda>_. retE ())) (\<lambda>_.
           retE user)))))))"

section \<open>Settings\<close>

definition Auth_Settings :: "'w AuthenticationService \<Rightarrow> ('w, AuthenticationSettings) call" where
  "Auth_Settings s = bindE (ar_Authentication (as_repo s)) (\<lambda>v. retE (AuthenticationSettings.truncate v))"

definition Auth_PutSettings :: "'w Service \<Rightarrow> 'w AuthenticationService \<Rightarrow> AuthenticationSettings \<Rightarrow> ('w, unit) call" where
  "Auth_PutSettings base s v =
     (case AuthenticationSettings_Validate v of
        Some e \<Rightarrow> failE e
      | None \<Rightarrow> ar_PutAuthentication (as_repo s)
          (v\<lparr>se_AllowedEmailDomains := map (ToLower (tx_lower (sv_text base))) (se_AllowedEmailDomains v)\<rparr>))"

section \<open>Second factors\<close>

text \<open>\<open>SecuritySettings\<close>, the public part of the state.\<close>

record SecuritySettings =
  ss_RecoveryCodesExpiresAt :: "int option"
  ss_Mode :: string
  ss_TOTPEnabled :: bool
  ss_RecoveryCodesRemaining :: int

definition public_security :: "SecurityState \<Rightarrow> SecuritySettings" where
  "public_security v = \<lparr>ss_RecoveryCodesExpiresAt = sec_RecoveryCodesExpiresAt v, ss_Mode = sec_Mode v,
     ss_TOTPEnabled = sec_TOTPEnabled v, ss_RecoveryCodesRemaining = sec_RecoveryCodesRemaining v\<rparr>"

definition Auth_Security :: "'w Service \<Rightarrow> 'w AuthenticationService \<Rightarrow> string \<Rightarrow> ('w, SecuritySettings) call" where
  "Auth_Security base s i =
     bindE (requireActiveUser base i) (\<lambda>_.
     bindE (ar_Security (as_repo s) i) (\<lambda>v.
     if sec_RecoveryCodesExpiresAt v = None then retE (public_security (v\<lparr>sec_RecoveryCodesRemaining := 0\<rparr>))
     else bindE (clock s) (\<lambda>now.
       retE (public_security (if after (sec_RecoveryCodesExpiresAt v) now then v else v\<lparr>sec_RecoveryCodesRemaining := 0\<rparr>)))))"

definition Auth_PutSecurity :: "'w Service \<Rightarrow> 'w AuthenticationService \<Rightarrow> string \<Rightarrow> string \<Rightarrow> ('w, SecuritySettings) call" where
  "Auth_PutSecurity base s i mode =
     bindE (requireInitialized base) (\<lambda>_.
     bindE (ur_FindByID (sv_users base) i) (\<lambda>user.
     if \<not> user_Active user then failE ErrInvalidCredentials
     else bindE (ar_Security (as_repo s) i) (\<lambda>sec.
     if mode \<noteq> ''default'' \<and> mode \<noteq> ''email'' \<and> mode \<noteq> ''totp'' then failE ErrInvalidUserInput
     else if sec_TOTPEnabled sec \<and> mode \<noteq> ''totp'' then failE ErrAuthenticationForbidden
     else if mode = ''email'' \<and> user_EmailVerifiedAt user = None then failE ErrEmailNotVerified
     else if mode = ''totp'' \<and> \<not> sec_TOTPEnabled sec then failE ErrAuthenticationForbidden
     else let v = sec\<lparr>sec_Mode := mode\<rparr> in
       bindE (ar_SaveSecurity (as_repo s) i v (sec_Version sec)) (\<lambda>_. retE (public_security v)))))"

definition Auth_Enroll :: "'w Service \<Rightarrow> 'w AuthenticationService \<Rightarrow> string \<Rightarrow> SecurityProof \<Rightarrow> ('w, Enrollment) call" where
  "Auth_Enroll base s i prf =
     bindE (requireInitialized base) (\<lambda>_.
     bindE (ur_FindByID (sv_users base) i) (\<lambda>user.
     if \<not> user_Active user then failE ErrInvalidCredentials
     else if pw_Verify (sv_passwords base) (sp_Password prf) (user_PasswordHash user) \<noteq> Inr True then failE ErrInvalidCredentials
     else bindE (ar_Security (as_repo s) i) (\<lambda>sec.
     if sec_TOTPEnabled sec then failE ErrSecurityConflict
     else bindE (sf_NewSecret (as_crypto s) (user_Email user)) (\<lambda>(secret, uri).
     bindE (sf_Encrypt (as_crypto s) secret i) (\<lambda>encrypted.
     bindE (clock s) (\<lambda>now.
     bindE (ar_SaveSecurity (as_repo s) i
       (sec\<lparr>sec_PendingSecret := Some encrypted, sec_PendingExpiresAt := Some (now + 600000000000)\<rparr>) (sec_Version sec)) (\<lambda>_.
     retE \<lparr>en_Secret = secret, en_OTPAuthURI = uri, en_ExpiresIn = 600\<rparr>)))))))"

definition confirmed :: "SecurityState \<Rightarrow> int \<Rightarrow> string list \<Rightarrow> int \<Rightarrow> SecurityState" where
  "confirmed sec expiry hashes step =
     sec\<lparr>sec_Secret := sec_PendingSecret sec, sec_PendingSecret := None, sec_PendingExpiresAt := None,
       sec_RecoveryCodesExpiresAt := Some expiry, sec_RecoveryHashes := hashes, sec_RecoveryCodesRemaining := int (length hashes),
       sec_TOTPEnabled := True, sec_Mode := ''totp'', sec_LastTOTPStep := step\<rparr>"

definition Auth_Confirm :: "'w Service \<Rightarrow> 'w AuthenticationService \<Rightarrow> string \<Rightarrow> string \<Rightarrow> ('w, string list) call" where
  "Auth_Confirm base s i code =
     bindE (requireActiveUser base i) (\<lambda>_.
     bindE (ar_Security (as_repo s) i) (\<lambda>sec.
     if sec_TOTPEnabled sec \<or> sec_PendingExpiresAt sec = None then failE ErrInvalidCode
     else bindE (clock s) (\<lambda>now0.
     if \<not> after (sec_PendingExpiresAt sec) now0 then failE ErrInvalidCode
     else case sf_Decrypt (as_crypto s) (sec_PendingSecret sec) i of
       Inl e \<Rightarrow> failE e
     | Inr secret \<Rightarrow>
         bindE (clock s) (\<lambda>now.
         case sf_Verify (as_crypto s) secret code now (- 1) of
           Inl e \<Rightarrow> failE e
         | Inr step \<Rightarrow>
             bindE (sf_RecoveryCodes (as_crypto s)) (\<lambda>(codes, hashes).
             bindE (clock s) (\<lambda>now1.
             bindE (ar_SaveSecurity (as_repo s) i (confirmed sec (now1 + as_recoveryTTL s) hashes step) (sec_Version sec)) (\<lambda>_.
             retE codes)))))))"

definition disabled :: "SecurityState \<Rightarrow> SecurityState" where
  "disabled sec =
     sec\<lparr>sec_Version := int64 (sec_Version sec + 1), sec_Secret := None, sec_PendingSecret := None, sec_PendingExpiresAt := None,
       sec_RecoveryCodesExpiresAt := None, sec_RecoveryHashes := [], sec_RecoveryCodesRemaining := 0, sec_TOTPEnabled := False,
       sec_Mode := ''default'', sec_LastTOTPStep := - 1\<rparr>"

definition Auth_Disable :: "'w Service \<Rightarrow> 'w AuthenticationService \<Rightarrow> string \<Rightarrow> SecurityProof \<Rightarrow> ('w, unit) call" where
  "Auth_Disable base s i prf =
     bindE (requireInitialized base) (\<lambda>_.
     bindE (ur_FindByID (sv_users base) i) (\<lambda>user.
     if \<not> user_Active user then failE ErrInvalidCredentials
     else if pw_Verify (sv_passwords base) (sp_Password prf) (user_PasswordHash user) \<noteq> Inr True then failE ErrInvalidCredentials
     else bindE (ar_Security (as_repo s) i) (\<lambda>sec.
     if \<not> sec_TOTPEnabled sec then Service_RevokeAll base i
     else bindE (consumeProof s i sec [] (sp_Code prf) (sp_RecoveryCode prf)) (\<lambda>_.
       bindE (ar_SaveSecurity (as_repo s) i (disabled sec) (sec_Version (disabled sec))) (\<lambda>_.
       Service_RevokeAll base i)))))"

section \<open>Verification of the account's address\<close>

definition emailVerificationUser :: "'w Service \<Rightarrow> string \<Rightarrow> ('w, User) call" where
  "emailVerificationUser base i =
     bindE (requireInitialized base) (\<lambda>_.
     bindE (ur_FindByID (sv_users base) i) (\<lambda>user.
     if \<not> user_Active user then failE ErrInactiveUser else retE user))"

definition Auth_RequestEmailVerification :: "'w Service \<Rightarrow> 'w AuthenticationService \<Rightarrow> string \<Rightarrow> string \<Rightarrow> ('w, unit) call" where
  "Auth_RequestEmailVerification base s i ip =
     bindE (emailVerificationUser base i) (\<lambda>user.
     bindE (vc_Issue (as_codes s) (user_Email user) ''verify_email'' ip) (\<lambda>code.
     mapErrE (\<lambda>e. if e = ErrMailRejected then ErrAuthenticationUnavailable else e) (as_mail s (user_Email user) ''verify_email'' code)))"

definition Auth_VerifyEmail :: "'w Service \<Rightarrow> 'w AuthenticationService \<Rightarrow> string \<Rightarrow> string \<Rightarrow> ('w, User) call" where
  "Auth_VerifyEmail base s i code =
     bindE (emailVerificationUser base i) (\<lambda>user.
     bindE (code_fields code) (\<lambda>_.
     bindE (vc_Verify (as_codes s) (user_Email user) ''verify_email'' code) (\<lambda>receipt.
     bindE (ar_VerifyEmail (as_repo s) i (user_Email user) receipt) (\<lambda>verified.
     bindE (tryE (vc_Consume (as_codes s) (user_Email user) ''verify_email'' receipt)) (\<lambda>_.
     retE verified)))))"

end
