(* ===== verification/Service_Contract.thy ===== *)
theory Service_Contract
  imports Auth_Service
begin

text \<open>
  What the identity services inherit from what they use. A relation on the world that is reflexive and
  transitive and that every operation of every interface follows is respected by every operation of the
  services, on all their paths. The locale \<open>service_ports\<close> states the contract of the interfaces and
  proves this once; \<open>Deployment_Safety\<close> shows it for the stores of the repository.
\<close>

section \<open>Operations that respect a relation\<close>

definition follows :: "('w \<Rightarrow> 'w \<Rightarrow> bool) \<Rightarrow> ('w, 'e, 'a) op \<Rightarrow> bool" where
  "follows R m \<longleftrightarrow> (\<forall>w. R w (snd (m w)))"

lemma followsD: "follows R m \<Longrightarrow> R w (snd (m w))"
  by (simp add: follows_def)

locale preorder_world =
  fixes R :: "'w \<Rightarrow> 'w \<Rightarrow> bool"
  assumes R_refl: "R w w" and R_trans: "R u v \<Longrightarrow> R v w \<Longrightarrow> R u w"
begin

lemma follows_retE: "follows R (retE x)"
  by (simp add: follows_def R_refl)

lemma follows_failE: "follows R (failE e)"
  by (simp add: follows_def R_refl)

lemma follows_bindE:
  assumes "follows R m" and "\<And>x. follows R (f x)"
  shows "follows R (bindE m f)"
  unfolding follows_def
proof
  fix w
  obtain r w1 where m: "m w = (r, w1)" by force
  then have "R w w1" using followsD [OF assms(1), of w] by simp
  then show "R w (snd (bindE m f w))"
    using m followsD [OF assms(2)] R_trans by (cases r) (auto simp: bindE_def)
qed

lemma follows_mapErrE: "follows R m \<Longrightarrow> follows R (mapErrE g m)"
  unfolding follows_def mapErrE_def by (simp split: prod.splits sum.splits) (metis snd_conv)

lemma follows_tryE: "follows R m \<Longrightarrow> follows R (tryE m)"
  by (simp add: follows_def)

lemma follows_if: "follows R m \<Longrightarrow> follows R n \<Longrightarrow> follows R (if b then m else n)"
  by simp

lemma follows_option: "(z = None \<Longrightarrow> follows R m) \<Longrightarrow> (\<And>x. z = Some x \<Longrightarrow> follows R (f x)) \<Longrightarrow> follows R (case z of None \<Rightarrow> m | Some x \<Rightarrow> f x)"
  by (simp split: option.split)

lemma follows_sum: "(\<And>x. follows R (f x)) \<Longrightarrow> (\<And>x. follows R (g x)) \<Longrightarrow> follows R (case z of Inl x \<Rightarrow> f x | Inr x \<Rightarrow> g x)"
  by (simp split: sum.split)

lemma follows_prod: "(\<And>x y. follows R (f x y)) \<Longrightarrow> follows R (case z of (x, y) \<Rightarrow> f x y)"
  by (simp split: prod.split)

lemma follows_bool: "follows R m \<Longrightarrow> follows R n \<Longrightarrow> follows R (case b of True \<Rightarrow> m | False \<Rightarrow> n)"
  by (simp split: bool.split)

lemmas follows_rules = follows_retE follows_failE follows_bindE follows_mapErrE follows_tryE follows_if
  follows_option follows_sum follows_prod follows_bool

end

section \<open>The contract of the interfaces\<close>

definition users_respect :: "('w \<Rightarrow> 'w \<Rightarrow> bool) \<Rightarrow> 'w UserRepository \<Rightarrow> bool" where
  "users_respect R u \<longleftrightarrow> (\<forall>x. follows R (ur_FindByEmail u x)) \<and> (\<forall>x. follows R (ur_FindByID u x)) \<and>
     (\<forall>x y z. follows R (ur_List u x y z)) \<and> (\<forall>x. follows R (ur_Create u x))"

definition preferences_respect :: "('w \<Rightarrow> 'w \<Rightarrow> bool) \<Rightarrow> 'w PreferencesRepository \<Rightarrow> bool" where
  "preferences_respect R p \<longleftrightarrow> (\<forall>x. follows R (pr_GetPreferences p x)) \<and> (\<forall>x y. follows R (pr_PutPreferences p x y))"

definition management_respect :: "('w \<Rightarrow> 'w \<Rightarrow> bool) \<Rightarrow> 'w ManagementRepository \<Rightarrow> bool" where
  "management_respect R m \<longleftrightarrow> (\<forall>x y. follows R (mr_UpdateUser m x y)) \<and> (\<forall>x y. follows R (mr_UpdateUserPassword m x y)) \<and>
     (\<forall>x y. follows R (mr_SetUserActive m x y)) \<and> (\<forall>x y. follows R (mr_ReplaceUserRoles m x y)) \<and> (\<forall>x. follows R (mr_Role m x)) \<and>
     (\<forall>x. follows R (mr_CreateRole m x)) \<and> (\<forall>x y. follows R (mr_UpdateRole m x y)) \<and> (\<forall>x. follows R (mr_DeleteRole m x)) \<and>
     (\<forall>x y. follows R (mr_ReplaceRolePermissions m x y))"

definition rbac_respect :: "('w \<Rightarrow> 'w \<Rightarrow> bool) \<Rightarrow> 'w RBACRepository \<Rightarrow> bool" where
  "rbac_respect R r \<longleftrightarrow> (\<forall>x. follows R (rr_PermissionsForUser r x)) \<and> follows R (rr_Roles r) \<and> follows R (rr_Permissions r) \<and>
     (\<forall>x y. follows R (rr_AssignRole r x y)) \<and> (\<forall>x y. follows R (rr_GrantPermission r x y))"

definition refresh_respect :: "('w \<Rightarrow> 'w \<Rightarrow> bool) \<Rightarrow> 'w RefreshPort \<Rightarrow> bool" where
  "refresh_respect R f \<longleftrightarrow> (\<forall>x. follows R (rf_Issue f x)) \<and> (\<forall>x. follows R (rf_Lookup f x)) \<and> (\<forall>x y. follows R (rf_Rotate f x y)) \<and>
     (\<forall>x. follows R (rf_Revoke f x)) \<and> (\<forall>x. follows R (rf_RevokeAll f x))"

definition authentication_respect :: "('w \<Rightarrow> 'w \<Rightarrow> bool) \<Rightarrow> 'w AuthenticationRepository \<Rightarrow> bool" where
  "authentication_respect R a \<longleftrightarrow> follows R (ar_Authentication a) \<and> (\<forall>x. follows R (ar_PutAuthentication a x)) \<and>
     (\<forall>x. follows R (ar_Initialize a x)) \<and> (\<forall>x. follows R (ar_Security a x)) \<and> (\<forall>x y z. follows R (ar_SaveSecurity a x y z)) \<and>
     (\<forall>x y. follows R (ar_Register a x y)) \<and> (\<forall>x y z. follows R (ar_VerifyEmail a x y z)) \<and>
     (\<forall>x y z u v. follows R (ar_ConsumeCredential a x y z u v))"

definition codes_respect :: "('w \<Rightarrow> 'w \<Rightarrow> bool) \<Rightarrow> 'w VerificationCodeStore \<Rightarrow> bool" where
  "codes_respect R c \<longleftrightarrow> (\<forall>x y z. follows R (vc_Issue c x y z)) \<and> (\<forall>x y z. follows R (vc_Verify c x y z)) \<and>
     (\<forall>x y z. follows R (vc_VerifyAndConsume c x y z)) \<and> (\<forall>x y z. follows R (vc_Consume c x y z))"

definition crypto_respect :: "('w \<Rightarrow> 'w \<Rightarrow> bool) \<Rightarrow> 'w SecondFactorCrypto \<Rightarrow> bool" where
  "crypto_respect R c \<longleftrightarrow> (\<forall>x. follows R (sf_NewSecret c x)) \<and> (\<forall>x y. follows R (sf_Encrypt c x y)) \<and> follows R (sf_RecoveryCodes c)"

definition challenges_respect :: "('w \<Rightarrow> 'w \<Rightarrow> bool) \<Rightarrow> 'w Challenges \<Rightarrow> bool" where
  "challenges_respect R c \<longleftrightarrow> (\<forall>x. follows R (cs_Issue c x)) \<and> (\<forall>x. follows R (cs_Attempt c x)) \<and> (\<forall>x. follows R (cs_Consume c x))"

locale service_ports = preorder_world R for R :: "'w \<Rightarrow> 'w \<Rightarrow> bool" +
  fixes base :: "'w Service" and auth :: "'w AuthenticationService"
  assumes attached: "sv_authentication base = Some auth"
    and users_ok: "users_respect R (sv_users base)"
    and preferences_ok: "sv_preferences base = Some p \<Longrightarrow> preferences_respect R p"
    and management_ok: "sv_management base = Some m \<Longrightarrow> management_respect R m"
    and unmanaged_ok: "sv_management base = None \<Longrightarrow> follows R (ur_SetActive (sv_users base) x b)"
    and rbac_ok: "sv_rbac base = Some r \<Longrightarrow> rbac_respect R r"
    and hash_ok: "follows R (pw_Hash (sv_passwords base) x)"
    and jwt_ok: "follows R (jwt_Issue (sv_jwt base) x)"
    and refresh_ok: "refresh_respect R (sv_refresh base)"
    and authentication_ok: "authentication_respect R (as_repo auth)"
    and codes_ok: "codes_respect R (as_codes auth)"
    and mail_ok: "follows R (as_mail auth x y z)"
    and crypto_ok: "crypto_respect R (as_crypto auth)"
    and challenges_ok: "challenges_respect R (as_challenges auth)"
    and clock_ok: "R w (snd (as_now auth w))"
begin

lemma port_calls:
  "follows R (ur_FindByEmail (sv_users base) a1)" "follows R (ur_FindByID (sv_users base) a1)" "follows R (ur_List (sv_users base) a2 n1 n2)"
  "follows R (ur_Create (sv_users base) a3)"
  "follows R (rf_Issue (sv_refresh base) a1)" "follows R (rf_Lookup (sv_refresh base) a1)" "follows R (rf_Rotate (sv_refresh base) a1 a4)"
  "follows R (rf_Revoke (sv_refresh base) a1)" "follows R (rf_RevokeAll (sv_refresh base) a1)"
  "follows R (ar_Authentication (as_repo auth))" "follows R (ar_PutAuthentication (as_repo auth) a5)" "follows R (ar_Initialize (as_repo auth) a1)"
  "follows R (ar_Security (as_repo auth) a1)" "follows R (ar_SaveSecurity (as_repo auth) a1 a6 n1)" "follows R (ar_Register (as_repo auth) a3 a7)"
  "follows R (ar_VerifyEmail (as_repo auth) a1 a4 a8)" "follows R (ar_ConsumeCredential (as_repo auth) a1 a4 n1 n2 a9)"
  "follows R (vc_Issue (as_codes auth) a1 a4 a9)" "follows R (vc_Verify (as_codes auth) a1 a4 a9)"
  "follows R (vc_VerifyAndConsume (as_codes auth) a1 a4 a9)" "follows R (vc_Consume (as_codes auth) a1 a4 a8)"
  "follows R (sf_NewSecret (as_crypto auth) a1)" "follows R (sf_Encrypt (as_crypto auth) a1 a4)" "follows R (sf_RecoveryCodes (as_crypto auth))"
  "follows R (cs_Issue (as_challenges auth) a10)" "follows R (cs_Attempt (as_challenges auth) a1)" "follows R (cs_Consume (as_challenges auth) a1)"
  "follows R (clock auth)"
  using users_ok refresh_ok authentication_ok codes_ok crypto_ok challenges_ok clock_ok
  by (auto simp: users_respect_def refresh_respect_def authentication_respect_def codes_respect_def crypto_respect_def challenges_respect_def
      clock_def follows_def)

lemmas calls = port_calls hash_ok jwt_ok mail_ok

text \<open>Calls through repositories that may be missing.\<close>

lemma follows_rbac: "(\<And>r. sv_rbac base = Some r \<Longrightarrow> follows R (f r)) \<Longrightarrow> follows R (bindE (rbac base) f)"
  by (cases "sv_rbac base") (auto simp: rbac_def follows_def bindE_def R_refl)

lemma follows_management: "(\<And>m. sv_management base = Some m \<Longrightarrow> follows R (f m)) \<Longrightarrow> follows R (bindE (managementRepository base) f)"
  by (cases "sv_management base") (auto simp: managementRepository_def follows_def bindE_def R_refl)

lemma management_calls:
  assumes "sv_management base = Some m"
  shows "follows R (mr_UpdateUser m a1 b1)" "follows R (mr_UpdateUserPassword m a1 a2)" "follows R (mr_SetUserActive m a1 b2)"
    "follows R (mr_ReplaceUserRoles m a1 a3)" "follows R (mr_Role m a1)" "follows R (mr_CreateRole m b3)"
    "follows R (mr_UpdateRole m a1 b3)" "follows R (mr_DeleteRole m a1)" "follows R (mr_ReplaceRolePermissions m a1 a3)"
  using management_ok [OF assms] by (simp_all add: management_respect_def)

lemma rbac_calls:
  assumes "sv_rbac base = Some r"
  shows "follows R (rr_PermissionsForUser r a1)" "follows R (rr_Roles r)" "follows R (rr_Permissions r)"
    "follows R (rr_AssignRole r a1 a2)" "follows R (rr_GrantPermission r a1 a2)"
  using rbac_ok [OF assms] by (simp_all add: rbac_respect_def)

lemma preferences_calls:
  assumes "sv_preferences base = Some p"
  shows "follows R (pr_GetPreferences p a1)" "follows R (pr_PutPreferences p a1 a2)"
  using preferences_ok [OF assms] by (simp_all add: preferences_respect_def)

lemma follows_helpers:
  "follows R (issuePair base a1)" "follows R (requireInitialized base)" "follows R (requireActiveUser base a1)"
  "follows R (Service_Logout base a1)" "follows R (Service_RevokeAll base a1)" "follows R (reject_fields fs)" "follows R (code_fields a1)"
  "follows R (credentials base a1 a2)" "follows R (emailVerificationUser base a1)" "follows R (check_domain tx ds a1)"
  unfolding issuePair_def requireActiveUser_def requireInitialized_def Service_Logout_def Service_RevokeAll_def reject_fields_def code_fields_def
    credentials_def emailVerificationUser_def check_domain_def Let_def attached option.case
  by (intro follows_rules calls)+

lemma follows_sessions:
  "follows R (Service_Refresh base a1)" "follows R (Service_CurrentUser base a1)" "follows R (Service_Preferences base a1)"
  "follows R (Service_PutPreferences base a1 b1)" "follows R (Service_Authorize base a1 a2)"
  unfolding Service_Refresh_def Service_CurrentUser_def Service_Preferences_def Service_PutPreferences_def Service_Authorize_def attached option.case
  by (intro follows_rules follows_rbac follows_helpers calls rbac_calls preferences_calls; assumption)+

lemma follows_management_ops:
  "follows R (Service_Users base q)" "follows R (Service_CreateUser base c)" "follows R (Service_UpdateUser base a1 u)"
  "follows R (Service_ResetUserPassword base a1 a2)" "follows R (Service_SetUserActive base a1 a2 b)" "follows R (Service_Roles base)"
  "follows R (Service_Permissions base)" "follows R (Service_ReplaceUserRoles base a1 ids)" "follows R (Service_Role base a1)"
  "follows R (Service_CreateRole base r)" "follows R (Service_UpdateRole base a1 r)" "follows R (Service_DeleteRole base a1)"
  "follows R (Service_ReplaceRolePermissions base a1 ids)" "follows R (Service_AssignRole base a1 a2)" "follows R (Service_GrantPermission base a1 a2)"
  unfolding Service_Users_def Service_CreateUser_def Service_UpdateUser_def Service_ResetUserPassword_def Service_SetUserActive_def Service_Roles_def
    Service_Permissions_def Service_ReplaceUserRoles_def Service_Role_def Service_CreateRole_def Service_UpdateRole_def Service_DeleteRole_def
    Service_ReplaceRolePermissions_def Service_AssignRole_def Service_GrantPermission_def Let_def
  by (intro follows_rules follows_rbac follows_management follows_helpers calls unmanaged_ok rbac_calls management_calls; assumption)+

lemma follows_proofs:
  "follows R (bootstrap_login base auth st u)" "follows R (totp_challenge base auth u v)" "follows R (email_factor auth u a1)"
  "follows R (consumeProof auth a1 v a2 a3 a4)" "follows R (registration_receipt auth st a1 a2)"
  unfolding bootstrap_login_def totp_challenge_def email_factor_def consumeProof_def registration_receipt_def Let_def
  by (intro follows_rules follows_helpers calls)+

lemma follows_logins:
  "follows R (Auth_Login base auth li)" "follows R (Service_Login base a1 a2)" "follows R (Auth_VerifyLogin base auth vi)"
  unfolding Auth_Login_def Service_Login_def Auth_VerifyLogin_def attached option.case Let_def
  by (intro follows_rules follows_helpers follows_proofs calls)+

lemma follows_registration:
  "follows R (Auth_RequestEmailCode base auth a1 a2 a3)" "follows R (Auth_Register base auth rg)"
  "follows R (Auth_RequestEmailVerification base auth a1 a2)" "follows R (Auth_VerifyEmail base auth a1 a2)"
  unfolding Auth_RequestEmailCode_def Auth_Register_def Auth_RequestEmailVerification_def Auth_VerifyEmail_def Let_def
  by (intro follows_rules follows_helpers follows_proofs calls)+

lemma follows_settings:
  "follows R (Auth_Settings auth)" "follows R (Auth_PutSettings base auth v)" "follows R (Auth_Security base auth a1)"
  "follows R (Auth_PutSecurity base auth a1 a2)" "follows R (Auth_Enroll base auth a1 p)" "follows R (Auth_Confirm base auth a1 a2)"
  "follows R (Auth_Disable base auth a1 p)"
  unfolding Auth_Settings_def Auth_PutSettings_def Auth_Security_def Auth_PutSecurity_def Auth_Enroll_def Auth_Confirm_def Auth_Disable_def Let_def
  by (intro follows_rules follows_helpers follows_proofs calls)+

end

end
