(* ===== verification/Base_Encoding.thy ===== *)
theory Base_Encoding
  imports Strconv
begin

text \<open>
  The encodings \<open>base64.RawURLEncoding\<close>, \<open>base64.RawStdEncoding\<close> and
  \<open>base32.StdEncoding.WithPadding(NoPadding)\<close> of Go's library, as the sources use them: the bits of the
  bytes, most significant first, are cut into groups of 6 or 5, the last one filled with zeros. The locale
  \<open>base_alphabet\<close> states what an alphabet has to satisfy and proves the round trip once.
\<close>

section \<open>Bits\<close>

fun byte_bits :: "char \<Rightarrow> bool list" where
  "byte_bits (Char b0 b1 b2 b3 b4 b5 b6 b7) = [b7, b6, b5, b4, b3, b2, b1, b0]"

definition bits_of :: "string \<Rightarrow> bool list" where
  "bits_of s = concat (map byte_bits s)"

fun bytes_of :: "bool list \<Rightarrow> string" where
  "bytes_of (b7 # b6 # b5 # b4 # b3 # b2 # b1 # b0 # bs) = Char b0 b1 b2 b3 b4 b5 b6 b7 # bytes_of bs"
| "bytes_of _ = []"

text \<open>Groups of \<open>Suc k\<close> bits.\<close>

function chunks :: "nat \<Rightarrow> bool list \<Rightarrow> bool list list" where
  "chunks k bs = (if bs = [] then [] else take (Suc k) (bs @ replicate (Suc k) False) # chunks k (drop (Suc k) bs))"
  by auto
termination by (relation "measure (length \<circ> snd)") auto

declare chunks.simps [simp del]

lemma chunks_Nil [simp]: "chunks k [] = []"
  by (simp add: chunks.simps)

lemma chunks_step: "bs \<noteq> [] \<Longrightarrow> chunks k bs = take (Suc k) (bs @ replicate (Suc k) False) # chunks k (drop (Suc k) bs)"
  by (subst chunks.simps) simp

fun bits_val :: "nat \<Rightarrow> bool list \<Rightarrow> nat" where
  "bits_val n [] = n"
| "bits_val n (b # bs) = bits_val (2 * n + (if b then 1 else 0)) bs"

fun val_bits :: "nat \<Rightarrow> nat \<Rightarrow> bool list" where
  "val_bits 0 n = []"
| "val_bits (Suc k) n = val_bits k (n div 2) @ [odd n]"

lemma length_byte_bits [simp]: "length (byte_bits c) = 8"
  by (cases c) simp

lemma length_bits_of [simp]: "length (bits_of s) = 8 * length s"
  by (induction s) (simp_all add: bits_of_def)

lemma bytes_of_short: "length bs < 8 \<Longrightarrow> bytes_of bs = []"
  by (cases bs rule: bytes_of.cases) simp_all

lemma bytes_of_bits_of: "length z < 8 \<Longrightarrow> bytes_of (bits_of s @ z) = s"
proof (induction s)
  case (Cons c s)
  then show ?case by (cases c) (simp add: bits_of_def)
qed (simp add: bits_of_def bytes_of_short)

lemma length_val_bits [simp]: "length (val_bits k n) = k"
  by (induction k arbitrary: n) simp_all

lemma bits_val_snoc: "bits_val n (bs @ [b]) = 2 * bits_val n bs + (if b then 1 else 0)"
  by (induction bs arbitrary: n) simp_all

lemma val_bits_val: "val_bits (length bs) (bits_val 0 bs) = bs"
  by (induction bs rule: rev_induct) (simp_all add: bits_val_snoc)

lemma bits_val_less: "bits_val 0 bs < 2 ^ length bs"
  by (induction bs rule: rev_induct) (auto simp: bits_val_snoc)

lemma chunks_length: "c \<in> set (chunks k bs) \<Longrightarrow> length c = Suc k"
proof (induction k bs rule: chunks.induct)
  case (1 k bs)
  then show ?case by (cases "bs = []") (auto simp: chunks_step)
qed

lemma concat_chunks: "\<exists>z. concat (chunks k bs) = bs @ replicate z False \<and> z \<le> k"
proof (induction k bs rule: chunks.induct)
  case (1 k bs)
  show ?case
  proof (cases "length bs \<le> Suc k")
    case True
    show ?thesis
    proof (cases "bs = []")
      case True
      then show ?thesis by (intro exI [of _ 0]) simp
    next
      case False
      moreover have "chunks k (drop (Suc k) bs) = []" using \<open>length bs \<le> Suc k\<close> by simp
      moreover have "Suc k - length bs \<le> k" using False by (cases bs) simp_all
      ultimately show ?thesis using \<open>length bs \<le> Suc k\<close>
        by (intro exI [of _ "Suc k - length bs"]) (simp add: chunks_step min_def del: replicate_Suc)
    qed
  next
    case False
    then have "bs \<noteq> []" by auto
    from 1 [OF this] obtain z where z: "concat (chunks k (drop (Suc k) bs)) = drop (Suc k) bs @ replicate z False" "z \<le> k" by blast
    from False have "take (Suc k) (bs @ replicate (Suc k) False) = take (Suc k) bs" by simp
    then have "concat (chunks k bs) = take (Suc k) bs @ drop (Suc k) bs @ replicate z False"
      using \<open>bs \<noteq> []\<close> z(1) by (simp add: chunks_step del: append_take_drop_id)
    then show ?thesis using z(2) by (metis append.assoc append_take_drop_id)
  qed
qed

lemma length_chunks: "length (chunks k bs) = (length bs + k) div Suc k"
proof (induction k bs rule: chunks.induct)
  case (1 k bs)
  show ?case
  proof (cases "bs = []")
    case False
    then have "length (chunks k bs) = Suc ((length bs - Suc k + k) div Suc k)" using 1 by (simp add: chunks_step)
    also have "\<dots> = (length bs + k) div Suc k"
    proof (cases "Suc k \<le> length bs")
      case True
      then have "length bs + k = (length bs - Suc k + k) + Suc k" by linarith
      then have "(length bs + k) div Suc k = ((length bs - Suc k + k) + Suc k) div Suc k" by (rule arg_cong)
      then show ?thesis by (simp only: div_add_self2)
    next
      case small: False
      then have "(length bs + k) div Suc k = ((length bs - 1) + Suc k) div Suc k" using False by (cases bs) simp_all
      moreover have "(length bs - 1) div Suc k = 0" "length bs - Suc k + k = k" using small by simp_all
      ultimately show ?thesis by (simp only: div_add_self2) simp
    qed
    finally show ?thesis .
  qed simp
qed

section \<open>Alphabets\<close>

definition base_encode :: "(nat \<Rightarrow> char) \<Rightarrow> nat \<Rightarrow> string \<Rightarrow> string" where
  "base_encode alph k s = map (\<lambda>c. alph (bits_val 0 c)) (chunks k (bits_of s))"

definition base_val :: "(nat \<Rightarrow> char) \<Rightarrow> nat \<Rightarrow> char \<Rightarrow> nat option" where
  "base_val alph k c = find (\<lambda>d. alph d = c) [0..<2 ^ Suc k]"

primrec base_vals :: "(nat \<Rightarrow> char) \<Rightarrow> nat \<Rightarrow> string \<Rightarrow> nat list option" where
  "base_vals alph k [] = Some []"
| "base_vals alph k (c # cs) = (case base_val alph k c of None \<Rightarrow> None | Some d \<Rightarrow> map_option (Cons d) (base_vals alph k cs))"

definition base_bytes :: "nat \<Rightarrow> nat list \<Rightarrow> string" where
  "base_bytes k ds = bytes_of (concat (map (val_bits (Suc k)) ds))"

text \<open>Go's decoders skip line ends.\<close>

definition no_line_ends :: "string \<Rightarrow> string" where
  "no_line_ends s = filter (\<lambda>c. c \<noteq> CHR 0x0D \<and> c \<noteq> CHR 0x0A) s"

locale base_alphabet =
  fixes alph :: "nat \<Rightarrow> char" and k :: nat
  assumes distinct_symbols: "distinct (map alph [0..<2 ^ Suc k])"
    and no_line_end: "d < 2 ^ Suc k \<Longrightarrow> alph d \<noteq> CHR 0x0D \<and> alph d \<noteq> CHR 0x0A"
    and group: "k < 8"
begin

lemma base_val_alph: "d < 2 ^ Suc k \<Longrightarrow> base_val alph k (alph d) = Some d"
proof -
  assume d: "d < 2 ^ Suc k"
  have inj: "inj_on alph (set [0..<2 ^ Suc k])" using distinct_symbols by (simp add: distinct_map)
  then have "alph e = alph d \<longleftrightarrow> e = d" if "e < 2 ^ Suc k" for e using that d by (auto dest: inj_onD)
  then show ?thesis using d unfolding base_val_def find_Some_iff by (intro exI [of _ d]) auto
qed

lemma base_vals_encode: "base_vals alph k (base_encode alph k s) = Some (map (bits_val 0) (chunks k (bits_of s)))"
proof -
  have "base_vals alph k (map (\<lambda>c. alph (bits_val 0 c)) cs) = Some (map (bits_val 0) cs)" if "\<forall>c \<in> set cs. length c = Suc k" for cs
    using that
  proof (induction cs)
    case (Cons c cs)
    then have "bits_val 0 c < 2 ^ Suc k" using bits_val_less [of c] by simp
    then show ?case using Cons by (simp add: base_val_alph del: power_Suc)
  qed simp
  then show ?thesis unfolding base_encode_def using chunks_length by blast
qed

lemma base_bytes_encode: "base_bytes k (map (bits_val 0) (chunks k (bits_of s))) = s"
proof -
  have "map (val_bits (Suc k) \<circ> bits_val 0) (chunks k (bits_of s)) = chunks k (bits_of s)"
    using chunks_length [of _ k "bits_of s"] val_bits_val by (auto intro!: map_idI simp del: val_bits.simps) (metis val_bits_val)
  moreover obtain z where "concat (chunks k (bits_of s)) = bits_of s @ replicate z False" "z \<le> k" using concat_chunks by blast
  ultimately show ?thesis using group by (simp add: base_bytes_def bytes_of_bits_of del: val_bits.simps)
qed

lemma encode_symbols: "c \<in> set (base_encode alph k s) \<Longrightarrow> \<exists>d < 2 ^ Suc k. c = alph d"
proof -
  assume "c \<in> set (base_encode alph k s)"
  then obtain g where g: "g \<in> set (chunks k (bits_of s))" "c = alph (bits_val 0 g)" by (auto simp: base_encode_def)
  then show ?thesis using bits_val_less [of g] chunks_length by (intro exI [of _ "bits_val 0 g"]) (simp del: power_Suc)
qed

lemma no_line_ends_encode: "no_line_ends (base_encode alph k s) = base_encode alph k s"
  using encode_symbols no_line_end unfolding no_line_ends_def by (intro filter_True ballI) metis

end

lemma length_base_encode: "length (base_encode alph k s) = (8 * length s + k) div Suc k"
  by (simp add: base_encode_def length_chunks)

section \<open>Base 64\<close>

definition encodeStd :: string where
  "encodeStd = ''ABCDEFGHIJKLMNOPQRSTUVWXYZabcdefghijklmnopqrstuvwxyz0123456789+/''"

definition encodeURL :: string where
  "encodeURL = ''ABCDEFGHIJKLMNOPQRSTUVWXYZabcdefghijklmnopqrstuvwxyz0123456789-_''"

definition url_char :: "nat \<Rightarrow> char" where
  "url_char d = encodeURL ! d"

definition std_char :: "nat \<Rightarrow> char" where
  "std_char d = encodeStd ! d"

definition base64_encode :: "(nat \<Rightarrow> char) \<Rightarrow> string \<Rightarrow> string" where
  "base64_encode alph s = base_encode alph 5 s"

text \<open>A single symbol in the last group is an error; the unused bits of the last group are not checked.\<close>

definition base64_decode :: "(nat \<Rightarrow> char) \<Rightarrow> string \<Rightarrow> string option" where
  "base64_decode alph s = (case base_vals alph 5 (no_line_ends s) of
      None \<Rightarrow> None
    | Some ds \<Rightarrow> if length ds mod 4 = 1 then None else Some (base_bytes 5 ds))"

lemma base_alphabet_string:
  assumes "distinct t" "length t = 2 ^ Suc k" "CHR 0x0D \<notin> set t" "CHR 0x0A \<notin> set t" "k < 8"
  shows "base_alphabet (\<lambda>d. t ! d) k"
proof
  show "distinct (map ((!) t) [0..<2 ^ Suc k])" using assms(1,2) by (metis map_nth)
  show "d < 2 ^ Suc k \<Longrightarrow> t ! d \<noteq> CHR 0x0D \<and> t ! d \<noteq> CHR 0x0A" for d using assms(2-4) by (metis nth_mem)
  show "k < 8" by (rule assms(5))
qed

lemma url_char_eq: "url_char = (\<lambda>d. encodeURL ! d)" and std_char_eq: "std_char = (\<lambda>d. encodeStd ! d)"
  by (simp_all add: fun_eq_iff url_char_def std_char_def)

interpretation url: base_alphabet url_char 5
  unfolding url_char_eq by (rule base_alphabet_string) (simp_all add: encodeURL_def)

interpretation std: base_alphabet std_char 5
  unfolding std_char_eq by (rule base_alphabet_string) (simp_all add: encodeStd_def)

text \<open>How many symbols a string has depends, up to whole groups, on its length within a group of bytes.\<close>

lemma group_count: "0 < b \<Longrightarrow> (m * n + c) div b mod m = (m * (n mod b) + c) div b mod (m :: nat)"
proof -
  assume b: "0 < b"
  have "m * n + c = (m * (n mod b) + c) + b * (m * (n div b))"
    by (metis (no_types, lifting) add.assoc add.commute add_mult_distrib2 mult.left_commute mult_div_mod_eq)
  then have "(m * n + c) div b = ((m * (n mod b) + c) + b * (m * (n div b))) div b" by (rule arg_cong)
  also have "\<dots> = m * (n div b) + (m * (n mod b) + c) div b" using b by (intro div_mult_self2) simp
  finally show ?thesis by simp
qed

lemma base64_length: "length (base64_encode alph s) mod 4 \<noteq> 1"
proof -
  have "length (base64_encode alph s) = (4 * length s + 2) div 3"
    using div_mult_mult1 [of 2 "4 * length s + 2" 3]
    by (simp add: base64_encode_def length_base_encode)
  moreover have "length s mod 3 \<in> {0, 1, 2}" by auto
  ultimately show ?thesis using group_count [of 3 4 "length s" 2] by auto
qed

lemma base64_groups: "length (chunks 5 (bits_of s)) mod 4 \<noteq> Suc 0"
  using base64_length [of url_char s] by (simp add: base64_encode_def base_encode_def)

lemma base64_url_roundtrip [simp]: "base64_decode url_char (base64_encode url_char s) = Some s"
  using base64_length [of url_char s] url.base_bytes_encode [of s]
  by (simp add: base64_decode_def base64_encode_def url.no_line_ends_encode url.base_vals_encode base64_groups)

lemma base64_std_roundtrip [simp]: "base64_decode std_char (base64_encode std_char s) = Some s"
  using base64_length [of std_char s] std.base_bytes_encode [of s]
  by (simp add: base64_decode_def base64_encode_def std.no_line_ends_encode std.base_vals_encode base64_groups)

lemma encode_lengths: "length encodeURL = 2 ^ Suc 5" "length encodeStd = 2 ^ Suc 5"
  by (simp_all add: encodeURL_def encodeStd_def)

lemma base64_url_no_dot: "CHR ''.'' \<notin> set (base64_encode url_char s)"
proof
  assume "CHR ''.'' \<in> set (base64_encode url_char s)"
  then obtain d where "d < 2 ^ Suc 5" "CHR ''.'' = encodeURL ! d"
    using url.encode_symbols unfolding base64_encode_def url_char_def by blast
  then have "CHR ''.'' \<in> set encodeURL" by (metis nth_mem encode_lengths(1))
  then show False by (simp add: encodeURL_def)
qed

lemma base64_std_no_dollar: "CHR ''$'' \<notin> set (base64_encode std_char s)"
proof
  assume "CHR ''$'' \<in> set (base64_encode std_char s)"
  then obtain d where "d < 2 ^ Suc 5" "CHR ''$'' = encodeStd ! d"
    using std.encode_symbols unfolding base64_encode_def std_char_def by blast
  then have "CHR ''$'' \<in> set encodeStd" by (metis nth_mem encode_lengths(2))
  then show False by (simp add: encodeStd_def)
qed

section \<open>Base 32\<close>

definition base32_alphabet :: string where
  "base32_alphabet = ''ABCDEFGHIJKLMNOPQRSTUVWXYZ234567''"

definition b32_char :: "nat \<Rightarrow> char" where
  "b32_char d = base32_alphabet ! d"

definition base32_encode :: "string \<Rightarrow> string" where
  "base32_encode s = base_encode b32_char 4 s"

text \<open>A last group of 1, 3 or 6 symbols, which no encoder produces, gives no bytes.\<close>

definition base32_decode :: "string \<Rightarrow> string option" where
  "base32_decode s = (case base_vals b32_char 4 (no_line_ends s) of
      None \<Rightarrow> None
    | Some ds \<Rightarrow> let r = length ds mod 8 in
        Some (base_bytes 4 (if r = 1 \<or> r = 3 \<or> r = 6 then take (length ds - r) ds else ds)))"

lemma b32_char_eq: "b32_char = (\<lambda>d. base32_alphabet ! d)"
  by (simp add: fun_eq_iff b32_char_def)

interpretation b32: base_alphabet b32_char 4
  unfolding b32_char_eq by (rule base_alphabet_string) (simp_all add: base32_alphabet_def)

lemma base32_roundtrip [simp]: "base32_decode (base32_encode s) = Some s"
proof -
  have "length (chunks 4 (bits_of s)) mod 8 = (8 * (length s mod 5) + 4) div 5 mod 8"
    using group_count [of 5 8 "length s" 4] by (simp add: length_chunks)
  moreover have "length s mod 5 \<in> {0, 1, 2, 3, 4}" by auto
  ultimately have "length (chunks 4 (bits_of s)) mod 8 \<notin> {1, 3, 6}" by auto
  then show ?thesis using b32.base_bytes_encode [of s]
    by (auto simp: base32_decode_def base32_encode_def b32.no_line_ends_encode b32.base_vals_encode Let_def)
qed

end
