(* ===== verification/Passwords.thy ===== *)
theory Passwords
  imports Iam_Ports Base_Encoding
begin

text \<open>
  Password hashing (\<open>src/pkg/modules/iam/password.go\<close>): the encoded form of an Argon2id hash, its parser with
  the bounds on the parameters, and the check of a password against it. Argon2 (a package outside the
  repository) and the random source are parameters; an error that wraps another is the error it wraps.
\<close>

section \<open>Scanning\<close>

text \<open>
  \<open>fmt.Sscanf\<close> with a verb \<open>%d\<close> for an unsigned operand of \<open>w\<close> bits: white space except line ends is
  skipped, the longest run of digits is taken and has to fit. A carriage return is skipped, and a line
  feed after it is then refused like any other.
\<close>

definition scan_spaces :: "string list" where
  "scan_spaces = filter (\<lambda>r. r \<noteq> [CHR 0x0A]) space_runes"

definition decimal_digit :: "char \<Rightarrow> bool" where
  "decimal_digit c = (digit_val c \<noteq> None)"

definition scan_uint :: "nat \<Rightarrow> string \<Rightarrow> (nat \<times> string) option" where
  "scan_uint w s =
     (let t = trim_by scan_spaces s in
      case decimal (takeWhile decimal_digit t) of
        None \<Rightarrow> None
      | Some n \<Rightarrow> if n < 2 ^ w then Some (n, dropWhile decimal_digit t) else None)"

definition scan_text :: "string \<Rightarrow> string \<Rightarrow> string option" where
  "scan_text p s = (if has_prefix s p then Some (drop (length p) s) else None)"

text \<open>\<open>fmt.Sscanf(s, "m=%d,t=%d,p=%d", ...)\<close>; input after the last number is left unread.\<close>

definition scan_params :: "string \<Rightarrow> (nat \<times> nat \<times> nat) option" where
  "scan_params s =
     Option.bind (scan_text ''m='' s) (\<lambda>s. Option.bind (scan_uint 32 s) (\<lambda>(m, s).
     Option.bind (scan_text '',t='' s) (\<lambda>s. Option.bind (scan_uint 32 s) (\<lambda>(t, s).
     Option.bind (scan_text '',p='' s) (\<lambda>s. Option.bind (scan_uint 8 s) (\<lambda>(p, s).
     Some (m, t, p)))))))"

lemma is_digit_digit_char [simp]: "d < 10 \<Longrightarrow> decimal_digit (digit_char d)"
  by (simp add: decimal_digit_def)

lemma FormatUint_digits: "c \<in> set (FormatUint n) \<Longrightarrow> decimal_digit c"
proof (induction n rule: FormatUint.induct)
  case (1 n)
  then show ?case by (subst (asm) (2) FormatUint.simps) (auto split: if_splits)
qed

lemma scan_spaces_digit: "decimal_digit c \<Longrightarrow> leading scan_spaces (c # s) = None"
proof -
  assume c: "decimal_digit c"
  have "list_all (\<lambda>r. r \<noteq> [] \<and> \<not> decimal_digit (hd r)) space_runes" by (simp add: space_runes_def decimal_digit_def digit_val_def)
  then have "\<not> has_prefix (c # s) r" if "r \<in> set scan_spaces" for r
    using that c unfolding scan_spaces_def list_all_iff by (cases r) auto
  then show ?thesis by (auto simp: leading_def find_None_iff)
qed

lemma FormatUint_nonempty [simp]: "FormatUint n \<noteq> []"
  using FormatUint_Cons [of n] by auto

lemma scan_uint_FormatUint [simp]:
  assumes "n < 2 ^ w" "r = [] \<or> \<not> decimal_digit (hd r)"
  shows "scan_uint w (FormatUint n @ r) = Some (n, r)"
proof -
  obtain d cs where d: "FormatUint n = digit_char d # cs" "d < 10" using FormatUint_Cons by blast
  have "trim_by scan_spaces (FormatUint n @ r) = FormatUint n @ r"
    using d scan_spaces_digit [of "digit_char d"] by (intro trim_by_fixed) simp
  moreover have "takeWhile decimal_digit (FormatUint n @ r) = FormatUint n" "dropWhile decimal_digit (FormatUint n @ r) = r"
    using assms(2) FormatUint_digits by (cases r; simp add: takeWhile_append2 dropWhile_append2)+
  ultimately show ?thesis using assms(1) by (simp add: scan_uint_def)
qed

lemma scan_text_append [simp]: "scan_text p (p @ s) = Some s"
  by (simp add: scan_text_def has_prefix_iff)

section \<open>Hashing\<close>

record Argon2Params =
  ap_Memory :: nat
  ap_Iterations :: nat
  ap_Parallelism :: nat
  ap_SaltLength :: nat
  ap_KeyLength :: nat

definition DefaultArgon2Params :: Argon2Params where
  "DefaultArgon2Params = \<lparr>ap_Memory = 64 * 1024, ap_Iterations = 3, ap_Parallelism = 2, ap_SaltLength = 16, ap_KeyLength = 32\<rparr>"

text \<open>\<open>argon2.IDKey(password, salt, time, memory, threads, keyLen)\<close>, which panics without rounds or threads.\<close>

type_synonym argon2 = "string \<Rightarrow> string \<Rightarrow> nat \<Rightarrow> nat \<Rightarrow> nat \<Rightarrow> nat \<Rightarrow> string"

definition IDKey :: "argon2 \<Rightarrow> string \<Rightarrow> string \<Rightarrow> nat \<Rightarrow> nat \<Rightarrow> nat \<Rightarrow> nat \<Rightarrow> iam_error + string" where
  "IDKey argon p salt time mem threads keyLen =
     (if time < 1 then Inl (OtherError ''panic: argon2: number of rounds too small'')
      else if threads < 1 then Inl (OtherError ''panic: argon2: parallelism degree too low'')
      else Inr (argon p salt time mem threads keyLen))"

definition encode_params :: "nat \<Rightarrow> nat \<Rightarrow> nat \<Rightarrow> string" where
  "encode_params m t p = ''m='' @ FormatUint m @ '',t='' @ FormatUint t @ '',p='' @ FormatUint p"

definition encode_hash :: "Argon2Params \<Rightarrow> string \<Rightarrow> string \<Rightarrow> string" where
  "encode_hash P salt key =
     join_with ''$'' [[], ''argon2id'', ''v=19'', encode_params (ap_Memory P) (ap_Iterations P) (ap_Parallelism P),
       base64_encode std_char salt, base64_encode std_char key]"

definition PasswordHasher_Hash :: "argon2 \<Rightarrow> (nat \<Rightarrow> ('w, string) call) \<Rightarrow> Argon2Params \<Rightarrow> string \<Rightarrow> ('w, string) call" where
  "PasswordHasher_Hash argon random P p =
     (if p = [] then failE (OtherError ''password must not be empty'')
      else bindE (random (ap_SaltLength P)) (\<lambda>salt w.
        case IDKey argon p salt (ap_Iterations P) (ap_Memory P) (ap_Parallelism P) (ap_KeyLength P) of
          Inl e \<Rightarrow> (Inl e, w)
        | Inr key \<Rightarrow> (Inr (encode_hash P salt key), w)))"

definition PasswordHasher_Verify :: "argon2 \<Rightarrow> string \<Rightarrow> string \<Rightarrow> iam_error + bool" where
  "PasswordHasher_Verify argon p encoded =
     (let parts = split_on CHR ''$'' encoded in
      if length parts \<noteq> 6 \<or> parts ! 1 \<noteq> ''argon2id'' \<or> parts ! 2 \<noteq> ''v=19'' then Inl (OtherError ''invalid argon2id hash'')
      else case scan_params (parts ! 3) of
        None \<Rightarrow> Inl (OtherError ''invalid argon2id parameters'')
      | Some (m, t, par) \<Rightarrow>
          if m < 8 * 1024 \<or> m > 256 * 1024 \<or> t = 0 \<or> t > 10 \<or> par = 0 \<or> par > 16 then Inl (OtherError ''unsafe argon2id parameters'')
          else case base64_decode std_char (parts ! 4) of
            None \<Rightarrow> Inl (OtherError ''invalid argon2id salt'')
          | Some salt \<Rightarrow> (case base64_decode std_char (parts ! 5) of
                None \<Rightarrow> Inl (OtherError ''invalid argon2id key'')
              | Some want \<Rightarrow>
                  if length want < 16 \<or> length want > 64 \<or> length salt < 8 \<or> length salt > 64 then Inl (OtherError ''invalid argon2id key'')
                  else (case IDKey argon p salt t m par (length want) of
                      Inl e \<Rightarrow> Inl e
                    | Inr got \<Rightarrow> Inr (got = want))))"

definition NewPasswordHasher :: "argon2 \<Rightarrow> (nat \<Rightarrow> ('w, string) call) \<Rightarrow> Argon2Params \<Rightarrow> 'w PasswordService" where
  "NewPasswordHasher argon random P = \<lparr>pw_Hash = PasswordHasher_Hash argon random P, pw_Verify = PasswordHasher_Verify argon\<rparr>"

section \<open>Round trip\<close>

text \<open>Parameters whose hashes the parser accepts.\<close>

definition safe_params :: "Argon2Params \<Rightarrow> bool" where
  "safe_params P \<longleftrightarrow> 8 * 1024 \<le> ap_Memory P \<and> ap_Memory P \<le> 256 * 1024 \<and> 1 \<le> ap_Iterations P \<and> ap_Iterations P \<le> 10
     \<and> 1 \<le> ap_Parallelism P \<and> ap_Parallelism P \<le> 16 \<and> 8 \<le> ap_SaltLength P \<and> ap_SaltLength P \<le> 64
     \<and> 16 \<le> ap_KeyLength P \<and> ap_KeyLength P \<le> 64"

lemma safe_DefaultArgon2Params [simp]: "safe_params DefaultArgon2Params"
  by (simp add: safe_params_def DefaultArgon2Params_def)

lemma default_params [simp]: "ap_Memory DefaultArgon2Params = 65536" "ap_Iterations DefaultArgon2Params = 3"
    "ap_Parallelism DefaultArgon2Params = 2" "ap_SaltLength DefaultArgon2Params = 16" "ap_KeyLength DefaultArgon2Params = 32"
  by (simp_all add: DefaultArgon2Params_def)

lemma scan_params_encode [simp]:
  assumes "m < 2 ^ 32" "t < 2 ^ 32" "p < 2 ^ 8"
  shows "scan_params (encode_params m t p) = Some (m, t, p)"
proof -
  have *: "\<not> decimal_digit CHR '',''" by (simp add: decimal_digit_def digit_val_def)
  have "scan_uint 32 (FormatUint m @ '',t='' @ FormatUint t @ '',p='' @ FormatUint p) = Some (m, '',t='' @ FormatUint t @ '',p='' @ FormatUint p)"
    "scan_uint 32 (FormatUint t @ '',p='' @ FormatUint p) = Some (t, '',p='' @ FormatUint p)"
    "scan_uint 8 (FormatUint p) = Some (p, [])"
    using assms * scan_uint_FormatUint [of p 8 "[]"] by simp_all
  then show ?thesis unfolding scan_params_def encode_params_def scan_text_append by (simp only: bind.bind_lunit prod.case scan_text_append)
qed

lemma encode_params_no_dollar: "CHR ''$'' \<notin> set (encode_params m t p)"
  using FormatUint_digits [of "CHR ''$''"] by (auto simp: encode_params_def decimal_digit_def digit_val_def)

lemma split_encode_hash:
  "split_on CHR ''$'' (encode_hash P salt key) =
     [[], ''argon2id'', ''v=19'', encode_params (ap_Memory P) (ap_Iterations P) (ap_Parallelism P),
       base64_encode std_char salt, base64_encode std_char key]"
  unfolding encode_hash_def using encode_params_no_dollar base64_std_no_dollar by (subst split_on_join) auto

text \<open>A check against the encoding of a salt and a key is the comparison of keys.\<close>

lemma Verify_encode_hash:
  assumes "safe_params P" "length salt = ap_SaltLength P" "length key = ap_KeyLength P"
  shows "PasswordHasher_Verify argon q (encode_hash P salt key)
    = Inr (argon q salt (ap_Iterations P) (ap_Memory P) (ap_Parallelism P) (ap_KeyLength P) = key)"
  using assms by (simp add: PasswordHasher_Verify_def split_encode_hash safe_params_def IDKey_def Let_def)

section \<open>Properties\<close>

text \<open>
  C15: Round trip of password hashes. With parameters in the bounds that \<open>Verify\<close> enforces, as the defaults are,
  \<open>Hash\<close> of a password that is not empty returns an encoded hash whenever the random source delivers a salt,
  and \<open>Verify\<close> of any password against that hash compares the Argon2 keys of the two passwords under that salt:
  it accepts the password itself, and another one only if both have the same key. Relied on: the random source
  and Argon2 return as many bytes as they are asked for.
\<close>

theorem password_roundtrip:
  assumes "safe_params P" "p \<noteq> []" "random (ap_SaltLength P) w = (Inr salt, w')"
    and "length salt = ap_SaltLength P" "\<forall>q s t m n k. length (argon q s t m n k) = k"
  shows "\<exists>h. PasswordHasher_Hash argon random P p w = (Inr h, w')
    \<and> (\<forall>q. PasswordHasher_Verify argon q h
         = Inr (argon q salt (ap_Iterations P) (ap_Memory P) (ap_Parallelism P) (ap_KeyLength P)
                = argon p salt (ap_Iterations P) (ap_Memory P) (ap_Parallelism P) (ap_KeyLength P)))"
  using assms by (intro exI [of _ "encode_hash P salt (argon p salt (ap_Iterations P) (ap_Memory P) (ap_Parallelism P) (ap_KeyLength P))"])
    (simp add: PasswordHasher_Hash_def IDKey_def Verify_encode_hash, simp add: safe_params_def)

definition demo_argon :: argon2 where
  "demo_argon p salt t m n k = take k (p @ salt @ replicate k CHR 0x00)"

lemma demo_argon_length [simp]: "length (demo_argon q s t m n k) = k"
  by (simp add: demo_argon_def)

theorem password_roundtrip_witness:
  "\<exists>h. PasswordHasher_Hash demo_argon (\<lambda>n w. (Inr (replicate n CHR ''s''), w)) DefaultArgon2Params ''pw'' () = (Inr h, ())
    \<and> (\<forall>q. PasswordHasher_Verify demo_argon q h
         = Inr (demo_argon q (replicate 16 CHR ''s'') 3 65536 2 32 = demo_argon ''pw'' (replicate 16 CHR ''s'') 3 65536 2 32))"
  using password_roundtrip [of DefaultArgon2Params "''pw''" "\<lambda>n w. (Inr (replicate n CHR ''s''), w)" "()" "replicate 16 CHR ''s''" "()" demo_argon]
  by simp

text \<open>
  A stored hash cannot make \<open>Verify\<close> expensive. Whatever the stored text is, the result depends on Argon2 only
  at between 8 and 256 MiB, 1 to 10 rounds, 1 to 16 threads, salts of 8 to 64 bytes and keys of 16 to 64: two
  versions of Argon2 that agree there give the same results and the same errors, and no call panics.
\<close>

theorem Verify_cost_bounded:
  assumes "\<forall>q s t m n k. 1 \<le> t \<and> t \<le> 10 \<and> 8 * 1024 \<le> m \<and> m \<le> 256 * 1024 \<and> 1 \<le> n \<and> n \<le> 16 \<and> 16 \<le> k \<and> k \<le> 64
      \<and> 8 \<le> length s \<and> length s \<le> 64 \<longrightarrow> a q s t m n k = (b :: argon2) q s t m n k"
  shows "PasswordHasher_Verify a p h = PasswordHasher_Verify b p h
    \<and> PasswordHasher_Verify a p h \<notin> {Inl (OtherError ''panic: argon2: number of rounds too small''),
         Inl (OtherError ''panic: argon2: parallelism degree too low'')}"
  using assms by (auto simp: PasswordHasher_Verify_def IDKey_def Let_def split: option.splits prod.splits)

theorem Verify_cost_bounded_witness:
  "PasswordHasher_Verify demo_argon ''pw'' ''$argon2id$v=19$m=999999,t=3,p=2$AAAAAAAAAAAAAAAAAAAAAA$AAAAAAAAAAAAAAAAAAAAAA''
     = PasswordHasher_Verify (\<lambda>q s t m n k. if m > 256 * 1024 then [] else demo_argon q s t m n k) ''pw''
         ''$argon2id$v=19$m=999999,t=3,p=2$AAAAAAAAAAAAAAAAAAAAAA$AAAAAAAAAAAAAAAAAAAAAA''"
  using Verify_cost_bounded [of demo_argon "\<lambda>q s t m n k. if m > 256 * 1024 then [] else demo_argon q s t m n k"] by simp

end
