(* ===== verification/Tokens.thy ===== *)
theory Tokens
  imports Iam_Ports Base_Encoding
begin

text \<open>
  Access tokens (\<open>src/pkg/modules/iam/token.go\<close>): the manager, issuing and parsing. HMAC-SHA256 and the JSON
  codec of the claims are parameters; times are nanoseconds since the epoch. The theorems: a token parses to
  the claims it was issued with until it expires, and an accepted token was issued, unless its bearer found
  a valid MAC of another text.
\<close>

section \<open>Manager\<close>

record AccessClaims =
  ac_Issuer :: string
  ac_Subject :: string
  ac_IssuedAt :: int
  ac_ExpiresAt :: int

text \<open>\<open>json.Marshal\<close> of the claims, and \<open>json.Unmarshal\<close> into claims and into a map of strings.\<close>

record token_codec =
  tc_marshal :: "AccessClaims \<Rightarrow> string"
  tc_claims :: "string \<Rightarrow> AccessClaims option"
  tc_header :: "string \<Rightarrow> (string \<rightharpoonup> string) option"

type_synonym mac = "string \<Rightarrow> string \<Rightarrow> string"

record JWTManager =
  jm_secret :: string
  jm_issuer :: string
  jm_ttl :: int

definition NewJWTManager :: "string \<Rightarrow> string \<Rightarrow> int \<Rightarrow> iam_error + JWTManager" where
  "NewJWTManager secret issuer ttl =
     (if length secret < 32 then Inl (OtherError ''JWT secret must contain at least 32 bytes'')
      else if TrimSpace issuer = [] \<or> ttl \<le> 0 then Inl (OtherError ''JWT issuer and positive TTL are required'')
      else Inr \<lparr>jm_secret = secret, jm_issuer = issuer, jm_ttl = ttl\<rparr>)"

definition unix :: "int \<Rightarrow> int" where
  "unix t = t div 1000000000"

definition jwt_sign :: "mac \<Rightarrow> JWTManager \<Rightarrow> string \<Rightarrow> string" where
  "jwt_sign hmac m v = base64_encode url_char (hmac (jm_secret m) v)"

text \<open>The keys of the map are marshalled in order.\<close>

definition jwt_header :: string where
  "jwt_header = ''{\"alg\":\"HS256\",\"typ\":\"JWT\"}''"

definition issued_claims :: "JWTManager \<Rightarrow> string \<Rightarrow> int \<Rightarrow> AccessClaims" where
  "issued_claims m subject now =
     \<lparr>ac_Issuer = jm_issuer m, ac_Subject = subject, ac_IssuedAt = unix now, ac_ExpiresAt = unix (now + jm_ttl m)\<rparr>"

definition jwt_unsigned :: "token_codec \<Rightarrow> JWTManager \<Rightarrow> string \<Rightarrow> int \<Rightarrow> string" where
  "jwt_unsigned codec m subject now =
     base64_encode url_char jwt_header @ ''.'' @ base64_encode url_char (tc_marshal codec (issued_claims m subject now))"

definition JWTManager_Issue :: "mac \<Rightarrow> token_codec \<Rightarrow> JWTManager \<Rightarrow> int \<Rightarrow> string \<Rightarrow> iam_error + string" where
  "JWTManager_Issue hmac codec m now subject =
     (if TrimSpace subject = [] then Inl (OtherError ''token subject is required'')
      else let unsigned = jwt_unsigned codec m subject now in Inr (unsigned @ ''.'' @ jwt_sign hmac m unsigned))"

definition JWTManager_Parse :: "mac \<Rightarrow> token_codec \<Rightarrow> JWTManager \<Rightarrow> int \<Rightarrow> string \<Rightarrow> iam_error + AccessClaims" where
  "JWTManager_Parse hmac codec m now raw =
     (let parts = split_on CHR ''.'' raw in
      if length parts \<noteq> 3 then Inl (OtherError ''invalid access token'')
      else if parts ! 2 \<noteq> jwt_sign hmac m (parts ! 0 @ ''.'' @ parts ! 1) then Inl (OtherError ''invalid access token signature'')
      else case base64_decode url_char (parts ! 0) of
        None \<Rightarrow> Inl (OtherError ''invalid access token header'')
      | Some header \<Rightarrow>
          if (case tc_header codec header of None \<Rightarrow> True | Some h \<Rightarrow> h ''alg'' \<noteq> Some ''HS256'' \<or> h ''typ'' \<noteq> Some ''JWT'')
          then Inl (OtherError ''unsupported access token'')
          else case base64_decode url_char (parts ! 1) of
            None \<Rightarrow> Inl (OtherError ''invalid access token payload'')
          | Some payload \<Rightarrow> (case tc_claims codec payload of
              None \<Rightarrow> Inl (OtherError ''decode access token'')
            | Some claims \<Rightarrow>
                if ac_Issuer claims \<noteq> jm_issuer m \<or> ac_Subject claims = [] \<or> ac_ExpiresAt claims \<le> unix now
                then Inl (OtherError ''access token expired or invalid'')
                else Inr claims))"

text \<open>The port of the services reads the clock.\<close>

definition jwt_port :: "mac \<Rightarrow> token_codec \<Rightarrow> JWTManager \<Rightarrow> ('w \<Rightarrow> int \<times> 'w) \<Rightarrow> 'w JWTPort" where
  "jwt_port hmac codec m now =
     \<lparr>jwt_Issue = (\<lambda>subject w. if TrimSpace subject = [] then (Inl (OtherError ''token subject is required''), w)
        else (JWTManager_Issue hmac codec m (fst (now w)) subject, snd (now w))), jwt_ttl = jm_ttl m\<rparr>"

section \<open>Issued tokens\<close>

text \<open>What is relied on of the JSON package: it reads back what it wrote.\<close>

definition reads_header :: "token_codec \<Rightarrow> bool" where
  "reads_header codec \<longleftrightarrow> (case tc_header codec jwt_header of None \<Rightarrow> False | Some h \<Rightarrow> h ''alg'' = Some ''HS256'' \<and> h ''typ'' = Some ''JWT'')"

definition reads_claims :: "token_codec \<Rightarrow> AccessClaims \<Rightarrow> bool" where
  "reads_claims codec c \<longleftrightarrow> tc_claims codec (tc_marshal codec c) = Some c"

lemma jwt_sign_no_dot: "CHR ''.'' \<notin> set (jwt_sign hmac m v)"
  by (simp add: jwt_sign_def base64_url_no_dot)

lemma split_token:
  assumes "CHR ''.'' \<notin> set h" "CHR ''.'' \<notin> set p"
  shows "split_on CHR ''.'' ((h @ ''.'' @ p) @ ''.'' @ jwt_sign hmac m v) = [h, p, jwt_sign hmac m v]"
  using assms jwt_sign_no_dot [of hmac m v]
  by (simp add: split_on_append_sep split_on_no_sep)

lemma Parse_unsigned:
  assumes "reads_header codec" "reads_claims codec (issued_claims m subject now)"
    and "TrimSpace subject \<noteq> []"
  shows "JWTManager_Parse hmac codec m later (jwt_unsigned codec m subject now @ ''.'' @ jwt_sign hmac m (jwt_unsigned codec m subject now))
    = (if unix (now + jm_ttl m) \<le> unix later then Inl (OtherError ''access token expired or invalid'')
       else Inr (issued_claims m subject now))"
proof -
  let ?h = "base64_encode url_char jwt_header"
  let ?p = "base64_encode url_char (tc_marshal codec (issued_claims m subject now))"
  let ?u = "jwt_unsigned codec m subject now"
  have u: "?u = ?h @ ''.'' @ ?p" by (simp add: jwt_unsigned_def)
  have s: "split_on CHR ''.'' (?u @ ''.'' @ jwt_sign hmac m ?u) = [?h, ?p, jwt_sign hmac m ?u]"
    unfolding u by (rule split_token) (rule base64_url_no_dot)+
  have "subject \<noteq> []" using assms(3) by auto
  moreover obtain hd where "tc_header codec jwt_header = Some hd" "hd ''alg'' = Some ''HS256''" "hd ''typ'' = Some ''JWT''"
    using assms(1) by (auto simp: reads_header_def split: option.splits)
  ultimately show ?thesis using assms(2) u unfolding JWTManager_Parse_def s
    by (simp add: reads_claims_def issued_claims_def)
qed

text \<open>
  What an accepted token is: two texts without a dot and the MAC of both, whose payload decodes to the claims.
\<close>

lemma split_on_three: "split_on c s = [a, b, d] \<Longrightarrow> s = a @ c # b @ c # d"
  using join_split_on [of c s] by simp

lemma Parse_accepts:
  assumes "JWTManager_Parse hmac codec m now raw = Inr c"
  obtains h p where "raw = (h @ ''.'' @ p) @ ''.'' @ jwt_sign hmac m (h @ ''.'' @ p)"
    "Option.bind (base64_decode url_char p) (tc_claims codec) = Some c" "CHR ''.'' \<notin> set h" "CHR ''.'' \<notin> set p"
    "unix now < ac_ExpiresAt c" "ac_Issuer c = jm_issuer m" "ac_Subject c \<noteq> []"
proof -
  define parts where "parts = split_on CHR ''.'' raw"
  from assms have 3: "length parts = 3" by (auto simp: JWTManager_Parse_def parts_def Let_def split: if_splits)
  then obtain h p s where parts: "parts = [h, p, s]" by (auto simp: eval_nat_numeral length_Suc_conv)
  from assms have s: "s = jwt_sign hmac m (h @ ''.'' @ p)" and c: "unix now < ac_ExpiresAt c" "ac_Issuer c = jm_issuer m" "ac_Subject c \<noteq> []"
    "Option.bind (base64_decode url_char p) (tc_claims codec) = Some c"
    unfolding JWTManager_Parse_def Let_def parts_def [symmetric] parts by (auto split: if_splits option.splits)
  have "raw = (h @ ''.'' @ p) @ ''.'' @ jwt_sign hmac m (h @ ''.'' @ p)" using split_on_three parts unfolding parts_def s by fastforce
  moreover have "CHR ''.'' \<notin> set h" "CHR ''.'' \<notin> set p" using parts split_on_parts [of _ "CHR ''.''" raw] unfolding parts_def by simp_all
  ultimately show ?thesis using that c by blast
qed

text \<open>The texts a manager has signed for the subjects and times of a log, the latest first.\<close>

definition signed_texts :: "token_codec \<Rightarrow> JWTManager \<Rightarrow> (string \<times> int) list \<Rightarrow> string set" where
  "signed_texts codec m log = {jwt_unsigned codec m subject now | subject now. (subject, now) \<in> set log \<and> TrimSpace subject \<noteq> []}"

text \<open>The premise about the bearer of a token: no valid MAC of a text that the manager has not signed.\<close>

definition not_forged :: "mac \<Rightarrow> token_codec \<Rightarrow> JWTManager \<Rightarrow> (string \<times> int) list \<Rightarrow> string \<Rightarrow> bool" where
  "not_forged hmac codec m log raw \<longleftrightarrow> (\<forall>v. raw = v @ ''.'' @ jwt_sign hmac m v \<longrightarrow> v \<in> signed_texts codec m log)"

lemma same_parts:
  assumes "h @ ''.'' @ p = h' @ ''.'' @ p'" "CHR ''.'' \<notin> set h" "CHR ''.'' \<notin> set h'"
  shows "h = h' \<and> p = p'"
proof -
  have "cut_at CHR ''.'' (h @ CHR ''.'' # p) = cut_at CHR ''.'' (h' @ CHR ''.'' # p')" using assms(1) by simp
  then show ?thesis unfolding cut_at_append_sep [OF assms(2)] cut_at_append_sep [OF assms(3)] by simp
qed

lemma accepted_claims:
  assumes "JWTManager_Parse hmac codec m now raw = Inr c" "not_forged hmac codec m log raw"
    and "\<forall>(subject, t) \<in> set log. reads_claims codec (issued_claims m subject t)"
  shows "\<exists>(subject, t) \<in> set log. c = issued_claims m subject t"
proof -
  from assms(1) obtain h p where raw: "raw = (h @ ''.'' @ p) @ ''.'' @ jwt_sign hmac m (h @ ''.'' @ p)"
    and c: "Option.bind (base64_decode url_char p) (tc_claims codec) = Some c" and dots: "CHR ''.'' \<notin> set h"
    by (rule Parse_accepts)
  from raw assms(2) have "h @ ''.'' @ p \<in> signed_texts codec m log" unfolding not_forged_def by blast
  then obtain subject t where st: "(subject, t) \<in> set log" "h @ ''.'' @ p = jwt_unsigned codec m subject t"
    unfolding signed_texts_def by blast
  from st(2) have "p = base64_encode url_char (tc_marshal codec (issued_claims m subject t))"
    unfolding jwt_unsigned_def using same_parts dots base64_url_no_dot by blast
  then have "c = issued_claims m subject t" using c assms(3) st(1) by (auto simp: reads_claims_def)
  then show ?thesis using st(1) by blast
qed

text \<open>A token determines the text it signs, so an issued one is not a forgery.\<close>

lemma not_forged_issued:
  assumes "(subject, t) \<in> set log" "TrimSpace subject \<noteq> []"
  shows "not_forged hmac codec m log (jwt_unsigned codec m subject t @ ''.'' @ jwt_sign hmac m (jwt_unsigned codec m subject t))"
  unfolding not_forged_def
proof (intro allI impI)
  fix v assume v: "jwt_unsigned codec m subject t @ ''.'' @ jwt_sign hmac m (jwt_unsigned codec m subject t) = v @ ''.'' @ jwt_sign hmac m v"
  from arg_cong [OF v, of rev] have "rev (jwt_sign hmac m (jwt_unsigned codec m subject t)) @ ''.'' @ rev (jwt_unsigned codec m subject t)
      = rev (jwt_sign hmac m v) @ ''.'' @ rev v" by simp
  then have "v = jwt_unsigned codec m subject t" using same_parts jwt_sign_no_dot by (metis rev_rev_ident set_rev)
  then show "v \<in> signed_texts codec m log" using assms by (auto simp: signed_texts_def)
qed

section \<open>Properties\<close>

text \<open>
  C14: Round trip of access tokens. For a subject that is not blank, \<open>Issue\<close> returns a token, and \<open>Parse\<close> of
  that token returns the claims it was issued with as long as the second of its expiry has not come, and
  refuses it as expired from then on. Relied on: the JSON package reads back the header and these claims.
\<close>

theorem token_roundtrip:
  assumes "reads_header codec" "reads_claims codec (issued_claims m subject now)" "TrimSpace subject \<noteq> []"
  shows "\<exists>raw. JWTManager_Issue hmac codec m now subject = Inr raw
    \<and> (\<forall>later. JWTManager_Parse hmac codec m later raw
         = (if unix (now + jm_ttl m) \<le> unix later then Inl (OtherError ''access token expired or invalid'')
            else Inr (issued_claims m subject now)))"
  using assms Parse_unsigned [OF assms] by (simp add: JWTManager_Issue_def Let_def)

text \<open>A codec for samples: one line per field.\<close>

definition lines_codec :: token_codec where
  "lines_codec =
     \<lparr>tc_marshal = (\<lambda>c. join_with [CHR 0x0A] [ac_Issuer c, ac_Subject c, FormatInt (ac_IssuedAt c), FormatInt (ac_ExpiresAt c)]),
      tc_claims = (\<lambda>s. case split_on CHR 0x0A s of
          [i, b, x, y] \<Rightarrow> Option.bind (ParseInt x) (\<lambda>x. map_option (\<lambda>y. \<lparr>ac_Issuer = i, ac_Subject = b, ac_IssuedAt = x, ac_ExpiresAt = y\<rparr>) (ParseInt y))
        | _ \<Rightarrow> None),
      tc_header = (\<lambda>s. if s = jwt_header then Some [''alg'' \<mapsto> ''HS256'', ''typ'' \<mapsto> ''JWT''] else None)\<rparr>"

definition demo_jwt :: JWTManager where
  "demo_jwt = \<lparr>jm_secret = replicate 32 CHR ''k'', jm_issuer = ''backend'', jm_ttl = 900 * 1000000000\<rparr>"

lemma lines_codec_reads [simp]: "reads_header lines_codec" "reads_claims lines_codec (issued_claims demo_jwt ''ada'' 1000000000000)"
  by code_simp+

lemma ada_not_blank [simp]: "TrimSpace ''ada'' = ''ada''"
  by code_simp

theorem token_roundtrip_witness:
  "\<exists>raw. JWTManager_Issue (\<lambda>k v. rev v) lines_codec demo_jwt 1000000000000 ''ada'' = Inr raw
    \<and> (\<forall>later. JWTManager_Parse (\<lambda>k v. rev v) lines_codec demo_jwt later raw
         = (if unix (1000000000000 + jm_ttl demo_jwt) \<le> unix later then Inl (OtherError ''access token expired or invalid'')
            else Inr (issued_claims demo_jwt ''ada'' 1000000000000)))"
  by (rule token_roundtrip) simp_all

text \<open>
  C13: Integrity of access tokens. A token that \<open>Parse\<close> accepts, and whose bearer has not found a valid MAC of a
  text that the manager never signed, carries exactly the claims of one of the issued tokens, neither another
  subject nor a later expiry, and that token has not expired yet.
\<close>

theorem token_integrity:
  assumes "JWTManager_Parse hmac codec m now raw = Inr c" "not_forged hmac codec m log raw"
    and "\<forall>(subject, t) \<in> set log. reads_claims codec (issued_claims m subject t)"
  shows "\<exists>(subject, t) \<in> set log. c = issued_claims m subject t \<and> unix now < unix (t + jm_ttl m)"
proof -
  from accepted_claims [OF assms] obtain subject t where st: "(subject, t) \<in> set log" "c = issued_claims m subject t" by blast
  moreover from assms(1) have "unix now < ac_ExpiresAt c" by (rule Parse_accepts)
  ultimately show ?thesis by (intro bexI [of _ "(subject, t)"]) (simp_all add: issued_claims_def)
qed

theorem token_integrity_witness:
  "\<exists>raw c. JWTManager_Issue (\<lambda>k v. rev v) lines_codec demo_jwt 1000000000000 ''ada'' = Inr raw
     \<and> JWTManager_Parse (\<lambda>k v. rev v) lines_codec demo_jwt 1500000000000 raw = Inr c
     \<and> (\<exists>(subject, t) \<in> set [(''ada'', 1000000000000)]. c = issued_claims demo_jwt subject t \<and> unix 1500000000000 < unix (t + jm_ttl demo_jwt))"
proof -
  let ?u = "jwt_unsigned lines_codec demo_jwt ''ada'' 1000000000000"
  let ?raw = "?u @ ''.'' @ jwt_sign (\<lambda>k v. rev v) demo_jwt ?u"
  have "JWTManager_Issue (\<lambda>k v. rev v) lines_codec demo_jwt 1000000000000 ''ada'' = Inr ?raw" by (simp add: JWTManager_Issue_def Let_def)
  moreover have p: "JWTManager_Parse (\<lambda>k v. rev v) lines_codec demo_jwt 1500000000000 ?raw = Inr (issued_claims demo_jwt ''ada'' 1000000000000)"
    by (subst Parse_unsigned) (simp_all, simp add: unix_def demo_jwt_def)
  moreover have "not_forged (\<lambda>k v. rev v) lines_codec demo_jwt [(''ada'', 1000000000000)] ?raw" by (rule not_forged_issued) simp_all
  ultimately show ?thesis using token_integrity [OF p, of "[(''ada'', 1000000000000)]"] by auto
qed

end
