(* ===== verification/Authcrypto.thy ===== *)
theory Authcrypto
  imports Tokens
begin

text \<open>
  Secrets of the second factor (\<open>src/pkg/platform/authcrypto/crypto.go\<close>): encryption of the secret, one-time
  passwords by RFC 6238 and recovery codes. AES-GCM, HMAC and the random source are parameters; byte slices
  are strings, a nil slice is \<open>None\<close>.
\<close>

section \<open>Encryption\<close>

text \<open>\<open>cipher.AEAD\<close>: the key, the nonce, the text and the additional data; \<open>Open\<close> fails with \<open>None\<close>.\<close>

record aead =
  ae_Seal :: "string \<Rightarrow> string \<Rightarrow> string \<Rightarrow> string \<Rightarrow> string"
  ae_Open :: "string \<Rightarrow> string \<Rightarrow> string \<Rightarrow> string \<Rightarrow> string option"

record Crypto =
  cr_key :: string
  cr_pepper :: string
  cr_issuer :: string

definition Crypto_New :: "string \<Rightarrow> string \<Rightarrow> string \<Rightarrow> iam_error + Crypto" where
  "Crypto_New key pepper issuer =
     (if length key \<noteq> 32 \<or> length pepper < 32
      then Inl (OtherError ''authentication encryption key and pepper must be 32 bytes'')
      else Inr \<lparr>cr_key = key, cr_pepper = pepper, cr_issuer = issuer\<rparr>)"

text \<open>The nonce size of GCM.\<close>

definition NonceSize :: nat where
  "NonceSize = 12"

definition Crypto_Encrypt :: "aead \<Rightarrow> (nat \<Rightarrow> ('w, string) call) \<Rightarrow> Crypto \<Rightarrow> string \<Rightarrow> string \<Rightarrow> ('w, string) call" where
  "Crypto_Encrypt ae random c secret user =
     bindE (random NonceSize) (\<lambda>nonce. retE (nonce @ ae_Seal ae (cr_key c) nonce secret user))"

definition Crypto_Decrypt :: "aead \<Rightarrow> Crypto \<Rightarrow> string option \<Rightarrow> string \<Rightarrow> iam_error + string" where
  "Crypto_Decrypt ae c raw user =
     (let raw = (case raw of None \<Rightarrow> [] | Some r \<Rightarrow> r) in
      if length raw < NonceSize then Inl ErrInvalidCode
      else case ae_Open ae (cr_key c) (take NonceSize raw) (drop NonceSize raw) user of
        None \<Rightarrow> Inl ErrInvalidCode
      | Some v \<Rightarrow> Inr v)"

section \<open>The address of a secret\<close>

text \<open>Percent encoding of \<open>net/url\<close>, in a path and in a query.\<close>

definition upper_hex_digit :: "nat \<Rightarrow> char" where
  "upper_hex_digit d = (if d < 10 then char_of (48 + d) else char_of (55 + d))"

definition percent :: "char \<Rightarrow> string" where
  "percent c = [CHR ''%'', upper_hex_digit (of_char c div 16), upper_hex_digit (of_char c mod 16)]"

definition unreserved :: "char \<Rightarrow> bool" where
  "unreserved c = (in_range 97 122 c \<or> in_range 65 90 c \<or> in_range 48 57 c \<or> c \<in> set ''-_.~'')"

definition path_escape :: "string \<Rightarrow> string" where
  "path_escape s = concat (map (\<lambda>c. if unreserved c \<or> c \<in> set ''$&+,/:;=@'' then [c] else percent c) s)"

definition QueryEscape :: "string \<Rightarrow> string" where
  "QueryEscape s = concat (map (\<lambda>c. if unreserved c then [c] else if c = CHR '' '' then ''+'' else percent c) s)"

text \<open>\<open>url.Values.Encode\<close>: the pairs in the order of their keys.\<close>

definition encode_values :: "(string \<times> string) list \<Rightarrow> string" where
  "encode_values vs = join_with ''&'' (map (\<lambda>(k, v). QueryEscape k @ ''='' @ QueryEscape v) vs)"

definition otpauth_uri :: "Crypto \<Rightarrow> string \<Rightarrow> string \<Rightarrow> string" where
  "otpauth_uri c email secret =
     ''otpauth://totp'' @ path_escape (''/'' @ cr_issuer c @ '':'' @ email) @ ''?'' @
       encode_values [(''algorithm'', ''SHA1''), (''digits'', ''6''), (''issuer'', cr_issuer c), (''period'', ''30''), (''secret'', secret)]"

definition Crypto_NewSecret :: "(nat \<Rightarrow> ('w, string) call) \<Rightarrow> Crypto \<Rightarrow> string \<Rightarrow> ('w, string \<times> string) call" where
  "Crypto_NewSecret random c email =
     bindE (random 20) (\<lambda>b. let secret = base32_encode b in retE (secret, otpauth_uri c email secret))"

section \<open>One-time passwords\<close>

text \<open>\<open>binary.BigEndian.PutUint64\<close> and \<open>Uint32\<close>.\<close>

primrec big_endian :: "nat \<Rightarrow> nat \<Rightarrow> string" where
  "big_endian 0 n = []"
| "big_endian (Suc k) n = big_endian k (n div 256) @ [char_of (n mod 256)]"

definition Uint32 :: "string \<Rightarrow> nat" where
  "Uint32 bs = foldl (\<lambda>n c. 256 * n + of_char c) 0 bs"

text \<open>\<open>fmt.Sprintf("%06d", n)\<close>.\<close>

definition pad_zeros :: "nat \<Rightarrow> string \<Rightarrow> string" where
  "pad_zeros k s = replicate (k - length s) CHR ''0'' @ s"

text \<open>The password of a time step: the dynamic truncation of the digest, six digits.\<close>

definition totp :: "mac \<Rightarrow> string \<Rightarrow> int \<Rightarrow> string" where
  "totp hmac1 key step =
     (let digest = hmac1 key (big_endian 8 (nat step mod 2 ^ 64));
          offset = of_char (last digest) mod 16;
          v = Uint32 (take 4 (drop offset digest)) mod 2 ^ 31
      in pad_zeros 6 (FormatUint (v mod 1000000)))"

text \<open>The loop over the offsets 0, -1 and 1.\<close>

primrec totp_search :: "mac \<Rightarrow> string \<Rightarrow> string \<Rightarrow> int \<Rightarrow> int \<Rightarrow> int list \<Rightarrow> iam_error + int" where
  "totp_search hmac1 key code current prev [] = Inl ErrInvalidCode"
| "totp_search hmac1 key code current prev (offset # os) =
     (let step = current + offset in
      if step \<le> prev \<or> step < 0 then totp_search hmac1 key code current prev os
      else if totp hmac1 key step = code then Inr step
      else totp_search hmac1 key code current prev os)"

definition Crypto_Verify :: "mac \<Rightarrow> string \<Rightarrow> string \<Rightarrow> int \<Rightarrow> int \<Rightarrow> iam_error + int" where
  "Crypto_Verify hmac1 secret code now prev =
     (if length code \<noteq> 6 then Inl ErrInvalidCode
      else if \<not> list_all (in_range 48 57) code then Inl ErrInvalidCode
      else case base32_decode secret of
        None \<Rightarrow> Inl ErrInvalidCode
      | Some key \<Rightarrow> totp_search hmac1 key code (go_div (unix now) 30) prev [0, -1, 1])"

section \<open>Recovery codes\<close>

definition Crypto_RecoveryHash :: "(string \<Rightarrow> string) \<Rightarrow> mac \<Rightarrow> Crypto \<Rightarrow> string \<Rightarrow> string" where
  "Crypto_RecoveryHash lower hmac c code = hex_encode (hmac (cr_pepper c) (''recovery:'' @ ToLower lower (TrimSpace code)))"

primrec recovery_codes :: "(string \<Rightarrow> string) \<Rightarrow> mac \<Rightarrow> (nat \<Rightarrow> ('w, string) call) \<Rightarrow> Crypto \<Rightarrow> nat \<Rightarrow> ('w, (string \<times> string) list) call" where
  "recovery_codes lower hmac random c 0 = retE []"
| "recovery_codes lower hmac random c (Suc n) =
     bindE (random 16) (\<lambda>b. bindE (recovery_codes lower hmac random c n) (\<lambda>rest.
       retE ((hex_encode b, Crypto_RecoveryHash lower hmac c (hex_encode b)) # rest)))"

definition Crypto_RecoveryCodes :: "(string \<Rightarrow> string) \<Rightarrow> mac \<Rightarrow> (nat \<Rightarrow> ('w, string) call) \<Rightarrow> Crypto \<Rightarrow> ('w, string list \<times> string list) call" where
  "Crypto_RecoveryCodes lower hmac random c =
     bindE (recovery_codes lower hmac random c 10) (\<lambda>ps. retE (map fst ps, map snd ps))"

text \<open>The port of the services; SHA-1 for the one-time passwords, SHA-256 for the recovery codes.\<close>

definition crypto_port :: "aead \<Rightarrow> mac \<Rightarrow> mac \<Rightarrow> (string \<Rightarrow> string) \<Rightarrow> (nat \<Rightarrow> ('w, string) call) \<Rightarrow> Crypto \<Rightarrow> 'w SecondFactorCrypto" where
  "crypto_port ae hmac1 hmac lower random c =
     \<lparr>sf_NewSecret = Crypto_NewSecret random c, sf_Encrypt = Crypto_Encrypt ae random c, sf_Decrypt = Crypto_Decrypt ae c,
      sf_Verify = Crypto_Verify hmac1, sf_RecoveryCodes = Crypto_RecoveryCodes lower hmac random c,
      sf_RecoveryHash = Crypto_RecoveryHash lower hmac c\<rparr>"

section \<open>Lemmas\<close>

lemma FormatUint_length: "n < 10 ^ Suc k \<Longrightarrow> length (FormatUint n) \<le> Suc k"
proof (induction k arbitrary: n)
  case 0
  then show ?case by (simp add: FormatUint.simps)
next
  case (Suc k)
  then have "n div 10 < 10 ^ Suc k" by (simp add: less_mult_imp_div_less)
  then show ?case using Suc.IH by (subst FormatUint.simps) auto
qed

lemma FormatUint_in_range: "c \<in> set (FormatUint n) \<Longrightarrow> in_range 48 57 c"
proof (induction n rule: FormatUint.induct)
  case (1 n)
  then show ?case by (subst (asm) (2) FormatUint.simps) (auto simp: in_range_def of_char_digit split: if_splits)
qed

lemma totp_code: "length (totp hmac1 key step) = 6" "list_all (in_range 48 57) (totp hmac1 key step)"
proof -
  have "length (FormatUint (v mod 1000000)) \<le> Suc 5" for v :: nat by (rule FormatUint_length) simp
  then show "length (totp hmac1 key step) = 6" by (simp add: totp_def pad_zeros_def Let_def)
  show "list_all (in_range 48 57) (totp hmac1 key step)"
    by (auto simp: totp_def pad_zeros_def Let_def list_all_iff in_range_def [of _ _ "CHR ''0''"] intro: FormatUint_in_range)
qed

lemma totp_search_Inr:
  "totp_search hmac1 key code current prev os = Inr step \<Longrightarrow>
     step - current \<in> set os \<and> prev < step \<and> 0 \<le> step \<and> totp hmac1 key step = code"
  by (induction os) (auto simp: Let_def split: if_splits)

lemma totp_search_complete:
  "offset \<in> set os \<Longrightarrow> prev < current + offset \<Longrightarrow> 0 \<le> current + offset \<Longrightarrow>
     \<exists>step. totp_search hmac1 key (totp hmac1 key (current + offset)) current prev os = Inr step"
  by (induction os) (auto simp: Let_def)

declare totp_search.simps [simp del]

text \<open>What \<open>Verify\<close> accepts: a step of the window, after the last one used, whose password is the code.\<close>

lemma Verify_step:
  assumes "Crypto_Verify hmac1 secret code now prev = Inr step"
  shows "prev < step \<and> 0 \<le> step \<and> \<bar>step - go_div (unix now) 30\<bar> \<le> 1
    \<and> (\<exists>key. base32_decode secret = Some key \<and> totp hmac1 key step = code)"
proof -
  from assms obtain key where "base32_decode secret = Some key" and s: "totp_search hmac1 key code (go_div (unix now) 30) prev [0, -1, 1] = Inr step"
    by (auto simp: Crypto_Verify_def split: if_splits option.splits)
  then show ?thesis using totp_search_Inr [OF s] by auto
qed

lemma Verify_complete:
  assumes "base32_decode secret = Some key" "prev < step" "0 \<le> step" "\<bar>step - go_div (unix now) 30\<bar> \<le> 1"
  shows "\<exists>s. Crypto_Verify hmac1 secret (totp hmac1 key step) now prev = Inr s"
proof -
  have "step - go_div (unix now) 30 \<in> set [0, -1, 1]" using assms(4) by auto
  from totp_search_complete [OF this, of prev "go_div (unix now) 30" hmac1 key]
  show ?thesis using assms totp_code by (simp add: Crypto_Verify_def)
qed

lemma Decrypt_Encrypt:
  assumes "random NonceSize w = (Inr nonce, w')" "length nonce = NonceSize"
    and "ae_Open ae (cr_key c) nonce (ae_Seal ae (cr_key c) nonce secret user) user = Some secret"
  shows "\<exists>raw. Crypto_Encrypt ae random c secret user w = (Inr raw, w') \<and> Crypto_Decrypt ae c (Some raw) user = Inr secret"
  using assms by (simp add: Crypto_Encrypt_def Crypto_Decrypt_def)

section \<open>Properties\<close>

text \<open>
  C16: Round trip of the second factor. A secret that \<open>NewSecret\<close> made and \<open>Encrypt\<close> sealed for a user is the one
  \<open>Decrypt\<close> returns for that user, and \<open>Verify\<close> with it accepts the password of a time step exactly when the
  step is at most one period away from the current one and later than the last step used, unless another such
  step has the same password; in each case the step returned is later than the last one used, so a password is
  never accepted twice. Relied on: the random source fills the nonce and the cipher opens what it sealed.
\<close>

theorem second_factor_roundtrip:
  assumes "random 20 w = (Inr key, w1)" "random NonceSize w1 = (Inr nonce, w2)" "length nonce = NonceSize"
    and "\<forall>p. ae_Open ae (cr_key c) nonce (ae_Seal ae (cr_key c) nonce p user) user = Some p"
  shows "\<exists>secret uri raw. Crypto_NewSecret random c email w = (Inr (secret, uri), w1)
    \<and> Crypto_Encrypt ae random c secret user w1 = (Inr raw, w2)
    \<and> Crypto_Decrypt ae c (Some raw) user = Inr secret
    \<and> (\<forall>code now prev. (\<exists>s. Crypto_Verify hmac1 secret code now prev = Inr s)
         \<longleftrightarrow> (\<exists>step. code = totp hmac1 key step \<and> prev < step \<and> 0 \<le> step \<and> \<bar>step - go_div (unix now) 30\<bar> \<le> 1))
    \<and> (\<forall>code now prev s. Crypto_Verify hmac1 secret code now prev = Inr s \<longrightarrow> prev < s \<and> totp hmac1 key s = code)"
proof -
  define secret where "secret = base32_encode key"
  have d: "base32_decode secret = Some key" by (simp add: secret_def)
  obtain raw where "Crypto_Encrypt ae random c secret user w1 = (Inr raw, w2)" "Crypto_Decrypt ae c (Some raw) user = Inr secret"
    using Decrypt_Encrypt [of random w1 nonce w2 ae c secret user] assms(2-4) by blast
  moreover have "Crypto_NewSecret random c email w = (Inr (secret, otpauth_uri c email secret), w1)"
    using assms(1) by (simp add: Crypto_NewSecret_def secret_def Let_def)
  moreover have "(\<exists>s. Crypto_Verify hmac1 secret code now prev = Inr s)
      \<longleftrightarrow> (\<exists>step. code = totp hmac1 key step \<and> prev < step \<and> 0 \<le> step \<and> \<bar>step - go_div (unix now) 30\<bar> \<le> 1)" for code now prev
  proof
    assume "\<exists>s. Crypto_Verify hmac1 secret code now prev = Inr s"
    then obtain s where "Crypto_Verify hmac1 secret code now prev = Inr s" by blast
    from Verify_step [OF this] d show "\<exists>step. code = totp hmac1 key step \<and> prev < step \<and> 0 \<le> step \<and> \<bar>step - go_div (unix now) 30\<bar> \<le> 1"
      by (intro exI [of _ s]) simp
  qed (use Verify_complete [OF d, of prev _ now hmac1] in blast)
  moreover have "Crypto_Verify hmac1 secret code now prev = Inr s \<Longrightarrow> prev < s \<and> totp hmac1 key s = code" for code now prev s
    using Verify_step [of hmac1 secret code now prev s] d by simp
  ultimately show ?thesis by blast
qed

definition demo_aead :: aead where
  "demo_aead = \<lparr>ae_Seal = (\<lambda>k n p ad. p @ k @ n @ ad), ae_Open = (\<lambda>k n x ad. if has_suffix x (k @ n @ ad) then Some (take (length x - length (k @ n @ ad)) x) else None)\<rparr>"

definition demo_crypto :: Crypto where
  "demo_crypto = \<lparr>cr_key = replicate 32 CHR ''k'', cr_pepper = replicate 32 CHR ''p'', cr_issuer = ''backend''\<rparr>"

theorem second_factor_roundtrip_witness:
  "\<exists>secret uri raw. Crypto_NewSecret (\<lambda>n w. (Inr (replicate n CHR ''r''), w)) demo_crypto ''a@b.c'' () = (Inr (secret, uri), ())
    \<and> Crypto_Encrypt demo_aead (\<lambda>n w. (Inr (replicate n CHR ''r''), w)) demo_crypto secret ''u1'' () = (Inr raw, ())
    \<and> Crypto_Decrypt demo_aead demo_crypto (Some raw) ''u1'' = Inr secret
    \<and> (\<exists>s. Crypto_Verify (\<lambda>k v. k @ v) secret (totp (\<lambda>k v. k @ v) (replicate 20 CHR ''r'') 40000000) 1200000000000000000 0 = Inr s)"
proof -
  let ?r = "\<lambda>n w. (Inr (replicate n CHR ''r''), w)"
  have "\<forall>p. ae_Open demo_aead (cr_key demo_crypto) n (ae_Seal demo_aead (cr_key demo_crypto) n p ''u1'') ''u1'' = Some p" for n
    by (simp add: demo_aead_def has_suffix_iff suffix_def)
  from second_factor_roundtrip [of ?r "()" "replicate 20 CHR ''r''" "()" "replicate NonceSize CHR ''r''" "()",
      OF refl refl length_replicate this, of "''a@b.c''" "\<lambda>k v. k @ v"]
  show ?thesis
  proof (elim exE conjE, intro exI conjI)
    fix secret assume v: "\<forall>code now prev. (\<exists>s. Crypto_Verify (\<lambda>k v. k @ v) secret code now prev = Inr s)
         \<longleftrightarrow> (\<exists>step. code = totp (\<lambda>k v. k @ v) (replicate 20 CHR ''r'') step \<and> prev < step \<and> 0 \<le> step \<and> \<bar>step - go_div (unix now) 30\<bar> \<le> 1)"
    have "\<exists>s. Crypto_Verify (\<lambda>k v. k @ v) secret (totp (\<lambda>k v. k @ v) (replicate 20 CHR ''r'') 40000000) 1200000000000000000 0 = Inr s"
      unfolding v [rule_format] by (intro exI [of _ 40000000]) (simp add: unix_def)
    then show "Crypto_Verify (\<lambda>k v. k @ v) secret (totp (\<lambda>k v. k @ v) (replicate 20 CHR ''r'') 40000000) 1200000000000000000 0
      = Inr (projr (Crypto_Verify (\<lambda>k v. k @ v) secret (totp (\<lambda>k v. k @ v) (replicate 20 CHR ''r'') 40000000) 1200000000000000000 0))"
      by auto
  qed
qed

end
