(* ===== verification/Refresh_Sessions.thy ===== *)
theory Refresh_Sessions
  imports Redis
begin

text \<open>
  Model of the refresh-token store of \<open>src/pkg/modules/iam/refresh.go\<close> with the Redis adapter of
  \<open>src/internal/app/api.go\<close>: the five Lua scripts, the operations \<open>Issue\<close>, \<open>Lookup\<close>, \<open>Rotate\<close>,
  \<open>Consume\<close>, \<open>Revoke\<close> and \<open>RevokeAll\<close>, and the step relation of several API processes that share one
  Redis. The hash function is the parameter \<open>sha\<close> (32-byte SHA-256 digests); the random bytes of
  each token are an argument, \<open>None\<close> when the system's generator fails.
\<close>

section \<open>Keys\<close>

record RefreshStore =
  rs_prefix :: string
  rs_ttl :: int

definition NewRefreshStore :: "string \<Rightarrow> int \<Rightarrow> RefreshStore" where
  "NewRefreshStore p d = \<lparr>rs_prefix = p, rs_ttl = d\<rparr>"

definition refresh_hash :: "(string \<Rightarrow> string) \<Rightarrow> string \<Rightarrow> string" where
  "refresh_hash sha raw = hex_encode (sha raw)"

definition tokenPrefix :: "RefreshStore \<Rightarrow> string" where
  "tokenPrefix S = rs_prefix S @ '':token:''"

definition tokenKey :: "(string \<Rightarrow> string) \<Rightarrow> RefreshStore \<Rightarrow> string \<Rightarrow> string" where
  "tokenKey sha S raw = rs_prefix S @ '':token:'' @ refresh_hash sha raw"

definition userKey :: "(string \<Rightarrow> string) \<Rightarrow> RefreshStore \<Rightarrow> string \<Rightarrow> string" where
  "userKey sha S uid = rs_prefix S @ '':user:'' @ hex_encode (sha uid)"

text \<open>\<open>base64.RawURLEncoding\<close> on the 32 random bytes.\<close>

definition b64_char :: "nat \<Rightarrow> char" where
  "b64_char d = (if d < 26 then char_of (65 + d) else if d < 52 then char_of (71 + d)
     else if d < 62 then char_of (d - 4) else if d = 62 then CHR ''-'' else CHR ''_'')"

fun base64_raw_url :: "string \<Rightarrow> string" where
  "base64_raw_url (a # b # c # bs) =
     (let n = (of_char a * 256 + of_char b) * 256 + of_char c in
      b64_char (n div 262144) # b64_char (n div 4096 mod 64) # b64_char (n div 64 mod 64) # b64_char (n mod 64)
      # base64_raw_url bs)"
| "base64_raw_url [a, b] =
     (let n = (of_char a * 256 + of_char b) * 4 in
      [b64_char (n div 4096), b64_char (n div 64 mod 64), b64_char (n mod 64)])"
| "base64_raw_url [a] = (let n = of_char a * 16 in [b64_char (n div 64), b64_char (n mod 64)])"
| "base64_raw_url [] = []"

datatype refresh_error =
    ErrInvalidRefreshToken | GenerateToken
  | StoreToken client_error | LookupToken client_error | RotateToken client_error
  | ConsumeToken client_error | RevokeToken client_error

definition newRefreshToken :: "string option \<Rightarrow> refresh_error + string" where
  "newRefreshToken rnd = (case rnd of None \<Rightarrow> Inl GenerateToken | Some bs \<Rightarrow> Inr (base64_raw_url bs))"

section \<open>Scripts\<close>

definition replaceRefreshScript ::
    "'r redis_exec \<Rightarrow> int \<Rightarrow> string \<Rightarrow> string \<Rightarrow> string \<Rightarrow> string \<Rightarrow> string \<Rightarrow> int \<Rightarrow> ('r, redis_error, reply) op" where
  "replaceRefreshScript exec t k1 k2 a1 a2 a3 a4 =
     bindE (exec t (GET k2)) (\<lambda>previous.
     bindE (case previous of RBulk h \<Rightarrow> exec t (DEL [a1 @ h]) | _ \<Rightarrow> retE RNil) (\<lambda>_.
     bindE (exec t (SET_PX k1 a2 a4)) (\<lambda>_.
     bindE (exec t (SET_PX k2 a3 a4)) (\<lambda>_.
     retE (RInt 1)))))"

definition rotateRefreshScript ::
    "'r redis_exec \<Rightarrow> int \<Rightarrow> string \<Rightarrow> string \<Rightarrow> string \<Rightarrow> string \<Rightarrow> string \<Rightarrow> string \<Rightarrow> int
      \<Rightarrow> ('r, redis_error, reply) op" where
  "rotateRefreshScript exec t k1 k2 k3 a1 a2 a3 a4 =
     bindE (exec t (GET k1)) (\<lambda>v1.
     if v1 \<noteq> RBulk a1 then retE (RInt 0)
     else bindE (exec t (GET k3)) (\<lambda>v3.
     if v3 \<noteq> RBulk a2 then retE (RInt 0)
     else bindE (exec t (DEL [k1])) (\<lambda>_.
     bindE (exec t (SET_PX k2 a1 a4)) (\<lambda>_.
     bindE (exec t (SET_PX k3 a3 a4)) (\<lambda>_.
     retE (RInt 1))))))"

definition consumeRefreshScript ::
    "'r redis_exec \<Rightarrow> int \<Rightarrow> string \<Rightarrow> string \<Rightarrow> string \<Rightarrow> ('r, redis_error, reply) op" where
  "consumeRefreshScript exec t k1 k2 a1 =
     bindE (exec t (GET k1)) (\<lambda>user_id.
     if user_id = RNil then retE RNil
     else bindE (exec t (GET k2)) (\<lambda>v2.
     if v2 \<noteq> RBulk a1 then retE RNil
     else bindE (exec t (DEL [k1, k2])) (\<lambda>_.
     retE user_id)))"

definition revokeRefreshScript ::
    "'r redis_exec \<Rightarrow> int \<Rightarrow> string \<Rightarrow> string \<Rightarrow> string \<Rightarrow> ('r, redis_error, reply) op" where
  "revokeRefreshScript exec t k1 k2 a1 =
     bindE (exec t (GET k1)) (\<lambda>v1.
     if v1 = RNil then retE (RInt 0)
     else bindE (exec t (DEL [k1])) (\<lambda>_.
     bindE (exec t (GET k2)) (\<lambda>v2.
     bindE (if v2 = RBulk a1 then exec t (DEL [k2]) else retE RNil) (\<lambda>_.
     retE (RInt 1)))))"

definition revokeAllRefreshScript ::
    "'r redis_exec \<Rightarrow> int \<Rightarrow> string \<Rightarrow> string \<Rightarrow> ('r, redis_error, reply) op" where
  "revokeAllRefreshScript exec t k1 a1 =
     bindE (exec t (GET k1)) (\<lambda>token_hash.
     case token_hash of
       RBulk h \<Rightarrow> bindE (exec t (DEL [a1 @ h, k1])) (\<lambda>_. retE (RInt 1))
     | _ \<Rightarrow> retE (RInt 0))"

section \<open>Operations\<close>

text \<open>
  Every call of the Redis client carries its point in time and the fate \<open>net\<close> of the message. An
  operation that makes two calls takes the effect \<open>mid\<close> of other processes between them.
\<close>

definition Issue ::
    "'r redis_exec \<Rightarrow> (string \<Rightarrow> string) \<Rightarrow> RefreshStore \<Rightarrow> net \<Rightarrow> int \<Rightarrow> string option \<Rightarrow> string
      \<Rightarrow> ('r, refresh_error, string) op" where
  "Issue exec sha S n t rnd uid =
     (case newRefreshToken rnd of
        Inl e \<Rightarrow> failE e
      | Inr raw \<Rightarrow>
          bindE (mapErrE StoreToken (Eval n (replaceRefreshScript exec t (tokenKey sha S raw) (userKey sha S uid)
            (tokenPrefix S) uid (refresh_hash sha raw) (Milliseconds (rs_ttl S))))) (\<lambda>_. retE raw))"

definition Lookup ::
    "'r redis_exec \<Rightarrow> (string \<Rightarrow> string) \<Rightarrow> RefreshStore \<Rightarrow> net \<Rightarrow> int \<Rightarrow> string
      \<Rightarrow> ('r, refresh_error, string) op" where
  "Lookup exec sha S n t raw =
     (if raw = [] then failE ErrInvalidRefreshToken
      else (\<lambda>r. case Eval n (exec t (GET (tokenKey sha S raw))) r of
          (Inl NilReply, r') \<Rightarrow> (Inl ErrInvalidRefreshToken, r')
        | (Inl e, r') \<Rightarrow> (Inl (LookupToken e), r')
        | (Inr (RBulk uid), r') \<Rightarrow> if uid = [] then (Inl ErrInvalidRefreshToken, r') else (Inr uid, r')
        | (Inr _, r') \<Rightarrow> (Inl ErrInvalidRefreshToken, r')))"

definition Rotate ::
    "'r redis_exec \<Rightarrow> (string \<Rightarrow> string) \<Rightarrow> RefreshStore \<Rightarrow> net \<Rightarrow> int \<Rightarrow> string option \<Rightarrow> string \<Rightarrow> string
      \<Rightarrow> ('r, refresh_error, string) op" where
  "Rotate exec sha S n t rnd raw uid =
     (if raw = [] \<or> uid = [] then failE ErrInvalidRefreshToken
      else case newRefreshToken rnd of
        Inl e \<Rightarrow> failE e
      | Inr next \<Rightarrow>
          bindE (mapErrE RotateToken (Eval n (rotateRefreshScript exec t (tokenKey sha S raw) (tokenKey sha S next)
            (userKey sha S uid) uid (refresh_hash sha raw) (refresh_hash sha next) (Milliseconds (rs_ttl S)))))
          (\<lambda>result. if result \<noteq> RInt 1 then failE ErrInvalidRefreshToken else retE next))"

definition Consume ::
    "'r redis_exec \<Rightarrow> (string \<Rightarrow> string) \<Rightarrow> RefreshStore \<Rightarrow> net \<Rightarrow> int \<Rightarrow> ('r \<Rightarrow> 'r) \<Rightarrow> net \<Rightarrow> int \<Rightarrow> string
      \<Rightarrow> ('r, refresh_error, string) op" where
  "Consume exec sha S n1 t1 mid n2 t2 raw =
     (if raw = [] then failE ErrInvalidRefreshToken
      else bindE (mapErrE (\<lambda>_. ErrInvalidRefreshToken) (Lookup exec sha S n1 t1 raw)) (\<lambda>uid.
        bindE (\<lambda>r. mapErrE ConsumeToken (Eval n2 (consumeRefreshScript exec t2 (tokenKey sha S raw) (userKey sha S uid)
            (refresh_hash sha raw))) (mid r)) (\<lambda>result.
        if result = RBulk uid then retE uid else failE ErrInvalidRefreshToken)))"

definition Revoke ::
    "'r redis_exec \<Rightarrow> (string \<Rightarrow> string) \<Rightarrow> RefreshStore \<Rightarrow> net \<Rightarrow> int \<Rightarrow> ('r \<Rightarrow> 'r) \<Rightarrow> net \<Rightarrow> int \<Rightarrow> string
      \<Rightarrow> ('r, refresh_error, unit) op" where
  "Revoke exec sha S n1 t1 mid n2 t2 raw =
     (if raw = [] then retE ()
      else (\<lambda>r. case Lookup exec sha S n1 t1 raw r of
          (Inl ErrInvalidRefreshToken, r') \<Rightarrow> (Inr (), r')
        | (Inl e, r') \<Rightarrow> (Inl e, r')
        | (Inr uid, r') \<Rightarrow> bindE (mapErrE RevokeToken (Eval n2 (revokeRefreshScript exec t2 (tokenKey sha S raw)
             (userKey sha S uid) (refresh_hash sha raw)))) (\<lambda>_. retE ()) (mid r')))"

definition RevokeAll ::
    "'r redis_exec \<Rightarrow> (string \<Rightarrow> string) \<Rightarrow> RefreshStore \<Rightarrow> net \<Rightarrow> int \<Rightarrow> string \<Rightarrow> ('r, refresh_error, unit) op" where
  "RevokeAll exec sha S n t uid =
     bindE (mapErrE RevokeToken (Eval n (revokeAllRefreshScript exec t (userKey sha S uid) (tokenPrefix S))))
       (\<lambda>_. retE ())"

section \<open>Scripts on the observed keyspace\<close>

lemma tokenKey_eq: "tokenKey sha S raw = tokenPrefix S @ refresh_hash sha raw"
  by (simp add: tokenKey_def tokenPrefix_def)

lemma token_user_distinct [simp]:
  "tokenPrefix S @ h \<noteq> userKey sha S uid" "userKey sha S uid \<noteq> tokenPrefix S @ h"
  by (auto simp: tokenPrefix_def userKey_def)

text \<open>Reads of the client and the scripts, on a keyspace.\<close>

definition str_at :: "keyspace \<Rightarrow> string \<Rightarrow> string option" where
  "str_at K k = (case K k of Some (VString v, e) \<Rightarrow> Some v | _ \<Rightarrow> None)"

definition strings_only :: "string \<Rightarrow> keyspace \<Rightarrow> bool" where
  "strings_only p K \<longleftrightarrow> (\<forall>k x. K (p @ k) = Some x \<longrightarrow> (\<exists>v e. x = (VString v, Some e)))"

lemma GET_strings:
  "strings_only p K \<Longrightarrow>
   redis_doc t (GET (p @ k)) K = (Inr (case str_at K (p @ k) of None \<Rightarrow> RNil | Some v \<Rightarrow> RBulk v), K)"
proof -
  assume "strings_only p K"
  then have "K (p @ k) = None \<or> (\<exists>v e. K (p @ k) = Some (VString v, Some e))"
    unfolding strings_only_def by (metis option.exhaust)
  then show ?thesis by (auto simp: str_at_def)
qed

lemma str_at_other [simp]: "k \<noteq> l \<Longrightarrow> str_at (K(l := x)) k = str_at K k"
  by (simp add: str_at_def)

lemma str_at_same [simp]:
  "str_at (K(k := None)) k = None" "str_at (K(k \<mapsto> (VString v, e))) k = Some v"
  by (simp_all add: str_at_def)

text \<open>
  The invariant of the store: all its keys hold strings with a deadline, and a stored token belongs
  to a user whose session entry names exactly this token, with the same deadline.
\<close>

definition session_inv :: "(string \<Rightarrow> string) \<Rightarrow> RefreshStore \<Rightarrow> keyspace \<Rightarrow> bool" where
  "session_inv sha S K \<longleftrightarrow>
     strings_only (rs_prefix S @ '':'') K \<and>
     (\<forall>h uid e. K (tokenPrefix S @ h) = Some (VString uid, e) \<longrightarrow> K (userKey sha S uid) = Some (VString h, e))"

lemma session_inv_get_token:
  "session_inv sha S K \<Longrightarrow> redis_doc t (GET (tokenPrefix S @ h)) K =
    (Inr (case str_at K (tokenPrefix S @ h) of None \<Rightarrow> RNil | Some v \<Rightarrow> RBulk v), K)"
  using GET_strings [of "rs_prefix S @ '':''" K t "''token:'' @ h"]
  by (simp add: session_inv_def tokenPrefix_def)

lemma session_inv_get_user:
  "session_inv sha S K \<Longrightarrow> redis_doc t (GET (userKey sha S uid)) K =
    (Inr (case str_at K (userKey sha S uid) of None \<Rightarrow> RNil | Some v \<Rightarrow> RBulk v), K)"
  using GET_strings [of "rs_prefix S @ '':''" K t "''user:'' @ hex_encode (sha uid)"]
  by (simp add: session_inv_def userKey_def)

lemma session_inv_token:
  "session_inv sha S K \<Longrightarrow> str_at K (tokenPrefix S @ h) = Some uid \<Longrightarrow> str_at K (userKey sha S uid) = Some h"
  by (auto simp: session_inv_def str_at_def split: option.splits rval.splits prod.splits)

lemma session_inv_live: "session_inv sha S K \<Longrightarrow> session_inv sha S (live t K)"
proof -
  assume inv: "session_inv sha S K"
  then have "strings_only (rs_prefix S @ '':'') (live t K)"
    by (auto simp: session_inv_def strings_only_def dest: live_Some)
  moreover have "live t K (userKey sha S uid) = Some (VString h, e)"
    if "live t K (tokenPrefix S @ h) = Some (VString uid, e)" for h uid e
  proof -
    have tok: "K (tokenPrefix S @ h) = Some (VString uid, e)" using that by (rule live_Some)
    then have "K (userKey sha S uid) = Some (VString h, e)" using inv by (simp add: session_inv_def)
    with tok that show ?thesis by (cases e) (auto simp: live_def split: if_splits)
  qed
  ultimately show ?thesis by (simp add: session_inv_def)
qed

lemma session_inv_remove_token: "session_inv sha S K \<Longrightarrow> session_inv sha S (K(tokenPrefix S @ h := None))"
  by (auto simp: session_inv_def strings_only_def)

text \<open>Removing a session entry is safe once the token it names is gone.\<close>

lemma session_inv_remove_user:
  assumes "session_inv sha S K" and "\<And>h. str_at K (userKey sha S uid) = Some h \<Longrightarrow> K (tokenPrefix S @ h) = None"
  shows "session_inv sha S (K(userKey sha S uid := None))"
proof -
  have "userKey sha S u \<noteq> userKey sha S uid" if "K (tokenPrefix S @ h) = Some (VString u, e)" for h u e
  proof
    assume eq: "userKey sha S u = userKey sha S uid"
    have "str_at K (userKey sha S u) = Some h" using assms(1) that by (simp add: session_inv_def str_at_def)
    with assms(2) [of h] eq that show False by simp
  qed
  then show ?thesis using assms(1) by (auto simp: session_inv_def strings_only_def)
qed

lemma session_inv_put:
  assumes "session_inv sha S K" and "\<And>h. str_at K (userKey sha S uid) = Some h \<Longrightarrow> K (tokenPrefix S @ h) = None"
  shows "session_inv sha S (K(tokenPrefix S @ g \<mapsto> (VString uid, Some e), userKey sha S uid \<mapsto> (VString g, Some e)))"
  unfolding session_inv_def
proof (intro conjI allI impI)
  let ?K = "K(tokenPrefix S @ g \<mapsto> (VString uid, Some e), userKey sha S uid \<mapsto> (VString g, Some e))"
  show "strings_only (rs_prefix S @ '':'') ?K" using assms(1) by (auto simp: session_inv_def strings_only_def)
  fix h uid' e'
  assume *: "?K (tokenPrefix S @ h) = Some (VString uid', e')"
  show "?K (userKey sha S uid') = Some (VString h, e')"
  proof (cases "h = g")
    case True
    with * show ?thesis by simp
  next
    case False
    with * have tok: "K (tokenPrefix S @ h) = Some (VString uid', e')" by simp
    with assms(1) have "K (userKey sha S uid') = Some (VString h, e')" by (simp add: session_inv_def)
    moreover from this have "userKey sha S uid' \<noteq> userKey sha S uid"
      using assms(2) [of h] tok by (auto simp: str_at_def)
    ultimately show ?thesis by simp
  qed
qed

lemma DEL_two: "k \<noteq> l \<Longrightarrow> snd (redis_doc t (DEL [k, l]) K) = K(k := None, l := None)"
  by (auto simp: fun_eq_iff)

lemmas script_defs =
  replaceRefreshScript_def rotateRefreshScript_def consumeRefreshScript_def revokeRefreshScript_def
  revokeAllRefreshScript_def

text \<open>No token of a user is stored.\<close>

definition no_token :: "RefreshStore \<Rightarrow> string \<Rightarrow> keyspace \<Rightarrow> bool" where
  "no_token S uid K \<longleftrightarrow> (\<forall>h. str_at K (tokenPrefix S @ h) \<noteq> Some uid)"

lemma no_token_live: "no_token S uid K \<Longrightarrow> no_token S uid (live t K)"
  by (auto simp: no_token_def str_at_def live_def split: option.splits if_splits)

lemma no_token_remove [simp]: "no_token S uid K \<Longrightarrow> no_token S uid (K(k := None))"
  by (simp add: no_token_def str_at_def)

lemma no_token_put: "no_token S uid K \<Longrightarrow> u \<noteq> uid \<Longrightarrow>
    no_token S uid (K(k \<mapsto> (VString u, e), userKey sha S u' \<mapsto> x))"
  by (simp add: no_token_def str_at_def)

text \<open>The exact effect of each script on a keyspace that satisfies the invariant.\<close>

lemma replace_doc:
  assumes "session_inv sha S K"
  shows "replaceRefreshScript redis_doc t (tokenPrefix S @ g) (userKey sha S uid) (tokenPrefix S) uid g px K =
    (let K' = (case str_at K (userKey sha S uid) of None \<Rightarrow> K | Some h \<Rightarrow> K(tokenPrefix S @ h := None)) in
     if px \<le> 0 then (Inl InvalidExpire, K')
     else (Inr (RInt 1), K'(tokenPrefix S @ g \<mapsto> (VString uid, Some (t + px)), userKey sha S uid \<mapsto> (VString g, Some (t + px)))))"
  using session_inv_get_user [OF assms, of t uid]
  by (auto simp: script_defs Let_def DEL_one bindE_def split: option.splits simp del: redis_doc.simps(1,3))

lemma rotate_doc:
  assumes "session_inv sha S K"
  shows "rotateRefreshScript redis_doc t (tokenPrefix S @ h) (tokenPrefix S @ g) (userKey sha S uid) uid h g px K =
    (if str_at K (tokenPrefix S @ h) \<noteq> Some uid then (Inr (RInt 0), K)
     else if px \<le> 0 then (Inl InvalidExpire, K(tokenPrefix S @ h := None))
     else (Inr (RInt 1), K(tokenPrefix S @ h := None, tokenPrefix S @ g \<mapsto> (VString uid, Some (t + px)),
        userKey sha S uid \<mapsto> (VString g, Some (t + px)))))"
  using session_inv_get_user [OF assms, of t uid] session_inv_get_token [OF assms, of t h]
    session_inv_token [OF assms, of h uid]
  by (auto simp: script_defs Let_def DEL_one bindE_def split: option.splits simp del: redis_doc.simps(1,3))

lemma consume_doc:
  assumes "session_inv sha S K"
  shows "consumeRefreshScript redis_doc t (tokenPrefix S @ h) (userKey sha S uid) h K =
    (case str_at K (tokenPrefix S @ h) of
       None \<Rightarrow> (Inr RNil, K)
     | Some u \<Rightarrow> if str_at K (userKey sha S uid) \<noteq> Some h then (Inr RNil, K)
                else (Inr (RBulk u), K(tokenPrefix S @ h := None, userKey sha S uid := None)))"
  using session_inv_get_user [OF assms, of t uid] session_inv_get_token [OF assms, of t h]
  by (auto simp: script_defs Let_def bindE_def fun_eq_iff split: option.splits simp del: redis_doc.simps(1))

lemma revoke_doc:
  assumes "session_inv sha S K"
  shows "revokeRefreshScript redis_doc t (tokenPrefix S @ h) (userKey sha S uid) h K =
    (case str_at K (tokenPrefix S @ h) of
       None \<Rightarrow> (Inr (RInt 0), K)
     | Some u \<Rightarrow> (Inr (RInt 1), if str_at K (userKey sha S uid) \<noteq> Some h then K(tokenPrefix S @ h := None)
                  else K(tokenPrefix S @ h := None, userKey sha S uid := None)))"
  using session_inv_get_user [OF session_inv_remove_token [OF assms, of h], of t uid]
    session_inv_get_token [OF assms, of t h]
  by (auto simp: script_defs Let_def bindE_def DEL_one split: option.splits simp del: redis_doc.simps(1,3))

lemma revoke_all_doc:
  assumes "session_inv sha S K"
  shows "revokeAllRefreshScript redis_doc t (userKey sha S uid) (tokenPrefix S) K =
    (case str_at K (userKey sha S uid) of
       None \<Rightarrow> (Inr (RInt 0), K)
     | Some h \<Rightarrow> (Inr (RInt 1), K(tokenPrefix S @ h := None, userKey sha S uid := None)))"
  using session_inv_get_user [OF assms, of t uid]
  by (auto simp: script_defs Let_def bindE_def fun_eq_iff split: option.splits simp del: redis_doc.simps(1))

lemmas script_docs = replace_doc rotate_doc consume_doc revoke_doc revoke_all_doc

lemma replace_inv: "session_inv sha S K \<Longrightarrow> session_inv sha S
    (snd (replaceRefreshScript redis_doc t (tokenPrefix S @ g) (userKey sha S uid) (tokenPrefix S) uid g px K))"
  by (auto simp: replace_doc Let_def split: option.splits
      intro!: session_inv_put session_inv_remove_token)

lemma rotate_inv: "session_inv sha S K \<Longrightarrow> session_inv sha S
    (snd (rotateRefreshScript redis_doc t (tokenPrefix S @ h) (tokenPrefix S @ g) (userKey sha S uid) uid h g px K))"
  by (auto simp: rotate_doc Let_def dest: session_inv_token
      intro!: session_inv_put session_inv_remove_token)

lemma consume_inv: "session_inv sha S K \<Longrightarrow> session_inv sha S
    (snd (consumeRefreshScript redis_doc t (tokenPrefix S @ h) (userKey sha S uid) h K))"
  by (auto simp: consume_doc split: option.splits intro!: session_inv_remove_user session_inv_remove_token)

lemma revoke_inv: "session_inv sha S K \<Longrightarrow> session_inv sha S
    (snd (revokeRefreshScript redis_doc t (tokenPrefix S @ h) (userKey sha S uid) h K))"
  by (auto simp: revoke_doc split: option.splits intro!: session_inv_remove_user session_inv_remove_token)

lemma revoke_all_inv: "session_inv sha S K \<Longrightarrow> session_inv sha S
    (snd (revokeAllRefreshScript redis_doc t (userKey sha S uid) (tokenPrefix S) K))"
  by (auto simp: revoke_all_doc split: option.splits intro!: session_inv_remove_user session_inv_remove_token)

lemma Eval_inv: "P r \<Longrightarrow> P (snd (m r)) \<Longrightarrow> P (snd (Eval n m r))"
  by (cases n) (auto simp: Eval_def)

section \<open>Several processes on one Redis\<close>

text \<open>
  One step is one message to Redis, the passage of time, or a command of another component, which
  leaves the keys below the prefix of the store alone. \<open>G\<close> is the set of byte strings the random
  generator produces and \<open>U\<close> the set of users new sessions are issued for. \<open>Consume\<close> and \<open>Revoke\<close> are two messages each:
  their lookup and their script.
\<close>

inductive session_step ::
    "'r redis_exec \<Rightarrow> (int \<Rightarrow> 'r \<Rightarrow> keyspace) \<Rightarrow> (string \<Rightarrow> string) \<Rightarrow> RefreshStore \<Rightarrow> string set \<Rightarrow> string set
      \<Rightarrow> int \<times> 'r \<Rightarrow> int \<times> 'r \<Rightarrow> bool"
  for exec :: "'r redis_exec" and view sha S and G U where
  pass: "t \<le> t' \<Longrightarrow> session_step exec view sha S G U (t, r) (t', r)"
| issue: "(\<And>bs. rnd = Some bs \<Longrightarrow> bs \<in> G) \<Longrightarrow> uid \<in> U \<Longrightarrow>
    session_step exec view sha S G U (t, r) (t, snd (Issue exec sha S n t rnd uid r))"
| lookup: "session_step exec view sha S G U (t, r) (t, snd (Lookup exec sha S n t raw r))"
| rotate: "(\<And>bs. rnd = Some bs \<Longrightarrow> bs \<in> G) \<Longrightarrow>
    session_step exec view sha S G U (t, r) (t, snd (Rotate exec sha S n t rnd raw uid r))"
| consume: "session_step exec view sha S G U (t, r) (t, snd (Eval n (consumeRefreshScript exec t
     (tokenKey sha S raw) (userKey sha S uid) (refresh_hash sha raw)) r))"
| revoke: "session_step exec view sha S G U (t, r) (t, snd (Eval n (revokeRefreshScript exec t
     (tokenKey sha S raw) (userKey sha S uid) (refresh_hash sha raw)) r))"
| revoke_all: "session_step exec view sha S G U (t, r) (t, snd (RevokeAll exec sha S n t uid r))"
| other: "(\<And>k. has_prefix k (rs_prefix S @ '':'') \<Longrightarrow> view t r' k = view t r k) \<Longrightarrow>
    session_step exec view sha S G U (t, r) (t, r')"

text \<open>The steps of a system that issues sessions for every user.\<close>

abbreviation refresh_step where
  "refresh_step exec view sha S G \<equiv> session_step exec view sha S G UNIV"

abbreviation refresh_reach where
  "refresh_reach exec view sha S G \<equiv> (refresh_step exec view sha S G)\<^sup>*\<^sup>*"

text \<open>No key below the prefix of the store yet.\<close>

definition no_sessions :: "RefreshStore \<Rightarrow> keyspace \<Rightarrow> bool" where
  "no_sessions S K \<longleftrightarrow> (\<forall>k. K (rs_prefix S @ '':'' @ k) = None)"

lemma no_sessions_inv: "no_sessions S K \<Longrightarrow> session_inv sha S K"
  by (auto simp: no_sessions_def session_inv_def strings_only_def tokenPrefix_def)

lemma session_inv_cong:
  assumes "session_inv sha S K" and "\<And>k. has_prefix k (rs_prefix S @ '':'') \<Longrightarrow> K' k = K k"
  shows "session_inv sha S K'"
proof -
  have "K' (rs_prefix S @ '':'' @ k) = K (rs_prefix S @ '':'' @ k)" for k
    using assms(2) by (simp add: has_prefix_iff prefix_def)
  then have "K' (rs_prefix S @ CHR '':'' # k) = K (rs_prefix S @ CHR '':'' # k)" for k by simp
  with assms(1) show ?thesis
    by (auto simp: session_inv_def strings_only_def tokenPrefix_def userKey_def)
qed

context redis
begin

lemma replace_sim: "redis_sim (view t) (replaceRefreshScript exec t k1 k2 a1 a2 a3 a4)
    (replaceRefreshScript redis_doc t k1 k2 a1 a2 a3 a4)"
  unfolding replaceRefreshScript_def by (intro redis_sim_bindE exec_doc) (auto intro: exec_doc split: reply.split)

lemma rotate_sim: "redis_sim (view t) (rotateRefreshScript exec t k1 k2 k3 a1 a2 a3 a4)
    (rotateRefreshScript redis_doc t k1 k2 k3 a1 a2 a3 a4)"
  unfolding rotateRefreshScript_def by (intro redis_sim_bindE redis_sim_if redis_sim_retE exec_doc)

lemma consume_sim: "redis_sim (view t) (consumeRefreshScript exec t k1 k2 a1)
    (consumeRefreshScript redis_doc t k1 k2 a1)"
  unfolding consumeRefreshScript_def by (intro redis_sim_bindE redis_sim_if redis_sim_retE exec_doc)

lemma revoke_sim: "redis_sim (view t) (revokeRefreshScript exec t k1 k2 a1)
    (revokeRefreshScript redis_doc t k1 k2 a1)"
  unfolding revokeRefreshScript_def by (intro redis_sim_bindE redis_sim_if redis_sim_retE exec_doc)

lemma revoke_all_sim: "redis_sim (view t) (revokeAllRefreshScript exec t k1 a1)
    (revokeAllRefreshScript redis_doc t k1 a1)"
  unfolding revokeAllRefreshScript_def by (intro redis_sim_bindE exec_doc) (auto intro: exec_doc split: reply.split)

lemmas script_sims = replace_sim rotate_sim consume_sim revoke_sim revoke_all_sim

lemma view_GET [simp]: "view t (snd (exec t (GET k) r)) = view t r"
  using view_snd [OF exec_doc, of t "GET k" r] by (auto split: option.splits rval.splits)

lemma view_Lookup [simp]: "view t (snd (Lookup exec sha S n t raw r)) = view t r"
proof -
  have "view t (snd (Eval n (exec t (GET k)) r)) = view t r" for k by (cases n) (auto simp: Eval_def)
  then show ?thesis
    unfolding Lookup_def by (auto split: prod.splits sum.splits client_error.splits reply.splits) (metis snd_conv)+
qed

lemma Eval_session_inv:
  assumes "session_inv sha S (view t r)" and "redis_sim (view t) m m'"
    and "session_inv sha S (snd (m' (view t r)))"
  shows "session_inv sha S (view t (snd (Eval n m r)))"
  using assms view_snd [OF assms(2), of r] by (intro Eval_inv [where P = "\<lambda>r. session_inv sha S (view t r)"]) auto

lemma snd_bindE_mapErrE: "(\<And>x s. snd (f x s) = s) \<Longrightarrow> snd (bindE (mapErrE g m) f r) = snd (m r)"
  by (auto simp: bindE_def mapErrE_def split: prod.splits sum.splits)

lemma snd_Issue: "newRefreshToken rnd = Inr raw \<Longrightarrow> snd (Issue exec sha S n t rnd uid r) =
    snd (Eval n (replaceRefreshScript exec t (tokenKey sha S raw) (userKey sha S uid)
            (tokenPrefix S) uid (refresh_hash sha raw) (Milliseconds (rs_ttl S))) r)"
  unfolding Issue_def by (simp add: snd_bindE_mapErrE)

lemma snd_Rotate: "newRefreshToken rnd = Inr next \<Longrightarrow> raw \<noteq> [] \<Longrightarrow> uid \<noteq> [] \<Longrightarrow>
    snd (Rotate exec sha S n t rnd raw uid r) =
    snd (Eval n (rotateRefreshScript exec t (tokenKey sha S raw) (tokenKey sha S next)
            (userKey sha S uid) uid (refresh_hash sha raw) (refresh_hash sha next) (Milliseconds (rs_ttl S))) r)"
  unfolding Rotate_def by (simp add: snd_bindE_mapErrE)

lemma snd_Rotate_empty: "raw = [] \<or> uid = [] \<Longrightarrow> snd (Rotate exec sha S n t rnd raw uid r) = r"
  unfolding Rotate_def by simp

lemma session_step_inv:
  assumes "session_step exec view sha S G U s s'" and "session_inv sha S (view (fst s) (snd s))"
  shows "session_inv sha S (view (fst s') (snd s'))"
  using assms
proof (induction rule: session_step.induct)
  case (pass t t' r)
  then show ?case using view_expire [of t t' r] by (simp add: session_inv_live)
next
  case (issue rnd uid t r n)
  show ?case
  proof (cases "newRefreshToken rnd")
    case (Inl e)
    with issue show ?thesis by (simp add: Issue_def)
  next
    case (Inr raw)
    then show ?thesis using issue
      by (auto simp: snd_Issue tokenKey_eq intro!: Eval_session_inv replace_sim replace_inv)
  qed
next
  case (rotate rnd t r n raw uid)
  show ?case
  proof (cases "newRefreshToken rnd")
    case (Inl e)
    with rotate show ?thesis by (simp add: Rotate_def)
  next
    case (Inr nxt)
    then show ?thesis using rotate
      by (cases "raw = [] \<or> uid = []")
        (auto simp: snd_Rotate snd_Rotate_empty tokenKey_eq intro!: Eval_session_inv rotate_sim rotate_inv)
  qed
next
  case (other t r' r)
  then show ?case by (auto intro: session_inv_cong)
qed (auto simp: tokenKey_eq RevokeAll_def snd_bindE_mapErrE
    intro!: Eval_session_inv consume_sim revoke_sim revoke_all_sim consume_inv revoke_inv revoke_all_inv)

lemma refresh_reach_inv:
  "refresh_reach exec view sha S G s s' \<Longrightarrow> session_inv sha S (view (fst s) (snd s)) \<Longrightarrow>
   session_inv sha S (view (fst s') (snd s'))"
  by (induction rule: rtranclp_induct) (auto intro: session_step_inv)

text \<open>What a delivered lookup answers.\<close>

lemma Lookup_iff:
  assumes "session_inv sha S (view t r)"
  shows "fst (Lookup exec sha S Delivered t raw r) = Inr uid \<longleftrightarrow>
    raw \<noteq> [] \<and> uid \<noteq> [] \<and> str_at (view t r) (tokenKey sha S raw) = Some uid"
proof -
  have "fst (exec t (GET (tokenKey sha S raw)) r) =
      Inr (case str_at (view t r) (tokenKey sha S raw) of None \<Rightarrow> RNil | Some v \<Rightarrow> RBulk v)"
    using view_fst [OF exec_doc, of t "GET (tokenKey sha S raw)" r]
      session_inv_get_token [OF assms, of t "refresh_hash sha raw"]
    by (simp add: tokenKey_eq)
  then show ?thesis
    by (cases "str_at (view t r) (tokenKey sha S raw)")
      (auto simp: Lookup_def Eval_def client_reply_def split: prod.splits)
qed

text \<open>Two tokens accepted for one user at one time have the same digest.\<close>

lemma single_session:
  assumes "session_inv sha S (view t r)"
    and "fst (Lookup exec sha S Delivered t raw1 r) = Inr uid" and "fst (Lookup exec sha S Delivered t raw2 r) = Inr uid"
  shows "refresh_hash sha raw1 = refresh_hash sha raw2"
proof -
  have "str_at (view t r) (tokenPrefix S @ refresh_hash sha raw1) = Some uid"
    and "str_at (view t r) (tokenPrefix S @ refresh_hash sha raw2) = Some uid"
    using assms(2,3) Lookup_iff [OF assms(1)] by (simp_all add: tokenKey_eq)
  from this [THEN session_inv_token [OF assms(1)]] show ?thesis by simp
qed

lemma Lookup_invalid:
  assumes "session_inv sha S (view t r)" and "str_at (view t r) (tokenKey sha S raw) = None"
  shows "fst (Lookup exec sha S Delivered t raw r) = Inl ErrInvalidRefreshToken"
proof -
  have "fst (exec t (GET (tokenKey sha S raw)) r) = Inr RNil"
    using view_fst [OF exec_doc, of t "GET (tokenKey sha S raw)" r] assms(2)
      session_inv_get_token [OF assms(1), of t "refresh_hash sha raw"]
    by (simp add: tokenKey_eq)
  then show ?thesis by (auto simp: Lookup_def Eval_def client_reply_def split: prod.splits)
qed

lemma token_absent_step:
  assumes "session_step exec view sha S G U s s'" and "\<And>bs. bs \<in> G \<Longrightarrow> sha (base64_raw_url bs) \<noteq> sha raw"
    and "session_inv sha S (view (fst s) (snd s))" and "view (fst s) (snd s) (tokenKey sha S raw) = None"
  shows "view (fst s') (snd s') (tokenKey sha S raw) = None"
  using assms
proof (induction rule: session_step.induct)
  case (pass t t' r)
  then show ?case using view_expire [of t t' r] by (simp add: live_simps(1))
next
  case (issue rnd uid t r n)
  show ?case
  proof (cases "newRefreshToken rnd")
    case (Inl e)
    with issue show ?thesis by (simp add: Issue_def)
  next
    case (Inr new)
    with issue have "refresh_hash sha new \<noteq> refresh_hash sha raw"
      by (auto simp: newRefreshToken_def refresh_hash_def split: option.splits)
    with Inr issue show ?thesis
      by (auto simp: snd_Issue tokenKey_eq replace_doc Let_def view_snd [OF replace_sim]
        intro!: Eval_inv [where P = "\<lambda>r. view t r k = None" for k] split: option.splits)
  qed
next
  case (rotate rnd t r n old uid)
  show ?case
  proof (cases "newRefreshToken rnd")
    case (Inl e)
    with rotate show ?thesis by (simp add: Rotate_def)
  next
    case (Inr new)
    with rotate have "refresh_hash sha new \<noteq> refresh_hash sha raw"
      by (auto simp: newRefreshToken_def refresh_hash_def split: option.splits)
    with Inr rotate show ?thesis
      by (cases "old = [] \<or> uid = []")
        (auto simp: snd_Rotate snd_Rotate_empty tokenKey_eq rotate_doc Let_def view_snd [OF rotate_sim]
          intro!: Eval_inv [where P = "\<lambda>r. view t r k = None" for k] split: option.splits)
  qed
next
  case (other t r' r)
  then show ?case by (simp add: tokenKey_def has_prefix_iff prefix_def)
qed (auto simp: tokenKey_eq RevokeAll_def snd_bindE_mapErrE consume_doc revoke_doc revoke_all_doc
    view_snd [OF consume_sim] view_snd [OF revoke_sim] view_snd [OF revoke_all_sim]
    intro!: Eval_inv [where P = "\<lambda>r. view t r k = None" for t k] split: option.splits)

lemma token_absent_reach:
  assumes "refresh_reach exec view sha S G s s'" and "\<And>bs. bs \<in> G \<Longrightarrow> sha (base64_raw_url bs) \<noteq> sha raw"
    and "session_inv sha S (view (fst s) (snd s))" and "view (fst s) (snd s) (tokenKey sha S raw) = None"
  shows "fst (Lookup exec sha S Delivered (fst s') raw (snd s')) = Inl ErrInvalidRefreshToken"
proof -
  have "view (fst s') (snd s') (tokenKey sha S raw) = None \<and> session_inv sha S (view (fst s') (snd s'))"
    using assms
    by (induction rule: rtranclp_induct) (auto intro: token_absent_step session_step_inv)
  then show ?thesis by (intro Lookup_invalid) (auto simp: str_at_def)
qed

lemma Rotate_Inr:
  assumes "Rotate exec sha S Delivered t rnd raw uid r = (Inr new, r')" and "session_inv sha S (view t r)"
  defines "g \<equiv> refresh_hash sha new" and "h \<equiv> refresh_hash sha raw" and "e \<equiv> t + Milliseconds (rs_ttl S)"
  shows "newRefreshToken rnd = Inr new" and "raw \<noteq> []" and "uid \<noteq> []"
    and "str_at (view t r) (tokenPrefix S @ h) = Some uid" and "t < e"
    and "view t r' = (view t r)(tokenPrefix S @ h := None, tokenPrefix S @ g \<mapsto> (VString uid, Some e),
      userKey sha S uid \<mapsto> (VString g, Some e))"
proof -
  show ne: "raw \<noteq> []" "uid \<noteq> []" using assms(1) by (auto simp: Rotate_def split: if_splits)
  show tok: "newRefreshToken rnd = Inr new"
    using assms(1) ne by (auto simp: Rotate_def bindE_eqs split: sum.splits if_splits)
  let ?m = "\<lambda>ex. rotateRefreshScript ex t (tokenPrefix S @ h) (tokenPrefix S @ g)
            (userKey sha S uid) uid h g (Milliseconds (rs_ttl S))"
  have "Eval Delivered (?m exec) r = (Inr (RInt 1), r')"
    using assms(1) ne tok unfolding Rotate_def g_def h_def
    by (auto simp: tokenKey_eq bindE_eqs split: if_splits)
  then have m: "?m exec r = (Inr (RInt 1), r')"
    by (cases "?m exec r") (auto simp: Eval_def client_reply_def split: sum.splits reply.splits)
  then have "?m redis_doc (view t r) = (Inr (RInt 1), view t r')"
    by (rule redis_simD [OF rotate_sim])
  then show "str_at (view t r) (tokenPrefix S @ h) = Some uid" "t < e"
    "view t r' = (view t r)(tokenPrefix S @ h := None, tokenPrefix S @ g \<mapsto> (VString uid, Some e),
      userKey sha S uid \<mapsto> (VString g, Some e))"
    unfolding rotate_doc [OF assms(2)] by (auto simp: e_def split: if_splits)
qed

lemma RevokeAll_view:
  assumes "RevokeAll exec sha S n t uid r = (x, r')" and "n \<noteq> LostRequest" and "session_inv sha S (view t r)"
  shows "str_at (view t r') (userKey sha S uid) = None"
proof -
  let ?m = "revokeAllRefreshScript exec t (userKey sha S uid) (tokenPrefix S)"
  have "r' = snd (?m r)"
    using assms(1,2) snd_bindE_mapErrE [of "\<lambda>_. retE ()" RevokeToken "Eval n ?m" r]
    by (cases n) (auto simp: RevokeAll_def Eval_def)
  then have "view t r' = snd (revokeAllRefreshScript redis_doc t (userKey sha S uid) (tokenPrefix S) (view t r))"
    by (simp add: view_snd [OF revoke_all_sim])
  then show ?thesis using assms(3) by (auto simp: revoke_all_doc split: option.splits)
qed

lemma Rotate_new_valid:
  assumes "Rotate exec sha S Delivered t rnd raw uid r = (Inr new, r')" and "session_inv sha S (view t r)"
    and "new \<noteq> []" and "t \<le> t'"
  shows "fst (Lookup exec sha S Delivered t' new r') =
    (if t' < t + Milliseconds (rs_ttl S) then Inr uid else Inl ErrInvalidRefreshToken)"
proof -
  let ?e = "t + Milliseconds (rs_ttl S)"
  note rot = Rotate_Inr [OF assms(1,2)]
  have "session_inv sha S (view t r')"
    unfolding rot(6) using session_inv_token [OF assms(2) rot(4)]
    by (intro session_inv_put session_inv_remove_token assms(2)) auto
  then have inv: "session_inv sha S (view t' r')"
    using view_expire [OF assms(4), of r'] by (simp add: session_inv_live)
  have "view t r' (tokenKey sha S new) = Some (VString uid, Some ?e)" by (simp add: rot(6) tokenKey_eq)
  then have "str_at (view t' r') (tokenKey sha S new) = (if t' < ?e then Some uid else None)"
    using view_expire [OF assms(4), of r'] by (simp add: str_at_def live_simps)
  then show ?thesis
    using Lookup_iff [OF inv, of new uid] Lookup_invalid [OF inv, of new] assms(3) rot(3) by auto
qed

lemma Rotate_old_invalid:
  assumes "Rotate exec sha S Delivered t rnd raw uid r = (Inr new, r')" and "session_inv sha S (view t r)"
    and "sha new \<noteq> sha raw" and "refresh_reach exec view sha S G (t, r') (t2, r2)"
    and "\<And>bs. bs \<in> G \<Longrightarrow> sha (base64_raw_url bs) \<noteq> sha raw"
  shows "fst (Lookup exec sha S Delivered t2 raw r2) = Inl ErrInvalidRefreshToken"
proof -
  note rot = Rotate_Inr [OF assms(1,2)]
  have "session_inv sha S (view t r')"
    unfolding rot(6) using session_inv_token [OF assms(2) rot(4)]
    by (intro session_inv_put session_inv_remove_token assms(2)) auto
  moreover have "view t r' (tokenKey sha S raw) = None"
    using assms(3) by (simp add: rot(6) tokenKey_eq refresh_hash_def)
  ultimately show ?thesis
    using token_absent_reach [OF assms(4), of raw] assms(5) by simp
qed

lemma reach_session_inv:
  "no_sessions S (view t0 r0) \<Longrightarrow> refresh_reach exec view sha S G (t0, r0) (t, r) \<Longrightarrow> session_inv sha S (view t r)"
  using refresh_reach_inv [of sha S G "(t0, r0)" "(t, r)"] by (simp add: no_sessions_inv)

lemma Rotate_old_valid:
  "Rotate exec sha S Delivered t rnd raw uid r = (Inr new, r') \<Longrightarrow> session_inv sha S (view t r) \<Longrightarrow>
   fst (Lookup exec sha S Delivered t raw r) = Inr uid"
  by (frule (1) Rotate_Inr) (simp add: Lookup_iff tokenKey_eq Rotate_Inr)

text \<open>No token of the user is stored; only an \<open>Issue\<close> for this user changes that.\<close>

lemma view_Eval: "redis_sim (view t) m m' \<Longrightarrow>
    view t (snd (Eval n m r)) = view t r \<or> view t (snd (Eval n m r)) = snd (m' (view t r))"
  by (cases n) (simp_all add: Eval_def view_snd)

lemma no_token_eval:
  assumes "no_token S uid (view t r)" and "redis_sim (view t) m m'" and "no_token S uid (snd (m' (view t r)))"
  shows "no_token S uid (view t (snd (Eval n m r)))"
  using assms(1,3) view_Eval [OF assms(2), of n r] by auto

lemma no_token_step:
  assumes "session_step exec view sha S G U s s'" and "uid \<notin> U"
    and "session_inv sha S (view (fst s) (snd s))" and "no_token S uid (view (fst s) (snd s))"
  shows "no_token S uid (view (fst s') (snd s'))"
  using assms
proof (induction rule: session_step.induct)
  case (pass t t' r)
  then show ?case using view_expire [of t t' r] by (simp add: no_token_live)
next
  case (issue rnd u t r n)
  show ?case
  proof (cases "newRefreshToken rnd")
    case (Inl e)
    with issue show ?thesis by (simp add: Issue_def)
  next
    case (Inr new)
    from issue have "u \<noteq> uid" by auto
    with Inr issue show ?thesis
      by (auto simp: snd_Issue tokenKey_eq replace_doc Let_def intro!: no_token_eval replace_sim no_token_put
          split: option.splits)
  qed
next
  case (rotate rnd t r n raw u)
  show ?case
  proof (cases "newRefreshToken rnd")
    case (Inl e)
    with rotate show ?thesis by (simp add: Rotate_def)
  next
    case (Inr new)
    have "no_token S uid (snd (rotateRefreshScript redis_doc t (tokenPrefix S @ h) (tokenPrefix S @ g)
        (userKey sha S u) u h g px (view t r)))" for h g px
    proof (cases "u = uid")
      case True
      with rotate have "str_at (view t r) (tokenPrefix S @ h) \<noteq> Some u" by (simp add: no_token_def)
      with rotate show ?thesis by (simp add: rotate_doc)
    next
      case False
      with rotate show ?thesis by (simp add: rotate_doc no_token_put)
    qed
    with Inr rotate show ?thesis
      by (cases "raw = [] \<or> u = []") (auto simp: snd_Rotate snd_Rotate_empty tokenKey_eq intro!: no_token_eval rotate_sim)
  qed
next
  case (other t r' r)
  then show ?case by (simp add: no_token_def str_at_def tokenPrefix_def has_prefix_iff prefix_def)
qed (auto simp: tokenKey_eq RevokeAll_def snd_bindE_mapErrE consume_doc revoke_doc revoke_all_doc
    intro!: no_token_eval consume_sim revoke_sim revoke_all_sim split: option.splits)

lemma no_token_reach:
  assumes "(session_step exec view sha S G U)\<^sup>*\<^sup>* (t, r) (t2, r2)" and "uid \<notin> U"
    and "session_inv sha S (view t r)" and "no_token S uid (view t r)"
  shows "session_inv sha S (view t2 r2) \<and> no_token S uid (view t2 r2)"
proof -
  have "session_inv sha S (view (fst s') (snd s')) \<and> no_token S uid (view (fst s') (snd s'))"
    if "(session_step exec view sha S G U)\<^sup>*\<^sup>* (t, r) s'" for s'
    using that assms(2-4) by (induction rule: rtranclp_induct) (auto intro: session_step_inv no_token_step)
  from this [OF assms(1)] show ?thesis by simp
qed

text \<open>Without a stored token of the user nothing accepts one.\<close>

lemma Lookup_lost: "n \<noteq> Delivered \<Longrightarrow> fst (Lookup exec sha S n t raw r) \<noteq> Inr uid"
  by (cases n) (auto simp: Lookup_def Eval_def split: prod.splits)

lemma no_token_lookup:
  assumes "session_inv sha S (view t r)" and "no_token S uid (view t r)"
  shows "fst (Lookup exec sha S n t raw r) \<noteq> Inr uid"
proof (cases "n = Delivered")
  case True
  with assms Lookup_iff [OF assms(1), of raw uid] show ?thesis by (simp add: no_token_def tokenKey_eq)
qed (rule Lookup_lost)

lemma no_token_consume:
  assumes "session_inv sha S (view t r)" and "no_token S uid (view t r)"
  shows "fst (Consume exec sha S n t mid n' t' raw r) \<noteq> Inr uid"
proof -
  have "fst (Lookup exec sha S n t raw r) \<noteq> Inr uid" by (rule no_token_lookup [OF assms])
  then show ?thesis by (auto simp: Consume_def bindE_def mapErrE_def split: prod.splits sum.splits)
qed

lemma no_token_rotate:
  assumes "session_inv sha S (view t r)" and "no_token S uid (view t r)"
  shows "fst (Rotate exec sha S n t rnd raw uid r) \<noteq> Inr new"
proof
  assume rot: "fst (Rotate exec sha S n t rnd raw uid r) = Inr new"
  then have "n = Delivered"
    by (cases n) (auto simp: Rotate_def Eval_def bindE_def mapErrE_def split: if_splits sum.splits prod.splits)
  with rot show False
    using Rotate_Inr(4) [OF _ assms(1), of rnd raw uid new] assms(2)
    by (metis no_token_def prod.collapse)
qed

lemma RevokeAll_no_token:
  assumes "RevokeAll exec sha S n t uid r = (x, r')" and "n \<noteq> LostRequest" and "session_inv sha S (view t r)"
  shows "session_inv sha S (view t r') \<and> no_token S uid (view t r')"
proof -
  have "r' = snd (RevokeAll exec sha S n t uid r)" using assms(1) by simp
  then have inv: "session_inv sha S (view t r')"
    using session_step_inv [OF session_step.revoke_all [of exec view sha S G U t r n uid for G U]] assms(3) by simp
  with RevokeAll_view [OF assms] show ?thesis
    using session_inv_token [OF inv, of _ uid] by (auto simp: no_token_def)
qed

lemma RevokeAll_final:
  assumes "RevokeAll exec sha S n t uid r = (x, r')" and "n \<noteq> LostRequest" and "session_inv sha S (view t r)"
    and "(session_step exec view sha S G (- {uid}))\<^sup>*\<^sup>* (t, r') (t2, r2)"
  shows "session_inv sha S (view t2 r2) \<and> no_token S uid (view t2 r2)"
  using no_token_reach [OF assms(4), of uid] RevokeAll_no_token [OF assms(1-3)] by simp

lemma Issue_ok:
  assumes "session_inv sha S (view t r)" and "newRefreshToken rnd = Inr raw" and "0 < Milliseconds (rs_ttl S)"
  shows "fst (Issue exec sha S Delivered t rnd uid r) = Inr raw"
    and "view t (snd (Issue exec sha S Delivered t rnd uid r)) (tokenKey sha S raw) =
      Some (VString uid, Some (t + Milliseconds (rs_ttl S)))"
proof -
  let ?m = "\<lambda>ex. replaceRefreshScript ex t (tokenPrefix S @ refresh_hash sha raw) (userKey sha S uid)
            (tokenPrefix S) uid (refresh_hash sha raw) (Milliseconds (rs_ttl S))"
  have "fst (?m exec r) = Inr (RInt 1)"
    using assms(1,3) by (simp add: view_fst [OF replace_sim] replace_doc Let_def)
  then show "fst (Issue exec sha S Delivered t rnd uid r) = Inr raw"
    using assms(2) by (auto simp: Issue_def tokenKey_eq Eval_def client_reply_def bindE_def mapErrE_def
        split: prod.splits sum.splits)
  have "view t (snd (?m exec r)) (tokenKey sha S raw) = Some (VString uid, Some (t + Milliseconds (rs_ttl S)))"
    using assms(1,3) by (simp add: view_snd [OF replace_sim] replace_doc Let_def tokenKey_eq)
  then show "view t (snd (Issue exec sha S Delivered t rnd uid r)) (tokenKey sha S raw) =
      Some (VString uid, Some (t + Milliseconds (rs_ttl S)))"
    by (simp add: snd_Issue [OF assms(2)] Eval_def tokenKey_eq)
qed

lemma Rotate_ok:
  assumes "session_inv sha S (view t r)" and "str_at (view t r) (tokenKey sha S raw) = Some uid"
    and "newRefreshToken rnd = Inr new" and "0 < Milliseconds (rs_ttl S)" and "raw \<noteq> []" and "uid \<noteq> []"
  shows "fst (Rotate exec sha S Delivered t rnd raw uid r) = Inr new"
proof -
  let ?m = "\<lambda>ex. rotateRefreshScript ex t (tokenPrefix S @ refresh_hash sha raw) (tokenPrefix S @ refresh_hash sha new)
            (userKey sha S uid) uid (refresh_hash sha raw) (refresh_hash sha new) (Milliseconds (rs_ttl S))"
  have "fst (?m exec r) = Inr (RInt 1)"
    using assms(1,2,4) by (simp add: view_fst [OF rotate_sim] rotate_doc tokenKey_eq)
  then show ?thesis
    using assms(3,5,6) by (auto simp: Rotate_def tokenKey_eq Eval_def client_reply_def bindE_def mapErrE_def
        split: prod.splits sum.splits)
qed

end

section \<open>Properties\<close>

text \<open>
  C3: from a state without sessions, however the operations of several processes interleave, time
  passes and messages get lost, two refresh tokens accepted for the same user at the same time are
  the same token (they have the same digest).
\<close>

theorem refresh_single_session:
  assumes "redis exec view" and "no_sessions S (view t0 r0)"
    and "refresh_reach exec view sha S G (t0, r0) (t, r)"
    and "fst (Lookup exec sha S Delivered t raw1 r) = Inr uid"
    and "fst (Lookup exec sha S Delivered t raw2 r) = Inr uid"
  shows "refresh_hash sha raw1 = refresh_hash sha raw2"
  by (rule redis.single_session [OF assms(1) redis.reach_session_inv [OF assms(1-3)] assms(4,5)])

text \<open>
  C4: a successful rotation needs the presented token to be the user's current one; afterwards the
  new token is accepted for the user until its lifetime ends, and the old token is rejected in every
  later state, whatever any process does, as long as the generator does not produce a token with
  the same digest.
\<close>

theorem rotate_single_use:
  assumes "redis exec view" and "no_sessions S (view t0 r0)"
    and "refresh_reach exec view sha S G (t0, r0) (t, r)"
    and "Rotate exec sha S Delivered t rnd raw uid r = (Inr new, r')"
    and "sha new \<noteq> sha raw" and "new \<noteq> []" and "t \<le> t'"
    and "refresh_reach exec view sha S G' (t, r') (t2, r2)"
    and "\<And>bs. bs \<in> G' \<Longrightarrow> sha (base64_raw_url bs) \<noteq> sha raw"
  shows "fst (Lookup exec sha S Delivered t raw r) = Inr uid \<and>
    fst (Lookup exec sha S Delivered t' new r') =
      (if t' < t + Milliseconds (rs_ttl S) then Inr uid else Inl ErrInvalidRefreshToken) \<and>
    fst (Lookup exec sha S Delivered t2 raw r2) = Inl ErrInvalidRefreshToken"
proof -
  have inv: "session_inv sha S (view t r)" by (rule redis.reach_session_inv [OF assms(1-3)])
  show ?thesis
    using redis.Rotate_old_valid [OF assms(1,4) inv] redis.Rotate_new_valid [OF assms(1,4) inv assms(6,7)]
      redis.Rotate_old_invalid [OF assms(1,4) inv assms(5,8,9)] by blast
qed

text \<open>
  C5: once \<open>RevokeAll\<close> has reached Redis, even if its reply is lost, the sessions of the user are
  over until a new one is issued for this user: in every later state, whatever is issued for other
  users, looked up, rotated, consumed or revoked by any process, whatever gets lost and however time
  passes, no token is accepted for the user by a lookup, a consumption (even one with commands of
  others between its two messages) or a rotation.
\<close>

theorem revoke_all_ends_sessions:
  assumes "redis exec view" and "no_sessions S (view t0 r0)"
    and "refresh_reach exec view sha S G (t0, r0) (t, r)"
    and "RevokeAll exec sha S n t uid r = (x, r')" and "n \<noteq> LostRequest"
    and "(session_step exec view sha S G' (- {uid}))\<^sup>*\<^sup>* (t, r') (t2, r2)"
  shows "fst (Lookup exec sha S n2 t2 raw r2) \<noteq> Inr uid \<and>
    fst (Consume exec sha S n2 t2 mid n3 t3 raw r2) \<noteq> Inr uid \<and>
    fst (Rotate exec sha S n2 t2 rnd raw uid r2) \<noteq> Inr new"
proof -
  note final = redis.RevokeAll_final [OF assms(1,4,5) redis.reach_session_inv [OF assms(1-3)] assms(6)]
  then have inv: "session_inv sha S (view t2 r2)" and none: "no_token S uid (view t2 r2)" by blast+
  show ?thesis
    by (intro conjI redis.no_token_lookup [OF assms(1) inv none] redis.no_token_consume [OF assms(1) inv none]
      redis.no_token_rotate [OF assms(1) inv none])
qed

text \<open>A run on the reference server, with the identity in place of the digest.\<close>

definition sample_store :: RefreshStore where
  "sample_store = NewRefreshStore ''iam:dev'' 1000000000"

definition sample_issue :: "(refresh_error + string) \<times> keyspace" where
  "sample_issue = Issue lazy_exec id sample_store Delivered 0 (Some ''abc'') ''u1'' Map.empty"

definition sample_rotate :: "(refresh_error + string) \<times> keyspace" where
  "sample_rotate = Rotate lazy_exec id sample_store Delivered 5 (Some ''xyz'') ''YWJj'' ''u1'' (snd sample_issue)"

lemma sample_tokens: "newRefreshToken (Some ''abc'') = Inr ''YWJj''" "newRefreshToken (Some ''xyz'') = Inr ''eHl6''"
  by (simp_all add: newRefreshToken_def Let_def b64_char_def char_of_def bit_0)

lemma sample_ttl: "Milliseconds (rs_ttl sample_store) = 1000"
  by (simp add: sample_store_def NewRefreshStore_def Milliseconds_def)

lemma sample_start: "no_sessions sample_store (live t Map.empty)"
  by (simp add: no_sessions_def live_def)

lemma sample_reach_issue:
  "refresh_reach lazy_exec live id sample_store {''abc''} (0, Map.empty) (5, snd sample_issue)"
proof -
  have "refresh_step lazy_exec live id sample_store {''abc''} (0, Map.empty) (0, snd sample_issue)"
    unfolding sample_issue_def by (rule session_step.issue) simp_all
  moreover have "refresh_step lazy_exec live id sample_store {''abc''} (0, snd sample_issue) (5, snd sample_issue)"
    by (rule session_step.pass) simp
  ultimately show ?thesis by (meson converse_rtranclp_into_rtranclp rtranclp.rtrancl_refl)
qed

lemma sample_issue_token: "str_at (live 5 (snd sample_issue)) (tokenKey id sample_store ''YWJj'') = Some ''u1''"
proof -
  have "live 0 (snd sample_issue) (tokenKey id sample_store ''YWJj'') = Some (VString ''u1'', Some 1000)"
    unfolding sample_issue_def
    by (simp add: lazy.Issue_ok(2) [OF no_sessions_inv [OF sample_start] sample_tokens(1)] sample_ttl)
  then have "snd sample_issue (tokenKey id sample_store ''YWJj'') = Some (VString ''u1'', Some 1000)"
    by (rule live_Some)
  then show ?thesis by (simp add: str_at_def live_simps)
qed

lemma sample_rotate_ok: "fst sample_rotate = Inr ''eHl6''"
  unfolding sample_rotate_def
  by (rule lazy.Rotate_ok [OF lazy.reach_session_inv [OF sample_start sample_reach_issue] sample_issue_token sample_tokens(2)])
    (simp_all add: sample_ttl)

theorem refresh_single_session_witness:
  "fst (Lookup lazy_exec id sample_store Delivered 5 ''YWJj'' (snd sample_issue)) = Inr ''u1'' \<and>
   refresh_hash id ''YWJj'' = refresh_hash id ''YWJj''"
proof -
  have "fst (Lookup lazy_exec id sample_store Delivered 5 ''YWJj'' (snd sample_issue)) = Inr ''u1''"
    by (simp add: lazy.Lookup_iff [OF lazy.reach_session_inv [OF sample_start sample_reach_issue]] sample_issue_token)
  with refresh_single_session [OF lazy.redis_axioms sample_start sample_reach_issue this this]
  show ?thesis by blast
qed

theorem rotate_single_use_witness:
  "fst (Lookup lazy_exec id sample_store Delivered 5 ''YWJj'' (snd sample_issue)) = Inr ''u1'' \<and>
   fst (Lookup lazy_exec id sample_store Delivered 7 ''eHl6'' (snd sample_rotate)) = Inr ''u1'' \<and>
   fst (Lookup lazy_exec id sample_store Delivered 5 ''YWJj'' (snd sample_rotate)) = Inl ErrInvalidRefreshToken"
proof -
  have "Rotate lazy_exec id sample_store Delivered 5 (Some ''xyz'') ''YWJj'' ''u1'' (snd sample_issue) =
      (Inr ''eHl6'', snd sample_rotate)"
    using sample_rotate_ok by (cases sample_rotate) (simp add: sample_rotate_def)
  from rotate_single_use [OF lazy.redis_axioms sample_start sample_reach_issue this _ _ _ rtranclp.rtrancl_refl,
      of 7 "{}"]
  show ?thesis by (simp add: sample_ttl)
qed

text \<open>All sessions of the user end; then somebody presents the old token and another user logs in.\<close>

definition sample_revoked :: keyspace where
  "sample_revoked = snd (RevokeAll lazy_exec id sample_store LostReply 5 ''u1'' (snd sample_issue))"

definition sample_later :: keyspace where
  "sample_later = snd (Issue lazy_exec id sample_store Delivered 6 (Some ''xyz'') ''u2''
     (snd (Rotate lazy_exec id sample_store Delivered 6 (Some ''xyz'') ''YWJj'' ''u1'' sample_revoked)))"

lemma sample_reach_later:
  "(session_step lazy_exec live id sample_store {''xyz''} (- {''u1''}))\<^sup>*\<^sup>* (5, sample_revoked) (6, sample_later)"
proof -
  let ?step = "session_step lazy_exec live id sample_store {''xyz''} (- {''u1''})"
  let ?r = "snd (Rotate lazy_exec id sample_store Delivered 6 (Some ''xyz'') ''YWJj'' ''u1'' sample_revoked)"
  have "?step (5, sample_revoked) (6, sample_revoked)" by (rule session_step.pass) simp
  moreover have "?step (6, sample_revoked) (6, ?r)" by (rule session_step.rotate) simp
  moreover have "?step (6, ?r) (6, sample_later)"
    unfolding sample_later_def by (rule session_step.issue) simp_all
  ultimately show ?thesis by (meson converse_rtranclp_into_rtranclp rtranclp.rtrancl_refl)
qed

theorem revoke_all_ends_sessions_witness:
  "fst (Lookup lazy_exec id sample_store Delivered 6 ''YWJj'' sample_later) \<noteq> Inr ''u1'' \<and>
   fst (Rotate lazy_exec id sample_store Delivered 6 (Some ''abd'') ''eHl6'' ''u1'' sample_later) \<noteq> Inr ''YWJk''"
proof -
  have "RevokeAll lazy_exec id sample_store LostReply 5 ''u1'' (snd sample_issue) =
      (fst (RevokeAll lazy_exec id sample_store LostReply 5 ''u1'' (snd sample_issue)), sample_revoked)"
    by (simp add: sample_revoked_def)
  from revoke_all_ends_sessions [OF lazy.redis_axioms sample_start sample_reach_issue this _ sample_reach_later]
  show ?thesis by blast
qed

end
