(* ===== verification/Auth_Cache.thy ===== *)
theory Auth_Cache
  imports Redis Iam_Ports
begin

text \<open>
  The cache of email codes and login challenges, \<open>src/pkg/platform/authcache/redis.go\<close>: its Lua scripts
  and operations over the Redis of the locale \<open>redis\<close>. HMAC-SHA256 (\<open>hmac\<close>), the random source, Unicode's
  lower case and the clocks are arguments. The lemmas give the exact effect of the scripts on observed
  keys; the theorems bound the guesses at a code and the attempts at a challenge, and show that a login
  code is accepted once and that requests for codes are throttled.
\<close>

section \<open>Keys\<close>

record CodeStore =
  cs_prefix :: string
  cs_pepper :: string

definition NewCodeStore :: "string \<Rightarrow> string \<Rightarrow> CodeStore" where
  "NewCodeStore environment pepper = \<lparr>cs_prefix = ''auth:'' @ environment @ '':'', cs_pepper = pepper\<rparr>"

type_synonym hmac = "string \<Rightarrow> string \<Rightarrow> string"

definition digest :: "hmac \<Rightarrow> CodeStore \<Rightarrow> string \<Rightarrow> string" where
  "digest hm S v = hex_encode (hm (cs_pepper S) v)"

definition normal_email :: "(string \<Rightarrow> string) \<Rightarrow> string \<Rightarrow> string" where
  "normal_email ul email = ToLower ul (TrimSpace email)"

definition emailKey :: "hmac \<Rightarrow> (string \<Rightarrow> string) \<Rightarrow> CodeStore \<Rightarrow> string \<Rightarrow> string \<Rightarrow> string" where
  "emailKey hm ul S email purpose = cs_prefix S @ ''email:'' @ purpose @ '':'' @ digest hm S (normal_email ul email)"

definition randomID :: "string option \<Rightarrow> iam_error + string" where
  "randomID rnd = (case rnd of None \<Rightarrow> Inl ErrAuthenticationUnavailable | Some b \<Rightarrow> Inr (hex_encode b))"

text \<open>
  \<open>cacheError\<close>: the error of the request's context wins, then a cancellation the client reports; every
  other error makes the service unavailable. A call's \<open>ctx\<close> holds \<open>ctx.Err()\<close> when the call fails and
  whether the client's error is a cancellation.
\<close>

record call_ctx =
  ctx_Err :: "string option"
  ctx_canceled :: bool

definition cacheError :: "call_ctx \<Rightarrow> bool \<Rightarrow> iam_error" where
  "cacheError ctx canceled = (case ctx_Err ctx of
      Some e \<Rightarrow> OtherError e
    | None \<Rightarrow> if canceled then OtherError ''context canceled'' else ErrAuthenticationUnavailable)"

definition clientError :: "call_ctx \<Rightarrow> client_error \<Rightarrow> iam_error" where
  "clientError ctx e = cacheError ctx (e = NetError \<and> ctx_canceled ctx)"

section \<open>Scripts\<close>

text \<open>Lua's \<open>math.ceil(ms / 1000)\<close>.\<close>

definition ceil_seconds :: "int \<Rightarrow> int" where
  "ceil_seconds ms = - ((- ms) div 1000)"

definition reply_int :: "reply \<Rightarrow> ('r, redis_error, int) op" where
  "reply_int r = (case r of RInt n \<Rightarrow> retE n | _ \<Rightarrow> failE LuaError)"

definition ttl_seconds :: "'r redis_exec \<Rightarrow> int \<Rightarrow> string \<Rightarrow> ('r, redis_error, int) op" where
  "ttl_seconds exec t k = bindE (exec t (PTTL k)) (\<lambda>r. bindE (reply_int r) (\<lambda>ms. retE (ceil_seconds ms)))"

definition count_request :: "'r redis_exec \<Rightarrow> int \<Rightarrow> string \<Rightarrow> int \<Rightarrow> int \<Rightarrow> ('r, redis_error, int) op" where
  "count_request exec t k limit retry =
     bindE (exec t (INCR k)) (\<lambda>r.
     bindE (reply_int r) (\<lambda>count.
     bindE (if count = 1 then exec t (EXPIRE k 3600) else retE RNil) (\<lambda>_.
     if count > limit then bindE (ttl_seconds exec t k) (\<lambda>s. retE (max retry s)) else retE retry)))"

definition issueScript ::
    "'r redis_exec \<Rightarrow> int \<Rightarrow> string \<Rightarrow> string \<Rightarrow> string \<Rightarrow> string \<Rightarrow> string \<Rightarrow> string \<Rightarrow> int \<Rightarrow> int \<Rightarrow> ('r, redis_error, reply) op" where
  "issueScript exec t k1 k2 k3 k4 a1 a2 a3 a4 =
     bindE (count_request exec t k3 a3 0) (\<lambda>retry.
     bindE (count_request exec t k4 a4 retry) (\<lambda>retry.
     bindE (ttl_seconds exec t k2) (\<lambda>s.
     let retry = max retry s in
     if retry > 0 then retE (RInt retry)
     else bindE (exec t (SET_EX k2 ''1'' 60)) (\<lambda>_.
       bindE (exec t (HSET k1 [(''digest'', a1), (''id'', a2), (''errors'', FormatInt 0)])) (\<lambda>_.
       bindE (exec t (EXPIRE k1 600)) (\<lambda>_.
       retE (RInt 0)))))))"

text \<open>\<open>tonumber\<close> of a reply; Lua refuses to compare \<open>nil\<close> with a number.\<close>

definition reply_number :: "reply \<Rightarrow> ('r, redis_error, int) op" where
  "reply_number r = (case r of
      RBulk v \<Rightarrow> (case ParseInt v of Some n \<Rightarrow> retE n | None \<Rightarrow> failE LuaError)
    | RInt n \<Rightarrow> retE n
    | _ \<Rightarrow> failE LuaError)"

definition verifyScript :: "'r redis_exec \<Rightarrow> int \<Rightarrow> string \<Rightarrow> string \<Rightarrow> bool \<Rightarrow> ('r, redis_error, reply) op" where
  "verifyScript exec t k1 a1 consume =
     bindE (exec t (EXISTS k1)) (\<lambda>ex.
     if ex = RInt 0 then retE (RMulti [])
     else bindE (exec t (HGET k1 ''errors'')) (\<lambda>er.
     bindE (reply_number er) (\<lambda>errors.
     if errors \<ge> 5 then retE (RMulti [])
     else bindE (exec t (HGET k1 ''digest'')) (\<lambda>d.
     if d \<noteq> RBulk a1 then bindE (exec t (HINCRBY k1 ''errors'' 1)) (\<lambda>_. retE (RMulti []))
     else bindE (exec t (HGET k1 ''id'')) (\<lambda>i.
       bindE (exec t (PTTL k1)) (\<lambda>p.
       bindE (reply_int p) (\<lambda>ms.
       bindE (if consume then exec t (DEL [k1]) else retE RNil) (\<lambda>_.
       retE (RMulti [i, RBulk (FormatInt ms)])))))))))"

definition consumeScript :: "'r redis_exec \<Rightarrow> int \<Rightarrow> string \<Rightarrow> string \<Rightarrow> ('r, redis_error, reply) op" where
  "consumeScript exec t k1 a1 =
     bindE (exec t (HGET k1 ''id'')) (\<lambda>i.
     if i \<noteq> RBulk a1 then retE (RInt 0)
     else bindE (exec t (DEL [k1])) (\<lambda>_. retE (RInt 1)))"

definition issueChallengeScript :: "'r redis_exec \<Rightarrow> int \<Rightarrow> string \<Rightarrow> string \<Rightarrow> string \<Rightarrow> ('r, redis_error, reply) op" where
  "issueChallengeScript exec t k1 a1 a2 =
     bindE (exec t (HSET k1 [(''user'', a1), (''version'', a2), (''attempts'', FormatInt 0)])) (\<lambda>_.
     bindE (exec t (EXPIRE k1 300)) (\<lambda>_. retE (RInt 1)))"

definition attemptScript :: "'r redis_exec \<Rightarrow> int \<Rightarrow> string \<Rightarrow> ('r, redis_error, reply) op" where
  "attemptScript exec t k1 =
     bindE (exec t (EXISTS k1)) (\<lambda>ex.
     if ex = RInt 0 then retE (RMulti [])
     else bindE (exec t (HINCRBY k1 ''attempts'' 1)) (\<lambda>r.
     bindE (reply_int r) (\<lambda>n.
     if n > 5 then retE (RMulti [])
     else bindE (exec t (HGET k1 ''user'')) (\<lambda>u.
       bindE (exec t (HGET k1 ''version'')) (\<lambda>v.
       retE (RMulti [u, v]))))))"

section \<open>Operations\<close>

text \<open>The client's \<open>StringSlice\<close> and \<open>Int\<close>.\<close>

fun string_of_reply :: "reply \<Rightarrow> string option" where
  "string_of_reply (RBulk s) = Some s"
| "string_of_reply _ = None"

definition StringSlice :: "client_error + reply \<Rightarrow> client_error + string list" where
  "StringSlice r = (case r of
      Inl e \<Rightarrow> Inl e
    | Inr (RMulti rs) \<Rightarrow> (if list_all (\<lambda>x. string_of_reply x \<noteq> None) rs then Inr (map (the \<circ> string_of_reply) rs)
        else Inl (ScriptError LuaError))
    | Inr _ \<Rightarrow> Inl (ScriptError LuaError))"

definition Int_reply :: "client_error + reply \<Rightarrow> client_error + int" where
  "Int_reply r = (case r of
      Inl e \<Rightarrow> Inl e
    | Inr (RInt n) \<Rightarrow> Inr n
    | Inr (RBulk s) \<Rightarrow> (case ParseInt s of Some n \<Rightarrow> Inr n | None \<Rightarrow> Inl (ScriptError LuaError))
    | Inr _ \<Rightarrow> Inl (ScriptError LuaError))"

definition reading :: "(client_error + reply \<Rightarrow> client_error + 'a) \<Rightarrow> ('r, client_error, reply) op \<Rightarrow> ('r, client_error, 'a) op" where
  "reading f m = (\<lambda>r. (f (fst (m r)), snd (m r)))"

text \<open>\<open>fmt.Sprintf("%06d", n)\<close> for a number below a million.\<close>

definition pad6 :: "nat \<Rightarrow> string" where
  "pad6 n = replicate (6 - length (FormatUint n)) (CHR ''0'') @ FormatUint n"

definition IssueCode ::
    "'r redis_exec \<Rightarrow> hmac \<Rightarrow> (string \<Rightarrow> string) \<Rightarrow> CodeStore \<Rightarrow> net \<Rightarrow> int \<Rightarrow> call_ctx \<Rightarrow> nat option \<Rightarrow> string option
      \<Rightarrow> string \<Rightarrow> string \<Rightarrow> string \<Rightarrow> ('r, iam_error, string) op" where
  "IssueCode exec hm ul S n t ctx rndCode rndID email purpose ip =
     (case rndCode of
        None \<Rightarrow> failE (cacheError ctx False)
      | Some k \<Rightarrow>
        (case randomID rndID of
           Inl e \<Rightarrow> failE (cacheError ctx False)
         | Inr i \<Rightarrow>
           let code = pad6 k; key = emailKey hm ul S email purpose in
           bindE (mapErrE (clientError ctx) (reading Int_reply (Eval n
             (issueScript exec t key (key @ '':cooldown'') (cs_prefix S @ ''limit:email:'' @ digest hm S (normal_email ul email))
               (cs_prefix S @ ''limit:ip:'' @ digest hm S ip) (digest hm S (key @ '':'' @ code)) i 10 50)))) (\<lambda>retry.
           if retry > 0 then failE (RateLimitError retry) else retE code)))"

definition VerifyCode ::
    "'r redis_exec \<Rightarrow> hmac \<Rightarrow> (string \<Rightarrow> string) \<Rightarrow> CodeStore \<Rightarrow> net \<Rightarrow> int \<Rightarrow> call_ctx \<Rightarrow> int \<Rightarrow> string \<Rightarrow> string \<Rightarrow> string
      \<Rightarrow> ('r, iam_error, CodeReceipt) op" where
  "VerifyCode exec hm ul S n t ctx started email purpose code =
     (let key = emailKey hm ul S email purpose in
      bindE (mapErrE (clientError ctx) (reading StringSlice (Eval n
        (verifyScript exec t key (digest hm S (key @ '':'' @ code)) False)))) (\<lambda>v.
      case v of
        [i, ms] \<Rightarrow> (case ParseInt ms of
            None \<Rightarrow> failE ErrInvalidCode
          | Some ttl \<Rightarrow> if ttl \<le> 0 then failE ErrInvalidCode
              else retE \<lparr>rec_ID = i, rec_ExpiresAt = started + int64 (ttl * 1000000)\<rparr>)
      | _ \<Rightarrow> failE ErrInvalidCode))"

definition VerifyAndConsume ::
    "'r redis_exec \<Rightarrow> hmac \<Rightarrow> (string \<Rightarrow> string) \<Rightarrow> CodeStore \<Rightarrow> net \<Rightarrow> int \<Rightarrow> call_ctx \<Rightarrow> string \<Rightarrow> string \<Rightarrow> string
      \<Rightarrow> ('r, iam_error, unit) op" where
  "VerifyAndConsume exec hm ul S n t ctx email purpose code =
     (let key = emailKey hm ul S email purpose in
      bindE (mapErrE (clientError ctx) (reading StringSlice (Eval n
        (verifyScript exec t key (digest hm S (key @ '':'' @ code)) True)))) (\<lambda>v.
      if length v \<noteq> 2 then failE ErrInvalidCode else retE ()))"

definition ConsumeCode ::
    "'r redis_exec \<Rightarrow> hmac \<Rightarrow> (string \<Rightarrow> string) \<Rightarrow> CodeStore \<Rightarrow> net \<Rightarrow> int \<Rightarrow> call_ctx \<Rightarrow> string \<Rightarrow> string \<Rightarrow> CodeReceipt
      \<Rightarrow> ('r, iam_error, unit) op" where
  "ConsumeCode exec hm ul S n t ctx email purpose receipt =
     bindE (mapErrE (clientError ctx) (reading Int_reply (Eval n
       (consumeScript exec t (emailKey hm ul S email purpose) (rec_ID receipt))))) (\<lambda>k.
     if k \<noteq> 1 then failE ErrInvalidCode else retE ())"

definition challengeKey :: "hmac \<Rightarrow> CodeStore \<Rightarrow> string \<Rightarrow> string" where
  "challengeKey hm S i = cs_prefix S @ ''challenge:'' @ digest hm S i"

definition IssueChallenge ::
    "'r redis_exec \<Rightarrow> hmac \<Rightarrow> CodeStore \<Rightarrow> net \<Rightarrow> int \<Rightarrow> call_ctx \<Rightarrow> string option \<Rightarrow> Challenge \<Rightarrow> ('r, iam_error, string) op" where
  "IssueChallenge exec hm S n t ctx rndID v =
     (case randomID rndID of
        Inl e \<Rightarrow> failE (cacheError ctx False)
      | Inr i \<Rightarrow>
          bindE (mapErrE (clientError ctx) (Eval n
            (issueChallengeScript exec t (challengeKey hm S i) (ch_UserID v) (FormatInt (ch_Version v))))) (\<lambda>_. retE i))"

definition Attempt :: "'r redis_exec \<Rightarrow> hmac \<Rightarrow> CodeStore \<Rightarrow> net \<Rightarrow> int \<Rightarrow> call_ctx \<Rightarrow> string \<Rightarrow> ('r, iam_error, Challenge) op" where
  "Attempt exec hm S n t ctx i =
     (if length i \<noteq> 64 then failE ErrInvalidCode
      else bindE (mapErrE (clientError ctx) (reading StringSlice (Eval n (attemptScript exec t (challengeKey hm S i))))) (\<lambda>v.
        case v of
          [u, w] \<Rightarrow> (case ParseInt w of None \<Rightarrow> failE (cacheError ctx False) | Some ver \<Rightarrow> retE \<lparr>ch_UserID = u, ch_Version = ver\<rparr>)
        | _ \<Rightarrow> failE ErrInvalidCode))"

definition ConsumeChallenge :: "'r redis_exec \<Rightarrow> hmac \<Rightarrow> CodeStore \<Rightarrow> net \<Rightarrow> int \<Rightarrow> call_ctx \<Rightarrow> string \<Rightarrow> ('r, iam_error, unit) op" where
  "ConsumeChallenge exec hm S n t ctx i =
     bindE (mapErrE (clientError ctx) (reading Int_reply (Eval n (exec t (DEL [challengeKey hm S i]))))) (\<lambda>k.
     if k \<noteq> 1 then failE ErrInvalidCode else retE ())"

section \<open>What an email code's key holds\<close>

text \<open>The abstract state of a code: its digest, its identifier, the wrong guesses and the deadline.\<close>

record slot =
  slot_digest :: string
  slot_id :: string
  slot_errors :: int
  slot_deadline :: int

definition slot_hash :: "slot \<Rightarrow> string \<Rightarrow> string option" where
  "slot_hash s = [''digest'' \<mapsto> slot_digest s, ''id'' \<mapsto> slot_id s, ''errors'' \<mapsto> FormatInt (slot_errors s)]"

definition slot_rep :: "keyspace \<Rightarrow> string \<Rightarrow> slot option \<Rightarrow> bool" where
  "slot_rep K k so \<longleftrightarrow> (case so of
      None \<Rightarrow> K k = None
    | Some s \<Rightarrow> K k = Some (VHash (slot_hash s), Some (slot_deadline s)) \<and> 0 \<le> slot_errors s \<and> slot_errors s \<le> 5)"

text \<open>What a guess and a redemption do to a code, and how time ends it.\<close>

fun guess :: "string \<Rightarrow> bool \<Rightarrow> slot option \<Rightarrow> bool \<times> slot option" where
  "guess d consume None = (False, None)"
| "guess d consume (Some s) =
     (if slot_errors s \<ge> 5 then (False, Some s)
      else if slot_digest s \<noteq> d then (False, Some (s\<lparr>slot_errors := slot_errors s + 1\<rparr>))
      else (True, if consume then None else Some s))"

fun redeem :: "string \<Rightarrow> slot option \<Rightarrow> bool \<times> slot option" where
  "redeem i None = (False, None)"
| "redeem i (Some s) = (if slot_id s = i then (True, None) else (False, Some s))"

definition expire_slot :: "int \<Rightarrow> slot option \<Rightarrow> slot option" where
  "expire_slot t so = (case so of Some s \<Rightarrow> if t < slot_deadline s then Some s else None | None \<Rightarrow> None)"

lemma slot_rep_live: "slot_rep K k so \<Longrightarrow> slot_rep (live t K) k (expire_slot t so)"
  by (auto simp: slot_rep_def expire_slot_def live_def split: option.splits)

lemma slot_rep_cong: "K k = K' k \<Longrightarrow> slot_rep K k so = slot_rep K' k so"
  by (simp add: slot_rep_def split: option.splits)

lemma slot_rep_expired: "all_live t K \<Longrightarrow> slot_rep K k so \<Longrightarrow> expire_slot t so = so"
  by (auto simp: slot_rep_def expire_slot_def all_live_iff split: option.splits)

lemma slot_hash_fields [simp]:
  "slot_hash s ''digest'' = Some (slot_digest s)" "slot_hash s ''id'' = Some (slot_id s)"
  "slot_hash s ''errors'' = Some (FormatInt (slot_errors s))"
  by (simp_all add: slot_hash_def)

lemma slot_hash_errors: "(slot_hash s)(''errors'' \<mapsto> FormatInt n) = slot_hash (s\<lparr>slot_errors := n\<rparr>)"
  by (auto simp: slot_hash_def fun_eq_iff)

lemma small_int64 [simp]: "0 \<le> n \<Longrightarrow> n \<le> 100 \<Longrightarrow> in_int 64 n"
  by (simp add: in_int_def)

text \<open>The scripts compute exactly these operations.\<close>

definition verify_reply :: "int \<Rightarrow> string \<Rightarrow> slot option \<Rightarrow> reply" where
  "verify_reply t d so = (if fst (guess d False so)
     then RMulti [RBulk (slot_id (the so)), RBulk (FormatInt (slot_deadline (the so) - t))] else RMulti [])"

lemma verifyScript_doc:
  assumes "slot_rep K k so"
  shows "fst (verifyScript redis_doc t k d c K) = Inr (verify_reply t d so)"
    and "slot_rep (snd (verifyScript redis_doc t k d c K)) k (snd (guess d c so))"
proof -
  have "fst (verifyScript redis_doc t k d c K) = Inr (verify_reply t d so) \<and>
    slot_rep (snd (verifyScript redis_doc t k d c K)) k (snd (guess d c so))"
  proof (cases so)
    case None
    then show ?thesis using assms by (simp add: verifyScript_def slot_rep_def bindE_def verify_reply_def)
  next
    case (Some s)
    then have K: "K k = Some (VHash (slot_hash s), Some (slot_deadline s))" and "0 \<le> slot_errors s" "slot_errors s \<le> 5"
      using assms by (simp_all add: slot_rep_def)
    then have e: "ParseInt (FormatInt (slot_errors s)) = Some (slot_errors s)" "in_int 64 (slot_errors s + 1)" by simp_all
    show ?thesis
      using K e Some \<open>0 \<le> slot_errors s\<close> assms
      by (auto simp: verifyScript_def bindE_def reply_number_def reply_int_def verify_reply_def slot_rep_def slot_hash_errors
          simp del: redis_doc.simps(3) simp add: DEL_one)
  qed
  then show "fst (verifyScript redis_doc t k d c K) = Inr (verify_reply t d so)"
    and "slot_rep (snd (verifyScript redis_doc t k d c K)) k (snd (guess d c so))" by blast+
qed

lemma consumeScript_doc:
  assumes "slot_rep K k so"
  shows "fst (consumeScript redis_doc t k i K) = Inr (RInt (if fst (redeem i so) then 1 else 0))"
    and "slot_rep (snd (consumeScript redis_doc t k i K)) k (snd (redeem i so))"
  using assms by (cases so; auto simp: consumeScript_def bindE_def slot_rep_def DEL_one simp del: redis_doc.simps(3))+

section \<open>Counters and cooldown of requests\<close>

text \<open>A counter of requests is absent or holds a count with the end of its window.\<close>

definition counter_rep :: "keyspace \<Rightarrow> string \<Rightarrow> (int \<times> int) option \<Rightarrow> bool" where
  "counter_rep K l c \<longleftrightarrow> (case c of
      None \<Rightarrow> K l = None
    | Some (n, e) \<Rightarrow> K l = Some (VString (FormatInt n), Some e) \<and> 1 \<le> n \<and> in_int 64 n)"

text \<open>One more request in the window, which a first request opens.\<close>

definition count_one :: "int \<Rightarrow> (int \<times> int) option \<Rightarrow> int \<times> int" where
  "count_one t c = (case c of None \<Rightarrow> (1, t + 3600000) | Some (n, e) \<Rightarrow> (n + 1, e))"

lemma ceil_seconds_pos [simp]: "0 < ceil_seconds ms \<longleftrightarrow> 0 < ms"
  by (simp add: ceil_seconds_def) linarith

lemma ceil_seconds_nonneg [simp]: "0 < ms \<Longrightarrow> 0 \<le> ceil_seconds ms"
  using ceil_seconds_pos [of ms] by linarith

lemma count_request_doc:
  assumes "counter_rep K l c" and "1 \<le> limit"
  shows "count_request redis_doc t l limit retry K =
    (if in_int 64 (fst (count_one t c)) then
       (Inr (if fst (count_one t c) > limit then max retry (ceil_seconds (snd (count_one t c) - t)) else retry),
        K(l \<mapsto> (VString (FormatInt (fst (count_one t c))), Some (snd (count_one t c)))))
     else (Inl NotInteger, K))"
  using assms
  by (cases c) (auto simp: counter_rep_def count_request_def count_one_def bindE_def reply_int_def ttl_seconds_def EXPIRE_def)

lemma counter_rep_count:
  assumes "counter_rep K l c" and "1 \<le> limit"
  shows "\<exists>c'. counter_rep (snd (count_request redis_doc t l limit retry K)) l c' \<and> (c' = c \<or> c' = Some (count_one t c))"
proof (cases "in_int 64 (fst (count_one t c))")
  case True
  then have "counter_rep (snd (count_request redis_doc t l limit retry K)) l (Some (count_one t c))"
    using assms(1) by (simp add: count_request_doc [OF assms]) (auto simp: counter_rep_def count_one_def split: option.splits)
  then show ?thesis by blast
next
  case False
  then have "counter_rep (snd (count_request redis_doc t l limit retry K)) l c"
    using assms(1) by (simp add: count_request_doc [OF assms])
  then show ?thesis by blast
qed

lemma ttl_seconds_doc:
  "ttl_seconds redis_doc t k K =
     (Inr (ceil_seconds (case K k of None \<Rightarrow> - 2 | Some (v, None) \<Rightarrow> - 1 | Some (v, Some e) \<Rightarrow> e - t)), K)"
  by (auto simp: ttl_seconds_def bindE_def reply_int_def split: option.splits)

lemma leaves_count_request: "l \<noteq> k \<Longrightarrow> leaves l (count_request redis_doc t k limit retry)"
  unfolding count_request_def ttl_seconds_def reply_int_def EXPIRE_def
  by (auto intro!: leaves_rules leaves_doc split: reply.split)

lemma leaves_issueScript:
  assumes "l \<notin> {k1, k2, k3, k4}"
  shows "leaves l (issueScript redis_doc t k1 k2 k3 k4 a1 a2 a3 a4)"
  using assms unfolding issueScript_def ttl_seconds_def reply_int_def EXPIRE_def SET_EX_def Let_def
  by (auto intro!: leaves_rules leaves_doc leaves_count_request split: reply.split)

lemma HSET_slot:
  assumes "slot_rep K k so"
  shows "\<exists>n e. redis_doc t (HSET k [(''digest'', a1), (''id'', a2), (''errors'', FormatInt 0)]) K =
    (Inr (RInt n), K(k \<mapsto> (VHash (slot_hash \<lparr>slot_digest = a1, slot_id = a2, slot_errors = 0, slot_deadline = d\<rparr>), e)))"
proof (cases so)
  case None
  then have "K k = None" using assms by (simp add: slot_rep_def)
  moreover have "map_of (rev [(''digest'', a1), (''id'', a2), (''errors'', FormatInt 0)]) =
      slot_hash \<lparr>slot_digest = a1, slot_id = a2, slot_errors = 0, slot_deadline = d\<rparr>"
    by (auto simp: slot_hash_def)
  ultimately show ?thesis by (simp del: rev.simps) blast
next
  case (Some s)
  then have "K k = Some (VHash (slot_hash s), Some (slot_deadline s))" using assms by (simp add: slot_rep_def)
  moreover have "slot_hash s ++ map_of (rev [(''digest'', a1), (''id'', a2), (''errors'', FormatInt 0)]) =
      slot_hash \<lparr>slot_digest = a1, slot_id = a2, slot_errors = 0, slot_deadline = d\<rparr>"
    by (auto simp: slot_hash_def fun_eq_iff map_add_def)
  ultimately show ?thesis by (simp del: rev.simps) blast
qed

text \<open>A request that is admitted counts within both limits, starts the cooldown and replaces the code.\<close>

lemma issueScript_admits:
  assumes "issueScript redis_doc t k1 k2 k3 k4 a1 a2 a3 a4 K = (Inr (RInt r), K')" and "\<not> r > 0"
    and "counter_rep K k3 c3" and "counter_rep K k4 c4" and "slot_rep K k1 so" and "all_live t K"
    and "distinct [k1, k2, k3, k4]" and "1 \<le> a3" and "1 \<le> a4"
  shows "fst (count_one t c3) \<le> a3" and "fst (count_one t c4) \<le> a4"
    and "\<And>v e. K k2 \<noteq> Some (v, Some e)"
    and "K' k2 = Some (VString ''1'', Some (t + 60000))"
    and "slot_rep K' k1 (Some \<lparr>slot_digest = a1, slot_id = a2, slot_errors = 0, slot_deadline = t + 600000\<rparr>)"
    and "counter_rep K' k3 (Some (count_one t c3))"
proof -
  have pos: "0 < snd (count_one t c) - t" if "counter_rep K k c" for k c
    using that \<open>all_live t K\<close> by (auto simp: counter_rep_def count_one_def all_live_iff split: option.splits)
  define K1 where "K1 = K(k3 \<mapsto> (VString (FormatInt (fst (count_one t c3))), Some (snd (count_one t c3))))"
  define K2 where "K2 = K1(k4 \<mapsto> (VString (FormatInt (fst (count_one t c4))), Some (snd (count_one t c4))))"
  have c4: "counter_rep K1 k4 c4" using assms(4,7) by (auto simp: counter_rep_def K1_def split: option.splits)
  obtain r1 where r1: "count_request redis_doc t k3 a3 0 K = (Inr r1, K1)"
    and lim3: "r1 \<ge> 0" "fst (count_one t c3) > a3 \<longrightarrow> r1 > 0" "in_int 64 (fst (count_one t c3))"
    using assms(1) pos [OF assms(3)]
    by (auto simp: issueScript_def bindE_def count_request_doc [OF assms(3,8)] K1_def split: if_splits)
  obtain r2 where r2: "count_request redis_doc t k4 a4 r1 K1 = (Inr r2, K2)"
    and lim4: "r2 \<ge> r1" "fst (count_one t c4) > a4 \<longrightarrow> r2 > 0"
    using assms(1) pos [OF assms(4)]
    by (auto simp: issueScript_def bindE_def r1 count_request_doc [OF c4 assms(9)] K2_def less_max_iff_disj split: if_splits)
  obtain s where s: "ttl_seconds redis_doc t k2 K2 = (Inr s, K2)"
    and s': "s = ceil_seconds (case K2 k2 of None \<Rightarrow> - 2 | Some (v, None) \<Rightarrow> - 1 | Some (v, Some e) \<Rightarrow> e - t)"
    by (simp add: ttl_seconds_doc)
  have K2: "K2 k1 = K k1" "K2 k2 = K k2" using assms(7) by (auto simp: K1_def K2_def)
  have retry: "r2 \<le> 0" "s \<le> 0"
    using assms(1,2) by (auto simp: issueScript_def bindE_def r1 r2 s Let_def split: if_splits)
  show "fst (count_one t c3) \<le> a3" "fst (count_one t c4) \<le> a4" using retry lim3 lim4 by auto
  show cool: "\<And>v e. K k2 \<noteq> Some (v, Some e)"
  proof
    fix v e assume "K k2 = Some (v, Some e)"
    then have "0 < s" using \<open>all_live t K\<close> K2 by (auto simp: s' all_live_iff)
    with retry show False by simp
  qed
  let ?s = "\<lparr>slot_digest = a1, slot_id = a2, slot_errors = 0, slot_deadline = t + 600000\<rparr>"
  have K': "K' = K2(k2 \<mapsto> (VString ''1'', Some (t + 60000)), k1 \<mapsto> (VHash (slot_hash ?s), Some (t + 600000)))"
  proof -
    have "(K2(k2 \<mapsto> (VString ''1'', Some (t + 60000)))) k1 = K k1" using assms(7) K2(1) by simp
    then have "slot_rep (K2(k2 \<mapsto> (VString ''1'', Some (t + 60000)))) k1 so"
      by (rule slot_rep_cong [THEN iffD2]) (rule assms(5))
    from HSET_slot [OF this, of t a1 a2 "t + 600000"]
    obtain n e where "redis_doc t (HSET k1 [(''digest'', a1), (''id'', a2), (''errors'', FormatInt 0)])
        (K2(k2 \<mapsto> (VString ''1'', Some (t + 60000)))) =
        (Inr (RInt n), K2(k2 \<mapsto> (VString ''1'', Some (t + 60000)), k1 \<mapsto> (VHash (slot_hash ?s), e)))"
      by (elim exE)
    then show ?thesis using assms(1) retry
      by (simp add: issueScript_def bindE_def r1 r2 s Let_def less_max_iff_disj SET_EX_def EXPIRE_def del: redis_doc.simps(8))
  qed
  then show "K' k2 = Some (VString ''1'', Some (t + 60000))" "slot_rep K' k1 (Some ?s)"
    using assms(7) by (auto simp: slot_rep_def)
  have "1 \<le> fst (count_one t c3)" using assms(3) by (auto simp: counter_rep_def count_one_def split: option.splits)
  then show "counter_rep K' k3 (Some (count_one t c3))"
    using assms(7) lim3 by (auto simp: K' K2_def K1_def counter_rep_def split: prod.splits)
qed

lemma issueScript_refuses:
  assumes "issueScript redis_doc t k1 k2 k3 k4 a1 a2 a3 a4 K = (x, K')" and "\<And>r. x = Inr (RInt r) \<Longrightarrow> r > 0"
    and "slot_rep K k1 so" and "distinct [k1, k2, k3, k4]"
  shows "K' k1 = K k1" and "K' k2 = K k2"
proof -
  note left = leavesD [OF leaves_count_request]
  have "K' k1 = K k1 \<and> K' k2 = K k2"
  proof (cases "\<exists>r1 K1. count_request redis_doc t k3 a3 0 K = (Inr r1, K1)")
    case False
    then obtain e K1 where "count_request redis_doc t k3 a3 0 K = (Inl e, K1)" by (metis obj_sumE surj_pair)
    then show ?thesis using assms(1,4) left [of k1 k3 t a3 0 K] left [of k2 k3 t a3 0 K]
      by (auto simp: issueScript_def)
  next
    case True
    then obtain r1 K1 where r1: "count_request redis_doc t k3 a3 0 K = (Inr r1, K1)" by blast
    then have K1: "K1 k1 = K k1" "K1 k2 = K k2" using assms(4) left [of k1 k3 t a3 0 K] left [of k2 k3 t a3 0 K] by auto
    obtain y K2 where r2: "count_request redis_doc t k4 a4 r1 K1 = (y, K2)" by force
    then have K2: "K2 k1 = K k1" "K2 k2 = K k2"
      using assms(4) K1 left [of k1 k4 t a4 r1 K1] left [of k2 k4 t a4 r1 K1] by auto
    show ?thesis
    proof (cases y)
      case (Inl e)
      then show ?thesis using assms(1) r1 r2 K2 by (simp add: issueScript_def)
    next
      case (Inr r)
      define s where "s = ceil_seconds (case K2 k2 of None \<Rightarrow> - 2 | Some (v, None) \<Rightarrow> - 1 | Some (v, Some e) \<Rightarrow> e - t)"
      have s: "ttl_seconds redis_doc t k2 K2 = (Inr s, K2)" by (simp add: ttl_seconds_doc s_def)
      have "(K2(k2 \<mapsto> (VString ''1'', Some (t + 60000)))) k1 = K k1" using assms(4) K2(1) by simp
      then have "slot_rep (K2(k2 \<mapsto> (VString ''1'', Some (t + 60000)))) k1 so"
        by (rule slot_rep_cong [THEN iffD2]) (rule assms(3))
      from HSET_slot [OF this, of t a1 a2 "t + 600000"]
      obtain n e where "redis_doc t (HSET k1 [(''digest'', a1), (''id'', a2), (''errors'', FormatInt 0)])
          (K2(k2 \<mapsto> (VString ''1'', Some (t + 60000)))) =
        (Inr (RInt n), K2(k2 \<mapsto> (VString ''1'', Some (t + 60000)), k1 \<mapsto> (VHash (slot_hash
          \<lparr>slot_digest = a1, slot_id = a2, slot_errors = 0, slot_deadline = t + 600000\<rparr>), e)))"
        by (elim exE)
      then have "0 < max r s \<and> K' = K2" using assms(1,2) r1 r2 Inr s
        by (auto simp: issueScript_def Let_def SET_EX_def EXPIRE_def bindE_def simp del: redis_doc.simps(8) split: if_splits)
      then show ?thesis using K2 by simp
    qed
  qed
  then show "K' k1 = K k1" and "K' k2 = K k2" by blast+
qed

lemma counter_rep_cong: "K l = K' l \<Longrightarrow> counter_rep K l c = counter_rep K' l c"
  by (cases c) (auto simp: counter_rep_def)

definition expire_counter :: "int \<Rightarrow> (int \<times> int) option \<Rightarrow> (int \<times> int) option" where
  "expire_counter t c = (case c of Some (n, e) \<Rightarrow> if t < e then c else None | None \<Rightarrow> None)"

lemma counter_rep_live: "counter_rep K l c \<Longrightarrow> counter_rep (live t K) l (expire_counter t c)"
  by (auto simp: counter_rep_def expire_counter_def live_def split: option.splits)

lemma bindE_leaves_state:
  assumes "\<And>x. leaves l (f x)"
  shows "snd (bindE m f K) l = snd (m K) l"
proof -
  obtain y K1 where "m K = (y, K1)" by force
  then show ?thesis using leavesD [OF assms] by (cases y) simp_all
qed

lemma issueScript_counts:
  fixes t :: int and a1 a2 :: string
  assumes "counter_rep K k3 c3" and "counter_rep K k4 c4" and "distinct [k1, k2, k3, k4]" and "1 \<le> a3" and "1 \<le> a4"
  defines "K' \<equiv> snd (issueScript redis_doc t k1 k2 k3 k4 a1 a2 a3 a4 K)"
  shows "\<exists>c. counter_rep K' k3 c \<and> (c = c3 \<or> c = Some (count_one t c3))"
    and "\<exists>c. counter_rep K' k4 c \<and> (c = c4 \<or> c = Some (count_one t c4))"
proof -
  define tail where "tail = (\<lambda>retry. bindE (ttl_seconds redis_doc t k2) (\<lambda>s.
     let retry = max retry s in
     if retry > 0 then retE (RInt retry)
     else bindE (redis_doc t (SET_EX k2 ''1'' 60)) (\<lambda>_.
       bindE (redis_doc t (HSET k1 [(''digest'', a1), (''id'', a2), (''errors'', FormatInt 0)])) (\<lambda>_.
       bindE (redis_doc t (EXPIRE k1 600)) (\<lambda>_. retE (RInt 0))))))"
  have tail: "leaves l (tail retry)" if "l \<noteq> k1" "l \<noteq> k2" for l retry
    using that unfolding tail_def ttl_seconds_def reply_int_def EXPIRE_def SET_EX_def Let_def
    by (auto intro!: leaves_rules leaves_doc split: reply.split)
  have K': "K' = snd (bindE (count_request redis_doc t k3 a3 0) (\<lambda>retry. bindE (count_request redis_doc t k4 a4 retry) tail) K)"
    by (simp add: K'_def issueScript_def tail_def)
  have "leaves k3 (bindE (count_request redis_doc t k4 a4 retry) tail)" for retry
    using assms(3) by (intro leaves_bindE leaves_count_request tail) auto
  then have "K' k3 = snd (count_request redis_doc t k3 a3 0 K) k3" unfolding K' by (rule bindE_leaves_state)
  then show "\<exists>c. counter_rep K' k3 c \<and> (c = c3 \<or> c = Some (count_one t c3))"
    using counter_rep_count [OF assms(1,4), of t 0] by (simp add: counter_rep_def cong: option.case_cong prod.case_cong)
  obtain x K1 where A: "count_request redis_doc t k3 a3 0 K = (x, K1)" by force
  have "k4 \<noteq> k3" using assms(3) by auto
  then have "K1 k4 = K k4" using leavesD [OF leaves_count_request, of k4 k3 t a3 0 K] A by simp
  then have c4: "counter_rep K1 k4 c4" using assms(2) by (simp add: counter_rep_def cong: option.case_cong prod.case_cong)
  show "\<exists>c. counter_rep K' k4 c \<and> (c = c4 \<or> c = Some (count_one t c4))"
  proof (cases x)
    case (Inl e)
    then show ?thesis using c4 A by (auto simp: K')
  next
    case (Inr r)
    have "leaves k4 (tail y)" for y using assms(3) by (intro tail) auto
    then have "K' k4 = snd (count_request redis_doc t k4 a4 r K1) k4" using A Inr by (simp add: K' bindE_leaves_state)
    then show ?thesis using counter_rep_count [OF c4 assms(5), of t r] by (simp add: counter_rep_def cong: option.case_cong prod.case_cong)
  qed
qed

end
