(* ===== verification/Auth_Guessing.thy ===== *)
theory Auth_Guessing
  imports Auth_Cache
begin

text \<open>
  Runs of the operations of the code store (\<open>src/pkg/platform/authcache/redis.go\<close>): any processes call them
  in any order, time passes between the calls and messages get lost. The code of one address refines the
  abstract slot of \<open>Auth_Cache\<close>; from that follow the bound on guesses, the single use of a login code,
  the bound on the attempts at a challenge and the throttling of requests.
\<close>

section \<open>Runs\<close>

datatype auth_call =
    CallIssue string string string "nat option" "string option"
  | CallVerify string string string int
  | CallVerifyAndConsume string string string
  | CallConsume string string CodeReceipt
  | CallIssueChallenge Challenge "string option"
  | CallAttempt string
  | CallConsumeChallenge string

record auth_event =
  ev_time :: int
  ev_net :: net
  ev_ctx :: call_ctx
  ev_call :: auth_call

definition succeeded :: "('e + 'a) \<times> 'r \<Rightarrow> bool \<times> 'r" where
  "succeeded x = (case fst x of Inl _ \<Rightarrow> False | Inr _ \<Rightarrow> True, snd x)"

definition auth_perform ::
    "'r redis_exec \<Rightarrow> hmac \<Rightarrow> (string \<Rightarrow> string) \<Rightarrow> CodeStore \<Rightarrow> auth_event \<Rightarrow> 'r \<Rightarrow> bool \<times> 'r" where
  "auth_perform exec hm ul S ev r = (let n = ev_net ev; t = ev_time ev; ctx = ev_ctx ev in
     case ev_call ev of
       CallIssue email purpose ip rc ri \<Rightarrow> succeeded (IssueCode exec hm ul S n t ctx rc ri email purpose ip r)
     | CallVerify email purpose code started \<Rightarrow> succeeded (VerifyCode exec hm ul S n t ctx started email purpose code r)
     | CallVerifyAndConsume email purpose code \<Rightarrow> succeeded (VerifyAndConsume exec hm ul S n t ctx email purpose code r)
     | CallConsume email purpose receipt \<Rightarrow> succeeded (ConsumeCode exec hm ul S n t ctx email purpose receipt r)
     | CallIssueChallenge v ri \<Rightarrow> succeeded (IssueChallenge exec hm S n t ctx ri v r)
     | CallAttempt i \<Rightarrow> succeeded (Attempt exec hm S n t ctx i r)
     | CallConsumeChallenge i \<Rightarrow> succeeded (ConsumeChallenge exec hm S n t ctx i r))"

fun auth_run :: "'r redis_exec \<Rightarrow> hmac \<Rightarrow> (string \<Rightarrow> string) \<Rightarrow> CodeStore \<Rightarrow> auth_event list \<Rightarrow> 'r \<Rightarrow> bool list \<times> 'r" where
  "auth_run exec hm ul S [] r = ([], r)"
| "auth_run exec hm ul S (ev # evs) r =
     (let (ok, r1) = auth_perform exec hm ul S ev r; (oks, r2) = auth_run exec hm ul S evs r1 in (ok # oks, r2))"

fun times_from :: "int \<Rightarrow> auth_event list \<Rightarrow> bool" where
  "times_from t [] = True"
| "times_from t (ev # evs) = (t \<le> ev_time ev \<and> times_from (ev_time ev) evs)"

text \<open>The operations on an observed server do to the observation what they do to a keyspace.\<close>

lemma redis_sim_reading [intro]: "redis_sim v m m' \<Longrightarrow> redis_sim v (reading f m) (reading f m')"
  by (simp add: redis_sim_def reading_def)

lemma leaves_reading: "leaves l m \<Longrightarrow> leaves l (reading f m)"
  by (simp add: leaves_def reading_def)

definition perform_sim :: "('r \<Rightarrow> keyspace) \<Rightarrow> ('r \<Rightarrow> bool \<times> 'r) \<Rightarrow> (keyspace \<Rightarrow> bool \<times> keyspace) \<Rightarrow> bool" where
  "perform_sim v f g \<longleftrightarrow> (\<forall>r. fst (f r) = fst (g (v r)) \<and> v (snd (f r)) = snd (g (v r)))"

lemma perform_sim_succeeded: "redis_sim v m m' \<Longrightarrow> perform_sim v (\<lambda>r. succeeded (m r)) (\<lambda>K. succeeded (m' K))"
  by (simp add: redis_sim_def perform_sim_def succeeded_def)

context redis
begin

lemma ttl_seconds_sim: "redis_sim (view t) (ttl_seconds exec t k) (ttl_seconds redis_doc t k)"
  unfolding ttl_seconds_def reply_int_def by (auto intro!: redis_sim_retE redis_sim_failE redis_sim_bindE exec_doc split: reply.split)

lemma count_request_sim: "redis_sim (view t) (count_request exec t k l r) (count_request redis_doc t k l r)"
  unfolding count_request_def reply_int_def
  by (auto intro!: redis_sim_retE redis_sim_failE redis_sim_bindE exec_doc ttl_seconds_sim split: reply.split)

lemma issueScript_sim: "redis_sim (view t) (issueScript exec t k1 k2 k3 k4 a1 a2 a3 a4) (issueScript redis_doc t k1 k2 k3 k4 a1 a2 a3 a4)"
  unfolding issueScript_def Let_def by (intro redis_sim_bindE redis_sim_if redis_sim_retE exec_doc ttl_seconds_sim count_request_sim)

lemma verifyScript_sim: "redis_sim (view t) (verifyScript exec t k a c) (verifyScript redis_doc t k a c)"
  unfolding verifyScript_def reply_int_def reply_number_def
  by (auto intro!: redis_sim_retE redis_sim_failE redis_sim_bindE exec_doc split: reply.split option.split)

lemma consumeScript_sim: "redis_sim (view t) (consumeScript exec t k a) (consumeScript redis_doc t k a)"
  unfolding consumeScript_def by (intro redis_sim_bindE redis_sim_if redis_sim_retE exec_doc)

lemma issueChallengeScript_sim: "redis_sim (view t) (issueChallengeScript exec t k a b) (issueChallengeScript redis_doc t k a b)"
  unfolding issueChallengeScript_def by (intro redis_sim_bindE redis_sim_retE exec_doc)

lemma attemptScript_sim: "redis_sim (view t) (attemptScript exec t k) (attemptScript redis_doc t k)"
  unfolding attemptScript_def reply_int_def by (auto intro!: redis_sim_retE redis_sim_failE redis_sim_bindE exec_doc split: reply.split)

lemmas auth_script_sims = issueScript_sim verifyScript_sim consumeScript_sim issueChallengeScript_sim attemptScript_sim exec_doc

lemma auth_op_sims:
  "redis_sim (view t) (IssueCode exec hm ul S n t ctx rc ri email purpose ip) (IssueCode redis_doc hm ul S n t ctx rc ri email purpose ip)"
  "redis_sim (view t) (VerifyCode exec hm ul S n t ctx st email purpose code) (VerifyCode redis_doc hm ul S n t ctx st email purpose code)"
  "redis_sim (view t) (VerifyAndConsume exec hm ul S n t ctx email purpose code) (VerifyAndConsume redis_doc hm ul S n t ctx email purpose code)"
  "redis_sim (view t) (ConsumeCode exec hm ul S n t ctx email purpose rc') (ConsumeCode redis_doc hm ul S n t ctx email purpose rc')"
  "redis_sim (view t) (IssueChallenge exec hm S n t ctx ri v) (IssueChallenge redis_doc hm S n t ctx ri v)"
  "redis_sim (view t) (Attempt exec hm S n t ctx i) (Attempt redis_doc hm S n t ctx i)"
  "redis_sim (view t) (ConsumeChallenge exec hm S n t ctx i) (ConsumeChallenge redis_doc hm S n t ctx i)"
  unfolding IssueCode_def VerifyCode_def VerifyAndConsume_def ConsumeCode_def IssueChallenge_def Attempt_def ConsumeChallenge_def Let_def
  by (auto intro!: redis_sim_retE redis_sim_failE redis_sim_bindE redis_sim_mapErrE redis_sim_reading redis_sim_Eval auth_script_sims
      split: option.split sum.split list.split)

lemma auth_perform_sim: "perform_sim (view (ev_time ev)) (auth_perform exec hm ul S ev) (auth_perform redis_doc hm ul S ev)"
  unfolding auth_perform_def Let_def
  by (cases "ev_call ev") (auto intro!: perform_sim_succeeded auth_op_sims)

end

section \<open>Keys of the store\<close>

text \<open>HMAC-SHA256 gives 32 bytes.\<close>

definition hmac_size :: "hmac \<Rightarrow> bool" where
  "hmac_size hm \<longleftrightarrow> (\<forall>p v. length (hm p v) = 32)"

definition emailLimitKey :: "hmac \<Rightarrow> (string \<Rightarrow> string) \<Rightarrow> CodeStore \<Rightarrow> string \<Rightarrow> string" where
  "emailLimitKey hm ul S email = cs_prefix S @ ''limit:email:'' @ digest hm S (normal_email ul email)"

definition ipLimitKey :: "hmac \<Rightarrow> CodeStore \<Rightarrow> string \<Rightarrow> string" where
  "ipLimitKey hm S ip = cs_prefix S @ ''limit:ip:'' @ digest hm S ip"

fun call_keys :: "hmac \<Rightarrow> (string \<Rightarrow> string) \<Rightarrow> CodeStore \<Rightarrow> auth_call \<Rightarrow> string set" where
  "call_keys hm ul S (CallIssue email purpose ip rc ri) =
     {emailKey hm ul S email purpose, emailKey hm ul S email purpose @ '':cooldown'', emailLimitKey hm ul S email, ipLimitKey hm S ip}"
| "call_keys hm ul S (CallVerify email purpose code started) = {emailKey hm ul S email purpose}"
| "call_keys hm ul S (CallVerifyAndConsume email purpose code) = {emailKey hm ul S email purpose}"
| "call_keys hm ul S (CallConsume email purpose receipt) = {emailKey hm ul S email purpose}"
| "call_keys hm ul S (CallIssueChallenge v ri) = (case randomID ri of Inl e \<Rightarrow> {} | Inr i \<Rightarrow> {challengeKey hm S i})"
| "call_keys hm ul S (CallAttempt i) = {challengeKey hm S i}"
| "call_keys hm ul S (CallConsumeChallenge i) = {challengeKey hm S i}"

lemma hex_encode_chars: "c \<in> set (hex_encode bs) \<Longrightarrow> hex_val c \<noteq> None"
proof (induction bs)
  case (Cons b bs)
  have "(of_char b :: nat) div 16 < 16" using nat_of_char_less_256 [of b] by linarith
  then show ?case using Cons by (auto simp: hex_encode_Cons)
qed (simp add: hex_encode_def)

lemma hex_not_n: "CHR ''n'' \<notin> set (hex_encode bs)"
  using hex_encode_chars [of "CHR ''n''"] by (auto simp: hex_val_def)

lemma digest_last:
  assumes "hmac_size hm"
  shows "digest hm S v \<noteq> []" and "last (xs @ digest hm S v) \<noteq> CHR ''n''"
proof -
  have "length (digest hm S v) = 64" using assms by (simp add: digest_def hmac_size_def)
  then show *: "digest hm S v \<noteq> []" by auto
  from last_in_set [OF *] have "last (digest hm S v) \<noteq> CHR ''n''"
    using hex_not_n [of "hm (cs_pepper S) v"] by (auto simp: digest_def)
  then show "last (xs @ digest hm S v) \<noteq> CHR ''n''" using * by simp
qed

lemma not_cooldown_key:
  assumes "hmac_size hm"
  shows "emailKey hm ul S email purpose \<noteq> k @ '':cooldown''" and "emailLimitKey hm ul S email \<noteq> k @ '':cooldown''"
    and "ipLimitKey hm S ip \<noteq> k @ '':cooldown''" and "challengeKey hm S i \<noteq> k @ '':cooldown''"
proof -
  have *: "xs @ digest hm S v \<noteq> k @ '':cooldown''" for xs v
    using digest_last(2) [OF assms, of xs S v] by (auto dest: arg_cong [of _ _ last])
  show "emailKey hm ul S email purpose \<noteq> k @ '':cooldown''" "emailLimitKey hm ul S email \<noteq> k @ '':cooldown''"
    "ipLimitKey hm S ip \<noteq> k @ '':cooldown''" "challengeKey hm S i \<noteq> k @ '':cooldown''"
    using * [of "cs_prefix S @ ''email:'' @ purpose @ '':''"] * [of "cs_prefix S @ ''limit:email:''"]
      * [of "cs_prefix S @ ''limit:ip:''"] * [of "cs_prefix S @ ''challenge:''"]
    by (auto simp: emailKey_def emailLimitKey_def ipLimitKey_def challengeKey_def)
qed

lemma key_kinds [simp]:
  "emailKey hm ul S email purpose \<noteq> emailLimitKey hm ul S email'" "emailKey hm ul S email purpose \<noteq> ipLimitKey hm S ip"
  "emailKey hm ul S email purpose \<noteq> challengeKey hm S i" "emailLimitKey hm ul S email \<noteq> ipLimitKey hm S ip"
  "emailLimitKey hm ul S email \<noteq> challengeKey hm S i" "ipLimitKey hm S ip \<noteq> challengeKey hm S i"
  by (simp_all add: emailKey_def emailLimitKey_def ipLimitKey_def challengeKey_def)

lemmas key_kinds' [simp] = key_kinds [symmetric]

lemma issue_keys_distinct:
  "hmac_size hm \<Longrightarrow> distinct [emailKey hm ul S email purpose, emailKey hm ul S email purpose @ '':cooldown'',
     emailLimitKey hm ul S email, ipLimitKey hm S ip]"
  using not_cooldown_key [of hm] not_cooldown_key [symmetric, of hm] by simp

lemma snd_succeeded [simp]: "snd (succeeded x) = snd x"
  by (simp add: succeeded_def)

lemma perform_leaves:
  assumes "l \<notin> call_keys hm ul S (ev_call ev)"
  shows "snd (auth_perform redis_doc hm ul S ev K) l = K l"
proof -
  note rules = leaves_rules leaves_reading leaves_doc leaves_issueScript
  have "leaves l (IssueCode redis_doc hm ul S n t ctx rc ri email purpose ip)"
    if "l \<notin> call_keys hm ul S (CallIssue email purpose ip rc ri)" for n t ctx rc ri email purpose ip
    using that unfolding IssueCode_def Let_def
    by (auto intro!: rules simp: emailLimitKey_def ipLimitKey_def split: option.split sum.split)
  moreover have scripts: "leaves l (verifyScript redis_doc t k a c)" "leaves l (consumeScript redis_doc t k a)"
    "leaves l (issueChallengeScript redis_doc t k a b)" "leaves l (attemptScript redis_doc t k)" if "l \<noteq> k" for k t a b c
    using that unfolding verifyScript_def consumeScript_def issueChallengeScript_def attemptScript_def reply_int_def reply_number_def EXPIRE_def
    by (auto intro!: rules split: reply.split option.split)
  moreover have "leaves l (VerifyCode redis_doc hm ul S n t ctx st email purpose code)"
    "leaves l (VerifyAndConsume redis_doc hm ul S n t ctx email purpose code)"
    "leaves l (ConsumeCode redis_doc hm ul S n t ctx email purpose receipt)" if "l \<noteq> emailKey hm ul S email purpose"
    for n t ctx st email purpose code receipt
    using that unfolding VerifyCode_def VerifyAndConsume_def ConsumeCode_def Let_def
    by (auto intro!: rules scripts split: option.split sum.split list.split)
  moreover have "leaves l (IssueChallenge redis_doc hm S n t ctx ri v)" if "l \<notin> call_keys hm ul S (CallIssueChallenge v ri)" for n t ctx ri v
    using that unfolding IssueChallenge_def by (auto intro!: rules scripts split: sum.split)
  moreover have "leaves l (Attempt redis_doc hm S n t ctx i)" "leaves l (ConsumeChallenge redis_doc hm S n t ctx i)"
    if "l \<noteq> challengeKey hm S i" for n t ctx i
    using that unfolding Attempt_def ConsumeChallenge_def by (auto intro!: rules scripts split: list.split option.split)
  ultimately show ?thesis
    using assms by (cases "ev_call ev") (auto simp: auth_perform_def leaves_def)
qed

section \<open>The code of an address refines a slot\<close>

definition email_key_of :: "hmac \<Rightarrow> (string \<Rightarrow> string) \<Rightarrow> CodeStore \<Rightarrow> auth_call \<Rightarrow> string option" where
  "email_key_of hm ul S c = (case c of
      CallVerify email purpose code started \<Rightarrow> Some (emailKey hm ul S email purpose)
    | CallVerifyAndConsume email purpose code \<Rightarrow> Some (emailKey hm ul S email purpose)
    | CallConsume email purpose receipt \<Rightarrow> Some (emailKey hm ul S email purpose)
    | _ \<Rightarrow> None)"

definition issues_for :: "hmac \<Rightarrow> (string \<Rightarrow> string) \<Rightarrow> CodeStore \<Rightarrow> string \<Rightarrow> auth_event \<Rightarrow> bool" where
  "issues_for hm ul S k ev = (case ev_call ev of
      CallIssue email purpose ip rc ri \<Rightarrow> emailKey hm ul S email purpose = k
    | _ \<Rightarrow> False)"

text \<open>What a call at a key does to the slot of that key, and whether the caller learns a success.\<close>

fun slot_call :: "hmac \<Rightarrow> CodeStore \<Rightarrow> string \<Rightarrow> auth_call \<Rightarrow> slot option \<Rightarrow> bool \<times> slot option" where
  "slot_call hm S k (CallVerify email purpose code started) so = guess (digest hm S (k @ '':'' @ code)) False so"
| "slot_call hm S k (CallVerifyAndConsume email purpose code) so = guess (digest hm S (k @ '':'' @ code)) True so"
| "slot_call hm S k (CallConsume email purpose receipt) so = redeem (rec_ID receipt) so"
| "slot_call hm S k _ so = (False, so)"

definition slot_perform ::
    "hmac \<Rightarrow> (string \<Rightarrow> string) \<Rightarrow> CodeStore \<Rightarrow> string \<Rightarrow> auth_event \<Rightarrow> slot option \<Rightarrow> bool \<times> slot option" where
  "slot_perform hm ul S k ev so = (let so = expire_slot (ev_time ev) so in
     if email_key_of hm ul S (ev_call ev) \<noteq> Some k then (False, so)
     else let (ok, so') = slot_call hm S k (ev_call ev) so in
       (case ev_net ev of Delivered \<Rightarrow> (ok, so') | LostRequest \<Rightarrow> (False, so) | LostReply \<Rightarrow> (False, so')))"

fun slot_run ::
    "hmac \<Rightarrow> (string \<Rightarrow> string) \<Rightarrow> CodeStore \<Rightarrow> string \<Rightarrow> auth_event list \<Rightarrow> slot option \<Rightarrow> bool list \<times> slot option" where
  "slot_run hm ul S k [] so = ([], so)"
| "slot_run hm ul S k (ev # evs) so =
     (let (ok, so1) = slot_perform hm ul S k ev so; (oks, so2) = slot_run hm ul S k evs so1 in (ok # oks, so2))"

text \<open>The outcomes of the calls at a key.\<close>

fun outcomes_at :: "hmac \<Rightarrow> (string \<Rightarrow> string) \<Rightarrow> CodeStore \<Rightarrow> string \<Rightarrow> auth_event list \<Rightarrow> bool list \<Rightarrow> bool list" where
  "outcomes_at hm ul S k (ev # evs) (ok # oks) =
     (if email_key_of hm ul S (ev_call ev) = Some k then ok # outcomes_at hm ul S k evs oks else outcomes_at hm ul S k evs oks)"
| "outcomes_at hm ul S k _ _ = []"

fun end_time :: "int \<Rightarrow> auth_event list \<Rightarrow> int" where
  "end_time t [] = t"
| "end_time t (ev # evs) = end_time (ev_time ev) evs"

definition slot_recent :: "int \<Rightarrow> slot option \<Rightarrow> bool" where
  "slot_recent t so \<longleftrightarrow> (case so of Some s \<Rightarrow> slot_deadline s \<le> t + 600000 | None \<Rightarrow> True)"

lemma guess_id: "fst (guess d c so) = fst (guess d False so)"
  by (cases so) simp_all

lemma slot_rep_deadline:
  assumes "slot_rep K k (Some s)" and "all_live t K" and "slot_recent t (Some s)"
  shows "0 < slot_deadline s - t \<and> ParseInt (FormatInt (slot_deadline s - t)) = Some (slot_deadline s - t)"
proof -
  have "t < slot_deadline s" using assms(1,2) by (auto simp: slot_rep_def all_live_iff)
  moreover have "slot_deadline s \<le> t + 600000" using assms(3) by (simp add: slot_recent_def)
  ultimately show ?thesis by (simp add: in_int_def)
qed

lemma perform_slot:
  assumes "email_key_of hm ul S (ev_call ev) = Some k" and "slot_rep K k so"
    and "all_live (ev_time ev) K" and "slot_recent (ev_time ev) so"
  shows "fst (auth_perform redis_doc hm ul S ev K) = fst (slot_perform hm ul S k ev so)"
    and "slot_rep (snd (auth_perform redis_doc hm ul S ev K)) k (snd (slot_perform hm ul S k ev so))"
proof -
  let ?t = "ev_time ev"
  note exp = slot_rep_expired [OF assms(3,2)]
  have verify: "fst (reading StringSlice (Eval Delivered (verifyScript redis_doc ?t k d c)) K) =
      Inr (if fst (guess d c so) then [slot_id (the so), FormatInt (slot_deadline (the so) - ?t)] else [])"
    and verify': "slot_rep (snd (reading StringSlice (Eval n (verifyScript redis_doc ?t k d c)) K)) k
      (if n = LostRequest then so else snd (guess d c so))"
    and lost: "n \<noteq> Delivered \<Longrightarrow> \<exists>e. fst (reading StringSlice (Eval n (verifyScript redis_doc ?t k d c)) K) = Inl e" for d c n
    using verifyScript_doc [OF assms(2), of ?t d c] assms(2) guess_id [of d c so]
    by (cases n; auto simp: reading_def Eval_def client_reply_def verify_reply_def StringSlice_def)+
  have ttl: "0 < slot_deadline (the so) - ?t \<and>
      ParseInt (FormatInt (slot_deadline (the so) - ?t)) = Some (slot_deadline (the so) - ?t)" if "fst (guess d c so)" for d c
    using that slot_rep_deadline [OF _ assms(3)] assms(2,4) by (cases so) simp_all
  have "fst (auth_perform redis_doc hm ul S ev K) = fst (slot_perform hm ul S k ev so) \<and>
    slot_rep (snd (auth_perform redis_doc hm ul S ev K)) k (snd (slot_perform hm ul S k ev so))"
  proof (cases "ev_call ev")
    case (CallVerify email purpose code started)
    with assms(1) have k: "emailKey hm ul S email purpose = k" by (simp add: email_key_of_def)
    let ?d = "digest hm S (k @ '':'' @ code)"
    show ?thesis using verify [of ?d False] verify' [of "ev_net ev" ?d False] lost [of "ev_net ev" ?d False] ttl [of ?d False]
      by (cases "ev_net ev"; cases "fst (guess ?d False so)")
        (auto simp: CallVerify k auth_perform_def VerifyCode_def Let_def slot_perform_def exp email_key_of_def bindE_def mapErrE_def succeeded_def
          split: prod.splits sum.splits)
  next
    case (CallVerifyAndConsume email purpose code)
    with assms(1) have k: "emailKey hm ul S email purpose = k" by (simp add: email_key_of_def)
    let ?d = "digest hm S (k @ '':'' @ code)"
    show ?thesis using verify [of ?d True] verify' [of "ev_net ev" ?d True] lost [of "ev_net ev" ?d True]
      by (cases "ev_net ev"; cases "fst (guess ?d True so)")
        (auto simp: CallVerifyAndConsume k auth_perform_def VerifyAndConsume_def Let_def slot_perform_def exp email_key_of_def bindE_def mapErrE_def succeeded_def
          split: prod.splits sum.splits)
  next
    case (CallConsume email purpose receipt)
    with assms(1) have k: "emailKey hm ul S email purpose = k" by (simp add: email_key_of_def)
    show ?thesis using consumeScript_doc [OF assms(2), of ?t "rec_ID receipt"] assms(2)
      by (cases "ev_net ev"; cases "fst (redeem (rec_ID receipt) so)")
        (auto simp: CallConsume k auth_perform_def ConsumeCode_def Let_def slot_perform_def exp email_key_of_def bindE_def mapErrE_def succeeded_def
          reading_def Eval_def client_reply_def Int_reply_def split: prod.splits sum.splits)
  qed (use assms(1) in \<open>simp_all add: email_key_of_def\<close>)
  then show "fst (auth_perform redis_doc hm ul S ev K) = fst (slot_perform hm ul S k ev so)"
    and "slot_rep (snd (auth_perform redis_doc hm ul S ev K)) k (snd (slot_perform hm ul S k ev so))" by blast+
qed

lemma slot_recent_perform: "slot_recent t so \<Longrightarrow> t \<le> ev_time ev \<Longrightarrow> slot_recent (ev_time ev) (snd (slot_perform hm ul S k ev so))"
proof -
  assume "slot_recent t so" "t \<le> ev_time ev"
  then have e: "slot_recent (ev_time ev) (expire_slot (ev_time ev) so)"
    by (auto simp: slot_recent_def expire_slot_def split: option.splits)
  have g: "slot_recent u (snd (guess d c so'))" "slot_recent u (snd (redeem i so'))" if "slot_recent u so'" for u d c i so'
    using that by (cases so'; simp add: slot_recent_def)+
  have "slot_recent (ev_time ev) (snd (slot_call hm S k (ev_call ev) (expire_slot (ev_time ev) so)))"
    using e g by (cases "ev_call ev") simp_all
  then show ?thesis using e by (auto simp: slot_perform_def Let_def split: prod.splits net.splits)
qed

lemma foreign_call:
  assumes "hmac_size hm" and "email_key_of hm ul S c \<noteq> Some (emailKey hm ul S email purpose)"
    and "\<And>em p ip rc ri. c = CallIssue em p ip rc ri \<Longrightarrow> emailKey hm ul S em p \<noteq> emailKey hm ul S email purpose"
  shows "emailKey hm ul S email purpose \<notin> call_keys hm ul S c"
proof (cases c)
  case (CallIssue em p ip rc ri)
  then have "emailKey hm ul S em p \<noteq> emailKey hm ul S email purpose" using assms(3) by blast
  then show ?thesis using not_cooldown_key(1) [OF assms(1)] by (auto simp: CallIssue)
next
  case (CallIssueChallenge v ri)
  then show ?thesis by (simp split: sum.split)
qed (use assms(2) in \<open>auto simp: email_key_of_def\<close>)

context redis
begin

lemma perform_view:
  shows "fst (auth_perform exec hm ul S ev r) = fst (auth_perform redis_doc hm ul S ev (view (ev_time ev) r))"
    and "view (ev_time ev) (snd (auth_perform exec hm ul S ev r)) = snd (auth_perform redis_doc hm ul S ev (view (ev_time ev) r))"
  using auth_perform_sim [of ev hm ul S] by (simp_all add: perform_sim_def)

lemma perform_refines:
  assumes "hmac_size hm" and "k = emailKey hm ul S email purpose" and "slot_rep (view t r) k so" and "slot_recent t so"
    and "t \<le> ev_time ev" and "\<not> issues_for hm ul S k ev"
  shows "email_key_of hm ul S (ev_call ev) = Some k \<Longrightarrow>
      fst (auth_perform exec hm ul S ev r) = fst (slot_perform hm ul S k ev so)"
    and "slot_rep (view (ev_time ev) (snd (auth_perform exec hm ul S ev r))) k (snd (slot_perform hm ul S k ev so))"
proof -
  let ?K = "view (ev_time ev) r" and ?so = "expire_slot (ev_time ev) so"
  have K: "slot_rep ?K k ?so" using slot_rep_live [OF assms(3)] view_expire [OF assms(5)] by simp
  have live: "all_live (ev_time ev) ?K" by (rule view_all_live)
  have recent: "slot_recent (ev_time ev) ?so"
    using assms(4,5) by (auto simp: slot_recent_def expire_slot_def split: option.splits)
  have same: "slot_perform hm ul S k ev ?so = slot_perform hm ul S k ev so"
    by (simp add: slot_perform_def slot_rep_expired [OF live K])
  show "email_key_of hm ul S (ev_call ev) = Some k \<Longrightarrow>
      fst (auth_perform exec hm ul S ev r) = fst (slot_perform hm ul S k ev so)"
    using perform_slot(1) [OF _ K live recent] by (simp add: perform_view same)
  show "slot_rep (view (ev_time ev) (snd (auth_perform exec hm ul S ev r))) k (snd (slot_perform hm ul S k ev so))"
  proof (cases "email_key_of hm ul S (ev_call ev) = Some k")
    case True
    from perform_slot(2) [OF True K live recent] show ?thesis by (simp only: perform_view same)
  next
    case False
    have "k \<notin> call_keys hm ul S (ev_call ev)"
      unfolding assms(2)
    proof (rule foreign_call [OF assms(1)])
      show "email_key_of hm ul S (ev_call ev) \<noteq> Some (emailKey hm ul S email purpose)" using False assms(2) by simp
    qed (use assms(2,6) in \<open>auto simp: issues_for_def\<close>)
    then have "snd (auth_perform redis_doc hm ul S ev ?K) k = ?K k" by (rule perform_leaves)
    moreover have "snd (slot_perform hm ul S k ev so) = ?so" using False by (simp add: slot_perform_def)
    ultimately show ?thesis using K slot_rep_cong [of "snd (auth_perform redis_doc hm ul S ev ?K)" k ?K ?so] by (simp add: perform_view)
  qed
qed

lemma run_refines:
  assumes "hmac_size hm" and "k = emailKey hm ul S email purpose" and "slot_rep (view t r) k so" and "slot_recent t so"
    and "times_from t evs" and "list_all (\<lambda>ev. \<not> issues_for hm ul S k ev) evs"
  shows "outcomes_at hm ul S k evs (fst (auth_run exec hm ul S evs r)) = outcomes_at hm ul S k evs (fst (slot_run hm ul S k evs so)) \<and>
    slot_rep (view (end_time t evs) (snd (auth_run exec hm ul S evs r))) k (snd (slot_run hm ul S k evs so)) \<and>
    slot_recent (end_time t evs) (snd (slot_run hm ul S k evs so))"
  using assms(3-)
proof (induction evs arbitrary: t r so)
  case (Cons ev evs)
  have ev: "t \<le> ev_time ev" "\<not> issues_for hm ul S k ev" "times_from (ev_time ev) evs" "list_all (\<lambda>ev. \<not> issues_for hm ul S k ev) evs"
    using Cons.prems by simp_all
  note step = perform_refines [OF assms(1,2) Cons.prems(1,2) ev(1,2)]
  note IH = Cons.IH [OF step(2) slot_recent_perform [OF Cons.prems(2) ev(1)] ev(3,4)]
  show ?case using step(1) IH by (simp add: Let_def case_prod_unfold)
qed simp

end

section \<open>Requests for codes\<close>

abbreviation issue_on :: "hmac \<Rightarrow> (string \<Rightarrow> string) \<Rightarrow> CodeStore \<Rightarrow> int \<Rightarrow> nat \<Rightarrow> string \<Rightarrow> string \<Rightarrow> string \<Rightarrow> string
    \<Rightarrow> (keyspace, redis_error, reply) op" where
  "issue_on hm ul S t c i email purpose ip \<equiv>
     issueScript redis_doc t (emailKey hm ul S email purpose) (emailKey hm ul S email purpose @ '':cooldown'')
       (emailLimitKey hm ul S email) (ipLimitKey hm S ip) (digest hm S (emailKey hm ul S email purpose @ '':'' @ pad6 c)) i 10 50"

lemma issueScript_RInt: "issueScript ex t k1 k2 k3 k4 a1 a2 a3 a4 K = (Inr y, K') \<Longrightarrow> \<exists>r. y = RInt r"
  by (auto simp: issueScript_def bindE_eq_Inr Let_def split: if_splits)

lemma IssueCode_Inr:
  assumes "IssueCode redis_doc hm ul S n t ctx rc ri email purpose ip K = (Inr code, K')"
  obtains c i r where "n = Delivered" "rc = Some c" "code = pad6 c" "randomID ri = Inr i"
    "issue_on hm ul S t c i email purpose ip K = (Inr (RInt r), K')" "\<not> r > 0"
proof -
  obtain c where c: "rc = Some c" using assms by (cases rc) (auto simp: IssueCode_def)
  obtain i where i: "randomID ri = Inr i" using assms c by (cases "randomID ri") (auto simp: IssueCode_def)
  obtain x K1 where x: "issue_on hm ul S t c i email purpose ip K = (x, K1)" by force
  have "n = Delivered \<and> code = pad6 c \<and> K' = K1 \<and> (\<exists>r. x = Inr (RInt r) \<and> \<not> r > 0)"
    using assms x issueScript_RInt [where K = K and K' = K1]
    by (cases n; cases x)
      (fastforce simp: IssueCode_def c i Let_def bindE_def mapErrE_def reading_def Eval_def client_reply_def Int_reply_def
        emailLimitKey_def ipLimitKey_def split: if_splits reply.splits option.splits)+
  then show thesis using that c i x by blast
qed

lemma snd_IssueCode:
  "snd (IssueCode redis_doc hm ul S n t ctx rc ri email purpose ip K) = K \<or>
   (\<exists>c i. snd (IssueCode redis_doc hm ul S n t ctx rc ri email purpose ip K) = snd (issue_on hm ul S t c i email purpose ip K))"
proof (cases rc)
  case None
  then show ?thesis by (simp add: IssueCode_def)
next
  case c: (Some c)
  show ?thesis
  proof (cases "randomID ri")
    case (Inl e)
    then show ?thesis by (simp add: IssueCode_def c)
  next
    case (Inr i)
    have tail: "snd (bindE m (\<lambda>r. if r > 0 then failE (RateLimitError r) else retE x) K) = snd (m K)"
      for m :: "(keyspace, iam_error, int) op" and x :: string
      by (auto simp: bindE_def split: prod.splits sum.splits)
    show ?thesis
      by (cases n) (auto simp: IssueCode_def c Inr Let_def tail mapErrE_def reading_def Eval_def emailLimitKey_def ipLimitKey_def
          split: sum.splits)
  qed
qed

text \<open>The invariant of the store: every address has a slot or none, every counter a window.\<close>

definition code_inv :: "hmac \<Rightarrow> (string \<Rightarrow> string) \<Rightarrow> CodeStore \<Rightarrow> int \<Rightarrow> keyspace \<Rightarrow> bool" where
  "code_inv hm ul S t K \<longleftrightarrow>
     (\<forall>email purpose. \<exists>so. slot_rep K (emailKey hm ul S email purpose) so \<and> slot_recent t so) \<and>
     (\<forall>email. \<exists>c. counter_rep K (emailLimitKey hm ul S email) c) \<and>
     (\<forall>ip. \<exists>c. counter_rep K (ipLimitKey hm S ip) c)"

lemma code_inv_live: "code_inv hm ul S t K \<Longrightarrow> t \<le> t' \<Longrightarrow> code_inv hm ul S t' (live t' K)"
proof -
  assume inv: "code_inv hm ul S t K" and "t \<le> t'"
  have "slot_recent t' (expire_slot t' so)" if "slot_recent t so" for so
    using that \<open>t \<le> t'\<close> by (auto simp: slot_recent_def expire_slot_def split: option.splits)
  then show ?thesis using inv slot_rep_live counter_rep_live unfolding code_inv_def by meson
qed

lemma code_inv_empty: "(\<And>k. K (cs_prefix S @ k) = None) \<Longrightarrow> code_inv hm ul S t K"
  unfolding code_inv_def emailKey_def emailLimitKey_def ipLimitKey_def
  by (intro conjI allI exI [of _ None]) (simp_all add: slot_rep_def slot_recent_def counter_rep_def)

lemma issue_on_inv:
  assumes "hmac_size hm" and inv: "code_inv hm ul S t K" and live: "all_live t K"
  shows "code_inv hm ul S t (snd (issue_on hm ul S t c i email purpose ip K))"
proof -
  let ?k = "emailKey hm ul S email purpose" and ?e = "emailLimitKey hm ul S email" and ?p = "ipLimitKey hm S ip"
  obtain x K' where x: "issue_on hm ul S t c i email purpose ip K = (x, K')" by force
  note ds = issue_keys_distinct [OF assms(1), of ul S email purpose ip]
  obtain so where so: "slot_rep K ?k so" "slot_recent t so" using inv unfolding code_inv_def by blast
  obtain ce where ce: "counter_rep K ?e ce" using inv unfolding code_inv_def by blast
  obtain cp where cp: "counter_rep K ?p cp" using inv unfolding code_inv_def by blast
  have own: "\<exists>so. slot_rep K' ?k so \<and> slot_recent t so"
  proof (cases "\<exists>r. x = Inr (RInt r) \<and> \<not> r > 0")
    case True
    then obtain r where r: "x = Inr (RInt r)" "\<not> r > 0" by blast
    from issueScript_admits(5) [OF x [unfolded r(1)] r(2) ce cp so(1) live ds] show ?thesis
      by (intro exI conjI) (assumption | simp add: slot_recent_def)+
  next
    case False
    then have "K' ?k = K ?k" using issueScript_refuses(1) [OF x _ so(1) ds] by blast
    then have "slot_rep K' ?k so" by (rule slot_rep_cong [THEN iffD2]) (rule so(1))
    then show ?thesis using so(2) by blast
  qed
  have other: "K' l = K l" if "l \<notin> {?k, ?k @ '':cooldown'', ?e, ?p}" for l
    using leavesD [OF leaves_issueScript [OF that]] x by (metis snd_conv)
  have "\<exists>so. slot_rep K' (emailKey hm ul S em p) so \<and> slot_recent t so" for em p
  proof (cases "emailKey hm ul S em p = ?k")
    case False
    then have "K' (emailKey hm ul S em p) = K (emailKey hm ul S em p)"
      using not_cooldown_key(1) [OF assms(1)] by (intro other) auto
    then have eq: "slot_rep K' (emailKey hm ul S em p) so \<longleftrightarrow> slot_rep K (emailKey hm ul S em p) so" for so
      by (rule slot_rep_cong)
    show ?thesis unfolding eq using inv by (auto simp: code_inv_def)
  qed (use own in simp)
  moreover have "\<exists>c. counter_rep K' (emailLimitKey hm ul S em) c" for em
  proof (cases "emailLimitKey hm ul S em = ?e")
    case True
    then show ?thesis using issueScript_counts(1) [OF ce cp ds, of 10 50 t] x by (metis numeral_One one_le_numeral snd_conv)
  next
    case False
    then have "K' (emailLimitKey hm ul S em) = K (emailLimitKey hm ul S em)"
      using not_cooldown_key(2) [OF assms(1)] by (intro other) auto
    then have eq: "counter_rep K' (emailLimitKey hm ul S em) c \<longleftrightarrow> counter_rep K (emailLimitKey hm ul S em) c" for c
      by (rule counter_rep_cong)
    show ?thesis unfolding eq using inv by (auto simp: code_inv_def)
  qed
  moreover have "\<exists>c. counter_rep K' (ipLimitKey hm S q) c" for q
  proof (cases "ipLimitKey hm S q = ?p")
    case True
    then show ?thesis using issueScript_counts(2) [OF ce cp ds, of 10 50 t] x by (metis numeral_One one_le_numeral snd_conv)
  next
    case False
    then have "K' (ipLimitKey hm S q) = K (ipLimitKey hm S q)"
      using not_cooldown_key(3) [OF assms(1)] by (intro other) auto
    then have eq: "counter_rep K' (ipLimitKey hm S q) c \<longleftrightarrow> counter_rep K (ipLimitKey hm S q) c" for c
      by (rule counter_rep_cong)
    show ?thesis unfolding eq using inv by (auto simp: code_inv_def)
  qed
  ultimately show ?thesis unfolding x snd_conv code_inv_def by blast
qed

lemma perform_inv:
  assumes "hmac_size hm" and inv: "code_inv hm ul S (ev_time ev) K" and live: "all_live (ev_time ev) K"
  shows "code_inv hm ul S (ev_time ev) (snd (auth_perform redis_doc hm ul S ev K))"
proof (cases "\<exists>email purpose ip rc ri. ev_call ev = CallIssue email purpose ip rc ri")
  case True
  then obtain email purpose ip rc ri where "ev_call ev = CallIssue email purpose ip rc ri" by blast
  then have "snd (auth_perform redis_doc hm ul S ev K) =
      snd (IssueCode redis_doc hm ul S (ev_net ev) (ev_time ev) (ev_ctx ev) rc ri email purpose ip K)"
    by (simp add: auth_perform_def)
  then show ?thesis using snd_IssueCode issue_on_inv [OF assms] inv by metis
next
  case False
  let ?K = "snd (auth_perform redis_doc hm ul S ev K)" and ?t = "ev_time ev"
  have same: "?K l = K l" if "l \<notin> call_keys hm ul S (ev_call ev)" for l using that by (rule perform_leaves)
  have lims: "emailLimitKey hm ul S em \<notin> call_keys hm ul S (ev_call ev)" "ipLimitKey hm S q \<notin> call_keys hm ul S (ev_call ev)" for em q
    using False by (cases "ev_call ev"; auto split: sum.split)+
  have "\<exists>so. slot_rep ?K (emailKey hm ul S em p) so \<and> slot_recent ?t so" for em p
  proof -
    obtain so where so: "slot_rep K (emailKey hm ul S em p) so" "slot_recent ?t so" using inv unfolding code_inv_def by blast
    show ?thesis
    proof (cases "email_key_of hm ul S (ev_call ev) = Some (emailKey hm ul S em p)")
      case True
      from perform_slot(2) [OF True so(1) live so(2)] slot_recent_perform [OF so(2) order_refl] show ?thesis by blast
    next
      case other: False
      have "?K (emailKey hm ul S em p) = K (emailKey hm ul S em p)"
        using False by (intro same foreign_call [OF assms(1) other]) blast
      then have "slot_rep ?K (emailKey hm ul S em p) so" by (rule slot_rep_cong [THEN iffD2]) (rule so(1))
      then show ?thesis using so(2) by blast
    qed
  qed
  moreover have "counter_rep ?K (emailLimitKey hm ul S em) c = counter_rep K (emailLimitKey hm ul S em) c"
    "counter_rep ?K (ipLimitKey hm S q) c = counter_rep K (ipLimitKey hm S q) c" for em q c
    by (rule counter_rep_cong, rule same, rule lims)+
  ultimately show ?thesis using inv unfolding code_inv_def by blast
qed

context redis
begin

lemma run_inv:
  assumes "hmac_size hm" and "code_inv hm ul S t (view t r)" and "times_from t evs"
  shows "code_inv hm ul S (end_time t evs) (view (end_time t evs) (snd (auth_run exec hm ul S evs r)))"
  using assms(2-)
proof (induction evs arbitrary: t r)
  case (Cons ev evs)
  have "code_inv hm ul S (ev_time ev) (view (ev_time ev) r)"
    using code_inv_live [OF Cons.prems(1), of "ev_time ev"] Cons.prems(2) view_expire [of t "ev_time ev" r] by simp
  from perform_inv [OF assms(1) this view_all_live]
  have "code_inv hm ul S (ev_time ev) (view (ev_time ev) (snd (auth_perform exec hm ul S ev r)))" by (simp add: perform_view)
  from Cons.IH [OF this] Cons.prems(2) show ?case by (simp add: Let_def case_prod_unfold)
qed simp

lemma IssueCode_slot:
  assumes "hmac_size hm" and "code_inv hm ul S t (view t r)"
    and "IssueCode exec hm ul S n t ctx rc ri email purpose ip r = (Inr code, r')"
  shows "\<exists>i. slot_rep (view t r') (emailKey hm ul S email purpose)
    (Some \<lparr>slot_digest = digest hm S (emailKey hm ul S email purpose @ '':'' @ code), slot_id = i, slot_errors = 0,
      slot_deadline = t + 600000\<rparr>)"
    and "\<And>v e. view t r (emailKey hm ul S email purpose @ '':cooldown'') \<noteq> Some (v, Some e)"
    and "view t r' (emailKey hm ul S email purpose @ '':cooldown'') = Some (VString ''1'', Some (t + 60000))"
    and "counter_rep (view t r) (emailLimitKey hm ul S email) c \<Longrightarrow>
      fst (count_one t c) \<le> 10 \<and> counter_rep (view t r') (emailLimitKey hm ul S email) (Some (count_one t c))"
proof -
  from redis_simD [OF auth_op_sims(1) assms(3)]
  have "IssueCode redis_doc hm ul S n t ctx rc ri email purpose ip (view t r) = (Inr code, view t r')" .
  then obtain k i x where i: "code = pad6 k" "issue_on hm ul S t k i email purpose ip (view t r) = (Inr (RInt x), view t r')" "\<not> x > 0"
    by (rule IssueCode_Inr)
  obtain so where so: "slot_rep (view t r) (emailKey hm ul S email purpose) so" using assms(2) unfolding code_inv_def by blast
  obtain ce where ce: "counter_rep (view t r) (emailLimitKey hm ul S email) ce" using assms(2) unfolding code_inv_def by blast
  obtain cp where cp: "counter_rep (view t r) (ipLimitKey hm S ip) cp" using assms(2) unfolding code_inv_def by blast
  note admits = issueScript_admits [OF i(2,3) _ cp so view_all_live issue_keys_distinct [OF assms(1)]]
  show "\<exists>i. slot_rep (view t r') (emailKey hm ul S email purpose)
    (Some \<lparr>slot_digest = digest hm S (emailKey hm ul S email purpose @ '':'' @ code), slot_id = i, slot_errors = 0,
      slot_deadline = t + 600000\<rparr>)" using admits(5) [OF ce] i(1) by auto
  show "\<And>v e. view t r (emailKey hm ul S email purpose @ '':cooldown'') \<noteq> Some (v, Some e)" using admits(3) [OF ce] by simp
  show "view t r' (emailKey hm ul S email purpose @ '':cooldown'') = Some (VString ''1'', Some (t + 60000))"
    using admits(4) [OF ce] by simp
  show "counter_rep (view t r) (emailLimitKey hm ul S email) c \<Longrightarrow>
      fst (count_one t c) \<le> 10 \<and> counter_rep (view t r') (emailLimitKey hm ul S email) (Some (count_one t c))"
    using admits(1,6) by simp
qed

end

section \<open>Guesses\<close>

text \<open>A wrong guess that reaches the server.\<close>

definition wrong_guess :: "hmac \<Rightarrow> (string \<Rightarrow> string) \<Rightarrow> CodeStore \<Rightarrow> string \<Rightarrow> string \<Rightarrow> auth_event \<Rightarrow> bool" where
  "wrong_guess hm ul S k d ev \<longleftrightarrow> ev_net ev \<noteq> LostRequest \<and> (case ev_call ev of
      CallVerify email purpose code started \<Rightarrow> emailKey hm ul S email purpose = k \<and> digest hm S (k @ '':'' @ code) \<noteq> d
    | CallVerifyAndConsume email purpose code \<Rightarrow> emailKey hm ul S email purpose = k \<and> digest hm S (k @ '':'' @ code) \<noteq> d
    | _ \<Rightarrow> False)"

definition only_verifies :: "hmac \<Rightarrow> (string \<Rightarrow> string) \<Rightarrow> CodeStore \<Rightarrow> string \<Rightarrow> auth_event \<Rightarrow> bool" where
  "only_verifies hm ul S k ev \<longleftrightarrow> (case ev_call ev of
      CallVerifyAndConsume email purpose code \<Rightarrow> emailKey hm ul S email purpose \<noteq> k
    | CallConsume email purpose receipt \<Rightarrow> emailKey hm ul S email purpose \<noteq> k
    | _ \<Rightarrow> True)"

lemma slot_perform_None: "snd (slot_perform hm ul S k ev None) = None" "\<not> fst (slot_perform hm ul S k ev None)"
  by (cases "ev_call ev"; cases "ev_net ev"; simp add: slot_perform_def expire_slot_def)+

lemma slot_run_None: "snd (slot_run hm ul S k evs None) = None \<and> True \<notin> set (fst (slot_run hm ul S k evs None))"
proof (induction evs)
  case (Cons ev evs)
  then show ?case using slot_perform_None [of hm ul S k ev] by (simp add: Let_def case_prod_unfold)
qed simp

lemma slot_perform_errors:
  assumes "snd (slot_perform hm ul S k ev (Some s)) = Some s'" and "slot_errors s \<le> 5"
  shows "slot_digest s' = slot_digest s \<and> slot_id s' = slot_id s \<and> slot_deadline s' = slot_deadline s \<and>
    slot_errors s' = min 5 (slot_errors s + (if wrong_guess hm ul S k (slot_digest s) ev then 1 else 0)) \<and> ev_time ev < slot_deadline s"
  using assms
  by (cases "ev_call ev"; cases "ev_net ev")
    (auto simp: slot_perform_def expire_slot_def Let_def wrong_guess_def email_key_of_def split: if_splits)

lemma slot_run_errors:
  assumes "snd (slot_run hm ul S k evs (Some s)) = Some s'" and "slot_errors s \<le> 5"
  shows "slot_digest s' = slot_digest s \<and> slot_id s' = slot_id s \<and> slot_deadline s' = slot_deadline s \<and>
    slot_errors s' = min 5 (slot_errors s + int (length (filter (wrong_guess hm ul S k (slot_digest s)) evs)))"
  using assms
proof (induction evs arbitrary: s)
  case (Cons ev evs)
  show ?case
  proof (cases "snd (slot_perform hm ul S k ev (Some s))")
    case None
    then show ?thesis using Cons.prems slot_run_None [of hm ul S k evs] by (simp add: Let_def case_prod_unfold)
  next
    case (Some s1)
    note s1 = slot_perform_errors [OF Some Cons.prems(2)]
    have "snd (slot_run hm ul S k evs (Some s1)) = Some s'"
      using Cons.prems(1) Some by (simp add: Let_def case_prod_unfold)
    moreover have "slot_errors s1 \<le> 5" using s1 by simp
    ultimately show ?thesis using Cons.IH [of s1] s1 by auto
  qed
qed auto

text \<open>Without redemptions a slot lives until its deadline.\<close>

lemma slot_run_kept:
  assumes "list_all (only_verifies hm ul S k) evs" and "list_all (\<lambda>ev. ev_time ev < slot_deadline s) evs" and "slot_errors s \<le> 5"
  shows "\<exists>s'. snd (slot_run hm ul S k evs (Some s)) = Some s'"
  using assms
proof (induction evs arbitrary: s)
  case (Cons ev evs)
  have "\<exists>s1. snd (slot_perform hm ul S k ev (Some s)) = Some s1"
    using Cons.prems by (cases "ev_call ev"; cases "ev_net ev")
      (auto simp: slot_perform_def expire_slot_def Let_def only_verifies_def email_key_of_def)
  then obtain s1 where s1: "snd (slot_perform hm ul S k ev (Some s)) = Some s1" by blast
  note e = slot_perform_errors [OF s1 Cons.prems(3)]
  then show ?case using Cons.IH [of s1] Cons.prems s1 by (simp add: Let_def case_prod_unfold)
qed simp

lemma set_outcomes_at: "set (outcomes_at hm ul S k evs oks) \<subseteq> set oks"
  by (induction hm ul S k evs oks rule: outcomes_at.induct) auto

lemma times_from_end: "times_from t evs \<Longrightarrow> t \<le> end_time t evs \<and> list_all (\<lambda>ev. ev_time ev \<le> end_time t evs) evs"
proof (induction evs arbitrary: t)
  case (Cons ev evs)
  then have "ev_time ev \<le> end_time (ev_time ev) evs \<and> list_all (\<lambda>e. ev_time e \<le> end_time (ev_time ev) evs) evs" by simp
  then show ?case using Cons.prems by (auto intro: order_trans)
qed simp

text \<open>A single call seen as an event.\<close>

lemma VerifyCode_perform:
  "(\<exists>x. fst (VerifyCode exec hm ul S n t ctx st email purpose code r) = Inr x) \<longleftrightarrow>
     fst (auth_perform exec hm ul S \<lparr>ev_time = t, ev_net = n, ev_ctx = ctx, ev_call = CallVerify email purpose code st\<rparr> r)"
  by (auto simp: auth_perform_def succeeded_def split: sum.splits)

lemma VerifyAndConsume_perform:
  "(\<exists>x. fst (VerifyAndConsume exec hm ul S n t ctx email purpose code r) = Inr x) \<longleftrightarrow>
     fst (auth_perform exec hm ul S \<lparr>ev_time = t, ev_net = n, ev_ctx = ctx, ev_call = CallVerifyAndConsume email purpose code\<rparr> r)"
  by (auto simp: auth_perform_def succeeded_def split: sum.splits)

context redis
begin

lemma verify_after:
  assumes "hmac_size hm" and "k = emailKey hm ul S email purpose" and "slot_rep (view t r) k (Some s)" and "slot_recent t (Some s)"
    and "slot_errors s = 0" and "times_from t evs" and "list_all (\<lambda>ev. \<not> issues_for hm ul S k ev) evs" and "end_time t evs \<le> t'"
  defines "r' \<equiv> snd (auth_run exec hm ul S evs r)"
  shows "5 \<le> length (filter (wrong_guess hm ul S k (slot_digest s)) evs) \<Longrightarrow> call \<in> {CallVerify email purpose c st, CallVerifyAndConsume email purpose c} \<Longrightarrow>
      \<not> fst (auth_perform exec hm ul S \<lparr>ev_time = t', ev_net = n, ev_ctx = ctx, ev_call = call\<rparr> r')"
    and "list_all (only_verifies hm ul S k) evs \<Longrightarrow> digest hm S (k @ '':'' @ code) = slot_digest s \<Longrightarrow>
      fst (auth_perform exec hm ul S \<lparr>ev_time = t', ev_net = Delivered, ev_ctx = ctx, ev_call = CallVerify email purpose code st\<rparr> r') \<longleftrightarrow>
        length (filter (wrong_guess hm ul S k (slot_digest s)) evs) < 5 \<and> t' < slot_deadline s"
proof -
  let ?w = "length (filter (wrong_guess hm ul S k (slot_digest s)) evs)"
  let ?ev = "\<lambda>n call. \<lparr>ev_time = t', ev_net = n, ev_ctx = ctx, ev_call = call\<rparr>"
  define so where "so = snd (slot_run hm ul S k evs (Some s))"
  note run = run_refines [OF assms(1-4,6,7)]
  have rep: "slot_rep (view (end_time t evs) r') k so" "slot_recent (end_time t evs) so" using run by (simp_all add: r'_def so_def)
  have perform: "fst (auth_perform exec hm ul S (?ev n call) r') = fst (slot_perform hm ul S k (?ev n call) so)"
    if "email_key_of hm ul S call = Some k" for n call
    using that perform_refines(1) [OF assms(1,2) rep, of "?ev n call"] assms(8)
    by (cases call) (simp_all add: issues_for_def email_key_of_def)
  have errors: "slot_digest s' = slot_digest s \<and> slot_deadline s' = slot_deadline s \<and> slot_errors s' = min 5 (int ?w)" if "so = Some s'" for s'
    using slot_run_errors [of hm ul S k evs s s'] that assms(5) by (simp add: so_def)
  show "\<not> fst (auth_perform exec hm ul S (?ev n call) r')"
    if w: "5 \<le> ?w" and call: "call \<in> {CallVerify email purpose c st, CallVerifyAndConsume email purpose c}"
  proof -
    have "email_key_of hm ul S call = Some k" using call assms(2) by (auto simp: email_key_of_def)
    moreover have "\<not> fst (slot_perform hm ul S k (?ev n call) so)"
      using call w by (cases so; cases n) (auto dest!: errors simp: slot_perform_def expire_slot_def Let_def)
    ultimately show ?thesis by (simp add: perform)
  qed
  show "fst (auth_perform exec hm ul S (?ev Delivered (CallVerify email purpose code st)) r') \<longleftrightarrow> ?w < 5 \<and> t' < slot_deadline s"
    if only: "list_all (only_verifies hm ul S k) evs" and code: "digest hm S (k @ '':'' @ code) = slot_digest s"
  proof -
    have key: "email_key_of hm ul S (CallVerify email purpose code st) = Some k" using assms(2) by (simp add: email_key_of_def)
    have "fst (slot_perform hm ul S k (?ev Delivered (CallVerify email purpose code st)) so) \<longleftrightarrow> ?w < 5 \<and> t' < slot_deadline s"
    proof (cases so)
      case None
      have "\<not> t' < slot_deadline s"
      proof
        assume "t' < slot_deadline s"
        then have "list_all (\<lambda>ev. ev_time ev < slot_deadline s) evs"
          using times_from_end [OF assms(6)] assms(8) by (auto simp: list_all_iff)
        from slot_run_kept [OF only this] assms(5) None show False by (simp add: so_def)
      qed
      then show ?thesis using None slot_perform_None by simp
    next
      case (Some s')
      from errors [OF this] show ?thesis using code key Some assms(5)
        by (auto simp: slot_perform_def expire_slot_def Let_def)
    qed
    then show ?thesis by (simp add: perform [OF key])
  qed
qed

end

end
