(* ===== verification/Auth_Limits.thy ===== *)
theory Auth_Limits
  imports Auth_Guessing
begin

text \<open>
  Challenges, request limits and cooldown of \<open>src/pkg/platform/authcache/redis.go\<close>, and the properties of the
  code store: five guesses for a code, one use of a login code, five attempts and one redemption for a
  challenge, ten codes per address and window, a minute between codes.
\<close>

section \<open>Attempts at a challenge\<close>

text \<open>How many attempts a challenge has left, and whether it can still be redeemed.\<close>

definition attempts_left :: "keyspace \<Rightarrow> string \<Rightarrow> nat" where
  "attempts_left K k = (case K k of
      Some (VHash h, e) \<Rightarrow> (case h ''attempts'' of
          Some x \<Rightarrow> (case ParseInt x of Some n \<Rightarrow> nat (5 - n) | None \<Rightarrow> 0)
        | None \<Rightarrow> 5)
    | _ \<Rightarrow> 0)"

definition redeemable :: "keyspace \<Rightarrow> string \<Rightarrow> nat" where
  "redeemable K k = (if K k = None then 0 else 1)"

lemma left_live: "attempts_left (live t K) k \<le> attempts_left K k" "redeemable (live t K) k \<le> redeemable K k"
  by (auto simp: attempts_left_def redeemable_def live_def split: option.splits)

lemma left_cong: "K k = K' k \<Longrightarrow> attempts_left K k = attempts_left K' k" "K k = K' k \<Longrightarrow> redeemable K k = redeemable K' k"
  by (simp_all add: attempts_left_def redeemable_def)

lemma attemptScript_left:
  assumes "attemptScript redis_doc t k K = (x, K')"
  shows "attempts_left K' k + (if \<exists>u v. x = Inr (RMulti [u, v]) then 1 else 0) \<le> attempts_left K k" and "redeemable K' k = redeemable K k"
  using assms
  by (auto simp: attemptScript_def bindE_def reply_int_def attempts_left_def redeemable_def
      split: option.splits rval.splits if_splits) arith+

declare snd_mapErrE [simp]

lemma snd_bindE_pure: "(\<And>x s. snd (f x s) = s) \<Longrightarrow> snd (bindE m f s) = snd (m s)"
  by (auto simp: bindE_def split: prod.splits sum.splits)

lemma Attempt_state:
  assumes "attemptScript redis_doc t (challengeKey hm S j) K = (x, K')"
  shows "snd (Attempt redis_doc hm S n t ctx j K) \<in> {K, K'}"
proof (cases "length j = 64")
  case True
  then show ?thesis using assms
    by (cases n) (auto simp: Attempt_def snd_bindE_pure reading_def Eval_def split: list.split option.split)
qed (simp add: Attempt_def)

lemma Attempt_success:
  assumes "attemptScript redis_doc t (challengeKey hm S j) K = (x, K')" and "fst (Attempt redis_doc hm S n t ctx j K) = Inr c"
  shows "snd (Attempt redis_doc hm S n t ctx j K) = K' \<and> (\<exists>u v. x = Inr (RMulti [u, v]))"
proof -
  have "length j = 64" using assms(2) by (rule contrapos_pp) (simp add: Attempt_def)
  moreover have "n = Delivered"
  proof (rule ccontr)
    assume "n \<noteq> Delivered"
    then show False using assms(2) \<open>length j = 64\<close>
      by (cases n) (simp_all add: Attempt_def bindE_def mapErrE_def reading_def Eval_def StringSlice_def)
  qed
  ultimately show ?thesis using assms
    by (auto simp: Attempt_def bindE_def mapErrE_def reading_def Eval_def client_reply_def StringSlice_def
        split: if_splits sum.splits reply.splits list.splits option.splits)
qed

definition attempts_at :: "string \<Rightarrow> auth_event \<Rightarrow> bool" where
  "attempts_at i ev \<longleftrightarrow> ev_call ev = CallAttempt i"

definition redeems :: "string \<Rightarrow> auth_event \<Rightarrow> bool" where
  "redeems i ev \<longleftrightarrow> ev_call ev = CallConsumeChallenge i"

definition issues_challenge :: "hmac \<Rightarrow> CodeStore \<Rightarrow> string \<Rightarrow> auth_event \<Rightarrow> bool" where
  "issues_challenge hm S k ev \<longleftrightarrow> (case ev_call ev of
      CallIssueChallenge v ri \<Rightarrow> (case randomID ri of Inr i \<Rightarrow> challengeKey hm S i = k | Inl _ \<Rightarrow> False)
    | _ \<Rightarrow> False)"

lemma perform_left:
  fixes ul :: "string \<Rightarrow> string" and K :: keyspace
  assumes "hmac_size hm" and "k = challengeKey hm S i" and "\<not> issues_challenge hm S k ev"
  defines "p \<equiv> auth_perform redis_doc hm ul S ev K"
  shows "attempts_left (snd p) k + (if fst p \<and> attempts_at i ev then 1 else 0) \<le> attempts_left K k"
    and "redeemable (snd p) k + (if fst p \<and> redeems i ev then 1 else 0) \<le> redeemable K k"
proof -
  have "attempts_left (snd p) k + (if fst p \<and> attempts_at i ev then 1 else 0) \<le> attempts_left K k \<and>
    redeemable (snd p) k + (if fst p \<and> redeems i ev then 1 else 0) \<le> redeemable K k"
  proof (cases "k \<in> call_keys hm ul S (ev_call ev)")
    case False
    then have "snd p k = K k" unfolding p_def by (rule perform_leaves)
    moreover have "\<not> attempts_at i ev" "\<not> redeems i ev" using False assms(2) by (auto simp: attempts_at_def redeems_def)
    ultimately show ?thesis using left_cong [of "snd p" k K] by simp
  next
    case True
    then consider (attempt) j where "ev_call ev = CallAttempt j" "challengeKey hm S j = k"
      | (consume) j where "ev_call ev = CallConsumeChallenge j" "challengeKey hm S j = k"
      using assms(2,3) not_cooldown_key(4) [OF assms(1)]
      by (cases "ev_call ev") (auto simp: issues_challenge_def split: sum.splits)
    then show ?thesis
    proof cases
      case attempt
      obtain x K' where x: "attemptScript redis_doc (ev_time ev) k K = (x, K')" by force
      note left = attemptScript_left [OF x]
      let ?A = "Attempt redis_doc hm S (ev_net ev) (ev_time ev) (ev_ctx ev) j K"
      have A: "attemptScript redis_doc (ev_time ev) (challengeKey hm S j) K = (x, K')" using x attempt(2) by simp
      have p: "p = succeeded ?A" by (simp add: p_def auth_perform_def attempt(1))
      have "snd p = K \<or> snd p = K'" using Attempt_state [OF A] by (auto simp: p)
      moreover have "snd p = K' \<and> (\<exists>u v. x = Inr (RMulti [u, v]))" if "fst p"
      proof -
        obtain c where "fst ?A = Inr c" using \<open>fst p\<close> by (cases "fst ?A") (auto simp: p succeeded_def)
        from Attempt_success [OF A this] show ?thesis by (simp add: p)
      qed
      moreover have "\<not> redeems i ev" using attempt by (simp add: redeems_def)
      ultimately show ?thesis using left by (auto split: if_splits)
    next
      case consume
      have "snd p = K \<or> snd p = K(k := None)"
        using consume by (cases "ev_net ev") (auto simp: p_def auth_perform_def ConsumeChallenge_def bindE_def mapErrE_def reading_def
            Eval_def DEL_one client_reply_def Int_reply_def simp del: redis_doc.simps(3))
      moreover have "K k \<noteq> None \<and> snd p = K(k := None)" if "fst p"
        using that consume by (cases "ev_net ev") (auto simp: p_def auth_perform_def ConsumeChallenge_def bindE_def mapErrE_def reading_def
            Eval_def DEL_one client_reply_def Int_reply_def succeeded_def simp del: redis_doc.simps(3) split: if_splits)
      moreover have "\<not> attempts_at i ev" using consume by (simp add: attempts_at_def)
      ultimately show ?thesis by (auto simp: attempts_left_def redeemable_def)
    qed
  qed
  then show "attempts_left (snd p) k + (if fst p \<and> attempts_at i ev then 1 else 0) \<le> attempts_left K k"
    and "redeemable (snd p) k + (if fst p \<and> redeems i ev then 1 else 0) \<le> redeemable K k" by blast+
qed

text \<open>How often events of a kind succeeded in a run.\<close>

definition successes :: "(auth_event \<Rightarrow> bool) \<Rightarrow> auth_event list \<Rightarrow> bool list \<Rightarrow> nat" where
  "successes P evs oks = length (filter (\<lambda>(ev, ok). ok \<and> P ev) (zip evs oks))"

lemma successes_Nil [simp]: "successes P [] oks = 0"
  by (simp add: successes_def)

lemma successes_Cons [simp]: "successes P (ev # evs) (ok # oks) = (if ok \<and> P ev then 1 else 0) + successes P evs oks"
  by (simp add: successes_def)

text \<open>
  A budget: a bound that no admitted event and no passing of time raises, and that a success of the counted
  kind uses up by one, bounds these successes in every run.
\<close>

context redis
begin

lemma run_budget:
  assumes step: "\<And>ev K. ok ev \<Longrightarrow> I K \<Longrightarrow> code_inv hm ul S (ev_time ev) K \<Longrightarrow> all_live (ev_time ev) K \<Longrightarrow>
        I (snd (auth_perform redis_doc hm ul S ev K)) \<and>
        B (snd (auth_perform redis_doc hm ul S ev K)) + (if fst (auth_perform redis_doc hm ul S ev K) \<and> P ev then 1 else 0) \<le> B K"
    and pass: "\<And>ev K. ok ev \<Longrightarrow> I K \<Longrightarrow> I (live (ev_time ev) K) \<and> B (live (ev_time ev) K) \<le> B K"
    and "hmac_size hm" and "code_inv hm ul S t (view t r)" and "times_from t evs" and "list_all ok evs" and "I (view t r)"
  shows "I (view (end_time t evs) (snd (auth_run exec hm ul S evs r))) \<and>
    B (view (end_time t evs) (snd (auth_run exec hm ul S evs r))) + successes P evs (fst (auth_run exec hm ul S evs r)) \<le> B (view t r)"
  using assms(4-)
proof (induction evs arbitrary: t r)
  case (Cons ev evs)
  let ?K = "view (ev_time ev) r" and ?r = "snd (auth_perform exec hm ul S ev r)"
  have ev: "ok ev" "t \<le> ev_time ev" "times_from (ev_time ev) evs" "list_all ok evs" using Cons.prems by simp_all
  have K: "?K = live (ev_time ev) (view t r)" by (rule view_expire) (rule ev(2))
  have inv: "code_inv hm ul S (ev_time ev) ?K" unfolding K by (rule code_inv_live) (rule Cons.prems(1), rule ev(2))
  have live: "I ?K" "B ?K \<le> B (view t r)" using pass [OF ev(1) Cons.prems(4)] by (simp_all add: K)
  have s: "I (view (ev_time ev) ?r) \<and> B (view (ev_time ev) ?r) + (if fst (auth_perform exec hm ul S ev r) \<and> P ev then 1 else 0) \<le> B ?K"
    using step [OF ev(1) live(1) inv view_all_live] by (simp add: perform_view)
  have "code_inv hm ul S (ev_time ev) (view (ev_time ev) ?r)"
    using perform_inv [OF assms(3) inv view_all_live] by (simp add: perform_view)
  note IH = Cons.IH [OF this ev(3,4) conjunct1 [OF s]]
  show ?case using IH conjunct2 [OF s] live(2) by (simp add: Let_def case_prod_unfold)
qed simp

end

section \<open>Quota and cooldown of requests\<close>

definition requests_code :: "hmac \<Rightarrow> (string \<Rightarrow> string) \<Rightarrow> CodeStore \<Rightarrow> string \<Rightarrow> auth_event \<Rightarrow> bool" where
  "requests_code hm ul S l ev \<longleftrightarrow> (case ev_call ev of
      CallIssue email purpose ip rc ri \<Rightarrow> emailLimitKey hm ul S email = l | _ \<Rightarrow> False)"

definition quota :: "keyspace \<Rightarrow> string \<Rightarrow> nat" where
  "quota K l = (case K l of
      None \<Rightarrow> 10
    | Some (VString x, e) \<Rightarrow> (case ParseInt x of Some n \<Rightarrow> nat (10 - n) | None \<Rightarrow> 0)
    | Some _ \<Rightarrow> 0)"

text \<open>The window of a counter does not end before a point in time.\<close>

definition window_until :: "int \<Rightarrow> string \<Rightarrow> keyspace \<Rightarrow> bool" where
  "window_until e l K \<longleftrightarrow> (\<forall>v d. K l = Some (v, Some d) \<longrightarrow> e \<le> d)"

definition quota_of :: "(int \<times> int) option \<Rightarrow> nat" where
  "quota_of c = (case c of None \<Rightarrow> 10 | Some (n, e) \<Rightarrow> nat (10 - n))"

lemma quota_rep: "counter_rep K l c \<Longrightarrow> quota K l = quota_of c"
  by (auto simp: counter_rep_def quota_def quota_of_def split: option.splits)

lemma window_rep: "counter_rep K l c \<Longrightarrow> window_until e l K \<longleftrightarrow> (\<forall>x. c = Some x \<longrightarrow> e \<le> snd x)"
  by (auto simp: counter_rep_def window_until_def split: option.splits)

lemma window_live: "window_until e l K \<Longrightarrow> t < e \<Longrightarrow> live t K l = K l"
  by (force simp: window_until_def live_def split: option.splits)

lemma perform_quota:
  assumes "hmac_size hm" and inv: "code_inv hm ul S (ev_time ev) K" and live: "all_live (ev_time ev) K"
    and "l = emailLimitKey hm ul S email" and "window_until e l K" and "e \<le> ev_time ev + 3600000"
  shows "window_until e l (snd (auth_perform redis_doc hm ul S ev K)) \<and>
    quota (snd (auth_perform redis_doc hm ul S ev K)) l +
      (if fst (auth_perform redis_doc hm ul S ev K) \<and> requests_code hm ul S l ev then 1 else 0) \<le> quota K l"
proof (cases "\<exists>em p ip rc ri. ev_call ev = CallIssue em p ip rc ri \<and> emailLimitKey hm ul S em = l")
  case False
  have "l \<notin> call_keys hm ul S (ev_call ev)"
    using False assms(4) not_cooldown_key(2) [OF assms(1)] by (cases "ev_call ev") (auto split: sum.split)
  then have "snd (auth_perform redis_doc hm ul S ev K) l = K l" by (rule perform_leaves)
  moreover have "\<not> requests_code hm ul S l ev" using False by (auto simp: requests_code_def split: auth_call.splits)
  ultimately show ?thesis using assms(5) by (simp add: window_until_def quota_def)
next
  case True
  let ?t = "ev_time ev"
  from True obtain em p ip rc ri where ev: "ev_call ev = CallIssue em p ip rc ri" and l: "emailLimitKey hm ul S em = l" by blast
  obtain x K' where x: "IssueCode redis_doc hm ul S (ev_net ev) ?t (ev_ctx ev) rc ri em p ip K = (x, K')" by force
  have p: "auth_perform redis_doc hm ul S ev K = (case x of Inl _ \<Rightarrow> False | Inr _ \<Rightarrow> True, K')"
    by (simp add: auth_perform_def ev x succeeded_def)
  obtain c where c: "counter_rep K l c" using inv assms(4) unfolding code_inv_def by blast
  obtain cp where cp: "counter_rep K (ipLimitKey hm S ip) cp" using inv unfolding code_inv_def by blast
  obtain so where so: "slot_rep K (emailKey hm ul S em p) so" using inv unfolding code_inv_def by blast
  note ds = issue_keys_distinct [OF assms(1), of ul S em p ip]
  have until: "e \<le> snd (count_one ?t c)"
    using assms(5,6) by (auto simp: window_rep [OF c] count_one_def split: option.splits)
  have quota1: "quota_of (Some (count_one ?t c)) \<le> quota_of c" by (auto simp: quota_of_def count_one_def split: option.splits)
  have any: "\<exists>c'. counter_rep K' l c' \<and> (c' = c \<or> c' = Some (count_one ?t c))"
    using snd_IssueCode [of hm ul S "ev_net ev" ?t "ev_ctx ev" rc ri em p ip K] c x
      issueScript_counts(1) [OF c [folded l] cp ds, of 10 50 ?t] l by auto
  show ?thesis
  proof (cases x)
    case (Inl err)
    from any obtain c' where c': "counter_rep K' l c'" "c' = c \<or> c' = Some (count_one ?t c)" by blast
    from c'(2) assms(5) until have "window_until e l K'"
      unfolding window_rep [OF c] window_rep [OF c'(1)] by (elim disjE) simp_all
    then show ?thesis using Inl quota1 c'(2) by (auto simp: p quota_rep [OF c] quota_rep [OF c'(1)])
  next
    case (Inr code)
    from x [unfolded Inr] obtain k i y
      where "issue_on hm ul S ?t k i em p ip K = (Inr (RInt y), K')" "\<not> y > 0" by (rule IssueCode_Inr)
    from issueScript_admits [OF this c [folded l] cp so live ds]
    have n: "fst (count_one ?t c) \<le> 10" and c': "counter_rep K' l (Some (count_one ?t c))" by (simp_all add: l)
    have "1 \<le> fst (count_one ?t c)" using c by (auto simp: counter_rep_def count_one_def split: option.splits)
    then have "quota_of (Some (count_one ?t c)) + 1 \<le> quota_of c"
      using n by (auto simp: quota_of_def count_one_def split: option.splits)
    then show ?thesis using until by (simp add: p Inr quota_rep [OF c] quota_rep [OF c'] window_rep [OF c'])
  qed
qed

definition cooling :: "int \<Rightarrow> string \<Rightarrow> keyspace \<Rightarrow> bool" where
  "cooling e k K \<longleftrightarrow> (\<exists>v d. K (k @ '':cooldown'') = Some (v, Some d) \<and> e \<le> d)"

lemma issue_cooling:
  assumes "hmac_size hm" and inv: "code_inv hm ul S t K" and live: "all_live t K" and "cooling e (emailKey hm ul S em p) K"
  defines "k \<equiv> emailKey hm ul S em p"
  shows "snd (IssueCode redis_doc hm ul S n t ctx rc ri em p ip K) (k @ '':cooldown'') = K (k @ '':cooldown'')"
    and "fst (IssueCode redis_doc hm ul S n t ctx rc ri em p ip K) \<noteq> Inr code"
proof -
  obtain v d where cd: "K (emailKey hm ul S em p @ '':cooldown'') = Some (v, Some d)" using assms(4) by (auto simp: cooling_def)
  obtain c where c: "counter_rep K (emailLimitKey hm ul S em) c" using inv unfolding code_inv_def by blast
  obtain cp where cp: "counter_rep K (ipLimitKey hm S ip) cp" using inv unfolding code_inv_def by blast
  obtain so where so: "slot_rep K (emailKey hm ul S em p) so" using inv unfolding code_inv_def by blast
  note ds = issue_keys_distinct [OF assms(1), of ul S em p ip]
  have refused: "r > 0" if "issue_on hm ul S t j i em p ip K = (Inr (RInt r), K')" for j i r K'
  proof (rule ccontr)
    assume "\<not> r > 0"
    from issueScript_admits(3) [OF that this c cp so live ds, of v d] cd show False by simp
  qed
  have "snd (issue_on hm ul S t j i em p ip K) (k @ '':cooldown'') = K (k @ '':cooldown'')" for j i
  proof -
    obtain x K' where x: "issue_on hm ul S t j i em p ip K = (x, K')" by force
    have "r > 0" if "x = Inr (RInt r)" for r using refused [OF x [unfolded that]] .
    from issueScript_refuses(2) [OF x this so ds] show ?thesis unfolding x k_def by simp
  qed
  then show "snd (IssueCode redis_doc hm ul S n t ctx rc ri em p ip K) (k @ '':cooldown'') = K (k @ '':cooldown'')"
    using snd_IssueCode [of hm ul S n t ctx rc ri em p ip K] by auto
  show "fst (IssueCode redis_doc hm ul S n t ctx rc ri em p ip K) \<noteq> Inr code"
  proof
    assume "fst (IssueCode redis_doc hm ul S n t ctx rc ri em p ip K) = Inr code"
    then have "IssueCode redis_doc hm ul S n t ctx rc ri em p ip K =
        (Inr code, snd (IssueCode redis_doc hm ul S n t ctx rc ri em p ip K))" by (simp add: prod_eq_iff)
    then show False using refused by (elim IssueCode_Inr) blast
  qed
qed

lemma perform_cooling:
  assumes "hmac_size hm" and "code_inv hm ul S (ev_time ev) K" and "all_live (ev_time ev) K" and "cooling e (emailKey hm ul S em p) K"
  shows "cooling e (emailKey hm ul S em p) (snd (auth_perform redis_doc hm ul S ev K))"
proof (cases "issues_for hm ul S (emailKey hm ul S em p) ev")
  case True
  then obtain em' p' ip rc ri where ev: "ev_call ev = CallIssue em' p' ip rc ri" and k: "emailKey hm ul S em' p' = emailKey hm ul S em p"
    by (auto simp: issues_for_def split: auth_call.splits)
  show ?thesis using assms(4) issue_cooling(1) [OF assms(1-3) assms(4) [folded k]] by (simp add: auth_perform_def ev cooling_def k)
next
  case False
  have "emailKey hm ul S em p @ '':cooldown'' \<notin> call_keys hm ul S (ev_call ev)"
    using False not_cooldown_key [OF assms(1), symmetric] by (cases "ev_call ev") (auto simp: issues_for_def split: sum.split)
  then have "snd (auth_perform redis_doc hm ul S ev K) (emailKey hm ul S em p @ '':cooldown'') = K (emailKey hm ul S em p @ '':cooldown'')"
    by (rule perform_leaves)
  then show ?thesis using assms(4) by (simp add: cooling_def)
qed

lemma cooling_live: "cooling e k K \<Longrightarrow> t < e \<Longrightarrow> cooling e k (live t K)"
  by (auto simp: cooling_def live_def)

lemma HSET_challenge_left:
  assumes "issueChallengeScript redis_doc t k u v K = (Inr y, K')"
  shows "attempts_left K' k \<le> 5" and "redeemable K' k \<le> 1"
  using assms ParseInt_FormatInt [of 0]
  by (auto simp: issueChallengeScript_def EXPIRE_def bindE_def attempts_left_def redeemable_def split: option.splits rval.splits)

text \<open>A request within the limits and outside the cooldown is admitted.\<close>

lemma issueScript_ok:
  assumes "counter_rep K k3 c3" and "counter_rep K k4 c4" and "slot_rep K k1 so" and "K k2 = None"
    and "distinct [k1, k2, k3, k4]" and "1 \<le> a3" and "1 \<le> a4" and "a3 \<le> 100" and "a4 \<le> 100"
    and "fst (count_one t c3) \<le> a3" and "fst (count_one t c4) \<le> a4"
  shows "fst (issueScript redis_doc t k1 k2 k3 k4 a1 a2 a3 a4 K) = Inr (RInt 0)"
proof -
  define K1 where "K1 = K(k3 \<mapsto> (VString (FormatInt (fst (count_one t c3))), Some (snd (count_one t c3))))"
  define K2 where "K2 = K1(k4 \<mapsto> (VString (FormatInt (fst (count_one t c4))), Some (snd (count_one t c4))))"
  have c4: "counter_rep K1 k4 c4" using assms(2,5) by (auto simp: counter_rep_def K1_def split: option.splits)
  have "1 \<le> fst (count_one t c3)" "1 \<le> fst (count_one t c4)"
    using assms(1,2) by (auto simp: counter_rep_def count_one_def split: option.splits)
  then have in_int: "in_int 64 (fst (count_one t c3))" "in_int 64 (fst (count_one t c4))" using assms(8-11) by simp_all
  have "count_request redis_doc t k3 a3 0 K = (Inr 0, K1)"
    using assms(10) in_int by (simp add: count_request_doc [OF assms(1,6)] K1_def)
  moreover have "count_request redis_doc t k4 a4 0 K1 = (Inr 0, K2)"
    using assms(11) in_int by (simp add: count_request_doc [OF c4 assms(7)] K2_def)
  moreover have "K2 k1 = K k1" "K2 k2 = None" using assms(4,5) by (auto simp: K1_def K2_def)
  moreover have "ttl_seconds redis_doc t k2 K2 = (Inr 0, K2)" using \<open>K2 k2 = None\<close> by (simp add: ttl_seconds_doc ceil_seconds_def)
  moreover have "(K2(k2 \<mapsto> (VString ''1'', Some (t + 60000)))) k1 = K k1" using assms(5) \<open>K2 k1 = K k1\<close> by simp
  then have "slot_rep (K2(k2 \<mapsto> (VString ''1'', Some (t + 60000)))) k1 so" by (rule slot_rep_cong [THEN iffD2]) (rule assms(3))
  from HSET_slot [OF this, of t a1 a2 "t + 600000"]
  obtain n e where "redis_doc t (HSET k1 [(''digest'', a1), (''id'', a2), (''errors'', FormatInt 0)])
      (K2(k2 \<mapsto> (VString ''1'', Some (t + 60000)))) =
    (Inr (RInt n), K2(k2 \<mapsto> (VString ''1'', Some (t + 60000)), k1 \<mapsto> (VHash (slot_hash
      \<lparr>slot_digest = a1, slot_id = a2, slot_errors = 0, slot_deadline = t + 600000\<rparr>), e)))"
    by (elim exE)
  ultimately show ?thesis
    by (simp add: issueScript_def bindE_def Let_def SET_EX_def EXPIRE_def del: redis_doc.simps(8))
qed

context redis
begin

lemma IssueCode_ok:
  assumes "hmac_size hm" and inv: "code_inv hm ul S t (view t r)" and "view t r (emailKey hm ul S email purpose @ '':cooldown'') = None"
    and "counter_rep (view t r) (emailLimitKey hm ul S email) ce" and "fst (count_one t ce) \<le> 10"
    and "counter_rep (view t r) (ipLimitKey hm S ip) cp" and "fst (count_one t cp) \<le> 50" and "randomID ri = Inr i"
  shows "fst (IssueCode exec hm ul S Delivered t ctx (Some c) ri email purpose ip r) = Inr (pad6 c)"
proof -
  obtain so where so: "slot_rep (view t r) (emailKey hm ul S email purpose) so" using inv unfolding code_inv_def by blast
  have s: "fst (issue_on hm ul S t c i email purpose ip (view t r)) = Inr (RInt 0)"
    by (rule issueScript_ok [OF assms(4,6) so assms(3) issue_keys_distinct [OF assms(1)]]) (use assms in simp_all)
  have "fst (IssueCode redis_doc hm ul S Delivered t ctx (Some c) ri email purpose ip (view t r)) = Inr (pad6 c)"
    using s assms(8)
    by (simp add: IssueCode_def Let_def bindE_def mapErrE_def reading_def Eval_def client_reply_def Int_reply_def
        emailLimitKey_def ipLimitKey_def)
  then show ?thesis using view_fst [OF auth_op_sims(1)] by metis
qed

lemma IssueChallenge_left:
  assumes "IssueChallenge exec hm S n t ctx ri v r = (Inr i, r')"
  shows "attempts_left (view t r') (challengeKey hm S i) \<le> 5" and "redeemable (view t r') (challengeKey hm S i) \<le> 1"
proof -
  from redis_simD [OF auth_op_sims(5) assms]
  have "IssueChallenge redis_doc hm S n t ctx ri v (view t r) = (Inr i, view t r')" .
  moreover obtain x K' where x: "issueChallengeScript redis_doc t (challengeKey hm S i) (ch_UserID v) (FormatInt (ch_Version v)) (view t r) = (x, K')"
    by force
  ultimately obtain y where "x = Inr y" "K' = view t r'"
    by (cases n; cases x) (auto simp: IssueChallenge_def bindE_eq_Inr Eval_def client_reply_def split: sum.splits reply.splits)
  with x have "issueChallengeScript redis_doc t (challengeKey hm S i) (ch_UserID v) (FormatInt (ch_Version v)) (view t r) = (Inr y, view t r')"
    by simp
  from HSET_challenge_left [OF this] show "attempts_left (view t r') (challengeKey hm S i) \<le> 5"
    and "redeemable (view t r') (challengeKey hm S i) \<le> 1" by simp_all
qed

end

section \<open>Properties\<close>

text \<open>
  C22: the code of an address refines its slot. Whatever calls run, in whatever order and with whatever
  losses, as long as no new code is requested for the address and purpose, the outcomes of the calls at
  its key are those of the abstract slot, and the slot represents the key afterwards.
\<close>

theorem email_code_refines_slot:
  assumes "redis exec view" and "hmac_size hm" and "slot_rep (view t r) (emailKey hm ul S email purpose) so" and "slot_recent t so"
    and "times_from t evs" and "list_all (\<lambda>ev. \<not> issues_for hm ul S (emailKey hm ul S email purpose) ev) evs"
  shows "outcomes_at hm ul S (emailKey hm ul S email purpose) evs (fst (auth_run exec hm ul S evs r)) =
      outcomes_at hm ul S (emailKey hm ul S email purpose) evs (fst (slot_run hm ul S (emailKey hm ul S email purpose) evs so)) \<and>
    slot_rep (view (end_time t evs) (snd (auth_run exec hm ul S evs r))) (emailKey hm ul S email purpose)
      (snd (slot_run hm ul S (emailKey hm ul S email purpose) evs so))"
  using redis.run_refines [OF assms(1,2) refl assms(3-6)] by blast

text \<open>
  C23: every operation keeps the invariant of the store: each address and purpose has a well-formed code or
  none, and each request counter has a window in which it expires.
\<close>

theorem code_store_invariant:
  assumes "redis exec view" and "hmac_size hm" and "code_inv hm ul S t (view t r)" and "times_from t evs"
  shows "code_inv hm ul S (end_time t evs) (view (end_time t evs) (snd (auth_run exec hm ul S evs r)))"
  by (rule redis.run_inv [OF assms])

text \<open>
  C19: five guesses. After a code was issued and until another one is requested for the same address and
  purpose: once five wrong guesses have reached the store, no code is accepted any more, not even the
  right one; with fewer wrong guesses, and as long as nobody redeemed it, the issued code is accepted
  exactly until ten minutes have passed.
\<close>

theorem email_code_five_guesses:
  assumes "redis exec view" and "hmac_size hm" and "code_inv hm ul S t (view t r)"
    and "IssueCode exec hm ul S n t ctx rc ri email purpose ip r = (Inr code, r0)"
    and "k = emailKey hm ul S email purpose" and "d = digest hm S (k @ '':'' @ code)"
    and "times_from t evs" and "list_all (\<lambda>ev. \<not> issues_for hm ul S k ev) evs" and "end_time t evs \<le> t'"
    and "r' = snd (auth_run exec hm ul S evs r0)"
  shows "(5 \<le> length (filter (wrong_guess hm ul S k d) evs) \<longrightarrow>
      (\<forall>any x. fst (VerifyCode exec hm ul S m t' ctx' st email purpose any r') \<noteq> Inr x \<and>
        fst (VerifyAndConsume exec hm ul S m t' ctx' email purpose any r') \<noteq> Inr ())) \<and>
    (list_all (only_verifies hm ul S k) evs \<longrightarrow>
      ((\<exists>x. fst (VerifyCode exec hm ul S Delivered t' ctx' st email purpose code r') = Inr x) \<longleftrightarrow>
        length (filter (wrong_guess hm ul S k d) evs) < 5 \<and> t' < t + 600000))"
proof -
  from redis.IssueCode_slot(1) [OF assms(1-4)] obtain i where
    slot: "slot_rep (view t r0) k (Some \<lparr>slot_digest = d, slot_id = i, slot_errors = 0, slot_deadline = t + 600000\<rparr>)"
    unfolding assms(5,6) by blast
  have recent: "slot_recent t (Some \<lparr>slot_digest = d, slot_id = i, slot_errors = 0, slot_deadline = t + 600000\<rparr>)"
    by (simp add: slot_recent_def)
  note after = redis.verify_after [OF assms(1,2,5) slot recent _ assms(7,8,9), folded assms(10)]
  have "fst (VerifyCode exec hm ul S m t' ctx' st email purpose any r') \<noteq> Inr x \<and>
      fst (VerifyAndConsume exec hm ul S m t' ctx' email purpose any r') \<noteq> Inr ()"
    if "5 \<le> length (filter (wrong_guess hm ul S k d) evs)" for any x
    using after(1) [OF _ _, of "CallVerify email purpose any st" any st m ctx']
      after(1) [OF _ _, of "CallVerifyAndConsume email purpose any" any st m ctx'] that
      VerifyCode_perform [of exec hm ul S m t' ctx' st email purpose any r']
      VerifyAndConsume_perform [of exec hm ul S m t' ctx' email purpose any r'] by auto
  moreover have "(\<exists>x. fst (VerifyCode exec hm ul S Delivered t' ctx' st email purpose code r') = Inr x) \<longleftrightarrow>
      length (filter (wrong_guess hm ul S k d) evs) < 5 \<and> t' < t + 600000" if "list_all (only_verifies hm ul S k) evs"
    unfolding VerifyCode_perform using after(2) [of code] that assms(6) by simp
  ultimately show ?thesis by blast
qed

text \<open>
  A login code is accepted once. After \<open>VerifyAndConsume\<close> accepted a code, every later call for that
  address and purpose fails until another code is requested.
\<close>

theorem login_code_single_use:
  assumes "redis exec view" and "hmac_size hm" and "code_inv hm ul S t (view t r)"
    and "VerifyAndConsume exec hm ul S Delivered t ctx email purpose code r = (Inr (), r')"
    and "times_from t evs" and "list_all (\<lambda>ev. \<not> issues_for hm ul S (emailKey hm ul S email purpose) ev) evs"
  shows "True \<notin> set (outcomes_at hm ul S (emailKey hm ul S email purpose) evs (fst (auth_run exec hm ul S evs r')))"
proof -
  let ?k = "emailKey hm ul S email purpose"
  let ?ev = "\<lparr>ev_time = t, ev_net = Delivered, ev_ctx = ctx, ev_call = CallVerifyAndConsume email purpose code\<rparr>"
  obtain so where so: "slot_rep (view t r) ?k so" "slot_recent t so" using assms(3) unfolding code_inv_def by blast
  have ev: "auth_perform exec hm ul S ?ev r = (True, r')" by (simp add: auth_perform_def assms(4) succeeded_def)
  have key: "email_key_of hm ul S (ev_call ?ev) = Some ?k" by (simp add: email_key_of_def)
  have no_issue: "\<not> issues_for hm ul S ?k ?ev" by (simp add: issues_for_def)
  note step = redis.perform_refines [OF assms(1,2) refl so, of ?ev, OF _ no_issue]
  have ok: "fst (slot_perform hm ul S ?k ?ev so)" using step(1) key by (simp add: ev)
  have "snd (slot_perform hm ul S ?k ?ev so) = None"
    using ok by (cases so) (auto simp: slot_perform_def key [simplified] expire_slot_def Let_def split: if_splits)
  with step(2) have "slot_rep (view t r') ?k None" by (simp add: ev)
  from redis.run_refines [OF assms(1,2) refl this _ assms(5,6)]
  have "outcomes_at hm ul S ?k evs (fst (auth_run exec hm ul S evs r')) = outcomes_at hm ul S ?k evs (fst (slot_run hm ul S ?k evs None))"
    by (simp add: slot_recent_def)
  then show ?thesis using slot_run_None [of hm ul S ?k evs] set_outcomes_at by fastforce
qed

text \<open>
  C20: a challenge admits at most five attempts and is redeemed at most once, however its calls and all
  others interleave, unless the generator produces an identifier with the same key again.
\<close>

theorem challenge_attempts_bounded:
  assumes "redis exec view" and "hmac_size hm" and "code_inv hm ul S t (view t r')"
    and "IssueChallenge exec hm S n t ctx ri v r = (Inr i, r')"
    and "times_from t evs" and "list_all (\<lambda>ev. \<not> issues_challenge hm S (challengeKey hm S i) ev) evs"
  shows "successes (attempts_at i) evs (fst (auth_run exec hm ul S evs r')) \<le> 5 \<and>
    successes (redeems i) evs (fst (auth_run exec hm ul S evs r')) \<le> 1"
proof -
  let ?k = "challengeKey hm S i" and ?ok = "\<lambda>ev. \<not> issues_challenge hm S (challengeKey hm S i) ev"
  have "attempts_left (view (end_time t evs) (snd (auth_run exec hm ul S evs r'))) ?k +
      successes (attempts_at i) evs (fst (auth_run exec hm ul S evs r')) \<le> attempts_left (view t r') ?k"
    using redis.run_budget [OF assms(1), of ?ok "\<lambda>_. True" hm ul S "\<lambda>K. attempts_left K ?k" "attempts_at i", OF _ _ assms(2,3,5,6)]
      perform_left(1) [OF assms(2) refl] left_live(1) by simp
  moreover have "redeemable (view (end_time t evs) (snd (auth_run exec hm ul S evs r'))) ?k +
      successes (redeems i) evs (fst (auth_run exec hm ul S evs r')) \<le> redeemable (view t r') ?k"
    using redis.run_budget [OF assms(1), of ?ok "\<lambda>_. True" hm ul S "\<lambda>K. redeemable K ?k" "redeems i", OF _ _ assms(2,3,5,6)]
      perform_left(2) [OF assms(2) refl] left_live(2) by simp
  ultimately show ?thesis using redis.IssueChallenge_left [OF assms(1,4)] by linarith
qed

text \<open>
  Within an hour of the first request, at most ten codes are issued for an address, whatever the
  purposes and however the requests interleave with other calls.
\<close>

theorem code_requests_throttled:
  assumes "redis exec view" and "hmac_size hm" and "code_inv hm ul S t (view t r)"
    and "view t r (emailLimitKey hm ul S email) = None"
    and "times_from t evs" and "list_all (\<lambda>ev. ev_time ev < t + 3600000) evs"
  shows "successes (requests_code hm ul S (emailLimitKey hm ul S email)) evs (fst (auth_run exec hm ul S evs r)) \<le> 10"
proof -
  let ?l = "emailLimitKey hm ul S email" and ?e = "t + 3600000" and ?ok = "\<lambda>ev. t \<le> ev_time ev \<and> ev_time ev < t + 3600000"
  have after: "list_all (\<lambda>ev. t \<le> ev_time ev) evs" using assms(5)
  proof (induction evs arbitrary: t)
    case (Cons ev evs)
    have "list_all (\<lambda>e. ev_time ev \<le> ev_time e) evs" using Cons.IH [of "ev_time ev"] Cons.prems by simp
    then show ?case using Cons.prems by (auto simp: list_all_iff)
  qed simp
  have step: "window_until ?e ?l (snd (auth_perform redis_doc hm ul S ev K)) \<and>
      quota (snd (auth_perform redis_doc hm ul S ev K)) ?l +
        (if fst (auth_perform redis_doc hm ul S ev K) \<and> requests_code hm ul S ?l ev then 1 else 0) \<le> quota K ?l"
    if "?ok ev" "window_until ?e ?l K" "code_inv hm ul S (ev_time ev) K" "all_live (ev_time ev) K" for ev K
    using that by (intro perform_quota [OF assms(2) _ _ refl]) simp_all
  have pass: "window_until ?e ?l (live (ev_time ev) K) \<and> quota (live (ev_time ev) K) ?l \<le> quota K ?l"
    if "?ok ev" "window_until ?e ?l K" for ev K
    using that window_live [of ?e ?l K "ev_time ev"] by (simp add: window_until_def quota_def)
  have "list_all ?ok evs" using after assms(6) by (simp add: list_all_iff)
  moreover have "window_until ?e ?l (view t r)" using assms(4) by (simp add: window_until_def)
  ultimately have "successes (requests_code hm ul S ?l) evs (fst (auth_run exec hm ul S evs r)) \<le> quota (view t r) ?l"
    using redis.run_budget [OF assms(1), of ?ok "window_until ?e ?l" hm ul S "\<lambda>K. quota K ?l" "requests_code hm ul S ?l", OF step pass assms(2,3,5)]
    by fastforce
  then show ?thesis using assms(4) by (simp add: quota_def)
qed

text \<open>
  After a code was issued, every request for the same address and purpose in the following minute is
  refused, whatever happens in between.
\<close>

theorem code_cooldown:
  assumes "redis exec view" and "hmac_size hm" and "code_inv hm ul S t (view t r)"
    and "IssueCode exec hm ul S n t ctx rc ri email purpose ip r = (Inr code, r0)"
    and "times_from t evs" and "end_time t evs \<le> t'" and "t' < t + 60000"
  shows "fst (IssueCode exec hm ul S m t' ctx' rc' ri' email purpose ip' (snd (auth_run exec hm ul S evs r0))) \<noteq> Inr code'"
proof -
  let ?I = "cooling (t + 60000) (emailKey hm ul S email purpose)" and ?ok = "\<lambda>ev. ev_time ev < t + 60000"
  let ?r = "snd (auth_run exec hm ul S evs r0)"
  have ok: "list_all ?ok evs" using times_from_end [OF assms(5)] assms(6,7) by (auto simp: list_all_iff)
  have inv0: "code_inv hm ul S t (view t r0)"
  proof -
    let ?ev = "\<lparr>ev_time = t, ev_net = n, ev_ctx = ctx, ev_call = CallIssue email purpose ip rc ri\<rparr>"
    have "snd (auth_perform exec hm ul S ?ev r) = r0" by (simp add: auth_perform_def assms(4))
    then show ?thesis using perform_inv [of hm ul S ?ev "view t r"] assms(2,3) redis.view_all_live [OF assms(1), of t r]
      redis.perform_view(2) [OF assms(1), of ?ev hm ul S r] by simp
  qed
  have start: "?I (view t r0)" using redis.IssueCode_slot(3) [OF assms(1-4)] by (simp add: cooling_def)
  have step: "?I (snd (auth_perform redis_doc hm ul S ev K)) \<and>
      (0::nat) + (if fst (auth_perform redis_doc hm ul S ev K) \<and> False then 1 else 0) \<le> 0"
    if "?ok ev" "?I K" "code_inv hm ul S (ev_time ev) K" "all_live (ev_time ev) K" for ev K
    using perform_cooling [OF assms(2) that(3,4,2)] by simp
  have pass: "?I (live (ev_time ev) K) \<and> (0::nat) \<le> 0" if "?ok ev" "?I K" for ev K
    using that cooling_live by simp
  have "?I (view (end_time t evs) ?r)"
    using redis.run_budget [OF assms(1), of ?ok ?I hm ul S "\<lambda>_. 0" "\<lambda>_. False", OF step pass assms(2) inv0 assms(5) ok start] by simp
  then have "?I (view t' ?r)"
    using redis.view_expire [OF assms(1,6)] cooling_live assms(7) by simp
  moreover have "code_inv hm ul S t' (view t' ?r)"
    using code_inv_live [OF redis.run_inv [OF assms(1,2) inv0 assms(5)] assms(6)] redis.view_expire [OF assms(1,6)] by simp
  ultimately have "fst (IssueCode redis_doc hm ul S m t' ctx' rc' ri' email purpose ip' (view t' ?r)) \<noteq> Inr code'"
    by (intro issue_cooling(2) [OF assms(2) _ redis.view_all_live [OF assms(1)]])
  then show ?thesis using redis.view_fst [OF assms(1) redis.auth_op_sims(1) [OF assms(1)]] by metis
qed

section \<open>A run of the store\<close>

text \<open>The reference server, with a toy digest of 32 bytes.\<close>

definition demo_hmac :: hmac where
  "demo_hmac p v = take 32 (rev v @ replicate 32 (CHR ''x''))"

definition demo_codes :: CodeStore where
  "demo_codes = NewCodeStore ''dev'' ''pepper''"

definition demo_ctx :: call_ctx where
  "demo_ctx = \<lparr>ctx_Err = None, ctx_canceled = False\<rparr>"

definition demo_issue :: "(iam_error + string) \<times> keyspace" where
  "demo_issue = IssueCode lazy_exec demo_hmac id demo_codes Delivered 0 demo_ctx (Some 123456) (Some ''id'')
     ''ada@example.org'' ''login'' ''10.0.0.1'' Map.empty"

definition demo_event :: "int \<Rightarrow> auth_call \<Rightarrow> auth_event" where
  "demo_event t c = \<lparr>ev_time = t, ev_net = Delivered, ev_ctx = demo_ctx, ev_call = c\<rparr>"

lemma demo_hmac_size: "hmac_size demo_hmac"
  by (auto simp: hmac_size_def demo_hmac_def)

lemma demo_inv: "code_inv demo_hmac id demo_codes t (live t Map.empty)"
  by (rule code_inv_empty) (simp add: live_def)

lemma pad6_sample: "pad6 123456 = ''123456''"
  by (simp add: pad6_def digit_char_def char_of_def bit_0 FormatUint.simps)

lemma demo_issue_ok: "fst demo_issue = Inr ''123456''"
proof -
  have "randomID (Some ''id'') = Inr (hex_encode ''id'')" by (simp add: randomID_def)
  then show ?thesis
    unfolding demo_issue_def pad6_sample [symmetric]
    by (intro lazy.IssueCode_ok [OF demo_hmac_size demo_inv, where ce = None and cp = None])
      (simp_all add: live_def counter_rep_def count_one_def)
qed

abbreviation demo_key :: string where
  "demo_key \<equiv> emailKey demo_hmac id demo_codes ''ada@example.org'' ''login''"

lemma demo_issue_eq: "IssueCode lazy_exec demo_hmac id demo_codes Delivered 0 demo_ctx (Some 123456) (Some ''id'')
     ''ada@example.org'' ''login'' ''10.0.0.1'' Map.empty = (Inr ''123456'', snd demo_issue)"
  using demo_issue_ok by (simp add: demo_issue_def prod_eq_iff)

lemma demo_digests: "digest demo_hmac demo_codes (k @ '':'' @ ''000000'') \<noteq> digest demo_hmac demo_codes (k @ '':'' @ ''123456'')"
  by (simp add: digest_def demo_hmac_def)

definition demo_guess :: auth_event where
  "demo_guess = demo_event 1 (CallVerify ''ada@example.org'' ''login'' ''000000'' 0)"

lemma demo_wrong: "wrong_guess demo_hmac id demo_codes demo_key
    (digest demo_hmac demo_codes (demo_key @ '':'' @ ''123456'')) demo_guess"
  using demo_digests [of demo_key] by (simp add: wrong_guess_def demo_guess_def demo_event_def)

lemma demo_guess_simps: "ev_time demo_guess = 1" "\<not> issues_for hm ul S k demo_guess" "only_verifies hm ul S k demo_guess"
  by (simp_all add: demo_guess_def demo_event_def issues_for_def only_verifies_def)

theorem email_code_refines_slot_witness:
  "fst (auth_run lazy_exec demo_hmac id demo_codes [demo_guess] Map.empty) = [False]"
  using email_code_refines_slot [OF lazy.redis_axioms, OF demo_hmac_size, of 0 Map.empty id demo_codes "''ada@example.org''" "''login''" None "[demo_guess]"]
    slot_perform_None(2)
  by (simp add: slot_rep_def live_def slot_recent_def demo_guess_simps Let_def case_prod_unfold)
    (simp add: demo_guess_def demo_event_def email_key_of_def)

theorem code_store_invariant_witness:
  "code_inv demo_hmac id demo_codes 1 (live 1 (snd (auth_run lazy_exec demo_hmac id demo_codes [demo_guess] Map.empty)))"
  using code_store_invariant [OF lazy.redis_axioms, OF demo_hmac_size demo_inv, of 0 "[demo_guess]"]
  by (simp add: demo_guess_simps)

theorem email_code_five_guesses_witness:
  "(\<exists>x. fst (VerifyCode lazy_exec demo_hmac id demo_codes Delivered 2 demo_ctx 0 ''ada@example.org'' ''login'' ''123456''
      (snd (auth_run lazy_exec demo_hmac id demo_codes (replicate 4 demo_guess) (snd demo_issue)))) = Inr x) \<and>
   (\<forall>x. fst (VerifyCode lazy_exec demo_hmac id demo_codes Delivered 2 demo_ctx 0 ''ada@example.org'' ''login'' ''123456''
      (snd (auth_run lazy_exec demo_hmac id demo_codes (replicate 5 demo_guess) (snd demo_issue)))) \<noteq> Inr x)"
proof -
  note five = email_code_five_guesses [OF lazy.redis_axioms, OF demo_hmac_size demo_inv demo_issue_eq refl refl _ _ _ refl]
  have times: "times_from 0 (replicate n demo_guess)" "end_time 0 (replicate n demo_guess) \<le> 2" for n
  proof -
    have "times_from 1 (replicate n demo_guess)" "end_time 1 (replicate n demo_guess) = 1" for n
      by (induction n) (simp_all add: demo_guess_simps)
    then show "times_from 0 (replicate n demo_guess)" "end_time 0 (replicate n demo_guess) \<le> 2"
      by (cases n; simp add: demo_guess_simps)+
  qed
  have all: "list_all P (replicate n demo_guess)" if "P demo_guess" for P n using that by (induction n) simp_all
  have count: "length (filter (wrong_guess demo_hmac id demo_codes demo_key
      (digest demo_hmac demo_codes (demo_key @ '':'' @ ''123456''))) (replicate n demo_guess)) = n" for n
    using demo_wrong by (simp only: filter_replicate if_True length_replicate)
  show ?thesis
    using five [of "replicate 4 demo_guess" 2 Delivered demo_ctx 0, OF times(1) all [of "\<lambda>ev. \<not> issues_for _ _ _ _ ev", OF demo_guess_simps(2)] times(2)]
      five [of "replicate 5 demo_guess" 2 Delivered demo_ctx 0, OF times(1) all [of "\<lambda>ev. \<not> issues_for _ _ _ _ ev", OF demo_guess_simps(2)] times(2)]
      all [of "only_verifies _ _ _ _", OF demo_guess_simps(3)]
    unfolding count by simp
qed

theorem code_requests_throttled_witness:
  "successes (requests_code demo_hmac id demo_codes (emailLimitKey demo_hmac id demo_codes ''ada@example.org''))
     [demo_event 5 (CallIssue ''ada@example.org'' ''login'' ''10.0.0.1'' (Some 7) (Some ''id''))]
     (fst (auth_run lazy_exec demo_hmac id demo_codes
       [demo_event 5 (CallIssue ''ada@example.org'' ''login'' ''10.0.0.1'' (Some 7) (Some ''id''))] Map.empty)) \<le> 10"
  by (rule code_requests_throttled [OF lazy.redis_axioms, OF demo_hmac_size demo_inv, of 0]) (simp_all add: live_def demo_event_def)

theorem code_cooldown_witness:
  "fst (IssueCode lazy_exec demo_hmac id demo_codes Delivered 30000 demo_ctx (Some 7) (Some ''id'') ''ada@example.org'' ''login''
     ''10.0.0.2'' (snd (auth_run lazy_exec demo_hmac id demo_codes [demo_guess] (snd demo_issue)))) \<noteq> Inr ''000007''"
  by (rule code_cooldown [OF lazy.redis_axioms, OF demo_hmac_size demo_inv demo_issue_eq]) (simp_all add: demo_guess_simps)

definition demo_login :: "(iam_error + unit) \<times> keyspace" where
  "demo_login = VerifyAndConsume lazy_exec demo_hmac id demo_codes Delivered 0 demo_ctx ''ada@example.org'' ''login'' ''123456''
     (snd demo_issue)"

lemma demo_issued_inv: "code_inv demo_hmac id demo_codes 0 (live 0 (snd demo_issue))"
proof -
  let ?ev = "demo_event 0 (CallIssue ''ada@example.org'' ''login'' ''10.0.0.1'' (Some 123456) (Some ''id''))"
  have "snd (auth_run lazy_exec demo_hmac id demo_codes [?ev] Map.empty) = snd demo_issue"
    by (simp add: auth_perform_def demo_event_def demo_issue_eq case_prod_unfold)
  then show ?thesis using lazy.run_inv [OF demo_hmac_size demo_inv [of 0], of "[?ev]"] by (simp add: demo_event_def)
qed

lemma demo_login_ok: "fst demo_login = Inr ()"
proof -
  let ?ev = "demo_event 0 (CallVerifyAndConsume ''ada@example.org'' ''login'' ''123456'')"
  obtain i where slot: "slot_rep (live 0 (snd demo_issue)) demo_key
      (Some \<lparr>slot_digest = digest demo_hmac demo_codes (demo_key @ '':'' @ ''123456''), slot_id = i, slot_errors = 0, slot_deadline = 600000\<rparr>)"
    using lazy.IssueCode_slot(1) [OF demo_hmac_size demo_inv demo_issue_eq] by auto
  have key: "email_key_of demo_hmac id demo_codes (ev_call ?ev) = Some demo_key" by (simp add: email_key_of_def demo_event_def)
  from lazy.perform_refines(1) [OF demo_hmac_size refl slot _ _ _ key]
  have "fst (auth_perform lazy_exec demo_hmac id demo_codes ?ev (snd demo_issue))"
    by (simp add: slot_recent_def issues_for_def demo_event_def slot_perform_def email_key_of_def expire_slot_def)
  then show ?thesis
    using VerifyAndConsume_perform [of lazy_exec demo_hmac id demo_codes Delivered 0 demo_ctx]
    by (auto simp: demo_login_def demo_event_def)
qed

theorem login_code_single_use_witness:
  "fst (auth_run lazy_exec demo_hmac id demo_codes
     [demo_event 1 (CallVerifyAndConsume ''ada@example.org'' ''login'' ''123456'')] (snd demo_login)) = [False]"
proof -
  have "VerifyAndConsume lazy_exec demo_hmac id demo_codes Delivered 0 demo_ctx ''ada@example.org'' ''login'' ''123456''
      (snd demo_issue) = (Inr (), snd demo_login)"
    using demo_login_ok by (simp add: demo_login_def prod_eq_iff)
  from login_code_single_use [OF lazy.redis_axioms, OF demo_hmac_size demo_issued_inv this,
      of "[demo_event 1 (CallVerifyAndConsume ''ada@example.org'' ''login'' ''123456'')]"]
  show ?thesis by (simp add: demo_event_def issues_for_def email_key_of_def case_prod_unfold Let_def)
qed

definition demo_challenge :: "(iam_error + string) \<times> keyspace" where
  "demo_challenge = IssueChallenge lazy_exec demo_hmac demo_codes Delivered 0 demo_ctx (Some (replicate 32 (CHR ''i'')))
     \<lparr>ch_UserID = ''u1'', ch_Version = 3\<rparr> Map.empty"

theorem challenge_attempts_bounded_witness:
  "successes (attempts_at (hex_encode (replicate 32 (CHR ''i''))))
     (replicate 7 (demo_event 1 (CallAttempt (hex_encode (replicate 32 (CHR ''i''))))))
     (fst (auth_run lazy_exec demo_hmac id demo_codes
       (replicate 7 (demo_event 1 (CallAttempt (hex_encode (replicate 32 (CHR ''i'')))))) (snd demo_challenge))) \<le> 5"
proof -
  let ?i = "hex_encode (replicate 32 (CHR ''i''))"
  have id: "randomID (Some (replicate 32 (CHR ''i''))) = Inr ?i" by (simp add: randomID_def del: replicate.simps)
  then have eq: "IssueChallenge lazy_exec demo_hmac demo_codes Delivered 0 demo_ctx (Some (replicate 32 (CHR ''i'')))
     \<lparr>ch_UserID = ''u1'', ch_Version = 3\<rparr> Map.empty = (Inr ?i, snd demo_challenge)"
    by (simp add: demo_challenge_def prod_eq_iff IssueChallenge_def issueChallengeScript_def lazy_exec_def live_def EXPIRE_def bindE_def
        mapErrE_def Eval_def client_reply_def del: replicate.simps)
  let ?ev = "demo_event 0 (CallIssueChallenge \<lparr>ch_UserID = ''u1'', ch_Version = 3\<rparr> (Some (replicate 32 (CHR ''i''))))"
  have "snd (auth_run lazy_exec demo_hmac id demo_codes [?ev] Map.empty) = snd demo_challenge"
    using eq by (simp add: auth_perform_def demo_event_def case_prod_unfold del: replicate.simps)
  then have inv: "code_inv demo_hmac id demo_codes 0 (live 0 (snd demo_challenge))"
    using lazy.run_inv [OF demo_hmac_size demo_inv [of 0], of "[?ev]"] by (simp add: demo_event_def del: replicate.simps)
  let ?evs = "replicate 7 (demo_event 1 (CallAttempt ?i))"
  have "times_from 0 ?evs" "list_all (\<lambda>ev. \<not> issues_challenge demo_hmac demo_codes (challengeKey demo_hmac demo_codes ?i) ev) ?evs"
    by (simp_all add: numeral_eq_Suc demo_event_def issues_challenge_def)
  from challenge_attempts_bounded [OF lazy.redis_axioms, OF demo_hmac_size inv eq this] show ?thesis by blast
qed

end
