(* ===== verification/Iam_Store.thy ===== *)
theory Iam_Store
  imports Iam_Model
begin

text \<open>
  The identity store \<open>src/pkg/platform/database/iamstore/repository.go\<close>. A store holds the interference
  of other processes, whether it can open transactions, and \<open>pgtype\<close>'s parser of UUIDs, a parameter. A
  transaction is one atomic step: every transaction of the store first takes the lock of the row it
  depends on (\<open>LockSystemAdminRole\<close>, \<open>LockSecuritySettings\<close>) or re-checks it, and other processes run
  before the transaction and between statements outside transactions.
\<close>

section \<open>The store\<close>

record Store =
  st_env :: iam_env
  st_managed :: bool
  st_scan :: "string \<Rightarrow> string option"

text \<open>\<open>New\<close>: transactions need the generated queries and a first beginner that is not \<open>nil\<close>.\<close>

definition NewStore :: "iam_env \<Rightarrow> (string \<Rightarrow> string option) \<Rightarrow> bool \<Rightarrow> bool list \<Rightarrow> Store" where
  "NewStore env scan generated beginners =
     \<lparr>st_env = env, st_managed = (case beginners of [] \<Rightarrow> False | b # _ \<Rightarrow> generated \<and> b), st_scan = scan\<rparr>"

type_synonym 'a iam_op = "(iam_db, iam_error, 'a) op"

definition mapDBError :: "iam_error \<Rightarrow> iam_error" where
  "mapDBError e =
     (case e of
        Driver ErrNoRows \<Rightarrow> ErrNotFound
      | Driver (PgError code) \<Rightarrow>
          if code = ''23505'' then ErrDuplicateIdentity else if code = ''23503'' then ErrNotFound else e
      | _ \<Rightarrow> e)"

definition parse_id :: "Store \<Rightarrow> string \<Rightarrow> iam_error + string" where
  "parse_id st v = (case st_scan st v of None \<Rightarrow> Inl (InvalidUUID v) | Some u \<Rightarrow> Inr u)"

primrec parse_ids :: "Store \<Rightarrow> string list \<Rightarrow> iam_error + string list" where
  "parse_ids st [] = Inr []"
| "parse_ids st (v # vs) =
     (case parse_id st v of
        Inl e \<Rightarrow> Inl e
      | Inr u \<Rightarrow> (case parse_ids st vs of Inl e \<Rightarrow> Inl e | Inr us \<Rightarrow> Inr (u # us)))"

definition liftE :: "'e + 'a \<Rightarrow> ('s, 'e, 'a) op" where
  "liftE r = (case r of Inl e \<Rightarrow> failE e | Inr x \<Rightarrow> retE x)"

text \<open>A statement outside a transaction and inside one, with the error as the driver reports it.\<close>

definition query :: "Store \<Rightarrow> 'a iam_query \<Rightarrow> 'a iam_op" where
  "query st q = mapErrE Driver (stmt (st_env st) q)"

definition txq :: "'a iam_query \<Rightarrow> 'a iam_op" where
  "txq q = mapErrE Driver (stmt no_interference q)"

definition tx_error_of :: "iam_error tx_error \<Rightarrow> iam_error" where
  "tx_error_of e = (case e of BeginFailed \<Rightarrow> TxNotBegun | CommitFailed \<Rightarrow> TxNotCommitted | TxError x \<Rightarrow> x)"

definition withTransaction :: "Store \<Rightarrow> 'a iam_op \<Rightarrow> 'a iam_op" where
  "withTransaction st fn =
     (if \<not> st_managed st then failE ErrManagementUnavailable
      else mapErrE tx_error_of (RunInTx (st_env st) fn))"

abbreviation mapped :: "'a iam_op \<Rightarrow> 'a iam_op" where
  "mapped \<equiv> mapErrE mapDBError"

section \<open>Rows as structures\<close>

definition userFromDB :: "UserRow \<Rightarrow> User" where
  "userFromDB r = \<lparr>user_EmailVerifiedAt = us_email_verified_at r, user_ID = formatUUID (Some (us_id r)), user_Email = us_email r,
     user_Username = us_username r, user_DisplayName = us_display_name r, user_PasswordHash = us_password_hash r,
     user_Active = us_is_active r, user_CreatedAt = us_created_at r, user_UpdatedAt = us_updated_at r, user_Roles = []\<rparr>"

definition roleFromDB :: "RoleRow \<Rightarrow> Role" where
  "roleFromDB r = \<lparr>role_ID = formatUUID (Some (ro_id r)), role_Name = ro_name r, role_Description = ro_description r,
     role_IsSystem = ro_is_system r\<rparr>"

definition rolesFromDB :: "RoleRow list \<Rightarrow> Role list" where
  "rolesFromDB rs = map roleFromDB rs"

definition permissionFromDB :: "PermissionRow \<Rightarrow> Permission" where
  "permissionFromDB p = \<lparr>perm_ID = formatUUID (Some (pe_id p)), perm_Name = pe_name p, perm_Description = pe_description p\<rparr>"

definition roleDetailFromDB :: "RoleRow \<Rightarrow> PermissionRow list \<Rightarrow> RoleDetail" where
  "roleDetailFromDB r ps = \<lparr>role_ID = formatUUID (Some (ro_id r)), role_Name = ro_name r, role_Description = ro_description r,
     role_IsSystem = ro_is_system r, role_Permissions = map permissionFromDB ps\<rparr>"

definition preferencesFromDB :: "UserPreferenceRow \<Rightarrow> Preferences" where
  "preferencesFromDB r = \<lparr>pr_Theme = up_theme r, pr_ColorMode = up_color_mode r, pr_AccentColor = up_accent_color r,
     pr_FontScale = up_font_scale r, pr_RadiusScale = up_radius_scale r\<rparr>"

section \<open>Users\<close>

definition FindByEmail :: "Store \<Rightarrow> string \<Rightarrow> User iam_op" where
  "FindByEmail st email = bindE (mapped (query st (GetUserByEmail email))) (\<lambda>row. retE (userFromDB row))"

definition FindByID :: "Store \<Rightarrow> string \<Rightarrow> User iam_op" where
  "FindByID st i =
     bindE (liftE (parse_id st i)) (\<lambda>u.
     bindE (mapped (query st (GetUserByID u))) (\<lambda>row. retE (userFromDB row)))"

definition GetPreferences :: "Store \<Rightarrow> string \<Rightarrow> Preferences iam_op" where
  "GetPreferences st i =
     bindE (liftE (parse_id st i)) (\<lambda>u.
     bindE (mapped (query st (GetUserPreferences u))) (\<lambda>row. retE (preferencesFromDB row)))"

definition PutPreferences :: "Store \<Rightarrow> string \<Rightarrow> Preferences \<Rightarrow> unit iam_op" where
  "PutPreferences st i p =
     bindE (liftE (parse_id st i)) (\<lambda>u.
     mapped (query st (UpsertUserPreferences u (pr_Theme p) (pr_ColorMode p) (pr_AccentColor p) (pr_FontScale p) (pr_RadiusScale p))))"

definition List_users :: "Store \<Rightarrow> UserFilter \<Rightarrow> int \<Rightarrow> int \<Rightarrow> (User list \<times> int) iam_op" where
  "List_users st flt limit offset =
     bindE (query st (ListUsers (nullableText (uf_Query flt)) (uf_Active flt) (int32 offset) (int32 limit))) (\<lambda>rows.
     bindE (query st (CountUsers (nullableText (uf_Query flt)) (uf_Active flt))) (\<lambda>n.
     bindE (mapE (\<lambda>row. bindE (mapped (query st (ListRolesForUser (us_id row)))) (\<lambda>rs.
       retE ((userFromDB row)\<lparr>user_Roles := rolesFromDB rs\<rparr>))) rows) (\<lambda>us.
     retE (us, n))))"

definition Create :: "Store \<Rightarrow> CreateUserInput \<Rightarrow> User iam_op" where
  "Create st i =
     bindE (mapped (query st (CreateUser (cu_Email i) (cu_Username i) (cu_Password i) (cu_DisplayName i)))) (\<lambda>row.
     retE (userFromDB row))"

definition SetActive :: "Store \<Rightarrow> string \<Rightarrow> bool \<Rightarrow> unit iam_op" where
  "SetActive st i active =
     bindE (liftE (parse_id st i)) (\<lambda>u.
     bindE (mapped (query st (SetUserActive u active))) (\<lambda>n. if n = 0 then failE ErrNotFound else retE ()))"

definition setActive :: "string \<Rightarrow> bool \<Rightarrow> unit iam_op" where
  "setActive u active =
     bindE (mapped (txq (SetUserActive u active))) (\<lambda>n. if n = 0 then failE ErrNotFound else retE ())"

definition withLockedSecurity :: "Store \<Rightarrow> string \<Rightarrow> (UserSecuritySettingRow \<Rightarrow> 'a iam_op) \<Rightarrow> 'a iam_op" where
  "withLockedSecurity st u fn =
     withTransaction st
       (bindE (mapped (txq (EnsureSecuritySettings u))) (\<lambda>_.
        bindE (mapped (txq (LockSecuritySettings u))) fn))"

text \<open>The verified mailbox stays while email codes are the user's second factor.\<close>

definition profile_tx :: "string \<Rightarrow> UpdateUserInput \<Rightarrow> UserSecuritySettingRow \<Rightarrow> UserRow iam_op" where
  "profile_tx u input sec =
     bindE (mapped (txq (GetUserByID u))) (\<lambda>current.
     if us_email current \<noteq> uu_Email input \<and> ss_mode sec = ''email'' then failE ErrAuthenticationForbidden
     else mapped (txq (UpdateUserProfile u (uu_Email input) (uu_Username input) (uu_DisplayName input))))"

definition UpdateUser :: "Store \<Rightarrow> string \<Rightarrow> UpdateUserInput \<Rightarrow> User iam_op" where
  "UpdateUser st i input =
     bindE (liftE (parse_id st i)) (\<lambda>u.
     bindE (mapped (withLockedSecurity st u (profile_tx u input))) (\<lambda>row. retE (userFromDB row)))"

definition UpdatePassword :: "Store \<Rightarrow> string \<Rightarrow> string \<Rightarrow> unit iam_op" where
  "UpdatePassword st i hash =
     bindE (liftE (parse_id st i)) (\<lambda>u.
     withLockedSecurity st u (\<lambda>_.
       bindE (mapped (txq (InvalidatePasswordCredentials u))) (\<lambda>_.
       bindE (mapped (txq (UpdateUserPassword u hash))) (\<lambda>n.
       if n = 0 then failE ErrNotFound else retE ()))))"

definition uuidIn :: "string list \<Rightarrow> string \<Rightarrow> bool" where
  "uuidIn vs wanted = list_ex (\<lambda>v. v = wanted) vs"

definition deactivate_tx :: "string \<Rightarrow> unit iam_op" where
  "deactivate_tx u =
     bindE (mapped (txq (GetUserByID u))) (\<lambda>_.
     bindE (mapped (txq LockSystemAdminRole)) (\<lambda>_.
     bindE (mapped (txq LockActiveSystemAdministratorIDs)) (\<lambda>adminIDs.
     if uuidIn adminIDs u \<and> length adminIDs = 1 then failE ErrLastActiveAdministrator
     else setActive u False)))"

definition SetActiveManaged :: "Store \<Rightarrow> string \<Rightarrow> bool \<Rightarrow> unit iam_op" where
  "SetActiveManaged st i active =
     (if active then SetActive st i True
      else bindE (liftE (parse_id st i)) (\<lambda>u. withTransaction st (deactivate_tx u)))"

definition PermissionsForUser :: "Store \<Rightarrow> string \<Rightarrow> string list iam_op" where
  "PermissionsForUser st i =
     bindE (liftE (parse_id st i)) (\<lambda>u. query st (ListUserPermissions u))"

section \<open>Roles\<close>

definition Roles :: "Store \<Rightarrow> Role list iam_op" where
  "Roles st = bindE (query st ListRoles) (\<lambda>rows. retE (map roleFromDB rows))"

definition Role_detail :: "Store \<Rightarrow> string \<Rightarrow> RoleDetail iam_op" where
  "Role_detail st i =
     bindE (liftE (parse_id st i)) (\<lambda>r.
     bindE (mapped (query st (GetRoleByID r))) (\<lambda>row.
     bindE (mapped (query st (ListRolePermissions r))) (\<lambda>ps.
     retE (roleDetailFromDB row ps))))"

definition Create_role :: "Store \<Rightarrow> RoleInput \<Rightarrow> Role iam_op" where
  "Create_role st input =
     bindE (mapped (query st (CreateRole (ri_Name input) (ri_Description input)))) (\<lambda>row. retE (roleFromDB row))"

definition Update_role :: "Store \<Rightarrow> string \<Rightarrow> RoleInput \<Rightarrow> Role iam_op" where
  "Update_role st i input =
     bindE (liftE (parse_id st i)) (\<lambda>r.
     bindE (mapped (query st (GetRoleByID r))) (\<lambda>existing.
     if ro_is_system existing \<and> ro_name existing \<noteq> ri_Name input then failE ErrSystemRoleProtected
     else bindE (mapped (query st (UpdateRole r (ri_Name input) (ri_Description input)))) (\<lambda>row.
       retE (roleFromDB row))))"

definition Delete_role :: "Store \<Rightarrow> string \<Rightarrow> unit iam_op" where
  "Delete_role st i =
     bindE (liftE (parse_id st i)) (\<lambda>r.
     bindE (mapped (query st (GetRoleByID r))) (\<lambda>role.
     if ro_is_system role then failE ErrSystemRoleProtected
     else bindE (mapped (query st (DeleteRole r))) (\<lambda>n.
       if n = 0 then failE ErrNotFound else retE ())))"

definition replace_roles_tx :: "string \<Rightarrow> string list \<Rightarrow> unit iam_op" where
  "replace_roles_tx u rs =
     bindE (mapped (txq (GetUserByID u))) (\<lambda>_.
     bindE (mapped (txq LockSystemAdminRole)) (\<lambda>adminRole.
     bindE (mapped (txq LockActiveSystemAdministratorIDs)) (\<lambda>adminIDs.
     bindE (forE (\<lambda>r. bindE (mapped (txq (GetRoleByID r))) (\<lambda>_. retE ())) rs) (\<lambda>_.
     if uuidIn adminIDs u \<and> length adminIDs = 1 \<and> \<not> uuidIn rs (ro_id adminRole) then failE ErrLastActiveAdministrator
     else bindE (mapped (txq (DeleteUserRoles u))) (\<lambda>_.
       forE (\<lambda>r. mapped (txq (AssignUserRole u r))) rs)))))"

definition ReplaceUserRoles :: "Store \<Rightarrow> string \<Rightarrow> string list \<Rightarrow> unit iam_op" where
  "ReplaceUserRoles st i roleIDs =
     bindE (liftE (parse_id st i)) (\<lambda>u.
     bindE (liftE (parse_ids st roleIDs)) (\<lambda>rs.
     withTransaction st (replace_roles_tx u rs)))"

definition replace_permissions_tx :: "string \<Rightarrow> string list \<Rightarrow> unit iam_op" where
  "replace_permissions_tx r ps =
     bindE (mapped (txq (GetRoleByID r))) (\<lambda>role.
     if ro_is_system role then failE ErrSystemRoleProtected
     else bindE (forE (\<lambda>p. bindE (mapped (txq (GetPermissionByID p))) (\<lambda>_. retE ())) ps) (\<lambda>_.
       bindE (mapped (txq (DeleteRolePermissions r))) (\<lambda>_.
       forE (\<lambda>p. mapped (txq (GrantRolePermission r p))) ps)))"

definition ReplaceRolePermissions :: "Store \<Rightarrow> string \<Rightarrow> string list \<Rightarrow> unit iam_op" where
  "ReplaceRolePermissions st i permissionIDs =
     bindE (liftE (parse_id st i)) (\<lambda>r.
     bindE (liftE (parse_ids st permissionIDs)) (\<lambda>ps.
     withTransaction st (replace_permissions_tx r ps)))"

definition Permissions :: "Store \<Rightarrow> Permission list iam_op" where
  "Permissions st = bindE (query st ListPermissions) (\<lambda>rows. retE (map permissionFromDB rows))"

definition AssignRole :: "Store \<Rightarrow> string \<Rightarrow> string \<Rightarrow> unit iam_op" where
  "AssignRole st userID roleID =
     bindE (liftE (parse_id st userID)) (\<lambda>u.
     bindE (liftE (parse_id st roleID)) (\<lambda>r.
     mapped (query st (AssignUserRole u r))))"

definition GrantPermission :: "Store \<Rightarrow> string \<Rightarrow> string \<Rightarrow> unit iam_op" where
  "GrantPermission st roleID permissionID =
     bindE (liftE (parse_id st roleID)) (\<lambda>r.
     bindE (liftE (parse_id st permissionID)) (\<lambda>p.
     bindE (mapped (query st (GetRoleByID r))) (\<lambda>existing.
     if ro_is_system existing then failE ErrSystemRoleProtected
     else mapped (query st (GrantRolePermission r p)))))"

end
