(* ===== verification/Auth_Store.thy ===== *)
theory Auth_Store
  imports Iam_Store
begin

text \<open>
  The authentication store \<open>src/pkg/platform/database/iamstore/authentication.go\<close>: the settings of the
  installation, the second-factor state of a user under optimistic locking, registration with the
  receipt of an email code, consumption of second-factor proofs, and verification of an address. Go's
  clock (\<open>now\<close>) and SHA-256 (\<open>sha\<close>) are arguments.
\<close>

text \<open>Of a store only the interference and the parser of UUIDs matter here.\<close>

type_synonym AuthenticationStore = Store

definition run_tx :: "AuthenticationStore \<Rightarrow> 'a iam_op \<Rightarrow> 'a iam_op" where
  "run_tx st fn = mapErrE tx_error_of (RunInTx (st_env st) fn)"

section \<open>Settings\<close>

definition Authentication :: "AuthenticationStore \<Rightarrow> AuthenticationState iam_op" where
  "Authentication st =
     bindE (query st GetAuthenticationSettings) (\<lambda>r.
     retE \<lparr>se_PasswordLoginEnabled = as_password_login_enabled r, se_RegistrationEnabled = as_registration_enabled r,
       se_RegistrationEmailVerificationRequired = as_registration_email_verification_required r,
       se_AllowedEmailDomains = as_allowed_email_domains r,
       se_BootstrapAdminUserID = formatUUID (as_bootstrap_admin_user_id r), se_InitializedAt = as_initialized_at r\<rparr>)"

definition PutAuthentication :: "AuthenticationStore \<Rightarrow> AuthenticationSettings \<Rightarrow> unit iam_op" where
  "PutAuthentication st v =
     query st (PutAuthenticationSettings (se_PasswordLoginEnabled v) (se_RegistrationEnabled v)
       (se_RegistrationEmailVerificationRequired v) (se_AllowedEmailDomains v))"

definition Initialize :: "AuthenticationStore \<Rightarrow> string \<Rightarrow> unit iam_op" where
  "Initialize st i =
     bindE (liftE (parse_id st i)) (\<lambda>u.
     bindE (query st (InitializeAuthentication u)) (\<lambda>n.
     if n \<noteq> 1 then failE ErrInvalidCredentials else retE ()))"

section \<open>Second factors\<close>

definition byte_count :: "string option \<Rightarrow> nat" where
  "byte_count b = (case b of None \<Rightarrow> 0 | Some x \<Rightarrow> length x)"

definition securityFromDB :: "UserSecuritySettingRow \<Rightarrow> SecurityState" where
  "securityFromDB v = \<lparr>sec_RecoveryCodesExpiresAt = ss_recovery_codes_expires_at v, sec_Mode = ss_mode v,
     sec_TOTPEnabled = (byte_count (ss_totp_secret v) > 0), sec_RecoveryCodesRemaining = int (length (ss_recovery_hashes v)),
     sec_Version = ss_version v, sec_Secret = ss_totp_secret v, sec_PendingSecret = ss_pending_secret v,
     sec_PendingExpiresAt = ss_pending_expires_at v, sec_LastTOTPStep = ss_last_totp_step v,
     sec_RecoveryHashes = ss_recovery_hashes v\<rparr>"

definition Security :: "AuthenticationStore \<Rightarrow> string \<Rightarrow> SecurityState iam_op" where
  "Security st i =
     bindE (liftE (parse_id st i)) (\<lambda>u.
     bindE (query st (EnsureSecuritySettings u)) (\<lambda>_.
     bindE (query st (GetSecuritySettings u)) (\<lambda>v. retE (securityFromDB v))))"

text \<open>\<open>securityParams\<close> followed by the query it parameterises.\<close>

definition save_query :: "string \<Rightarrow> SecurityState \<Rightarrow> int \<Rightarrow> int iam_query" where
  "save_query u v version =
     SaveSecuritySettings u (sec_Mode v) (sec_Secret v) (sec_PendingSecret v) (sec_PendingExpiresAt v) (sec_LastTOTPStep v)
       (sec_RecoveryHashes v) version (sec_RecoveryCodesExpiresAt v)"

definition save_email_tx :: "string \<Rightarrow> SecurityState \<Rightarrow> int \<Rightarrow> unit iam_op" where
  "save_email_tx u v version =
     bindE (mapped (txq (LockSecuritySettings u))) (\<lambda>_.
     bindE (mapped (txq (GetUserByID u))) (\<lambda>user.
     if us_email_verified_at user = None then failE ErrEmailNotVerified
     else bindE (txq (save_query u v version)) (\<lambda>n.
       if n \<noteq> 1 then failE ErrSecurityConflict else retE ())))"

definition SaveSecurity :: "AuthenticationStore \<Rightarrow> string \<Rightarrow> SecurityState \<Rightarrow> int \<Rightarrow> unit iam_op" where
  "SaveSecurity st i v version =
     bindE (liftE (parse_id st i)) (\<lambda>u.
     if sec_Mode v = ''email'' then run_tx st (save_email_tx u v version)
     else bindE (query st (save_query u v version)) (\<lambda>n.
       if n \<noteq> 1 then failE ErrSecurityConflict else retE ()))"

definition challenge_id :: "(string \<Rightarrow> string) \<Rightarrow> string \<Rightarrow> string" where
  "challenge_id sha credential = ''challenge:'' @ hex_encode (sha credential)"

text \<open>The credential is recorded as used for ten minutes; any error of that is a refusal.\<close>

definition record_credential :: "(string \<Rightarrow> string) \<Rightarrow> int \<Rightarrow> string \<Rightarrow> unit iam_op" where
  "record_credential sha now credential =
     (if credential = [] then retE ()
      else bindE (txq PruneAuthenticationConsumptions) (\<lambda>_.
        mapErrE (\<lambda>_. ErrInvalidCode)
          (txq (InsertAuthenticationConsumption (challenge_id sha credential) (now + 10 * 60 * 1000000000)))))"

definition consume_tx :: "(string \<Rightarrow> string) \<Rightarrow> int \<Rightarrow> string \<Rightarrow> string \<Rightarrow> int \<Rightarrow> int \<Rightarrow> string \<Rightarrow> unit iam_op" where
  "consume_tx sha now u credential version step recovery =
     bindE (txq (LockSecuritySettings u)) (\<lambda>r.
     if ss_version r \<noteq> version \<or> byte_count (ss_totp_secret r) = 0 then failE ErrInvalidCode
     else bindE (record_credential sha now credential) (\<lambda>_.
     if recovery \<noteq> [] then
       (if (case ss_recovery_codes_expires_at r of None \<Rightarrow> True | Some e \<Rightarrow> \<not> e > now) then failE ErrInvalidCode
        else if recovery \<notin> set (ss_recovery_hashes r) then failE ErrInvalidCode
        else txq (SaveConsumedSecurityCredential u (ss_last_totp_step r) (filter (\<lambda>h. h \<noteq> recovery) (ss_recovery_hashes r))))
     else if step \<le> ss_last_totp_step r then failE ErrInvalidCode
     else txq (SaveConsumedSecurityCredential u step (ss_recovery_hashes r))))"

definition ConsumeCredential ::
    "AuthenticationStore \<Rightarrow> (string \<Rightarrow> string) \<Rightarrow> int \<Rightarrow> string \<Rightarrow> string \<Rightarrow> int \<Rightarrow> int \<Rightarrow> string \<Rightarrow> unit iam_op" where
  "ConsumeCredential st sha now i credential version step recovery =
     bindE (liftE (parse_id st i)) (\<lambda>u. run_tx st (consume_tx sha now u credential version step recovery))"

section \<open>Registration and verification of addresses\<close>

text \<open>An email receipt is used at most once; a duplicate is reported as an invalid code.\<close>

definition use_receipt :: "CodeReceipt \<Rightarrow> unit iam_op" where
  "use_receipt receipt =
     bindE (txq PruneAuthenticationConsumptions) (\<lambda>_.
     mapErrE (\<lambda>e. if mapDBError e = ErrDuplicateIdentity then ErrInvalidCode else e)
       (txq (InsertAuthenticationConsumption (''email:'' @ rec_ID receipt) (rec_ExpiresAt receipt))))"

definition domain_allowed :: "string list \<Rightarrow> string \<Rightarrow> bool" where
  "domain_allowed domains email = (domains = [] \<or> list_ex (\<lambda>d. has_suffix email (''@'' @ d)) domains)"

text \<open>The policy checks against the locked settings: the receipt to use, if any.\<close>

definition registration_policy :: "AuthenticationSettingRow \<Rightarrow> int \<Rightarrow> string \<Rightarrow> CodeReceipt option \<Rightarrow> iam_error + CodeReceipt option" where
  "registration_policy a now email receipt =
     (if as_initialized_at a = None \<or> \<not> as_registration_enabled a then Inl ErrAuthenticationForbidden
      else if as_registration_email_verification_required a \<and> receipt = None then Inl ErrEmailCodeRequired
      else if \<not> domain_allowed (as_allowed_email_domains a) email then Inl ErrAuthenticationForbidden
      else let r = (if as_registration_email_verification_required a then receipt else None) in
        case r of
          None \<Rightarrow> Inr None
        | Some c \<Rightarrow> if \<not> rec_ExpiresAt c > now then Inl ErrInvalidCode else Inr (Some c))"

definition create_registered :: "CreateUserInput \<Rightarrow> bool \<Rightarrow> User iam_op" where
  "create_registered input verified =
     bindE (mapped (txq (CreateUser (cu_Email input) (cu_Username input) (cu_Password input) (cu_DisplayName input)))) (\<lambda>created.
     bindE (if verified then txq (MarkEmailVerified (us_id created)) else retE created) (\<lambda>user.
     bindE (txq (GetRoleByName ''user'')) (\<lambda>role.
     bindE (txq (AssignUserRole (us_id user) (ro_id role))) (\<lambda>_.
     retE (userFromDB user)))))"

definition register_tx :: "int \<Rightarrow> CreateUserInput \<Rightarrow> CodeReceipt option \<Rightarrow> User iam_op" where
  "register_tx now input receipt =
     bindE (txq LockAuthenticationSettings) (\<lambda>a.
     bindE (liftE (registration_policy a now (cu_Email input) receipt)) (\<lambda>r.
     bindE (case r of None \<Rightarrow> retE () | Some c \<Rightarrow> use_receipt c) (\<lambda>_.
     create_registered input (r \<noteq> None))))"

definition Register_user :: "AuthenticationStore \<Rightarrow> int \<Rightarrow> CreateUserInput \<Rightarrow> CodeReceipt option \<Rightarrow> User iam_op" where
  "Register_user st now input receipt = run_tx st (register_tx now input receipt)"

definition lock_user :: "string \<Rightarrow> string iam_query" where
  "lock_user u s = (case GetUserByID u s of Inl e \<Rightarrow> Inl e | Inr (row, t) \<Rightarrow> Inr (us_id row, t))"

definition verify_email_tx :: "int \<Rightarrow> string \<Rightarrow> string \<Rightarrow> CodeReceipt \<Rightarrow> User iam_op" where
  "verify_email_tx now u email receipt =
     bindE (txq (EnsureSecuritySettings u)) (\<lambda>_.
     bindE (mapped (txq (LockSecuritySettings u))) (\<lambda>_.
     bindE (mapped (txq (lock_user u))) (\<lambda>_.
     bindE (mapped (txq (GetUserByID u))) (\<lambda>user.
     if \<not> us_is_active user then failE ErrInactiveUser
     else if us_email user \<noteq> email then failE ErrSecurityConflict
     else if rec_ID receipt = [] \<or> \<not> rec_ExpiresAt receipt > now then failE ErrInvalidCode
     else bindE (use_receipt receipt) (\<lambda>_.
       bindE (txq (MarkEmailVerified u)) (\<lambda>row. retE (userFromDB row)))))))"

definition VerifyEmail :: "AuthenticationStore \<Rightarrow> int \<Rightarrow> string \<Rightarrow> string \<Rightarrow> CodeReceipt \<Rightarrow> User iam_op" where
  "VerifyEmail st now i email receipt =
     bindE (liftE (parse_id st i)) (\<lambda>u. run_tx st (verify_email_tx now u email receipt))"

end
