(* ===== verification/Iam_Contract.thy ===== *)
theory Iam_Contract
  imports Auth_Store
begin

text \<open>
  The contract of the identity tables: the integrity that every query keeps, and how the tables may
  change over time (\<open>iam_le\<close>). Every operation of \<open>Iam_Store\<close> and \<open>Auth_Store\<close> respects it,
  whatever the fate of its statements and whatever other processes that respect it do in between.
\<close>

section \<open>Integrity\<close>

definition verified :: "iam_db \<Rightarrow> string \<Rightarrow> bool" where
  "verified s i \<longleftrightarrow> (\<exists>u \<in> set (users s). us_id u = i \<and> us_email_verified_at u \<noteq> None)"

definition users_ok :: "iam_db \<Rightarrow> bool" where
  "users_ok s \<longleftrightarrow> distinct (map us_id (users s)) \<and> distinct (map us_email (users s)) \<and> distinct (map us_username (users s))"

definition roles_ok :: "iam_db \<Rightarrow> bool" where
  "roles_ok s \<longleftrightarrow> distinct (map ro_id (roles s)) \<and> distinct (map ro_name (roles s)) \<and>
     fst ` set (user_roles s) \<subseteq> us_id ` set (users s) \<and> snd ` set (user_roles s) \<subseteq> ro_id ` set (roles s) \<and>
     fst ` set (role_permissions s) \<subseteq> ro_id ` set (roles s) \<and> snd ` set (role_permissions s) \<subseteq> pe_id ` set (permissions s)"

text \<open>Second factors belong to users, and email codes as second factor need a verified address.\<close>

definition security_ok :: "iam_db \<Rightarrow> bool" where
  "security_ok s \<longleftrightarrow> distinct (map ss_user_id (security s)) \<and> ss_user_id ` set (security s) \<subseteq> us_id ` set (users s) \<and>
     (\<forall>x \<in> set (security s). valid_mode (ss_mode x) (ss_totp_secret x)) \<and>
     (\<forall>x \<in> set (security s). ss_mode x = ''email'' \<longrightarrow> verified s (ss_user_id x))"

definition iam_inv :: "iam_db \<Rightarrow> bool" where
  "iam_inv s \<longleftrightarrow> users_ok s \<and> roles_ok s \<and> security_ok s \<and> distinct (map fst (consumptions s))"

section \<open>Evolution\<close>

definition active_admins :: "iam_db \<Rightarrow> string set" where
  "active_admins s = us_id ` {u \<in> set (users s). us_is_active u \<and>
     (\<exists>r \<in> set (roles s). is_admin_role r \<and> (us_id u, ro_id r) \<in> set (user_roles s))}"

definition system_roles :: "iam_db \<Rightarrow> (string \<times> string) set" where
  "system_roles s = (\<lambda>r. (ro_id r, ro_name r)) ` {r \<in> set (roles s). ro_is_system r}"

definition role_grants :: "iam_db \<Rightarrow> string \<Rightarrow> string set" where
  "role_grants s i = {p. (i, p) \<in> set (role_permissions s)}"

definition users_le :: "iam_db \<Rightarrow> iam_db \<Rightarrow> bool" where
  "users_le s t \<longleftrightarrow> us_id ` set (users s) \<subseteq> us_id ` set (users t) \<and> (active_admins s \<noteq> {} \<longrightarrow> active_admins t \<noteq> {})"

definition roles_le :: "iam_db \<Rightarrow> iam_db \<Rightarrow> bool" where
  "roles_le s t \<longleftrightarrow> system_roles t = system_roles s \<and> (\<forall>x \<in> system_roles s. role_grants t (fst x) = role_grants s (fst x))"

text \<open>A row of second factors changes only with its version.\<close>

definition factor_le :: "UserSecuritySettingRow \<Rightarrow> UserSecuritySettingRow \<Rightarrow> bool" where
  "factor_le x y \<longleftrightarrow> ss_user_id y = ss_user_id x \<and> (y = x \<or> ss_version x < ss_version y)"

definition security_le :: "iam_db \<Rightarrow> iam_db \<Rightarrow> bool" where
  "security_le s t \<longleftrightarrow> (\<forall>x \<in> set (security s). \<exists>y \<in> set (security t). factor_le x y)"

text \<open>A used credential is remembered until the database's clock has passed its expiry.\<close>

definition consumptions_le :: "iam_db \<Rightarrow> iam_db \<Rightarrow> bool" where
  "consumptions_le s t \<longleftrightarrow> db_clock t = db_clock s \<and>
     (\<forall>c \<in> set (consumptions s). c \<in> set (consumptions t) \<or> (\<exists>i. snd c < db_clock s i))"

text \<open>The installation stays initialised, by the administrator it was bound to.\<close>

definition setting_le :: "AuthenticationSettingRow \<Rightarrow> AuthenticationSettingRow \<Rightarrow> bool" where
  "setting_le a b \<longleftrightarrow> (as_initialized_at a \<noteq> None \<longrightarrow> as_initialized_at b = as_initialized_at a) \<and>
     (as_bootstrap_admin_user_id a \<noteq> None \<longrightarrow> as_bootstrap_admin_user_id b = as_bootstrap_admin_user_id a)"

definition iam_le :: "iam_db \<Rightarrow> iam_db \<Rightarrow> bool" where
  "iam_le s t \<longleftrightarrow> users_le s t \<and> roles_le s t \<and> security_le s t \<and> consumptions_le s t \<and>
     list_all2 setting_le (settings s) (settings t)"

lemma factor_le_refl [simp]: "factor_le x x"
  by (simp add: factor_le_def)

lemma factor_le_trans: "factor_le x y \<Longrightarrow> factor_le y z \<Longrightarrow> factor_le x z"
  by (auto simp: factor_le_def)

lemma setting_le_refl [simp]: "setting_le a a"
  by (simp add: setting_le_def)

lemma setting_le_trans: "setting_le a b \<Longrightarrow> setting_le b c \<Longrightarrow> setting_le a c"
  by (auto simp: setting_le_def)

lemma settings_refl [simp]: "list_all2 setting_le xs xs"
  by (simp add: list_all2_refl)

lemma security_le_refl [simp]: "security_le s s"
  by (auto simp: security_le_def intro: factor_le_refl)

lemma iam_le_refl [simp]: "iam_le s s"
  by (simp add: iam_le_def users_le_def roles_le_def consumptions_le_def)

lemma iam_le_trans: "iam_le s t \<Longrightarrow> iam_le t u \<Longrightarrow> iam_le s u"
proof -
  assume st: "iam_le s t" and tu: "iam_le t u"
  have "users_le s u" using st tu by (auto simp: iam_le_def users_le_def)
  moreover have "roles_le s u" using st tu by (simp add: iam_le_def roles_le_def)
  moreover have "security_le s u" using st tu unfolding iam_le_def security_le_def by (meson factor_le_trans)
  moreover have "consumptions_le s u" unfolding consumptions_le_def
  proof (intro conjI ballI)
    fix c
    assume "c \<in> set (consumptions s)"
    then consider "c \<in> set (consumptions t)" | "\<exists>i. snd c < db_clock s i"
      using st by (auto simp: iam_le_def consumptions_le_def)
    then show "c \<in> set (consumptions u) \<or> (\<exists>i. snd c < db_clock s i)"
      using st tu by cases (auto simp: iam_le_def consumptions_le_def)
  qed (use st tu in \<open>simp add: iam_le_def consumptions_le_def\<close>)
  moreover have "list_all2 setting_le (settings s) (settings u)"
  proof (rule list_all2_trans [of setting_le setting_le setting_le])
    show "list_all2 setting_le (settings s) (settings t)" "list_all2 setting_le (settings t) (settings u)"
      using st tu by (simp_all add: iam_le_def)
  qed (rule setting_le_trans)
  ultimately show ?thesis by (simp add: iam_le_def)
qed

lemma iam_calls:
  "iam_inv (s\<lparr>db_calls := n\<rparr>) = iam_inv s" "active_admins (s\<lparr>db_calls := n\<rparr>) = active_admins s"
  "system_roles (s\<lparr>db_calls := n\<rparr>) = system_roles s" "role_grants (s\<lparr>db_calls := n\<rparr>) = role_grants s"
  "iam_le s (s\<lparr>db_calls := n\<rparr>)"
  by (auto simp: iam_inv_def users_ok_def roles_ok_def security_ok_def verified_def active_admins_def system_roles_def
      role_grants_def iam_le_def users_le_def roles_le_def consumptions_le_def security_le_def fun_eq_iff intro: factor_le_refl)

interpretation iam: db_contract iam_inv iam_le
  by unfold_locales (use iam_le_trans in \<open>auto simp: iam_calls\<close>)

lemma iam_next_call [simp]:
  "iam_inv (next_call s) = iam_inv s" "active_admins (next_call s) = active_admins s"
  "system_roles (next_call s) = system_roles s" "role_grants (next_call s) = role_grants s" "iam_le s (next_call s)"
  "users (next_call s) = users s" "roles (next_call s) = roles s" "permissions (next_call s) = permissions s"
  "user_roles (next_call s) = user_roles s" "role_permissions (next_call s) = role_permissions s"
  "security (next_call s) = security s" "consumptions (next_call s) = consumptions s" "settings (next_call s) = settings s"
  "db_clock (next_call s) = db_clock s"
  by (simp_all add: next_call_def iam_calls)

abbreviation iam_keeps :: "'a iam_query \<Rightarrow> bool" where
  "iam_keeps \<equiv> keeps_by iam_inv iam_le"

abbreviation iam_rely :: "iam_env \<Rightarrow> bool" where
  "iam_rely \<equiv> rely_by iam_inv iam_le"

abbreviation iam_guar :: "(iam_db, 'e, 'a) op \<Rightarrow> bool" where
  "iam_guar \<equiv> guar_by iam_inv iam_le"

section \<open>Queries\<close>

lemma in_active_admins:
  "i \<in> active_admins s \<longleftrightarrow> (\<exists>u \<in> set (users s). us_id u = i \<and> us_is_active u) \<and>
     (\<exists>r \<in> set (roles s). is_admin_role r \<and> (i, ro_id r) \<in> set (user_roles s))"
  by (auto simp: active_admins_def)

text \<open>A statement that rewrites users in place.\<close>

lemma users_update:
  fixes f :: "UserRow \<Rightarrow> UserRow"
  defines "t s \<equiv> s\<lparr>users := map f (users s)\<rparr>"
  assumes "iam_inv s" and id: "\<And>u. us_id (f u) = us_id u"
    and "distinct (map us_email (map f (users s)))" and "distinct (map us_username (map f (users s)))"
    and ver: "\<And>u x. u \<in> set (users s) \<Longrightarrow> x \<in> set (security s) \<Longrightarrow> ss_user_id x = us_id u \<Longrightarrow> ss_mode x = ''email'' \<Longrightarrow>
      us_email_verified_at u \<noteq> None \<Longrightarrow> us_email_verified_at (f u) \<noteq> None"
    and "active_admins s \<noteq> {} \<Longrightarrow> active_admins (t s) \<noteq> {}"
  shows "iam_le s (t s) \<and> iam_inv (t s)"
proof
  have ids: "map us_id (map f (users s)) = map us_id (users s)" by (simp add: id)
  have idset: "us_id ` f ` set (users s) = us_id ` set (users s)" by (simp add: image_image id)
  have "verified (t s) (ss_user_id x)" if "x \<in> set (security s)" "ss_mode x = ''email''" for x
  proof -
    have "verified s (ss_user_id x)" using assms(2) that by (simp add: iam_inv_def security_ok_def)
    then obtain u where u: "u \<in> set (users s)" "us_id u = ss_user_id x" "us_email_verified_at u \<noteq> None"
      unfolding verified_def by blast
    then have "us_email_verified_at (f u) \<noteq> None" using ver that by metis
    with u show ?thesis unfolding verified_def t_def by (intro bexI [of _ "f u"]) (simp_all add: id)
  qed
  with assms(2,4,5) ids idset show "iam_inv (t s)"
    by (simp add: iam_inv_def users_ok_def roles_ok_def security_ok_def t_def del: map_map)
  show "iam_le s (t s)" using assms(7) idset
    by (simp add: iam_le_def users_le_def roles_le_def consumptions_le_def security_le_def system_roles_def role_grants_def t_def)
      (auto intro: factor_le_refl)
qed

text \<open>One that leaves the identities alone and neither deactivates nor unverifies anybody.\<close>

lemma users_grow:
  assumes inv: "iam_inv s" and "\<And>u. us_id (f u) = us_id u \<and> us_email (f u) = us_email u \<and> us_username (f u) = us_username u"
    and "\<And>u. us_is_active u \<Longrightarrow> us_is_active (f u)"
    and "\<And>u. us_email_verified_at u \<noteq> None \<Longrightarrow> us_email_verified_at (f u) \<noteq> None"
  shows "iam_le s (s\<lparr>users := map f (users s)\<rparr>) \<and> iam_inv (s\<lparr>users := map f (users s)\<rparr>)"
proof (rule users_update [OF inv])
  have "active_admins s \<subseteq> active_admins (s\<lparr>users := map f (users s)\<rparr>)"
    using assms(2,3) by (auto simp: in_active_admins) blast
  then show "active_admins s \<noteq> {} \<Longrightarrow> active_admins (s\<lparr>users := map f (users s)\<rparr>) \<noteq> {}" by blast
  show "distinct (map us_email (map f (users s)))" "distinct (map us_username (map f (users s)))"
    using inv assms(2) by (simp_all add: iam_inv_def users_ok_def comp_def)
qed (use assms in auto)

lemma keeps_CreateUser: "iam_keeps (CreateUser e n p d)"
  unfolding keeps_by_def
proof (intro allI impI)
  fix s x t
  assume inv: "iam_inv s" and q: "CreateUser e n p d s = Inr (x, t)"
  then have t: "t = s\<lparr>users := users s @ [x]\<rparr>" and x: "us_id x \<notin> us_id ` set (users s)"
    "us_email x \<notin> us_email ` set (users s)" "us_username x \<notin> us_username ` set (users s)"
    by (auto simp: CreateUser_def Let_def split: if_splits)
  have adm: "active_admins s \<subseteq> active_admins t" by (auto simp: t active_admins_def)
  have "verified t i" if "verified s i" for i using that by (auto simp: verified_def t)
  with inv x have "iam_inv t" by (auto simp: iam_inv_def users_ok_def roles_ok_def security_ok_def t)
  moreover have "iam_le s t" using adm
    by (auto simp: iam_le_def users_le_def roles_le_def consumptions_le_def security_le_def system_roles_def role_grants_def t
        intro: factor_le_refl)
  ultimately show "iam_le s t \<and> iam_inv t" by simp
qed

lemma keeps_Activate: "iam_keeps (SetUserActive i True)"
  unfolding keeps_by_def SetUserActive_def using users_grow by auto

lemma keeps_Password: "iam_keeps (UpdateUserPassword i h)"
  unfolding keeps_by_def UpdateUserPassword_def using users_grow by (auto split: if_splits)

lemma keeps_MarkVerified: "iam_keeps (MarkEmailVerified i)"
  unfolding keeps_by_def MarkEmailVerified_def Let_def using users_grow by (auto split: option.splits)

text \<open>The contract only depends on some of the tables.\<close>

lemma iam_frame:
  assumes "users t = users s" "roles t = roles s" "permissions t = permissions s" "user_roles t = user_roles s"
    "role_permissions t = role_permissions s"
  shows "security t = security s \<Longrightarrow> consumptions t = consumptions s \<Longrightarrow> iam_inv t = iam_inv s"
    and "distinct (map fst (consumptions t)) \<Longrightarrow> security t = security s \<Longrightarrow> iam_inv s \<Longrightarrow> iam_inv t"
    and "security_le s t \<Longrightarrow> consumptions_le s t \<Longrightarrow> list_all2 setting_le (settings s) (settings t) \<Longrightarrow> iam_le s t"
  using assms
  by (simp_all add: iam_inv_def users_ok_def roles_ok_def security_ok_def verified_def active_admins_def system_roles_def
      role_grants_def iam_le_def users_le_def roles_le_def)

definition reads :: "'a iam_query \<Rightarrow> bool" where
  "reads q \<longleftrightarrow> (\<forall>s x t. q s = Inr (x, t) \<longrightarrow> t = s)"

lemma reads_keeps: "reads q \<Longrightarrow> iam_keeps q"
  by (metis reads_def keeps_by_def iam_le_refl)

lemma one_Inr [simp]: "one P xs s = Inr (x, t) \<longleftrightarrow> find P xs = Some x \<and> t = s"
  by (auto simp: one_def split: option.split)

lemma keeps_reads:
  "iam_keeps (GetUserByEmail e)" "iam_keeps (GetUserByID i)" "iam_keeps (ListUsers a b c d)" "iam_keeps (CountUsers a b)"
  "iam_keeps (GetRoleByID i)" "iam_keeps (GetRoleByName n)" "iam_keeps LockSystemAdminRole" "iam_keeps (GetPermissionByID i)"
  "iam_keeps ListRoles" "iam_keeps (ListRolesForUser i)" "iam_keeps ListPermissions" "iam_keeps (ListRolePermissions i)"
  "iam_keeps (ListUserPermissions i)" "iam_keeps LockActiveSystemAdministratorIDs" "iam_keeps (GetUserPreferences i)"
  "iam_keeps GetAuthenticationSettings" "iam_keeps LockAuthenticationSettings" "iam_keeps (GetSecuritySettings i)"
  "iam_keeps (LockSecuritySettings i)" "iam_keeps (lock_user i)"
  by (rule reads_keeps; simp add: reads_def GetUserByEmail_def GetUserByID_def ListUsers_def CountUsers_def GetRoleByID_def
      GetRoleByName_def LockSystemAdminRole_def GetPermissionByID_def ListRoles_def ListRolesForUser_def ListPermissions_def
      ListRolePermissions_def ListUserPermissions_def LockActiveSystemAdministratorIDs_def GetUserPreferences_def
      GetAuthenticationSettings_def LockAuthenticationSettings_def GetSecuritySettings_def LockSecuritySettings_def lock_user_def
      split: sum.split)+

text \<open>Tables without obligations, used credentials and second factors.\<close>

lemma keeps_Preferences: "iam_keeps (UpsertUserPreferences i a b c d e)"
proof -
  have "iam_le s (s\<lparr>preferences := ps\<rparr>) \<and> iam_inv (s\<lparr>preferences := ps\<rparr>)" if "iam_inv s" for s ps
    using that iam_frame(1,3) [of "s\<lparr>preferences := ps\<rparr>" s] by (simp add: security_le_def consumptions_le_def) (metis factor_le_refl)
  then show ?thesis by (auto simp: keeps_by_def UpsertUserPreferences_def split: if_splits option.splits)
qed

lemma settings_update:
  assumes "iam_inv s" and "\<And>a. setting_le a (f a)"
  shows "iam_le s (s\<lparr>settings := map f (settings s)\<rparr>) \<and> iam_inv (s\<lparr>settings := map f (settings s)\<rparr>)"
proof
  let ?t = "s\<lparr>settings := map f (settings s)\<rparr>"
  show "iam_inv ?t" using iam_frame(1) [of ?t s] assms(1) by simp
  have "security_le s ?t" by (auto simp: security_le_def intro: factor_le_refl)
  then show "iam_le s ?t"
    by (rule iam_frame(3) [rotated 5]) (use assms(2) in \<open>simp_all add: consumptions_le_def list_all2_map2 list_all2_same\<close>)
qed

lemma keeps_Settings: "iam_keeps (PutAuthenticationSettings a b c d)" "iam_keeps (InitializeAuthentication i)"
  unfolding keeps_by_def PutAuthenticationSettings_def InitializeAuthentication_def
  by (auto intro!: settings_update [THEN conjunct1] settings_update [THEN conjunct2] simp: setting_le_def)

lemma consumptions_update:
  assumes "iam_inv s" and "distinct (map fst cs)" and "\<And>c. c \<in> set (consumptions s) \<Longrightarrow> c \<in> set cs \<or> (\<exists>i. snd c < db_clock s i)"
  shows "iam_le s (s\<lparr>consumptions := cs\<rparr>) \<and> iam_inv (s\<lparr>consumptions := cs\<rparr>)"
proof
  let ?t = "s\<lparr>consumptions := cs\<rparr>"
  show "iam_inv ?t" using iam_frame(2) [of ?t s] assms(1,2) by simp
  have "security_le s ?t" by (auto simp: security_le_def intro: factor_le_refl)
  then show "iam_le s ?t"
    by (rule iam_frame(3) [rotated 5]) (use assms(3) in \<open>simp_all add: consumptions_le_def\<close>)
qed

lemma keeps_Consumptions: "iam_keeps PruneAuthenticationConsumptions" "iam_keeps (InsertAuthenticationConsumption c e)"
proof -
  have inv: "distinct (map fst (consumptions s))" if "iam_inv s" for s using that by (simp add: iam_inv_def)
  show "iam_keeps PruneAuthenticationConsumptions" unfolding keeps_by_def
  proof (intro allI impI)
    fix s x t
    assume s: "iam_inv s" and q: "PruneAuthenticationConsumptions s = Inr (x, t)"
    have t: "t = s\<lparr>consumptions := filter (\<lambda>c. \<not> snd c < sql_now s) (consumptions s)\<rparr>"
      using q by (simp add: PruneAuthenticationConsumptions_def)
    show "iam_le s t \<and> iam_inv t" unfolding t
      by (rule consumptions_update [OF s]) (use inv [OF s] in \<open>auto simp: sql_now_def distinct_map_filter\<close>)
  qed
  show "iam_keeps (InsertAuthenticationConsumption c e)" unfolding keeps_by_def
  proof (intro allI impI)
    fix s x t
    assume s: "iam_inv s" and q: "InsertAuthenticationConsumption c e s = Inr (x, t)"
    have t: "t = s\<lparr>consumptions := consumptions s @ [(c, e)]\<rparr>" and new: "c \<notin> fst ` set (consumptions s)"
      using q by (auto simp: InsertAuthenticationConsumption_def split: if_splits)
    show "iam_le s t \<and> iam_inv t" unfolding t
      by (rule consumptions_update [OF s]) (use inv [OF s] new in auto)
  qed
qed

lemma security_update:
  assumes inv: "iam_inv s"
    and f: "\<And>x. x \<in> set (security s) \<Longrightarrow> P x \<Longrightarrow> ss_user_id (f x) = ss_user_id x \<and> ss_version x < ss_version (f x) \<and>
      valid_mode (ss_mode (f x)) (ss_totp_secret (f x)) \<and> (ss_mode (f x) = ''email'' \<longrightarrow> verified s (ss_user_id x))"
  shows "iam_le s (map_security P f s) \<and> iam_inv (map_security P f s)"
proof
  let ?g = "\<lambda>x. if P x then f x else x"
  let ?t = "map_security P f s"
  have t: "security ?t = map ?g (security s)" by (simp add: map_security_def)
  have g: "ss_user_id (?g x) = ss_user_id x" "factor_le x (?g x)" if "x \<in> set (security s)" for x
    using f [OF that] by (auto simp: factor_le_def)
  have ids: "map ss_user_id (map ?g (security s)) = map ss_user_id (security s)" using g(1) by simp
  then have idset: "ss_user_id ` set (map ?g (security s)) = ss_user_id ` set (security s)" by (metis set_map)
  have v: "verified ?t i = verified s i" for i by (simp add: verified_def map_security_def)
  have ok: "valid_mode (ss_mode y) (ss_totp_secret y) \<and> (ss_mode y = ''email'' \<longrightarrow> verified s (ss_user_id y))"
    if "y \<in> set (map ?g (security s))" for y
  proof -
    from that have "y \<in> ?g ` set (security s)" unfolding set_map .
    then obtain x where "x \<in> set (security s)" "y = ?g x" by blast
    then show ?thesis using inv f [of x] by (simp add: iam_inv_def security_ok_def)
  qed
  have us: "users ?t = users s" by (simp add: map_security_def)
  have "security_ok ?t" using inv ok unfolding security_ok_def t ids idset us v iam_inv_def by blast
  moreover have "users_ok ?t" "roles_ok ?t" "distinct (map fst (consumptions ?t))"
    using inv by (simp_all add: iam_inv_def users_ok_def roles_ok_def map_security_def)
  ultimately show "iam_inv ?t" by (simp add: iam_inv_def)
  have "security_le s ?t" unfolding security_le_def t set_map using g(2) by blast
  then show "iam_le s ?t"
    by (rule iam_frame(3) [rotated 5]) (simp_all add: consumptions_le_def map_security_def)
qed

lemma bump_fields [simp]:
  "ss_user_id (bump x) = ss_user_id x" "ss_version (bump x) = ss_version x + 1" "ss_mode (bump x) = ss_mode x"
  "ss_totp_secret (bump x) = ss_totp_secret x" "ss_last_totp_step (bump x) = ss_last_totp_step x"
  "ss_recovery_hashes (bump x) = ss_recovery_hashes x" "ss_pending_secret (bump x) = ss_pending_secret x"
  "ss_recovery_codes_expires_at (bump x) = ss_recovery_codes_expires_at x"
  by (simp_all add: bump_def)

lemma security_modes:
  assumes "iam_inv s" and "x \<in> set (security s)"
  shows "valid_mode (ss_mode x) (ss_totp_secret x)" and "ss_mode x = ''email'' \<Longrightarrow> verified s (ss_user_id x)"
  using assms by (auto simp: iam_inv_def security_ok_def)

lemma keeps_Invalidate: "iam_keeps (InvalidatePasswordCredentials i)"
  unfolding keeps_by_def
proof (intro allI impI)
  fix s x t
  assume s: "iam_inv s" and q: "InvalidatePasswordCredentials i s = Inr (x, t)"
  then have t: "t = map_security (\<lambda>x. ss_user_id x = i) (\<lambda>x. bump (x\<lparr>ss_pending_secret := None, ss_pending_expires_at := None\<rparr>)) s"
    by (simp add: InvalidatePasswordCredentials_def Let_def split: if_splits)
  show "iam_le s t \<and> iam_inv t" unfolding t by (rule security_update [OF s]) (use security_modes [OF s] in auto)
qed

lemma keeps_SaveConsumed: "iam_keeps (SaveConsumedSecurityCredential i st hs)"
  unfolding keeps_by_def
proof (intro allI impI)
  fix s x t
  assume s: "iam_inv s" and q: "SaveConsumedSecurityCredential i st hs s = Inr (x, t)"
  then have t: "t = map_security (\<lambda>x. ss_user_id x = i) (\<lambda>x. bump (x\<lparr>ss_last_totp_step := st, ss_recovery_hashes := hs\<rparr>)) s"
    by (simp add: SaveConsumedSecurityCredential_def Let_def split: if_splits)
  show "iam_le s t \<and> iam_inv t" unfolding t by (rule security_update [OF s]) (use security_modes [OF s] in auto)
qed

lemma save_keeps:
  assumes s: "iam_inv s" and q: "save_query u v version s = Inr (n, t)" and "sec_Mode v = ''email'' \<Longrightarrow> verified s u"
  shows "iam_le s t \<and> iam_inv t"
proof -
  let ?P = "\<lambda>x. ss_user_id x = u \<and> ss_version x = version"
  let ?f = "\<lambda>x. bump (x\<lparr>ss_mode := sec_Mode v, ss_totp_secret := sec_Secret v, ss_pending_secret := sec_PendingSecret v,
          ss_pending_expires_at := sec_PendingExpiresAt v, ss_last_totp_step := sec_LastTOTPStep v,
          ss_recovery_hashes := sec_RecoveryHashes v, ss_recovery_codes_expires_at := sec_RecoveryCodesExpiresAt v\<rparr>)"
  have t: "t = map_security ?P ?f s" and ok: "\<not> ((\<exists>x \<in> set (security s). ?P x) \<and> \<not> valid_mode (sec_Mode v) (sec_Secret v))"
    using q by (simp_all add: save_query_def SaveSecuritySettings_def Let_def split: if_splits)
  show ?thesis unfolding t using assms(3) ok by (intro security_update [OF s]) (simp, blast)
qed

lemma keeps_Ensure: "iam_keeps (EnsureSecuritySettings i)"
  unfolding keeps_by_def
proof (intro allI impI)
  fix s x t
  assume s: "iam_inv s" and q: "EnsureSecuritySettings i s = Inr (x, t)"
  let ?new = "i \<notin> ss_user_id ` set (security s)"
  have t: "t = (if ?new then s\<lparr>security := security s @ [new_security i]\<rparr> else s)" and u: "?new \<Longrightarrow> i \<in> us_id ` set (users s)"
    using q by (simp_all add: EnsureSecuritySettings_def split: if_splits)
  show "iam_le s t \<and> iam_inv t"
  proof (cases ?new)
    case True
    then have 2: "t = s\<lparr>security := security s @ [new_security i]\<rparr>" using t by simp
    have "security_ok t" using s True u [OF True] by (simp add: 2 iam_inv_def security_ok_def new_security_def valid_mode_def verified_def)
    moreover have "users_ok t" "roles_ok t" "distinct (map fst (consumptions t))"
      using s by (simp_all add: 2 iam_inv_def users_ok_def roles_ok_def)
    moreover have "security_le s t" by (auto simp: 2 security_le_def intro: factor_le_refl)
    then have "iam_le s t" by (rule iam_frame(3) [rotated 5]) (simp_all add: 2 consumptions_le_def)
    ultimately show ?thesis by (simp add: iam_inv_def)
  qed (simp add: s t)
qed

text \<open>Assignments and grants.\<close>

lemma roles_frame:
  assumes "users t = users s" "permissions t = permissions s" "security t = security s" "consumptions t = consumptions s"
    "settings t = settings s" "db_clock t = db_clock s"
    and "iam_inv s" "roles_ok t" "roles_le s t" "active_admins s \<noteq> {} \<Longrightarrow> active_admins t \<noteq> {}"
  shows "iam_le s t \<and> iam_inv t"
proof -
  have "security_le s t" using assms(3) by (auto simp: security_le_def intro: factor_le_refl)
  with assms show ?thesis
    by (simp add: iam_le_def iam_inv_def users_le_def consumptions_le_def users_ok_def security_ok_def verified_def)
qed

lemma roles_okD:
  assumes "iam_inv s"
  shows "distinct (map ro_id (roles s))" "distinct (map ro_name (roles s))" "(u, r) \<in> set (user_roles s) \<Longrightarrow> u \<in> us_id ` set (users s)"
    "(u, r) \<in> set (user_roles s) \<Longrightarrow> r \<in> ro_id ` set (roles s)" "(i, p) \<in> set (role_permissions s) \<Longrightarrow> i \<in> ro_id ` set (roles s)"
proof -
  have ok: "roles_ok s" using assms by (simp add: iam_inv_def)
  show "distinct (map ro_id (roles s))" "distinct (map ro_name (roles s))" using ok by (simp_all add: roles_ok_def)
  show "(u, r) \<in> set (user_roles s) \<Longrightarrow> u \<in> us_id ` set (users s)" "(u, r) \<in> set (user_roles s) \<Longrightarrow> r \<in> ro_id ` set (roles s)"
    "(i, p) \<in> set (role_permissions s) \<Longrightarrow> i \<in> ro_id ` set (roles s)"
    using ok imageI [of "(u, r)" "set (user_roles s)" fst] imageI [of "(u, r)" "set (user_roles s)" snd]
      imageI [of "(i, p)" "set (role_permissions s)" fst] unfolding roles_ok_def fst_conv snd_conv by blast+
qed

lemma keeps_Assign: "iam_keeps (AssignUserRole u r)"
  unfolding keeps_by_def
proof (intro allI impI)
  fix s x t
  assume s: "iam_inv s" and q: "AssignUserRole u r s = Inr (x, t)"
  let ?new = "(u, r) \<notin> set (user_roles s)"
  have t: "t = (if ?new then s\<lparr>user_roles := user_roles s @ [(u, r)]\<rparr> else s)"
    and new: "?new \<Longrightarrow> u \<in> us_id ` set (users s) \<and> r \<in> ro_id ` set (roles s)"
    using q by (simp_all add: AssignUserRole_def split: if_splits)
  show "iam_le s t \<and> iam_inv t"
  proof (cases ?new)
    case True
    then have t: "t = s\<lparr>user_roles := user_roles s @ [(u, r)]\<rparr>" using t by simp
    have "active_admins s \<subseteq> active_admins t" by (auto simp: in_active_admins t)
    then show ?thesis using s new [OF True]
      by (intro roles_frame) (auto simp: t iam_inv_def roles_ok_def roles_le_def system_roles_def role_grants_def)
  qed (simp add: s t)
qed

lemma keeps_CreateRole: "iam_keeps (CreateRole n d)"
  unfolding keeps_by_def
proof (intro allI impI)
  fix s x t
  assume s: "iam_inv s" and q: "CreateRole n d s = Inr (x, t)"
  have t: "t = s\<lparr>roles := roles s @ [x]\<rparr>" and x: "ro_id x \<notin> ro_id ` set (roles s)" "ro_name x \<notin> ro_name ` set (roles s)" "\<not> ro_is_system x"
    using q by (simp_all add: CreateRole_def Let_def split: if_splits) auto
  have sys: "system_roles t = system_roles s" using x(3) by (auto simp: t system_roles_def)
  have "active_admins s \<subseteq> active_admins t" by (auto simp: in_active_admins t)
  then show "iam_le s t \<and> iam_inv t" using s x(1,2) sys
    by (intro roles_frame) (auto simp: t iam_inv_def roles_ok_def roles_le_def role_grants_def)
qed

text \<open>What the store checks before it touches a role, and what other processes cannot change.\<close>

definition ordinary_role :: "string \<Rightarrow> iam_db \<Rightarrow> bool" where
  "ordinary_role i s \<longleftrightarrow> i \<notin> fst ` system_roles s"

definition may_name :: "string \<Rightarrow> string \<Rightarrow> iam_db \<Rightarrow> bool" where
  "may_name i n s \<longleftrightarrow> (\<forall>m. (i, m) \<in> system_roles s \<longrightarrow> m = n)"

lemma role_checks_stable:
  "ordinary_role i s \<Longrightarrow> iam_le s t \<Longrightarrow> ordinary_role i t" "may_name i n s \<Longrightarrow> iam_le s t \<Longrightarrow> may_name i n t"
  by (simp_all add: ordinary_role_def may_name_def iam_le_def roles_le_def)

lemma ordinary_roleD: "ordinary_role i s \<Longrightarrow> r \<in> set (roles s) \<Longrightarrow> ro_id r = i \<Longrightarrow> \<not> ro_is_system r"
  by (force simp: ordinary_role_def system_roles_def)

lemma found_role:
  assumes "iam_inv s" and "find (\<lambda>r. ro_id r = i) (roles s) = Some x"
  shows "x \<in> set (roles s)" "ro_id x = i" "\<And>r. r \<in> set (roles s) \<Longrightarrow> ro_id r = i \<Longrightarrow> r = x"
proof -
  show x: "x \<in> set (roles s)" "ro_id x = i" using assms(2) by (auto simp: find_Some_iff)
  have "inj_on ro_id (set (roles s))" using roles_okD(1) [OF assms(1)] by (simp add: distinct_map)
  then show "r = x" if "r \<in> set (roles s)" "ro_id r = i" for r using that x by (auto dest: inj_onD)
qed

lemma found_role_checks:
  assumes "iam_inv s" and "find (\<lambda>r. ro_id r = i) (roles s) = Some x"
  shows "\<not> ro_is_system x \<Longrightarrow> ordinary_role i s" and "\<not> (ro_is_system x \<and> ro_name x \<noteq> n) \<Longrightarrow> may_name i n s"
  using found_role(3) [OF assms] by (auto simp: ordinary_role_def may_name_def system_roles_def)

lemma grant_keeps:
  assumes s: "iam_inv s" and P: "ordinary_role i s" and q: "GrantRolePermission i p s = Inr (x, t)"
  shows "iam_le s t \<and> iam_inv t"
proof -
  let ?new = "(i, p) \<notin> set (role_permissions s)"
  have t: "t = (if ?new then s\<lparr>role_permissions := role_permissions s @ [(i, p)]\<rparr> else s)"
    and new: "?new \<Longrightarrow> i \<in> ro_id ` set (roles s) \<and> p \<in> pe_id ` set (permissions s)"
    using q by (simp_all add: GrantRolePermission_def split: if_splits)
  show ?thesis
  proof (cases ?new)
    case True
    then have t: "t = s\<lparr>role_permissions := role_permissions s @ [(i, p)]\<rparr>" using t by simp
    have adm: "active_admins t = active_admins s" by (simp add: active_admins_def t)
    have sys: "system_roles t = system_roles s" by (simp add: system_roles_def t)
    have "roles_le s t" using P sys by (auto simp: roles_le_def role_grants_def t ordinary_role_def)
    moreover have "roles_ok t" using s new [OF True] by (simp add: t iam_inv_def roles_ok_def)
    ultimately show ?thesis using s adm by (intro roles_frame) (simp_all add: t)
  qed (simp add: s t)
qed

lemma update_role_keeps:
  assumes s: "iam_inv s" and P: "may_name i n s" and q: "UpdateRole i n d s = Inr (x, t)"
  shows "iam_le s t \<and> iam_inv t"
proof -
  define f :: "RoleRow \<Rightarrow> RoleRow" where "f = (\<lambda>q. if ro_id q = i then q\<lparr>ro_name := n, ro_description := d, ro_updated_at := sql_now s\<rparr> else q)"
  have find: "find (\<lambda>r. ro_id r = i) (roles s) \<noteq> None" using q by (cases "find (\<lambda>r. ro_id r = i) (roles s)") (simp_all add: UpdateRole_def)
  have t: "t = s\<lparr>roles := map f (roles s)\<rparr>" and other: "\<not> (\<exists>q \<in> set (roles s). ro_id q \<noteq> i \<and> ro_name q = n)"
    using q find by (auto simp: UpdateRole_def Let_def f_def split: if_splits)
  have id: "ro_id (f q) = ro_id q" "ro_is_system (f q) = ro_is_system q" for q by (simp_all add: f_def)
  have name: "ro_name (f q) = (if ro_id q = i then n else ro_name q)" for q by (simp add: f_def)
  have nm: "ro_name (f q) = ro_name q" if "q \<in> set (roles s)" "ro_is_system q" for q
  proof -
    have "(ro_id q, ro_name q) \<in> system_roles s" using that by (simp add: system_roles_def)
    then show ?thesis using P by (auto simp: may_name_def name)
  qed
  have "{r \<in> f ` set (roles s). ro_is_system r} = f ` {r \<in> set (roles s). ro_is_system r}" using id(2) by auto
  then have sys: "system_roles t = system_roles s" unfolding system_roles_def
    using id(1) nm by (simp add: t image_image)
  have "is_admin_role (f q)" if "q \<in> set (roles s)" "is_admin_role q" for q
    using that nm [of q] id(2) [of q] by (simp add: is_admin_role_def)
  then have adm: "active_admins s \<subseteq> active_admins t" using id(1) by (fastforce simp: in_active_admins t)
  have ids: "map ro_id (map f (roles s)) = map ro_id (roles s)" by (simp add: id)
  then have idset: "ro_id ` set (map f (roles s)) = ro_id ` set (roles s)" by (metis set_map)
  have "inj_on ro_id (set (roles s))" "inj_on ro_name (set (roles s))" using roles_okD(1,2) [OF s] by (simp_all add: distinct_map)
  then have "ro_name (f q) = ro_name (f r) \<Longrightarrow> q = r" if "q \<in> set (roles s)" "r \<in> set (roles s)" for q r
    using that other unfolding name by (auto split: if_splits dest: inj_onD)
  then have "distinct (map ro_name (map f (roles s)))"
    using roles_okD(1) [OF s] by (simp add: distinct_map inj_on_def)
  with ids idset have "roles_ok t" using s by (simp add: iam_inv_def roles_ok_def t del: map_map set_map)
  with adm sys show ?thesis
    by (intro roles_frame s) (auto simp: t roles_le_def role_grants_def)
qed

lemma delete_role_keeps:
  assumes s: "iam_inv s" and P: "ordinary_role i s" and q: "DeleteRole i s = Inr (x, t)"
  shows "iam_le s t \<and> iam_inv t"
proof -
  let ?t = "s\<lparr>roles := filter (\<lambda>r. ro_id r \<noteq> i) (roles s), user_roles := filter (\<lambda>x. snd x \<noteq> i) (user_roles s),
              role_permissions := filter (\<lambda>x. fst x \<noteq> i) (role_permissions s)\<rparr>"
  have "t = (if i \<in> ro_id ` set (roles s) then ?t else s)" using q by (simp add: DeleteRole_def)
  moreover have "iam_le s ?t \<and> iam_inv ?t"
  proof (rule roles_frame [OF _ _ _ _ _ _ s])
    note ord = ordinary_roleD [OF P]
    have sys: "system_roles ?t = system_roles s" using ord by (auto simp: system_roles_def)
    show "roles_le s ?t" unfolding roles_le_def sys using P by (auto simp: role_grants_def ordinary_role_def)
    have "active_admins s \<subseteq> active_admins ?t" using ord by (auto simp: in_active_admins is_admin_role_def) blast
    then show "active_admins s \<noteq> {} \<Longrightarrow> active_admins ?t \<noteq> {}" by blast
    have ok: "roles_ok s" using s by (simp add: iam_inv_def)
    then have "distinct (map ro_id (roles ?t))" "distinct (map ro_name (roles ?t))"
      by (simp_all add: roles_ok_def distinct_map_filter)
    then show "roles_ok ?t" using ok by (auto simp: roles_ok_def)
  qed simp_all
  ultimately show ?thesis using s by simp
qed

lemmas iam_query_keeps = keeps_reads keeps_CreateUser keeps_Activate keeps_Password keeps_MarkVerified keeps_Preferences
  keeps_Settings keeps_Consumptions keeps_Invalidate keeps_SaveConsumed keeps_Ensure keeps_Assign keeps_CreateRole

end
