(* ===== verification/Iam_Runs.thy ===== *)
theory Iam_Runs
  imports Iam_Contract
begin

text \<open>
  Every operation of the two identity stores respects the contract of \<open>Iam_Contract\<close>, and so does every
  run of them. On top of that: the last active administrator cannot be removed, system roles are
  protected, and the replacement of a user's roles or a role's permissions is exact.
\<close>

section \<open>Statements of a transaction\<close>

lemma txq_Inr:
  "txq q s = (Inr x, t) \<longleftrightarrow> db_fault s (db_calls s) = Delivered \<and> (\<exists>s'. q s = Inr (x, s') \<and> t = next_call s')"
  by (simp add: txq_def stmt_Inr no_interference_def)

lemma ensures_txq: "(\<And>s x t. P s \<Longrightarrow> q s = Inr (x, t) \<Longrightarrow> Q x (next_call t)) \<Longrightarrow> ensures P (txq q) Q"
  unfolding ensures_def txq_Inr by blast

lemma ensures_read: "reads q \<Longrightarrow> (\<And>s x. P s \<Longrightarrow> q s = Inr (x, s) \<Longrightarrow> Q x (next_call s)) \<Longrightarrow> ensures P (txq q) Q"
  unfolding ensures_def txq_Inr reads_def by blast

lemma commitsI: "(\<And>s. iam_inv s \<Longrightarrow> ensures (\<lambda>t. iam_le s t \<and> iam_inv t) m (\<lambda>_ t. iam_le s t \<and> iam_inv t)) \<Longrightarrow>
    commits_by iam_inv iam_le m"
  unfolding commits_by_def ensures_def using iam_le_refl by blast

text \<open>A statement of a transaction that keeps the contract, seen from its beginning.\<close>

lemma ensures_keeps:
  assumes "\<And>s x t. P s \<Longrightarrow> iam_inv s \<Longrightarrow> q s = Inr (x, t) \<Longrightarrow> iam_le s t \<and> iam_inv t"
  shows "ensures (\<lambda>t. iam_le s t \<and> iam_inv t \<and> P t) (txq q) (\<lambda>_ t. iam_le s t \<and> iam_inv t)"
proof (rule ensures_txq)
  fix r x t
  assume "iam_le s r \<and> iam_inv r \<and> P r" and "q r = Inr (x, t)"
  then show "iam_le s (next_call t) \<and> iam_inv (next_call t)" using assms iam_le_trans iam_next_call(1,5) by metis
qed

lemma reads_locks:
  "reads (GetUserByID i)" "reads LockSystemAdminRole" "reads LockActiveSystemAdministratorIDs" "reads (GetRoleByID i)"
  "reads (GetPermissionByID i)" "reads (LockSecuritySettings i)"
  by (simp_all add: reads_def GetUserByID_def LockSystemAdminRole_def LockActiveSystemAdministratorIDs_def GetRoleByID_def
      GetPermissionByID_def LockSecuritySettings_def)

lemma liftE_Inr [simp]: "liftE r s = (Inr x, t) \<longleftrightarrow> r = Inr x \<and> t = s"
  by (auto simp: liftE_def split: sum.split)

lemma guar_liftE: "iam_guar (liftE r)"
  by (cases r) (simp_all add: liftE_def iam.guar_failE iam.guar_retE)

lemma guar_query: "iam_rely (st_env st) \<Longrightarrow> iam_keeps q \<Longrightarrow> iam_guar (query st q)"
  unfolding query_def by (intro iam.guar_mapErrE iam.guar_stmt)

lemma guar_txq: "iam_keeps q \<Longrightarrow> iam_guar (txq q)"
  unfolding txq_def by (intro iam.guar_mapErrE iam.guar_stmt iam.rely_none)

lemma guar_run_tx: "iam_rely (st_env st) \<Longrightarrow> commits_by iam_inv iam_le fn \<Longrightarrow> iam_guar (run_tx st fn)"
  unfolding run_tx_def by (intro iam.guar_mapErrE iam.guar_RunInTx)

lemma guar_withTransaction: "iam_rely (st_env st) \<Longrightarrow> commits_by iam_inv iam_le fn \<Longrightarrow> iam_guar (withTransaction st fn)"
  unfolding withTransaction_def by (auto intro: iam.guar_mapErrE iam.guar_RunInTx iam.guar_failE)

lemma guar_forE: "(\<And>x. iam_guar (f x)) \<Longrightarrow> iam_guar (forE f xs)"
  unfolding forE_def by (intro iam.guar_bindE iam.guar_mapE iam.guar_retE)

lemmas iam_guar_rules = guar_liftE guar_query guar_txq guar_run_tx guar_withTransaction guar_forE iam.guar_retE iam.guar_failE
  iam.guar_bindE iam.guar_mapE iam.guar_mapErrE iam.guar_if iam.guar_option iam.guar_sum iam_query_keeps

section \<open>Administrators\<close>

lemma admin_ids:
  assumes "LockActiveSystemAdministratorIDs s = Inr (ids, t)"
  shows "set ids = active_admins s" and "iam_inv s \<Longrightarrow> distinct ids"
proof -
  have ids: "ids = map us_id (filter (\<lambda>u. us_is_active u \<and>
        (\<exists>r \<in> set (roles s). is_admin_role r \<and> (us_id u, ro_id r) \<in> set (user_roles s))) (users s))"
    using assms by (auto simp: LockActiveSystemAdministratorIDs_def)
  show "set ids = active_admins s" by (simp add: ids active_admins_def)
  assume "iam_inv s"
  then show "distinct ids" unfolding ids by (auto simp: iam_inv_def users_ok_def intro: distinct_map_filter)
qed

lemma uuidIn_iff [simp]: "uuidIn vs w \<longleftrightarrow> w \<in> set vs"
  by (auto simp: uuidIn_def list_ex_iff)

lemma other_admin:
  assumes "set ids = active_admins s" and "distinct ids" and "active_admins s \<noteq> {}" and "\<not> (uuidIn ids u \<and> length ids = 1)"
  shows "\<exists>v \<in> active_admins s. v \<noteq> u"
proof (rule ccontr)
  assume "\<not> (\<exists>v \<in> active_admins s. v \<noteq> u)"
  then have "active_admins s \<subseteq> {u}" by auto
  then have "active_admins s = {u}" using assms(3) by (simp add: subset_singleton_iff)
  then have "set ids = {u}" using assms(1) by simp
  moreover from this have "length ids = 1" using assms(2) distinct_card [of ids] by simp
  ultimately show False using assms(4) by simp
qed

lemma deactivate_keeps:
  assumes s: "iam_inv s" and q: "SetUserActive u False s = Inr (n, t)"
    and "active_admins s \<noteq> {} \<Longrightarrow> \<exists>v \<in> active_admins s. v \<noteq> u"
  shows "iam_le s t \<and> iam_inv t"
proof -
  define f :: "UserRow \<Rightarrow> UserRow" where "f = (\<lambda>v. if us_id v = u then v\<lparr>us_is_active := False, us_updated_at := sql_now s\<rparr> else v)"
  have t: "t = s\<lparr>users := map f (users s)\<rparr>" using q by (simp add: SetUserActive_def f_def)
  have f: "us_id (f v) = us_id v" "us_email (f v) = us_email v" "us_username (f v) = us_username v"
    "us_email_verified_at (f v) = us_email_verified_at v" "us_id v \<noteq> u \<Longrightarrow> f v = v" for v by (simp_all add: f_def)
  show ?thesis unfolding t
  proof (rule users_update [OF s])
    show "distinct (map us_email (map f (users s)))" "distinct (map us_username (map f (users s)))"
      using s by (simp_all add: iam_inv_def users_ok_def comp_def f)
    assume "active_admins s \<noteq> {}"
    then obtain v where v: "v \<in> active_admins s" "v \<noteq> u" using assms(3) by blast
    then obtain w where w: "w \<in> set (users s)" "us_id w = v" "us_is_active w" unfolding in_active_admins by blast
    then have "f w = w" using v f(5) by simp
    then have "\<exists>w \<in> set (map f (users s)). us_id w = v \<and> us_is_active w" using w by (metis image_eqI set_map)
    then have "v \<in> active_admins (s\<lparr>users := map f (users s)\<rparr>)" using v(1) by (simp add: in_active_admins)
    then show "active_admins (s\<lparr>users := map f (users s)\<rparr>) \<noteq> {}" by blast
  qed (simp_all add: f)
qed

text \<open>What a transaction knows once it holds the lock of the administrator role.\<close>

definition locked :: "iam_db \<Rightarrow> string list \<Rightarrow> iam_db \<Rightarrow> bool" where
  "locked s ids t \<longleftrightarrow> iam_le s t \<and> iam_inv t \<and> set ids = active_admins t \<and> distinct ids"

lemma ensures_locked:
  "ensures (\<lambda>t. iam_le s t \<and> iam_inv t \<and> P t) (txq LockActiveSystemAdministratorIDs)
     (\<lambda>ids t. locked s ids t \<and> (\<exists>r. t = next_call r \<and> P r))"
proof (rule ensures_read [OF reads_locks(3)])
  fix t ids
  assume t: "iam_le s t \<and> iam_inv t \<and> P t" and q: "LockActiveSystemAdministratorIDs t = Inr (ids, t)"
  have "iam_le s (next_call t)" using t iam_le_trans iam_next_call(5) by blast
  with t admin_ids [OF q] show "locked s ids (next_call t) \<and> (\<exists>r. next_call t = next_call r \<and> P r)"
    by (auto simp: locked_def)
qed

lemma ensures_skip:
  "reads q \<Longrightarrow> ensures (\<lambda>t. iam_le s t \<and> iam_inv t) (txq q) (\<lambda>_ t. iam_le s t \<and> iam_inv t)"
  by (rule ensures_read) (auto intro: iam_le_trans)

lemmas skip_then = ensures_bindE [OF ensures_mapErrE [OF ensures_skip]]

lemma commits_deactivate: "commits_by iam_inv iam_le (deactivate_tx u)"
proof (rule commitsI)
  fix s
  have act: "ensures (locked s ids) (setActive u False) (\<lambda>_ t. iam_le s t \<and> iam_inv t)"
    if "\<not> (uuidIn ids u \<and> length ids = 1)" for ids
    unfolding setActive_def locked_def
  proof (intro ensures_rules)
    show "ensures (\<lambda>t. iam_le s t \<and> iam_inv t \<and> set ids = active_admins t \<and> distinct ids) (txq (SetUserActive u False))
        (\<lambda>_ t. iam_le s t \<and> iam_inv t)"
    proof (rule ensures_keeps)
      fix r x t
      assume r: "set ids = active_admins r \<and> distinct ids" "iam_inv r" "SetUserActive u False r = Inr (x, t)"
      show "iam_le r t \<and> iam_inv t"
        by (rule deactivate_keeps [OF r(2,3)]) (rule other_admin [of ids], use r(1) that in simp_all)
    qed
  qed simp_all
  have lock: "ensures (\<lambda>t. iam_le s t \<and> iam_inv t) (mapped (txq LockActiveSystemAdministratorIDs)) (locked s)"
    using ensures_locked [of s "\<lambda>_. True"] by (simp add: ensures_def)
  show "ensures (\<lambda>t. iam_le s t \<and> iam_inv t) (deactivate_tx u) (\<lambda>_ t. iam_le s t \<and> iam_inv t)"
    unfolding deactivate_tx_def
    by (rule skip_then, rule reads_locks, rule skip_then, rule reads_locks, rule ensures_bindE [OF lock],
        rule ensures_if, rule ensures_failE, rule act)
qed

section \<open>Replacing the roles of a user\<close>

text \<open>The tables after the deletion and some of the assignments, relative to those before.\<close>

definition reassigned :: "iam_db \<Rightarrow> string \<Rightarrow> string list \<Rightarrow> iam_db \<Rightarrow> bool" where
  "reassigned s u rs t \<longleftrightarrow>
     (\<exists>ur n. t = s\<lparr>user_roles := ur, db_calls := n\<rparr> \<and> set ur = {x \<in> set (user_roles s). fst x \<noteq> u} \<union> {u} \<times> set rs)"

lemma reassigned_frame:
  assumes "reassigned s u rs t"
  shows "users t = users s" "permissions t = permissions s" "security t = security s" "consumptions t = consumptions s"
    "settings t = settings s" "db_clock t = db_clock s" "roles t = roles s" "role_permissions t = role_permissions s"
    and "set (user_roles t) = {x \<in> set (user_roles s). fst x \<noteq> u} \<union> {u} \<times> set rs"
proof -
  obtain ur n where t: "t = s\<lparr>user_roles := ur, db_calls := n\<rparr>" "set ur = {x \<in> set (user_roles s). fst x \<noteq> u} \<union> {u} \<times> set rs"
    using assms unfolding reassigned_def by blast
  show "users t = users s" "permissions t = permissions s" "security t = security s" "consumptions t = consumptions s"
    "settings t = settings s" "db_clock t = db_clock s" "roles t = roles s" "role_permissions t = role_permissions s"
    "set (user_roles t) = {x \<in> set (user_roles s). fst x \<noteq> u} \<union> {u} \<times> set rs"
    unfolding t(1) using t(2) by simp_all
qed

lemma reassigned_keeps:
  assumes s: "iam_inv s" and re: "reassigned s u rs t" and u: "u \<in> us_id ` set (users s)" and rs: "set rs \<subseteq> ro_id ` set (roles s)"
    and adm: "active_admins s \<noteq> {} \<Longrightarrow> (\<exists>v \<in> active_admins s. v \<noteq> u) \<or>
      (\<exists>r \<in> set (roles s). is_admin_role r \<and> ro_id r \<in> set rs)"
  shows "iam_le s t \<and> iam_inv t"
proof (rule roles_frame)
  note fr = reassigned_frame [OF re]
  show "roles_le s t" by (simp add: roles_le_def system_roles_def role_grants_def fr)
  have ok: "roles_ok s" using s by (simp add: iam_inv_def)
  show "roles_ok t" using ok u rs unfolding roles_ok_def fr by auto
  assume ne: "active_admins s \<noteq> {}"
  consider v where "v \<in> active_admins s" "v \<noteq> u" | r where "active_admins s = {u}" "r \<in> set (roles s)" "is_admin_role r" "ro_id r \<in> set rs"
    using adm [OF ne] ne by blast
  then show "active_admins t \<noteq> {}"
  proof cases
    case 1
    then have "v \<in> active_admins t" unfolding in_active_admins fr by auto
    then show ?thesis by blast
  next
    case 2
    then have "u \<in> active_admins s" by simp
    then have "u \<in> active_admins t" using 2 unfolding in_active_admins fr by auto
    then show ?thesis by blast
  qed
qed (use reassigned_frame [OF re] s in simp_all)

lemma ensures_delete:
  "ensures (\<lambda>t. \<exists>n. t = s\<lparr>db_calls := n\<rparr>) (mapped (txq (DeleteUserRoles u))) (\<lambda>_. reassigned s u [])"
proof (intro ensures_mapErrE ensures_txq)
  fix r x t
  assume "\<exists>n. r = s\<lparr>db_calls := n\<rparr>" and q: "DeleteUserRoles u r = Inr (x, t)"
  then obtain n where r: "r = s\<lparr>db_calls := n\<rparr>" by blast
  have "t = r\<lparr>user_roles := filter (\<lambda>x. fst x \<noteq> u) (user_roles r)\<rparr>" using q by (simp add: DeleteUserRoles_def)
  then have "next_call t = s\<lparr>user_roles := filter (\<lambda>x. fst x \<noteq> u) (user_roles s), db_calls := Suc n\<rparr>"
    by (simp add: r next_call_def)
  then show "reassigned s u [] (next_call t)" unfolding reassigned_def by (intro exI conjI) auto
qed

lemma ensures_assign:
  "ensures (reassigned s u rs) (mapped (txq (AssignUserRole u r))) (\<lambda>_. reassigned s u (rs @ [r]))"
proof (intro ensures_mapErrE ensures_txq)
  fix p x t
  assume "reassigned s u rs p" and q: "AssignUserRole u r p = Inr (x, t)"
  then obtain ur n where p: "p = s\<lparr>user_roles := ur, db_calls := n\<rparr>"
    and ur: "set ur = {x \<in> set (user_roles s). fst x \<noteq> u} \<union> {u} \<times> set rs"
    unfolding reassigned_def by blast
  have "t = (if (u, r) \<in> set ur then p else p\<lparr>user_roles := ur @ [(u, r)]\<rparr>)"
    using q by (simp add: AssignUserRole_def p split: if_splits)
  then have "next_call t = s\<lparr>user_roles := (if (u, r) \<in> set ur then ur else ur @ [(u, r)]), db_calls := Suc n\<rparr>"
    by (simp add: p next_call_def)
  moreover have "set (if (u, r) \<in> set ur then ur else ur @ [(u, r)]) =
      {x \<in> set (user_roles s). fst x \<noteq> u} \<union> {u} \<times> set (rs @ [r])" using ur by auto
  ultimately show "reassigned s u (rs @ [r]) (next_call t)" unfolding reassigned_def by blast
qed

text \<open>The reading part of a transaction: the tables stay those of its beginning.\<close>

definition same :: "iam_db \<Rightarrow> iam_db \<Rightarrow> bool" where
  "same s t \<longleftrightarrow> (\<exists>n. t = s\<lparr>db_calls := n\<rparr>)"

lemma ensures_fact:
  assumes "ensures P m (\<lambda>x t. Q t \<and> F x)" and "\<And>x. F x \<Longrightarrow> ensures Q (f x) R"
  shows "ensures P (bindE m f) R"
  using assms unfolding ensures_def bindE_eq_Inr by blast

lemma read_same:
  assumes "reads q" and "\<And>n x. q (s\<lparr>db_calls := n\<rparr>) = Inr (x, s\<lparr>db_calls := n\<rparr>) \<Longrightarrow> F x"
  shows "ensures (same s) (mapped (txq q)) (\<lambda>x t. same s t \<and> F x)"
proof (intro ensures_mapErrE ensures_read [OF assms(1)])
  fix t x
  assume "same s t" and q: "q t = Inr (x, t)"
  then obtain n where t: "t = s\<lparr>db_calls := n\<rparr>" unfolding same_def by blast
  then have "next_call t = s\<lparr>db_calls := Suc n\<rparr>" by (simp add: next_call_def)
  with assms(2) q t show "same s (next_call t) \<and> F x" unfolding same_def by blast
qed

lemma same_refl [simp]: "same s s"
proof -
  have "s = s\<lparr>db_calls := db_calls s\<rparr>" by simp
  then show ?thesis unfolding same_def by blast
qed

lemma check_ids:
  assumes "\<And>x. reads (q x)" and "\<And>x n y. q x (s\<lparr>db_calls := n\<rparr>) = Inr (y, s\<lparr>db_calls := n\<rparr>) \<Longrightarrow> x \<in> A"
  shows "ensures (same s) (forE (\<lambda>x. bindE (mapped (txq (q x))) (\<lambda>_. retE ())) xs) (\<lambda>_ t. same s t \<and> set xs \<subseteq> A)"
proof -
  have "ensures (\<lambda>t. same s t \<and> set ys \<subseteq> A) (bindE (mapped (txq (q x))) (\<lambda>_. retE ())) (\<lambda>_ t. same s t \<and> set (ys @ [x]) \<subseteq> A)" for x ys
  proof (cases "set ys \<subseteq> A")
    case True
    have "ensures (same s) (bindE (mapped (txq (q x))) (\<lambda>_. retE ())) (\<lambda>_ t. same s t \<and> x \<in> A)"
      by (rule ensures_bindE [OF read_same [OF assms(1), where F = "\<lambda>_. x \<in> A"]]) (use assms(2) in \<open>blast, simp add: ensures_def\<close>)
    with True show ?thesis by (simp add: ensures_def)
  qed (simp add: ensures_def)
  from ensures_forE [of xs "\<lambda>ys t. same s t \<and> set ys \<subseteq> A", OF this] show ?thesis by simp
qed

lemma user_found: "GetUserByID u s = Inr (x, t) \<Longrightarrow> u \<in> us_id ` set (users s)"
  by (auto simp: GetUserByID_def find_Some_iff)

lemma role_found: "GetRoleByID r s = Inr (x, t) \<Longrightarrow> r \<in> ro_id ` set (roles s)"
  by (auto simp: GetRoleByID_def find_Some_iff)

lemma same_admins: "active_admins (s\<lparr>db_calls := n\<rparr>) = active_admins s"
  by (simp add: active_admins_def)

lemma replace_roles_exact:
  assumes s: "iam_inv s" and run: "replace_roles_tx u rs s = (Inr x, t)"
  shows "reassigned s u rs t \<and> iam_le s t \<and> iam_inv t"
proof -
  let ?I = "\<lambda>_ t. reassigned s u rs t \<and> iam_le s t \<and> iam_inv t"
  have wr: "ensures (same s) (bindE (mapped (txq (DeleteUserRoles u))) (\<lambda>_. forE (\<lambda>r. mapped (txq (AssignUserRole u r))) rs)) ?I"
    if "u \<in> us_id ` set (users s)" "set rs \<subseteq> ro_id ` set (roles s)" "role \<in> set (roles s)" "is_admin_role role"
      "set ids = active_admins s" "distinct ids" "\<not> (uuidIn ids u \<and> length ids = 1 \<and> \<not> uuidIn rs (ro_id role))" for role ids
  proof (rule ensures_bindE)
    show "ensures (same s) (mapped (txq (DeleteUserRoles u))) (\<lambda>_. reassigned s u [])"
      using ensures_delete [of s u] unfolding same_def .
    have "ensures (reassigned s u []) (forE (\<lambda>r. mapped (txq (AssignUserRole u r))) rs) (\<lambda>_. reassigned s u rs)"
      by (rule ensures_forE) (rule ensures_assign)
    then show "ensures (reassigned s u []) (forE (\<lambda>r. mapped (txq (AssignUserRole u r))) rs) ?I" for y :: unit
    proof (rule ensures_weaken)
      fix y r
      assume re: "reassigned s u rs r"
      have "(\<exists>v \<in> active_admins s. v \<noteq> u) \<or> (\<exists>r \<in> set (roles s). is_admin_role r \<and> ro_id r \<in> set rs)"
        if ne: "active_admins s \<noteq> {}"
      proof (cases "ro_id role \<in> set rs")
        case False
        then show ?thesis using other_admin [OF \<open>set ids = active_admins s\<close> \<open>distinct ids\<close> ne, of u]
            \<open>\<not> (uuidIn ids u \<and> length ids = 1 \<and> \<not> uuidIn rs (ro_id role))\<close> by simp
      qed (use \<open>role \<in> set (roles s)\<close> \<open>is_admin_role role\<close> in blast)
      with reassigned_keeps [OF s re] re \<open>u \<in> us_id ` set (users s)\<close> \<open>set rs \<subseteq> ro_id ` set (roles s)\<close>
      show "reassigned s u rs r \<and> iam_le s r \<and> iam_inv r" by blast
    qed
  qed
  have lock: "ensures (same s) (mapped (txq LockActiveSystemAdministratorIDs)) (\<lambda>ids t. same s t \<and> (set ids = active_admins s \<and> distinct ids))"
    by (rule read_same [OF reads_locks(3)]) (use admin_ids s in \<open>simp add: same_admins iam_calls\<close>)
  have role: "ensures (same s) (mapped (txq LockSystemAdminRole)) (\<lambda>r t. same s t \<and> (r \<in> set (roles s) \<and> is_admin_role r))"
    by (rule read_same [OF reads_locks(2)]) (auto simp: LockSystemAdminRole_def find_Some_iff)
  have user: "ensures (same s) (mapped (txq (GetUserByID u))) (\<lambda>_ t. same s t \<and> u \<in> us_id ` set (users s))"
    by (rule read_same [OF reads_locks(1)]) (use user_found in force)
  have ids: "ensures (same s) (forE (\<lambda>r. bindE (mapped (txq (GetRoleByID r))) (\<lambda>_. retE ())) rs) (\<lambda>_ t. same s t \<and> set rs \<subseteq> ro_id ` set (roles s))"
    by (rule check_ids [OF reads_locks(4)]) (use role_found in force)
  have "ensures (same s) (replace_roles_tx u rs) ?I"
    unfolding replace_roles_tx_def
    by (rule ensures_fact [OF user], rule ensures_fact [OF role], rule ensures_fact [OF lock], rule ensures_fact [OF ids],
        rule ensures_if, rule ensures_failE, rule wr) auto
  from ensuresD [OF this same_refl run] show ?thesis .
qed

lemma commits_replace_roles: "commits_by iam_inv iam_le (replace_roles_tx u rs)"
  using replace_roles_exact by (auto simp: commits_by_def)

section \<open>Replacing the permissions of a role\<close>

definition regranted :: "iam_db \<Rightarrow> string \<Rightarrow> string list \<Rightarrow> iam_db \<Rightarrow> bool" where
  "regranted s r ps t \<longleftrightarrow>
     (\<exists>rp n. t = s\<lparr>role_permissions := rp, db_calls := n\<rparr> \<and> set rp = {x \<in> set (role_permissions s). fst x \<noteq> r} \<union> {r} \<times> set ps)"

lemma regranted_frame:
  assumes "regranted s r ps t"
  shows "users t = users s" "permissions t = permissions s" "security t = security s" "consumptions t = consumptions s"
    "settings t = settings s" "db_clock t = db_clock s" "roles t = roles s" "user_roles t = user_roles s"
    and "set (role_permissions t) = {x \<in> set (role_permissions s). fst x \<noteq> r} \<union> {r} \<times> set ps"
proof -
  obtain rp n where t: "t = s\<lparr>role_permissions := rp, db_calls := n\<rparr>" "set rp = {x \<in> set (role_permissions s). fst x \<noteq> r} \<union> {r} \<times> set ps"
    using assms unfolding regranted_def by blast
  show "users t = users s" "permissions t = permissions s" "security t = security s" "consumptions t = consumptions s"
    "settings t = settings s" "db_clock t = db_clock s" "roles t = roles s" "user_roles t = user_roles s"
    "set (role_permissions t) = {x \<in> set (role_permissions s). fst x \<noteq> r} \<union> {r} \<times> set ps"
    unfolding t(1) using t(2) by simp_all
qed

lemma regranted_keeps:
  assumes s: "iam_inv s" and re: "regranted s r ps t" and r: "r \<in> ro_id ` set (roles s)" "ordinary_role r s"
    and ps: "set ps \<subseteq> pe_id ` set (permissions s)"
  shows "iam_le s t \<and> iam_inv t"
proof (rule roles_frame)
  note fr = regranted_frame [OF re]
  have sys: "system_roles t = system_roles s" by (simp add: system_roles_def fr)
  have "role_grants t (fst x) = role_grants s (fst x)" if "x \<in> system_roles s" for x
  proof -
    have "fst x \<noteq> r" using r(2) that by (auto simp: ordinary_role_def)
    then show ?thesis by (simp add: role_grants_def fr)
  qed
  with sys show "roles_le s t" by (simp add: roles_le_def)
  have ok: "roles_ok s" using s by (simp add: iam_inv_def)
  show "roles_ok t" using ok r(1) ps unfolding roles_ok_def fr by auto
  show "active_admins s \<noteq> {} \<Longrightarrow> active_admins t \<noteq> {}" by (simp add: active_admins_def fr)
qed (use regranted_frame [OF re] s in simp_all)

lemma ensures_ungrant:
  "ensures (same s) (mapped (txq (DeleteRolePermissions r))) (\<lambda>_. regranted s r [])"
proof (intro ensures_mapErrE ensures_txq)
  fix p x t
  assume "same s p" and q: "DeleteRolePermissions r p = Inr (x, t)"
  then obtain n where p: "p = s\<lparr>db_calls := n\<rparr>" unfolding same_def by blast
  have "t = p\<lparr>role_permissions := filter (\<lambda>x. fst x \<noteq> r) (role_permissions p)\<rparr>" using q by (simp add: DeleteRolePermissions_def)
  then have "next_call t = s\<lparr>role_permissions := filter (\<lambda>x. fst x \<noteq> r) (role_permissions s), db_calls := Suc n\<rparr>"
    by (simp add: p next_call_def)
  then show "regranted s r [] (next_call t)" unfolding regranted_def by (intro exI conjI) auto
qed

lemma ensures_grant:
  "ensures (regranted s r ps) (mapped (txq (GrantRolePermission r i))) (\<lambda>_. regranted s r (ps @ [i]))"
proof (intro ensures_mapErrE ensures_txq)
  fix p x t
  assume "regranted s r ps p" and q: "GrantRolePermission r i p = Inr (x, t)"
  then obtain rp n where p: "p = s\<lparr>role_permissions := rp, db_calls := n\<rparr>"
    and rp: "set rp = {x \<in> set (role_permissions s). fst x \<noteq> r} \<union> {r} \<times> set ps"
    unfolding regranted_def by blast
  have "t = (if (r, i) \<in> set rp then p else p\<lparr>role_permissions := rp @ [(r, i)]\<rparr>)"
    using q by (simp add: GrantRolePermission_def p split: if_splits)
  then have "next_call t = s\<lparr>role_permissions := (if (r, i) \<in> set rp then rp else rp @ [(r, i)]), db_calls := Suc n\<rparr>"
    by (simp add: p next_call_def)
  moreover have "set (if (r, i) \<in> set rp then rp else rp @ [(r, i)]) =
      {x \<in> set (role_permissions s). fst x \<noteq> r} \<union> {r} \<times> set (ps @ [i])" using rp by auto
  ultimately show "regranted s r (ps @ [i]) (next_call t)" unfolding regranted_def by blast
qed

lemma permission_found: "GetPermissionByID p s = Inr (x, t) \<Longrightarrow> p \<in> pe_id ` set (permissions s)"
  by (auto simp: GetPermissionByID_def find_Some_iff)

lemma replace_permissions_exact:
  assumes s: "iam_inv s" and run: "replace_permissions_tx r ps s = (Inr x, t)"
  shows "regranted s r ps t \<and> iam_le s t \<and> iam_inv t"
proof -
  let ?I = "\<lambda>_ t. regranted s r ps t \<and> iam_le s t \<and> iam_inv t"
  have wr: "ensures (same s) (bindE (mapped (txq (DeleteRolePermissions r))) (\<lambda>_. forE (\<lambda>p. mapped (txq (GrantRolePermission r p))) ps)) ?I"
    if "r \<in> ro_id ` set (roles s) \<and> ordinary_role r s" "set ps \<subseteq> pe_id ` set (permissions s)"
  proof (rule ensures_bindE [OF ensures_ungrant])
    have "ensures (regranted s r []) (forE (\<lambda>p. mapped (txq (GrantRolePermission r p))) ps) (\<lambda>_. regranted s r ps)"
      by (rule ensures_forE) (rule ensures_grant)
    then show "ensures (regranted s r []) (forE (\<lambda>p. mapped (txq (GrantRolePermission r p))) ps) ?I" for y :: unit
      by (rule ensures_weaken) (use regranted_keeps [OF s] that in blast)
  qed
  have role: "ensures (same s) (mapped (txq (GetRoleByID r)))
      (\<lambda>q t. same s t \<and> (\<not> ro_is_system q \<longrightarrow> r \<in> ro_id ` set (roles s) \<and> ordinary_role r s))"
  proof (rule read_same [OF reads_locks(4)], intro impI)
    fix n q
    assume q: "GetRoleByID r (s\<lparr>db_calls := n\<rparr>) = Inr (q, s\<lparr>db_calls := n\<rparr>)" and "\<not> ro_is_system q"
    moreover have "find (\<lambda>x. ro_id x = r) (roles s) = Some q" using q by (simp add: GetRoleByID_def)
    ultimately show "r \<in> ro_id ` set (roles s) \<and> ordinary_role r s"
      using role_found [OF q] found_role_checks(1) [OF s] by simp
  qed
  have ids: "ensures (same s) (forE (\<lambda>p. bindE (mapped (txq (GetPermissionByID p))) (\<lambda>_. retE ())) ps)
      (\<lambda>_ t. same s t \<and> set ps \<subseteq> pe_id ` set (permissions s))"
    by (rule check_ids [OF reads_locks(5)]) (use permission_found in force)
  have "ensures (same s) (replace_permissions_tx r ps) ?I"
    unfolding replace_permissions_tx_def
    by (rule ensures_fact [OF role], rule ensures_if, rule ensures_failE, rule ensures_fact [OF ids], rule wr) auto
  from ensuresD [OF this same_refl run] show ?thesis .
qed

lemma commits_replace_permissions: "commits_by iam_inv iam_le (replace_permissions_tx r ps)"
  using replace_permissions_exact by (auto simp: commits_by_def)

section \<open>Profiles and second factors\<close>

lemma profile_keeps:
  assumes s: "iam_inv s" and q: "UpdateUserProfile u e n d s = Inr (x, t)"
    and mail: "\<And>y v. y \<in> set (security s) \<Longrightarrow> ss_user_id y = u \<Longrightarrow> ss_mode y = ''email'' \<Longrightarrow> v \<in> set (users s) \<Longrightarrow> us_id v = u \<Longrightarrow> us_email v = e"
  shows "iam_le s t \<and> iam_inv t"
proof -
  define f :: "UserRow \<Rightarrow> UserRow" where "f = (\<lambda>v. if us_id v = u then profile_row e n d (sql_now s) v else v)"
  have "find (\<lambda>v. us_id v = u) (users s) \<noteq> None"
    using q by (cases "find (\<lambda>v. us_id v = u) (users s)") (simp_all add: UpdateUserProfile_def)
  then have t: "t = s\<lparr>users := map f (users s)\<rparr>"
    and other: "\<not> (\<exists>v \<in> set (users s). us_id v \<noteq> u \<and> (us_email v = e \<or> us_username v = n))"
    using q by (auto simp: UpdateUserProfile_def Let_def f_def split: if_splits)
  have f: "us_id (f v) = us_id v" "us_is_active (f v) = us_is_active v" "us_email (f v) = (if us_id v = u then e else us_email v)"
    "us_username (f v) = (if us_id v = u then n else us_username v)" for v by (simp_all add: f_def profile_row_def)
  have ver: "us_email_verified_at (f v) = us_email_verified_at v" if "us_id v = u \<longrightarrow> us_email v = e" for v
    using that by (simp add: f_def profile_row_def)
  have inj: "inj_on us_id (set (users s))" "inj_on us_email (set (users s))" "inj_on us_username (set (users s))"
    and dist: "distinct (users s)" using s by (simp_all add: iam_inv_def users_ok_def distinct_map)
  have "us_email (f v) = us_email (f w) \<Longrightarrow> v = w" "us_username (f v) = us_username (f w) \<Longrightarrow> v = w"
    if "v \<in> set (users s)" "w \<in> set (users s)" for v w
    using that other inj unfolding f by (auto split: if_splits dest: inj_onD)
  then have "distinct (map us_email (map f (users s)))" "distinct (map us_username (map f (users s)))"
    using dist by (simp_all add: distinct_map inj_on_def)
  moreover have "active_admins s \<subseteq> active_admins (s\<lparr>users := map f (users s)\<rparr>)"
    using f(1,2) by (auto simp: in_active_admins)
  ultimately show ?thesis unfolding t
    by (intro users_update [OF s]) (use f(1) ver mail in auto)
qed

lemma unique_row:
  assumes "iam_inv s" and "find (\<lambda>v. us_id v = u) (users s) = Some c" and "v \<in> set (users s)" and "us_id v = u"
  shows "v = c"
proof -
  have "c \<in> set (users s)" "us_id c = u" using assms(2) by (auto simp: find_Some_iff)
  moreover have "inj_on us_id (set (users s))" using assms(1) by (simp add: iam_inv_def users_ok_def distinct_map)
  ultimately show ?thesis using assms(3,4) by (auto dest: inj_onD)
qed

lemma unique_factor:
  assumes "iam_inv s" and "find (\<lambda>v. ss_user_id v = u) (security s) = Some c" and "v \<in> set (security s)" and "ss_user_id v = u"
  shows "v = c"
proof -
  have "c \<in> set (security s)" "ss_user_id c = u" using assms(2) by (auto simp: find_Some_iff)
  moreover have "inj_on ss_user_id (set (security s))" using assms(1) by (simp add: iam_inv_def security_ok_def distinct_map)
  ultimately show ?thesis using assms(3,4) by (auto dest: inj_onD)
qed

text \<open>Statements that keep the contract, then a locked row.\<close>

lemma ensures_good: "iam_keeps q \<Longrightarrow> ensures (\<lambda>t. iam_le s t \<and> iam_inv t) (txq q) (\<lambda>_ t. iam_le s t \<and> iam_inv t)"
  using ensures_keeps [of "\<lambda>_. True" q s] by (simp add: keeps_by_def)

lemma ensures_row:
  assumes "reads q" and "\<And>t x. q t = Inr (x, t) \<Longrightarrow> F x t" and "\<And>t x. F x t \<Longrightarrow> F x (next_call t)"
  shows "ensures (\<lambda>t. iam_le s t \<and> iam_inv t \<and> P t) (txq q) (\<lambda>x t. iam_le s t \<and> iam_inv t \<and> (\<exists>r. t = next_call r \<and> P r) \<and> F x t)"
proof (rule ensures_read [OF assms(1)])
  fix t x
  assume t: "iam_le s t \<and> iam_inv t \<and> P t" and q: "q t = Inr (x, t)"
  then have "iam_le s (next_call t)" using iam_le_trans iam_next_call(5) by blast
  with t q assms(2,3) show "iam_le s (next_call t) \<and> iam_inv (next_call t) \<and> (\<exists>r. next_call t = next_call r \<and> P r) \<and> F x (next_call t)"
    by (simp, blast)
qed

definition factor_of :: "string \<Rightarrow> UserSecuritySettingRow \<Rightarrow> iam_db \<Rightarrow> bool" where
  "factor_of u x t \<longleftrightarrow> find (\<lambda>v. ss_user_id v = u) (security t) = Some x"

definition row_of :: "string \<Rightarrow> UserRow \<Rightarrow> iam_db \<Rightarrow> bool" where
  "row_of u x t \<longleftrightarrow> find (\<lambda>v. us_id v = u) (users t) = Some x"

lemma of_next [simp]: "factor_of u x (next_call t) = factor_of u x t" "row_of u c (next_call t) = row_of u c t"
  by (simp_all add: factor_of_def row_of_def)

lemma ensures_factor:
  "ensures (\<lambda>t. iam_le s t \<and> iam_inv t) (txq (LockSecuritySettings u)) (\<lambda>x t. iam_le s t \<and> iam_inv t \<and> factor_of u x t)"
  by (rule ensures_read [OF reads_locks(6)]) (use iam_le_trans in \<open>auto simp: LockSecuritySettings_def factor_of_def\<close>)

lemma ensures_user:
  "ensures (\<lambda>t. iam_le s t \<and> iam_inv t \<and> factor_of v x t) (txq (GetUserByID u))
     (\<lambda>c t. iam_le s t \<and> iam_inv t \<and> factor_of v x t \<and> row_of u c t)"
  by (rule ensures_read [OF reads_locks(1)]) (use iam_le_trans in \<open>auto simp: GetUserByID_def row_of_def\<close>)

lemma ensures_profile:
  "ensures (\<lambda>t. iam_le s t \<and> iam_inv t \<and> factor_of u x t) (profile_tx u input x) (\<lambda>_ t. iam_le s t \<and> iam_inv t)"
  unfolding profile_tx_def
proof (rule ensures_bindE [OF ensures_mapErrE [OF ensures_user]], rule ensures_if, rule ensures_failE, rule ensures_mapErrE)
  fix c :: UserRow
  assume c: "\<not> (us_email c \<noteq> uu_Email input \<and> ss_mode x = ''email'')"
  show "ensures (\<lambda>t. iam_le s t \<and> iam_inv t \<and> factor_of u x t \<and> row_of u c t)
      (txq (UpdateUserProfile u (uu_Email input) (uu_Username input) (uu_DisplayName input))) (\<lambda>_ t. iam_le s t \<and> iam_inv t)"
  proof (rule ensures_keeps)
    fix r y t
    assume r: "factor_of u x r \<and> row_of u c r" and inv: "iam_inv r"
      and q: "UpdateUserProfile u (uu_Email input) (uu_Username input) (uu_DisplayName input) r = Inr (y, t)"
    show "iam_le r t \<and> iam_inv t"
    proof (rule profile_keeps [OF inv q])
      fix z v
      assume z: "z \<in> set (security r)" "ss_user_id z = u" "ss_mode z = ''email''" and v: "v \<in> set (users r)" "us_id v = u"
      have "z = x" using unique_factor [OF inv _ z(1,2)] r by (simp add: factor_of_def)
      moreover have "v = c" using unique_row [OF inv _ v] r by (simp add: row_of_def)
      ultimately show "us_email v = uu_Email input" using c z(3) by blast
    qed
  qed
qed

lemma commits_locked:
  assumes "\<And>s x. ensures (\<lambda>t. iam_le s t \<and> iam_inv t \<and> factor_of u x t) (fn x) (\<lambda>_ t. iam_le s t \<and> iam_inv t)"
  shows "commits_by iam_inv iam_le (bindE (mapped (txq (EnsureSecuritySettings u))) (\<lambda>_. bindE (mapped (txq (LockSecuritySettings u))) fn))"
  by (rule commitsI, rule ensures_bindE [OF ensures_mapErrE [OF ensures_good [OF keeps_Ensure]]],
      rule ensures_bindE [OF ensures_mapErrE [OF ensures_factor]], rule assms)

lemma guar_UpdateUser: "iam_rely (st_env st) \<Longrightarrow> iam_guar (UpdateUser st i input)"
  unfolding UpdateUser_def withLockedSecurity_def
  by (intro guar_liftE iam.guar_bindE iam.guar_retE iam.guar_mapErrE guar_withTransaction commits_locked ensures_profile)

lemma guar_UpdatePassword: "iam_rely (st_env st) \<Longrightarrow> iam_guar (UpdatePassword st i h)"
  unfolding UpdatePassword_def withLockedSecurity_def by (intro iam_guar_rules iam.guar_commits)

lemma commits_save_email:
  assumes "sec_Mode v = ''email''"
  shows "commits_by iam_inv iam_le (save_email_tx u v version)"
  unfolding save_email_tx_def
proof (rule commitsI, rule ensures_bindE [OF ensures_mapErrE [OF ensures_factor]], rule ensures_bindE [OF ensures_mapErrE [OF ensures_user]],
    rule ensures_if, rule ensures_failE, rule ensures_bindE)
  fix s x and c :: UserRow
  assume c: "us_email_verified_at c \<noteq> None"
  show "ensures (\<lambda>t. iam_le s t \<and> iam_inv t \<and> factor_of u x t \<and> row_of u c t) (txq (save_query u v version)) (\<lambda>_ t. iam_le s t \<and> iam_inv t)"
  proof (rule ensures_keeps)
    fix r n t
    assume r: "factor_of u x r \<and> row_of u c r" and inv: "iam_inv r" and q: "save_query u v version r = Inr (n, t)"
    have "verified r u" using r c by (auto simp: row_of_def verified_def find_Some_iff)
    then show "iam_le r t \<and> iam_inv t" using save_keeps [OF inv q] by blast
  qed
qed (rule ensures_if, rule ensures_failE, simp add: ensures_retE)

lemma guar_SaveSecurity: "iam_rely (st_env st) \<Longrightarrow> iam_guar (SaveSecurity st i v n)"
proof (cases "sec_Mode v = ''email''")
  case True
  assume "iam_rely (st_env st)"
  with True show ?thesis unfolding SaveSecurity_def
    by (simp, intro guar_liftE iam.guar_bindE guar_run_tx commits_save_email)
next
  case False
  assume rely: "iam_rely (st_env st)"
  have "iam_keeps (save_query u v n)" for u using save_keeps False by (auto simp: keeps_by_def)
  with rely False show ?thesis unfolding SaveSecurity_def by (simp, intro iam_guar_rules)
qed

end
