(* ===== verification/Iam_History.thy ===== *)
theory Iam_History
  imports Iam_Runs
begin

text \<open>
  Runs of the identity stores: any sequence of their operations, each with any fate of its statements
  and any such run of other processes before every statement. Every run respects the contract, which
  gives the properties of the administrators, the system roles and the second factors.
\<close>

section \<open>Operations that check a role first\<close>

definition role_checked :: "string \<Rightarrow> RoleRow \<Rightarrow> iam_db \<Rightarrow> bool" where
  "role_checked r x t \<longleftrightarrow> (\<not> ro_is_system x \<longrightarrow> ordinary_role r t) \<and> (\<forall>n. \<not> (ro_is_system x \<and> ro_name x \<noteq> n) \<longrightarrow> may_name r n t)"

lemma role_checked_stable: "role_checked r x s \<Longrightarrow> iam_le s t \<Longrightarrow> role_checked r x t"
  unfolding role_checked_def using role_checks_stable by blast

lemma guar_checking_role:
  assumes rely: "iam_rely (st_env st)" and "\<And>x. guar_from iam_inv iam_le (role_checked r x) (f x)"
  shows "iam_guar (bindE (mapped (query st (GetRoleByID r))) f)"
proof (rule iam.guar_checked [where P = "role_checked r"])
  show "iam_guar (mapped (query st (GetRoleByID r)))" by (intro iam.guar_mapErrE guar_query rely keeps_reads)
  show "guar_from iam_inv iam_le (role_checked r x) (f x)" for x by (rule assms(2))
  fix s x t
  assume s: "iam_inv s" and q: "mapped (query st (GetRoleByID r)) s = (Inr x, t)"
  let ?e = "st_env st (db_calls s) s"
  have inv: "iam_inv ?e" using rely s by (simp add: rely_by_def)
  have "find (\<lambda>x. ro_id x = r) (roles ?e) = Some x" and t: "t = next_call ?e"
    using q by (auto simp: query_def stmt_Inr GetRoleByID_def)
  from found_role_checks [OF inv this(1)] show "role_checked r x t"
    unfolding t by (simp add: role_checked_def ordinary_role_def may_name_def)
qed

lemma from_query:
  assumes "iam_rely (st_env st)" and "\<And>s y t. iam_inv s \<Longrightarrow> role_checked r x s \<Longrightarrow> q s = Inr (y, t) \<Longrightarrow> iam_le s t \<and> iam_inv t"
  shows "guar_from iam_inv iam_le (role_checked r x) (mapped (query st q))"
  unfolding query_def
proof (rule iam.guar_from_mapErrE, rule iam.guar_from_mapErrE, rule iam.guar_from_stmt [OF assms(1)])
  show "role_checked r x s \<Longrightarrow> iam_le s t \<Longrightarrow> role_checked r x t" for s t by (rule role_checked_stable)
qed (rule assms(2))

lemma guar_from_if:
  "(b \<Longrightarrow> guar_from iam_inv iam_le P m) \<Longrightarrow> (\<not> b \<Longrightarrow> guar_from iam_inv iam_le P n) \<Longrightarrow> guar_from iam_inv iam_le P (if b then m else n)"
  by simp

lemmas role_rules = guar_liftE iam.guar_bindE guar_checking_role guar_from_if iam.guar_fromI [OF iam.guar_failE]
  iam.guar_from_bindE iam.guar_retE iam.guar_failE iam.guar_if from_query

lemma guar_Update_role: "iam_rely (st_env st) \<Longrightarrow> iam_guar (Update_role st i input)"
  unfolding Update_role_def
  by (rule iam.guar_bindE, rule guar_liftE, rule guar_checking_role, assumption, rule guar_from_if, rule iam.guar_fromI, rule iam.guar_failE,
      rule iam.guar_from_bindE, rule from_query, assumption, rule update_role_keeps)
    (auto simp: role_checked_def iam.guar_retE)

lemma guar_Delete_role: "iam_rely (st_env st) \<Longrightarrow> iam_guar (Delete_role st i)"
  unfolding Delete_role_def
  by (rule iam.guar_bindE, rule guar_liftE, rule guar_checking_role, assumption, rule guar_from_if, rule iam.guar_fromI, rule iam.guar_failE,
      rule iam.guar_from_bindE, rule from_query, assumption, rule delete_role_keeps)
    (auto simp: role_checked_def iam.guar_retE iam.guar_failE)

lemma guar_GrantPermission: "iam_rely (st_env st) \<Longrightarrow> iam_guar (GrantPermission st i j)"
  unfolding GrantPermission_def
  by (rule iam.guar_bindE, rule guar_liftE, rule iam.guar_bindE, rule guar_liftE, rule guar_checking_role, assumption, rule guar_from_if,
      rule iam.guar_fromI, rule iam.guar_failE, rule from_query, assumption, rule grant_keeps)
    (auto simp: role_checked_def)

section \<open>All operations\<close>

lemma guar_users:
  assumes "iam_rely (st_env st)"
  shows "iam_guar (FindByEmail st e)" "iam_guar (FindByID st i)" "iam_guar (GetPreferences st i)" "iam_guar (PutPreferences st i p)"
    "iam_guar (List_users st flt l off)" "iam_guar (Create st c)" "iam_guar (SetActive st i True)" "iam_guar (PermissionsForUser st i)"
  unfolding FindByEmail_def FindByID_def GetPreferences_def PutPreferences_def List_users_def Create_def SetActive_def PermissionsForUser_def
  by (intro iam_guar_rules assms)+

lemma guar_SetActiveManaged: "iam_rely (st_env st) \<Longrightarrow> iam_guar (SetActiveManaged st i active)"
  unfolding SetActiveManaged_def
  by (cases active) (simp_all add: guar_users iam.guar_bindE guar_liftE guar_withTransaction commits_deactivate)

lemma guar_roles:
  assumes "iam_rely (st_env st)"
  shows "iam_guar (Roles st)" "iam_guar (Role_detail st i)" "iam_guar (Create_role st input)" "iam_guar (Permissions st)"
    "iam_guar (AssignRole st i j)" "iam_guar (ReplaceUserRoles st i js)" "iam_guar (ReplaceRolePermissions st i js)"
  unfolding Roles_def Role_detail_def Create_role_def Permissions_def AssignRole_def ReplaceUserRoles_def ReplaceRolePermissions_def
  by (intro iam_guar_rules assms commits_replace_roles commits_replace_permissions)+

lemma guar_factors:
  assumes "iam_rely (st_env st)"
  shows "iam_guar (Authentication st)" "iam_guar (PutAuthentication st v)" "iam_guar (Initialize st i)" "iam_guar (Security st i)"
    "iam_guar (ConsumeCredential st sha now i c version step rcv)"
  unfolding Authentication_def PutAuthentication_def Initialize_def Security_def ConsumeCredential_def consume_tx_def record_credential_def
  by (intro iam_guar_rules iam.guar_commits assms)+

lemma guar_registration:
  assumes "iam_rely (st_env st)"
  shows "iam_guar (Register_user st now input receipt)" "iam_guar (VerifyEmail st now i e receipt')"
  unfolding Register_user_def register_tx_def use_receipt_def create_registered_def VerifyEmail_def verify_email_tx_def
  by (intro iam_guar_rules iam.guar_commits assms)+

lemmas iam_guar_ops = guar_users guar_SetActiveManaged guar_UpdateUser guar_UpdatePassword guar_roles guar_Update_role guar_Delete_role
  guar_GrantPermission guar_factors guar_SaveSecurity guar_registration

section \<open>Runs\<close>

text \<open>A request to one of the two stores and the tables it leaves behind.\<close>

datatype request =
    ReadUserByEmail string | ReadUser string | ReadPreferences string | WritePreferences string Preferences
  | ReadUsers UserFilter int int | NewUser CreateUserInput | ChangeActive string bool | ChangeProfile string UpdateUserInput
  | ChangePassword string string | ReadPermissions string | ReadRoles | ReadRole string | NewRole RoleInput
  | ChangeRole string RoleInput | RemoveRole string | ReplaceRoles string "string list" | ReplacePermissions string "string list"
  | ReadAllPermissions | AddRole string string | AddPermission string string
  | ReadSettings | WriteSettings AuthenticationSettings | MarkInitialized string | ReadSecurity string
  | WriteSecurity string SecurityState int | UseCredential "string \<Rightarrow> string" int string string int int string
  | RegisterAccount int CreateUserInput "CodeReceipt option" | ConfirmAddress int string string CodeReceipt

fun perform :: "Store \<Rightarrow> request \<Rightarrow> iam_db \<Rightarrow> iam_db" where
  "perform st (ReadUserByEmail e) s = snd (FindByEmail st e s)"
| "perform st (ReadUser i) s = snd (FindByID st i s)"
| "perform st (ReadPreferences i) s = snd (GetPreferences st i s)"
| "perform st (WritePreferences i p) s = snd (PutPreferences st i p s)"
| "perform st (ReadUsers flt l off) s = snd (List_users st flt l off s)"
| "perform st (NewUser c) s = snd (Create st c s)"
| "perform st (ChangeActive i a) s = snd (SetActiveManaged st i a s)"
| "perform st (ChangeProfile i c) s = snd (UpdateUser st i c s)"
| "perform st (ChangePassword i h) s = snd (UpdatePassword st i h s)"
| "perform st (ReadPermissions i) s = snd (PermissionsForUser st i s)"
| "perform st ReadRoles s = snd (Roles st s)"
| "perform st (ReadRole i) s = snd (Role_detail st i s)"
| "perform st (NewRole c) s = snd (Create_role st c s)"
| "perform st (ChangeRole i c) s = snd (Update_role st i c s)"
| "perform st (RemoveRole i) s = snd (Delete_role st i s)"
| "perform st (ReplaceRoles i js) s = snd (ReplaceUserRoles st i js s)"
| "perform st (ReplacePermissions i js) s = snd (ReplaceRolePermissions st i js s)"
| "perform st ReadAllPermissions s = snd (Permissions st s)"
| "perform st (AddRole i j) s = snd (AssignRole st i j s)"
| "perform st (AddPermission i j) s = snd (GrantPermission st i j s)"
| "perform st ReadSettings s = snd (Authentication st s)"
| "perform st (WriteSettings v) s = snd (PutAuthentication st v s)"
| "perform st (MarkInitialized i) s = snd (Initialize st i s)"
| "perform st (ReadSecurity i) s = snd (Security st i s)"
| "perform st (WriteSecurity i v n) s = snd (SaveSecurity st i v n s)"
| "perform st (UseCredential sha now i c n step rcv) s = snd (ConsumeCredential st sha now i c n step rcv s)"
| "perform st (RegisterAccount now c r) s = snd (Register_user st now c r s)"
| "perform st (ConfirmAddress now i e r) s = snd (VerifyEmail st now i e r s)"

inductive iam_runs :: "iam_db \<Rightarrow> iam_db \<Rightarrow> bool" where
  none: "iam_runs s s"
| step: "iam_runs s t \<Longrightarrow> (\<And>i r. iam_runs r (st_env st i r)) \<Longrightarrow> iam_runs s (perform st req t)"

lemma perform_ok:
  assumes "iam_rely (st_env st)" and "iam_inv s"
  shows "iam_le s (perform st req s) \<and> iam_inv (perform st req s)"
proof -
  have "iam_le s (snd (m s)) \<and> iam_inv (snd (m s))" if "iam_guar m" for m :: "'a iam_op"
    using that assms(2) by (simp add: guar_by_def)
  then show ?thesis using iam_guar_ops [OF assms(1)] by (cases req) (simp_all add: guar_by_def assms(2))
qed

lemma runs_ok: "iam_runs s t \<Longrightarrow> iam_inv s \<Longrightarrow> iam_le s t \<and> iam_inv t"
proof (induction rule: iam_runs.induct)
  case (step s t st req)
  have "iam_rely (st_env st)" using step.IH(2) by (auto simp: rely_by_def)
  then have "iam_le t (perform st req t) \<and> iam_inv (perform st req t)" using perform_ok step.IH(1) step.prems by blast
  then show ?case using step.IH(1) step.prems iam_le_trans by blast
qed simp

lemma runs_rely: "(\<And>i r. iam_runs r (env i r)) \<Longrightarrow> iam_rely env"
  using runs_ok by (auto simp: rely_by_def)

text \<open>
  C6: whatever requests are made, however they interleave and whichever of their statements fail, an
  installation that has an active administrator keeps one.
\<close>

theorem last_administrator_kept:
  assumes "iam_runs s t" and "iam_inv s" and "active_admins s \<noteq> {}"
  shows "active_admins t \<noteq> {}"
  using runs_ok [OF assms(1,2)] assms(3) by (simp add: iam_le_def users_le_def)

text \<open>
  No run of requests renames, deletes or adds a system role, or changes what a system role is
  allowed to do.
\<close>

theorem system_roles_protected:
  assumes "iam_runs s t" and "iam_inv s"
  shows "system_roles t = system_roles s \<and> (\<forall>x \<in> system_roles s. role_grants t (fst x) = role_grants s (fst x))"
  using runs_ok [OF assms] by (simp add: iam_le_def roles_le_def)

text \<open>
  In every reachable state the tables are consistent (identities, names and second factors are
  unique, every assignment and grant refers to existing rows, a TOTP mode has a secret), and a user
  whose second factor is an email code has a verified address.
\<close>

theorem email_factor_has_verified_address:
  assumes "iam_runs s t" and "iam_inv s"
  shows "iam_inv t \<and> (\<forall>x \<in> set (security t). ss_mode x = ''email'' \<longrightarrow>
    (\<exists>u \<in> set (users t). us_id u = ss_user_id x \<and> us_email_verified_at u \<noteq> None))"
proof -
  have inv: "iam_inv t" using runs_ok [OF assms] by simp
  then have "\<forall>x \<in> set (security t). ss_mode x = ''email'' \<longrightarrow> verified t (ss_user_id x)" by (simp add: iam_inv_def security_ok_def)
  with inv show ?thesis unfolding verified_def by blast
qed

end
