(* ===== verification/Iam_Security.thy ===== *)
theory Iam_Security
  imports Iam_History
begin

text \<open>
  Second factors, passwords and registration over runs of the identity stores: a security version is
  written at most once, a consumed proof cannot be replayed, a changed password invalidates what was
  authorised before it, and an email receipt is used at most once.
\<close>

abbreviation seen :: "Store \<Rightarrow> iam_db \<Rightarrow> iam_db" where
  "seen st s \<equiv> st_env st (db_calls s) s"

lemma seen_ok: "iam_rely (st_env st) \<Longrightarrow> iam_inv s \<Longrightarrow> iam_le s (seen st s) \<and> iam_inv (seen st s)"
  by (simp add: rely_by_def)

lemma run_tx_Inr:
  assumes "run_tx st fn s = (Inr x, t)"
  obtains t' where "fn (next_call (seen st s)) = (Inr x, t')" "t = next_call t'"
proof -
  have "RunInTx (st_env st) fn s = (Inr x, t)" using assms by (simp add: run_tx_def)
  then show thesis using that by (cases rule: RunInTx_cases) simp_all
qed

lemma withTransaction_Inr:
  assumes "withTransaction st fn s = (Inr x, t)"
  obtains t' where "fn (next_call (seen st s)) = (Inr x, t')" "t = next_call t'"
proof -
  have "run_tx st fn s = (Inr x, t)" using assms by (auto simp: run_tx_def withTransaction_def split: if_splits)
  then show thesis using that by (rule run_tx_Inr)
qed

lemma parse_id_Inr [simp]: "parse_id st i = Inr u \<longleftrightarrow> st_scan st i = Some u"
  by (simp add: parse_id_def split: option.split)

section \<open>Versions of second factors\<close>

definition stale :: "string \<Rightarrow> int \<Rightarrow> iam_db \<Rightarrow> bool" where
  "stale u n s \<longleftrightarrow> (\<exists>y \<in> set (security s). ss_user_id y = u \<and> n < ss_version y)"

lemma stale_le: "stale u n s \<Longrightarrow> iam_le s t \<Longrightarrow> stale u n t"
  unfolding stale_def iam_le_def security_le_def factor_le_def by (metis order.strict_trans)

lemma stale_next [simp]: "stale u n (next_call s) = stale u n s"
  by (simp add: stale_def)

lemma stale_unique:
  assumes "iam_inv s" and "stale u n s" and "x \<in> set (security s)" and "ss_user_id x = u"
  shows "ss_version x \<noteq> n"
proof -
  obtain y where y: "y \<in> set (security s)" "ss_user_id y = u" "n < ss_version y" using assms(2) unfolding stale_def by blast
  have "inj_on ss_user_id (set (security s))" using assms(1) by (simp add: iam_inv_def security_ok_def distinct_map)
  then have "x = y" using assms(3,4) y(1,2) by (simp add: inj_on_eq_iff [symmetric])
  then show ?thesis using y(3) by simp
qed

lemma map_security_member: "x \<in> set (security s) \<Longrightarrow> P x \<Longrightarrow> f x \<in> set (security (map_security P f s))"
  by (auto simp: map_security_def)

lemma save_query_rows:
  assumes "save_query u v n s = Inr (k, t)"
  shows "k = int (length (filter (\<lambda>x. ss_user_id x = u \<and> ss_version x = n) (security s)))"
    and "x \<in> set (security s) \<Longrightarrow> ss_user_id x = u \<Longrightarrow> ss_version x = n \<Longrightarrow>
      \<exists>y \<in> set (security t). ss_user_id y = u \<and> ss_version y = n + 1 \<and> ss_mode y = sec_Mode v \<and> ss_totp_secret y = sec_Secret v \<and>
        ss_last_totp_step y = sec_LastTOTPStep v \<and> ss_recovery_hashes y = sec_RecoveryHashes v"
proof -
  let ?P = "\<lambda>x. ss_user_id x = u \<and> ss_version x = n"
  let ?f = "\<lambda>x. bump (x\<lparr>ss_mode := sec_Mode v, ss_totp_secret := sec_Secret v, ss_pending_secret := sec_PendingSecret v,
          ss_pending_expires_at := sec_PendingExpiresAt v, ss_last_totp_step := sec_LastTOTPStep v,
          ss_recovery_hashes := sec_RecoveryHashes v, ss_recovery_codes_expires_at := sec_RecoveryCodesExpiresAt v\<rparr>)"
  show "k = int (length (filter ?P (security s)))"
    using assms by (simp add: save_query_def SaveSecuritySettings_def Let_def split: if_splits)
  have t: "t = map_security ?P ?f s"
    using assms by (simp add: save_query_def SaveSecuritySettings_def Let_def split: if_splits)
  assume x: "x \<in> set (security s)" "ss_user_id x = u" "ss_version x = n"
  show "\<exists>y \<in> set (security t). ss_user_id y = u \<and> ss_version y = n + 1 \<and> ss_mode y = sec_Mode v \<and> ss_totp_secret y = sec_Secret v \<and>
        ss_last_totp_step y = sec_LastTOTPStep v \<and> ss_recovery_hashes y = sec_RecoveryHashes v"
    unfolding t by (rule bexI [OF _ map_security_member [OF x(1)]]) (use x in simp_all)
qed

lemma save_query_stale: "iam_inv s \<Longrightarrow> stale u n s \<Longrightarrow> save_query u v n s = Inr (k, t) \<Longrightarrow> k = 0"
  using save_query_rows(1) stale_unique by (fastforce simp: filter_empty_conv)

text \<open>A write that succeeded was made on the version it read, and leaves the next one.\<close>

lemma save_query_Inr:
  assumes "save_query u v n s = Inr (1, t)"
  shows "\<exists>x \<in> set (security s). ss_user_id x = u \<and> ss_version x = n"
    and "\<exists>y \<in> set (security t). ss_user_id y = u \<and> ss_version y = n + 1 \<and> ss_mode y = sec_Mode v \<and> ss_totp_secret y = sec_Secret v \<and>
        ss_last_totp_step y = sec_LastTOTPStep v \<and> ss_recovery_hashes y = sec_RecoveryHashes v"
proof -
  have "filter (\<lambda>x. ss_user_id x = u \<and> ss_version x = n) (security s) \<noteq> []" using save_query_rows(1) [OF assms] by auto
  then show x: "\<exists>x \<in> set (security s). ss_user_id x = u \<and> ss_version x = n" by (auto simp: filter_empty_conv)
  then show "\<exists>y \<in> set (security t). ss_user_id y = u \<and> ss_version y = n + 1 \<and> ss_mode y = sec_Mode v \<and> ss_totp_secret y = sec_Secret v \<and>
        ss_last_totp_step y = sec_LastTOTPStep v \<and> ss_recovery_hashes y = sec_RecoveryHashes v"
    using save_query_rows(2) [OF assms] by blast
qed

lemma SaveSecurity_Inr:
  assumes "SaveSecurity st i v n s = (Inr (), t)"
  obtains u r k r' where "st_scan st i = Some u" "security r = security (seen st s)" "save_query u v n r = Inr (1, r')"
    "security t = security r'"
proof -
  obtain u where u: "st_scan st i = Some u"
    and run: "(if sec_Mode v = ''email'' then run_tx st (save_email_tx u v n)
     else bindE (query st (save_query u v n)) (\<lambda>n. if n \<noteq> 1 then failE ErrSecurityConflict else retE ())) s = (Inr (), t)"
    using assms by (auto simp: SaveSecurity_def bindE_eq_Inr)
  show thesis
  proof (cases "sec_Mode v = ''email''")
    case True
    then obtain t' where t': "save_email_tx u v n (next_call (seen st s)) = (Inr (), t')" "t = next_call t'"
      using run by (auto elim: run_tx_Inr)
    let ?same = "\<lambda>r. security r = security (seen st s)"
    have "ensures ?same (save_email_tx u v n) (\<lambda>_ t'. \<exists>r r'. ?same r \<and> save_query u v n r = Inr (1, r') \<and> security t' = security r')"
      unfolding save_email_tx_def
    proof (rule ensures_bindE [OF ensures_mapErrE [OF ensures_read [OF reads_locks(6), where Q = "\<lambda>_. ?same"]]],
        simp, rule ensures_bindE [OF ensures_mapErrE [OF ensures_read [OF reads_locks(1), where Q = "\<lambda>_. ?same"]]], simp,
        rule ensures_if, rule ensures_failE)
      show "ensures ?same (bindE (txq (save_query u v n)) (\<lambda>n. if n \<noteq> 1 then failE ErrSecurityConflict else retE ()))
          (\<lambda>_ t'. \<exists>r r'. ?same r \<and> save_query u v n r = Inr (1, r') \<and> security t' = security r')"
        by (rule ensures_bindE [where Q = "\<lambda>k t'. \<exists>r r'. ?same r \<and> save_query u v n r = Inr (k, r') \<and> security t' = security r'"],
          rule ensures_txq, fastforce, rule ensures_if, rule ensures_failE, rule ensures_retE, simp)
    qed
    from ensuresD [OF this _ t'(1)] show thesis using u that t'(2) by auto
  next
    case False
    then show thesis using run u that by (auto simp: bindE_eq_Inr query_def stmt_Inr split: if_splits)
  qed
qed

lemma SaveSecurity_stale:
  assumes "iam_rely (st_env st)" and "iam_inv s" and "stale u n s" and "st_scan st i = Some u"
  shows "fst (SaveSecurity st i v n s) \<noteq> Inr ()"
proof
  assume "fst (SaveSecurity st i v n s) = Inr ()"
  then obtain t where "SaveSecurity st i v n s = (Inr (), t)" by (metis prod.collapse)
  then obtain r r' where r: "security r = security (seen st s)" "save_query u v n r = Inr (1, r')"
    using assms(4) by (auto elim!: SaveSecurity_Inr)
  have "iam_inv (seen st s)" "stale u n (seen st s)" using seen_ok [OF assms(1,2)] stale_le [OF assms(3)] by blast+
  then show False using save_query_Inr(1) [OF r(2)] stale_unique unfolding r(1) by blast
qed

section \<open>Consuming a proof\<close>

text \<open>What a successful consumption has checked and written.\<close>

definition proof_used :: "string \<Rightarrow> int \<Rightarrow> int \<Rightarrow> string \<Rightarrow> UserSecuritySettingRow \<Rightarrow> UserSecuritySettingRow \<Rightarrow> bool" where
  "proof_used u n step rcv x y \<longleftrightarrow>
     ss_user_id x = u \<and> ss_version x = n \<and> byte_count (ss_totp_secret x) > 0 \<and> ss_user_id y = u \<and> ss_version y = n + 1 \<and>
     (if rcv = [] then ss_last_totp_step x < step \<and> ss_last_totp_step y = step
      else rcv \<in> set (ss_recovery_hashes x) \<and> rcv \<notin> set (ss_recovery_hashes y) \<and> ss_last_totp_step y = ss_last_totp_step x)"

lemma SaveConsumed_row:
  assumes "SaveConsumedSecurityCredential u step hs s = Inr (k, t)" and "x \<in> set (security s)" and "ss_user_id x = u"
  shows "bump (x\<lparr>ss_last_totp_step := step, ss_recovery_hashes := hs\<rparr>) \<in> set (security t)"
proof -
  let ?f = "\<lambda>x. bump (x\<lparr>ss_last_totp_step := step, ss_recovery_hashes := hs\<rparr>)"
  have t: "t = map_security (\<lambda>x. ss_user_id x = u) ?f s"
    using assms(1) by (simp add: SaveConsumedSecurityCredential_def Let_def split: if_splits)
  show ?thesis unfolding t by (rule map_security_member [of x s "\<lambda>x. ss_user_id x = u" ?f]) (use assms in simp_all)
qed

lemma ensures_record:
  "ensures (\<lambda>t. security t = xs) (record_credential sha now c) (\<lambda>_ t. security t = xs)"
proof -
  have prune: "ensures (\<lambda>t. security t = xs) (txq PruneAuthenticationConsumptions) (\<lambda>_ t. security t = xs)"
    by (rule ensures_txq) (auto simp: PruneAuthenticationConsumptions_def)
  have insert: "ensures (\<lambda>t. security t = xs) (txq (InsertAuthenticationConsumption i e)) (\<lambda>_ t. security t = xs)" for i e
    by (rule ensures_txq) (auto simp: InsertAuthenticationConsumption_def split: if_splits)
  show ?thesis unfolding record_credential_def
    by (rule ensures_if, rule ensures_retE, assumption, rule ensures_bindE [OF prune], rule ensures_mapErrE, rule insert)
qed

lemma consume_tx_used:
  assumes "iam_inv s" and "consume_tx sha now u c n step rcv s = (Inr k, t)"
  shows "\<exists>x \<in> set (security s). \<exists>y \<in> set (security t). proof_used u n step rcv x y"
proof -
  let ?Q = "\<lambda>_ t. \<exists>x \<in> set (security s). \<exists>y \<in> set (security t). proof_used u n step rcv x y"
  let ?same = "\<lambda>t. security t = security s"
  have lock: "ensures ?same (txq (LockSecuritySettings u)) (\<lambda>x t. ?same t \<and> (x \<in> set (security s) \<and> ss_user_id x = u))"
    by (rule ensures_read [OF reads_locks(6)]) (auto simp: LockSecuritySettings_def find_Some_iff)
  have used: "ensures ?same (txq (SaveConsumedSecurityCredential u st hs)) ?Q"
    if "x \<in> set (security s)" "ss_user_id x = u"
      "proof_used u n step rcv x (bump (x\<lparr>ss_last_totp_step := st, ss_recovery_hashes := hs\<rparr>))" for x st hs
  proof (rule ensures_txq)
    fix p k t
    assume "security p = security s" and "SaveConsumedSecurityCredential u st hs p = Inr (k, t)"
    then have "bump (x\<lparr>ss_last_totp_step := st, ss_recovery_hashes := hs\<rparr>) \<in> set (security (next_call t))"
      using SaveConsumed_row that(1,2) by simp
    with that(1,3) show "\<exists>x \<in> set (security s). \<exists>y \<in> set (security (next_call t)). proof_used u n step rcv x y" by blast
  qed
  have "ensures ?same (consume_tx sha now u c n step rcv) ?Q"
    unfolding consume_tx_def
  proof (rule ensures_fact [OF lock], rule ensures_if, rule ensures_failE, rule ensures_bindE [OF ensures_record])
    fix x
    assume x: "x \<in> set (security s) \<and> ss_user_id x = u" and v: "\<not> (ss_version x \<noteq> n \<or> byte_count (ss_totp_secret x) = 0)"
    show "ensures ?same (if rcv \<noteq> [] then
       (if (case ss_recovery_codes_expires_at x of None \<Rightarrow> True | Some e \<Rightarrow> \<not> e > now) then failE ErrInvalidCode
        else if rcv \<notin> set (ss_recovery_hashes x) then failE ErrInvalidCode
        else txq (SaveConsumedSecurityCredential u (ss_last_totp_step x) (filter (\<lambda>h. h \<noteq> rcv) (ss_recovery_hashes x))))
     else if step \<le> ss_last_totp_step x then failE ErrInvalidCode
     else txq (SaveConsumedSecurityCredential u step (ss_recovery_hashes x))) ?Q"
      by (intro ensures_if ensures_failE; rule used [of x]) (use x v in \<open>simp_all add: proof_used_def\<close>)
  qed
  from ensuresD [OF this _ assms(2)] show ?thesis by simp
qed

lemma ConsumeCredential_used:
  assumes "iam_rely (st_env st)" and "iam_inv s" and "ConsumeCredential st sha now i c n step rcv s = (Inr (), t)" and "st_scan st i = Some u"
  shows "\<exists>x \<in> set (security (seen st s)). \<exists>y \<in> set (security t). proof_used u n step rcv x y"
proof -
  have "run_tx st (consume_tx sha now u c n step rcv) s = (Inr (), t)"
    using assms(3,4) by (auto simp: ConsumeCredential_def bindE_eq_Inr)
  then obtain t' where "consume_tx sha now u c n step rcv (next_call (seen st s)) = (Inr (), t')" "t = next_call t'"
    by (rule run_tx_Inr)
  with consume_tx_used [of "next_call (seen st s)"] seen_ok [OF assms(1,2)] show ?thesis by simp
qed

lemma ConsumeCredential_stale:
  assumes "iam_rely (st_env st)" and "iam_inv s" and "stale u n s" and "st_scan st i = Some u"
  shows "fst (ConsumeCredential st sha now i c n step rcv s) \<noteq> Inr ()"
proof
  assume "fst (ConsumeCredential st sha now i c n step rcv s) = Inr ()"
  then obtain t where t: "ConsumeCredential st sha now i c n step rcv s = (Inr (), t)" by (metis prod.collapse)
  obtain x where "x \<in> set (security (seen st s))" "ss_user_id x = u" "ss_version x = n"
    using ConsumeCredential_used [OF assms(1,2) t assms(4)] unfolding proof_used_def by blast
  moreover have "iam_inv (seen st s)" "stale u n (seen st s)" using seen_ok [OF assms(1,2)] stale_le [OF assms(3)] by blast+
  ultimately show False using stale_unique by blast
qed

lemma stale_later:
  assumes "iam_inv t" and "stale u n t" and "iam_runs t t'" and "\<And>k r. iam_runs r (st_env st k r)" and "st_scan st j = Some u"
  shows "fst (SaveSecurity st j v n t') \<noteq> Inr () \<and> fst (ConsumeCredential st sha now j c n step rcv t') \<noteq> Inr ()"
proof -
  have rely: "iam_rely (st_env st)" using assms(4) by (rule runs_rely)
  have "iam_inv t'" "stale u n t'" using runs_ok [OF assms(3,1)] stale_le [OF assms(2)] by blast+
  then show ?thesis using SaveSecurity_stale [OF rely] ConsumeCredential_stale [OF rely] assms(5) by blast
qed

text \<open>
  C8: second factors are written under optimistic locking. A write that was based on version \<open>n\<close> and
  succeeded left version \<open>n + 1\<close> with exactly the written mode, secret and recovery codes, and in every
  later state a write or a proof based on version \<open>n\<close> is refused, whichever process makes it.
\<close>

theorem no_lost_security_update:
  assumes "SaveSecurity st i v n s = (Inr (), t)" and "iam_inv s" and "\<And>k r. iam_runs r (st_env st k r)"
    and "iam_runs t t'" and "\<And>k r. iam_runs r (st_env st' k r)" and "st_scan st' j = st_scan st i"
  shows "(\<exists>y \<in> set (security t). st_scan st i = Some (ss_user_id y) \<and> ss_version y = n + 1 \<and> ss_mode y = sec_Mode v \<and>
      ss_totp_secret y = sec_Secret v \<and> ss_recovery_hashes y = sec_RecoveryHashes v) \<and>
    fst (SaveSecurity st' j v' n t') \<noteq> Inr () \<and> fst (ConsumeCredential st' sha now j c n step rcv t') \<noteq> Inr ()"
proof -
  have rely: "iam_rely (st_env st)" using assms(3) by (rule runs_rely)
  obtain u r r' where u: "st_scan st i = Some u" and r: "save_query u v n r = Inr (1, r')" "security t = security r'"
    using assms(1) by (rule SaveSecurity_Inr)
  obtain y where y: "y \<in> set (security t)" "ss_user_id y = u" "ss_version y = n + 1" "ss_mode y = sec_Mode v"
    "ss_totp_secret y = sec_Secret v" "ss_recovery_hashes y = sec_RecoveryHashes v"
    using save_query_Inr(2) [OF r(1)] r(2) by auto
  have "iam_inv t" using guar_SaveSecurity [OF rely, of i v n] assms(1,2) by (metis guar_by_def snd_conv)
  moreover have "stale u n t" using y(1-3) by (auto simp: stale_def)
  ultimately have "fst (SaveSecurity st' j v' n t') \<noteq> Inr () \<and> fst (ConsumeCredential st' sha now j c n step rcv t') \<noteq> Inr ()"
    using stale_later [OF _ _ assms(4,5)] u assms(6) by simp
  with u y show ?thesis by auto
qed

text \<open>
  C7: a second-factor proof is accepted at most once. A time-based code is accepted only for a step
  after the last accepted one, which it becomes; a recovery code is accepted only if it is left and is
  then gone; and afterwards no proof for the same version is accepted in any later state.
\<close>

theorem second_factor_proof_single_use:
  assumes "ConsumeCredential st sha now i c n step rcv s = (Inr (), t)" and "iam_inv s" and "\<And>k r. iam_runs r (st_env st k r)"
    and "iam_runs t t'" and "\<And>k r. iam_runs r (st_env st' k r)" and "st_scan st' j = st_scan st i"
  shows "(\<exists>x \<in> set (security (seen st s)). \<exists>y \<in> set (security t).
      st_scan st i = Some (ss_user_id x) \<and> ss_user_id y = ss_user_id x \<and> ss_version x = n \<and> ss_version y = n + 1 \<and>
      (if rcv = [] then ss_last_totp_step x < step \<and> ss_last_totp_step y = step
       else rcv \<in> set (ss_recovery_hashes x) \<and> rcv \<notin> set (ss_recovery_hashes y))) \<and>
    fst (ConsumeCredential st' sha' now' j c' n step' rcv' t') \<noteq> Inr ()"
proof -
  have rely: "iam_rely (st_env st)" using assms(3) by (rule runs_rely)
  obtain u where u: "st_scan st i = Some u" using assms(1) by (auto simp: ConsumeCredential_def bindE_eq_Inr)
  obtain x y where xy: "x \<in> set (security (seen st s))" "y \<in> set (security t)" "proof_used u n step rcv x y"
    using ConsumeCredential_used [OF rely assms(2,1) u] by blast
  have "iam_inv t" using guar_factors(5) [OF rely, of sha now i c n step rcv] assms(1,2) by (metis guar_by_def snd_conv)
  moreover have "stale u n t" using xy by (auto simp: stale_def proof_used_def)
  ultimately have "fst (ConsumeCredential st' sha' now' j c' n step' rcv' t') \<noteq> Inr ()"
    using stale_later [OF _ _ assms(4,5)] u assms(6) by simp
  moreover have "st_scan st i = Some (ss_user_id x) \<and> ss_user_id y = ss_user_id x \<and> ss_version x = n \<and> ss_version y = n + 1 \<and>
      (if rcv = [] then ss_last_totp_step x < step \<and> ss_last_totp_step y = step
       else rcv \<in> set (ss_recovery_hashes x) \<and> rcv \<notin> set (ss_recovery_hashes y))"
    using xy(3) u by (simp add: proof_used_def split: if_splits)
  ultimately show ?thesis using xy(1,2) by blast
qed

section \<open>Passwords\<close>

lemma Invalidate_row:
  assumes "InvalidatePasswordCredentials u s = Inr (k, t)" and "x \<in> set (security s)" and "ss_user_id x = u"
  shows "bump (x\<lparr>ss_pending_secret := None, ss_pending_expires_at := None\<rparr>) \<in> set (security t)"
proof -
  let ?f = "\<lambda>x. bump (x\<lparr>ss_pending_secret := None, ss_pending_expires_at := None\<rparr>)"
  have t: "t = map_security (\<lambda>x. ss_user_id x = u) ?f s"
    using assms(1) by (simp add: InvalidatePasswordCredentials_def Let_def split: if_splits)
  show ?thesis unfolding t by (rule map_security_member [of x s "\<lambda>x. ss_user_id x = u" ?f]) (use assms in simp_all)
qed

text \<open>What the transaction of a password change leaves: the new hash and, from every earlier factor, a later one.\<close>

definition password_changed :: "string \<Rightarrow> string \<Rightarrow> iam_db \<Rightarrow> iam_db \<Rightarrow> bool" where
  "password_changed u hash s t \<longleftrightarrow>
     (\<exists>w \<in> set (users t). us_id w = u \<and> us_password_hash w = hash) \<and>
     (\<exists>y \<in> set (security t). ss_user_id y = u \<and> ss_pending_secret y = None) \<and>
     (\<forall>x \<in> set (security s). ss_user_id x = u \<longrightarrow> stale u (ss_version x) t)"

definition password_tx :: "string \<Rightarrow> string \<Rightarrow> unit iam_op" where
  "password_tx u hash =
     bindE (mapped (txq (InvalidatePasswordCredentials u))) (\<lambda>_.
     bindE (mapped (txq (UpdateUserPassword u hash))) (\<lambda>n.
     if n = 0 then failE ErrNotFound else retE ()))"

lemma password_changed_tx:
  "ensures (\<lambda>t. set (security s) \<subseteq> set (security t)) (bindE (mapped (txq (LockSecuritySettings u))) (\<lambda>_. password_tx u hash))
     (\<lambda>_ t. password_changed u hash s t)"
proof -
  let ?sec = "\<lambda>t. (\<exists>y \<in> set (security t). ss_user_id y = u \<and> ss_pending_secret y = None) \<and>
     (\<forall>x \<in> set (security s). ss_user_id x = u \<longrightarrow> stale u (ss_version x) t)"
  let ?old = "\<lambda>t. set (security s) \<subseteq> set (security t) \<and> (\<exists>x \<in> set (security t). ss_user_id x = u)"
  have lock: "ensures (\<lambda>t. set (security s) \<subseteq> set (security t)) (txq (LockSecuritySettings u)) (\<lambda>_. ?old)"
    by (rule ensures_read [OF reads_locks(6)]) (auto simp: LockSecuritySettings_def find_Some_iff)
  have inval: "ensures ?old (txq (InvalidatePasswordCredentials u)) (\<lambda>_. ?sec)"
  proof (rule ensures_txq)
    fix r k t
    assume r: "?old r" and q: "InvalidatePasswordCredentials u r = Inr (k, t)"
    have row: "\<exists>y \<in> set (security t). ss_user_id y = u \<and> ss_pending_secret y = None \<and> ss_version x < ss_version y"
      if "x \<in> set (security r)" "ss_user_id x = u" for x
      by (rule bexI [OF _ Invalidate_row [OF q that]]) (simp add: that)
    then show "?sec (next_call t)" using r unfolding stale_next unfolding stale_def by simp blast
  qed
  have upd: "ensures ?sec (txq (UpdateUserPassword u hash)) (\<lambda>n t. n \<noteq> 0 \<longrightarrow> password_changed u hash s t)"
  proof (rule ensures_txq, rule impI)
    fix r n t
    assume r: "?sec r" and q: "UpdateUserPassword u hash r = Inr (n, t)" and "n \<noteq> 0"
    let ?f = "\<lambda>v. if us_id v = u then v\<lparr>us_password_hash := hash, us_updated_at := sql_now r\<rparr> else v"
    have t: "t = r\<lparr>users := map ?f (users r)\<rparr>" and n: "n = int (length (filter (\<lambda>v. us_id v = u) (users r)))"
      using q by (simp_all add: UpdateUserPassword_def split: if_splits)
    from n \<open>n \<noteq> 0\<close> have "filter (\<lambda>v. us_id v = u) (users r) \<noteq> []" by auto
    then obtain v where v: "v \<in> set (users r)" "us_id v = u" by (auto simp: filter_empty_conv)
    have "?f v \<in> set (users t)" unfolding t using v(1) by simp
    then have "\<exists>w \<in> set (users t). us_id w = u \<and> us_password_hash w = hash" by (rule rev_bexI) (simp add: v(2))
    moreover have "security t = security r" by (simp add: t)
    ultimately show "password_changed u hash s (next_call t)" using r by (simp add: password_changed_def stale_def)
  qed
  show ?thesis unfolding password_tx_def
    by (rule ensures_bindE [OF ensures_mapErrE [OF lock]], rule ensures_bindE [OF ensures_mapErrE [OF inval]],
        rule ensures_bindE [OF ensures_mapErrE [OF upd]], rule ensures_if, rule ensures_failE, rule ensures_retE, simp)
qed

lemma UpdatePassword_changed:
  assumes "UpdatePassword st i hash s = (Inr (), t)" and "st_scan st i = Some u"
  shows "password_changed u hash (seen st s) t"
proof -
  have "withTransaction st (bindE (mapped (txq (EnsureSecuritySettings u)))
      (\<lambda>_. bindE (mapped (txq (LockSecuritySettings u))) (\<lambda>_. password_tx u hash))) s = (Inr (), t)"
    using assms by (auto simp: UpdatePassword_def withLockedSecurity_def password_tx_def bindE_eq_Inr)
  then obtain t' where t': "bindE (mapped (txq (EnsureSecuritySettings u)))
      (\<lambda>_. bindE (mapped (txq (LockSecuritySettings u))) (\<lambda>_. password_tx u hash)) (next_call (seen st s)) = (Inr (), t')"
    "t = next_call t'" by (rule withTransaction_Inr)
  have ensure: "ensures (\<lambda>t. security t = security (seen st s)) (mapped (txq (EnsureSecuritySettings u)))
      (\<lambda>_ t. set (security (seen st s)) \<subseteq> set (security t))"
    by (intro ensures_mapErrE ensures_txq) (auto simp: EnsureSecuritySettings_def split: if_splits)
  have "password_changed u hash (seen st s) t'"
    using ensuresD [OF ensures_bindE [OF ensure password_changed_tx] _ t'(1)] by simp
  then show ?thesis unfolding t'(2) by (simp add: password_changed_def)
qed

text \<open>
  C9: a successful change of the password stores the new hash and, in the same transaction, ends
  everything the old password authorised: a pending enrolment is gone, and every challenge or write
  bound to a version from before is refused in every later state.
\<close>

theorem password_change_invalidates:
  assumes "UpdatePassword st i hash s = (Inr (), t)" and "iam_inv s" and "\<And>k r. iam_runs r (st_env st k r)"
    and "iam_runs t t'" and "\<And>k r. iam_runs r (st_env st' k r)" and "st_scan st' j = st_scan st i"
    and "x \<in> set (security s)" and "st_scan st i = Some (ss_user_id x)"
  shows "(\<exists>w \<in> set (users t). us_id w = ss_user_id x \<and> us_password_hash w = hash) \<and>
    (\<exists>y \<in> set (security t). ss_user_id y = ss_user_id x \<and> ss_pending_secret y = None) \<and>
    fst (ConsumeCredential st' sha now j c (ss_version x) step rcv t') \<noteq> Inr () \<and>
    fst (SaveSecurity st' j v (ss_version x) t') \<noteq> Inr ()"
proof -
  have rely: "iam_rely (st_env st)" using assms(3) by (rule runs_rely)
  have ch: "password_changed (ss_user_id x) hash (seen st s) t" using UpdatePassword_changed [OF assms(1,8)] .
  have "iam_le s (seen st s)" using seen_ok [OF rely assms(2)] by blast
  then obtain x' where x': "x' \<in> set (security (seen st s))" "ss_user_id x' = ss_user_id x" "ss_version x \<le> ss_version x'"
    using assms(7) unfolding iam_le_def security_le_def factor_le_def by (metis order.strict_implies_order order_refl)
  then have "stale (ss_user_id x) (ss_version x') t" using ch by (simp add: password_changed_def)
  then have "stale (ss_user_id x) (ss_version x) t" using x'(3) unfolding stale_def by (metis order.strict_trans1)
  moreover have "iam_inv t" using guar_UpdatePassword [OF rely, of i hash] assms(1,2) by (metis guar_by_def snd_conv)
  ultimately have "fst (SaveSecurity st' j v (ss_version x) t') \<noteq> Inr () \<and>
      fst (ConsumeCredential st' sha now j c (ss_version x) step rcv t') \<noteq> Inr ()"
    using stale_later [OF _ _ assms(4,5)] assms(6,8) by simp
  with ch show ?thesis unfolding password_changed_def by blast
qed

end
