(* ===== verification/Iam_Registration.thy ===== *)
theory Iam_Registration
  imports Iam_Security
begin

text \<open>
  Registration and the verification of addresses: the policy that an accepted registration satisfied,
  exactly what it stores, and the single use of email receipts; and the operations that replace the
  roles of a user, at the level of the store. At the end, one concrete installation on which the
  theorems about the identity stores are applied.
\<close>

section \<open>Email receipts\<close>

definition receipt_entry :: "CodeReceipt \<Rightarrow> string \<times> int" where
  "receipt_entry r = (''email:'' @ rec_ID r, rec_ExpiresAt r)"

text \<open>The receipt is recorded and the database's clock does not get past its expiry.\<close>

definition remembered :: "CodeReceipt \<Rightarrow> iam_db \<Rightarrow> bool" where
  "remembered r t \<longleftrightarrow> receipt_entry r \<in> set (consumptions t) \<and> (\<forall>k. db_clock t k \<le> rec_ExpiresAt r)"

lemma remembered_le: "remembered r s \<Longrightarrow> iam_le s t \<Longrightarrow> remembered r t"
  by (auto simp: remembered_def receipt_entry_def iam_le_def consumptions_le_def not_less [symmetric])

lemma remembered_next [simp]: "remembered r (next_call t) = remembered r t"
  by (simp add: remembered_def)

lemma ensures_remembered:
  assumes "\<And>s x t. q s = Inr (x, t) \<Longrightarrow> consumptions t = consumptions s \<and> db_clock t = db_clock s"
  shows "ensures (remembered r) (txq q) (\<lambda>_. remembered r)"
  by (rule ensures_txq) (use assms in \<open>simp add: remembered_def\<close>)

lemma use_receipt_twice:
  assumes "rec_ID r' = rec_ID r"
  shows "ensures (remembered r) (use_receipt r') Q"
proof -
  have prune: "ensures (remembered r) (txq PruneAuthenticationConsumptions) (\<lambda>_. remembered r)"
    by (rule ensures_txq) (auto simp: PruneAuthenticationConsumptions_def remembered_def receipt_entry_def sql_now_def not_less)
  have "\<not> remembered r s" if "InsertAuthenticationConsumption (''email:'' @ rec_ID r') e s = Inr (k, t)" for s e k t
    using that assms by (auto simp: InsertAuthenticationConsumption_def remembered_def receipt_entry_def image_iff split: if_splits)
  then have "ensures (remembered r) (txq (InsertAuthenticationConsumption (''email:'' @ rec_ID r') e)) Q" for e
    by (intro ensures_txq) blast
  then show ?thesis unfolding use_receipt_def
    by (intro ensures_bindE [OF prune] ensures_mapErrE)
qed

lemma use_receipt_records: "ensures P (use_receipt r) (\<lambda>_ t. receipt_entry r \<in> set (consumptions t))"
proof -
  have "ensures (\<lambda>_. True) (txq (InsertAuthenticationConsumption (''email:'' @ rec_ID r) (rec_ExpiresAt r))) (\<lambda>_ t. receipt_entry r \<in> set (consumptions t))"
    by (rule ensures_txq) (auto simp: InsertAuthenticationConsumption_def receipt_entry_def split: if_splits)
  then show ?thesis unfolding use_receipt_def
    by (intro ensures_bindE [where Q = "\<lambda>_ _. True"] ensures_mapErrE) (simp_all add: ensures_def)
qed

lemma use_receipt_never: "rec_ID r' = rec_ID r \<Longrightarrow> ensures (remembered r) (bindE (use_receipt r') f) Q"
  by (rule ensures_bindE [OF use_receipt_twice [where Q = "\<lambda>_ _. False"]]) (simp_all add: ensures_def)

lemma quiet_statements:
  "EnsureSecuritySettings u s = Inr (x1, t) \<Longrightarrow> consumptions t = consumptions s \<and> db_clock t = db_clock s"
  "LockSecuritySettings u s = Inr (x2, t) \<Longrightarrow> consumptions t = consumptions s \<and> db_clock t = db_clock s"
  "lock_user u s = Inr (x3, t) \<Longrightarrow> consumptions t = consumptions s \<and> db_clock t = db_clock s"
  "GetUserByID u s = Inr (x4, t) \<Longrightarrow> consumptions t = consumptions s \<and> db_clock t = db_clock s"
  "LockAuthenticationSettings s = Inr (x5, t) \<Longrightarrow> consumptions t = consumptions s \<and> db_clock t = db_clock s"
  by (auto simp: EnsureSecuritySettings_def LockSecuritySettings_def lock_user_def GetUserByID_def LockAuthenticationSettings_def
      split: if_splits sum.splits)

lemma verify_email_twice:
  assumes "rec_ID r' = rec_ID r"
  shows "ensures (remembered r) (verify_email_tx now u e r') (\<lambda>_ _. False)"
  unfolding verify_email_tx_def
  by (rule ensures_bindE [OF ensures_remembered], erule quiet_statements,
      rule ensures_bindE [OF ensures_mapErrE [OF ensures_remembered]], erule quiet_statements,
      rule ensures_bindE [OF ensures_mapErrE [OF ensures_remembered]], erule quiet_statements,
      rule ensures_bindE [OF ensures_mapErrE [OF ensures_remembered]], erule quiet_statements,
      intro ensures_if ensures_failE, rule use_receipt_never [OF assms])

lemma created_unverified: "ensures P (create_registered input False) (\<lambda>u _. user_EmailVerifiedAt u = None)"
proof -
  have "ensures P (txq (CreateUser a b c d)) (\<lambda>w _. us_email_verified_at w = None)" for a b c d
    by (rule ensures_txq) (auto simp: CreateUser_def Let_def split: if_splits)
  note create = ensures_bindE [OF ensures_mapErrE [OF this]]
  show ?thesis unfolding create_registered_def
    by (rule create, simp, rule ensures_bindE [where Q = "\<lambda>w _. us_email_verified_at w = None"])
      (auto simp: ensures_def bindE_eq_Inr userFromDB_def)
qed

lemma policy_receipt: "registration_policy a now e receipt = Inr (Some c) \<Longrightarrow> receipt = Some c"
  by (auto simp: registration_policy_def Let_def split: if_splits option.splits)

lemma register_twice:
  assumes "rec_ID r' = rec_ID r"
  shows "ensures (remembered r) (register_tx now input (Some r')) (\<lambda>u _. user_EmailVerifiedAt u = None)"
  unfolding register_tx_def
proof (rule ensures_bindE [OF ensures_remembered], erule quiet_statements,
    rule ensures_fact [where Q = "remembered r" and F = "\<lambda>x. x = None \<or> x = Some r'"])
  fix a x
  show "ensures (remembered r) (liftE (registration_policy a now (cu_Email input) (Some r'))) (\<lambda>x t. remembered r t \<and> (x = None \<or> x = Some r'))"
    using policy_receipt [of a now "cu_Email input" "Some r'"] by (auto simp: ensures_def) (metis option.exhaust option.inject)
  assume "x = None \<or> x = Some r'"
  then show "ensures (remembered r) (bindE (case x of None \<Rightarrow> retE () | Some c \<Rightarrow> use_receipt c) (\<lambda>_. create_registered input (x \<noteq> None)))
      (\<lambda>u _. user_EmailVerifiedAt u = None)"
  proof
    assume "x = None"
    then show ?thesis by (simp add: ensures_bindE [OF ensures_retE created_unverified])
  next
    assume "x = Some r'"
    then show ?thesis using use_receipt_never [OF assms] by simp
  qed
qed

lemma recorded_kept:
  assumes "\<And>s x t. q s = Inr (x, t) \<Longrightarrow> consumptions t = consumptions s"
  shows "ensures (\<lambda>t. c \<in> set (consumptions t)) (txq q) (\<lambda>_ t. c \<in> set (consumptions t))"
  by (rule ensures_txq) (use assms in simp)

lemma verify_email_records: "ensures (\<lambda>_. True) (verify_email_tx now u e r) (\<lambda>_ t. receipt_entry r \<in> set (consumptions t))"
proof -
  have mark: "ensures (\<lambda>t. receipt_entry r \<in> set (consumptions t)) (txq (MarkEmailVerified u)) (\<lambda>_ t. receipt_entry r \<in> set (consumptions t))"
    by (rule recorded_kept) (auto simp: MarkEmailVerified_def Let_def split: option.splits)
  show ?thesis unfolding verify_email_tx_def
    by (rule ensures_bindE [where Q = "\<lambda>_ _. True"], simp add: ensures_def, rule ensures_bindE [where Q = "\<lambda>_ _. True"], simp add: ensures_def,
        rule ensures_bindE [where Q = "\<lambda>_ _. True"], simp add: ensures_def, rule ensures_bindE [where Q = "\<lambda>_ _. True"], simp add: ensures_def,
        intro ensures_if ensures_failE, rule ensures_bindE [OF use_receipt_records], rule ensures_bindE [OF mark], rule ensures_retE, assumption)
qed

lemma create_registered_records:
  "ensures (\<lambda>t. c \<in> set (consumptions t)) (create_registered input mail) (\<lambda>_ t. c \<in> set (consumptions t))"
proof -
  have "ensures (\<lambda>t. c \<in> set (consumptions t)) (txq (CreateUser a b x y)) (\<lambda>_ t. c \<in> set (consumptions t))" for a b x y
    by (rule recorded_kept) (auto simp: CreateUser_def Let_def split: if_splits)
  moreover have "ensures (\<lambda>t. c \<in> set (consumptions t)) (txq (MarkEmailVerified u)) (\<lambda>_ t. c \<in> set (consumptions t))" for u
    by (rule recorded_kept) (auto simp: MarkEmailVerified_def Let_def split: option.splits)
  moreover have "ensures (\<lambda>t. c \<in> set (consumptions t)) (txq (GetRoleByName n)) (\<lambda>_ t. c \<in> set (consumptions t))" for n
    by (rule recorded_kept) (auto simp: GetRoleByName_def split: option.splits)
  moreover have "ensures (\<lambda>t. c \<in> set (consumptions t)) (txq (AssignUserRole u x)) (\<lambda>_ t. c \<in> set (consumptions t))" for u x
    by (rule recorded_kept) (auto simp: AssignUserRole_def split: if_splits)
  ultimately show ?thesis unfolding create_registered_def
    by (intro ensures_bindE ensures_mapErrE ensures_if ensures_retE) assumption+
qed

lemma register_records:
  "ensures (\<lambda>_. True) (register_tx now input (Some r)) (\<lambda>u t. user_EmailVerifiedAt u \<noteq> None \<longrightarrow> receipt_entry r \<in> set (consumptions t))"
  unfolding register_tx_def
proof (rule ensures_bindE [where Q = "\<lambda>_ _. True"], simp add: ensures_def,
    rule ensures_fact [where Q = "\<lambda>_. True" and F = "\<lambda>x. x = None \<or> x = Some r"])
  fix a x
  show "ensures (\<lambda>_. True) (liftE (registration_policy a now (cu_Email input) (Some r))) (\<lambda>x t. True \<and> (x = None \<or> x = Some r))"
    using policy_receipt [of a now "cu_Email input" "Some r"] by (auto simp: ensures_def) (metis option.exhaust option.inject)
  assume "x = None \<or> x = Some r"
  then show "ensures (\<lambda>_. True) (bindE (case x of None \<Rightarrow> retE () | Some c \<Rightarrow> use_receipt c) (\<lambda>_. create_registered input (x \<noteq> None)))
      (\<lambda>u t. user_EmailVerifiedAt u \<noteq> None \<longrightarrow> receipt_entry r \<in> set (consumptions t))"
  proof
    assume "x = None"
    then show ?thesis by simp (rule ensures_bindE [OF ensures_retE ensures_weaken [OF created_unverified]], auto)
  next
    assume "x = Some r"
    then show ?thesis
      by simp (rule ensures_weaken [OF ensures_bindE [OF use_receipt_records create_registered_records]], simp)
  qed
qed

text \<open>
  The two ways a receipt verifies an address: the confirmation of an existing account's address, and a registration
  that yields a verified account.
\<close>

definition verified_with :: "AuthenticationStore \<Rightarrow> int \<Rightarrow> CodeReceipt \<Rightarrow> iam_db \<Rightarrow> User \<Rightarrow> iam_db \<Rightarrow> bool" where
  "verified_with st now r s u t \<longleftrightarrow> (\<exists>i e. VerifyEmail st now i e r s = (Inr u, t)) \<or>
     (\<exists>input. Register_user st now input (Some r) s = (Inr u, t) \<and> user_EmailVerifiedAt u \<noteq> None)"

lemma verified_with_records:
  assumes "verified_with st now r s u t" and "iam_inv s" and "iam_rely (st_env st)"
  shows "receipt_entry r \<in> set (consumptions t) \<and> iam_le s t \<and> iam_inv t"
  using assms(1) unfolding verified_with_def
proof (elim disjE exE conjE)
  fix i e assume run: "VerifyEmail st now i e r s = (Inr u, t)"
  then obtain i' p where p: "verify_email_tx now i' e r (next_call (seen st s)) = (Inr u, p)" "t = next_call p"
    by (auto simp: VerifyEmail_def bindE_eq_Inr elim: run_tx_Inr)
  from ensuresD [OF verify_email_records _ p(1)] have "receipt_entry r \<in> set (consumptions t)" by (simp add: p(2))
  with run guar_registration(2) [OF assms(3), of now i e r] assms(2) show ?thesis by (metis guar_by_def snd_conv)
next
  fix input assume run: "Register_user st now input (Some r) s = (Inr u, t)" and ver: "user_EmailVerifiedAt u \<noteq> None"
  then obtain p where p: "register_tx now input (Some r) (next_call (seen st s)) = (Inr u, p)" "t = next_call p"
    unfolding Register_user_def by (elim run_tx_Inr)
  from ensuresD [OF register_records _ p(1)] ver have "receipt_entry r \<in> set (consumptions t)" by (simp add: p(2))
  with run guar_registration(1) [OF assms(3), of now input "Some r"] assms(2) show ?thesis by (metis guar_by_def snd_conv)
qed

lemma remembered_not_verified:
  assumes "remembered r (next_call (seen st s))" and "rec_ID r' = rec_ID r"
  shows "\<not> verified_with st now r' s u t"
  unfolding verified_with_def
proof (intro notI, elim disjE exE conjE)
  fix i e assume "VerifyEmail st now i e r' s = (Inr u, t)"
  then obtain j p where "verify_email_tx now j e r' (next_call (seen st s)) = (Inr u, p)"
    by (auto simp: VerifyEmail_def bindE_eq_Inr elim: run_tx_Inr)
  from ensuresD [OF verify_email_twice [OF assms(2)] assms(1) this] show False .
next
  fix input assume run: "Register_user st now input (Some r') s = (Inr u, t)" and "user_EmailVerifiedAt u \<noteq> None"
  moreover from run obtain p where "register_tx now input (Some r') (next_call (seen st s)) = (Inr u, p)"
    unfolding Register_user_def by (rule run_tx_Inr)
  from ensuresD [OF register_twice [OF assms(2)] assms(1) this] have "user_EmailVerifiedAt u = None" .
  ultimately show False by blast
qed

text \<open>
  C25: an email receipt verifies an address at most once, whichever of the two ways uses it first and whichever is
  tried later. After a confirmation of an address with it, or a registration that yielded a verified account, and as
  long as the database's clock has not passed its expiry, no confirmation with the same receipt succeeds in any later
  state of the tables, and no registration with it yields a verified account.
\<close>

theorem email_receipt_single_use:
  assumes "verified_with st now r s u t" and "iam_inv s" and "\<And>k p. iam_runs p (st_env st k p)"
    and "iam_runs t t'" and "\<And>k p. iam_runs p (st_env st' k p)"
    and "\<And>k. db_clock s k \<le> rec_ExpiresAt r" and "rec_ID r' = rec_ID r"
  shows "fst (VerifyEmail st' now' j e' r' t') \<noteq> Inr v \<and>
    (fst (Register_user st' now' input (Some r') t') = Inr w \<longrightarrow> user_EmailVerifiedAt w = None)"
proof -
  have rely: "iam_rely (st_env st)" "iam_rely (st_env st')" using assms(3,5) runs_rely by blast+
  note first = verified_with_records [OF assms(1,2) rely(1)]
  then have "db_clock t = db_clock s" by (simp add: iam_le_def consumptions_le_def)
  then have "remembered r t" using first assms(6) by (simp add: remembered_def)
  moreover have "iam_le t (seen st' t')" using runs_ok [OF assms(4)] first seen_ok [OF rely(2)] iam_le_trans by blast
  ultimately have "remembered r (next_call (seen st' t'))" using remembered_le by simp
  from remembered_not_verified [OF this assms(7)] have no: "\<not> verified_with st' now' r' t' x t''" for x t'' .
  show ?thesis
  proof (intro conjI impI notI)
    assume "fst (VerifyEmail st' now' j e' r' t') = Inr v"
    then have "VerifyEmail st' now' j e' r' t' = (Inr v, snd (VerifyEmail st' now' j e' r' t'))" by (simp add: prod_eq_iff)
    then show False using no unfolding verified_with_def by blast
  next
    assume "fst (Register_user st' now' input (Some r') t') = Inr w"
    then have "Register_user st' now' input (Some r') t' = (Inr w, snd (Register_user st' now' input (Some r') t'))" by (simp add: prod_eq_iff)
    then show "user_EmailVerifiedAt w = None" using no unfolding verified_with_def by blast
  qed
qed

section \<open>What a registration stores\<close>

definition base :: "iam_db \<Rightarrow> iam_db \<Rightarrow> bool" where
  "base e t \<longleftrightarrow> users t = users e \<and> user_roles t = user_roles e \<and> roles t = roles e \<and> settings t = settings e"

text \<open>The account that an accepted registration adds to the tables \<open>e\<close>.\<close>

definition new_account :: "iam_db \<Rightarrow> CreateUserInput \<Rightarrow> bool \<Rightarrow> UserRow \<Rightarrow> iam_db \<Rightarrow> bool" where
  "new_account e input mail w t \<longleftrightarrow>
     us_id w \<notin> us_id ` set (users e) \<and> set (users t) = insert w (set (users e)) \<and>
     us_email w = cu_Email input \<and> us_username w = cu_Username input \<and> us_password_hash w = cu_Password input \<and>
     us_is_active w \<and> (us_email_verified_at w \<noteq> None) = mail"

lemma new_account_next [simp]: "new_account e input mail w (next_call t) = new_account e input mail w t"
  by (simp add: new_account_def)

lemma base_next [simp]: "base e (next_call t) = base e t"
  by (simp add: base_def)

lemma receipt_base: "ensures (base e) (use_receipt r) (\<lambda>_. base e)"
proof -
  have "ensures (base e) (txq PruneAuthenticationConsumptions) (\<lambda>_. base e)"
    by (rule ensures_txq) (auto simp: PruneAuthenticationConsumptions_def base_def)
  moreover have "ensures (base e) (txq (InsertAuthenticationConsumption c x)) (\<lambda>_. base e)" for c x
    by (rule ensures_txq) (auto simp: InsertAuthenticationConsumption_def base_def split: if_splits)
  ultimately show ?thesis unfolding use_receipt_def by (intro ensures_bindE ensures_mapErrE)
qed

lemma create_account:
  "ensures (base e) (txq (CreateUser (cu_Email i) (cu_Username i) (cu_Password i) (cu_DisplayName i)))
     (\<lambda>w t. new_account e i False w t \<and> user_roles t = user_roles e \<and> roles t = roles e)"
  by (rule ensures_txq) (auto simp: CreateUser_def Let_def new_account_def base_def split: if_splits)

lemma mark_account:
  "ensures (\<lambda>t. new_account e i False w t \<and> user_roles t = user_roles e \<and> roles t = roles e) (txq (MarkEmailVerified (us_id w)))
     (\<lambda>w' t. new_account e i True w' t \<and> user_roles t = user_roles e \<and> roles t = roles e)"
proof (rule ensures_txq)
  fix s x t
  assume s: "new_account e i False w s \<and> user_roles s = user_roles e \<and> roles s = roles e" and q: "MarkEmailVerified (us_id w) s = Inr (x, t)"
  define f :: "UserRow \<Rightarrow> UserRow" where "f = (\<lambda>v. if us_id v = us_id w then v\<lparr>us_email_verified_at := Some (sql_now s)\<rparr> else v)"
  have fresh: "us_id w \<notin> us_id ` set (users e)" and us: "set (users s) = insert w (set (users e))" using s by (auto simp: new_account_def)
  obtain c where c: "find (\<lambda>v. us_id v = us_id w) (users s) = Some c" and t: "t = s\<lparr>users := map f (users s)\<rparr>"
    and x: "x = c\<lparr>us_email_verified_at := Some (sql_now s)\<rparr>"
    using q by (cases "find (\<lambda>v. us_id v = us_id w) (users s)") (auto simp: MarkEmailVerified_def Let_def f_def)
  have "c \<in> set (users s)" "us_id c = us_id w" using c by (auto simp: find_Some_iff)
  then have "c = w" using fresh us by (metis image_eqI insertE)
  then have xw: "x = f w" by (simp add: x f_def)
  have "f v = v" if "v \<in> set (users e)" for v
  proof -
    have "us_id v \<noteq> us_id w" using fresh that by (metis image_eqI)
    then show ?thesis by (simp add: f_def)
  qed
  then have "f ` set (users e) = set (users e)" by simp
  then have "set (users t) = insert x (set (users e))" by (simp add: t us xw)
  then show "new_account e i True x (next_call t) \<and> user_roles (next_call t) = user_roles e \<and> roles (next_call t) = roles e"
    using s by (simp add: new_account_def xw f_def t)
qed

lemma assign_account:
  assumes "iam_inv e" and "role \<in> set (roles e)"
  shows "ensures (\<lambda>t. new_account e i mail w t \<and> user_roles t = user_roles e \<and> roles t = roles e) (txq (AssignUserRole (us_id w) (ro_id role)))
     (\<lambda>_ t. new_account e i mail w t \<and> {r. (us_id w, r) \<in> set (user_roles t)} = {ro_id role})"
proof (rule ensures_txq)
  fix s x t
  assume s: "new_account e i mail w s \<and> user_roles s = user_roles e \<and> roles s = roles e" and q: "AssignUserRole (us_id w) (ro_id role) s = Inr (x, t)"
  have none: "(us_id w, r) \<notin> set (user_roles s)" for r
    using s roles_okD(3) [OF assms(1), of "us_id w" r] by (auto simp: new_account_def)
  then have t: "t = s\<lparr>user_roles := user_roles s @ [(us_id w, ro_id role)]\<rparr>" using q by (auto simp: AssignUserRole_def split: if_splits)
  show "new_account e i mail w (next_call t) \<and> {r. (us_id w, r) \<in> set (user_roles (next_call t))} = {ro_id role}"
    using s none by (simp add: t new_account_def)
qed

lemma created_account:
  assumes "iam_inv e"
  shows "ensures (base e) (create_registered input mail) (\<lambda>u t. \<exists>w role. u = userFromDB w \<and> new_account e input mail w t \<and>
      role \<in> set (roles e) \<and> ro_name role = ''user'' \<and> {r. (us_id w, r) \<in> set (user_roles t)} = {ro_id role})"
  unfolding create_registered_def
proof (rule ensures_bindE [OF ensures_mapErrE [OF create_account]])
  fix c
  let ?A = "\<lambda>w t. new_account e input mail w t \<and> user_roles t = user_roles e \<and> roles t = roles e"
  have mark: "ensures (\<lambda>t. new_account e input False c t \<and> user_roles t = user_roles e \<and> roles t = roles e)
      (if mail then txq (MarkEmailVerified (us_id c)) else retE c) ?A"
    by (cases mail) (simp_all add: mark_account ensures_retE)
  have role: "ensures (?A w) (txq (GetRoleByName ''user'')) (\<lambda>r t. ?A w t \<and> (r \<in> set (roles e) \<and> ro_name r = ''user''))" for w
    by (rule ensures_txq) (auto simp: GetRoleByName_def find_Some_iff)
  show "ensures (\<lambda>t. new_account e input False c t \<and> user_roles t = user_roles e \<and> roles t = roles e)
      (bindE (if mail then txq (MarkEmailVerified (us_id c)) else retE c) (\<lambda>user.
       bindE (txq (GetRoleByName ''user'')) (\<lambda>role.
       bindE (txq (AssignUserRole (us_id user) (ro_id role))) (\<lambda>_. retE (userFromDB user)))))
      (\<lambda>u t. \<exists>w role. u = userFromDB w \<and> new_account e input mail w t \<and>
        role \<in> set (roles e) \<and> ro_name role = ''user'' \<and> {r. (us_id w, r) \<in> set (user_roles t)} = {ro_id role})"
    by (rule ensures_bindE [OF mark], rule ensures_fact [OF role], rule ensures_bindE [OF assign_account [OF assms]],
        blast, rule ensures_retE, blast)
qed

text \<open>
  C24: an accepted registration satisfied the policy of the locked settings (initialised, open for
  registration, allowed domain, and where verification is required an unexpired receipt), and added
  exactly one active account with the submitted identity, whose only role is \<open>user\<close> and whose
  address counts as verified exactly when the policy required the receipt.
\<close>

theorem registration_exact:
  assumes "Register_user st now input receipt s = (Inr u, t)" and "iam_inv s" and "iam_rely (st_env st)"
  shows "\<exists>a \<in> set (settings (seen st s)). as_initialized_at a \<noteq> None \<and> as_registration_enabled a \<and>
    domain_allowed (as_allowed_email_domains a) (cu_Email input) \<and>
    (as_registration_email_verification_required a \<longrightarrow> (\<exists>c. receipt = Some c \<and> now < rec_ExpiresAt c)) \<and>
    (\<exists>w role. u = userFromDB w \<and> new_account (seen st s) input (as_registration_email_verification_required a) w t \<and>
      role \<in> set (roles (seen st s)) \<and> ro_name role = ''user'' \<and> {r. (us_id w, r) \<in> set (user_roles t)} = {ro_id role})"
proof -
  let ?e = "seen st s"
  have inv: "iam_inv ?e" using seen_ok assms(2,3) by blast
  let ?Q = "\<lambda>a u t. \<exists>w role. u = userFromDB w \<and> new_account ?e input (as_registration_email_verification_required a) w t \<and>
      role \<in> set (roles ?e) \<and> ro_name role = ''user'' \<and> {r. (us_id w, r) \<in> set (user_roles t)} = {ro_id role}"
  let ?R = "\<lambda>u t. \<exists>a \<in> set (settings ?e). as_initialized_at a \<noteq> None \<and> as_registration_enabled a \<and>
    domain_allowed (as_allowed_email_domains a) (cu_Email input) \<and>
    (as_registration_email_verification_required a \<longrightarrow> (\<exists>c. receipt = Some c \<and> now < rec_ExpiresAt c)) \<and> ?Q a u t"
  have lock: "ensures (base ?e) (txq LockAuthenticationSettings) (\<lambda>a t. base ?e t \<and> a \<in> set (settings ?e))"
    by (rule ensures_txq) (auto simp: LockAuthenticationSettings_def base_def find_Some_iff)
  have policy: "ensures (base ?e) (liftE (registration_policy a now (cu_Email input) receipt))
      (\<lambda>r t. base ?e t \<and> registration_policy a now (cu_Email input) receipt = Inr r)" for a
    by (auto simp: ensures_def)
  have use: "ensures (base ?e) (case r of None \<Rightarrow> retE () | Some c \<Rightarrow> use_receipt c) (\<lambda>_. base ?e)" for r
    by (cases r) (simp_all add: receipt_base ensures_retE)
  have tx: "ensures (base ?e) (register_tx now input receipt) ?R"
    unfolding register_tx_def
  proof (rule ensures_fact [OF lock], rule ensures_fact [OF policy], rule ensures_bindE [OF use])
    fix a r
    assume a: "a \<in> set (settings ?e)" and pol: "registration_policy a now (cu_Email input) receipt = Inr r"
    have ok: "as_initialized_at a \<noteq> None" "as_registration_enabled a" "domain_allowed (as_allowed_email_domains a) (cu_Email input)"
      and c: "as_registration_email_verification_required a \<longrightarrow> (\<exists>c. receipt = Some c \<and> now < rec_ExpiresAt c)"
      and mail: "(r \<noteq> None) = as_registration_email_verification_required a"
      using pol by (auto simp: registration_policy_def Let_def split: if_splits option.splits)
    show "ensures (base ?e) (create_registered input (r \<noteq> None)) ?R"
      unfolding mail by (rule ensures_weaken [OF created_account [OF inv]]) (use a ok c in blast)
  qed
  obtain p where p: "register_tx now input receipt (next_call ?e) = (Inr u, p)" "t = next_call p"
    using assms(1) unfolding Register_user_def by (rule run_tx_Inr)
  have "base ?e (next_call ?e)" by (simp add: base_def)
  from ensuresD [OF tx this p(1)] show ?thesis unfolding p(2) by simp
qed

section \<open>Replacing roles\<close>

lemma parse_ids_Inr: "parse_ids st vs = Inr us \<longleftrightarrow> map (st_scan st) vs = map Some us"
proof (induction vs arbitrary: us)
  case (Cons v vs)
  note IH = Cons.IH
  show ?case
  proof (cases us)
    case (Cons a us')
    then show ?thesis using IH [of us'] by (cases "st_scan st v"; cases "parse_ids st vs") (auto simp: parse_id_def)
  qed (simp add: parse_id_def split: sum.split option.split)
qed auto

text \<open>
  Replacing a user's roles is exact and all or nothing. On success the user has exactly the
  given roles and nobody else's roles change; on every error except an unacknowledged commit no
  assignment changes; and when the commit is not acknowledged one of the two is the case. The tables
  compared with are those the transaction started from.
\<close>

theorem replace_user_roles_exact:
  assumes "ReplaceUserRoles st i roleIDs s = (r, t)" and "iam_inv s" and "iam_rely (st_env st)"
    and "st_scan st i = Some u" and "map (st_scan st) roleIDs = map Some rs"
  defines "replaced \<equiv> set (user_roles t) = {x \<in> set (user_roles (seen st s)). fst x \<noteq> u} \<union> {u} \<times> set rs"
  shows "(r = Inr () \<longrightarrow> replaced) \<and>
    (r \<noteq> Inr () \<longrightarrow> user_roles t = user_roles s \<or> user_roles t = user_roles (seen st s) \<or> r = Inl TxNotCommitted \<and> replaced)"
proof (cases "st_managed st")
  case True
  let ?e = "seen st s"
  have inv: "iam_inv (next_call ?e)" using seen_ok [OF assms(3,2)] by simp
  have fin: replaced if "replace_roles_tx u rs (next_call ?e) = (Inr x, p)" "t = next_call p" for x p
  proof -
    have "reassigned (next_call ?e) u rs p" using replace_roles_exact [OF inv that(1)] by blast
    from reassigned_frame(9) [OF this] show ?thesis by (simp add: replaced_def that(2))
  qed
  obtain r' where run: "RunInTx (st_env st) (replace_roles_tx u rs) s = (r', t)" and r: "r = (case r' of Inl e \<Rightarrow> Inl (tx_error_of e) | Inr x \<Rightarrow> Inr x)"
    using assms(1,4,5) True parse_ids_Inr [of st roleIDs rs]
    by (auto simp: ReplaceUserRoles_def withTransaction_def bindE_def liftE_def parse_id_def mapErrE_def split: sum.splits prod.splits)
  from run show ?thesis
  proof (cases rule: RunInTx_cases)
    case (committed x p)
    then show ?thesis using fin r by simp
  next
    case (unknown x p)
    then show ?thesis using fin r by (simp add: tx_error_of_def)
  qed (use r in \<open>simp_all add: rollback_to_def next_call_def\<close>)
next
  case False
  then show ?thesis using assms(1,4,5) parse_ids_Inr [of st roleIDs rs]
    by (auto simp: ReplaceUserRoles_def withTransaction_def bindE_def liftE_def parse_id_def)
qed

section \<open>A concrete installation\<close>

definition sample_admin :: UserRow where
  "sample_admin = \<lparr>us_id = ''u1'', us_email = ''a@b'', us_username = ''root'', us_password_hash = ''h'', us_display_name = [],
     us_is_active = True, us_created_at = 0, us_updated_at = 0, us_email_verified_at = None\<rparr>"

definition sample_factor :: UserSecuritySettingRow where
  "sample_factor = (new_security ''u1'')\<lparr>ss_mode := ''totp'', ss_totp_secret := Some ''k''\<rparr>"

definition sample_iam :: iam_db where
  "sample_iam = \<lparr>db_calls = 0, db_fault = (\<lambda>_. Delivered), db_clock = (\<lambda>_. 10), db_uuid = (\<lambda>_. ''new''), collate_key = (\<lambda>x. x),
     jsonb = Some, ilike = (\<lambda>_ _. True), users = [sample_admin],
     roles = [\<lparr>ro_id = ''r1'', ro_name = ''admin'', ro_description = [], ro_created_at = 0, ro_updated_at = 0, ro_is_system = True\<rparr>,
              \<lparr>ro_id = ''r2'', ro_name = ''user'', ro_description = [], ro_created_at = 0, ro_updated_at = 0, ro_is_system = True\<rparr>],
     permissions = [\<lparr>pe_id = ''p1'', pe_name = ''*'', pe_description = [], pe_created_at = 0\<rparr>], user_roles = [(''u1'', ''r1'')],
     role_permissions = [(''r1'', ''p1'')], preferences = [],
     settings = [\<lparr>as_password_login_enabled = True, as_registration_enabled = True, as_registration_email_verification_required = True,
       as_allowed_email_domains = [''b''], as_bootstrap_admin_user_id = Some ''u1'', as_initialized_at = Some 1\<rparr>],
     security = [sample_factor], consumptions = []\<rparr>"

definition sample_store :: Store where
  "sample_store = \<lparr>st_env = no_interference, st_managed = True, st_scan = Some\<rparr>"

lemma sample_store_simps [simp]:
  "st_env sample_store = no_interference" "st_managed sample_store" "st_scan sample_store = Some" "no_interference k s = s"
  by (simp_all add: sample_store_def no_interference_def)

lemma sample_env: "iam_runs r (st_env sample_store k r)"
  by (simp add: iam_runs.none)

lemma sample_rely: "iam_rely (st_env sample_store)"
  using runs_rely [OF sample_env] .

lemma sample_iam_inv: "iam_inv sample_iam"
  by (simp add: sample_iam_def iam_inv_def users_ok_def roles_ok_def security_ok_def sample_admin_def sample_factor_def new_security_def
      valid_mode_def)

lemma sample_run: "iam_runs sample_iam (perform sample_store req sample_iam)"
  by (rule iam_runs.step [OF iam_runs.none sample_env])

theorem last_administrator_kept_witness: "active_admins (perform sample_store (ChangeActive ''u1'' False) sample_iam) \<noteq> {}"
proof (rule last_administrator_kept [OF sample_run sample_iam_inv])
  show "active_admins sample_iam \<noteq> {}" by (simp add: active_admins_def sample_iam_def sample_admin_def is_admin_role_def)
qed

theorem system_roles_protected_witness: "system_roles (perform sample_store (RemoveRole ''r1'') sample_iam) = system_roles sample_iam"
  using system_roles_protected [OF sample_run sample_iam_inv] by blast

theorem email_factor_has_verified_address_witness: "iam_inv (perform sample_store (ChangePassword ''u1'' ''n'') sample_iam)"
  using email_factor_has_verified_address [OF sample_run sample_iam_inv] by blast

lemmas sample_eval = bindE_def mapErrE_def liftE_def parse_id_def query_def txq_def stmt_def next_call_def sample_iam_def sample_admin_def
  sample_factor_def new_security_def run_tx_def withTransaction_def RunInTx_def Let_def one_def map_security_def can_bump_def bump_def in_int_def
  valid_mode_def sql_now_def

lemma sample_save: "fst (SaveSecurity sample_store ''u1'' (securityFromDB sample_factor) 0 sample_iam) = Inr ()"
  by (simp add: SaveSecurity_def save_query_def SaveSecuritySettings_def securityFromDB_def sample_eval)

lemma sample_consume: "fst (ConsumeCredential sample_store (\<lambda>c. c) 5 ''u1'' [] 0 7 [] sample_iam) = Inr ()"
  by (simp add: ConsumeCredential_def consume_tx_def LockSecuritySettings_def byte_count_def record_credential_def
      SaveConsumedSecurityCredential_def sample_eval)

lemma sample_password: "fst (UpdatePassword sample_store ''u1'' ''n'' sample_iam) = Inr ()"
  by (simp add: UpdatePassword_def withLockedSecurity_def LockSecuritySettings_def EnsureSecuritySettings_def InvalidatePasswordCredentials_def
      UpdateUserPassword_def blank_def sample_eval)

lemma sample_replace: "fst (ReplaceUserRoles sample_store ''u1'' [''r1'', ''r2''] sample_iam) = Inr ()"
  by (simp add: ReplaceUserRoles_def replace_roles_tx_def GetUserByID_def LockSystemAdminRole_def LockActiveSystemAdministratorIDs_def
      is_admin_role_def GetRoleByID_def forE_def DeleteUserRoles_def AssignUserRole_def sample_eval)

definition sample_receipt :: CodeReceipt where
  "sample_receipt = \<lparr>rec_ID = ''c1'', rec_ExpiresAt = 100\<rparr>"

definition sample_input :: CreateUserInput where
  "sample_input = \<lparr>cu_Email = ''c@b'', cu_Username = ''carl'', cu_Password = ''hash'', cu_DisplayName = []\<rparr>"

lemma sample_register: "\<exists>u. fst (Register_user sample_store 5 sample_input (Some sample_receipt) sample_iam) = Inr u \<and> user_EmailVerifiedAt u = Some 10"
  by (simp add: userFromDB_def Register_user_def register_tx_def LockAuthenticationSettings_def registration_policy_def domain_allowed_def has_suffix_def
      sample_receipt_def use_receipt_def PruneAuthenticationConsumptions_def InsertAuthenticationConsumption_def MarkEmailVerified_def
      create_registered_def CreateUser_def sql_uuid_def blank_def sample_input_def GetRoleByName_def AssignUserRole_def sample_eval)

theorem no_lost_security_update_witness:
  "\<exists>t. SaveSecurity sample_store ''u1'' (securityFromDB sample_factor) 0 sample_iam = (Inr (), t) \<and>
     fst (SaveSecurity sample_store ''u1'' (securityFromDB sample_factor) 0 t) \<noteq> Inr ()"
proof -
  obtain t where t: "SaveSecurity sample_store ''u1'' (securityFromDB sample_factor) 0 sample_iam = (Inr (), t)"
    using sample_save by (metis prod.collapse)
  from no_lost_security_update [OF t sample_iam_inv sample_env iam_runs.none sample_env refl]
  have "fst (SaveSecurity sample_store ''u1'' (securityFromDB sample_factor) 0 t) \<noteq> Inr ()" by blast
  with t show ?thesis by blast
qed

theorem second_factor_proof_single_use_witness:
  "\<exists>t. ConsumeCredential sample_store (\<lambda>c. c) 5 ''u1'' [] 0 7 [] sample_iam = (Inr (), t) \<and>
     fst (ConsumeCredential sample_store (\<lambda>c. c) 6 ''u1'' [] 0 8 [] t) \<noteq> Inr ()"
proof -
  obtain t where t: "ConsumeCredential sample_store (\<lambda>c. c) 5 ''u1'' [] 0 7 [] sample_iam = (Inr (), t)"
    using sample_consume by (metis prod.collapse)
  from second_factor_proof_single_use [OF t sample_iam_inv sample_env iam_runs.none sample_env refl]
  have "fst (ConsumeCredential sample_store (\<lambda>c. c) 6 ''u1'' [] 0 8 [] t) \<noteq> Inr ()" by blast
  with t show ?thesis by blast
qed

theorem password_change_invalidates_witness:
  "\<exists>t. UpdatePassword sample_store ''u1'' ''n'' sample_iam = (Inr (), t) \<and>
     fst (ConsumeCredential sample_store (\<lambda>c. c) 6 ''u1'' [] 0 8 [] t) \<noteq> Inr ()"
proof -
  obtain t where t: "UpdatePassword sample_store ''u1'' ''n'' sample_iam = (Inr (), t)"
    using sample_password by (metis prod.collapse)
  have row: "sample_factor \<in> set (security sample_iam)" "st_scan sample_store ''u1'' = Some (ss_user_id sample_factor)" "ss_version sample_factor = 0"
    by (simp_all add: sample_iam_def sample_factor_def new_security_def)
  from password_change_invalidates [OF t sample_iam_inv sample_env iam_runs.none sample_env refl row(1,2)]
  have "fst (ConsumeCredential sample_store (\<lambda>c. c) 6 ''u1'' [] 0 8 [] t) \<noteq> Inr ()" unfolding row(3) by blast
  with t show ?thesis by blast
qed

theorem email_receipt_single_use_witness:
  "\<exists>u t. Register_user sample_store 5 sample_input (Some sample_receipt) sample_iam = (Inr u, t) \<and> user_EmailVerifiedAt u = Some 10 \<and>
     fst (VerifyEmail sample_store 6 ''u1'' ''a@b'' sample_receipt t) \<noteq> Inr u"
proof -
  obtain u t where t: "Register_user sample_store 5 sample_input (Some sample_receipt) sample_iam = (Inr u, t)" and u: "user_EmailVerifiedAt u = Some 10"
    using sample_register by (metis prod.collapse)
  then have first: "verified_with sample_store 5 sample_receipt sample_iam u t" unfolding verified_with_def by (intro disjI2 exI) simp
  have clock: "db_clock sample_iam k \<le> rec_ExpiresAt sample_receipt" for k by (simp add: sample_iam_def sample_receipt_def)
  from email_receipt_single_use [OF first sample_iam_inv sample_env iam_runs.none sample_env clock refl]
  have "fst (VerifyEmail sample_store 6 ''u1'' ''a@b'' sample_receipt t) \<noteq> Inr u" by blast
  with t u show ?thesis by blast
qed

theorem registration_exact_witness:
  "\<exists>u t w. Register_user sample_store 5 sample_input (Some sample_receipt) sample_iam = (Inr u, t) \<and> u = userFromDB w \<and>
     w \<in> set (users t) \<and> us_email w = ''c@b''"
proof -
  obtain u t where t: "Register_user sample_store 5 sample_input (Some sample_receipt) sample_iam = (Inr u, t)"
    using sample_register by (metis prod.collapse)
  from registration_exact [OF t sample_iam_inv sample_rely] obtain w m where "u = userFromDB w" "new_account sample_iam sample_input m w t"
    by auto
  then show ?thesis using t by (auto simp: new_account_def sample_input_def)
qed

theorem replace_user_roles_exact_witness:
  "\<exists>t. ReplaceUserRoles sample_store ''u1'' [''r1'', ''r2''] sample_iam = (Inr (), t) \<and>
     set (user_roles t) = {(''u1'', ''r1''), (''u1'', ''r2'')}"
proof -
  obtain t where t: "ReplaceUserRoles sample_store ''u1'' [''r1'', ''r2''] sample_iam = (Inr (), t)"
    using sample_replace by (metis prod.collapse)
  from replace_user_roles_exact [OF t sample_iam_inv sample_rely, of "''u1''" "[''r1'', ''r2'']"]
  have "set (user_roles t) = {(''u1'', ''r1''), (''u1'', ''r2'')}" by (simp add: sample_iam_def) auto
  with t show ?thesis by blast
qed

end
