(* ===== verification/Deployment.thy ===== *)
theory Deployment
  imports Service_Contract Passwords Authcrypto Refresh_Sessions Auth_Limits Iam_Registration
begin

text \<open>
  The API process as \<open>BuildAPI\<close> of \<open>src/internal/app/api.go\<close> wires it: the identity services over the two
  stores on PostgreSQL, the refresh sessions and the email codes on Redis, the password hasher, the token
  manager and the cryptography of second factors. The world of the services holds the tables, the Redis
  server and the time; a tape of ticks fixes what is outside the process: how long each call waits, the fate
  of its messages, the random bytes, the clock, and what other processes do to Redis meanwhile. The locale
  \<open>deployment\<close> of \<open>Deployment_Safety\<close> states what is relied on.
\<close>

section \<open>The world\<close>

record 'r tick =
  tk_wait :: nat
  tk_others :: "int \<Rightarrow> 'r \<Rightarrow> 'r"
  tk_net :: net
  tk_wait2 :: nat
  tk_mid :: "int \<Rightarrow> 'r \<Rightarrow> 'r"
  tk_net2 :: net
  tk_random :: "nat \<Rightarrow> string option"
  tk_code :: "nat option"
  tk_ctx :: call_ctx
  tk_now :: int
  tk_mail :: "iam_error option"

record 'r world =
  w_db :: iam_db
  w_redis :: 'r
  w_time :: int
  w_calls :: nat

record 'r platform =
  pf_exec :: "'r redis_exec"
  pf_ticks :: "nat \<Rightarrow> 'r tick"
  pf_env :: iam_env
  pf_scan :: "string \<Rightarrow> string option"
  pf_sha :: "string \<Rightarrow> string"
  pf_hmac :: mac
  pf_hmac1 :: mac
  pf_aead :: aead
  pf_argon :: argon2
  pf_codec :: token_codec
  pf_text :: text_tables

text \<open>What of \<open>config.Config\<close> the services get.\<close>

record api_config =
  ac_Environment :: string
  ac_JWTSecret :: string
  ac_JWTIssuer :: string
  ac_AccessTokenTTL :: int
  ac_RefreshTokenTTL :: int
  ac_AuthenticationKey :: string
  ac_AuthenticationPepper :: string
  ac_RecoveryCodeTTL :: int

definition tick_of :: "'r platform \<Rightarrow> 'r world \<Rightarrow> 'r tick" where
  "tick_of P w = pf_ticks P (w_calls w)"

definition ticked :: "'r world \<Rightarrow> 'r world" where
  "ticked w = w\<lparr>w_calls := Suc (w_calls w)\<rparr>"

definition on_db :: "'r platform \<Rightarrow> ('r tick \<Rightarrow> 'a iam_op) \<Rightarrow> ('r world, 'a) call" where
  "on_db P f = (\<lambda>w. let r = f (tick_of P w) (w_db w) in (fst r, (ticked w)\<lparr>w_db := snd r\<rparr>))"

text \<open>
  A call of Redis starts when its wait is over and others have made their moves. An operation of two messages
  sends the second one after another wait.
\<close>

definition on_redis :: "'r platform \<Rightarrow> ('r tick \<Rightarrow> int \<Rightarrow> int \<Rightarrow> ('r, iam_error, 'a) op) \<Rightarrow> ('r world, 'a) call" where
  "on_redis P f = (\<lambda>w.
     let k = tick_of P w; t1 = w_time w + int (tk_wait k); t2 = t1 + int (tk_wait2 k);
         r = f k t1 t2 (tk_others k t1 (w_redis w))
     in (fst r, (ticked w)\<lparr>w_redis := snd r, w_time := t2\<rparr>))"

definition on_tick :: "'r platform \<Rightarrow> ('r tick \<Rightarrow> iam_error + 'a) \<Rightarrow> ('r world, 'a) call" where
  "on_tick P f = (\<lambda>w. (f (tick_of P w), ticked w))"

definition random_bytes :: "'r platform \<Rightarrow> nat \<Rightarrow> ('r world, string) call" where
  "random_bytes P n = on_tick P (\<lambda>k. case tk_random k n of None \<Rightarrow> Inl (OtherError ''random source'') | Some bs \<Rightarrow> Inr bs)"

definition read_clock :: "'r platform \<Rightarrow> 'r world \<Rightarrow> int \<times> 'r world" where
  "read_clock P w = (tk_now (tick_of P w), ticked w)"

section \<open>Ports\<close>

definition user_port :: "'r platform \<Rightarrow> Store \<Rightarrow> 'r world UserRepository" where
  "user_port P st =
     \<lparr>ur_FindByEmail = (\<lambda>e. on_db P (\<lambda>_. FindByEmail st e)), ur_FindByID = (\<lambda>i. on_db P (\<lambda>_. FindByID st i)),
      ur_List = (\<lambda>f l off. on_db P (\<lambda>_. List_users st f l off)), ur_Create = (\<lambda>c. on_db P (\<lambda>_. Create st c)),
      ur_SetActive = (\<lambda>i a. on_db P (\<lambda>_. SetActive st i a))\<rparr>"

definition preferences_port :: "'r platform \<Rightarrow> Store \<Rightarrow> 'r world PreferencesRepository" where
  "preferences_port P st =
     \<lparr>pr_GetPreferences = (\<lambda>i. on_db P (\<lambda>_. GetPreferences st i)), pr_PutPreferences = (\<lambda>i v. on_db P (\<lambda>_. PutPreferences st i v))\<rparr>"

definition management_port :: "'r platform \<Rightarrow> Store \<Rightarrow> 'r world ManagementRepository" where
  "management_port P st =
     \<lparr>mr_UpdateUser = (\<lambda>i u. on_db P (\<lambda>_. UpdateUser st i u)), mr_UpdateUserPassword = (\<lambda>i h. on_db P (\<lambda>_. UpdatePassword st i h)),
      mr_SetUserActive = (\<lambda>i a. on_db P (\<lambda>_. SetActiveManaged st i a)), mr_ReplaceUserRoles = (\<lambda>i js. on_db P (\<lambda>_. ReplaceUserRoles st i js)),
      mr_Role = (\<lambda>i. on_db P (\<lambda>_. Role_detail st i)), mr_CreateRole = (\<lambda>c. on_db P (\<lambda>_. Create_role st c)),
      mr_UpdateRole = (\<lambda>i c. on_db P (\<lambda>_. Update_role st i c)), mr_DeleteRole = (\<lambda>i. on_db P (\<lambda>_. Delete_role st i)),
      mr_ReplaceRolePermissions = (\<lambda>i js. on_db P (\<lambda>_. ReplaceRolePermissions st i js))\<rparr>"

text \<open>The generated queries return empty slices, not nil.\<close>

definition rbac_port :: "'r platform \<Rightarrow> Store \<Rightarrow> 'r world RBACRepository" where
  "rbac_port P st =
     \<lparr>rr_PermissionsForUser = (\<lambda>i. on_db P (\<lambda>_. bindE (PermissionsForUser st i) (\<lambda>ps. retE (Some ps)))),
      rr_Roles = on_db P (\<lambda>_. Roles st), rr_Permissions = on_db P (\<lambda>_. Permissions st),
      rr_AssignRole = (\<lambda>i j. on_db P (\<lambda>_. AssignRole st i j)), rr_GrantPermission = (\<lambda>i j. on_db P (\<lambda>_. GrantPermission st i j))\<rparr>"

definition authentication_port :: "'r platform \<Rightarrow> Store \<Rightarrow> 'r world AuthenticationRepository" where
  "authentication_port P st =
     \<lparr>ar_Authentication = on_db P (\<lambda>_. Authentication st), ar_PutAuthentication = (\<lambda>v. on_db P (\<lambda>_. PutAuthentication st v)),
      ar_Initialize = (\<lambda>i. on_db P (\<lambda>_. Initialize st i)), ar_Security = (\<lambda>i. on_db P (\<lambda>_. Security st i)),
      ar_SaveSecurity = (\<lambda>i v n. on_db P (\<lambda>_. SaveSecurity st i v n)),
      ar_Register = (\<lambda>c r. on_db P (\<lambda>k. Register_user st (tk_now k) c r)),
      ar_VerifyEmail = (\<lambda>i e r. on_db P (\<lambda>k. VerifyEmail st (tk_now k) i e r)),
      ar_ConsumeCredential = (\<lambda>i c n step rcv. on_db P (\<lambda>k. ConsumeCredential st (pf_sha P) (tk_now k) i c n step rcv))\<rparr>"

fun refresh_err :: "refresh_error \<Rightarrow> iam_error" where
  "refresh_err ErrInvalidRefreshToken = ErrInvalidRefresh"
| "refresh_err GenerateToken = OtherError ''generate refresh token''"
| "refresh_err (StoreToken e) = OtherError ''store refresh token''"
| "refresh_err (LookupToken e) = OtherError ''lookup refresh token''"
| "refresh_err (RotateToken e) = OtherError ''rotate refresh token''"
| "refresh_err (ConsumeToken e) = OtherError ''consume refresh token''"
| "refresh_err (RevokeToken e) = OtherError ''revoke refresh token''"

definition refresh_port :: "'r platform \<Rightarrow> RefreshStore \<Rightarrow> 'r world RefreshPort" where
  "refresh_port P S =
     \<lparr>rf_Issue = (\<lambda>u. on_redis P (\<lambda>k t _. mapErrE refresh_err (Issue (pf_exec P) (pf_sha P) S (tk_net k) t (tk_random k 32) u))),
      rf_Lookup = (\<lambda>raw. on_redis P (\<lambda>k t _. mapErrE refresh_err (Lookup (pf_exec P) (pf_sha P) S (tk_net k) t raw))),
      rf_Rotate = (\<lambda>raw u. on_redis P (\<lambda>k t _. mapErrE refresh_err (Rotate (pf_exec P) (pf_sha P) S (tk_net k) t (tk_random k 32) raw u))),
      rf_Revoke = (\<lambda>raw. on_redis P (\<lambda>k t t2. mapErrE refresh_err
        (Revoke (pf_exec P) (pf_sha P) S (tk_net k) t (tk_mid k t2) (tk_net2 k) t2 raw))),
      rf_RevokeAll = (\<lambda>u. on_redis P (\<lambda>k t _. mapErrE refresh_err (RevokeAll (pf_exec P) (pf_sha P) S (tk_net k) t u)))\<rparr>"

definition code_port :: "'r platform \<Rightarrow> CodeStore \<Rightarrow> 'r world VerificationCodeStore" where
  "code_port P C =
     \<lparr>vc_Issue = (\<lambda>e p ip. on_redis P (\<lambda>k t _. IssueCode (pf_exec P) (pf_hmac P) (tx_lower (pf_text P)) C (tk_net k) t (tk_ctx k)
        (tk_code k) (tk_random k 32) e p ip)),
      vc_Verify = (\<lambda>e p c. on_redis P (\<lambda>k t _. VerifyCode (pf_exec P) (pf_hmac P) (tx_lower (pf_text P)) C (tk_net k) t (tk_ctx k) (tk_now k) e p c)),
      vc_VerifyAndConsume = (\<lambda>e p c. on_redis P (\<lambda>k t _. VerifyAndConsume (pf_exec P) (pf_hmac P) (tx_lower (pf_text P)) C (tk_net k) t (tk_ctx k) e p c)),
      vc_Consume = (\<lambda>e p r. on_redis P (\<lambda>k t _. ConsumeCode (pf_exec P) (pf_hmac P) (tx_lower (pf_text P)) C (tk_net k) t (tk_ctx k) e p r))\<rparr>"

definition challenge_port :: "'r platform \<Rightarrow> CodeStore \<Rightarrow> 'r world Challenges" where
  "challenge_port P C =
     \<lparr>cs_Issue = (\<lambda>v. on_redis P (\<lambda>k t _. IssueChallenge (pf_exec P) (pf_hmac P) C (tk_net k) t (tk_ctx k) (tk_random k 32) v)),
      cs_Attempt = (\<lambda>i. on_redis P (\<lambda>k t _. Attempt (pf_exec P) (pf_hmac P) C (tk_net k) t (tk_ctx k) i)),
      cs_Consume = (\<lambda>i. on_redis P (\<lambda>k t _. ConsumeChallenge (pf_exec P) (pf_hmac P) C (tk_net k) t (tk_ctx k) i))\<rparr>"

definition mail_port :: "'r platform \<Rightarrow> string \<Rightarrow> string \<Rightarrow> string \<Rightarrow> ('r world, unit) call" where
  "mail_port P recipient purpose code = on_tick P (\<lambda>k. case tk_mail k of None \<Rightarrow> Inr () | Some e \<Rightarrow> Inl e)"

section \<open>Wiring\<close>

text \<open>\<open>hex.DecodeString\<close> with its error ignored: the bytes before the first bad pair.\<close>

fun hex_bytes :: "string \<Rightarrow> string" where
  "hex_bytes (a # b # cs) = (case hex_decode [a, b] of None \<Rightarrow> [] | Some x \<Rightarrow> x @ hex_bytes cs)"
| "hex_bytes _ = []"

definition api_store :: "'r platform \<Rightarrow> Store" where
  "api_store P = NewStore (pf_env P) (pf_scan P) True [True]"

definition api_refresh :: "api_config \<Rightarrow> RefreshStore" where
  "api_refresh cfg = NewRefreshStore (''iam:'' @ ac_Environment cfg) (ac_RefreshTokenTTL cfg)"

definition api_codes :: "api_config \<Rightarrow> CodeStore" where
  "api_codes cfg = NewCodeStore (ac_Environment cfg) (hex_bytes (ac_AuthenticationPepper cfg))"

definition wire :: "'r platform \<Rightarrow> api_config \<Rightarrow> JWTManager \<Rightarrow> Crypto \<Rightarrow> 'r world AuthenticationService \<times> 'r world Service" where
  "wire P cfg jwt crypto =
     (let st = api_store P;
          base = NewServiceWithManagement (pf_text P) (user_port P st) (Some (rbac_port P st)) (Some (preferences_port P st))
            (Some (management_port P st)) (NewPasswordHasher (pf_argon P) (random_bytes P) DefaultArgon2Params)
            (jwt_port (pf_hmac P) (pf_codec P) jwt (read_clock P)) (refresh_port P (api_refresh cfg))
      in NewAuthenticationService base (authentication_port P st) (code_port P (api_codes cfg)) (mail_port P)
           (crypto_port (pf_aead P) (pf_hmac1 P) (pf_hmac P) (tx_lower (pf_text P)) (random_bytes P) crypto)
           (challenge_port P (api_codes cfg)) (read_clock P) [ac_RecoveryCodeTTL cfg])"

definition BuildServices :: "'r platform \<Rightarrow> api_config \<Rightarrow> iam_error + ('r world AuthenticationService \<times> 'r world Service)" where
  "BuildServices P cfg =
     (case NewJWTManager (ac_JWTSecret cfg) (ac_JWTIssuer cfg) (ac_AccessTokenTTL cfg) of
        Inl e \<Rightarrow> Inl e
      | Inr jwt \<Rightarrow> (case Crypto_New (hex_bytes (ac_AuthenticationKey cfg)) (hex_bytes (ac_AuthenticationPepper cfg)) (ac_JWTIssuer cfg) of
          Inl e \<Rightarrow> Inl e
        | Inr crypto \<Rightarrow> Inr (wire P cfg jwt crypto)))"

end
