(* ===== verification/Deployment_Safety.thy ===== *)
theory Deployment_Safety
  imports Deployment
begin

text \<open>
  What the wired API process keeps, whatever requests it serves and whatever other processes do: the contract
  of the identity tables and the sessions of \<open>Refresh_Sessions\<close>. The locale \<open>deployment\<close> states what is relied
  on, is a case of \<open>service_ports\<close>, and is interpreted with the reference server.
\<close>

section \<open>How the world evolves\<close>

definition world_le ::
    "'r redis_exec \<Rightarrow> (int \<Rightarrow> 'r \<Rightarrow> keyspace) \<Rightarrow> (string \<Rightarrow> string) \<Rightarrow> RefreshStore \<Rightarrow> 'r world \<Rightarrow> 'r world \<Rightarrow> bool" where
  "world_le exec view sha S w w' \<longleftrightarrow>
     (iam_inv (w_db w) \<longrightarrow> iam_le (w_db w) (w_db w') \<and> iam_inv (w_db w')) \<and>
     refresh_reach exec view sha S UNIV (w_time w, w_redis w) (w_time w', w_redis w')"

lemma world_le_refl: "world_le exec view sha S w w"
  by (simp add: world_le_def)

lemma world_le_trans: "world_le exec view sha S u v \<Longrightarrow> world_le exec view sha S v w \<Longrightarrow> world_le exec view sha S u w"
  unfolding world_le_def using iam_le_trans by (blast intro: rtranclp_trans)

text \<open>The keys of the code store are not below the prefix of the sessions.\<close>

lemma call_keys_auth:
  assumes "k \<in> call_keys hm ul (api_codes cfg) c"
  shows "\<not> has_prefix k (rs_prefix (api_refresh cfg) @ '':'')"
proof -
  have "hd k = CHR ''a''"
    using assms by (cases c) (auto simp: emailKey_def emailLimitKey_def ipLimitKey_def challengeKey_def api_codes_def NewCodeStore_def split: sum.splits)
  moreover have "hd (rs_prefix (api_refresh cfg) @ '':'') = CHR ''i''" "rs_prefix (api_refresh cfg) \<noteq> []"
    by (simp_all add: api_refresh_def NewRefreshStore_def)
  ultimately show ?thesis by (cases k) (auto simp: api_refresh_def NewRefreshStore_def)
qed

declare snd_mapErrE [simp]

locale deployment = redis exec view for exec :: "'r redis_exec" and view +
  fixes P :: "'r platform" and cfg :: api_config and jwt :: JWTManager and crypto :: Crypto
  assumes server: "pf_exec P = exec"
    and rely_db: "iam_rely (pf_env P)"
    and rely_others: "refresh_reach exec view (pf_sha P) (api_refresh cfg) UNIV (t, r) (t, tk_others (pf_ticks P i) t r)"
    and rely_mid: "refresh_reach exec view (pf_sha P) (api_refresh cfg) UNIV (t, r) (t, tk_mid (pf_ticks P i) t r)"
begin

abbreviation le where
  "le \<equiv> world_le exec view (pf_sha P) (api_refresh cfg)"

abbreviation reach where
  "reach \<equiv> refresh_reach exec view (pf_sha P) (api_refresh cfg) UNIV"

lemma step_reach: "refresh_step exec view (pf_sha P) (api_refresh cfg) UNIV x y \<Longrightarrow> reach x y"
  by (rule r_into_rtranclp)

lemma follows_on_tick: "follows le (on_tick P f)"
  by (simp add: follows_def on_tick_def ticked_def world_le_def)

lemma follows_on_db: "(\<And>k. iam_guar (f k)) \<Longrightarrow> follows le (on_db P f)"
  by (simp add: follows_def on_db_def ticked_def world_le_def Let_def guar_by_def)

lemma follows_on_redis:
  assumes "\<And>i t1 t2 r. t1 \<le> t2 \<Longrightarrow> reach (t1, r) (t2, snd (f (pf_ticks P i) t1 t2 r))"
  shows "follows le (on_redis P f)"
  unfolding follows_def
proof
  fix w :: "'r world"
  let ?k = "pf_ticks P (w_calls w)"
  let ?t1 = "w_time w + int (tk_wait ?k)"
  have "reach (w_time w, w_redis w) (?t1, w_redis w)" by (intro step_reach session_step.pass) simp
  moreover have "reach (?t1, w_redis w) (?t1, tk_others ?k ?t1 (w_redis w))" by (rule rely_others)
  moreover have "reach (?t1, tk_others ?k ?t1 (w_redis w)) (?t1 + int (tk_wait2 ?k), snd (f ?k ?t1 (?t1 + int (tk_wait2 ?k)) (tk_others ?k ?t1 (w_redis w))))"
    by (rule assms) simp
  ultimately have "reach (w_time w, w_redis w) (?t1 + int (tk_wait2 ?k), snd (f ?k ?t1 (?t1 + int (tk_wait2 ?k)) (tk_others ?k ?t1 (w_redis w))))"
    by (meson rtranclp_trans)
  then show "le w (snd (on_redis P f w))" by (simp add: on_redis_def ticked_def world_le_def Let_def tick_of_def)
qed

lemma later: "reach (t1, r) (t1, r') \<Longrightarrow> t1 \<le> t2 \<Longrightarrow> reach (t1, r) (t2, r')"
  by (erule rtranclp_trans) (intro step_reach session_step.pass)

text \<open>Calls of the code store are moves of another component.\<close>

lemma code_call_reach:
  assumes "snd (auth_perform exec hm ul (api_codes cfg) ev r) = r'"
  shows "reach (ev_time ev, r) (ev_time ev, r')"
proof (intro step_reach session_step.other)
  fix k assume "has_prefix k (rs_prefix (api_refresh cfg) @ '':'')"
  then have k: "k \<notin> call_keys hm ul (api_codes cfg) (ev_call ev)" using call_keys_auth by blast
  have "view (ev_time ev) r' = snd (auth_perform redis_doc hm ul (api_codes cfg) ev (view (ev_time ev) r))"
    using auth_perform_sim [of ev hm ul "api_codes cfg"] assms by (auto simp: perform_sim_def)
  then show "view (ev_time ev) r' k = view (ev_time ev) r k" using perform_leaves [OF k] by simp
qed

lemma code_calls:
  "reach (t, r) (t, snd (IssueCode exec hm ul (api_codes cfg) n t ctx rc ri e p ip r))"
  "reach (t, r) (t, snd (VerifyCode exec hm ul (api_codes cfg) n t ctx started e p c r))"
  "reach (t, r) (t, snd (VerifyAndConsume exec hm ul (api_codes cfg) n t ctx e p c r))"
  "reach (t, r) (t, snd (ConsumeCode exec hm ul (api_codes cfg) n t ctx e p receipt r))"
  "reach (t, r) (t, snd (IssueChallenge exec hm (api_codes cfg) n t ctx ri v r))"
  "reach (t, r) (t, snd (Attempt exec hm (api_codes cfg) n t ctx i r))"
  "reach (t, r) (t, snd (ConsumeChallenge exec hm (api_codes cfg) n t ctx i r))"
  using code_call_reach [of hm ul "\<lparr>ev_time = t, ev_net = n, ev_ctx = ctx, ev_call = CallIssue e p ip rc ri\<rparr>" r]
    code_call_reach [of hm ul "\<lparr>ev_time = t, ev_net = n, ev_ctx = ctx, ev_call = CallVerify e p c started\<rparr>" r]
    code_call_reach [of hm ul "\<lparr>ev_time = t, ev_net = n, ev_ctx = ctx, ev_call = CallVerifyAndConsume e p c\<rparr>" r]
    code_call_reach [of hm ul "\<lparr>ev_time = t, ev_net = n, ev_ctx = ctx, ev_call = CallConsume e p receipt\<rparr>" r]
    code_call_reach [of hm ul "\<lparr>ev_time = t, ev_net = n, ev_ctx = ctx, ev_call = CallIssueChallenge v ri\<rparr>" r]
    code_call_reach [of hm ul "\<lparr>ev_time = t, ev_net = n, ev_ctx = ctx, ev_call = CallAttempt i\<rparr>" r]
    code_call_reach [of hm ul "\<lparr>ev_time = t, ev_net = n, ev_ctx = ctx, ev_call = CallConsumeChallenge i\<rparr>" r]
  by (simp_all add: auth_perform_def Let_def)

lemma Revoke_reach:
  assumes "t1 \<le> t2"
  shows "reach (t1, r) (t2, snd (Revoke exec (pf_sha P) (api_refresh cfg) n t1 (tk_mid (pf_ticks P i) t2) n2 t2 raw r))"
proof (cases "raw = []")
  case True
  then show ?thesis using later [OF rtranclp.rtrancl_refl assms] by (simp add: Revoke_def)
next
  case False
  obtain x r1 where l: "Lookup exec (pf_sha P) (api_refresh cfg) n t1 raw r = (x, r1)" by force
  have 1: "reach (t1, r) (t2, r1)" using step_reach [OF session_step.lookup] later l assms by (metis snd_conv)
  show ?thesis
  proof (cases x)
    case (Inl e)
    then show ?thesis using 1 l False by (cases e) (simp_all add: Revoke_def)
  next
    case (Inr u)
    let ?m = "tk_mid (pf_ticks P i) t2 r1"
    have "reach (t2, r1) (t2, ?m)" by (rule rely_mid)
    moreover have "reach (t2, ?m) (t2, snd (Eval n2 (revokeRefreshScript exec t2 (tokenKey (pf_sha P) (api_refresh cfg) raw)
        (userKey (pf_sha P) (api_refresh cfg) u) (refresh_hash (pf_sha P) raw)) ?m))" by (intro step_reach session_step.revoke)
    ultimately show ?thesis using 1 l Inr False
      by (simp add: Revoke_def snd_bindE_mapErrE)
  qed
qed

lemma session_calls:
  assumes "t \<le> t2"
  shows "reach (t, r) (t2, snd (Issue exec (pf_sha P) (api_refresh cfg) n t rnd u r))"
    "reach (t, r) (t2, snd (Lookup exec (pf_sha P) (api_refresh cfg) n t raw r))"
    "reach (t, r) (t2, snd (Rotate exec (pf_sha P) (api_refresh cfg) n t rnd raw u r))"
    "reach (t, r) (t2, snd (RevokeAll exec (pf_sha P) (api_refresh cfg) n t u r))"
  by (rule later [OF step_reach [OF session_step.issue] assms], rule UNIV_I, rule UNIV_I, rule later [OF step_reach [OF session_step.lookup] assms],
      rule later [OF step_reach [OF session_step.rotate] assms], rule UNIV_I, rule later [OF step_reach [OF session_step.revoke_all] assms])

lemma refresh_calls: "refresh_respect le (refresh_port P (api_refresh cfg))"
  unfolding refresh_respect_def refresh_port_def RefreshPort.simps server
  by (intro conjI allI follows_on_redis; unfold snd_mapErrE; (erule session_calls | erule Revoke_reach))

lemma code_store_calls: "codes_respect le (code_port P (api_codes cfg))" "challenges_respect le (challenge_port P (api_codes cfg))"
  unfolding codes_respect_def code_port_def challenges_respect_def challenge_port_def VerificationCodeStore.simps Challenges.simps server
  by (intro conjI allI follows_on_redis; erule later [rotated]; rule code_calls)+

lemma store_rely: "iam_rely (st_env (api_store P))"
  using rely_db by (simp add: api_store_def NewStore_def)

lemma table_calls:
  "users_respect le (user_port P (api_store P))" "preferences_respect le (preferences_port P (api_store P))"
  "management_respect le (management_port P (api_store P))" "rbac_respect le (rbac_port P (api_store P))"
  "authentication_respect le (authentication_port P (api_store P))"
  unfolding users_respect_def preferences_respect_def management_respect_def rbac_respect_def authentication_respect_def
    user_port_def preferences_port_def management_port_def rbac_port_def authentication_port_def
    UserRepository.simps PreferencesRepository.simps ManagementRepository.simps RBACRepository.simps AuthenticationRepository.simps
  by (intro conjI allI follows_on_db iam.guar_bindE iam.guar_retE iam_guar_ops store_rely)+

lemma follows_random: "follows le (random_bytes P n)"
  unfolding random_bytes_def by (rule follows_on_tick)

end

sublocale deployment \<subseteq> preorder_world "world_le exec view (pf_sha P) (api_refresh cfg)"
  by unfold_locales (rule world_le_refl, erule (1) world_le_trans)

context deployment
begin

lemma hash_calls: "follows le (PasswordHasher_Hash argon (random_bytes P) Q p)"
  unfolding PasswordHasher_Hash_def
  by (intro follows_rules follows_random) (simp add: follows_def world_le_refl split: sum.split)

lemma crypto_calls: "crypto_respect le (crypto_port ae h1 h lower (random_bytes P) c)"
proof -
  have "follows le (recovery_codes lower h (random_bytes P) c n)" for n
  proof (induction n)
    case (Suc n)
    then show ?case unfolding recovery_codes.simps by (intro follows_rules follows_random)
  qed (simp only: recovery_codes.simps follows_retE)
  then show ?thesis unfolding crypto_respect_def crypto_port_def SecondFactorCrypto.simps Crypto_NewSecret_def Crypto_Encrypt_def Crypto_RecoveryCodes_def Let_def
    by (intro conjI allI follows_rules follows_random)
qed

lemma clock_calls: "le w (snd (read_clock P w))"
  by (simp add: read_clock_def ticked_def world_le_def)

lemma token_calls: "follows le (jwt_Issue (jwt_port h codec m (read_clock P)) x)"
  unfolding jwt_port_def JWTPort.simps follows_def using clock_calls by (simp add: world_le_refl)

lemma mail_calls: "follows le (mail_port P x y z)"
  unfolding mail_port_def by (rule follows_on_tick)

lemmas wire_simps = wire_def NewServiceWithManagement_def NewAuthenticationService_def NewPasswordHasher_def Let_def

end

sublocale deployment \<subseteq> service_ports "world_le exec view (pf_sha P) (api_refresh cfg)" "snd (wire P cfg jwt crypto)" "fst (wire P cfg jwt crypto)"
  by unfold_locales
    (simp_all add: wire_simps table_calls hash_calls token_calls refresh_calls code_store_calls mail_calls crypto_calls clock_calls)

section \<open>Requests\<close>

text \<open>A request to the services, and the world after it has been served or refused.\<close>

datatype api_call =
    ApiLogin LoginInput | ApiVerifyLogin VerifyInput | ApiRefresh string | ApiLogout string
  | ApiRequestEmailCode string string string | ApiRegister RegisterInput
  | ApiCurrentUser string | ApiPreferences string | ApiPutPreferences string Preferences
  | ApiRequestEmailVerification string string | ApiVerifyEmail string string
  | ApiSecurity string | ApiPutSecurity string string | ApiEnroll string SecurityProof | ApiConfirm string string | ApiDisable string SecurityProof
  | ApiSettings | ApiPutSettings AuthenticationSettings
  | ApiUsers UserQuery | ApiCreateUser CreateUserInput | ApiUpdateUser string UpdateUserInput
  | ApiResetPassword string string | ApiSetActive string string bool | ApiReplaceUserRoles string "string list" | ApiAssignRole string string
  | ApiRoles | ApiRole string | ApiCreateRole RoleInput | ApiUpdateRole string RoleInput | ApiDeleteRole string
  | ApiReplaceRolePermissions string "string list" | ApiGrantPermission string string | ApiPermissions
  | ApiAuthorize string string | ApiRevokeAll string

fun serve :: "'w AuthenticationService \<times> 'w Service \<Rightarrow> 'w \<Rightarrow> api_call \<Rightarrow> 'w" where
  "serve (a, s) w (ApiLogin i) = snd (Auth_Login s a i w)"
| "serve (a, s) w (ApiVerifyLogin i) = snd (Auth_VerifyLogin s a i w)"
| "serve (a, s) w (ApiRefresh raw) = snd (Service_Refresh s raw w)"
| "serve (a, s) w (ApiLogout raw) = snd (Service_Logout s raw w)"
| "serve (a, s) w (ApiRequestEmailCode e p ip) = snd (Auth_RequestEmailCode s a e p ip w)"
| "serve (a, s) w (ApiRegister i) = snd (Auth_Register s a i w)"
| "serve (a, s) w (ApiCurrentUser u) = snd (Service_CurrentUser s u w)"
| "serve (a, s) w (ApiPreferences u) = snd (Service_Preferences s u w)"
| "serve (a, s) w (ApiPutPreferences u p) = snd (Service_PutPreferences s u p w)"
| "serve (a, s) w (ApiRequestEmailVerification u ip) = snd (Auth_RequestEmailVerification s a u ip w)"
| "serve (a, s) w (ApiVerifyEmail u c) = snd (Auth_VerifyEmail s a u c w)"
| "serve (a, s) w (ApiSecurity u) = snd (Auth_Security s a u w)"
| "serve (a, s) w (ApiPutSecurity u m) = snd (Auth_PutSecurity s a u m w)"
| "serve (a, s) w (ApiEnroll u p) = snd (Auth_Enroll s a u p w)"
| "serve (a, s) w (ApiConfirm u c) = snd (Auth_Confirm s a u c w)"
| "serve (a, s) w (ApiDisable u p) = snd (Auth_Disable s a u p w)"
| "serve (a, s) w ApiSettings = snd (Auth_Settings a w)"
| "serve (a, s) w (ApiPutSettings v) = snd (Auth_PutSettings s a v w)"
| "serve (a, s) w (ApiUsers q) = snd (Service_Users s q w)"
| "serve (a, s) w (ApiCreateUser i) = snd (Service_CreateUser s i w)"
| "serve (a, s) w (ApiUpdateUser u i) = snd (Service_UpdateUser s u i w)"
| "serve (a, s) w (ApiResetPassword u p) = snd (Service_ResetUserPassword s u p w)"
| "serve (a, s) w (ApiSetActive actor u b) = snd (Service_SetUserActive s actor u b w)"
| "serve (a, s) w (ApiReplaceUserRoles u rs) = snd (Service_ReplaceUserRoles s u rs w)"
| "serve (a, s) w (ApiAssignRole u r) = snd (Service_AssignRole s u r w)"
| "serve (a, s) w ApiRoles = snd (Service_Roles s w)"
| "serve (a, s) w (ApiRole r) = snd (Service_Role s r w)"
| "serve (a, s) w (ApiCreateRole i) = snd (Service_CreateRole s i w)"
| "serve (a, s) w (ApiUpdateRole r i) = snd (Service_UpdateRole s r i w)"
| "serve (a, s) w (ApiDeleteRole r) = snd (Service_DeleteRole s r w)"
| "serve (a, s) w (ApiReplaceRolePermissions r ps) = snd (Service_ReplaceRolePermissions s r ps w)"
| "serve (a, s) w (ApiGrantPermission r p) = snd (Service_GrantPermission s r p w)"
| "serve (a, s) w ApiPermissions = snd (Service_Permissions s w)"
| "serve (a, s) w (ApiAuthorize u p) = snd (Service_Authorize s u p w)"
| "serve (a, s) w (ApiRevokeAll u) = snd (Service_RevokeAll s u w)"

context deployment
begin

lemmas service_ops = follows_helpers follows_sessions follows_management_ops follows_logins follows_registration follows_settings

lemma serve_le: "le w (serve (wire P cfg jwt crypto) w c)"
proof -
  obtain a s where as: "wire P cfg jwt crypto = (a, s)" by force
  show ?thesis using service_ops [unfolded as] by (cases c) (simp_all add: as follows_def)
qed

lemma serves_le: "le w (foldl (serve (wire P cfg jwt crypto)) w cs)"
proof (induction cs arbitrary: w)
  case (Cons c cs)
  then show ?case using serve_le world_le_trans by fastforce
qed (simp add: world_le_refl)

lemma serves_session_inv:
  "no_sessions (api_refresh cfg) (view (w_time w) (w_redis w)) \<Longrightarrow> le w w' \<Longrightarrow>
    session_inv (pf_sha P) (api_refresh cfg) (view (w_time w') (w_redis w'))"
  unfolding world_le_def using reach_session_inv by blast

end

section \<open>Property\<close>

text \<open>
  C1: the API process as it is wired keeps its promises end to end. Whatever requests it serves, in whatever
  order, however long they take, whichever statements and messages fail, and whatever other processes that
  respect the same contract do to PostgreSQL and Redis in between: the tables stay consistent, an installation
  with an active administrator keeps one, system roles and their permissions stay as they were, and at any time
  at most one refresh token per user is accepted.
\<close>

theorem deployment_safety:
  assumes "deployment exec view P cfg" and "iam_inv (w_db w)" and "no_sessions (api_refresh cfg) (view (w_time w) (w_redis w))"
    and "BuildServices P cfg = Inr services" and "w' = foldl (serve services) w calls"
  shows "iam_inv (w_db w') \<and>
    (active_admins (w_db w) \<noteq> {} \<longrightarrow> active_admins (w_db w') \<noteq> {}) \<and>
    system_roles (w_db w') = system_roles (w_db w) \<and>
    (\<forall>x \<in> system_roles (w_db w). role_grants (w_db w') (fst x) = role_grants (w_db w) (fst x)) \<and>
    (\<forall>raw1 raw2 uid. fst (Lookup exec (pf_sha P) (api_refresh cfg) Delivered (w_time w') raw1 (w_redis w')) = Inr uid \<and>
        fst (Lookup exec (pf_sha P) (api_refresh cfg) Delivered (w_time w') raw2 (w_redis w')) = Inr uid
      \<longrightarrow> refresh_hash (pf_sha P) raw1 = refresh_hash (pf_sha P) raw2)"
proof -
  obtain jwt crypto where "services = wire P cfg jwt crypto" using assms(4) by (auto simp: BuildServices_def split: sum.splits)
  then have le: "world_le exec view (pf_sha P) (api_refresh cfg) w w'" using deployment.serves_le [OF assms(1)] assms(5) by simp
  then have db: "iam_le (w_db w) (w_db w')" "iam_inv (w_db w')" using assms(2) by (simp_all add: world_le_def)
  have "redis exec view" by (rule deployment.axioms(1) [OF assms(1)])
  note single = redis.single_session [OF this deployment.serves_session_inv [OF assms(1,3) le]]
  show ?thesis using db single by (simp add: iam_le_def users_le_def roles_le_def)
qed

text \<open>A quiet installation on the reference server.\<close>

definition demo_tick :: "keyspace tick" where
  "demo_tick = \<lparr>tk_wait = 1, tk_others = (\<lambda>_ r. r), tk_net = Delivered, tk_wait2 = 1, tk_mid = (\<lambda>_ r. r), tk_net2 = Delivered,
     tk_random = (\<lambda>n. Some (replicate n CHR ''r'')), tk_code = Some 123456, tk_ctx = demo_ctx, tk_now = 1000000000000, tk_mail = None\<rparr>"

definition demo_platform :: "keyspace platform" where
  "demo_platform = \<lparr>pf_exec = lazy_exec, pf_ticks = (\<lambda>_. demo_tick), pf_env = no_interference, pf_scan = Some, pf_sha = id,
     pf_hmac = demo_hmac, pf_hmac1 = demo_hmac, pf_aead = demo_aead, pf_argon = demo_argon, pf_codec = lines_codec,
     pf_text = \<lparr>tx_lower = id, tx_fold = (=), tx_address = Some\<rparr>\<rparr>"

definition demo_config :: api_config where
  "demo_config = \<lparr>ac_Environment = ''dev'', ac_JWTSecret = replicate 32 CHR ''s'', ac_JWTIssuer = ''backend'', ac_AccessTokenTTL = 900000000000,
     ac_RefreshTokenTTL = 3600000000000, ac_AuthenticationKey = replicate 64 CHR ''0'', ac_AuthenticationPepper = replicate 64 CHR ''1'',
     ac_RecoveryCodeTTL = 0\<rparr>"

definition demo_world :: "keyspace world" where
  "demo_world = \<lparr>w_db = sample_iam, w_redis = Map.empty, w_time = 0, w_calls = 0\<rparr>"

interpretation demo: deployment lazy_exec live demo_platform demo_config demo_jwt demo_crypto
  using iam.rely_none by unfold_locales (simp_all add: demo_platform_def demo_tick_def)

lemma demo_services: "\<exists>services. BuildServices demo_platform demo_config = Inr services"
proof -
  have "TrimSpace ''backend'' = ''backend''" "length (hex_bytes (replicate 64 CHR ''0'')) = 32" "length (hex_bytes (replicate 64 CHR ''1'')) = 32"
    by code_simp+
  then show ?thesis by (simp add: BuildServices_def NewJWTManager_def Crypto_New_def demo_config_def)
qed

theorem deployment_safety_witness:
  "\<exists>services. BuildServices demo_platform demo_config = Inr services \<and>
     active_admins (w_db (foldl (serve services) demo_world
       [ApiLogin \<lparr>li_Email = ''a@b'', li_Password = ''x'', li_EmailCode = []\<rparr>, ApiSetActive ''u2'' ''u1'' False])) \<noteq> {}"
proof -
  obtain services where s: "BuildServices demo_platform demo_config = Inr services" using demo_services by blast
  have "no_sessions (api_refresh demo_config) (live (w_time demo_world) (w_redis demo_world))" "iam_inv (w_db demo_world)"
    "active_admins (w_db demo_world) \<noteq> {}"
    using sample_iam_inv by (simp_all add: no_sessions_def live_def demo_world_def, simp add: active_admins_def sample_iam_def sample_admin_def is_admin_role_def)
  then show ?thesis using s deployment_safety [OF demo.deployment_axioms _ _ s refl] by blast
qed

end
