(* ===== verification/Http_Kit.thy ===== *)
theory Http_Kit
  imports Strconv
begin

text \<open>
  Requests and responses as the handlers see them, the errors and envelopes of \<open>src/pkg/apikit\<close> and the strict
  decoding of bodies (\<open>src/pkg/httpkit/jsonbody.go\<close>). A request holds what \<open>net/http\<close> delivers: header, query and
  cookie lookups already parsed. A response body is the JSON value that is written; instants stay numbers of
  nanoseconds, raw messages stay texts, and a nil slice and an empty one are the same empty array.
\<close>

section \<open>Data\<close>

datatype json = JNull | JBool bool | JInt int | JStr string | JTime int | JRaw string | JArr "json list" | JObj "(string \<times> json) list"

record 'b request =
  hr_Method :: string
  hr_Path :: string
  hr_Header :: "string \<Rightarrow> string"
  hr_Query :: "string \<Rightarrow> string"
  hr_Cookie :: "string \<Rightarrow> string option"
  hr_RemoteAddr :: string
  hr_Body :: 'b

record cookie =
  ck_Name :: string
  ck_Value :: string
  ck_Path :: string
  ck_HttpOnly :: bool
  ck_Secure :: bool
  ck_SameSite :: string
  ck_MaxAge :: int

record response =
  hs_Status :: int
  hs_Header :: "(string \<times> string) list"
  hs_Cookies :: "cookie list"
  hs_Body :: json

definition header_Set :: "string \<Rightarrow> string \<Rightarrow> (string \<times> string) list \<Rightarrow> (string \<times> string) list" where
  "header_Set k v hs = filter (\<lambda>x. fst x \<noteq> k) hs @ [(k, v)]"

definition set_header :: "string \<Rightarrow> string \<Rightarrow> response \<Rightarrow> response" where
  "set_header k v r = r\<lparr>hs_Header := header_Set k v (hs_Header r)\<rparr>"

definition opt_json :: "('a \<Rightarrow> json) \<Rightarrow> 'a option \<Rightarrow> json" where
  "opt_json f x = (case x of None \<Rightarrow> JNull | Some v \<Rightarrow> f v)"

section \<open>Errors and envelopes\<close>

record app_error =
  ae_Code :: int
  ae_Message :: string
  ae_HTTPStatus :: int
  ae_Data :: json

definition app_New :: "int \<Rightarrow> string \<Rightarrow> int \<Rightarrow> app_error" where
  "app_New code message status = \<lparr>ae_Code = code, ae_Message = message, ae_HTTPStatus = status, ae_Data = JNull\<rparr>"

definition Validation :: "(string \<times> string) list \<Rightarrow> app_error" where
  "Validation details = \<lparr>ae_Code = 422, ae_Message = ''validation failed'', ae_HTTPStatus = 422,
     ae_Data = JObj (map (\<lambda>(k, v). (k, JStr v)) details)\<rparr>"

definition NotFound :: "string \<Rightarrow> app_error" where
  "NotFound resource = app_New 404 (resource @ '' not found'') 404"

definition Conflict :: "string \<Rightarrow> app_error" where
  "Conflict message = app_New 409 (if message = [] then ''conflict'' else message) 409"

definition MethodNotAllowed :: app_error where
  "MethodNotAllowed = app_New 405 ''method not allowed'' 405"

definition ServiceUnavailable :: "string \<Rightarrow> app_error" where
  "ServiceUnavailable message = app_New 503 message 503"

definition TooManyRequestsError :: app_error where
  "TooManyRequestsError = app_New 429 ''too many requests'' 429"

text \<open>\<open>From\<close> of an error that is no \<open>*Error\<close>: the cause does not reach the client.\<close>

definition From_other :: app_error where
  "From_other = app_New 500 ''internal server error'' 500"

definition writeJSON :: "int \<Rightarrow> json \<Rightarrow> response" where
  "writeJSON status v = \<lparr>hs_Status = status, hs_Header = [(''Content-Type'', ''application/json; charset=utf-8'')],
     hs_Cookies = [], hs_Body = v\<rparr>"

definition Write :: "int \<Rightarrow> json \<Rightarrow> response" where
  "Write status v = writeJSON status (JObj [(''code'', JInt status), (''msg'', JStr ''success''), (''data'', v)])"

definition WriteError :: "app_error \<Rightarrow> response" where
  "WriteError e = writeJSON (ae_HTTPStatus e)
     (JObj [(''code'', JInt (ae_Code e)), (''msg'', JStr (ae_Message e)), (''data'', ae_Data e)])"

lemma Write_simps [simp]:
  "hs_Status (Write s v) = s" "hs_Cookies (Write s v) = []" "hs_Status (WriteError e) = ae_HTTPStatus e" "hs_Cookies (WriteError e) = []"
  "hs_Status (set_header k w r) = hs_Status r" "hs_Cookies (set_header k w r) = hs_Cookies r" "hs_Body (set_header k w r) = hs_Body r"
  by (simp_all add: Write_def WriteError_def writeJSON_def set_header_def)

lemma app_status [simp]:
  "ae_HTTPStatus (app_New c m s) = s" "ae_HTTPStatus (Validation d) = 422" "ae_HTTPStatus (NotFound x) = 404"
  "ae_HTTPStatus (Conflict x) = 409" "ae_HTTPStatus (ServiceUnavailable x) = 503" "ae_HTTPStatus From_other = 500"
  by (simp_all add: app_New_def Validation_def NotFound_def Conflict_def ServiceUnavailable_def From_other_def)

section \<open>Texts of a request\<close>

text \<open>\<open>strings.Fields\<close>: the parts between runs of white space.\<close>

function fields_acc :: "string \<Rightarrow> string \<Rightarrow> string list" where
  "fields_acc acc [] = (if acc = [] then [] else [rev acc])"
| "fields_acc acc (c # cs) = (case leading space_runes (c # cs) of
      Some w \<Rightarrow> (if acc = [] then [] else [rev acc]) @ fields_acc [] (drop (length w) (c # cs))
    | None \<Rightarrow> fields_acc (c # acc) cs)"
  by pat_completeness auto
termination
proof (relation "measure (\<lambda>(acc, s). length s)", goal_cases)
  case (3 acc c cs w)
  then have "w \<noteq> []" by (auto simp: leading_def find_Some_iff)
  then show ?case by (cases w) auto
qed auto

definition Fields :: "string \<Rightarrow> string list" where
  "Fields s = fields_acc [] s"

text \<open>\<open>strings.EqualFold\<close> against a word whose letters only ASCII letters fold to.\<close>

definition EqualFold_ascii :: "string \<Rightarrow> string \<Rightarrow> bool" where
  "EqualFold_ascii s t = (map lower_char s = map lower_char t)"

definition queryInt :: "'b request \<Rightarrow> string \<Rightarrow> int \<Rightarrow> int" where
  "queryInt r name fallback = (case ParseInt (hr_Query r name) of
      None \<Rightarrow> fallback
    | Some v \<Rightarrow> if v \<le> 0 then fallback else v)"

text \<open>The host of \<open>net.SplitHostPort\<close>; nothing when it reports an error.\<close>

definition SplitHost :: "string \<Rightarrow> string option" where
  "SplitHost s =
     (if CHR '':'' \<notin> set s then None
      else let port = rev (takeWhile (\<lambda>c. c \<noteq> CHR '':'') (rev s)); before = take (length s - length port - 1) s in
        case s of
          [] \<Rightarrow> None
        | c # rest \<Rightarrow>
            if c = CHR ''['' then
              (let host = takeWhile (\<lambda>c. c \<noteq> CHR '']'') rest in
               if CHR '']'' \<notin> set rest \<or> length host + 2 \<noteq> length before \<or> CHR ''['' \<in> set rest \<or>
                  CHR '']'' \<in> set (drop (length host + 2) s) then None
               else Some host)
            else if CHR '':'' \<in> set before \<or> CHR ''['' \<in> set s \<or> CHR '']'' \<in> set s then None
            else Some before)"

end
