(* ===== verification/Audit_Trail.thy ===== *)
theory Audit_Trail
  imports Database Pagination
begin

text \<open>
  The audit trail: \<open>src/pkg/modules/audit/audit.go\<close> and \<open>best_effort.go\<close>, the repository
  \<open>src/pkg/platform/database/auditstore/repository.go\<close> and its queries
  (\<open>src/pkg/platform/database/dbgen/audit.sql.go\<close>, tables in \<open>src/pkg/migrations/000002_audit.up.sql\<close>).
  The metadata of an event is a map that \<open>encoding/json\<close> writes and reads; its codec is a parameter.
\<close>

section \<open>Table and queries\<close>

record AuditLogRow =
  al_id :: string
  al_request_id :: string
  al_actor_id :: "string option"
  al_action :: string
  al_result :: string
  al_resource_type :: string
  al_resource_id :: "string option"
  al_ip_address :: "string option"
  al_user_agent :: "string option"
  al_metadata :: string
  al_created_at :: int

text \<open>\<open>audit_users\<close> are the keys of the table \<open>users\<close>, to which the actor refers.\<close>

record audit_db = db_env +
  audit_logs :: "AuditLogRow list"
  audit_users :: "string list"

type_synonym 'a audit_query = "audit_db \<Rightarrow> pg_error + 'a \<times> audit_db"

record CreateAuditLogParams =
  ca_RequestID :: string
  ca_ActorID :: "string option"
  ca_Action :: string
  ca_Result :: string
  ca_ResourceType :: string
  ca_ResourceID :: "string option"
  ca_IpAddress :: "string option"
  ca_UserAgent :: "string option"
  ca_Metadata :: string

definition audit_row :: "CreateAuditLogParams \<Rightarrow> string \<Rightarrow> string \<Rightarrow> int \<Rightarrow> AuditLogRow" where
  "audit_row p i meta now =
     \<lparr>al_id = i, al_request_id = ca_RequestID p, al_actor_id = ca_ActorID p, al_action = ca_Action p, al_result = ca_Result p,
      al_resource_type = ca_ResourceType p, al_resource_id = ca_ResourceID p, al_ip_address = ca_IpAddress p,
      al_user_agent = ca_UserAgent p, al_metadata = meta, al_created_at = now\<rparr>"

definition CreateAuditLog :: "CreateAuditLogParams \<Rightarrow> AuditLogRow audit_query" where
  "CreateAuditLog p s =
     (case jsonb s (ca_Metadata p) of
        None \<Rightarrow> Inl (PgError ''22P02'')
      | Some meta \<Rightarrow>
          if blank (ca_RequestID p) \<or> blank (ca_Action p) \<or> ca_Result p \<notin> {''success'', ''failure''} \<or> blank (ca_ResourceType p)
          then Inl (PgError ''23514'')
          else if sql_uuid s \<in> al_id ` set (audit_logs s) then Inl (PgError ''23505'')
          else if (case ca_ActorID p of None \<Rightarrow> False | Some u \<Rightarrow> u \<notin> set (audit_users s)) then Inl (PgError ''23503'')
          else let r = audit_row p (sql_uuid s) meta (sql_now s) in Inr (r, s\<lparr>audit_logs := audit_logs s @ [r]\<rparr>))"

record filterParams =
  fp_requestID :: "string option"
  fp_actorID :: "string option"
  fp_action :: "string option"
  fp_result :: "string option"
  fp_resourceType :: "string option"
  fp_resourceID :: "string option"
  fp_fromTime :: "int option"
  fp_toTime :: "int option"

definition audit_matches :: "filterParams \<Rightarrow> AuditLogRow \<Rightarrow> bool" where
  "audit_matches p r \<longleftrightarrow>
     (fp_requestID p = None \<or> fp_requestID p = Some (al_request_id r)) \<and>
     (fp_actorID p = None \<or> al_actor_id r = fp_actorID p) \<and>
     (fp_action p = None \<or> fp_action p = Some (al_action r)) \<and>
     (fp_result p = None \<or> fp_result p = Some (al_result r)) \<and>
     (fp_resourceType p = None \<or> fp_resourceType p = Some (al_resource_type r)) \<and>
     (fp_resourceID p = None \<or> al_resource_id r = fp_resourceID p) \<and>
     (case fp_fromTime p of None \<Rightarrow> True | Some t \<Rightarrow> t \<le> al_created_at r) \<and>
     (case fp_toTime p of None \<Rightarrow> True | Some t \<Rightarrow> al_created_at r \<le> t)"

definition ListFilteredAuditLogs :: "filterParams \<Rightarrow> int \<Rightarrow> int \<Rightarrow> AuditLogRow list audit_query" where
  "ListFilteredAuditLogs p offset limit s =
     (if limit < 0 then Inl (PgError ''2201W'') else if offset < 0 then Inl (PgError ''2201X'')
      else Inr (take (nat limit) (drop (nat offset)
        (rev (sort_key (\<lambda>r. (al_created_at r, al_id r)) (filter (audit_matches p) (audit_logs s))))), s))"

definition CountFilteredAuditLogs :: "filterParams \<Rightarrow> int audit_query" where
  "CountFilteredAuditLogs p s = Inr (int (length (filter (audit_matches p) (audit_logs s))), s)"

section \<open>Events\<close>

definition ResultSuccess :: string where
  "ResultSuccess = ''success''"

definition ResultFailure :: string where
  "ResultFailure = ''failure''"

record 'm NewEvent =
  ne_RequestID :: string
  ne_ActorID :: "string option"
  ne_Action :: string
  ne_Result :: string
  ne_ResourceType :: string
  ne_ResourceID :: string
  ne_IPAddress :: "string option"
  ne_UserAgent :: string
  ne_Metadata :: "'m option"

record 'm AuditEvent =
  ev_ID :: string
  ev_RequestID :: string
  ev_ActorID :: "string option"
  ev_Action :: string
  ev_Result :: string
  ev_ResourceType :: string
  ev_ResourceID :: string
  ev_IPAddress :: "string option"
  ev_UserAgent :: string
  ev_Metadata :: 'm
  ev_CreatedAt :: int

record AuditFilter =
  af_RequestID :: string
  af_ActorID :: string
  af_Action :: string
  af_Result :: string
  af_ResourceType :: string
  af_ResourceID :: string
  af_From :: "int option"
  af_To :: "int option"

datatype audit_error =
    ErrInvalidEvent string | RepositoryRequired | QueriesRequired | EncodeMetadata | ParseActorID | ParseActorFilter
  | CreateFailed pg_error | BadBounds | ListFailed pg_error | CountFailed pg_error | DecodeMetadata

section \<open>Repository\<close>

record 'm metadata_codec =
  mc_empty :: 'm
  mc_marshal :: "'m \<Rightarrow> string option"
  mc_unmarshal :: "string \<Rightarrow> 'm option"

record 'm AuditRepository =
  rp_env :: "nat \<Rightarrow> audit_db \<Rightarrow> audit_db"
  rp_scan :: "string \<Rightarrow> string option"
  rp_codec :: "'m metadata_codec"
  rp_queries :: bool

type_synonym 'a audit_op = "(audit_db, audit_error, 'a) op"

definition optionalUUID :: "'m AuditRepository \<Rightarrow> string option \<Rightarrow> audit_error + string option" where
  "optionalUUID R v = (case v of
      None \<Rightarrow> Inr None
    | Some i \<Rightarrow> if i = [] then Inr None else (case rp_scan R i of None \<Rightarrow> Inl ParseActorID | Some u \<Rightarrow> Inr (Some u)))"

definition optionalText :: "string \<Rightarrow> string option" where
  "optionalText v = (if v = [] then None else Some v)"

definition text_value :: "string option \<Rightarrow> string" where
  "text_value v = (case v of None \<Rightarrow> [] | Some t \<Rightarrow> t)"

definition toEvent :: "'m AuditRepository \<Rightarrow> AuditLogRow \<Rightarrow> audit_error + 'm AuditEvent" where
  "toEvent R r =
     (case (if al_metadata r = [] then Some (mc_empty (rp_codec R)) else mc_unmarshal (rp_codec R) (al_metadata r)) of
        None \<Rightarrow> Inl DecodeMetadata
      | Some meta \<Rightarrow> Inr \<lparr>ev_ID = al_id r, ev_RequestID = al_request_id r, ev_ActorID = al_actor_id r, ev_Action = al_action r,
          ev_Result = al_result r, ev_ResourceType = al_resource_type r, ev_ResourceID = text_value (al_resource_id r),
          ev_IPAddress = al_ip_address r, ev_UserAgent = text_value (al_user_agent r), ev_Metadata = meta, ev_CreatedAt = al_created_at r\<rparr>)"

definition event_params :: "'m NewEvent \<Rightarrow> string option \<Rightarrow> string \<Rightarrow> CreateAuditLogParams" where
  "event_params e actor encoded =
     \<lparr>ca_RequestID = ne_RequestID e, ca_ActorID = actor, ca_Action = ne_Action e, ca_Result = ne_Result e,
      ca_ResourceType = ne_ResourceType e, ca_ResourceID = optionalText (ne_ResourceID e), ca_IpAddress = ne_IPAddress e,
      ca_UserAgent = optionalText (ne_UserAgent e), ca_Metadata = encoded\<rparr>"

definition AuditRepository_Create :: "'m AuditRepository \<Rightarrow> 'm NewEvent \<Rightarrow> 'm AuditEvent audit_op" where
  "AuditRepository_Create R e =
     (if \<not> rp_queries R then failE QueriesRequired
      else case mc_marshal (rp_codec R) (case ne_Metadata e of None \<Rightarrow> mc_empty (rp_codec R) | Some m \<Rightarrow> m) of
        None \<Rightarrow> failE EncodeMetadata
      | Some encoded \<Rightarrow> (case optionalUUID R (ne_ActorID e) of
          Inl x \<Rightarrow> failE x
        | Inr actor \<Rightarrow> bindE (mapErrE CreateFailed (stmt (rp_env R) (CreateAuditLog (event_params e actor encoded)))) (\<lambda>row s.
            (toEvent R row, s))))"

definition newFilterParams :: "'m AuditRepository \<Rightarrow> AuditFilter \<Rightarrow> audit_error + filterParams" where
  "newFilterParams R f =
     (case (if af_ActorID f = [] then Inr None else case rp_scan R (af_ActorID f) of None \<Rightarrow> Inl ParseActorFilter | Some u \<Rightarrow> Inr (Some u)) of
        Inl e \<Rightarrow> Inl e
      | Inr actor \<Rightarrow> Inr \<lparr>fp_requestID = optionalText (af_RequestID f), fp_actorID = actor, fp_action = optionalText (af_Action f),
          fp_result = optionalText (af_Result f), fp_resourceType = optionalText (af_ResourceType f),
          fp_resourceID = optionalText (af_ResourceID f), fp_fromTime = af_From f, fp_toTime = af_To f\<rparr>)"

primrec toEvents :: "'m AuditRepository \<Rightarrow> AuditLogRow list \<Rightarrow> audit_error + 'm AuditEvent list" where
  "toEvents R [] = Inr []"
| "toEvents R (r # rs) = (case toEvent R r of
      Inl e \<Rightarrow> Inl e
    | Inr e \<Rightarrow> (case toEvents R rs of Inl x \<Rightarrow> Inl x | Inr es \<Rightarrow> Inr (e # es)))"

definition maxDatabaseInt32 :: int where
  "maxDatabaseInt32 = 2 ^ 31 - 1"

definition AuditRepository_List :: "'m AuditRepository \<Rightarrow> AuditFilter \<Rightarrow> int \<Rightarrow> int \<Rightarrow> ('m AuditEvent list \<times> int) audit_op" where
  "AuditRepository_List R f limit offset =
     (if \<not> rp_queries R then failE QueriesRequired
      else if limit < 1 \<or> offset < 0 \<or> limit > maxDatabaseInt32 \<or> offset > maxDatabaseInt32 then failE BadBounds
      else case newFilterParams R f of
        Inl e \<Rightarrow> failE e
      | Inr p \<Rightarrow> bindE (mapErrE ListFailed (stmt (rp_env R) (ListFilteredAuditLogs p (int32 offset) (int32 limit)))) (\<lambda>rows.
          case toEvents R rows of
            Inl e \<Rightarrow> failE e
          | Inr items \<Rightarrow> bindE (mapErrE CountFailed (stmt (rp_env R) (CountFilteredAuditLogs p))) (\<lambda>total. retE (items, total))))"

section \<open>Service\<close>

definition validate :: "'m NewEvent \<Rightarrow> audit_error option" where
  "validate e =
     (if TrimSpace (ne_RequestID e) = [] \<or> TrimSpace (ne_Action e) = [] \<or> TrimSpace (ne_ResourceType e) = []
      then Some (ErrInvalidEvent ''request ID, action, and resource type are required'')
      else if ne_Result e \<noteq> ResultSuccess \<and> ne_Result e \<noteq> ResultFailure then Some (ErrInvalidEvent ''result must be success or failure'')
      else None)"

text \<open>A service without a repository is \<open>None\<close>.\<close>

definition AuditService_Record :: "'m AuditRepository option \<Rightarrow> 'm NewEvent \<Rightarrow> 'm AuditEvent audit_op" where
  "AuditService_Record service e =
     (case service of
        None \<Rightarrow> failE (ErrInvalidEvent ''repository is required'')
      | Some R \<Rightarrow> (case validate e of Some x \<Rightarrow> failE x | None \<Rightarrow> AuditRepository_Create R e))"

definition AuditService_List :: "'m AuditRepository option \<Rightarrow> AuditFilter \<Rightarrow> int \<Rightarrow> int \<Rightarrow> 'm AuditEvent page audit_op" where
  "AuditService_List service f page sz =
     (let (page, sz) = Normalize page sz in
      case service of
        None \<Rightarrow> failE RepositoryRequired
      | Some R \<Rightarrow> bindE (AuditRepository_List R f sz (int64 ((page - 1) * sz))) (\<lambda>(items, total). retE (New (Some items) page sz total)))"

section \<open>Best-effort recorder\<close>

text \<open>What the recorder tells the log and the observer, in order.\<close>

datatype audit_note = LogFailure string audit_error | AuditWriteFailed string | ObserveAudit string string

record audit_world =
  aw_db :: audit_db
  aw_notes :: "audit_note list"

text \<open>The observer may be missing (\<open>None\<close>), and may or may not take successes as well.\<close>

record 'm BestEffortRecorder =
  br_recorder :: "'m AuditRepository option"
  br_observer :: "bool option"

definition Preserve :: "'m BestEffortRecorder option \<Rightarrow> 'm NewEvent \<Rightarrow> 'p \<Rightarrow> audit_world \<Rightarrow> 'p \<times> audit_world" where
  "Preserve rec e primary a =
     (case rec of
        None \<Rightarrow> (primary, a)
      | Some b \<Rightarrow> (case br_recorder b of
          None \<Rightarrow> (primary, a)
        | Some R \<Rightarrow> (case AuditService_Record (Some R) e (aw_db a) of
            (Inl err, d) \<Rightarrow> (primary, a\<lparr>aw_db := d, aw_notes := aw_notes a @ [LogFailure (ne_Action e) err] @
              (case br_observer b of None \<Rightarrow> [] | Some _ \<Rightarrow> [AuditWriteFailed (ne_Action e)])\<rparr>)
          | (Inr _, d) \<Rightarrow> (primary, a\<lparr>aw_db := d, aw_notes := aw_notes a @
              (case br_observer b of Some True \<Rightarrow> [ObserveAudit (ne_Action e) (ne_Result e)] | _ \<Rightarrow> [])\<rparr>))))"

end
