(* ===== verification/Audited_Service.thy ===== *)
theory Audited_Service
  imports Audit_Trail Auth_Service
begin

text \<open>
  The services as the HTTP handlers see them: \<open>src/internal/app/audited_iam.go\<close> and
  \<open>src/internal/app/audited_authentication.go\<close> wrap every operation that changes something, every login and every
  check of a permission, and record one event for each. The world of the wrapped services is the world of the
  services and that of the audit trail.
\<close>

section \<open>Recording\<close>

text \<open>What the middleware left in the context of the request.\<close>

record request_ctx =
  rq_RequestID :: string
  rq_Subject :: string
  rq_IPAddress :: "string option"
  rq_UserAgent :: string

definition audit_event :: "request_ctx \<Rightarrow> string \<times> string \<times> string \<times> string option \<Rightarrow> iam_error + 'a \<Rightarrow> 'm NewEvent" where
  "audit_event ctx d primary = (case d of (action, rtype, rid, actor) \<Rightarrow>
     \<lparr>ne_RequestID = rq_RequestID ctx,
      ne_ActorID = (case actor of Some i \<Rightarrow> Some i | None \<Rightarrow> if rq_Subject ctx \<noteq> [] then Some (rq_Subject ctx) else None),
      ne_Action = action, ne_Result = (case primary of Inl _ \<Rightarrow> ResultFailure | Inr _ \<Rightarrow> ResultSuccess),
      ne_ResourceType = rtype, ne_ResourceID = rid, ne_IPAddress = rq_IPAddress ctx, ne_UserAgent = rq_UserAgent ctx, ne_Metadata = None\<rparr>)"

text \<open>\<open>auditedIAM.record\<close> after the operation itself.\<close>

definition audited ::
    "'m BestEffortRecorder option \<Rightarrow> request_ctx \<Rightarrow> (iam_error + 'a \<Rightarrow> string \<times> string \<times> string \<times> string option)
      \<Rightarrow> ('w, 'a) call \<Rightarrow> ('w \<times> audit_world, 'a) call" where
  "audited rec ctx d m = (\<lambda>(w, a).
     let (r, w') = m w; (r', a') = Preserve rec (audit_event ctx (d r) r) r a in (r', (w', a')))"

definition unaudited :: "('w, 'a) call \<Rightarrow> ('w \<times> audit_world, 'a) call" where
  "unaudited m = (\<lambda>(w, a). let (r, w') = m w in (r, (w', a)))"

section \<open>Operations\<close>

definition auditedIAM_Login ::
    "'m BestEffortRecorder option \<Rightarrow> request_ctx \<Rightarrow> 'w Service \<Rightarrow> string \<Rightarrow> string \<Rightarrow> ('w \<times> audit_world, TokenPair) call" where
  "auditedIAM_Login rec ctx s email pw =
     audited rec ctx (\<lambda>r. (''auth.login'', ''session'', [], None)) (Service_Login s email pw)"

definition auditedIAM_Refresh ::
    "'m BestEffortRecorder option \<Rightarrow> request_ctx \<Rightarrow> 'w Service \<Rightarrow> string \<Rightarrow> ('w \<times> audit_world, TokenPair) call" where
  "auditedIAM_Refresh rec ctx s token =
     audited rec ctx (\<lambda>r. (''auth.refresh'', ''session'', [], None)) (Service_Refresh s token)"

definition auditedIAM_Logout ::
    "'m BestEffortRecorder option \<Rightarrow> request_ctx \<Rightarrow> 'w Service \<Rightarrow> string \<Rightarrow> ('w \<times> audit_world, unit) call" where
  "auditedIAM_Logout rec ctx s token =
     audited rec ctx (\<lambda>r. (''auth.logout'', ''session'', [], None)) (Service_Logout s token)"

definition auditedIAM_CreateUser ::
    "'m BestEffortRecorder option \<Rightarrow> request_ctx \<Rightarrow> 'w Service \<Rightarrow> CreateUserInput \<Rightarrow> ('w \<times> audit_world, User) call" where
  "auditedIAM_CreateUser rec ctx s input =
     audited rec ctx (\<lambda>r. (''administration.user.create'', ''user'', (case r of Inl _ \<Rightarrow> [] | Inr v \<Rightarrow> user_ID v), None)) (Service_CreateUser s input)"

definition auditedIAM_UpdateUser ::
    "'m BestEffortRecorder option \<Rightarrow> request_ctx \<Rightarrow> 'w Service \<Rightarrow> string \<Rightarrow> UpdateUserInput \<Rightarrow> ('w \<times> audit_world, User) call" where
  "auditedIAM_UpdateUser rec ctx s i input =
     audited rec ctx (\<lambda>r. (''administration.user.update'', ''user'', i, None)) (Service_UpdateUser s i input)"

definition auditedIAM_ResetUserPassword ::
    "'m BestEffortRecorder option \<Rightarrow> request_ctx \<Rightarrow> 'w Service \<Rightarrow> string \<Rightarrow> string \<Rightarrow> ('w \<times> audit_world, unit) call" where
  "auditedIAM_ResetUserPassword rec ctx s i pw =
     audited rec ctx (\<lambda>r. (''administration.user.password.reset'', ''user'', i, None)) (Service_ResetUserPassword s i pw)"

definition auditedIAM_SetUserActive ::
    "'m BestEffortRecorder option \<Rightarrow> request_ctx \<Rightarrow> 'w Service \<Rightarrow> string \<Rightarrow> bool \<Rightarrow> ('w \<times> audit_world, unit) call" where
  "auditedIAM_SetUserActive rec ctx s i active =
     audited rec ctx (\<lambda>r. (''administration.user.active'', ''user'', i, None)) (Service_SetUserActive s (rq_Subject ctx) i active)"

definition auditedIAM_ReplaceUserRoles ::
    "'m BestEffortRecorder option \<Rightarrow> request_ctx \<Rightarrow> 'w Service \<Rightarrow> string \<Rightarrow> string list \<Rightarrow> ('w \<times> audit_world, unit) call" where
  "auditedIAM_ReplaceUserRoles rec ctx s i ids =
     audited rec ctx (\<lambda>r. (''administration.user.roles.replace'', ''user'', i, None)) (Service_ReplaceUserRoles s i ids)"

definition auditedIAM_CreateRole ::
    "'m BestEffortRecorder option \<Rightarrow> request_ctx \<Rightarrow> 'w Service \<Rightarrow> RoleInput \<Rightarrow> ('w \<times> audit_world, Role) call" where
  "auditedIAM_CreateRole rec ctx s input =
     audited rec ctx (\<lambda>r. (''administration.role.create'', ''role'', (case r of Inl _ \<Rightarrow> [] | Inr v \<Rightarrow> role_ID v), None)) (Service_CreateRole s input)"

definition auditedIAM_UpdateRole ::
    "'m BestEffortRecorder option \<Rightarrow> request_ctx \<Rightarrow> 'w Service \<Rightarrow> string \<Rightarrow> RoleInput \<Rightarrow> ('w \<times> audit_world, Role) call" where
  "auditedIAM_UpdateRole rec ctx s i input =
     audited rec ctx (\<lambda>r. (''administration.role.update'', ''role'', i, None)) (Service_UpdateRole s i input)"

definition auditedIAM_DeleteRole ::
    "'m BestEffortRecorder option \<Rightarrow> request_ctx \<Rightarrow> 'w Service \<Rightarrow> string \<Rightarrow> ('w \<times> audit_world, unit) call" where
  "auditedIAM_DeleteRole rec ctx s i =
     audited rec ctx (\<lambda>r. (''administration.role.delete'', ''role'', i, None)) (Service_DeleteRole s i)"

definition auditedIAM_ReplaceRolePermissions ::
    "'m BestEffortRecorder option \<Rightarrow> request_ctx \<Rightarrow> 'w Service \<Rightarrow> string \<Rightarrow> string list \<Rightarrow> ('w \<times> audit_world, unit) call" where
  "auditedIAM_ReplaceRolePermissions rec ctx s i ids =
     audited rec ctx (\<lambda>r. (''administration.role.permissions.replace'', ''role'', i, None)) (Service_ReplaceRolePermissions s i ids)"

definition auditedIAM_AssignRole ::
    "'m BestEffortRecorder option \<Rightarrow> request_ctx \<Rightarrow> 'w Service \<Rightarrow> string \<Rightarrow> string \<Rightarrow> ('w \<times> audit_world, unit) call" where
  "auditedIAM_AssignRole rec ctx s i j =
     audited rec ctx (\<lambda>r. (''administration.role.assign'', ''user'', i, None)) (Service_AssignRole s i j)"

definition auditedIAM_GrantPermission ::
    "'m BestEffortRecorder option \<Rightarrow> request_ctx \<Rightarrow> 'w Service \<Rightarrow> string \<Rightarrow> string \<Rightarrow> ('w \<times> audit_world, unit) call" where
  "auditedIAM_GrantPermission rec ctx s i j =
     audited rec ctx (\<lambda>r. (''administration.permission.grant'', ''role'', i, None)) (Service_GrantPermission s i j)"

definition auditedIAM_Authorize ::
    "'m BestEffortRecorder option \<Rightarrow> request_ctx \<Rightarrow> 'w Service \<Rightarrow> string \<Rightarrow> string \<Rightarrow> ('w \<times> audit_world, unit) call" where
  "auditedIAM_Authorize rec ctx s i required =
     audited rec ctx (\<lambda>r. (''authorization.check'', ''permission'', required, Some i)) (Service_Authorize s i required)"

definition auditedAuth_Login ::
    "'m BestEffortRecorder option \<Rightarrow> request_ctx \<Rightarrow> 'w Service \<Rightarrow> 'w AuthenticationService \<Rightarrow> LoginInput \<Rightarrow> ('w \<times> audit_world, LoginResult) call" where
  "auditedAuth_Login rec ctx s a input =
     audited rec ctx (\<lambda>r. ((case r of Inr v \<Rightarrow> if lr_Status v = ''totp_required'' then ''auth.login.challenge'' else ''auth.login'' | Inl _ \<Rightarrow> ''auth.login''), ''session'', [], None)) (Auth_Login s a input)"

definition auditedAuth_VerifyLogin ::
    "'m BestEffortRecorder option \<Rightarrow> request_ctx \<Rightarrow> 'w Service \<Rightarrow> 'w AuthenticationService \<Rightarrow> VerifyInput \<Rightarrow> ('w \<times> audit_world, TokenPair) call" where
  "auditedAuth_VerifyLogin rec ctx s a input =
     audited rec ctx (\<lambda>r. (''auth.login.totp.verify'', ''session'', [], None)) (Auth_VerifyLogin s a input)"

definition auditedAuth_RequestEmailCode ::
    "'m BestEffortRecorder option \<Rightarrow> request_ctx \<Rightarrow> 'w Service \<Rightarrow> 'w AuthenticationService \<Rightarrow> string \<Rightarrow> string \<Rightarrow> string \<Rightarrow> ('w \<times> audit_world, unit) call" where
  "auditedAuth_RequestEmailCode rec ctx s a email purpose ip =
     audited rec ctx (\<lambda>r. (''auth.email_code.request'', ''authentication'', [], None)) (Auth_RequestEmailCode s a email purpose ip)"

definition auditedAuth_Register ::
    "'m BestEffortRecorder option \<Rightarrow> request_ctx \<Rightarrow> 'w Service \<Rightarrow> 'w AuthenticationService \<Rightarrow> RegisterInput \<Rightarrow> ('w \<times> audit_world, User) call" where
  "auditedAuth_Register rec ctx s a input =
     audited rec ctx (\<lambda>r. (''auth.register'', ''user'', (case r of Inl _ \<Rightarrow> [] | Inr v \<Rightarrow> user_ID v), None)) (Auth_Register s a input)"

definition auditedAuth_PutSettings ::
    "'m BestEffortRecorder option \<Rightarrow> request_ctx \<Rightarrow> 'w Service \<Rightarrow> 'w AuthenticationService \<Rightarrow> AuthenticationSettings \<Rightarrow> ('w \<times> audit_world, unit) call" where
  "auditedAuth_PutSettings rec ctx s a v =
     audited rec ctx (\<lambda>r. (''authentication.settings.update'', ''authentication'', [], None)) (Auth_PutSettings s a v)"

definition auditedAuth_PutSecurity ::
    "'m BestEffortRecorder option \<Rightarrow> request_ctx \<Rightarrow> 'w Service \<Rightarrow> 'w AuthenticationService \<Rightarrow> string \<Rightarrow> string \<Rightarrow> ('w \<times> audit_world, SecuritySettings) call" where
  "auditedAuth_PutSecurity rec ctx s a i mode =
     audited rec ctx (\<lambda>r. (''auth.security.update'', ''user'', i, None)) (Auth_PutSecurity s a i mode)"

definition auditedAuth_Enroll ::
    "'m BestEffortRecorder option \<Rightarrow> request_ctx \<Rightarrow> 'w Service \<Rightarrow> 'w AuthenticationService \<Rightarrow> string \<Rightarrow> SecurityProof \<Rightarrow> ('w \<times> audit_world, Enrollment) call" where
  "auditedAuth_Enroll rec ctx s a i p =
     audited rec ctx (\<lambda>r. (''auth.totp.enroll'', ''user'', i, None)) (Auth_Enroll s a i p)"

definition auditedAuth_Confirm ::
    "'m BestEffortRecorder option \<Rightarrow> request_ctx \<Rightarrow> 'w Service \<Rightarrow> 'w AuthenticationService \<Rightarrow> string \<Rightarrow> string \<Rightarrow> ('w \<times> audit_world, string list) call" where
  "auditedAuth_Confirm rec ctx s a i code =
     audited rec ctx (\<lambda>r. (''auth.totp.confirm'', ''user'', i, None)) (Auth_Confirm s a i code)"

definition auditedAuth_Disable ::
    "'m BestEffortRecorder option \<Rightarrow> request_ctx \<Rightarrow> 'w Service \<Rightarrow> 'w AuthenticationService \<Rightarrow> string \<Rightarrow> SecurityProof \<Rightarrow> ('w \<times> audit_world, unit) call" where
  "auditedAuth_Disable rec ctx s a i p =
     audited rec ctx (\<lambda>r. (''auth.totp.disable'', ''user'', i, None)) (Auth_Disable s a i p)"

text \<open>Reads are passed on as they are.\<close>

definition auditedIAM_CurrentUser :: "'w Service \<Rightarrow> string \<Rightarrow> ('w \<times> audit_world, AuthenticatedUser) call" where
  "auditedIAM_CurrentUser s i = unaudited (Service_CurrentUser s i)"

definition auditedIAM_Preferences :: "'w Service \<Rightarrow> string \<Rightarrow> ('w \<times> audit_world, Preferences) call" where
  "auditedIAM_Preferences s i = unaudited (Service_Preferences s i)"

definition auditedIAM_PutPreferences :: "'w Service \<Rightarrow> string \<Rightarrow> Preferences \<Rightarrow> ('w \<times> audit_world, unit) call" where
  "auditedIAM_PutPreferences s i v = unaudited (Service_PutPreferences s i v)"

definition auditedIAM_Users :: "'w Service \<Rightarrow> UserQuery \<Rightarrow> ('w \<times> audit_world, User page) call" where
  "auditedIAM_Users s q = unaudited (Service_Users s q)"

definition auditedIAM_Roles :: "'w Service \<Rightarrow> ('w \<times> audit_world, Role list) call" where
  "auditedIAM_Roles s = unaudited (Service_Roles s)"

definition auditedIAM_Role :: "'w Service \<Rightarrow> string \<Rightarrow> ('w \<times> audit_world, RoleDetail) call" where
  "auditedIAM_Role s i = unaudited (Service_Role s i)"

definition auditedIAM_Permissions :: "'w Service \<Rightarrow> ('w \<times> audit_world, Permission list) call" where
  "auditedIAM_Permissions s = unaudited (Service_Permissions s)"

section \<open>What is recorded\<close>

text \<open>The table has grown by one row, which says what the event says.\<close>

definition recorded :: "'m AuditRepository \<Rightarrow> 'm NewEvent \<Rightarrow> audit_db \<Rightarrow> audit_db \<Rightarrow> bool" where
  "recorded R e d d' \<longleftrightarrow> (\<exists>row. audit_logs d' = audit_logs d @ [row] \<and> al_request_id row = ne_RequestID e \<and>
     optionalUUID R (ne_ActorID e) = Inr (al_actor_id row) \<and> al_action row = ne_Action e \<and> al_result row = ne_Result e \<and>
     al_resource_type row = ne_ResourceType e \<and> al_resource_id row = optionalText (ne_ResourceID e) \<and>
     al_ip_address row = ne_IPAddress e \<and> al_user_agent row = optionalText (ne_UserAgent e))"

text \<open>
  The event is in the table and the observer has seen it, or the failure is in the log and the observer has seen
  that; then the row may be there or not. \<open>d\<close> is the table when the statement runs.
\<close>

definition accounted :: "'m AuditRepository \<Rightarrow> 'm NewEvent \<Rightarrow> audit_world \<Rightarrow> audit_world \<Rightarrow> bool" where
  "accounted R e a a' \<longleftrightarrow> (\<exists>d \<in> {aw_db a, rp_env R (db_calls (aw_db a)) (aw_db a)}.
     (recorded R e d (aw_db a') \<and> aw_notes a' = aw_notes a @ [ObserveAudit (ne_Action e) (ne_Result e)]) \<or>
     (\<exists>err. aw_notes a' = aw_notes a @ [LogFailure (ne_Action e) err, AuditWriteFailed (ne_Action e)] \<and>
        (audit_logs (aw_db a') = audit_logs d \<or> recorded R e d (aw_db a'))))"

text \<open>
  What an event has to say of an operation of the request: its action and resource, the actor the operation names or
  else the subject of the access token, if any, and the outcome.
\<close>

definition reports :: "request_ctx \<Rightarrow> string \<times> string \<times> string \<times> string option \<Rightarrow> bool \<Rightarrow> 'm NewEvent \<Rightarrow> bool" where
  "reports ctx d failed e \<longleftrightarrow> (case d of (action, rtype, rid, actor) \<Rightarrow>
     ne_Action e = action \<and> ne_ResourceType e = rtype \<and> ne_ResourceID e = rid \<and>
     (actor \<noteq> None \<longrightarrow> ne_ActorID e = actor) \<and>
     (actor = None \<and> rq_Subject ctx \<noteq> [] \<longrightarrow> ne_ActorID e = Some (rq_Subject ctx)) \<and>
     (actor = None \<and> rq_Subject ctx = [] \<longrightarrow> ne_ActorID e = None) \<and>
     ne_Result e = (if failed then ''failure'' else ''success'') \<and> ne_RequestID e = rq_RequestID ctx \<and>
     ne_IPAddress e = rq_IPAddress ctx \<and> ne_UserAgent e = rq_UserAgent ctx)"

lemma reports_audit_event: "reports ctx (d r) (isl r) (audit_event ctx (d r) r)"
  by (cases "d r"; cases r) (auto simp: reports_def audit_event_def ResultFailure_def ResultSuccess_def split: option.split)

definition transparent ::
    "'m AuditRepository \<Rightarrow> request_ctx \<Rightarrow> (iam_error + 'a \<Rightarrow> string \<times> string \<times> string \<times> string option)
      \<Rightarrow> ('w, 'a) call \<Rightarrow> ('w \<times> audit_world, 'a) call \<Rightarrow> bool" where
  "transparent R ctx d m m' \<longleftrightarrow> (\<forall>w a. case m' (w, a) of (r, (w', a')) \<Rightarrow>
     (r, w') = m w \<and> (\<exists>e. reports ctx (d r) (isl r) e \<and> accounted R e a a'))"

text \<open>The recorder of the API process: the service on the repository, observed by the metrics.\<close>

definition api_recorder :: "'m AuditRepository \<Rightarrow> 'm BestEffortRecorder option" where
  "api_recorder R = Some \<lparr>br_recorder = Some R, br_observer = Some True\<rparr>"

lemma next_call_logs [simp]: "audit_logs (next_call s) = audit_logs s"
  by (simp add: next_call_def)

lemma CreateAuditLog_row: "CreateAuditLog p s = Inr (row, t) \<Longrightarrow>
    audit_logs t = audit_logs s @ [row] \<and> (\<exists>i meta now. row = audit_row p i meta now)"
  by (auto simp: CreateAuditLog_def Let_def split: option.splits if_splits)

lemma recordedI: "CreateAuditLog (event_params e actor j) d = Inr (row, t) \<Longrightarrow> optionalUUID R (ne_ActorID e) = Inr actor \<Longrightarrow>
    recorded R e d (next_call t)"
  using CreateAuditLog_row by (fastforce simp: recorded_def audit_row_def event_params_def)

lemma Record_outcome:
  assumes "AuditService_Record (Some R) e d = (r, d')"
  shows "\<exists>d0 \<in> {d, rp_env R (db_calls d) d}. recorded R e d0 d' \<or> (\<exists>err. r = Inl err) \<and> audit_logs d' = audit_logs d0"
proof (cases "\<exists>actor j. optionalUUID R (ne_ActorID e) = Inr actor \<and>
    bindE (mapErrE CreateFailed (stmt (rp_env R) (CreateAuditLog (event_params e actor j)))) (\<lambda>row s. (toEvent R row, s)) d = (r, d')")
  case True
  then obtain actor j where actor: "optionalUUID R (ne_ActorID e) = Inr actor"
    and run: "bindE (mapErrE CreateFailed (stmt (rp_env R) (CreateAuditLog (event_params e actor j)))) (\<lambda>row s. (toEvent R row, s)) d = (r, d')"
    by blast
  obtain x t where s: "stmt (rp_env R) (CreateAuditLog (event_params e actor j)) d = (x, t)" by force
  from s show ?thesis
  proof (cases rule: stmt_cases)
    case (finish y s')
    then show ?thesis using run s recordedI [OF _ actor] by (auto simp: bindE_def mapErrE_def)
  next
    case (lost y s')
    then show ?thesis using run s recordedI [OF _ actor] by (auto simp: bindE_def mapErrE_def)
  qed (use run s in \<open>auto simp: bindE_def mapErrE_def\<close>)
next
  case False
  then have "d' = d \<and> (\<exists>err. r = Inl err)"
    using assms by (auto simp: AuditService_Record_def AuditRepository_Create_def split: option.splits sum.splits if_splits)
  then show ?thesis by auto
qed

lemma Preserve_primary: "fst (Preserve rec e primary a) = primary"
  by (auto simp: Preserve_def split: option.splits prod.splits sum.splits)

lemma Preserve_accounted: "accounted R e a (snd (Preserve (api_recorder R) e primary a))"
proof -
  obtain r d' where rec: "AuditService_Record (Some R) e (aw_db a) = (r, d')" by force
  show ?thesis using Record_outcome [OF rec] rec unfolding accounted_def Preserve_def api_recorder_def
    by (cases r) auto
qed

lemma transparent_audited: "transparent R ctx d m (audited (api_recorder R) ctx d m)"
  unfolding transparent_def
proof (intro allI)
  fix w a
  obtain r w' where m: "m w = (r, w')" by force
  let ?p = "Preserve (api_recorder R) (audit_event ctx (d r) r) r a"
  have "audited (api_recorder R) ctx d m (w, a) = (fst ?p, (w', snd ?p))" by (simp add: audited_def m Let_def split: prod.split)
  then show "case audited (api_recorder R) ctx d m (w, a) of (r, (w', a')) \<Rightarrow>
      (r, w') = m w \<and> (\<exists>e. reports ctx (d r) (isl r) e \<and> accounted R e a a')"
    using m Preserve_accounted [of R "audit_event ctx (d r) r" a r] reports_audit_event [of ctx d r] by (auto simp: Preserve_primary)
qed

section \<open>Property\<close>

text \<open>
  C17: auditing is transparent and complete. Each audited operation returns what the operation itself returns and
  leaves its world as the operation leaves it, whatever becomes of the audit record; and it accounts for exactly
  one event, with the operation's own action and resource, the actor the operation names or else the subject
  of the request, the request's identifier, address and user agent, and the result success or failure as the
  operation had it: one row in the table and one observation, or a logged and observed failure.
\<close>

theorem audit_transparent:
  "(\<forall>email pw. transparent R ctx (\<lambda>_. (''auth.login'', ''session'', [], None)) (Service_Login s email pw) (auditedIAM_Login (api_recorder R) ctx s email pw)) \<and>
    (\<forall>token. transparent R ctx (\<lambda>_. (''auth.refresh'', ''session'', [], None)) (Service_Refresh s token) (auditedIAM_Refresh (api_recorder R) ctx s token)) \<and>
    (\<forall>token. transparent R ctx (\<lambda>_. (''auth.logout'', ''session'', [], None)) (Service_Logout s token) (auditedIAM_Logout (api_recorder R) ctx s token)) \<and>
    (\<forall>input. transparent R ctx (\<lambda>r. (''administration.user.create'', ''user'', (case r of Inl _ \<Rightarrow> [] | Inr v \<Rightarrow> user_ID v), None)) (Service_CreateUser s input) (auditedIAM_CreateUser (api_recorder R) ctx s input)) \<and>
    (\<forall>i input. transparent R ctx (\<lambda>_. (''administration.user.update'', ''user'', i, None)) (Service_UpdateUser s i input) (auditedIAM_UpdateUser (api_recorder R) ctx s i input)) \<and>
    (\<forall>i pw. transparent R ctx (\<lambda>_. (''administration.user.password.reset'', ''user'', i, None)) (Service_ResetUserPassword s i pw) (auditedIAM_ResetUserPassword (api_recorder R) ctx s i pw)) \<and>
    (\<forall>i active. transparent R ctx (\<lambda>_. (''administration.user.active'', ''user'', i, None)) (Service_SetUserActive s (rq_Subject ctx) i active) (auditedIAM_SetUserActive (api_recorder R) ctx s i active)) \<and>
    (\<forall>i ids. transparent R ctx (\<lambda>_. (''administration.user.roles.replace'', ''user'', i, None)) (Service_ReplaceUserRoles s i ids) (auditedIAM_ReplaceUserRoles (api_recorder R) ctx s i ids)) \<and>
    (\<forall>input. transparent R ctx (\<lambda>r. (''administration.role.create'', ''role'', (case r of Inl _ \<Rightarrow> [] | Inr v \<Rightarrow> role_ID v), None)) (Service_CreateRole s input) (auditedIAM_CreateRole (api_recorder R) ctx s input)) \<and>
    (\<forall>i input. transparent R ctx (\<lambda>_. (''administration.role.update'', ''role'', i, None)) (Service_UpdateRole s i input) (auditedIAM_UpdateRole (api_recorder R) ctx s i input)) \<and>
    (\<forall>i. transparent R ctx (\<lambda>_. (''administration.role.delete'', ''role'', i, None)) (Service_DeleteRole s i) (auditedIAM_DeleteRole (api_recorder R) ctx s i)) \<and>
    (\<forall>i ids. transparent R ctx (\<lambda>_. (''administration.role.permissions.replace'', ''role'', i, None)) (Service_ReplaceRolePermissions s i ids) (auditedIAM_ReplaceRolePermissions (api_recorder R) ctx s i ids)) \<and>
    (\<forall>i j. transparent R ctx (\<lambda>_. (''administration.role.assign'', ''user'', i, None)) (Service_AssignRole s i j) (auditedIAM_AssignRole (api_recorder R) ctx s i j)) \<and>
    (\<forall>i j. transparent R ctx (\<lambda>_. (''administration.permission.grant'', ''role'', i, None)) (Service_GrantPermission s i j) (auditedIAM_GrantPermission (api_recorder R) ctx s i j)) \<and>
    (\<forall>i required. transparent R ctx (\<lambda>_. (''authorization.check'', ''permission'', required, Some i)) (Service_Authorize s i required) (auditedIAM_Authorize (api_recorder R) ctx s i required)) \<and>
    (\<forall>input. transparent R ctx (\<lambda>r. ((case r of Inr v \<Rightarrow> if lr_Status v = ''totp_required'' then ''auth.login.challenge'' else ''auth.login'' | Inl _ \<Rightarrow> ''auth.login''), ''session'', [], None)) (Auth_Login s a input) (auditedAuth_Login (api_recorder R) ctx s a input)) \<and>
    (\<forall>input. transparent R ctx (\<lambda>_. (''auth.login.totp.verify'', ''session'', [], None)) (Auth_VerifyLogin s a input) (auditedAuth_VerifyLogin (api_recorder R) ctx s a input)) \<and>
    (\<forall>email purpose ip. transparent R ctx (\<lambda>_. (''auth.email_code.request'', ''authentication'', [], None)) (Auth_RequestEmailCode s a email purpose ip) (auditedAuth_RequestEmailCode (api_recorder R) ctx s a email purpose ip)) \<and>
    (\<forall>input. transparent R ctx (\<lambda>r. (''auth.register'', ''user'', (case r of Inl _ \<Rightarrow> [] | Inr v \<Rightarrow> user_ID v), None)) (Auth_Register s a input) (auditedAuth_Register (api_recorder R) ctx s a input)) \<and>
    (\<forall>v. transparent R ctx (\<lambda>_. (''authentication.settings.update'', ''authentication'', [], None)) (Auth_PutSettings s a v) (auditedAuth_PutSettings (api_recorder R) ctx s a v)) \<and>
    (\<forall>i mode. transparent R ctx (\<lambda>_. (''auth.security.update'', ''user'', i, None)) (Auth_PutSecurity s a i mode) (auditedAuth_PutSecurity (api_recorder R) ctx s a i mode)) \<and>
    (\<forall>i p. transparent R ctx (\<lambda>_. (''auth.totp.enroll'', ''user'', i, None)) (Auth_Enroll s a i p) (auditedAuth_Enroll (api_recorder R) ctx s a i p)) \<and>
    (\<forall>i code. transparent R ctx (\<lambda>_. (''auth.totp.confirm'', ''user'', i, None)) (Auth_Confirm s a i code) (auditedAuth_Confirm (api_recorder R) ctx s a i code)) \<and>
    (\<forall>i p. transparent R ctx (\<lambda>_. (''auth.totp.disable'', ''user'', i, None)) (Auth_Disable s a i p) (auditedAuth_Disable (api_recorder R) ctx s a i p))"
  unfolding auditedIAM_Login_def auditedIAM_Refresh_def auditedIAM_Logout_def auditedIAM_CreateUser_def auditedIAM_UpdateUser_def auditedIAM_ResetUserPassword_def auditedIAM_SetUserActive_def auditedIAM_ReplaceUserRoles_def auditedIAM_CreateRole_def auditedIAM_UpdateRole_def auditedIAM_DeleteRole_def auditedIAM_ReplaceRolePermissions_def auditedIAM_AssignRole_def auditedIAM_GrantPermission_def auditedIAM_Authorize_def auditedAuth_Login_def auditedAuth_VerifyLogin_def auditedAuth_RequestEmailCode_def auditedAuth_Register_def auditedAuth_PutSettings_def auditedAuth_PutSecurity_def auditedAuth_Enroll_def auditedAuth_Confirm_def auditedAuth_Disable_def
  by (intro conjI allI transparent_audited)

end
