(* ===== verification/Iam_Http.thy ===== *)
theory Iam_Http
  imports Http_Kit Audited_Service Tokens
begin

text \<open>
  The HTTP handlers of the identity module: \<open>src/pkg/platform/httpserver/iamhttp/http.go\<close> and
  \<open>authentication.go\<close> over the interfaces \<open>Application\<close> and \<open>AuthenticationApplication\<close> of \<open>src/pkg/modules/iam\<close>.
  The JSON decoder is the parameter \<open>decoders\<close>, one function per input structure that gives nothing when
  \<open>DecodeJSON\<close> fails; the router that finds the route of a request is a parameter of \<open>ServeHTTP\<close>.
\<close>

section \<open>Interfaces\<close>

record 'w Application =
  ap_Login :: "request_ctx \<Rightarrow> string \<Rightarrow> string \<Rightarrow> ('w, TokenPair) call"
  ap_Refresh :: "request_ctx \<Rightarrow> string \<Rightarrow> ('w, TokenPair) call"
  ap_Logout :: "request_ctx \<Rightarrow> string \<Rightarrow> ('w, unit) call"
  ap_CurrentUser :: "request_ctx \<Rightarrow> string \<Rightarrow> ('w, AuthenticatedUser) call"
  ap_Preferences :: "request_ctx \<Rightarrow> string \<Rightarrow> ('w, Preferences) call"
  ap_PutPreferences :: "request_ctx \<Rightarrow> string \<Rightarrow> Preferences \<Rightarrow> ('w, unit) call"
  ap_Users :: "request_ctx \<Rightarrow> UserQuery \<Rightarrow> ('w, User page) call"
  ap_CreateUser :: "request_ctx \<Rightarrow> CreateUserInput \<Rightarrow> ('w, User) call"
  ap_UpdateUser :: "request_ctx \<Rightarrow> string \<Rightarrow> UpdateUserInput \<Rightarrow> ('w, User) call"
  ap_ResetUserPassword :: "request_ctx \<Rightarrow> string \<Rightarrow> string \<Rightarrow> ('w, unit) call"
  ap_SetUserActive :: "request_ctx \<Rightarrow> string \<Rightarrow> bool \<Rightarrow> ('w, unit) call"
  ap_ReplaceUserRoles :: "request_ctx \<Rightarrow> string \<Rightarrow> string list \<Rightarrow> ('w, unit) call"
  ap_Roles :: "request_ctx \<Rightarrow> ('w, Role list) call"
  ap_Role :: "request_ctx \<Rightarrow> string \<Rightarrow> ('w, RoleDetail) call"
  ap_CreateRole :: "request_ctx \<Rightarrow> RoleInput \<Rightarrow> ('w, Role) call"
  ap_UpdateRole :: "request_ctx \<Rightarrow> string \<Rightarrow> RoleInput \<Rightarrow> ('w, Role) call"
  ap_DeleteRole :: "request_ctx \<Rightarrow> string \<Rightarrow> ('w, unit) call"
  ap_ReplaceRolePermissions :: "request_ctx \<Rightarrow> string \<Rightarrow> string list \<Rightarrow> ('w, unit) call"
  ap_Permissions :: "request_ctx \<Rightarrow> ('w, Permission list) call"
  ap_AssignRole :: "request_ctx \<Rightarrow> string \<Rightarrow> string \<Rightarrow> ('w, unit) call"
  ap_GrantPermission :: "request_ctx \<Rightarrow> string \<Rightarrow> string \<Rightarrow> ('w, unit) call"
  ap_Authorize :: "request_ctx \<Rightarrow> string \<Rightarrow> string \<Rightarrow> ('w, unit) call"

record 'w AuthenticationApplication =
  aa_Login :: "request_ctx \<Rightarrow> LoginInput \<Rightarrow> ('w, LoginResult) call"
  aa_VerifyLogin :: "request_ctx \<Rightarrow> VerifyInput \<Rightarrow> ('w, TokenPair) call"
  aa_RequestEmailCode :: "request_ctx \<Rightarrow> string \<Rightarrow> string \<Rightarrow> string \<Rightarrow> ('w, unit) call"
  aa_RequestEmailVerification :: "request_ctx \<Rightarrow> string \<Rightarrow> string \<Rightarrow> ('w, unit) call"
  aa_VerifyEmail :: "request_ctx \<Rightarrow> string \<Rightarrow> string \<Rightarrow> ('w, User) call"
  aa_Register :: "request_ctx \<Rightarrow> RegisterInput \<Rightarrow> ('w, User) call"
  aa_Settings :: "request_ctx \<Rightarrow> ('w, AuthenticationSettings) call"
  aa_PutSettings :: "request_ctx \<Rightarrow> AuthenticationSettings \<Rightarrow> ('w, unit) call"
  aa_Security :: "request_ctx \<Rightarrow> string \<Rightarrow> ('w, SecuritySettings) call"
  aa_PutSecurity :: "request_ctx \<Rightarrow> string \<Rightarrow> string \<Rightarrow> ('w, SecuritySettings) call"
  aa_Enroll :: "request_ctx \<Rightarrow> string \<Rightarrow> SecurityProof \<Rightarrow> ('w, Enrollment) call"
  aa_Confirm :: "request_ctx \<Rightarrow> string \<Rightarrow> string \<Rightarrow> ('w, string list) call"
  aa_Disable :: "request_ctx \<Rightarrow> string \<Rightarrow> SecurityProof \<Rightarrow> ('w, unit) call"

text \<open>The inputs that are structures of the handlers themselves.\<close>

record SettingsBody =
  sb_Password :: "bool option"
  sb_Registration :: "bool option"
  sb_Verification :: "bool option"
  sb_Domains :: "string list option"

record 'b decoders =
  dc_Login :: "'b \<Rightarrow> LoginInput option"
  dc_RefreshToken :: "'b \<Rightarrow> string option"
  dc_Preferences :: "'b \<Rightarrow> Preferences option"
  dc_CreateUser :: "'b \<Rightarrow> CreateUserInput option"
  dc_UpdateUser :: "'b \<Rightarrow> UpdateUserInput option"
  dc_NewPassword :: "'b \<Rightarrow> string option"
  dc_Active :: "'b \<Rightarrow> bool option option"
  dc_Role :: "'b \<Rightarrow> RoleInput option"
  dc_RoleIDs :: "'b \<Rightarrow> string list option option"
  dc_PermissionIDs :: "'b \<Rightarrow> string list option option"
  dc_EmailCode :: "'b \<Rightarrow> (string \<times> string) option"
  dc_Register :: "'b \<Rightarrow> RegisterInput option"
  dc_Verify :: "'b \<Rightarrow> VerifyInput option"
  dc_Settings :: "'b \<Rightarrow> SettingsBody option"
  dc_Mode :: "'b \<Rightarrow> string option"
  dc_Proof :: "'b \<Rightarrow> SecurityProof option"
  dc_Code :: "'b \<Rightarrow> string option"
  dc_VerifyEmail :: "'b \<Rightarrow> string option"

record 'w HTTPConfig =
  hc_Authentication :: "'w AuthenticationApplication option"
  hc_SecureCookies :: bool
  hc_RefreshTTL :: int

text \<open>The values of a route's parameters.\<close>

type_synonym ('b, 'w) handler = "'b request \<Rightarrow> request_ctx \<Rightarrow> (string \<Rightarrow> string) \<Rightarrow> 'w \<Rightarrow> response \<times> 'w"

section \<open>Bodies\<close>

definition role_json :: "'a Role_scheme \<Rightarrow> (string \<times> json) list" where
  "role_json r = [(''id'', JStr (role_ID r)), (''name'', JStr (role_Name r)), (''description'', JStr (role_Description r)),
     (''is_system'', JBool (role_IsSystem r))]"

definition permission_json :: "Permission \<Rightarrow> json" where
  "permission_json p = JObj [(''id'', JStr (perm_ID p)), (''name'', JStr (perm_Name p)), (''description'', JStr (perm_Description p))]"

definition role_detail_json :: "RoleDetail \<Rightarrow> json" where
  "role_detail_json r = JObj (role_json r @ [(''permissions'', JArr (map permission_json (role_Permissions r)))])"

definition user_fields :: "'a User_scheme \<Rightarrow> (string \<times> json) list" where
  "user_fields u = [(''email_verified_at'', opt_json JTime (user_EmailVerifiedAt u)), (''id'', JStr (user_ID u)),
     (''email'', JStr (user_Email u)), (''username'', JStr (user_Username u)), (''display_name'', JStr (user_DisplayName u)),
     (''is_active'', JBool (user_Active u)), (''created_at'', JTime (user_CreatedAt u)), (''updated_at'', JTime (user_UpdatedAt u))] @
     (if user_Roles u = [] then [] else [(''roles'', JArr (map (\<lambda>r. JObj (role_json r)) (user_Roles u)))])"

definition user_json :: "User \<Rightarrow> json" where
  "user_json u = JObj (user_fields u)"

definition authenticated_json :: "AuthenticatedUser \<Rightarrow> json" where
  "authenticated_json u = JObj (user_fields u @ [(''permissions'', JArr (map JStr (user_Permissions u)))])"

definition preferences_json :: "Preferences \<Rightarrow> json" where
  "preferences_json p = JObj [(''theme'', JStr (pr_Theme p)), (''color_mode'', JStr (pr_ColorMode p)),
     (''accent_color'', opt_json JStr (pr_AccentColor p)), (''font_scale'', JStr (pr_FontScale p)), (''radius_scale'', JStr (pr_RadiusScale p))]"

definition page_json :: "('a \<Rightarrow> json) \<Rightarrow> 'a page \<Rightarrow> json" where
  "page_json f p = JObj [(''items'', JArr (map f (Items p))), (''meta'', let m = Meta p in
     JObj [(''page'', JInt (Page m)), (''size'', JInt (Size m)), (''total'', JInt (Total m)), (''pages'', JInt (Pages m)),
       (''has_next'', JBool (HasNext m)), (''has_prev'', JBool (HasPrev m))])]"

definition pair_json :: "TokenPair \<Rightarrow> json" where
  "pair_json p = JObj [(''access_token'', JStr (tp_AccessToken p)), (''token_type'', JStr (tp_TokenType p)), (''expires_in'', JInt (tp_ExpiresIn p))]"

definition settings_json :: "AuthenticationSettings \<Rightarrow> json" where
  "settings_json v = JObj [(''password_login_enabled'', JBool (se_PasswordLoginEnabled v)), (''registration_enabled'', JBool (se_RegistrationEnabled v)),
     (''registration_email_verification_required'', JBool (se_RegistrationEmailVerificationRequired v)),
     (''allowed_email_domains'', JArr (map JStr (se_AllowedEmailDomains v)))]"

definition security_json :: "SecuritySettings \<Rightarrow> json" where
  "security_json v = JObj [(''recovery_codes_expires_at'', opt_json JTime (ss_RecoveryCodesExpiresAt v)), (''mode'', JStr (ss_Mode v)),
     (''totp_enabled'', JBool (ss_TOTPEnabled v)), (''recovery_codes_remaining'', JInt (ss_RecoveryCodesRemaining v))]"

definition enrollment_json :: "Enrollment \<Rightarrow> json" where
  "enrollment_json v = JObj [(''secret'', JStr (en_Secret v)), (''otpauth_uri'', JStr (en_OTPAuthURI v)), (''expires_in'', JInt (en_ExpiresIn v))]"

section \<open>Errors\<close>

text \<open>The texts of the errors whose text is shown.\<close>

definition error_text :: "iam_error \<Rightarrow> string" where
  "error_text e = (case e of
      ErrInactiveUser \<Rightarrow> ''user is inactive''
    | ErrPermissionDenied \<Rightarrow> ''permission denied''
    | ErrInvalidUserInput \<Rightarrow> ''invalid user input''
    | ErrCannotDeactivateSelf \<Rightarrow> ''cannot deactivate the current user''
    | ErrLastActiveAdministrator \<Rightarrow> ''cannot remove the last active administrator''
    | ErrSystemRoleProtected \<Rightarrow> ''system role is protected''
    | ErrSecurityConflict \<Rightarrow> ''security settings changed; retry''
    | _ \<Rightarrow> [])"

definition writeIAMError :: "iam_error \<Rightarrow> response" where
  "writeIAMError e = (case e of
      FieldValidationError fs \<Rightarrow> WriteError (Validation fs)
    | RateLimitError retry \<Rightarrow> set_header ''Retry-After'' (FormatInt retry) (WriteError (app_New 429 ''too many requests'' 429))
    | ErrEmailNotVerified \<Rightarrow> WriteError (app_New 403 ''email not verified'' 403)
    | ErrAuthenticationUnavailable \<Rightarrow> WriteError (ServiceUnavailable ''authentication service unavailable'')
    | ErrDuplicateIdentity \<Rightarrow> WriteError (Conflict ''identity conflict'')
    | ErrEmailCodeRequired \<Rightarrow> WriteError (Validation [(''email_code'', ''required'')])
    | ErrInvalidCode \<Rightarrow> WriteError (app_New 401 ''invalid credentials'' 401)
    | ErrInvalidCredentials \<Rightarrow> WriteError (app_New 401 ''invalid credentials'' 401)
    | ErrInvalidRefresh \<Rightarrow> WriteError (app_New 401 ''invalid credentials'' 401)
    | ErrAuthenticationForbidden \<Rightarrow> WriteError (app_New 403 ''operation not permitted'' 403)
    | ErrInactiveUser \<Rightarrow> WriteError (app_New 403 (error_text e) 403)
    | ErrPermissionDenied \<Rightarrow> WriteError (app_New 403 (error_text e) 403)
    | ErrSecurityConflict \<Rightarrow> WriteError (app_New 409 (error_text e) 409)
    | ErrCannotDeactivateSelf \<Rightarrow> WriteError (app_New 409 (error_text e) 409)
    | ErrLastActiveAdministrator \<Rightarrow> WriteError (app_New 409 (error_text e) 409)
    | ErrSystemRoleProtected \<Rightarrow> WriteError (app_New 409 (error_text e) 409)
    | ErrInvalidUserInput \<Rightarrow> WriteError (Validation [(''user'', error_text e)])
    | ErrNotFound \<Rightarrow> WriteError (NotFound ''resource'')
    | _ \<Rightarrow> WriteError From_other)"

definition writeSecurityProofError :: "iam_error \<Rightarrow> response" where
  "writeSecurityProofError e =
     (if e = ErrInvalidCode \<or> e = ErrInvalidCredentials then WriteError (Validation [(''proof'', ''invalid or expired credential'')])
      else writeIAMError e)"

section \<open>Handlers\<close>

definition setNoStore :: "response \<Rightarrow> response" where
  "setNoStore r = set_header ''Pragma'' ''no-cache'' (set_header ''Cache-Control'' ''no-store'' r)"

definition setAccessCookie :: "'w HTTPConfig \<Rightarrow> string \<Rightarrow> int \<Rightarrow> cookie" where
  "setAccessCookie cfg v expiresIn = \<lparr>ck_Name = ''access_token'', ck_Value = v, ck_Path = ''/api/v1'', ck_HttpOnly = True,
     ck_Secure = hc_SecureCookies cfg, ck_SameSite = ''Strict'', ck_MaxAge = expiresIn\<rparr>"

definition setRefreshCookie :: "'w HTTPConfig \<Rightarrow> string \<Rightarrow> cookie" where
  "setRefreshCookie cfg v = \<lparr>ck_Name = ''refresh_token'', ck_Value = v, ck_Path = ''/api/v1/auth'', ck_HttpOnly = True,
     ck_Secure = hc_SecureCookies cfg, ck_SameSite = ''Strict'', ck_MaxAge = go_div (hc_RefreshTTL cfg) 1000000000\<rparr>"

definition clearAuthCookies :: "'w HTTPConfig \<Rightarrow> cookie list" where
  "clearAuthCookies cfg = [(setAccessCookie cfg [] (- 1)), (setRefreshCookie cfg [])\<lparr>ck_MaxAge := - 1\<rparr>]"

definition writeTokenPair :: "'w HTTPConfig \<Rightarrow> TokenPair \<Rightarrow> response" where
  "writeTokenPair cfg p =
     (setNoStore (Write 200 (pair_json p)))\<lparr>hs_Cookies := [setAccessCookie cfg (tp_AccessToken p) (tp_ExpiresIn p), setRefreshCookie cfg (tp_RefreshToken p)]\<rparr>"

text \<open>The body of a request, or the answer to a body that cannot be decoded.\<close>

definition decoded :: "('b \<Rightarrow> 'i option) \<Rightarrow> 'b request \<Rightarrow> ('i \<Rightarrow> 'w \<Rightarrow> response \<times> 'w) \<Rightarrow> 'w \<Rightarrow> response \<times> 'w" where
  "decoded dec r k = (case dec (hr_Body r) of
      None \<Rightarrow> (\<lambda>w. (WriteError (Validation [(''body'', ''invalid JSON body'')]), w))
    | Some i \<Rightarrow> k i)"

definition answer :: "(iam_error \<Rightarrow> response) \<Rightarrow> ('a \<Rightarrow> response) \<Rightarrow> ('w, 'a) call \<Rightarrow> 'w \<Rightarrow> response \<times> 'w" where
  "answer bad ok m w = (case m w of (Inl e, w') \<Rightarrow> (bad e, w') | (Inr x, w') \<Rightarrow> (ok x, w'))"

definition flag :: "string \<Rightarrow> unit \<Rightarrow> response" where
  "flag name x = Write 200 (JObj [(name, JBool True)])"

definition no_store :: "('w \<Rightarrow> response \<times> 'w) \<Rightarrow> 'w \<Rightarrow> response \<times> 'w" where
  "no_store m w = (case m w of (r, w') \<Rightarrow> (setNoStore r, w'))"

definition login_handler :: "'b decoders \<Rightarrow> 'w Application \<Rightarrow> 'w HTTPConfig \<Rightarrow> ('b, 'w) handler" where
  "login_handler D app cfg r ctx p = no_store (decoded (dc_Login D) r (\<lambda>i.
     case hc_Authentication cfg of
       Some a \<Rightarrow> answer writeIAMError (\<lambda>result.
           if lr_Status result = ''totp_required''
           then Write 202 (JObj [(''status'', JStr (lr_Status result)), (''challenge_id'', JStr (lr_ChallengeID result)), (''expires_in'', JInt (lr_ChallengeExpiresIn result))])
           else writeTokenPair cfg (lr_TokenPair result)) (aa_Login a ctx i)
     | None \<Rightarrow> answer writeIAMError (writeTokenPair cfg) (ap_Login app ctx (li_Email i) (li_Password i))))"

definition refreshToken :: "'b decoders \<Rightarrow> 'b request \<Rightarrow> iam_error + string" where
  "refreshToken D r =
     (case hr_Cookie r ''refresh_token'' of
        Some (c # cs) \<Rightarrow> Inr (c # cs)
      | _ \<Rightarrow> (case dc_RefreshToken D (hr_Body r) of Some (c # cs) \<Rightarrow> Inr (c # cs) | _ \<Rightarrow> Inl ErrInvalidRefresh))"

definition refresh_handler :: "'b decoders \<Rightarrow> 'w Application \<Rightarrow> 'w HTTPConfig \<Rightarrow> ('b, 'w) handler" where
  "refresh_handler D app cfg r ctx p = (case refreshToken D r of
      Inl e \<Rightarrow> (\<lambda>w. (writeIAMError e, w))
    | Inr raw \<Rightarrow> answer writeIAMError (writeTokenPair cfg) (ap_Refresh app ctx raw))"

definition logout_handler :: "'b decoders \<Rightarrow> 'w Application \<Rightarrow> 'w HTTPConfig \<Rightarrow> ('b, 'w) handler" where
  "logout_handler D app cfg r ctx p =
     answer writeIAMError (\<lambda>_. (setNoStore (flag ''logged_out'' ()))\<lparr>hs_Cookies := clearAuthCookies cfg\<rparr>)
       (ap_Logout app ctx (case refreshToken D r of Inl _ \<Rightarrow> [] | Inr raw \<Rightarrow> raw))"

definition me_handler :: "'w Application \<Rightarrow> ('b, 'w) handler" where
  "me_handler app r ctx p = answer writeIAMError (\<lambda>u. Write 200 (authenticated_json u)) (ap_CurrentUser app ctx (rq_Subject ctx))"

definition preferences_handler :: "'w Application \<Rightarrow> ('b, 'w) handler" where
  "preferences_handler app r ctx p = answer writeIAMError (\<lambda>v. Write 200 (preferences_json v)) (ap_Preferences app ctx (rq_Subject ctx))"

definition putPreferences :: "'b decoders \<Rightarrow> 'w Application \<Rightarrow> ('b, 'w) handler" where
  "putPreferences D app r ctx p = decoded (dc_Preferences D) r (\<lambda>v.
     answer writeIAMError (\<lambda>_. Write 200 (preferences_json v)) (ap_PutPreferences app ctx (rq_Subject ctx) v))"

definition users_handler :: "'w Application \<Rightarrow> ('b, 'w) handler" where
  "users_handler app r ctx p =
     (let q = hr_Query r ''is_active''; active = ParseBool q in
      if q \<noteq> [] \<and> active = None then (\<lambda>w. (WriteError (Validation [(''is_active'', ''must be true or false'')]), w))
      else answer writeIAMError (\<lambda>v. Write 200 (page_json user_json v))
        (ap_Users app ctx \<lparr>uq_Filter = \<lparr>uf_Query = TrimSpace (hr_Query r ''query''), uf_Active = (if q = [] then None else active)\<rparr>,
           uq_Page = queryInt r ''page'' 1, uq_Size = queryInt r ''size'' DefaultSize\<rparr>))"

definition createUser :: "'b decoders \<Rightarrow> 'w Application \<Rightarrow> ('b, 'w) handler" where
  "createUser D app r ctx p = decoded (dc_CreateUser D) r (\<lambda>i.
     answer writeIAMError (\<lambda>u. Write 201 (user_json u)) (ap_CreateUser app ctx i))"

definition updateUser :: "'b decoders \<Rightarrow> 'w Application \<Rightarrow> ('b, 'w) handler" where
  "updateUser D app r ctx p = decoded (dc_UpdateUser D) r (\<lambda>i.
     answer writeIAMError (\<lambda>u. Write 200 (user_json u)) (ap_UpdateUser app ctx (p ''userID'') i))"

definition resetUserPassword :: "'b decoders \<Rightarrow> 'w Application \<Rightarrow> ('b, 'w) handler" where
  "resetUserPassword D app r ctx p = decoded (dc_NewPassword D) r (\<lambda>i.
     answer writeIAMError (flag ''reset'') (ap_ResetUserPassword app ctx (p ''userID'') i))"

definition setUserActive :: "'b decoders \<Rightarrow> 'w Application \<Rightarrow> ('b, 'w) handler" where
  "setUserActive D app r ctx p = decoded (dc_Active D) r (\<lambda>i. case i of
      None \<Rightarrow> (\<lambda>w. (WriteError (Validation [(''is_active'', ''is required'')]), w))
    | Some active \<Rightarrow> answer writeIAMError (\<lambda>_. Write 200 (JObj [(''is_active'', JBool active)])) (ap_SetUserActive app ctx (p ''userID'') active))"

definition roles_handler :: "'w Application \<Rightarrow> ('b, 'w) handler" where
  "roles_handler app r ctx p = answer writeIAMError (\<lambda>v. Write 200 (JArr (map (\<lambda>x. JObj (role_json x)) v))) (ap_Roles app ctx)"

definition role_handler :: "'w Application \<Rightarrow> ('b, 'w) handler" where
  "role_handler app r ctx p = answer writeIAMError (\<lambda>v. Write 200 (role_detail_json v)) (ap_Role app ctx (p ''roleID''))"

definition createRole :: "'b decoders \<Rightarrow> 'w Application \<Rightarrow> ('b, 'w) handler" where
  "createRole D app r ctx p = decoded (dc_Role D) r (\<lambda>i.
     answer writeIAMError (\<lambda>v. Write 201 (JObj (role_json v))) (ap_CreateRole app ctx i))"

definition updateRole :: "'b decoders \<Rightarrow> 'w Application \<Rightarrow> ('b, 'w) handler" where
  "updateRole D app r ctx p = decoded (dc_Role D) r (\<lambda>i.
     answer writeIAMError (\<lambda>v. Write 200 (JObj (role_json v))) (ap_UpdateRole app ctx (p ''roleID'') i))"

definition deleteRole :: "'w Application \<Rightarrow> ('b, 'w) handler" where
  "deleteRole app r ctx p = answer writeIAMError (flag ''deleted'') (ap_DeleteRole app ctx (p ''roleID''))"

definition permissions_handler :: "'w Application \<Rightarrow> ('b, 'w) handler" where
  "permissions_handler app r ctx p = answer writeIAMError (\<lambda>v. Write 200 (JArr (map permission_json v))) (ap_Permissions app ctx)"

definition assignRole :: "'w Application \<Rightarrow> ('b, 'w) handler" where
  "assignRole app r ctx p = answer writeIAMError (flag ''assigned'') (ap_AssignRole app ctx (p ''userID'') (p ''roleID''))"

definition replaceUserRoles :: "'b decoders \<Rightarrow> 'w Application \<Rightarrow> ('b, 'w) handler" where
  "replaceUserRoles D app r ctx p = decoded (dc_RoleIDs D) r (\<lambda>i. case i of
      None \<Rightarrow> (\<lambda>w. (WriteError (Validation [(''role_ids'', ''is required'')]), w))
    | Some ids \<Rightarrow> answer writeIAMError (flag ''replaced'') (ap_ReplaceUserRoles app ctx (p ''userID'') ids))"

definition grantPermission :: "'w Application \<Rightarrow> ('b, 'w) handler" where
  "grantPermission app r ctx p = answer writeIAMError (flag ''granted'') (ap_GrantPermission app ctx (p ''roleID'') (p ''permissionID''))"

definition replaceRolePermissions :: "'b decoders \<Rightarrow> 'w Application \<Rightarrow> ('b, 'w) handler" where
  "replaceRolePermissions D app r ctx p = decoded (dc_PermissionIDs D) r (\<lambda>i. case i of
      None \<Rightarrow> (\<lambda>w. (WriteError (Validation [(''permission_ids'', ''is required'')]), w))
    | Some ids \<Rightarrow> answer writeIAMError (flag ''replaced'') (ap_ReplaceRolePermissions app ctx (p ''roleID'') ids))"

section \<open>Handlers of authentication\<close>

definition client_ip :: "'b request \<Rightarrow> request_ctx \<Rightarrow> string" where
  "client_ip r ctx = (case rq_IPAddress ctx of
      Some address \<Rightarrow> address
    | None \<Rightarrow> (case SplitHost (hr_RemoteAddr r) of None \<Rightarrow> [] | Some ip \<Rightarrow> ip))"

definition code_sent :: "unit \<Rightarrow> response" where
  "code_sent x = Write 202 (JObj [(''sent'', JBool True), (''resend_after_seconds'', JInt 60)])"

definition emailCode :: "'b decoders \<Rightarrow> 'w AuthenticationApplication \<Rightarrow> ('b, 'w) handler" where
  "emailCode D a r ctx p = no_store (decoded (dc_EmailCode D) r (\<lambda>(email, purpose).
     answer writeIAMError code_sent (aa_RequestEmailCode a ctx email purpose (client_ip r ctx))))"

definition register :: "'b decoders \<Rightarrow> 'w AuthenticationApplication \<Rightarrow> ('b, 'w) handler" where
  "register D a r ctx p = no_store (decoded (dc_Register D) r (\<lambda>i.
     answer writeIAMError (\<lambda>u. Write 201 (user_json u)) (aa_Register a ctx i)))"

definition verifyLogin :: "'b decoders \<Rightarrow> 'w AuthenticationApplication \<Rightarrow> 'w HTTPConfig \<Rightarrow> ('b, 'w) handler" where
  "verifyLogin D a cfg r ctx p = no_store (decoded (dc_Verify D) r (\<lambda>i.
     answer writeIAMError (writeTokenPair cfg) (aa_VerifyLogin a ctx i)))"

definition settings :: "'w AuthenticationApplication \<Rightarrow> ('b, 'w) handler" where
  "settings a r ctx p = no_store (answer writeIAMError (\<lambda>v. Write 200 (settings_json v)) (aa_Settings a ctx))"

definition putSettings :: "'b decoders \<Rightarrow> 'w AuthenticationApplication \<Rightarrow> ('b, 'w) handler" where
  "putSettings D a r ctx p = no_store (decoded (dc_Settings D) r (\<lambda>i.
     case (sb_Password i, sb_Registration i, sb_Verification i, sb_Domains i) of
       (Some pw, Some reg, Some ver, Some ds) \<Rightarrow>
         (let v = \<lparr>se_PasswordLoginEnabled = pw, se_RegistrationEnabled = reg, se_RegistrationEmailVerificationRequired = ver, se_AllowedEmailDomains = ds\<rparr>
          in answer writeIAMError (\<lambda>_. Write 200 (settings_json v)) (aa_PutSettings a ctx v))
     | _ \<Rightarrow> (\<lambda>w. (writeIAMError ErrInvalidUserInput, w))))"

definition security :: "'w AuthenticationApplication \<Rightarrow> ('b, 'w) handler" where
  "security a r ctx p = no_store (answer writeIAMError (\<lambda>v. Write 200 (security_json v)) (aa_Security a ctx (rq_Subject ctx)))"

definition putSecurity :: "'b decoders \<Rightarrow> 'w AuthenticationApplication \<Rightarrow> ('b, 'w) handler" where
  "putSecurity D a r ctx p = no_store (decoded (dc_Mode D) r (\<lambda>mode.
     answer writeIAMError (\<lambda>v. Write 200 (security_json v)) (aa_PutSecurity a ctx (rq_Subject ctx) mode)))"

definition enroll :: "'b decoders \<Rightarrow> 'w AuthenticationApplication \<Rightarrow> ('b, 'w) handler" where
  "enroll D a r ctx p = no_store (decoded (dc_Proof D) r (\<lambda>i.
     answer writeSecurityProofError (\<lambda>v. Write 200 (enrollment_json v)) (aa_Enroll a ctx (rq_Subject ctx) i)))"

definition confirm :: "'b decoders \<Rightarrow> 'w AuthenticationApplication \<Rightarrow> ('b, 'w) handler" where
  "confirm D a r ctx p = no_store (decoded (dc_Code D) r (\<lambda>code.
     answer writeSecurityProofError (\<lambda>v. Write 200 (JObj [(''recovery_codes'', JArr (map JStr v))])) (aa_Confirm a ctx (rq_Subject ctx) code)))"

definition disable :: "'b decoders \<Rightarrow> 'w AuthenticationApplication \<Rightarrow> ('b, 'w) handler" where
  "disable D a r ctx p = no_store (decoded (dc_Proof D) r (\<lambda>i.
     answer writeSecurityProofError (flag ''disabled'') (aa_Disable a ctx (rq_Subject ctx) i)))"

definition requestEmailVerification :: "'w AuthenticationApplication \<Rightarrow> ('b, 'w) handler" where
  "requestEmailVerification a r ctx p =
     no_store (answer writeIAMError code_sent (aa_RequestEmailVerification a ctx (rq_Subject ctx) (client_ip r ctx)))"

definition verifyEmail :: "'b decoders \<Rightarrow> 'w AuthenticationApplication \<Rightarrow> ('b, 'w) handler" where
  "verifyEmail D a r ctx p = no_store (decoded (dc_VerifyEmail D) r (\<lambda>code.
     answer (\<lambda>e. if e = ErrInvalidCode then WriteError (Validation [(''email_code'', ''invalid or expired credential'')]) else writeIAMError e)
       (\<lambda>u. Write 200 (user_json u)) (aa_VerifyEmail a ctx (rq_Subject ctx) code)))"

section \<open>Authentication and permissions\<close>

definition ExtractAccessToken :: "'b request \<Rightarrow> iam_error + string" where
  "ExtractAccessToken r =
     (let v = hr_Header r ''Authorization'' in
      if v \<noteq> [] then
        (case Fields v of
           [scheme, token] \<Rightarrow> if EqualFold_ascii scheme ''Bearer'' \<and> token \<noteq> [] then Inr token else Inl ErrInvalidCredentials
         | _ \<Rightarrow> Inl ErrInvalidCredentials)
      else case hr_Cookie r ''access_token'' of
        Some (c # cs) \<Rightarrow> Inr (c # cs)
      | _ \<Rightarrow> Inl ErrInvalidCredentials)"

text \<open>\<open>jwt.Parse\<close> at the time of the request; reading the clock leaves the world as it is.\<close>

type_synonym 'w token_parser = "'w \<Rightarrow> string \<Rightarrow> iam_error + AccessClaims"

definition parse_token :: "mac \<Rightarrow> token_codec \<Rightarrow> JWTManager \<Rightarrow> ('w \<Rightarrow> int) \<Rightarrow> 'w token_parser" where
  "parse_token hmac codec m now w raw = JWTManager_Parse hmac codec m (now w) raw"

definition Authenticate :: "'w token_parser \<Rightarrow> ('b, 'w) handler \<Rightarrow> ('b, 'w) handler" where
  "Authenticate parse next r ctx p w = (case ExtractAccessToken r of
      Inl _ \<Rightarrow> (writeIAMError ErrInvalidCredentials, w)
    | Inr raw \<Rightarrow> (case parse w raw of
        Inl _ \<Rightarrow> (writeIAMError ErrInvalidCredentials, w)
      | Inr claims \<Rightarrow> next r (ctx\<lparr>rq_Subject := ac_Subject claims\<rparr>) p w))"

definition RequirePermission :: "'w Application \<Rightarrow> string \<Rightarrow> ('b, 'w) handler \<Rightarrow> ('b, 'w) handler" where
  "RequirePermission app permission next r ctx p w =
     (if rq_Subject ctx = [] then (writeIAMError ErrInvalidCredentials, w)
      else case ap_Authorize app ctx (rq_Subject ctx) permission w of
        (Inl e, w') \<Rightarrow> (writeIAMError e, w')
      | (Inr _, w') \<Rightarrow> next r ctx p w')"

section \<open>Routes\<close>

text \<open>Which middleware stands before a handler.\<close>

datatype guard = Public | Authenticated | Permitted string

record ('b, 'w) route =
  rt_Method :: string
  rt_Pattern :: string
  rt_Guard :: guard
  rt_Handler :: "('b, 'w) handler"

definition authentication_routes :: "'b decoders \<Rightarrow> 'w HTTPConfig \<Rightarrow> 'w AuthenticationApplication \<Rightarrow> ('b, 'w) route list" where
  "authentication_routes D cfg a = map (\<lambda>(m, q, g, h). \<lparr>rt_Method = m, rt_Pattern = q, rt_Guard = g, rt_Handler = h\<rparr>)
    [(''POST'', ''/api/v1/users/me/email/verification-code'', Authenticated, requestEmailVerification a),
     (''POST'', ''/api/v1/users/me/email/verify'', Authenticated, verifyEmail D a),
     (''GET'', ''/api/v1/users/me/security'', Authenticated, security a),
     (''PUT'', ''/api/v1/users/me/security'', Authenticated, putSecurity D a),
     (''POST'', ''/api/v1/users/me/security/totp/enroll'', Authenticated, enroll D a),
     (''POST'', ''/api/v1/users/me/security/totp/confirm'', Authenticated, confirm D a),
     (''POST'', ''/api/v1/users/me/security/totp/disable'', Authenticated, disable D a),
     (''GET'', ''/api/v1/system-settings/basic-auth'', Permitted ''system-settings:read'', settings a),
     (''PUT'', ''/api/v1/system-settings/basic-auth'', Permitted ''system-settings:write'', putSettings D a)]"

definition public_routes :: "'b decoders \<Rightarrow> 'w Application \<Rightarrow> 'w HTTPConfig \<Rightarrow> ('b, 'w) route list" where
  "public_routes D app cfg = map (\<lambda>(m, q, h). \<lparr>rt_Method = m, rt_Pattern = q, rt_Guard = Public, rt_Handler = h\<rparr>)
    ([(''POST'', ''/api/v1/auth/login'', login_handler D app cfg)] @
     (case hc_Authentication cfg of None \<Rightarrow> [] | Some a \<Rightarrow>
       [(''POST'', ''/api/v1/auth/email-code'', emailCode D a),
        (''POST'', ''/api/v1/auth/register'', register D a),
        (''POST'', ''/api/v1/auth/login/totp/verify'', verifyLogin D a cfg)]) @
     [(''POST'', ''/api/v1/auth/refresh'', refresh_handler D app cfg),
      (''POST'', ''/api/v1/auth/logout'', logout_handler D app cfg)])"

definition management_routes :: "'b decoders \<Rightarrow> 'w Application \<Rightarrow> ('b, 'w) route list" where
  "management_routes D app = map (\<lambda>(m, q, g, h). \<lparr>rt_Method = m, rt_Pattern = q, rt_Guard = g, rt_Handler = h\<rparr>)
    [(''GET'', ''/api/v1/users/me/preferences'', Authenticated, preferences_handler app),
     (''PUT'', ''/api/v1/users/me/preferences'', Authenticated, putPreferences D app),
     (''GET'', ''/api/v1/users'', Permitted ''users:read'', users_handler app),
     (''POST'', ''/api/v1/users'', Permitted ''users:write'', createUser D app),
     (''PATCH'', ''/api/v1/users/{userID}'', Permitted ''users:write'', updateUser D app),
     (''POST'', ''/api/v1/users/{userID}/password/reset'', Permitted ''users:write'', resetUserPassword D app),
     (''PATCH'', ''/api/v1/users/{userID}/active'', Permitted ''users:write'', setUserActive D app),
     (''GET'', ''/api/v1/roles'', Permitted ''roles:read'', roles_handler app),
     (''GET'', ''/api/v1/roles/{roleID}'', Permitted ''roles:read'', role_handler app),
     (''POST'', ''/api/v1/roles'', Permitted ''roles:write'', createRole D app),
     (''PATCH'', ''/api/v1/roles/{roleID}'', Permitted ''roles:write'', updateRole D app),
     (''DELETE'', ''/api/v1/roles/{roleID}'', Permitted ''roles:write'', deleteRole app),
     (''GET'', ''/api/v1/permissions'', Permitted ''roles:read'', permissions_handler app),
     (''POST'', ''/api/v1/users/{userID}/roles/{roleID}'', Permitted ''roles:write'', assignRole app),
     (''PUT'', ''/api/v1/users/{userID}/roles'', Permitted ''roles:write'', replaceUserRoles D app),
     (''POST'', ''/api/v1/roles/{roleID}/permissions/{permissionID}'', Permitted ''roles:write'', grantPermission app),
     (''PUT'', ''/api/v1/roles/{roleID}/permissions'', Permitted ''roles:write'', replaceRolePermissions D app)]"

text \<open>Without a token manager only the public routes exist.\<close>

definition RegisterRoutes :: "'b decoders \<Rightarrow> 'w Application \<Rightarrow> bool \<Rightarrow> 'w HTTPConfig \<Rightarrow> ('b, 'w) route list" where
  "RegisterRoutes D app has_jwt cfg = public_routes D app cfg @
     (if \<not> has_jwt then []
      else [\<lparr>rt_Method = ''GET'', rt_Pattern = ''/api/v1/users/me'', rt_Guard = Authenticated, rt_Handler = me_handler app\<rparr>] @
        (case hc_Authentication cfg of None \<Rightarrow> [] | Some a \<Rightarrow> authentication_routes D cfg a) @ management_routes D app)"

definition mounted :: "'w token_parser \<Rightarrow> 'w Application \<Rightarrow> ('b, 'w) route \<Rightarrow> ('b, 'w) handler" where
  "mounted parse app rt = (case rt_Guard rt of
      Public \<Rightarrow> rt_Handler rt
    | Authenticated \<Rightarrow> Authenticate parse (rt_Handler rt)
    | Permitted q \<Rightarrow> Authenticate parse (RequirePermission app q (rt_Handler rt)))"

text \<open>
  The router: it picks a registered method and pattern with the values of the pattern's parameters, or answers
  itself.
\<close>

datatype choice = Matched string string "string \<Rightarrow> string" | NoRoute | NoMethod

type_synonym 'b router = "(string \<times> string) list \<Rightarrow> 'b request \<Rightarrow> choice"

definition ServeHTTP :: "'b router \<Rightarrow> 'w token_parser \<Rightarrow> 'w Application \<Rightarrow> ('b, 'w) route list \<Rightarrow> 'b request \<Rightarrow> request_ctx \<Rightarrow> 'w \<Rightarrow> response \<times> 'w" where
  "ServeHTTP chi parse app rts r ctx w =
     (case chi (map (\<lambda>rt. (rt_Method rt, rt_Pattern rt)) rts) r of
        NoRoute \<Rightarrow> (WriteError (NotFound ''resource''), w)
      | NoMethod \<Rightarrow> (WriteError MethodNotAllowed, w)
      | Matched m q p \<Rightarrow> (case find (\<lambda>rt. rt_Method rt = m \<and> rt_Pattern rt = q) rts of
          None \<Rightarrow> (WriteError (NotFound ''resource''), w)
        | Some rt \<Rightarrow> mounted parse app rt r ctx p w))"

section \<open>The application behind the handlers\<close>

text \<open>The wrappers of \<open>Audited_Service\<close> as the two interfaces.\<close>

definition newAuditedIAM :: "'m BestEffortRecorder option \<Rightarrow> 'w Service \<Rightarrow> ('w \<times> audit_world) Application" where
  "newAuditedIAM rec s =
     \<lparr>ap_Login = (\<lambda>ctx. auditedIAM_Login rec ctx s), ap_Refresh = (\<lambda>ctx. auditedIAM_Refresh rec ctx s),
      ap_Logout = (\<lambda>ctx. auditedIAM_Logout rec ctx s), ap_CurrentUser = (\<lambda>ctx. auditedIAM_CurrentUser s),
      ap_Preferences = (\<lambda>ctx. auditedIAM_Preferences s), ap_PutPreferences = (\<lambda>ctx. auditedIAM_PutPreferences s),
      ap_Users = (\<lambda>ctx. auditedIAM_Users s), ap_CreateUser = (\<lambda>ctx. auditedIAM_CreateUser rec ctx s),
      ap_UpdateUser = (\<lambda>ctx. auditedIAM_UpdateUser rec ctx s), ap_ResetUserPassword = (\<lambda>ctx. auditedIAM_ResetUserPassword rec ctx s),
      ap_SetUserActive = (\<lambda>ctx. auditedIAM_SetUserActive rec ctx s), ap_ReplaceUserRoles = (\<lambda>ctx. auditedIAM_ReplaceUserRoles rec ctx s),
      ap_Roles = (\<lambda>ctx. auditedIAM_Roles s), ap_Role = (\<lambda>ctx. auditedIAM_Role s), ap_CreateRole = (\<lambda>ctx. auditedIAM_CreateRole rec ctx s),
      ap_UpdateRole = (\<lambda>ctx. auditedIAM_UpdateRole rec ctx s), ap_DeleteRole = (\<lambda>ctx. auditedIAM_DeleteRole rec ctx s),
      ap_ReplaceRolePermissions = (\<lambda>ctx. auditedIAM_ReplaceRolePermissions rec ctx s), ap_Permissions = (\<lambda>ctx. auditedIAM_Permissions s),
      ap_AssignRole = (\<lambda>ctx. auditedIAM_AssignRole rec ctx s), ap_GrantPermission = (\<lambda>ctx. auditedIAM_GrantPermission rec ctx s),
      ap_Authorize = (\<lambda>ctx. auditedIAM_Authorize rec ctx s)\<rparr>"

definition auditedAuthentication ::
    "'m BestEffortRecorder option \<Rightarrow> 'w Service \<Rightarrow> 'w AuthenticationService \<Rightarrow> ('w \<times> audit_world) AuthenticationApplication" where
  "auditedAuthentication rec s a =
     \<lparr>aa_Login = (\<lambda>ctx. auditedAuth_Login rec ctx s a), aa_VerifyLogin = (\<lambda>ctx. auditedAuth_VerifyLogin rec ctx s a),
      aa_RequestEmailCode = (\<lambda>ctx. auditedAuth_RequestEmailCode rec ctx s a),
      aa_RequestEmailVerification = (\<lambda>ctx i ip. unaudited (Auth_RequestEmailVerification s a i ip)),
      aa_VerifyEmail = (\<lambda>ctx i code. unaudited (Auth_VerifyEmail s a i code)), aa_Register = (\<lambda>ctx. auditedAuth_Register rec ctx s a),
      aa_Settings = (\<lambda>ctx. unaudited (Auth_Settings a)), aa_PutSettings = (\<lambda>ctx. auditedAuth_PutSettings rec ctx s a),
      aa_Security = (\<lambda>ctx i. unaudited (Auth_Security s a i)), aa_PutSecurity = (\<lambda>ctx. auditedAuth_PutSecurity rec ctx s a),
      aa_Enroll = (\<lambda>ctx. auditedAuth_Enroll rec ctx s a), aa_Confirm = (\<lambda>ctx. auditedAuth_Confirm rec ctx s a),
      aa_Disable = (\<lambda>ctx. auditedAuth_Disable rec ctx s a)\<rparr>"

end
