(* ===== verification/Service_Gates.thy ===== *)
theory Service_Gates
  imports Auth_Service
begin

text \<open>
  What stands before a session, for any implementation of the interfaces: which answers of the repositories, the
  code store and the hasher a login, the second step of a login and a refresh need before they return tokens, and
  that a refused password login looks the same whatever the reason.
\<close>

section \<open>Gates\<close>

lemma bindE_Inr_iff: "bindE m f w = (Inr y, w') \<longleftrightarrow> (\<exists>x w1. m w = (Inr x, w1) \<and> f x w1 = (Inr y, w'))"
  by (auto simp: bindE_def split: prod.splits sum.splits)

text \<open>The password check has passed for an active user.\<close>

definition password_ok :: "'w Service \<Rightarrow> string \<Rightarrow> string \<Rightarrow> 'w \<Rightarrow> User \<Rightarrow> 'w \<Rightarrow> bool" where
  "password_ok base email pw w user w' \<longleftrightarrow>
     ur_FindByEmail (sv_users base) (normal_input base email) w = (Inr user, w') \<and>
     pw_Verify (sv_passwords base) pw (user_PasswordHash user) = Inr True \<and> user_Active user"

lemma credentials_Inr: "credentials base email pw w = (Inr user, w') \<longleftrightarrow> password_ok base email pw w user w'"
proof -
  obtain r w1 where f: "ur_FindByEmail (sv_users base) (normal_input base email) w = (r, w1)" by force
  show ?thesis by (cases r) (auto simp: credentials_def bindE_Inr_iff f password_ok_def Let_def split: sum.splits if_splits)
qed

text \<open>
  The second factor of a password login, from the world after the password check to the one before the tokens are
  made: none, or a code sent to the verified address.
\<close>

definition factor_ok :: "'w AuthenticationService \<Rightarrow> User \<Rightarrow> string \<Rightarrow> 'w \<Rightarrow> 'w \<Rightarrow> bool" where
  "factor_ok s user code w w' \<longleftrightarrow> (\<exists>sec w1. ar_Security (as_repo s) (user_ID user) w = (Inr sec, w1) \<and> sec_Mode sec \<noteq> ''totp'' \<and>
     (if sec_Mode sec = ''email'' then user_EmailVerifiedAt user \<noteq> None \<and> emailCodePattern code \<and>
        vc_VerifyAndConsume (as_codes s) (user_Email user) ''login'' code w1 = (Inr (), w')
      else w' = w1))"

lemma email_factor_Inr:
  "email_factor s user code w = (Inr x, w') \<Longrightarrow>
     user_EmailVerifiedAt user \<noteq> None \<and> emailCodePattern code \<and> vc_VerifyAndConsume (as_codes s) (user_Email user) ''login'' code w = (Inr (), w')"
  by (auto simp: email_factor_def code_fields_def bindE_Inr_iff split: if_splits)

text \<open>Both tokens of a pair were made for one user, and nothing else happened.\<close>

definition issued_to :: "'w Service \<Rightarrow> string \<Rightarrow> TokenPair \<Rightarrow> 'w \<Rightarrow> 'w \<Rightarrow> bool" where
  "issued_to base uid pair w w' \<longleftrightarrow> (\<exists>w1. jwt_Issue (sv_jwt base) uid w = (Inr (tp_AccessToken pair), w1) \<and>
     rf_Issue (sv_refresh base) uid w1 = (Inr (tp_RefreshToken pair), w'))"

lemma issuePair_Inr: "issuePair base uid w = (Inr pair, w') \<Longrightarrow> issued_to base uid pair w w'"
  by (auto simp: issuePair_def issued_to_def bindE_Inr_iff tokenPair_def)

lemma totp_challenge_status: "totp_challenge base s user sec w = (Inr res, w') \<Longrightarrow> lr_Status res = ''totp_required''"
  by (auto simp: totp_challenge_def bindE_Inr_iff split: if_splits)

lemma bootstrap_login_Inr:
  assumes "bootstrap_login base s state user w = (Inr res, w')"
  shows "se_BootstrapAdminUserID state \<noteq> [] \<and> user_ID user = se_BootstrapAdminUserID state \<and>
    (\<exists>w1. issued_to base (user_ID user) (lr_TokenPair res) w w1 \<and> (\<exists>x. ar_Initialize (as_repo s) (user_ID user) w1 = (Inr x, w')))"
proof -
  from assms obtain pair w1 where boot: "se_BootstrapAdminUserID state \<noteq> []" "user_ID user = se_BootstrapAdminUserID state"
    and pair: "issuePair base (user_ID user) w = (Inr pair, w1)"
    and init: "bindE (tryE (ar_Initialize (as_repo s) (user_ID user))) (\<lambda>r. case r of
          Inl e \<Rightarrow> bindE (tryE (Service_Logout base (tp_RefreshToken pair))) (\<lambda>_. failE e)
        | Inr _ \<Rightarrow> retE (with_pair pair)) w1 = (Inr res, w')"
    by (auto simp: bootstrap_login_def bindE_Inr_iff split: if_splits)
  from init have "(\<exists>x. ar_Initialize (as_repo s) (user_ID user) w1 = (Inr x, w')) \<and> lr_TokenPair res = pair"
    by (cases "ar_Initialize (as_repo s) (user_ID user) w1"; cases "fst (ar_Initialize (as_repo s) (user_ID user) w1)")
      (auto simp: bindE_Inr_iff with_pair_def prod_eq_iff)
  with boot issuePair_Inr [OF pair] show ?thesis by blast
qed

text \<open>
  The proof of a second factor: either a one-time password or a recovery code, checked and then used up in the
  repository at the version it was checked against.
\<close>

definition proved :: "'w AuthenticationService \<Rightarrow> string \<Rightarrow> SecurityState \<Rightarrow> string \<Rightarrow> string \<Rightarrow> string \<Rightarrow> 'w \<Rightarrow> 'w \<Rightarrow> bool" where
  "proved s i sec credential code recovery w w' \<longleftrightarrow>
     (code \<noteq> [] \<and> recovery = [] \<and> (\<exists>secret now w1 step. sf_Decrypt (as_crypto s) (sec_Secret sec) i = Inr secret \<and> clock s w = (Inr now, w1) \<and>
        sf_Verify (as_crypto s) secret code now (sec_LastTOTPStep sec) = Inr step \<and>
        ar_ConsumeCredential (as_repo s) i credential (sec_Version sec) step [] w1 = (Inr (), w'))) \<or>
     (code = [] \<and> recovery \<noteq> [] \<and> sf_RecoveryHash (as_crypto s) recovery \<in> set (sec_RecoveryHashes sec) \<and>
       (\<exists>now w1. clock s w = (Inr now, w1) \<and> after (sec_RecoveryCodesExpiresAt sec) now \<and>
        ar_ConsumeCredential (as_repo s) i credential (sec_Version sec) (- 1) (sf_RecoveryHash (as_crypto s) recovery) w1 = (Inr (), w')))"

lemma consumeProof_Inr: "consumeProof s i sec credential code recovery w = (Inr x, w') \<Longrightarrow> proved s i sec credential code recovery w w'"
  unfolding consumeProof_def proved_def
  by (auto simp: bindE_Inr_iff Let_def split: if_splits sum.splits) (metis sumE)

section \<open>Properties\<close>

text \<open>
  C10: a password login that returns tokens found an active user under the address and verified the password, and
  the two tokens it returns were made for exactly this user. Either the installation was not initialised, the user
  is its bootstrap administrator, and the initialisation for this user succeeded after the tokens were made; or
  password logins are enabled and the user has no second factor, or email codes as second factor and presented a
  code of the verified address that the code store accepted and used up before any token was made. A user with
  one-time passwords never gets tokens here.
\<close>

theorem login_gate:
  assumes "Auth_Login base s input w = (Inr res, w')" and "lr_Status res \<noteq> ''totp_required''"
  shows "\<exists>state w1 user w2 w3. ar_Authentication (as_repo s) w = (Inr state, w1) \<and>
    password_ok base (li_Email input) (li_Password input) w1 user w2 \<and>
    (if se_InitializedAt state = None
     then se_BootstrapAdminUserID state \<noteq> [] \<and> user_ID user = se_BootstrapAdminUserID state \<and>
       issued_to base (user_ID user) (lr_TokenPair res) w2 w3 \<and> (\<exists>x. ar_Initialize (as_repo s) (user_ID user) w3 = (Inr x, w'))
     else se_PasswordLoginEnabled state \<and> factor_ok s user (li_EmailCode input) w2 w3 \<and>
       issued_to base (user_ID user) (lr_TokenPair res) w3 w')"
proof -
  from assms(1) obtain state w1 user w2 where st: "ar_Authentication (as_repo s) w = (Inr state, w1)"
    and user: "password_ok base (li_Email input) (li_Password input) w1 user w2"
    and rest: "(if se_InitializedAt state = None then bootstrap_login base s state user
      else if \<not> se_PasswordLoginEnabled state then failE ErrInvalidCredentials
      else bindE (ar_Security (as_repo s) (user_ID user)) (\<lambda>sec.
        if sec_Mode sec = ''totp'' then totp_challenge base s user sec
        else bindE (if sec_Mode sec = ''email'' then email_factor s user (li_EmailCode input) else retE ()) (\<lambda>_.
          bindE (issuePair base (user_ID user)) (\<lambda>pair. retE (with_pair pair))))) w2 = (Inr res, w')"
    unfolding Auth_Login_def bindE_Inr_iff credentials_Inr by blast
  have "\<exists>w3. if se_InitializedAt state = None
     then se_BootstrapAdminUserID state \<noteq> [] \<and> user_ID user = se_BootstrapAdminUserID state \<and>
       issued_to base (user_ID user) (lr_TokenPair res) w2 w3 \<and> (\<exists>x. ar_Initialize (as_repo s) (user_ID user) w3 = (Inr x, w'))
     else se_PasswordLoginEnabled state \<and> factor_ok s user (li_EmailCode input) w2 w3 \<and>
       issued_to base (user_ID user) (lr_TokenPair res) w3 w'"
  proof (cases "se_InitializedAt state = None")
    case True
    then show ?thesis using rest bootstrap_login_Inr [of base s state user w2 res w'] by auto
  next
    case False
    then obtain sec w3 where on: "se_PasswordLoginEnabled state"
      and sec: "ar_Security (as_repo s) (user_ID user) w2 = (Inr sec, w3)"
      and go: "(if sec_Mode sec = ''totp'' then totp_challenge base s user sec
        else bindE (if sec_Mode sec = ''email'' then email_factor s user (li_EmailCode input) else retE ()) (\<lambda>_.
          bindE (issuePair base (user_ID user)) (\<lambda>pair. retE (with_pair pair)))) w3 = (Inr res, w')"
      using rest by (auto simp: bindE_Inr_iff split: if_splits)
    have mode: "sec_Mode sec \<noteq> ''totp''"
      using go assms(2) totp_challenge_status [of base s user sec w3 res w'] by auto
    with go obtain x w4 pair
      where factor: "(if sec_Mode sec = ''email'' then email_factor s user (li_EmailCode input) else retE ()) w3 = (Inr x, w4)"
      and pair: "issuePair base (user_ID user) w4 = (Inr pair, w')" "res = with_pair pair"
      by (auto simp: bindE_Inr_iff)
    have "factor_ok s user (li_EmailCode input) w2 w4"
      using sec mode factor email_factor_Inr [of s user "li_EmailCode input" w3 x w4] by (auto simp: factor_ok_def split: if_splits)
    with False on issuePair_Inr [OF pair(1)] pair(2) show ?thesis by (auto simp: with_pair_def)
  qed
  with st user show ?thesis by blast
qed

text \<open>
  C11: the second step of a login returns tokens only if the challenge was open for one more attempt, its user is
  active, the installation is initialised with password logins enabled, the user's second factor is still the
  version the challenge was made for, exactly one proof was presented, valid and used up, and the challenge was
  used up too. The tokens it returns were made for the user of the challenge, after all of this.
\<close>

theorem second_step_gate:
  assumes "Auth_VerifyLogin base s input w = (Inr pair, w')"
  shows "\<exists>ch w1 user w2 state w3 sec w4 w5 w6. cs_Attempt (as_challenges s) (vi_ChallengeID input) w = (Inr ch, w1) \<and>
    ur_FindByID (sv_users base) (ch_UserID ch) w1 = (Inr user, w2) \<and> user_Active user \<and>
    ar_Authentication (as_repo s) w2 = (Inr state, w3) \<and> se_InitializedAt state \<noteq> None \<and> se_PasswordLoginEnabled state \<and>
    ar_Security (as_repo s) (user_ID user) w3 = (Inr sec, w4) \<and> sec_Mode sec = ''totp'' \<and> sec_TOTPEnabled sec \<and> sec_Version sec = ch_Version ch \<and>
    proved s (user_ID user) sec (vi_ChallengeID input) (vi_Code input) (vi_RecoveryCode input) w4 w5 \<and>
    cs_Consume (as_challenges s) (vi_ChallengeID input) w5 = (Inr (), w6) \<and>
    issued_to base (user_ID user) pair w6 w'"
  using assms unfolding Auth_VerifyLogin_def Let_def bindE_Inr_iff
  by (auto simp: reject_fields_def bindE_Inr_iff split: if_splits dest!: consumeProof_Inr issuePair_Inr) blast

text \<open>
  C18: a refused password login does not tell why. Whether the address is unknown, the stored hash is malformed,
  the password is wrong or the user is inactive, the login fails with the same error, after the same calls.
\<close>

theorem login_refusal_uniform:
  assumes "ar_Authentication (as_repo s) w = (Inr state, w1)"
    and "ur_FindByEmail (sv_users base) (normal_input base (li_Email input)) w1 = (r, w2)"
    and "r = Inl ErrNotFound \<or> (\<exists>user. r = Inr user \<and> (pw_Verify (sv_passwords base) (li_Password input) (user_PasswordHash user) \<noteq> Inr True \<or> \<not> user_Active user))"
  shows "Auth_Login base s input w = (Inl ErrInvalidCredentials, w2)"
proof -
  have "credentials base (li_Email input) (li_Password input) w1 = (Inl ErrInvalidCredentials, w2)"
    using assms(2,3) by (auto simp: credentials_def bindE_def Let_def split: sum.splits if_splits)
  then show ?thesis using assms(1) by (simp add: Auth_Login_def bindE_def)
qed

section \<open>A sample\<close>

text \<open>Interfaces that answer for one user with the password \<open>pw\<close>; nothing else is available.\<close>

definition refused :: "('w, 'a) call" where
  "refused = failE ErrAuthenticationUnavailable"

definition gate_user :: User where
  "gate_user = \<lparr>user_EmailVerifiedAt = Some 1, user_ID = ''u1'', user_Email = ''a@b'', user_Username = ''ada'', user_DisplayName = [],
     user_PasswordHash = ''pw'', user_Active = True, user_CreatedAt = 0, user_UpdatedAt = 0, user_Roles = []\<rparr>"

definition gate_state :: AuthenticationState where
  "gate_state = \<lparr>se_PasswordLoginEnabled = True, se_RegistrationEnabled = False, se_RegistrationEmailVerificationRequired = False,
     se_AllowedEmailDomains = [], se_BootstrapAdminUserID = ''u1'', se_InitializedAt = Some 1\<rparr>"

definition gate_security :: "string \<Rightarrow> SecurityState" where
  "gate_security mode = \<lparr>sec_RecoveryCodesExpiresAt = None, sec_Mode = mode, sec_TOTPEnabled = True, sec_RecoveryCodesRemaining = 0, sec_Version = 3,
     sec_Secret = Some ''k'', sec_PendingSecret = None, sec_PendingExpiresAt = None, sec_LastTOTPStep = 0, sec_RecoveryHashes = []\<rparr>"

definition gate_base :: "unit Service" where
  "gate_base = NewServiceWithManagement \<lparr>tx_lower = id, tx_fold = (=), tx_address = Some\<rparr>
     \<lparr>ur_FindByEmail = (\<lambda>e. if e = ''a@b'' then retE gate_user else failE ErrNotFound), ur_FindByID = (\<lambda>i. retE gate_user),
      ur_List = (\<lambda>_ _ _. refused), ur_Create = (\<lambda>_. refused), ur_SetActive = (\<lambda>_ _. refused)\<rparr>
     None None None \<lparr>pw_Hash = (\<lambda>p. retE p), pw_Verify = (\<lambda>p h. Inr (p = h))\<rparr> \<lparr>jwt_Issue = (\<lambda>u. retE u), jwt_ttl = 900000000000\<rparr>
     \<lparr>rf_Issue = (\<lambda>u. retE ''token''), rf_Lookup = (\<lambda>_. refused), rf_Rotate = (\<lambda>_ _. refused), rf_Revoke = (\<lambda>_. refused), rf_RevokeAll = (\<lambda>_. refused)\<rparr>"

definition gate_auth :: "string \<Rightarrow> unit AuthenticationService" where
  "gate_auth mode = \<lparr>as_recoveryTTL = 1,
     as_repo = \<lparr>ar_Authentication = retE gate_state, ar_PutAuthentication = (\<lambda>_. refused), ar_Initialize = (\<lambda>_. refused),
       ar_Security = (\<lambda>_. retE (gate_security mode)), ar_SaveSecurity = (\<lambda>_ _ _. refused), ar_Register = (\<lambda>_ _. refused),
       ar_VerifyEmail = (\<lambda>_ _ _. refused), ar_ConsumeCredential = (\<lambda>_ _ _ _ _. retE ())\<rparr>,
     as_codes = \<lparr>vc_Issue = (\<lambda>_ _ _. refused), vc_Verify = (\<lambda>_ _ _. refused),
       vc_VerifyAndConsume = (\<lambda>_ _ c. if c = ''123456'' then retE () else failE ErrInvalidCode), vc_Consume = (\<lambda>_ _ _. refused)\<rparr>,
     as_mail = (\<lambda>_ _ _. refused),
     as_crypto = \<lparr>sf_NewSecret = (\<lambda>_. refused), sf_Encrypt = (\<lambda>_ _. refused), sf_Decrypt = (\<lambda>_ _. Inr ''k''),
       sf_Verify = (\<lambda>_ c _ _. if c = ''123456'' then Inr 7 else Inl ErrInvalidCode), sf_RecoveryCodes = refused, sf_RecoveryHash = (\<lambda>_. [])\<rparr>,
     as_challenges = \<lparr>cs_Issue = (\<lambda>_. refused), cs_Attempt = (\<lambda>_. retE \<lparr>ch_UserID = ''u1'', ch_Version = 3\<rparr>), cs_Consume = (\<lambda>_. retE ())\<rparr>,
     as_now = (\<lambda>w. (0, w))\<rparr>"

lemma gate_email: "normal_input gate_base ''a@b'' = ''a@b''" "emailCodePattern ''123456''"
  by code_simp+

lemma gate_calls [simp]:
  "ar_Authentication (as_repo (gate_auth m)) = retE gate_state" "ar_Security (as_repo (gate_auth m)) i = retE (gate_security m)"
  "ar_ConsumeCredential (as_repo (gate_auth m)) i c n st rc = retE ()"
  "ur_FindByEmail (sv_users gate_base) e = (if e = ''a@b'' then retE gate_user else failE ErrNotFound)" "ur_FindByID (sv_users gate_base) i = retE gate_user"
  "pw_Verify (sv_passwords gate_base) p h = Inr (p = h)" "jwt_Issue (sv_jwt gate_base) i = retE i" "rf_Issue (sv_refresh gate_base) i = retE ''token''"
  "vc_VerifyAndConsume (as_codes (gate_auth m)) e q c = (if c = ''123456'' then retE () else failE ErrInvalidCode)"
  "sf_Decrypt (as_crypto (gate_auth m)) r i = Inr ''k''" "sf_Verify (as_crypto (gate_auth m)) k c now l = (if c = ''123456'' then Inr 7 else Inl ErrInvalidCode)"
  "cs_Attempt (as_challenges (gate_auth m)) i = retE \<lparr>ch_UserID = ''u1'', ch_Version = 3\<rparr>" "cs_Consume (as_challenges (gate_auth m)) i = retE ()"
  "clock (gate_auth m) = retE 0"
  by (simp_all add: gate_base_def gate_auth_def NewServiceWithManagement_def clock_def fun_eq_iff)

lemmas gate_rows = gate_user_def gate_state_def gate_security_def

theorem login_gate_witness:
  "\<exists>res. Auth_Login gate_base (gate_auth ''email'') \<lparr>li_Email = ''a@b'', li_Password = ''pw'', li_EmailCode = ''123456''\<rparr> () = (Inr res, ()) \<and>
     factor_ok (gate_auth ''email'') gate_user ''123456'' () () \<and> issued_to gate_base ''u1'' (lr_TokenPair res) () ()"
proof -
  let ?in = "\<lparr>li_Email = ''a@b'', li_Password = ''pw'', li_EmailCode = ''123456''\<rparr>"
  have run: "Auth_Login gate_base (gate_auth ''email'') ?in () = (Inr (with_pair (tokenPair gate_base ''u1'' ''token'')), ())"
    by (simp add: Auth_Login_def credentials_def email_factor_def code_fields_def issuePair_def gate_email bindE_def Let_def gate_rows)
  have "lr_Status (with_pair (tokenPair gate_base ''u1'' ''token'')) \<noteq> ''totp_required''" by (simp add: with_pair_def)
  from login_gate [OF run this] have "factor_ok (gate_auth ''email'') gate_user ''123456'' () () \<and>
      issued_to gate_base ''u1'' (lr_TokenPair (with_pair (tokenPair gate_base ''u1'' ''token''))) () ()"
    by (auto simp: password_ok_def gate_email gate_state_def gate_user_def)
  then show ?thesis using run by blast
qed

theorem second_step_gate_witness:
  "\<exists>pair. Auth_VerifyLogin gate_base (gate_auth ''totp'') \<lparr>vi_ChallengeID = ''c'', vi_Code = ''123456'', vi_RecoveryCode = []\<rparr> () = (Inr pair, ()) \<and>
     proved (gate_auth ''totp'') ''u1'' (gate_security ''totp'') ''c'' ''123456'' [] () ()"
proof -
  let ?in = "\<lparr>vi_ChallengeID = ''c'', vi_Code = ''123456'', vi_RecoveryCode = []\<rparr>"
  have run: "Auth_VerifyLogin gate_base (gate_auth ''totp'') ?in () = (Inr (tokenPair gate_base ''u1'' ''token''), ())"
    by (simp add: Auth_VerifyLogin_def consumeProof_def put_field_def reject_fields_def issuePair_def gate_email bindE_def mapErrE_def Let_def gate_rows)
  from second_step_gate [OF run] have "proved (gate_auth ''totp'') ''u1'' (gate_security ''totp'') ''c'' ''123456'' [] () ()"
    by (auto simp: gate_user_def)
  then show ?thesis using run by blast
qed

theorem login_refusal_uniform_witness:
  "Auth_Login gate_base (gate_auth ''off'') \<lparr>li_Email = ''a@b'', li_Password = ''wrong'', li_EmailCode = []\<rparr> () = (Inl ErrInvalidCredentials, ())"
  by (rule login_refusal_uniform [of _ _ gate_state "()" _ _ "Inr gate_user" "()"]) (simp_all add: gate_email gate_user_def)

end
