(* ===== verification/Iam_Http_Safety.thy ===== *)
theory Iam_Http_Safety
  imports Iam_Http Service_Gates
begin

text \<open>
  What the HTTP boundary of the identity module guarantees. \<open>access\<close> is the policy that the routes are meant to
  follow; the table of \<open>RegisterRoutes\<close> implements it, and the middleware enforces it on every request whatever
  route the router picks. Cookies that carry tokens are protected, and nothing else of a response depends on the refresh
  token that is handed out.
\<close>

section \<open>Policy\<close>

text \<open>
  Below \<open>/auth\<close> everything is public, below \<open>/users/me\<close> a valid token is enough; everything else needs a
  permission on the resource, to read it for \<open>GET\<close> and to write it otherwise. Roles, their assignment and the
  permissions are one resource.
\<close>

definition access :: "string \<Rightarrow> string \<Rightarrow> guard" where
  "access method pattern =
     (let segs = drop 3 (split_on CHR ''/'' pattern) in
      if take 1 segs = [''auth''] then Public
      else if take 2 segs = [''users'', ''me''] then Authenticated
      else Permitted ((if ''roles'' \<in> set segs \<or> ''permissions'' \<in> set segs then ''roles'' else hd segs) @
        (if method = ''GET'' then '':read'' else '':write'')))"

definition follows_policy :: "('b, 'w) route \<Rightarrow> bool" where
  "follows_policy rt = (rt_Guard rt = access (rt_Method rt) (rt_Pattern rt))"

lemma follows_policy_route: "follows_policy \<lparr>rt_Method = m, rt_Pattern = q, rt_Guard = g, rt_Handler = h\<rparr> = (g = access m q)"
  by (simp add: follows_policy_def)

lemma public_follow: "rt \<in> set (public_routes D app cfg) \<Longrightarrow> follows_policy rt"
  unfolding public_routes_def by (cases "hc_Authentication cfg") (auto simp: follows_policy_route access_def)

lemma authentication_follow: "rt \<in> set (authentication_routes D cfg a) \<Longrightarrow> follows_policy rt"
  unfolding authentication_routes_def by (auto simp: follows_policy_route access_def)

lemma management_follow: "rt \<in> set (management_routes D app) \<Longrightarrow> follows_policy rt"
  unfolding management_routes_def by (auto simp: follows_policy_route access_def)

lemma routes_follow_policy: "rt \<in> set (RegisterRoutes D app jwt cfg) \<Longrightarrow> follows_policy rt"
  using public_follow authentication_follow management_follow unfolding RegisterRoutes_def
  by (fastforce simp: follows_policy_route access_def split: if_splits option.splits)

section \<open>Enforcement\<close>

lemma ServeHTTP_matched:
  assumes "chi (map (\<lambda>rt. (rt_Method rt, rt_Pattern rt)) rts) r = Matched m q p"
  shows "(\<exists>rt \<in> set rts. rt_Method rt = m \<and> rt_Pattern rt = q \<and> ServeHTTP chi parse app rts r ctx w = mounted parse app rt r ctx p w) \<or>
    ServeHTTP chi parse app rts r ctx w = (WriteError (NotFound ''resource''), w)"
proof (cases "find (\<lambda>rt. rt_Method rt = m \<and> rt_Pattern rt = q) rts")
  case None
  then show ?thesis using assms by (simp add: ServeHTTP_def)
next
  case (Some rt)
  then have "rt \<in> set rts" "rt_Method rt = m" "rt_Pattern rt = q" by (auto simp: find_Some_iff)
  moreover have "ServeHTTP chi parse app rts r ctx w = mounted parse app rt r ctx p w" using Some assms by (simp add: ServeHTTP_def)
  ultimately show ?thesis by blast
qed

lemma writeIAMError_refuses: "400 \<le> hs_Status (writeIAMError e)"
  by (cases e) (simp_all add: writeIAMError_def)

text \<open>What \<open>Authorize\<close> has found when it succeeds.\<close>

definition permission_held :: "'w Service \<Rightarrow> string \<Rightarrow> string \<Rightarrow> 'w \<Rightarrow> bool" where
  "permission_held s i perm w \<longleftrightarrow>
     (\<exists>rb w0 ps w1. sv_rbac s = Some rb \<and> rr_PermissionsForUser rb i w0 = (Inr (Some ps), w1) \<and> HasPermission ps perm \<and>
        (if sv_authentication s = None then w0 = w
         else \<exists>wi u. requireInitialized s w = (Inr (), wi) \<and> ur_FindByID (sv_users s) i wi = (Inr u, w0) \<and> user_Active u))"

lemma HasPermission_Nil [simp]: "\<not> HasPermission [] perm"
  by (simp add: HasPermission_def split: prod.split)

lemma Authorize_held: "Service_Authorize s i perm w = (Inr x, w') \<Longrightarrow> permission_held s i perm w"
  unfolding Service_Authorize_def permission_held_def
  by (fastforce simp: bindE_eq_Inr requireActiveUser_def rbac_def split: option.splits if_splits)

text \<open>A request that is refused: nothing has run but the check.\<close>

definition turned_away :: "'w Service \<Rightarrow> response \<Rightarrow> 'w \<Rightarrow> 'w \<Rightarrow> bool" where
  "turned_away s resp w w' \<longleftrightarrow> 400 \<le> hs_Status resp \<and> (w' = w \<or> (\<exists>i perm. w' = snd (Service_Authorize s i perm w)))"

lemma audited_world:
  assumes "audited rec ctx d m (w, a) = (x, (w', a'))"
  shows "m w = (x, w')"
proof -
  obtain r v where r: "m w = (r, v)" by force
  obtain y b where y: "Preserve rec (audit_event ctx (d r) r) r a = (y, b)" by force
  then have "y = r" using Preserve_primary [of rec "audit_event ctx (d r) r" r a] by simp
  then show ?thesis using assms r y by (simp add: audited_def)
qed

lemma RequirePermission_cases:
  assumes run: "RequirePermission (newAuditedIAM rec s) perm h r ctx p (w, a) = (resp, (w', a'))"
  shows "turned_away s resp w w' \<or> (rq_Subject ctx \<noteq> [] \<and> permission_held s (rq_Subject ctx) perm w \<and>
    (\<exists>w1 a1. h r ctx p (w1, a1) = (resp, (w', a'))))"
proof (cases "rq_Subject ctx = []")
  case True
  then show ?thesis using run by (auto simp: RequirePermission_def turned_away_def writeIAMError_refuses)
next
  case False
  obtain x w1 a1 where x: "auditedIAM_Authorize rec ctx s (rq_Subject ctx) perm (w, a) = (x, (w1, a1))" by (metis prod.exhaust)
  then have auth: "Service_Authorize s (rq_Subject ctx) perm w = (x, w1)" unfolding auditedIAM_Authorize_def by (rule audited_world)
  show ?thesis
  proof (cases x)
    case (Inl e)
    then have "resp = writeIAMError e" "w' = w1" using run x False by (simp_all add: RequirePermission_def newAuditedIAM_def)
    then have "turned_away s resp w w'" using auth writeIAMError_refuses by (metis turned_away_def snd_conv)
    then show ?thesis ..
  next
    case (Inr u)
    then have "h r ctx p (w1, a1) = (resp, (w', a'))" using run x False by (simp add: RequirePermission_def newAuditedIAM_def)
    then show ?thesis using Authorize_held [OF auth [unfolded Inr]] False by blast
  qed
qed

text \<open>The routes of the API process, as \<open>BuildAPI\<close> registers them, over the audited service.\<close>

definition api_routes :: "'b decoders \<Rightarrow> 'm BestEffortRecorder option \<Rightarrow> 'w Service \<Rightarrow> ('w \<times> audit_world) HTTPConfig \<Rightarrow> ('b, 'w \<times> audit_world) route list" where
  "api_routes D rec s cfg = RegisterRoutes D (newAuditedIAM rec s) True cfg"

text \<open>
  C2: the HTTP boundary enforces the policy. Whatever route the router picks outside \<open>/auth\<close>, either the request is
  refused with an error status and nothing has run but the check of the permission, or it carries a token that
  \<open>Parse\<close> accepts and the handler runs for exactly the subject of that token; and where the policy asks for a
  permission, that subject is an active user of the initialised system to whom the permission was granted.
\<close>

theorem routes_enforce_policy:
  assumes run: "ServeHTTP chi (parse_token hmac codec jwt now) (newAuditedIAM rec s) (api_routes D rec s cfg) r ctx (w, a) = (resp, (w', a'))"
    and route: "chi (map (\<lambda>rt. (rt_Method rt, rt_Pattern rt)) (api_routes D rec s cfg)) r = Matched m q p" and guarded: "access m q \<noteq> Public"
  shows "turned_away s resp w w' \<or>
    (\<exists>raw claims rt w1 a1. ExtractAccessToken r = Inr raw \<and> JWTManager_Parse hmac codec jwt (now (w, a)) raw = Inr claims \<and>
       rt \<in> set (api_routes D rec s cfg) \<and> rt_Method rt = m \<and> rt_Pattern rt = q \<and>
       rt_Handler rt r (ctx\<lparr>rq_Subject := ac_Subject claims\<rparr>) p (w1, a1) = (resp, (w', a')) \<and>
       (\<forall>perm. access m q = Permitted perm \<longrightarrow> permission_held s (ac_Subject claims) perm w))"
proof -
  consider "resp = WriteError (NotFound ''resource'')" "w' = w"
    | rt where "rt \<in> set (api_routes D rec s cfg)" "rt_Method rt = m" "rt_Pattern rt = q" "mounted (parse_token hmac codec jwt now) (newAuditedIAM rec s) rt r ctx p (w, a) = (resp, (w', a'))"
    using ServeHTTP_matched [where chi = chi and rts = "api_routes D rec s cfg", OF route, of "parse_token hmac codec jwt now" "newAuditedIAM rec s" ctx "(w, a)"] run by auto
  then show ?thesis
  proof cases
    case 1
    then show ?thesis by (simp add: turned_away_def)
  next
    case 2
    have guard: "rt_Guard rt = access m q" using routes_follow_policy 2 unfolding api_routes_def follows_policy_def by blast
    define h where "h = (case access m q of Permitted perm \<Rightarrow> RequirePermission (newAuditedIAM rec s) perm (rt_Handler rt) | _ \<Rightarrow> rt_Handler rt)"
    have m: "Authenticate (parse_token hmac codec jwt now) h r ctx p (w, a) = (resp, (w', a'))"
      using 2(4) guard guarded by (cases "access m q") (simp_all add: mounted_def h_def)
    show ?thesis
    proof (cases "\<exists>raw claims. ExtractAccessToken r = Inr raw \<and> JWTManager_Parse hmac codec jwt (now (w, a)) raw = Inr claims")
      case False
      then have "resp = writeIAMError ErrInvalidCredentials \<and> w' = w"
        using m by (auto simp: Authenticate_def parse_token_def split: sum.splits)
      then show ?thesis by (simp add: turned_away_def writeIAMError_refuses)
    next
      case True
      then obtain raw claims where tok: "ExtractAccessToken r = Inr raw" "JWTManager_Parse hmac codec jwt (now (w, a)) raw = Inr claims" by blast
      then have run_h: "h r (ctx\<lparr>rq_Subject := ac_Subject claims\<rparr>) p (w, a) = (resp, (w', a'))"
        using m by (simp add: Authenticate_def parse_token_def)
      show ?thesis
      proof (cases "access m q")
        case (Permitted perm)
        then show ?thesis using RequirePermission_cases [of rec s perm "rt_Handler rt" r _ p w a resp w' a'] run_h tok 2(1-3)
          by (fastforce simp: h_def)
      qed (use guarded run_h tok 2(1-3) in \<open>auto simp: h_def\<close>)
    qed
  qed
qed

text \<open>A user who may read roles, with a token in the cookie, lists them.\<close>

definition http_base :: "unit Service" where
  "http_base = gate_base\<lparr>sv_rbac := Some \<lparr>rr_PermissionsForUser = (\<lambda>i. retE (Some (if i = ''ada'' then [''roles:*''] else []))),
     rr_Roles = retE [], rr_Permissions = retE [], rr_AssignRole = (\<lambda>_ _. refused), rr_GrantPermission = (\<lambda>_ _. refused)\<rparr>\<rparr>"

definition http_token :: string where
  "http_token = (let u = jwt_unsigned lines_codec demo_jwt ''ada'' 1000000000000 in u @ ''.'' @ jwt_sign (\<lambda>k v. rev v) demo_jwt u)"

definition http_request :: "unit request" where
  "http_request = \<lparr>hr_Method = ''GET'', hr_Path = ''/api/v1/roles'', hr_Header = (\<lambda>_. []), hr_Query = (\<lambda>_. []),
     hr_Cookie = [''access_token'' \<mapsto> http_token], hr_RemoteAddr = ''10.0.0.1:1'', hr_Body = ()\<rparr>"

definition http_decoders :: "unit decoders" where
  "http_decoders = \<lparr>dc_Login = (\<lambda>_. None), dc_RefreshToken = (\<lambda>_. None), dc_Preferences = (\<lambda>_. None), dc_CreateUser = (\<lambda>_. None),
     dc_UpdateUser = (\<lambda>_. None), dc_NewPassword = (\<lambda>_. None), dc_Active = (\<lambda>_. None), dc_Role = (\<lambda>_. None), dc_RoleIDs = (\<lambda>_. None),
     dc_PermissionIDs = (\<lambda>_. None), dc_EmailCode = (\<lambda>_. None), dc_Register = (\<lambda>_. None), dc_Verify = (\<lambda>_. None), dc_Settings = (\<lambda>_. None),
     dc_Mode = (\<lambda>_. None), dc_Proof = (\<lambda>_. None), dc_Code = (\<lambda>_. None), dc_VerifyEmail = (\<lambda>_. None)\<rparr>"

definition http_config :: "(unit \<times> audit_world) HTTPConfig" where
  "http_config = \<lparr>hc_Authentication = None, hc_SecureCookies = True, hc_RefreshTTL = 3600000000000\<rparr>"

definition http_ctx :: request_ctx where
  "http_ctx = \<lparr>rq_RequestID = ''r1'', rq_Subject = [], rq_IPAddress = None, rq_UserAgent = []\<rparr>"

lemma http_token_parses: "JWTManager_Parse (\<lambda>k v. rev v) lines_codec demo_jwt 1500000000000 http_token = Inr (issued_claims demo_jwt ''ada'' 1000000000000)"
  unfolding http_token_def Let_def by (subst Parse_unsigned) (simp_all, simp add: unix_def demo_jwt_def)

lemma http_token_extracted: "ExtractAccessToken http_request = Inr http_token"
  by (auto simp: ExtractAccessToken_def http_request_def http_token_def Let_def split: list.split)

lemma http_authorized: "auditedIAM_Authorize None ctx http_base ''ada'' ''roles:read'' ((), a) = (Inr (), ((), a))"
proof -
  have "HasPermission [''roles:*''] ''roles:read''" by code_simp
  then have "Service_Authorize http_base ''ada'' ''roles:read'' () = (Inr (), ())"
    by (simp add: Service_Authorize_def http_base_def rbac_def gate_base_def NewServiceWithManagement_def bindE_def)
  then show ?thesis by (simp add: auditedIAM_Authorize_def audited_def Preserve_def)
qed

lemma http_served:
  "ServeHTTP (\<lambda>_ _. Matched ''GET'' ''/api/v1/roles'' (\<lambda>_. [])) (parse_token (\<lambda>k v. rev v) lines_codec demo_jwt (\<lambda>_. 1500000000000))
     (newAuditedIAM (None :: unit BestEffortRecorder option) http_base) (api_routes http_decoders (None :: unit BestEffortRecorder option) http_base http_config) http_request http_ctx ((), a) =
   (Write 200 (JArr []), ((), a))"
proof -
  have "rr_Roles (the (sv_rbac http_base)) = retE []" "sv_rbac http_base \<noteq> None" by (simp_all add: http_base_def)
  then have "Service_Roles http_base () = (Inr [], ())" by (auto simp: Service_Roles_def rbac_def bindE_def)
  then show ?thesis
    by (simp add: ServeHTTP_def api_routes_def RegisterRoutes_def public_routes_def management_routes_def http_config_def mounted_def Authenticate_def
      http_token_extracted parse_token_def http_token_parses RequirePermission_def newAuditedIAM_def http_authorized roles_handler_def answer_def
      auditedIAM_Roles_def unaudited_def issued_claims_def)
qed

theorem routes_enforce_policy_witness: "permission_held http_base ''ada'' ''roles:read'' ()"
proof -
  have "access ''GET'' ''/api/v1/roles'' = Permitted ''roles:read''" by code_simp
  then show ?thesis
    using routes_enforce_policy [OF http_served, where m = "''GET''" and q = "''/api/v1/roles''" and p = "\<lambda>_. []"] 
    by (auto simp: turned_away_def http_token_extracted http_token_parses issued_claims_def)
qed

section \<open>Session cookies\<close>

text \<open>An answer that sets no cookie, hands out a new pair of tokens, or clears the cookies.\<close>

definition cookie_answer :: "'w HTTPConfig \<Rightarrow> response \<Rightarrow> bool" where
  "cookie_answer cfg resp \<longleftrightarrow> hs_Cookies resp = [] \<or>
     hs_Status resp = 200 \<and> (''Cache-Control'', ''no-store'') \<in> set (hs_Header resp) \<and>
     ((\<exists>pair. hs_Cookies resp = [setAccessCookie cfg (tp_AccessToken pair) (tp_ExpiresIn pair), setRefreshCookie cfg (tp_RefreshToken pair)] \<and>
         hs_Body resp = hs_Body (Write 200 (pair_json pair))) \<or>
      hs_Cookies resp = clearAuthCookies cfg)"

lemma writeIAMError_plain [simp]: "hs_Cookies (writeIAMError e) = []"
  by (cases e) (simp_all add: writeIAMError_def)

lemma proof_error_plain [simp]: "hs_Cookies (writeSecurityProofError e) = []"
  by (simp add: writeSecurityProofError_def)

lemma setNoStore_simps [simp]: "hs_Status (setNoStore r) = hs_Status r" "hs_Cookies (setNoStore r) = hs_Cookies r" "hs_Body (setNoStore r) = hs_Body r"
  "(''Cache-Control'', ''no-store'') \<in> set (hs_Header (setNoStore r))"
  by (simp_all add: setNoStore_def) (simp add: set_header_def header_Set_def)

lemma cookie_answer_plain [simp]: "hs_Cookies r = [] \<Longrightarrow> cookie_answer cfg r"
  by (simp add: cookie_answer_def)

lemma cookie_answer_pair [simp]: "cookie_answer cfg (writeTokenPair cfg pair)"
  unfolding cookie_answer_def writeTokenPair_def by (intro disjI2 conjI disjI1 exI [of _ pair]) simp_all

lemma cookie_answer_clear [simp]: "cookie_answer cfg ((setNoStore (flag n x))\<lparr>hs_Cookies := clearAuthCookies cfg\<rparr>)"
  by (simp add: cookie_answer_def flag_def)

lemma cookie_answer_no_store: "cookie_answer cfg (fst (m w)) \<Longrightarrow> cookie_answer cfg (fst (no_store m w))"
  by (auto simp: cookie_answer_def no_store_def split: prod.split)

lemma cookie_answer_answer: "(\<And>e. cookie_answer cfg (bad e)) \<Longrightarrow> (\<And>x. cookie_answer cfg (ok x)) \<Longrightarrow> cookie_answer cfg (fst (answer bad ok m w))"
  by (auto simp: answer_def split: prod.split sum.split)

lemma cookie_answer_decoded: "(\<And>i. cookie_answer cfg (fst (k i w))) \<Longrightarrow> cookie_answer cfg (fst (decoded dec r k w))"
  by (auto simp: decoded_def split: option.split)

lemmas cookie_rules = cookie_answer_no_store cookie_answer_answer cookie_answer_decoded

lemma public_cookies: "rt \<in> set (public_routes D app cfg) \<Longrightarrow> cookie_answer cfg (fst (rt_Handler rt r ctx p w))"
  unfolding public_routes_def
  by (cases "hc_Authentication cfg")
    (auto simp: login_handler_def emailCode_def register_def verifyLogin_def refresh_handler_def logout_handler_def code_sent_def
      split: sum.split intro!: cookie_rules)

lemma authentication_cookies: "rt \<in> set (authentication_routes D cfg a) \<Longrightarrow> cookie_answer cfg (fst (rt_Handler rt r ctx p w))"
  unfolding authentication_routes_def
  by (auto simp: requestEmailVerification_def verifyEmail_def security_def putSecurity_def enroll_def confirm_def disable_def settings_def
      putSettings_def code_sent_def flag_def Let_def split: option.split intro!: cookie_rules)

lemma management_cookies: "rt \<in> set (management_routes D app) \<Longrightarrow> cookie_answer cfg (fst (rt_Handler rt r ctx p w))"
  unfolding management_routes_def
  by (auto simp: preferences_handler_def putPreferences_def users_handler_def createUser_def updateUser_def resetUserPassword_def setUserActive_def
      roles_handler_def role_handler_def createRole_def updateRole_def deleteRole_def permissions_handler_def assignRole_def replaceUserRoles_def
      grantPermission_def replaceRolePermissions_def flag_def Let_def split: option.split intro!: cookie_rules)

lemma routes_cookies: "rt \<in> set (RegisterRoutes D app jwt cfg) \<Longrightarrow> cookie_answer cfg (fst (rt_Handler rt r ctx p w))"
  using public_cookies authentication_cookies management_cookies unfolding RegisterRoutes_def
  by (fastforce simp: me_handler_def intro!: cookie_rules split: if_splits option.splits)

lemma mounted_cookies:
  assumes "\<And>r ctx p w. cookie_answer cfg (fst (rt_Handler rt r ctx p w))"
  shows "cookie_answer cfg (fst (mounted parse app rt r ctx p w))"
proof -
  have need: "cookie_answer cfg (fst (RequirePermission app q h r ctx p w))" if "\<And>r ctx p w. cookie_answer cfg (fst (h r ctx p w))" for q h r ctx p w
    using that by (auto simp: RequirePermission_def split: prod.split sum.split)
  have auth: "cookie_answer cfg (fst (Authenticate parse h r ctx p w))" if "\<And>r ctx p w. cookie_answer cfg (fst (h r ctx p w))" for h r ctx p w
    using that by (auto simp: Authenticate_def split: sum.split)
  show ?thesis using assms by (cases "rt_Guard rt") (auto simp: mounted_def intro!: need auth)
qed

lemma protected_cookies:
  assumes "ServeHTTP chi parse app (RegisterRoutes D app jwt cfg) r ctx w = (resp, w')" and "hs_Cookies resp \<noteq> []"
  shows "hs_Status resp = 200 \<and> (''Cache-Control'', ''no-store'') \<in> set (hs_Header resp) \<and>
    (\<forall>c \<in> set (hs_Cookies resp). ck_HttpOnly c \<and> ck_SameSite c = ''Strict'' \<and> ck_Secure c = hc_SecureCookies cfg \<and>
       (ck_Name c, ck_Path c) \<in> {(''access_token'', ''/api/v1''), (''refresh_token'', ''/api/v1/auth'')}) \<and>
    ((\<exists>pair :: TokenPair. map (\<lambda>c. (ck_Name c, ck_Value c)) (hs_Cookies resp) = [(''access_token'', tp_AccessToken pair), (''refresh_token'', tp_RefreshToken pair)] \<and>
        hs_Body resp = JObj [(''code'', JInt 200), (''msg'', JStr ''success''), (''data'', JObj [(''access_token'', JStr (tp_AccessToken pair)),
          (''token_type'', JStr (tp_TokenType pair)), (''expires_in'', JInt (tp_ExpiresIn pair))])]) \<or>
     map (\<lambda>c. (ck_Name c, ck_Value c, ck_MaxAge c)) (hs_Cookies resp) = [(''access_token'', [], - 1), (''refresh_token'', [], - 1)])"
proof -
  have "cookie_answer cfg (fst (ServeHTTP chi parse app (RegisterRoutes D app jwt cfg) r ctx w))"
  proof (cases "chi (map (\<lambda>rt. (rt_Method rt, rt_Pattern rt)) (RegisterRoutes D app jwt cfg)) r")
    case (Matched m q p)
    then consider rt where "rt \<in> set (RegisterRoutes D app jwt cfg)" "ServeHTTP chi parse app (RegisterRoutes D app jwt cfg) r ctx w = mounted parse app rt r ctx p w"
      | "ServeHTTP chi parse app (RegisterRoutes D app jwt cfg) r ctx w = (WriteError (NotFound ''resource''), w)"
      using ServeHTTP_matched [where chi = chi and rts = "RegisterRoutes D app jwt cfg", OF Matched, of parse app ctx w] by blast
    then show ?thesis
    proof cases
      case 1
      then show ?thesis using mounted_cookies [OF routes_cookies [OF 1(1)]] by simp
    qed simp
  qed (simp_all add: ServeHTTP_def)
  then have ans: "cookie_answer cfg resp" using assms(1) by simp
  then consider (new) pair :: TokenPair where "hs_Cookies resp = [setAccessCookie cfg (tp_AccessToken pair) (tp_ExpiresIn pair), setRefreshCookie cfg (tp_RefreshToken pair)]"
      "hs_Body resp = hs_Body (Write 200 (pair_json pair))" | (clear) "hs_Cookies resp = clearAuthCookies cfg"
    using assms(2) by (auto simp: cookie_answer_def)
  moreover have ok: "hs_Status resp = 200" "(''Cache-Control'', ''no-store'') \<in> set (hs_Header resp)" using ans assms(2) by (auto simp: cookie_answer_def)
  ultimately show ?thesis
  proof cases
    case (new pair)
    then have tokens: "map (\<lambda>c. (ck_Name c, ck_Value c)) (hs_Cookies resp) = [(''access_token'', tp_AccessToken pair), (''refresh_token'', tp_RefreshToken pair)] \<and>
        hs_Body resp = JObj [(''code'', JInt 200), (''msg'', JStr ''success''), (''data'', JObj [(''access_token'', JStr (tp_AccessToken pair)),
          (''token_type'', JStr (tp_TokenType pair)), (''expires_in'', JInt (tp_ExpiresIn pair))])]"
      by (simp add: setAccessCookie_def setRefreshCookie_def Write_def writeJSON_def pair_json_def)
    have prot: "\<forall>c \<in> set (hs_Cookies resp). ck_HttpOnly c \<and> ck_SameSite c = ''Strict'' \<and> ck_Secure c = hc_SecureCookies cfg \<and>
       (ck_Name c, ck_Path c) \<in> {(''access_token'', ''/api/v1''), (''refresh_token'', ''/api/v1/auth'')}"
      using new by (simp add: setAccessCookie_def setRefreshCookie_def)
    show ?thesis by (intro conjI ok prot disjI1) (rule exI, rule tokens)
  next
    case clear
    then show ?thesis using ok by (simp add: setAccessCookie_def setRefreshCookie_def clearAuthCookies_def)
  qed
qed

section \<open>Tokens that are handed out\<close>

text \<open>
  The same application with other tokens: \<open>g\<close> replaces each access token and \<open>f\<close> each refresh token that an
  operation returns. What of a response differs then depends on the tokens.
\<close>

definition replaced :: "('a \<Rightarrow> 'a) \<Rightarrow> ('w, 'a) call \<Rightarrow> ('w, 'a) call" where
  "replaced h m w = (case m w of (Inl e, w') \<Rightarrow> (Inl e, w') | (Inr x, w') \<Rightarrow> (Inr (h x), w'))"

definition other_pair :: "(string \<Rightarrow> string) \<Rightarrow> (string \<Rightarrow> string) \<Rightarrow> TokenPair \<Rightarrow> TokenPair" where
  "other_pair g f p = p\<lparr>tp_AccessToken := g (tp_AccessToken p), tp_RefreshToken := f (tp_RefreshToken p)\<rparr>"

definition other_app :: "(string \<Rightarrow> string) \<Rightarrow> (string \<Rightarrow> string) \<Rightarrow> 'w Application \<Rightarrow> 'w Application" where
  "other_app g f app = app\<lparr>ap_Login := (\<lambda>ctx e pw. replaced (other_pair g f) (ap_Login app ctx e pw)),
     ap_Refresh := (\<lambda>ctx raw. replaced (other_pair g f) (ap_Refresh app ctx raw))\<rparr>"

definition other_auth :: "(string \<Rightarrow> string) \<Rightarrow> (string \<Rightarrow> string) \<Rightarrow> 'w AuthenticationApplication \<Rightarrow> 'w AuthenticationApplication" where
  "other_auth g f a = a\<lparr>aa_Login := (\<lambda>ctx i. replaced (\<lambda>v. v\<lparr>lr_TokenPair := other_pair g f (lr_TokenPair v)\<rparr>) (aa_Login a ctx i)),
     aa_VerifyLogin := (\<lambda>ctx i. replaced (other_pair g f) (aa_VerifyLogin a ctx i))\<rparr>"

definition other_config :: "(string \<Rightarrow> string) \<Rightarrow> (string \<Rightarrow> string) \<Rightarrow> 'w HTTPConfig \<Rightarrow> 'w HTTPConfig" where
  "other_config g f cfg = cfg\<lparr>hc_Authentication := map_option (other_auth g f) (hc_Authentication cfg)\<rparr>"

text \<open>Two answers that differ in the tokens only.\<close>

definition token_alike :: "(string \<Rightarrow> string) \<Rightarrow> response \<times> 'w \<Rightarrow> response \<times> 'w \<Rightarrow> bool" where
  "token_alike g x y \<longleftrightarrow> snd y = snd x \<and> hs_Status (fst y) = hs_Status (fst x) \<and> hs_Header (fst y) = hs_Header (fst x) \<and>
     (hs_Cookies (fst y) = [] \<longleftrightarrow> hs_Cookies (fst x) = []) \<and>
     (hs_Cookies (fst x) = [] \<or> (\<forall>t. g t = t) \<longrightarrow> hs_Body (fst y) = hs_Body (fst x))"

lemma token_alike_refl [simp]: "token_alike g x x"
  by (simp add: token_alike_def)

lemma token_alike_no_store: "token_alike g (m w) (m' w) \<Longrightarrow> token_alike g (no_store m w) (no_store m' w)"
  by (auto simp: token_alike_def no_store_def setNoStore_def set_header_def split: prod.split)

lemma token_alike_answer:
  fixes m :: "('w, 'a) call"
  assumes "\<And>x (u :: 'w). token_alike g (ok x, u) (ok' (h x), u)"
  shows "token_alike g (answer bad ok m w) (answer bad ok' (replaced h m) w)"
  using assms by (auto simp: answer_def replaced_def split: prod.split sum.split)

lemma token_alike_decoded: "(\<And>i. token_alike g (k i w) (k' i w)) \<Longrightarrow> token_alike g (decoded dec r k w) (decoded dec r k' w)"
  by (auto simp: decoded_def split: option.split)

lemma token_alike_pair: "token_alike g (writeTokenPair cfg p, u) (writeTokenPair cfg' (other_pair g f p), u)"
  by (auto simp: token_alike_def writeTokenPair_def setNoStore_def set_header_def Write_def writeJSON_def pair_json_def other_pair_def)

lemmas token_alike_rules = token_alike_no_store token_alike_decoded token_alike_answer token_alike_pair

definition route_alike :: "(string \<Rightarrow> string) \<Rightarrow> ('b, 'w) route \<Rightarrow> ('b, 'w) route \<Rightarrow> bool" where
  "route_alike g rt rt' \<longleftrightarrow> rt_Method rt' = rt_Method rt \<and> rt_Pattern rt' = rt_Pattern rt \<and> rt_Guard rt' = rt_Guard rt \<and>
     (\<forall>r ctx p w. token_alike g (rt_Handler rt r ctx p w) (rt_Handler rt' r ctx p w))"

lemma other_app_simps [simp]:
  "ap_CurrentUser (other_app g f app) = ap_CurrentUser app" "ap_Logout (other_app g f app) = ap_Logout app"
  "ap_Preferences (other_app g f app) = ap_Preferences app" "ap_PutPreferences (other_app g f app) = ap_PutPreferences app"
  "ap_Users (other_app g f app) = ap_Users app" "ap_CreateUser (other_app g f app) = ap_CreateUser app"
  "ap_UpdateUser (other_app g f app) = ap_UpdateUser app" "ap_ResetUserPassword (other_app g f app) = ap_ResetUserPassword app"
  "ap_SetUserActive (other_app g f app) = ap_SetUserActive app" "ap_ReplaceUserRoles (other_app g f app) = ap_ReplaceUserRoles app"
  "ap_Roles (other_app g f app) = ap_Roles app" "ap_Role (other_app g f app) = ap_Role app"
  "ap_CreateRole (other_app g f app) = ap_CreateRole app" "ap_UpdateRole (other_app g f app) = ap_UpdateRole app"
  "ap_DeleteRole (other_app g f app) = ap_DeleteRole app" "ap_ReplaceRolePermissions (other_app g f app) = ap_ReplaceRolePermissions app"
  "ap_Permissions (other_app g f app) = ap_Permissions app" "ap_AssignRole (other_app g f app) = ap_AssignRole app"
  "ap_GrantPermission (other_app g f app) = ap_GrantPermission app" "ap_Authorize (other_app g f app) = ap_Authorize app"
  by (simp_all add: other_app_def)

lemma other_auth_simps [simp]:
  "aa_RequestEmailCode (other_auth g f a) = aa_RequestEmailCode a" "aa_RequestEmailVerification (other_auth g f a) = aa_RequestEmailVerification a"
  "aa_VerifyEmail (other_auth g f a) = aa_VerifyEmail a" "aa_Register (other_auth g f a) = aa_Register a"
  "aa_Settings (other_auth g f a) = aa_Settings a" "aa_PutSettings (other_auth g f a) = aa_PutSettings a"
  "aa_Security (other_auth g f a) = aa_Security a" "aa_PutSecurity (other_auth g f a) = aa_PutSecurity a"
  "aa_Enroll (other_auth g f a) = aa_Enroll a" "aa_Confirm (other_auth g f a) = aa_Confirm a" "aa_Disable (other_auth g f a) = aa_Disable a"
  by (simp_all add: other_auth_def)

lemma login_alike: "token_alike g (login_handler D app cfg r ctx p w) (login_handler D (other_app g f app) (other_config g f cfg) r ctx p w)"
proof (cases "hc_Authentication cfg")
  case None
  then show ?thesis
    by (auto simp: login_handler_def other_config_def other_app_def intro!: token_alike_no_store token_alike_decoded token_alike_answer token_alike_pair)
next
  case (Some a)
  then show ?thesis
    by (auto simp: login_handler_def other_config_def other_auth_def intro!: token_alike_no_store token_alike_decoded token_alike_answer token_alike_pair)
qed

lemma verify_alike: "token_alike g (verifyLogin D a cfg r ctx p w) (verifyLogin D (other_auth g f a) cfg' r ctx p w)"
  unfolding verifyLogin_def other_auth_def by (intro token_alike_no_store token_alike_decoded) (simp add: token_alike_answer token_alike_pair)

lemma refresh_alike: "token_alike g (refresh_handler D app cfg r ctx p w) (refresh_handler D (other_app g f app) cfg' r ctx p w)"
  unfolding refresh_handler_def other_app_def by (cases "refreshToken D r") (simp_all add: token_alike_answer token_alike_pair)

lemma logout_same: "logout_handler D (other_app g f app) (other_config g f cfg) = logout_handler D app cfg"
  by (simp add: fun_eq_iff logout_handler_def clearAuthCookies_def setAccessCookie_def setRefreshCookie_def other_config_def)

lemma me_same: "me_handler (other_app g f app) = me_handler app"
  by (simp add: fun_eq_iff me_handler_def)

lemma register_same: "emailCode D (other_auth g f a) = emailCode D a" "register D (other_auth g f a) = register D a"
  by (simp_all add: fun_eq_iff emailCode_def register_def code_sent_def)

lemma management_same: "management_routes D (other_app g f app) = management_routes D app"
  unfolding management_routes_def preferences_handler_def [abs_def] putPreferences_def [abs_def] users_handler_def [abs_def]
    createUser_def [abs_def] updateUser_def [abs_def] resetUserPassword_def [abs_def] setUserActive_def [abs_def] roles_handler_def [abs_def]
    role_handler_def [abs_def] createRole_def [abs_def] updateRole_def [abs_def] deleteRole_def [abs_def] permissions_handler_def [abs_def]
    assignRole_def [abs_def] replaceUserRoles_def [abs_def] grantPermission_def [abs_def] replaceRolePermissions_def [abs_def] other_app_simps
  by (rule refl)

lemma putSettings_same: "putSettings D (other_auth g f a) r ctx p = putSettings D a r ctx p"
  unfolding putSettings_def other_auth_simps by (rule refl)

lemma authentication_same: "authentication_routes D cfg' (other_auth g f a) = authentication_routes D cfg a"
  by (simp add: authentication_routes_def fun_eq_iff requestEmailVerification_def verifyEmail_def security_def putSecurity_def enroll_def
      confirm_def disable_def settings_def putSettings_same code_sent_def)

lemma route_alike_refl: "list_all2 (route_alike g) rts rts"
  by (rule list_all2_refl) (simp add: route_alike_def)

lemma authentication_alike: "list_all2 (route_alike g) (authentication_routes D cfg a) (authentication_routes D cfg' (other_auth g f a))"
  unfolding authentication_same [of D cfg' g f a cfg] by (rule route_alike_refl)

lemma routes_alike: "list_all2 (route_alike g) (RegisterRoutes D app jwt cfg) (RegisterRoutes D (other_app g f app) jwt (other_config g f cfg))"
proof -
  have "list_all2 (route_alike g) (public_routes D app cfg) (public_routes D (other_app g f app) (other_config g f cfg))"
    by (cases "hc_Authentication cfg")
      (simp_all add: public_routes_def route_alike_def logout_same register_same login_alike,
       simp_all add: other_config_def route_alike_def register_same verify_alike refresh_alike)
  then show ?thesis
    by (cases "hc_Authentication cfg")
      (auto simp: RegisterRoutes_def other_config_def me_same management_same route_alike_def
        intro!: list_all2_appendI route_alike_refl authentication_alike)
qed

lemma mounted_alike:
  assumes "route_alike g rt rt'"
  shows "token_alike g (mounted parse app rt r ctx p w) (mounted parse (other_app g f app) rt' r ctx p w)"
proof -
  have h: "token_alike g (rt_Handler rt r ctx p w) (rt_Handler rt' r ctx p w)" and guard: "rt_Guard rt' = rt_Guard rt" for r ctx p w
    using assms by (auto simp: route_alike_def)
  show ?thesis
    by (cases "rt_Guard rt") (auto simp: mounted_def guard h Authenticate_def RequirePermission_def split: sum.split prod.split)
qed

lemma find_alike:
  "list_all2 (route_alike g) rts rts' \<Longrightarrow> rel_option (route_alike g) (find (\<lambda>rt. rt_Method rt = m \<and> rt_Pattern rt = q) rts)
     (find (\<lambda>rt. rt_Method rt = m \<and> rt_Pattern rt = q) rts')"
  by (induction rule: list_all2_induct) (auto simp: route_alike_def)

lemma ServeHTTP_alike:
  "token_alike g (ServeHTTP chi parse app (RegisterRoutes D app jwt cfg) r ctx w)
     (ServeHTTP chi parse (other_app g f app) (RegisterRoutes D (other_app g f app) jwt (other_config g f cfg)) r ctx w)"
proof -
  let ?rts = "RegisterRoutes D app jwt cfg" and ?rts' = "RegisterRoutes D (other_app g f app) jwt (other_config g f cfg)"
  have names: "map (\<lambda>rt. (rt_Method rt, rt_Pattern rt)) ?rts' = map (\<lambda>rt. (rt_Method rt, rt_Pattern rt)) ?rts"
    using routes_alike [of g D app jwt cfg f] by (induction rule: list_all2_induct) (auto simp: route_alike_def)
  show ?thesis
  proof (cases "chi (map (\<lambda>rt. (rt_Method rt, rt_Pattern rt)) ?rts) r")
    case (Matched m q p)
    from find_alike [OF routes_alike [of g D app jwt cfg f], of m q] show ?thesis
      by (cases rule: option.rel_cases) (auto simp: ServeHTTP_def names Matched mounted_alike)
  qed (simp_all add: ServeHTTP_def names)
qed

section \<open>Property of the cookies\<close>

text \<open>
  C12: cookies of the API are protected, and the refresh token that is handed out travels in its cookie only. A response
  that sets a cookie, on whatever route, is a success that must not be stored, and every cookie is for HTTP only, strict
  about its site, limited to the API and secure when the configuration says so. A response that hands out tokens sets
  exactly the access token and the refresh token, the latter only for the routes below \<open>/auth\<close>, and its body shows the
  access token with its lifetime; every other response with cookies clears both. And whatever the response, with or
  without cookies: its status, headers and body and the effect of the request stay the same when the operations return
  other refresh tokens, so nothing of a refresh token is in them; and a response without cookies also stays the same
  when they return other access tokens.
\<close>

theorem session_cookies_protected:
  assumes "ServeHTTP chi parse app (RegisterRoutes D app jwt cfg) r ctx w = (resp, w')"
  shows "(hs_Cookies resp \<noteq> [] \<longrightarrow> hs_Status resp = 200 \<and> (''Cache-Control'', ''no-store'') \<in> set (hs_Header resp) \<and>
    (\<forall>c \<in> set (hs_Cookies resp). ck_HttpOnly c \<and> ck_SameSite c = ''Strict'' \<and> ck_Secure c = hc_SecureCookies cfg \<and>
       (ck_Name c, ck_Path c) \<in> {(''access_token'', ''/api/v1''), (''refresh_token'', ''/api/v1/auth'')}) \<and>
    ((\<exists>pair :: TokenPair. map (\<lambda>c. (ck_Name c, ck_Value c)) (hs_Cookies resp) = [(''access_token'', tp_AccessToken pair), (''refresh_token'', tp_RefreshToken pair)] \<and>
        hs_Body resp = JObj [(''code'', JInt 200), (''msg'', JStr ''success''), (''data'', JObj [(''access_token'', JStr (tp_AccessToken pair)),
          (''token_type'', JStr (tp_TokenType pair)), (''expires_in'', JInt (tp_ExpiresIn pair))])]) \<or>
     map (\<lambda>c. (ck_Name c, ck_Value c, ck_MaxAge c)) (hs_Cookies resp) = [(''access_token'', [], - 1), (''refresh_token'', [], - 1)])) \<and>
    (\<forall>g f. \<exists>resp'. ServeHTTP chi parse (other_app g f app) (RegisterRoutes D (other_app g f app) jwt (other_config g f cfg)) r ctx w = (resp', w') \<and>
       hs_Status resp' = hs_Status resp \<and> hs_Header resp' = hs_Header resp \<and> (hs_Cookies resp' = [] \<longleftrightarrow> hs_Cookies resp = []) \<and>
       (hs_Cookies resp = [] \<or> (\<forall>t. g t = t) \<longrightarrow> hs_Body resp' = hs_Body resp))"
proof (intro conjI [of "_ \<longrightarrow> _"] impI allI)
  assume "hs_Cookies resp \<noteq> []"
  from protected_cookies [OF assms this] show "hs_Status resp = 200 \<and> (''Cache-Control'', ''no-store'') \<in> set (hs_Header resp) \<and>
    (\<forall>c \<in> set (hs_Cookies resp). ck_HttpOnly c \<and> ck_SameSite c = ''Strict'' \<and> ck_Secure c = hc_SecureCookies cfg \<and>
       (ck_Name c, ck_Path c) \<in> {(''access_token'', ''/api/v1''), (''refresh_token'', ''/api/v1/auth'')}) \<and>
    ((\<exists>pair :: TokenPair. map (\<lambda>c. (ck_Name c, ck_Value c)) (hs_Cookies resp) = [(''access_token'', tp_AccessToken pair), (''refresh_token'', tp_RefreshToken pair)] \<and>
        hs_Body resp = JObj [(''code'', JInt 200), (''msg'', JStr ''success''), (''data'', JObj [(''access_token'', JStr (tp_AccessToken pair)),
          (''token_type'', JStr (tp_TokenType pair)), (''expires_in'', JInt (tp_ExpiresIn pair))])]) \<or>
     map (\<lambda>c. (ck_Name c, ck_Value c, ck_MaxAge c)) (hs_Cookies resp) = [(''access_token'', [], - 1), (''refresh_token'', [], - 1)])" .
next
  fix g f
  show "\<exists>resp'. ServeHTTP chi parse (other_app g f app) (RegisterRoutes D (other_app g f app) jwt (other_config g f cfg)) r ctx w = (resp', w') \<and>
       hs_Status resp' = hs_Status resp \<and> hs_Header resp' = hs_Header resp \<and> (hs_Cookies resp' = [] \<longleftrightarrow> hs_Cookies resp = []) \<and>
       (hs_Cookies resp = [] \<or> (\<forall>t. g t = t) \<longrightarrow> hs_Body resp' = hs_Body resp)"
    using ServeHTTP_alike [where g = g and f = f and app = app and cfg = cfg and D = D, of chi parse jwt r ctx w] assms
    by (auto simp: token_alike_def prod_eq_iff)
qed

text \<open>A login with the password of the sample user.\<close>

definition login_decoders :: "unit decoders" where
  "login_decoders = http_decoders\<lparr>dc_Login := (\<lambda>_. Some \<lparr>li_Email = ''a@b'', li_Password = ''pw'', li_EmailCode = []\<rparr>)\<rparr>"

theorem session_cookies_protected_witness:
  "\<forall>a. \<exists>resp w'. ServeHTTP (\<lambda>_ _. Matched ''POST'' ''/api/v1/auth/login'' (\<lambda>_. [])) (\<lambda>_ _. Inl ErrInvalidCredentials) (newAuditedIAM (None :: unit BestEffortRecorder option) http_base)
     (RegisterRoutes login_decoders (newAuditedIAM (None :: unit BestEffortRecorder option) http_base) True http_config) http_request http_ctx ((), a) = (resp, w') \<and>
     (\<forall>c \<in> set (hs_Cookies resp). ck_HttpOnly c \<and> ck_Secure c) \<and> length (hs_Cookies resp) = 2"
proof
  fix a
  let ?app = "newAuditedIAM (None :: unit BestEffortRecorder option) http_base"
  let ?serve = "ServeHTTP (\<lambda>_ _. Matched ''POST'' ''/api/v1/auth/login'' (\<lambda>_. [])) (\<lambda>_ _. Inl ErrInvalidCredentials) ?app
     (RegisterRoutes login_decoders ?app True http_config) http_request http_ctx ((), a)"
  have sel: "sv_authentication http_base = None" "sv_users http_base = sv_users gate_base" "sv_passwords http_base = sv_passwords gate_base"
    "sv_jwt http_base = sv_jwt gate_base" "sv_refresh http_base = sv_refresh gate_base" "sv_text http_base = sv_text gate_base"
    by (simp_all add: http_base_def gate_base_def NewServiceWithManagement_def)
  have "normal_input http_base ''a@b'' = ''a@b''" using gate_email(1) by (simp add: normal_input_def sel)
  then have "Service_Login http_base ''a@b'' ''pw'' () = (Inr (tokenPair http_base ''u1'' ''token''), ())"
    by (simp add: Service_Login_def sel bindE_def issuePair_def gate_user_def)
  then have run: "?serve = (setNoStore (writeTokenPair http_config (tokenPair http_base ''u1'' ''token'')), ((), a))"
    by (simp add: ServeHTTP_def RegisterRoutes_def public_routes_def mounted_def login_handler_def no_store_def decoded_def login_decoders_def
      answer_def newAuditedIAM_def auditedIAM_Login_def audited_def Preserve_def http_config_def)
  have two: "length (hs_Cookies (setNoStore (writeTokenPair http_config p))) = 2" for p by (simp add: writeTokenPair_def)
  then have "hs_Cookies (setNoStore (writeTokenPair http_config p)) \<noteq> []" for p by (metis list.size(3) zero_neq_numeral)
  from session_cookies_protected [OF run] this two run
  show "\<exists>resp w'. ?serve = (resp, w') \<and> (\<forall>c \<in> set (hs_Cookies resp). ck_HttpOnly c \<and> ck_Secure c) \<and> length (hs_Cookies resp) = 2"
    by (auto simp: http_config_def)
qed

end
