(* ===== verification/Http_Middleware.thy ===== *)
theory Http_Middleware
  imports Http_Kit
begin

text \<open>
  Middleware of \<open>src/pkg/httpkit/middleware.go\<close> and \<open>src/pkg/platform/httpserver/requestmeta\<close>: identifiers of
  requests, recovery from panics, cross-origin headers, and the address of the client behind trusted proxies.
\<close>

section \<open>Identifiers of requests\<close>

definition id_char :: "char \<Rightarrow> bool" where
  "id_char c \<longleftrightarrow> (let n = (of_char c :: nat) in 48 \<le> n \<and> n \<le> 57 \<or> 65 \<le> n \<and> n \<le> 90 \<or> 97 \<le> n \<and> n \<le> 122) \<or> c \<in> set ''._:-''"

definition validRequestID :: "string \<Rightarrow> bool" where
  "validRequestID s \<longleftrightarrow> 1 \<le> length s \<and> length s \<le> 128 \<and> list_all id_char s"

text \<open>The random bytes, or the text of the clock when there are none.\<close>

definition newRequestID :: "string option \<Rightarrow> string \<Rightarrow> string" where
  "newRequestID rnd clock36 = (case rnd of Some bs \<Rightarrow> hex_encode bs | None \<Rightarrow> clock36)"

definition RequestID :: "string option \<Rightarrow> string \<Rightarrow> 'b request \<Rightarrow> string" where
  "RequestID rnd clock36 r =
     (let i = hr_Header r ''X-Request-ID'' in if validRequestID i then i else newRequestID rnd clock36)"

section \<open>Writers\<close>

text \<open>
  The connection as \<open>net/http\<close> provides it: the header map, what was sent (the status with the headers of that
  moment), the informational responses, the body and how often it was flushed.
\<close>

record destination =
  de_Header :: "(string \<times> string) list"
  de_Sent :: "(int \<times> (string \<times> string) list) option"
  de_Info :: "int list"
  de_Body :: string
  de_Flushes :: nat

definition de_WriteHeader :: "int \<Rightarrow> destination \<Rightarrow> destination" where
  "de_WriteHeader st d = (case de_Sent d of
      Some _ \<Rightarrow> d
    | None \<Rightarrow> if 100 \<le> st \<and> st < 200 then d\<lparr>de_Info := de_Info d @ [st]\<rparr> else d\<lparr>de_Sent := Some (st, de_Header d)\<rparr>)"

definition de_Write :: "string \<Rightarrow> destination \<Rightarrow> destination" where
  "de_Write v d = (let d' = de_WriteHeader 200 d in d'\<lparr>de_Body := de_Body d' @ v\<rparr>)"

definition de_Flush :: "destination \<Rightarrow> destination" where
  "de_Flush d = (let d' = de_WriteHeader 200 d in d'\<lparr>de_Flushes := de_Flushes d' + 1\<rparr>)"

text \<open>What a handler does with its writer, and how it ends.\<close>

datatype writer_op = SetHeader string string | WriteStatus int | WriteBytes string | FlushOut

datatype outcome = Returned | Panicked | AbortHandler

definition direct :: "destination \<Rightarrow> writer_op \<Rightarrow> destination" where
  "direct d x = (case x of
      SetHeader k v \<Rightarrow> d\<lparr>de_Header := header_Set k v (de_Header d)\<rparr>
    | WriteStatus st \<Rightarrow> de_WriteHeader st d
    | WriteBytes v \<Rightarrow> de_Write v d
    | FlushOut \<Rightarrow> de_Flush d)"

section \<open>Recovery\<close>

definition recoveryBufferLimit :: nat where
  "recoveryBufferLimit = 65536"

record recoveryWriter =
  rw_destination :: destination
  rw_header :: "(string \<times> string) list"
  rw_body :: string
  rw_status :: int
  rw_wroteHeader :: bool
  rw_committed :: bool

definition newRecoveryWriter :: "destination \<Rightarrow> recoveryWriter" where
  "newRecoveryWriter d = \<lparr>rw_destination = d, rw_header = de_Header d, rw_body = [], rw_status = 0, rw_wroteHeader = False, rw_committed = False\<rparr>"

definition rw_commit :: "recoveryWriter \<Rightarrow> recoveryWriter" where
  "rw_commit w =
     (if rw_committed w then w
      else
        let d = (rw_destination w)\<lparr>de_Header := rw_header w\<rparr>;
            d = (if rw_wroteHeader w then de_WriteHeader (rw_status w) d else d);
            d = (if rw_body w \<noteq> [] then de_Write (rw_body w) d else d)
        in w\<lparr>rw_destination := d, rw_committed := True, rw_body := []\<rparr>)"

definition rw_WriteHeader :: "int \<Rightarrow> recoveryWriter \<Rightarrow> recoveryWriter" where
  "rw_WriteHeader st w =
     (if rw_committed w then w\<lparr>rw_destination := de_WriteHeader st (rw_destination w)\<rparr>
      else if rw_wroteHeader w then w
      else w\<lparr>rw_wroteHeader := True, rw_status := st\<rparr>)"

definition rw_Write :: "string \<Rightarrow> recoveryWriter \<Rightarrow> recoveryWriter" where
  "rw_Write v w =
     (if rw_committed w then w\<lparr>rw_destination := de_Write v (rw_destination w)\<rparr>
      else
        let w = (if \<not> rw_wroteHeader w then rw_WriteHeader 200 w else w) in
        if int (length v) \<le> int recoveryBufferLimit - int (length (rw_body w)) then w\<lparr>rw_body := rw_body w @ v\<rparr>
        else let w = rw_commit w in w\<lparr>rw_destination := de_Write v (rw_destination w)\<rparr>)"

definition rw_Flush :: "recoveryWriter \<Rightarrow> recoveryWriter" where
  "rw_Flush w = (let w = rw_commit w in w\<lparr>rw_destination := de_Flush (rw_destination w)\<rparr>)"

definition rw_SetHeader :: "string \<Rightarrow> string \<Rightarrow> recoveryWriter \<Rightarrow> recoveryWriter" where
  "rw_SetHeader k v w =
     (if rw_committed w then w\<lparr>rw_destination := (rw_destination w)\<lparr>de_Header := header_Set k v (de_Header (rw_destination w))\<rparr>\<rparr>
      else w\<lparr>rw_header := header_Set k v (rw_header w)\<rparr>)"

definition buffered :: "recoveryWriter \<Rightarrow> writer_op \<Rightarrow> recoveryWriter" where
  "buffered w x = (case x of
      SetHeader k v \<Rightarrow> rw_SetHeader k v w
    | WriteStatus st \<Rightarrow> rw_WriteHeader st w
    | WriteBytes v \<Rightarrow> rw_Write v w
    | FlushOut \<Rightarrow> rw_Flush w)"

text \<open>\<open>apikit.WriteError\<close> of the stable error, on the connection.\<close>

definition internal_body :: string where
  "internal_body = ''{\"code\":500,\"msg\":\"internal server error\",\"data\":null}'' @ [CHR 0x0A]"

definition write_internal :: "destination \<Rightarrow> destination" where
  "write_internal d = de_Write internal_body (de_WriteHeader 500
     (d\<lparr>de_Header := header_Set ''Content-Type'' ''application/json; charset=utf-8'' (de_Header d)\<rparr>))"

text \<open>The connection after the request, and whether the server aborts it because the panic goes on.\<close>

definition Recovery :: "writer_op list \<Rightarrow> outcome \<Rightarrow> destination \<Rightarrow> destination \<times> bool" where
  "Recovery ops fin d =
     (let w = foldl buffered (newRecoveryWriter d) ops in
      case fin of
        AbortHandler \<Rightarrow> (rw_destination w, True)
      | Panicked \<Rightarrow> if rw_committed w then (rw_destination w, True) else (write_internal (rw_destination w), False)
      | Returned \<Rightarrow> (rw_destination (rw_commit w), False))"

text \<open>A handler that sets its headers before it writes, and only final statuses.\<close>

fun only_writes :: "writer_op list \<Rightarrow> bool" where
  "only_writes [] = True"
| "only_writes (SetHeader k v # ops) = False"
| "only_writes (WriteStatus st # ops) = (200 \<le> st \<and> only_writes ops)"
| "only_writes (x # ops) = only_writes ops"

fun headers_first :: "writer_op list \<Rightarrow> bool" where
  "headers_first [] = True"
| "headers_first (SetHeader k v # ops) = headers_first ops"
| "headers_first ops = only_writes ops"

fun op_bytes :: "writer_op \<Rightarrow> nat" where
  "op_bytes (WriteBytes v) = length v"
| "op_bytes _ = 0"

text \<open>
  The writer and a connection that the handler uses directly: until the writer commits, the real connection \<open>d0\<close>
  is untouched and the buffer holds what the direct one shows.
\<close>

definition rec_rel :: "destination \<Rightarrow> recoveryWriter \<Rightarrow> destination \<Rightarrow> bool" where
  "rec_rel d0 w d \<longleftrightarrow>
     (if rw_committed w then rw_destination w = d
      else rw_destination w = d0 \<and> (rw_wroteHeader w \<longrightarrow> 200 \<le> rw_status w) \<and> (rw_body w \<noteq> [] \<longrightarrow> rw_wroteHeader w) \<and>
        d = d0\<lparr>de_Header := rw_header w, de_Sent := (if rw_wroteHeader w then Some (rw_status w, rw_header w) else None),
          de_Body := de_Body d0 @ rw_body w\<rparr>)"

lemma rec_rel_new: "de_Sent d0 = None \<Longrightarrow> rec_rel d0 (newRecoveryWriter d0) d0"
  by (simp add: rec_rel_def newRecoveryWriter_def)

lemma rec_rel_commit: "rec_rel d0 w d \<Longrightarrow> de_Sent d0 = None \<Longrightarrow> rw_committed (rw_commit w) \<and> rw_destination (rw_commit w) = d"
  by (auto simp: rec_rel_def rw_commit_def Let_def de_WriteHeader_def de_Write_def)

lemma rec_rel_Set: "rec_rel d0 w d \<Longrightarrow> \<not> rw_wroteHeader w \<Longrightarrow> \<not> rw_committed w \<Longrightarrow> rec_rel d0 (buffered w (SetHeader k v)) (direct d (SetHeader k v))"
  by (simp add: rec_rel_def buffered_def direct_def rw_SetHeader_def)

lemma rec_rel_Status: "rec_rel d0 w d \<Longrightarrow> de_Sent d0 = None \<Longrightarrow> 200 \<le> st \<Longrightarrow> rec_rel d0 (buffered w (WriteStatus st)) (direct d (WriteStatus st))"
  by (auto simp: rec_rel_def buffered_def direct_def rw_WriteHeader_def de_WriteHeader_def)

lemma rec_rel_Flush: "rec_rel d0 w d \<Longrightarrow> de_Sent d0 = None \<Longrightarrow> rec_rel d0 (buffered w FlushOut) (direct d FlushOut)"
  using rec_rel_commit [of d0 w d] by (simp add: rec_rel_def buffered_def direct_def rw_Flush_def Let_def)

lemma rec_rel_Write:
  assumes "rec_rel d0 w d" "de_Sent d0 = None"
  shows "rec_rel d0 (buffered w (WriteBytes v)) (direct d (WriteBytes v))"
proof (cases "rw_committed w")
  case True
  then show ?thesis using assms by (simp add: rec_rel_def buffered_def direct_def rw_Write_def)
next
  case False
  define w1 where "w1 = (if \<not> rw_wroteHeader w then rw_WriteHeader 200 w else w)"
  define d1 where "d1 = de_WriteHeader 200 d"
  have rel: "rec_rel d0 w1 d1" "\<not> rw_committed w1" "rw_wroteHeader w1"
    using assms False by (auto simp: w1_def d1_def rec_rel_def rw_WriteHeader_def de_WriteHeader_def)
  have d: "direct d (WriteBytes v) = d1\<lparr>de_Body := de_Body d1 @ v\<rparr>" by (simp add: direct_def de_Write_def d1_def Let_def)
  have "de_Sent d1 \<noteq> None" using rel by (auto simp: rec_rel_def)
  then have w: "de_Write v d1 = d1\<lparr>de_Body := de_Body d1 @ v\<rparr>" by (auto simp: de_Write_def de_WriteHeader_def)
  show ?thesis
  proof (cases "int (length v) \<le> int recoveryBufferLimit - int (length (rw_body w1))")
    case True
    then have "buffered w (WriteBytes v) = w1\<lparr>rw_body := rw_body w1 @ v\<rparr>" using False by (simp add: buffered_def rw_Write_def w1_def Let_def)
    then show ?thesis using rel d by (simp add: rec_rel_def)
  next
    case big: False
    then have "buffered w (WriteBytes v) = (rw_commit w1)\<lparr>rw_destination := de_Write v (rw_destination (rw_commit w1))\<rparr>"
      using False by (simp add: buffered_def rw_Write_def w1_def Let_def)
    then show ?thesis using rec_rel_commit [OF rel(1) assms(2)] d w by (simp add: rec_rel_def)
  qed
qed

lemma rec_rel_writes: "only_writes ops \<Longrightarrow> rec_rel d0 w d \<Longrightarrow> de_Sent d0 = None \<Longrightarrow> rec_rel d0 (foldl buffered w ops) (foldl direct d ops)"
proof (induction ops arbitrary: w d)
  case (Cons x ops)
  then show ?case using rec_rel_Status rec_rel_Write rec_rel_Flush by (cases x) simp_all
qed simp

lemma rec_rel_run:
  "headers_first ops \<Longrightarrow> rec_rel d0 w d \<Longrightarrow> de_Sent d0 = None \<Longrightarrow> \<not> rw_wroteHeader w \<Longrightarrow> \<not> rw_committed w \<Longrightarrow>
     rec_rel d0 (foldl buffered w ops) (foldl direct d ops)"
proof (induction ops arbitrary: w d)
  case (Cons x ops)
  show ?case
  proof (cases x)
    case (SetHeader k v)
    have "\<not> rw_wroteHeader (buffered w x)" "\<not> rw_committed (buffered w x)" using Cons.prems by (simp_all add: SetHeader buffered_def rw_SetHeader_def)
    then show ?thesis using Cons rec_rel_Set SetHeader by simp
  qed (use Cons.prems rec_rel_writes [of "x # ops" d0 w d] in simp_all)
qed simp

lemma committed_stays: "rw_committed w \<Longrightarrow> rw_committed (foldl buffered w ops)"
proof (induction ops arbitrary: w)
  case (Cons x ops)
  have "rw_committed (buffered w x)" using Cons.prems
    by (cases x) (simp_all add: buffered_def rw_SetHeader_def rw_WriteHeader_def rw_Write_def rw_Flush_def rw_commit_def)
  then show ?case using Cons.IH by simp
qed simp

lemma rw_commit_committed [simp]: "rw_committed (rw_commit w)"
  by (simp add: rw_commit_def Let_def)

text \<open>The writer commits exactly when it is flushed or the buffer would overflow.\<close>

definition overflows :: "nat \<Rightarrow> writer_op list \<Rightarrow> bool" where
  "overflows n ops \<longleftrightarrow> FlushOut \<in> set ops \<or> recoveryBufferLimit < n + sum_list (map op_bytes ops)"

lemma commits_iff:
  "\<not> rw_committed w \<Longrightarrow> length (rw_body w) \<le> recoveryBufferLimit \<Longrightarrow>
     (rw_committed (foldl buffered w ops) \<longleftrightarrow> overflows (length (rw_body w)) ops) \<and>
     (\<not> rw_committed (foldl buffered w ops) \<longrightarrow> rw_destination (foldl buffered w ops) = rw_destination w)"
proof (induction ops arbitrary: w)
  case (Cons x ops)
  show ?case
  proof (cases x)
    case FlushOut
    then have "rw_committed (buffered w x)" by (simp add: buffered_def rw_Flush_def Let_def)
    then show ?thesis using FlushOut committed_stays by (simp add: overflows_def)
  next
    case (WriteBytes v)
    define w1 where "w1 = (if \<not> rw_wroteHeader w then rw_WriteHeader 200 w else w)"
    have w1: "rw_body w1 = rw_body w" "\<not> rw_committed w1" "rw_destination w1 = rw_destination w" using Cons.prems by (simp_all add: w1_def rw_WriteHeader_def)
    show ?thesis
    proof (cases "length (rw_body w) + length v \<le> recoveryBufferLimit")
      case True
      then have "buffered w x = w1\<lparr>rw_body := rw_body w1 @ v\<rparr>"
        using Cons.prems w1 by (simp add: WriteBytes buffered_def rw_Write_def w1_def Let_def)
      then show ?thesis using Cons.IH [of "buffered w x"] w1 True by (simp add: WriteBytes overflows_def add.assoc)
    next
      case False
      then have "rw_committed (buffered w x)" using Cons.prems w1 by (simp add: WriteBytes buffered_def rw_Write_def Let_def rw_WriteHeader_def)
      then show ?thesis using False committed_stays by (simp add: WriteBytes overflows_def)
    qed
  next
    case (SetHeader k v)
    have "\<not> rw_committed (buffered w x)" "rw_body (buffered w x) = rw_body w" "rw_destination (buffered w x) = rw_destination w"
      using Cons.prems by (simp_all add: SetHeader buffered_def rw_SetHeader_def)
    then show ?thesis using Cons.prems Cons.IH [of "buffered w x"] SetHeader by (simp add: overflows_def)
  next
    case (WriteStatus st)
    have "\<not> rw_committed (buffered w x)" "rw_body (buffered w x) = rw_body w" "rw_destination (buffered w x) = rw_destination w"
      using Cons.prems by (simp_all add: WriteStatus buffered_def rw_WriteHeader_def)
    then show ?thesis using Cons.prems Cons.IH [of "buffered w x"] WriteStatus by (simp add: overflows_def)
  qed
qed (simp add: overflows_def)

text \<open>
  C34: recovery from panics. For a handler that sets its headers before it writes, on a connection on which nothing was
  sent: when it returns, the connection shows exactly what the handler would have sent without the middleware. When
  it panics with at most 64 KiB written and nothing flushed, the client gets the stable 500 answer and not a byte or
  header of the handler. When it panics later, the connection shows what was written and is aborted.
\<close>

theorem recovery_exact:
  assumes "de_Sent d = None" and "headers_first ops"
  shows "Recovery ops Returned d = (foldl direct d ops, False) \<and>
    Recovery ops Panicked d = (if overflows 0 ops then (foldl direct d ops, True) else (write_internal d, False))"
proof -
  let ?w = "foldl buffered (newRecoveryWriter d) ops"
  have rel: "rec_rel d ?w (foldl direct d ops)"
    using assms by (intro rec_rel_run rec_rel_new) (simp_all add: newRecoveryWriter_def)
  have commits: "(rw_committed ?w \<longleftrightarrow> overflows 0 ops) \<and> (\<not> rw_committed ?w \<longrightarrow> rw_destination ?w = d)"
    using commits_iff [of "newRecoveryWriter d" ops] by (simp add: newRecoveryWriter_def)
  then show ?thesis using rel rec_rel_commit [OF rel assms(1)] by (auto simp: Recovery_def rec_rel_def Let_def)
qed

text \<open>A handler that panics after it has announced a success.\<close>

definition fresh_connection :: destination where
  "fresh_connection = \<lparr>de_Header = [(''X-Request-ID'', ''r1'')], de_Sent = None, de_Info = [], de_Body = [], de_Flushes = 0\<rparr>"

theorem recovery_exact_witness:
  "fst (Recovery [SetHeader ''Set-Cookie'' ''s=1'', WriteStatus 200, WriteBytes ''secret''] Panicked fresh_connection) = write_internal fresh_connection"
  using recovery_exact [of fresh_connection "[SetHeader ''Set-Cookie'' ''s=1'', WriteStatus 200, WriteBytes ''secret'']"]
  by (simp add: fresh_connection_def overflows_def recoveryBufferLimit_def)

section \<open>Cross-origin headers\<close>

record CORSConfig =
  co_AllowedOrigins :: "string list"
  co_AllowedMethods :: "string list"
  co_AllowedHeaders :: "string list"
  co_ExposedHeaders :: "string list"
  co_AllowCredentials :: bool
  co_MaxAge :: int

definition CORSConfig_Validate :: "CORSConfig \<Rightarrow> string option" where
  "CORSConfig_Validate c =
     (if co_AllowCredentials c \<and> list_ex (\<lambda>origin. origin = ''*'') (co_AllowedOrigins c)
      then Some ''CORS wildcard origin cannot be combined with credentials'' else None)"

definition header_Add :: "string \<Rightarrow> string \<Rightarrow> (string \<times> string) list \<Rightarrow> (string \<times> string) list" where
  "header_Add k v hs = hs @ [(k, v)]"

text \<open>The headers of the response so far; \<open>True\<close> when the request goes on to the next handler, otherwise the answer is an empty 204.\<close>

definition CORS :: "CORSConfig \<Rightarrow> 'b request \<Rightarrow> (string \<times> string) list \<Rightarrow> (string \<times> string) list \<times> bool" where
  "CORS c r hs =
     (if CORSConfig_Validate c \<noteq> None then (hs, True)
      else
        let origin = hr_Header r ''Origin''; origins = (\<lambda>x. x \<in> set (co_AllowedOrigins c)); hs = header_Add ''Vary'' ''Origin'' hs in
        if origin = [] \<or> \<not> origins origin \<and> \<not> origins ''*'' then (hs, True)
        else
          let hs = header_Set ''Access-Control-Allow-Origin'' (if origins ''*'' \<and> \<not> co_AllowCredentials c then ''*'' else origin) hs;
              hs = (if co_AllowCredentials c then header_Set ''Access-Control-Allow-Credentials'' ''true'' hs else hs);
              exposed = join_with '', '' (co_ExposedHeaders c);
              hs = (if exposed \<noteq> [] then header_Set ''Access-Control-Expose-Headers'' exposed hs else hs)
          in if hr_Method r = ''OPTIONS'' \<and> hr_Header r ''Access-Control-Request-Method'' \<noteq> [] then
               (let hs = header_Add ''Vary'' ''Access-Control-Request-Method'' hs;
                    hs = header_Add ''Vary'' ''Access-Control-Request-Headers'' hs;
                    hs = header_Set ''Access-Control-Allow-Methods'' (join_with '', '' (co_AllowedMethods c)) hs;
                    hs = header_Set ''Access-Control-Allow-Headers'' (join_with '', '' (co_AllowedHeaders c)) hs;
                    hs = (if co_MaxAge c > 0 then header_Set ''Access-Control-Max-Age'' (FormatInt (go_div (co_MaxAge c) 1000000000)) hs else hs)
                in (hs, False))
             else (hs, True))"

lemma header_Set_set: "set (header_Set k v hs) = {x \<in> set hs. fst x \<noteq> k} \<union> {(k, v)}"
  by (auto simp: header_Set_def)

text \<open>An origin gets credentials only when it is listed itself.\<close>

lemma cors_credentials:
  assumes "''Access-Control-Allow-Credentials'' \<notin> fst ` set hs" "(''Access-Control-Allow-Credentials'', v) \<in> set (fst (CORS c r hs))"
  shows "(''Access-Control-Allow-Origin'', hr_Header r ''Origin'') \<in> set (fst (CORS c r hs)) \<and> hr_Header r ''Origin'' \<in> set (co_AllowedOrigins c)"
proof -
  have no: "(''Access-Control-Allow-Credentials'', v) \<notin> set hs" using assms(1) by force
  have "CORSConfig_Validate c = None" "co_AllowCredentials c" "hr_Header r ''Origin'' \<noteq> []"
    "hr_Header r ''Origin'' \<in> set (co_AllowedOrigins c) \<or> ''*'' \<in> set (co_AllowedOrigins c)"
    using assms(2) no by (auto simp: CORS_def Let_def header_Set_set header_Add_def split: if_splits)
  moreover from this(1,2) have "''*'' \<notin> set (co_AllowedOrigins c)" by (auto simp: CORSConfig_Validate_def list_ex_iff split: if_splits)
  ultimately show ?thesis by (auto simp: CORS_def Let_def header_Set_set header_Add_def)
qed

section \<open>Address of the client\<close>

text \<open>
  The addresses and prefixes of \<open>net/netip\<close> are the type parameters; its parser, \<open>Unmap\<close> and \<open>Contains\<close> are
  parameters.
\<close>

record ('a, 'p) netip =
  ni_ParseAddr :: "string \<Rightarrow> 'a option"
  ni_Unmap :: "'a \<Rightarrow> 'a"
  ni_Contains :: "'p \<Rightarrow> 'a \<Rightarrow> bool"

record 'a RequestMetadata =
  md_IPAddress :: "'a option"
  md_UserAgent :: string

definition trusted :: "('a, 'p) netip \<Rightarrow> 'p list \<Rightarrow> 'a \<Rightarrow> bool" where
  "trusted N proxies address = list_ex (\<lambda>q. ni_Contains N q address) proxies"

definition parseAddress :: "('a, 'p) netip \<Rightarrow> string \<Rightarrow> 'a option" where
  "parseAddress N v = map_option (ni_Unmap N) (ni_ParseAddr N (TrimSpace (case SplitHost v of Some host \<Rightarrow> host | None \<Rightarrow> v)))"

primrec chain_of :: "('a, 'p) netip \<Rightarrow> string list \<Rightarrow> 'a list option" where
  "chain_of N [] = Some []"
| "chain_of N (part # parts) = (case ni_ParseAddr N (TrimSpace part) of
      None \<Rightarrow> None
    | Some a \<Rightarrow> map_option (\<lambda>as. ni_Unmap N a # as) (chain_of N parts))"

definition forwardedChain :: "('a, 'p) netip \<Rightarrow> string \<Rightarrow> 'a list option" where
  "forwardedChain N v = (if TrimSpace v = [] then None else chain_of N (split_on CHR '','' v))"

text \<open>The loop from the last address to the first.\<close>

fun walk :: "('a \<Rightarrow> bool) \<Rightarrow> 'a \<Rightarrow> 'a list \<Rightarrow> 'a" where
  "walk t client [] = client"
| "walk t client (a # as) = (if \<not> t a then a else walk t a as)"

definition Extract :: "('a, 'p) netip \<Rightarrow> 'p list \<Rightarrow> 'b request \<Rightarrow> 'a RequestMetadata" where
  "Extract N proxies r =
     (case parseAddress N (hr_RemoteAddr r) of
        None \<Rightarrow> \<lparr>md_IPAddress = None, md_UserAgent = hr_Header r ''User-Agent''\<rparr>
      | Some peer \<Rightarrow>
          \<lparr>md_IPAddress = Some (if \<not> trusted N proxies peer then peer
             else case forwardedChain N (hr_Header r ''X-Forwarded-For'') of
               None \<Rightarrow> peer
             | Some fs \<Rightarrow> walk (trusted N proxies) peer (rev fs)),
           md_UserAgent = hr_Header r ''User-Agent''\<rparr>)"

lemma walk_trusted: "\<forall>a \<in> set ts. t a \<Longrightarrow> \<not> t x \<Longrightarrow> walk t c (ts @ x # as) = x"
  by (induction ts arbitrary: c) auto

lemma walk_all_trusted: "\<forall>a \<in> set ts. t a \<Longrightarrow> walk t c (ts @ [x]) = x"
  by (induction ts arbitrary: c) auto

text \<open>
  The keys under which requests are counted: the address of the connection, or of the client where the metadata of the
  request have one. \<open>str\<close> is \<open>netip.Addr.String\<close>.
\<close>

definition clientKey :: "'b request \<Rightarrow> string" where
  "clientKey r = (case SplitHost (hr_RemoteAddr r) of Some host \<Rightarrow> host | None \<Rightarrow> hr_RemoteAddr r)"

definition auditClientKey :: "('a \<Rightarrow> string) \<Rightarrow> 'a RequestMetadata \<Rightarrow> 'b request \<Rightarrow> string" where
  "auditClientKey str md r = (case md_IPAddress md of Some a \<Rightarrow> str a | None \<Rightarrow> hr_RemoteAddr r)"

text \<open>A client that connects directly is counted under its own address, whatever its request holds.\<close>

lemma direct_client_key:
  "parseAddress N (hr_RemoteAddr r) = Some peer \<Longrightarrow> \<not> trusted N proxies peer \<Longrightarrow> auditClientKey str (Extract N proxies r) r = str peer"
  by (simp add: auditClientKey_def Extract_def)

text \<open>
  C35: clients cannot choose their address. A peer that is no trusted proxy counts as the client whatever headers it
  sends. Behind a trusted proxy, the client is the last address of the forwarding header that no trusted proxy has,
  whatever stands before it in the header; when only trusted proxies are in the header, it is the first of them; and a
  header that does not parse counts for nothing, so that the peer is the client. Without an address of the peer there is
  no address. These are all cases.
\<close>

theorem client_address_not_spoofable:
  fixes N :: "('a, 'p) netip" and r :: "'b request"
  defines "chain \<equiv> forwardedChain N (hr_Header r ''X-Forwarded-For'')"
  shows "(parseAddress N (hr_RemoteAddr r) = None \<longrightarrow> md_IPAddress (Extract N proxies r) = None) \<and>
    (\<forall>peer. parseAddress N (hr_RemoteAddr r) = Some peer \<longrightarrow>
       (\<not> trusted N proxies peer \<longrightarrow> md_IPAddress (Extract N proxies r) = Some peer) \<and>
       (trusted N proxies peer \<and> chain = None \<longrightarrow> md_IPAddress (Extract N proxies r) = Some peer) \<and>
       (\<forall>forged x via. trusted N proxies peer \<and> chain = Some (forged @ x # via) \<and> \<not> trusted N proxies x \<and> (\<forall>a \<in> set via. trusted N proxies a) \<longrightarrow>
          md_IPAddress (Extract N proxies r) = Some x) \<and>
       (\<forall>x via. trusted N proxies peer \<and> chain = Some (x # via) \<and> (\<forall>a \<in> set (x # via). trusted N proxies a) \<longrightarrow>
          md_IPAddress (Extract N proxies r) = Some x)) \<and>
    md_UserAgent (Extract N proxies r) = hr_Header r ''User-Agent''"
proof -
  have last: "walk (trusted N proxies) peer (rev (forged @ x # via)) = x" if "\<not> trusted N proxies x" "\<forall>a \<in> set via. trusted N proxies a" for peer forged x via
    using walk_trusted [of "rev via" "trusted N proxies" x peer "rev forged"] that by simp
  have first: "walk (trusted N proxies) peer (rev (x # via)) = x" if "\<forall>a \<in> set (x # via). trusted N proxies a" for peer x via
    using walk_all_trusted [of "rev via" "trusted N proxies" peer x] that by simp
  show ?thesis
    unfolding chain_def by (auto simp: Extract_def last [simplified] first [simplified] split: option.split)
qed

text \<open>Addresses as texts, with one trusted proxy.\<close>

definition text_netip :: "(string, string) netip" where
  "text_netip = \<lparr>ni_ParseAddr = (\<lambda>s. if s = [] then None else Some s), ni_Unmap = id, ni_Contains = (=)\<rparr>"

definition forwarded_request :: "unit request" where
  "forwarded_request = \<lparr>hr_Method = ''GET'', hr_Path = ''/'', hr_Header = (\<lambda>h. if h = ''X-Forwarded-For'' then ''1.1.1.1, 7.7.7.7'' else []),
     hr_Query = (\<lambda>_. []), hr_Cookie = (\<lambda>_. None), hr_RemoteAddr = ''10.0.0.1:443'', hr_Body = ()\<rparr>"

theorem client_address_not_spoofable_witness: "md_IPAddress (Extract text_netip [''10.0.0.1''] forwarded_request) = Some ''7.7.7.7''"
proof -
  have "parseAddress text_netip (hr_RemoteAddr forwarded_request) = Some ''10.0.0.1''" by code_simp
  moreover have "forwardedChain text_netip (hr_Header forwarded_request ''X-Forwarded-For'') = Some ([''1.1.1.1''] @ ''7.7.7.7'' # [])" by code_simp
  moreover have "trusted text_netip [''10.0.0.1''] ''10.0.0.1''" "\<not> trusted text_netip [''10.0.0.1''] ''7.7.7.7''" by code_simp+
  ultimately show ?thesis using client_address_not_spoofable [of text_netip forwarded_request "[''10.0.0.1'']"] by (metis empty_iff list.set(1))
qed

end
