(* ===== verification/Admin_Seed.thy ===== *)
theory Admin_Seed
  imports Iam_Registration
begin

text \<open>
  Seeding of the bootstrap administrator: \<open>src/internal/app/admin.go\<close> and \<open>admin_atomic.go\<close>, on the queries of
  \<open>Iam_Db\<close>. PostgreSQL refuses every statement of a transaction after one that failed, which matters here because
  \<open>BootstrapAdmin\<close> goes on after a unique violation; \<open>seed_stmt\<close> keeps that. The hash function is a parameter.
\<close>

section \<open>Seeding\<close>

record AdminBootstrap =
  ab_Email :: string
  ab_Username :: string
  ab_Password :: string

datatype seed_error =
    HashPassword iam_error | LoadAdmin pg_error | LoadRole pg_error | AssignAdminRole pg_error
  | SeedDriver pg_error | BoundElsewhere | BindingConflict

text \<open>A statement of the transaction; the flag says that one has failed.\<close>

definition seed_stmt :: "(pg_error \<Rightarrow> seed_error) \<Rightarrow> 'a iam_query \<Rightarrow> (iam_db \<times> bool, seed_error, 'a) op" where
  "seed_stmt f q = (\<lambda>(s, failed).
     if failed then (Inl (f (PgError ''25P02'')), (next_call s, True))
     else case stmt no_interference q s of
       (Inr x, t) \<Rightarrow> (Inr x, (t, False))
     | (Inl e, t) \<Rightarrow> (Inl (f e), (t, e \<noteq> ErrNoRows)))"

definition isUniqueViolation :: "pg_error \<Rightarrow> bool" where
  "isUniqueViolation e \<longleftrightarrow> e = PgError ''23505''"

definition load_or_create :: "(string \<Rightarrow> iam_error + string) \<Rightarrow> AdminBootstrap \<Rightarrow> (iam_db \<times> bool, seed_error, UserRow) op" where
  "load_or_create hash input s =
     (case seed_stmt LoadAdmin (GetUserByEmail (ab_Email input)) s of
        (Inl (LoadAdmin ErrNoRows), t) \<Rightarrow>
          (case hash (ab_Password input) of
             Inl e \<Rightarrow> (Inl (HashPassword e), t)
           | Inr h \<Rightarrow>
               (case seed_stmt LoadAdmin (CreateUser (ab_Email input) (ab_Username input) h ''Administrator'') t of
                  (Inl (LoadAdmin e), u) \<Rightarrow>
                    if isUniqueViolation e then seed_stmt LoadAdmin (GetUserByEmail (ab_Email input)) u else (Inl (LoadAdmin e), u)
                | r \<Rightarrow> r))
      | r \<Rightarrow> r)"

definition BootstrapAdmin :: "(string \<Rightarrow> iam_error + string) \<Rightarrow> AdminBootstrap \<Rightarrow> (iam_db \<times> bool, seed_error, unit) op" where
  "BootstrapAdmin hash input =
     bindE (load_or_create hash input) (\<lambda>user.
     bindE (seed_stmt LoadRole (GetRoleByName ''admin'')) (\<lambda>r.
     seed_stmt AssignAdminRole (AssignUserRole (us_id user) (ro_id r))))"

definition seed_tx :: "(string \<Rightarrow> iam_error + string) \<Rightarrow> AdminBootstrap \<Rightarrow> (iam_db \<times> bool, seed_error, unit) op" where
  "seed_tx hash input =
     bindE (seed_stmt SeedDriver LockAuthenticationSettings) (\<lambda>a.
     bindE (case as_bootstrap_admin_user_id a of
         None \<Rightarrow> retE ()
       | Some i \<Rightarrow> bindE (seed_stmt SeedDriver (GetUserByID i)) (\<lambda>user.
           if us_email user \<noteq> ab_Email input then failE BoundElsewhere else retE ())) (\<lambda>_.
     bindE (BootstrapAdmin hash input) (\<lambda>_.
     bindE (seed_stmt SeedDriver (GetUserByEmail (ab_Email input))) (\<lambda>user.
     bindE (seed_stmt SeedDriver (BindBootstrapAdmin (us_id user))) (\<lambda>n.
     if n \<noteq> 1 then failE BindingConflict else retE ())))))"

definition SeedBootstrapAdmin ::
    "(nat \<Rightarrow> iam_db \<Rightarrow> iam_db) \<Rightarrow> (string \<Rightarrow> string) \<Rightarrow> (string \<Rightarrow> iam_error + string) \<Rightarrow> AdminBootstrap \<Rightarrow> (iam_db, seed_error tx_error, unit) op" where
  "SeedBootstrapAdmin env ulower hash input =
     (let input = input\<lparr>ab_Email := ToLower ulower (TrimSpace (ab_Email input))\<rparr> in
      RunInTx env (\<lambda>s. case seed_tx hash input (s, False) of (r, (t, _)) \<Rightarrow> (r, t)))"

section \<open>What a success means\<close>

lemma seed_stmt_Inr:
  assumes "seed_stmt f q (s, failed) = (Inr x, (t, b))"
  shows "\<not> failed \<and> \<not> b \<and> (\<exists>s1. q s = Inr (x, s1) \<and> t = next_call s1)"
proof -
  obtain r u where r: "stmt no_interference q s = (r, u)" by force
  then have "\<not> failed \<and> \<not> b \<and> r = Inr x \<and> u = t" using assms by (cases r) (simp_all add: seed_stmt_def split: if_splits)
  then show ?thesis using r by (auto simp: stmt_Inr no_interference_def)
qed

lemma seed_stmt_no_rows:
  assumes "seed_stmt LoadAdmin q (s, failed) = (Inl (LoadAdmin ErrNoRows), (t, b))"
  shows "q s = Inl ErrNoRows \<and> t = next_call s \<and> \<not> failed \<and> \<not> b"
proof -
  obtain r u where r: "stmt no_interference q s = (r, u)" by force
  then have r': "\<not> failed \<and> \<not> b \<and> r = Inl ErrNoRows \<and> u = t" using assms by (cases r) (auto simp: seed_stmt_def split: if_splits)
  have "q s = Inl ErrNoRows \<and> t = next_call s"
    using r r' by (auto simp: stmt_def no_interference_def Let_def split: net.splits sum.splits if_splits)
  then show ?thesis using r' by simp
qed

lemma find_append_none: "\<not> (\<exists>x \<in> set xs. P x) \<Longrightarrow> P y \<Longrightarrow> find P (xs @ [y]) = Some y"
  by (induction xs) auto

lemma one_none: "one P xs s = Inl ErrNoRows \<longleftrightarrow> \<not> (\<exists>x \<in> set xs. P x)"
  by (auto simp: one_def find_None_iff find_Some_iff split: option.splits)

lemma seed_stmt_Inl: "seed_stmt f q s = (Inl e, t) \<Longrightarrow> \<exists>e'. e = f e'"
  by (cases s) (auto simp: seed_stmt_def split: if_splits prod.splits sum.splits)

text \<open>Everything but the users is as before; the user is there, or was created.\<close>

lemma load_or_create_Inr:
  assumes "load_or_create hash input (s, False) = (Inr u, (t, b))"
  shows "\<not> b \<and> settings t = settings s \<and> roles t = roles s \<and> user_roles t = user_roles s \<and> find (\<lambda>x. us_email x = ab_Email input) (users t) = Some u \<and>
    (if ab_Email input \<in> us_email ` set (users s) then users t = users s
     else (\<exists>h. hash (ab_Password input) = Inr h \<and> users t = users s @ [u] \<and> us_password_hash u = h \<and> us_is_active u))"
proof -
  obtain r s1 b1 where get: "seed_stmt LoadAdmin (GetUserByEmail (ab_Email input)) (s, False) = (r, (s1, b1))" by (metis prod.exhaust)
  show ?thesis
  proof (cases "r = Inl (LoadAdmin ErrNoRows)")
    case True
    note none = seed_stmt_no_rows [OF get [unfolded True]]
    then have new: "ab_Email input \<notin> us_email ` set (users s)" by (auto simp: GetUserByEmail_def one_none)
    obtain h where h: "hash (ab_Password input) = Inr h" using assms get True by (auto simp: load_or_create_def split: sum.splits)
    obtain r2 s2 b2 where create: "seed_stmt LoadAdmin (CreateUser (ab_Email input) (ab_Username input) h ''Administrator'') (s1, b1) = (r2, (s2, b2))" by (metis prod.exhaust)
    have "r2 = Inr u \<and> s2 = t \<and> b2 = b"
    proof (cases r2)
      case (Inr x)
      then show ?thesis using assms get True h create by (simp add: load_or_create_def)
    next
      case (Inl e)
      obtain e' where e': "e = LoadAdmin e'" using seed_stmt_Inl [OF create [unfolded Inl]] by blast
      have "isUniqueViolation e' \<Longrightarrow> b2" using create Inl e' none by (auto simp: seed_stmt_def isUniqueViolation_def split: prod.splits sum.splits)
      then have False using assms get True h create Inl e' by (auto simp: load_or_create_def seed_stmt_def split: if_splits)
      then show ?thesis ..
    qed
    then have "\<not> b" "\<exists>s3. CreateUser (ab_Email input) (ab_Username input) h ''Administrator'' s1 = Inr (u, s3) \<and> t = next_call s3"
      using seed_stmt_Inr [of LoadAdmin "CreateUser (ab_Email input) (ab_Username input) h ''Administrator''" s1 b1 u t b] create by simp_all
    moreover have "find (\<lambda>x. us_email x = ab_Email input) (users s @ [v]) = Some v" if "us_email v = ab_Email input" for v
      using new that by (intro find_append_none) force+
    ultimately show ?thesis using none new h by (auto simp: CreateUser_def Let_def next_call_def split: if_splits)
  next
    case False
    have "r = Inr u \<and> s1 = t \<and> b1 = b"
    proof (cases r)
      case (Inl e)
      obtain e' where "e = LoadAdmin e'" using seed_stmt_Inl [OF get [unfolded Inl]] by blast
      then show ?thesis using assms get Inl False by (cases e') (simp_all add: load_or_create_def)
    qed (use assms get in \<open>simp add: load_or_create_def\<close>)
    then have e: "r = Inr u" "s1 = t" "b1 = b" by simp_all
    from seed_stmt_Inr [OF get [unfolded e]] have f: "\<not> b" "find (\<lambda>x. us_email x = ab_Email input) (users s) = Some u" "t = next_call s" by (auto simp: GetUserByEmail_def)
    then have "u \<in> set (users s)" "us_email u = ab_Email input" by (auto simp: find_Some_iff)
    then have "ab_Email input \<in> us_email ` set (users s)" by force
    then show ?thesis using f by (simp add: next_call_def)
  qed
qed

lemma BootstrapAdmin_Inr:
  assumes "BootstrapAdmin hash input (s, False) = (Inr x, (t, b))"
  shows "\<not> b \<and> settings t = settings s \<and> (\<exists>u. find (\<lambda>x. us_email x = ab_Email input) (users t) = Some u \<and>
    (\<exists>r \<in> set (roles t). ro_name r = ''admin'' \<and> (us_id u, ro_id r) \<in> set (user_roles t)) \<and>
    (if ab_Email input \<in> us_email ` set (users s) then users t = users s
     else (\<exists>h. hash (ab_Password input) = Inr h \<and> users t = users s @ [u] \<and> us_password_hash u = h \<and> us_is_active u)))"
proof -
  obtain u r s1 b1 s2 b2 where u: "load_or_create hash input (s, False) = (Inr u, (s1, b1))"
    and r: "seed_stmt LoadRole (GetRoleByName ''admin'') (s1, b1) = (Inr r, (s2, b2))"
    and a: "seed_stmt AssignAdminRole (AssignUserRole (us_id u) (ro_id r)) (s2, b2) = (Inr x, (t, b))"
    using assms by (auto simp: BootstrapAdmin_def bindE_eq_Inr)
  have r': "r \<in> set (roles s1)" "ro_name r = ''admin''" "s2 = next_call s1"
    using seed_stmt_Inr [OF r] by (auto simp: GetRoleByName_def find_Some_iff)
  obtain s3 where a': "AssignUserRole (us_id u) (ro_id r) s2 = Inr (x, s3)" "t = next_call s3" "\<not> b" using seed_stmt_Inr [OF a] by blast
  then have "(us_id u, ro_id r) \<in> set (user_roles t)" "users t = users s1" "roles t = roles s1" "settings t = settings s1"
    using r' by (auto simp: AssignUserRole_def next_call_def split: if_splits)
  then show ?thesis using load_or_create_Inr [OF u] r' a' by auto
qed

lemma seed_tx_Inr:
  assumes run: "seed_tx hash input (s, False) = (Inr x, (t, b))" and row: "settings s = [a]"
  shows "\<exists>u \<in> set (users t). us_email u = ab_Email input \<and> settings t = [a\<lparr>as_bootstrap_admin_user_id := Some (us_id u)\<rparr>] \<and>
    as_bootstrap_admin_user_id a \<in> {None, Some (us_id u)} \<and>
    (\<exists>r \<in> set (roles t). ro_name r = ''admin'' \<and> (us_id u, ro_id r) \<in> set (user_roles t)) \<and>
    (if ab_Email input \<in> us_email ` set (users s) then users t = users s
     else (\<exists>h. hash (ab_Password input) = Inr h \<and> users t = users s @ [u] \<and> us_password_hash u = h \<and> us_is_active u))"
proof -
  obtain a' s1 b1 y s2 b2 z s3 b3 u s4 b4 n where lock: "seed_stmt SeedDriver LockAuthenticationSettings (s, False) = (Inr a', (s1, b1))"
    and bound: "(case as_bootstrap_admin_user_id a' of
         None \<Rightarrow> retE ()
       | Some i \<Rightarrow> bindE (seed_stmt SeedDriver (GetUserByID i)) (\<lambda>user.
           if us_email user \<noteq> ab_Email input then failE BoundElsewhere else retE ())) (s1, b1) = (Inr y, (s2, b2))"
    and boot: "BootstrapAdmin hash input (s2, b2) = (Inr z, (s3, b3))"
    and get: "seed_stmt SeedDriver (GetUserByEmail (ab_Email input)) (s3, b3) = (Inr u, (s4, b4))"
    and bind: "seed_stmt SeedDriver (BindBootstrapAdmin (us_id u)) (s4, b4) = (Inr n, (t, b))" and n: "n = 1"
    using run by (auto simp: seed_tx_def bindE_eq_Inr split: if_splits) 
  have l: "a' = a" "s1 = next_call s" "\<not> b1" using seed_stmt_Inr [OF lock] row by (auto simp: LockAuthenticationSettings_def split: if_splits)
  have "\<not> b2 \<and> settings s2 = settings s \<and> users s2 = users s"
    using bound l by (auto simp: bindE_eq_Inr next_call_def GetUserByID_def dest!: seed_stmt_Inr split: option.splits if_splits)
  then have s2: "b2 = False" "settings s2 = [a]" "users s2 = users s" using row by auto
  note bt = BootstrapAdmin_Inr [OF boot [unfolded s2(1)], unfolded s2]
  have g: "find (\<lambda>x. us_email x = ab_Email input) (users s3) = Some u" "s4 = next_call s3"
    using seed_stmt_Inr [OF get] by (auto simp: GetUserByEmail_def)
  then have u: "u \<in> set (users s3)" "us_email u = ab_Email input" by (auto simp: find_Some_iff)
  obtain s5 where "BindBootstrapAdmin (us_id u) s4 = Inr (1, s5)" "t = next_call s5" using seed_stmt_Inr [OF bind] n by blast
  then have "settings t = [a\<lparr>as_bootstrap_admin_user_id := Some (us_id u)\<rparr>]" "bindable (us_id u) a" "users t = users s3" "roles t = roles s3" "user_roles t = user_roles s3"
    using g bt by (auto simp: BindBootstrapAdmin_def next_call_def split: if_splits)
  then show ?thesis using bt g u by (auto simp: bindable_def)
qed

text \<open>
  C33: seeding is safe to repeat. When it succeeds, the single row of settings is bound to the user with the given
  address, who has the role \<open>admin\<close>; a binding that existed is kept. A user who existed keeps the password and all
  other data, no other user appears, and a new user has the hash of the given password. When it fails before the
  commit was asked for, the tables are those that the transaction began with.
\<close>

theorem seed_administrator_exact:
  assumes start: "s0 = env (db_calls s) s" and row: "settings s0 = [a]"
    and email: "email = ToLower ulower (TrimSpace (ab_Email input))"
    and run: "SeedBootstrapAdmin env ulower hash input s = (r, t)" and "r \<noteq> Inl CommitFailed"
  shows "case r of
      Inl _ \<Rightarrow> users t = users s0 \<and> settings t = settings s0 \<and> user_roles t = user_roles s0
    | Inr _ \<Rightarrow> (\<exists>u \<in> set (users t). us_email u = email \<and> settings t = [a\<lparr>as_bootstrap_admin_user_id := Some (us_id u)\<rparr>] \<and>
        as_bootstrap_admin_user_id a \<in> {None, Some (us_id u)} \<and>
        (\<exists>r \<in> set (roles t). ro_name r = ''admin'' \<and> (us_id u, ro_id r) \<in> set (user_roles t)) \<and>
        (if email \<in> us_email ` set (users s0) then users t = users s0
         else (\<exists>h. hash (ab_Password input) = Inr h \<and> users t = users s0 @ [u] \<and> us_password_hash u = h \<and> us_is_active u)))"
  using run [unfolded SeedBootstrapAdmin_def Let_def]
proof (cases rule: RunInTx_cases)
  case (committed x t')
  then obtain b where tx: "seed_tx hash (input\<lparr>ab_Email := email\<rparr>) (next_call s0, False) = (Inr x, (t', b))"
    using start email by (auto split: prod.splits)
  have "settings (next_call s0) = [a]" using row by (simp add: next_call_def)
  note sd = seed_tx_Inr [OF tx this]
  have nc: "users (next_call x) = users x" "settings (next_call x) = settings x" "roles (next_call x) = roles x" "user_roles (next_call x) = user_roles x" for x
    by (simp_all add: next_call_def)
  have "t = next_call t'" "r = Inr x" by (fact committed)+
  then show ?thesis using sd [unfolded nc] by (cases "email \<in> us_email ` set (users s0)") (auto simp: nc)
qed (use assms in \<open>auto simp: next_call_def rollback_to_def\<close>)

text \<open>A second seed with another password.\<close>

definition sample_seed :: AdminBootstrap where
  "sample_seed = \<lparr>ab_Email = '' A@b '', ab_Username = ''other'', ab_Password = ''changed''\<rparr>"

theorem seed_administrator_exact_witness:
  "fst (SeedBootstrapAdmin no_interference id (\<lambda>p. Inr p) sample_seed sample_iam) = Inr () \<and>
   users (snd (SeedBootstrapAdmin no_interference id (\<lambda>p. Inr p) sample_seed sample_iam)) = users sample_iam"
proof -
  let ?run = "SeedBootstrapAdmin no_interference id (\<lambda>p. Inr p) sample_seed sample_iam"
  have ok: "fst ?run = Inr ()" by code_simp
  have email: "''a@b'' = ToLower id (TrimSpace (ab_Email sample_seed))" by code_simp
  have known: "''a@b'' \<in> us_email ` set (users sample_iam)" by code_simp
  obtain a where row: "settings sample_iam = [a]" by (simp add: sample_iam_def)
  show ?thesis
    using seed_administrator_exact [OF _ row email, of no_interference sample_iam "\<lambda>p. Inr p" "Inr ()" "snd ?run"] ok known
    by (auto simp: no_interference_def prod_eq_iff)
qed

end
