(* ===== verification/Scheduling.thy ===== *)
theory Scheduling
  imports Task_Service Audit_Trail
begin

text \<open>
  The scheduler process: the registrar that keeps asynq's periodic entries in step with the schedules of the
  database (\<open>src/pkg/platform/scheduler\<close>) and the tasks it registers (\<open>buildScheduledTask\<close> of
  \<open>src/internal/app/tasks.go\<close>). Asynq's scheduler is a parameter with the contract \<open>periodic\<close>; JSON, SHA-256 and the
  order in which Go iterates over a map are parameters.
\<close>

section \<open>Registrar\<close>

record sched_task =
  kt_Type :: string
  kt_Payload :: string
  kt_Queue :: string
  kt_MaxRetry :: int
  kt_Timeout :: int

record fingerprint_fields =
  ff_DefinitionID :: string
  ff_CronExpression :: string
  ff_Timezone :: string
  ff_Payload :: string
  ff_TaskType :: string
  ff_MaxRetries :: int
  ff_Timeout :: int

text \<open>
  What the registrar uses of other packages. The encoder writes a raw message compacted, and gives nothing when it is no
  JSON; the encoders of the structures take the compacted message.
\<close>

record sched_codec =
  kc_compact :: "string \<Rightarrow> string option"
  kc_submission :: "ScheduledSubmission \<Rightarrow> string option"
  kc_fields :: "fingerprint_fields \<Rightarrow> string option"
  kc_sha256 :: "string \<Rightarrow> string"

record ('w, 'e) PeriodicScheduler =
  ps_Register :: "string \<Rightarrow> sched_task \<Rightarrow> ('w, 'e, string) op"
  ps_Unregister :: "string \<Rightarrow> ('w, 'e, unit) op"

record scheduleEntry =
  se_entryID :: string
  se_fingerprint :: string

type_synonym entries = "string \<rightharpoonup> scheduleEntry"

datatype 'e sched_error =
    ContextDone | FingerprintFailed string | BuildFailed string | RegisterFailed string 'e
  | ReplacedNotUnregistered string 'e | RemovedNotUnregistered string 'e

definition scheduleSpec :: "Schedule \<Rightarrow> string" where
  "scheduleSpec s = (if sc_Timezone s = [] then sc_CronExpression s
     else ''CRON_TZ='' @ sc_Timezone s @ '' '' @ sc_CronExpression s)"

definition fingerprint_of :: "sched_codec \<Rightarrow> Schedule \<Rightarrow> fingerprint_fields option" where
  "fingerprint_of c s = map_option (\<lambda>payload. \<lparr>ff_DefinitionID = sc_DefinitionID s, ff_CronExpression = sc_CronExpression s, ff_Timezone = sc_Timezone s,
     ff_Payload = payload, ff_TaskType = sc_TaskType s, ff_MaxRetries = sc_MaxRetries s, ff_Timeout = sc_Timeout s\<rparr>) (kc_compact c (sc_Payload s))"

definition scheduleFingerprint :: "sched_codec \<Rightarrow> Schedule \<Rightarrow> string option" where
  "scheduleFingerprint c s = map_option (\<lambda>enc. hex_encode (kc_sha256 c enc)) (Option.bind (fingerprint_of c s) (kc_fields c))"

definition buildScheduledTask :: "sched_codec \<Rightarrow> string \<Rightarrow> Schedule \<Rightarrow> sched_task option" where
  "buildScheduledTask c queue s =
     map_option (\<lambda>encoded. \<lparr>kt_Type = ''system.schedule.dispatch'', kt_Payload = encoded, kt_Queue = queue, kt_MaxRetry = 3, kt_Timeout = 30 * Second\<rparr>)
       (Option.bind (kc_compact c (sc_Payload s)) (\<lambda>payload. kc_submission c
          \<lparr>ss_DefinitionID = sc_DefinitionID s, ss_TaskType = sc_TaskType s, ss_Payload = payload, ss_MaxRetries = sc_MaxRetries s, ss_Timeout = sc_Timeout s\<rparr>))"

text \<open>One schedule: nothing when it is unchanged; otherwise the new entry is registered before the old one goes.\<close>

definition install ::
    "('w, 'e) PeriodicScheduler \<Rightarrow> sched_codec \<Rightarrow> string \<Rightarrow> Schedule \<Rightarrow> entries \<times> 'w \<Rightarrow> ('e sched_error + unit) \<times> entries \<times> 'w" where
  "install P c queue s = (\<lambda>(es, w).
     case scheduleFingerprint c s of
       None \<Rightarrow> (Inl (FingerprintFailed (sc_ID s)), es, w)
     | Some fp \<Rightarrow>
         if (case es (sc_ID s) of Some e \<Rightarrow> se_fingerprint e = fp | None \<Rightarrow> False) then (Inr (), es, w)
         else case buildScheduledTask c queue s of
           None \<Rightarrow> (Inl (BuildFailed (sc_ID s)), es, w)
         | Some task \<Rightarrow> (case ps_Register P (scheduleSpec s) task w of
             (Inl err, w1) \<Rightarrow> (Inl (RegisterFailed (sc_ID s) err), es, w1)
           | (Inr entryID, w1) \<Rightarrow>
               let es' = es(sc_ID s \<mapsto> \<lparr>se_entryID = entryID, se_fingerprint = fp\<rparr>) in
               (case es (sc_ID s) of
                  None \<Rightarrow> (Inr (), es', w1)
                | Some current \<Rightarrow> (case ps_Unregister P (se_entryID current) w1 of
                    (Inl err, w2) \<Rightarrow> (Inl (ReplacedNotUnregistered (sc_ID s) err), es, snd (ps_Unregister P entryID w2))
                  | (Inr _, w2) \<Rightarrow> (Inr (), es', w2)))))"

fun install_all ::
    "('w, 'e) PeriodicScheduler \<Rightarrow> sched_codec \<Rightarrow> string \<Rightarrow> ('w \<Rightarrow> bool) \<Rightarrow> Schedule list \<Rightarrow> entries \<times> 'w \<Rightarrow> ('e sched_error + unit) \<times> entries \<times> 'w" where
  "install_all P c queue cancelled [] st = (Inr (), st)"
| "install_all P c queue cancelled (s # ss) st =
     (if \<not> sc_Enabled s then install_all P c queue cancelled ss st
      else if cancelled (snd st) then (Inl ContextDone, st)
      else case install P c queue s st of
        (Inl e, st') \<Rightarrow> (Inl e, st')
      | (Inr _, st') \<Rightarrow> install_all P c queue cancelled ss st')"

fun remove_all ::
    "('w, 'e) PeriodicScheduler \<Rightarrow> ('w \<Rightarrow> bool) \<Rightarrow> string set \<Rightarrow> string list \<Rightarrow> entries \<times> 'w \<Rightarrow> ('e sched_error + unit) \<times> entries \<times> 'w" where
  "remove_all P cancelled desired [] st = (Inr (), st)"
| "remove_all P cancelled desired (i # is) (es, w) =
     (case es i of
        None \<Rightarrow> remove_all P cancelled desired is (es, w)
      | Some e \<Rightarrow>
          if i \<in> desired then remove_all P cancelled desired is (es, w)
          else if cancelled w then (Inl ContextDone, es, w)
          else case ps_Unregister P (se_entryID e) w of
            (Inl err, w1) \<Rightarrow> (Inl (RemovedNotUnregistered i err), es, w1)
          | (Inr _, w1) \<Rightarrow> remove_all P cancelled desired is (es(i := None), w1))"

text \<open>\<open>order\<close> lists the keys of a map in the order of an iteration.\<close>

definition Replace ::
    "('w, 'e) PeriodicScheduler \<Rightarrow> sched_codec \<Rightarrow> string \<Rightarrow> ('w \<Rightarrow> bool) \<Rightarrow> (entries \<Rightarrow> string list) \<Rightarrow> Schedule list
      \<Rightarrow> entries \<times> 'w \<Rightarrow> ('e sched_error + unit) \<times> entries \<times> 'w" where
  "Replace P c queue cancelled order ss st =
     (case install_all P c queue cancelled ss st of
        (Inl e, st') \<Rightarrow> (Inl e, st')
      | (Inr _, st') \<Rightarrow> remove_all P cancelled (sc_ID ` set (filter sc_Enabled ss)) (order (fst st')) st')"

text \<open>\<open>Refresher.Refresh\<close> with the schedules of the database as its source.\<close>

datatype 'e refresh_error = ListFailed store_error | ReplaceFailed "'e sched_error"

definition Refresh ::
    "task_env \<Rightarrow> ('w, 'e) PeriodicScheduler \<Rightarrow> sched_codec \<Rightarrow> string \<Rightarrow> ('w \<Rightarrow> bool) \<Rightarrow> (entries \<Rightarrow> string list)
      \<Rightarrow> (entries \<times> 'w) \<times> task_db \<Rightarrow> ('e refresh_error + unit) \<times> (entries \<times> 'w) \<times> task_db" where
  "Refresh env P c queue cancelled order = (\<lambda>(st, d).
     case ListEnabledSchedules env d of
       (Inl e, d') \<Rightarrow> (Inl (ListFailed e), st, d')
     | (Inr ss, d') \<Rightarrow> (case Replace P c queue cancelled order ss st of
           (Inl e, st') \<Rightarrow> (Inl (ReplaceFailed e), st', d')
         | (Inr _, st') \<Rightarrow> (Inr (), st', d')))"

text \<open>
  A random UUID of version 4: the two masked bytes keep four and six of their bits. \<open>rnd\<close> are the sixteen bytes of the
  random source, \<open>clock\<close> is the text of the time that takes their place when it fails.
\<close>

definition newUUID :: "string option \<Rightarrow> string \<Rightarrow> string" where
  "newUUID rnd clock = (case rnd of
      None \<Rightarrow> hex_encode clock
    | Some value \<Rightarrow>
        let v1 = value[6 := char_of (of_char (value ! 6) mod 16 + 64 :: nat)];
            v2 = v1[8 := char_of (of_char (v1 ! 8) mod 64 + 128 :: nat)];
            encoded = hex_encode v2 in
        take 8 encoded @ ''-'' @ take 4 (drop 8 encoded) @ ''-'' @ take 4 (drop 12 encoded) @ ''-'' @ take 4 (drop 16 encoded) @ ''-'' @ drop 20 encoded)"

text \<open>\<open>schedulerRuntime.refreshSchedules\<close>: every pass is recorded, and the record does not change its result.\<close>

definition refreshSchedules ::
    "'m BestEffortRecorder option \<Rightarrow> string option \<Rightarrow> string \<Rightarrow> task_env \<Rightarrow> ('w, 'e) PeriodicScheduler \<Rightarrow> sched_codec \<Rightarrow> string \<Rightarrow> ('w \<Rightarrow> bool)
      \<Rightarrow> (entries \<Rightarrow> string list) \<Rightarrow> ((entries \<times> 'w) \<times> task_db) \<times> audit_world \<Rightarrow> ('e refresh_error + unit) \<times> ((entries \<times> 'w) \<times> task_db) \<times> audit_world" where
  "refreshSchedules rec rnd clock env P c queue cancelled order = (\<lambda>(st, a).
     let (r, st') = Refresh env P c queue cancelled order st;
         (r', a') = Preserve rec
           \<lparr>ne_RequestID = ''scheduler-'' @ newUUID rnd clock, ne_ActorID = None, ne_Action = ''scheduling.refresh'',
            ne_Result = (case r of Inl _ \<Rightarrow> ResultFailure | Inr _ \<Rightarrow> ResultSuccess), ne_ResourceType = ''task_schedule'', ne_ResourceID = [],
            ne_IPAddress = None, ne_UserAgent = [], ne_Metadata = None\<rparr> r a
     in (r', st', a'))"

lemma refreshSchedules_transparent:
  "fst (refreshSchedules rec rnd clock env P c queue cancelled order (st, a)) = fst (Refresh env P c queue cancelled order st)"
  "fst (snd (refreshSchedules rec rnd clock env P c queue cancelled order (st, a))) = snd (Refresh env P c queue cancelled order st)"
  by (simp_all add: refreshSchedules_def Preserve_def split: prod.split option.split sum.split)

text \<open>With a working random source the identifier is one that \<open>parseUUID\<close> accepts.\<close>

lemma newUUID_parses:
  assumes "length value = 16"
  shows "\<exists>bs. parseUUID (newUUID (Some value) clock) = Some bs"
proof -
  let ?v1 = "value[6 := char_of (of_char (value ! 6) mod 16 + 64 :: nat)]"
  let ?v2 = "?v1[8 := char_of (of_char (?v1 ! 8) mod 64 + 128 :: nat)]"
  have len: "length ?v2 = 16" using assms by simp
  then have "newUUID (Some value) clock = formatUUID (Some ?v2)" by (simp add: newUUID_def formatUUID_def Let_def)
  then show ?thesis using parseUUID_formatUUID [OF len] by auto
qed

section \<open>Entries in step with schedules\<close>

text \<open>Relied on of JSON and SHA-256: schedules that differ, other than in the white space of their payloads, have different
  fingerprints.\<close>

definition collision_free :: "sched_codec \<Rightarrow> bool" where
  "collision_free c \<longleftrightarrow> (\<forall>s s' fp. scheduleFingerprint c s = Some fp \<longrightarrow> scheduleFingerprint c s' = Some fp \<longrightarrow> fingerprint_of c s = fingerprint_of c s')"

text \<open>The entry of a schedule, as asynq holds it.\<close>

definition entry_of :: "sched_codec \<Rightarrow> string \<Rightarrow> Schedule \<Rightarrow> (string \<times> sched_task) option" where
  "entry_of c queue s = map_option (\<lambda>task. (scheduleSpec s, task)) (buildScheduledTask c queue s)"

lemma entry_of_fields: "fingerprint_of c s = fingerprint_of c s' \<Longrightarrow> fingerprint_of c s \<noteq> None \<Longrightarrow> entry_of c queue s = entry_of c queue s'"
  by (auto simp: fingerprint_of_def entry_of_def scheduleSpec_def buildScheduledTask_def)

lemma fingerprint_fields_exist: "scheduleFingerprint c s = Some fp \<Longrightarrow> fingerprint_of c s \<noteq> None"
  by (auto simp: scheduleFingerprint_def bind_eq_Some_conv)

text \<open>
  The registrar's map and the entries \<open>I\<close> of asynq: every entry of the map is installed with the content of its
  fingerprint, no two share an identifier, and nothing else is installed.
\<close>

definition backed :: "sched_codec \<Rightarrow> string \<Rightarrow> scheduleEntry \<Rightarrow> (string \<rightharpoonup> string \<times> sched_task) \<Rightarrow> bool" where
  "backed c queue e I \<longleftrightarrow> (\<exists>s x. scheduleFingerprint c s = Some (se_fingerprint e) \<and> entry_of c queue s = Some x \<and> I (se_entryID e) = Some x)"

definition own_ids :: "entries \<Rightarrow> bool" where
  "own_ids es \<longleftrightarrow> (\<forall>i j e f. es i = Some e \<longrightarrow> es j = Some f \<longrightarrow> se_entryID e = se_entryID f \<longrightarrow> i = j)"

definition in_step :: "sched_codec \<Rightarrow> string \<Rightarrow> entries \<Rightarrow> (string \<rightharpoonup> string \<times> sched_task) \<Rightarrow> bool" where
  "in_step c queue es I \<longleftrightarrow> finite (dom es) \<and> (\<forall>i e. es i = Some e \<longrightarrow> backed c queue e I) \<and> own_ids es \<and>
     (\<forall>k. I k \<noteq> None \<longrightarrow> (\<exists>i e. es i = Some e \<and> se_entryID e = k))"

lemma in_stepD:
  assumes "in_step c queue es I"
  shows "es i = Some e \<Longrightarrow> backed c queue e I" "own_ids es" "I k \<noteq> None \<Longrightarrow> \<exists>i e. es i = Some e \<and> se_entryID e = k" "finite (dom es)"
  using assms by (simp_all add: in_step_def)

lemma backed_installed: "backed c queue e I \<Longrightarrow> I (se_entryID e) \<noteq> None"
  by (auto simp: backed_def)

lemma backed_other: "backed c queue e I \<Longrightarrow> se_entryID e \<noteq> k \<Longrightarrow> backed c queue e (I(k := y))"
  by (simp add: backed_def)

definition scheduled :: "sched_codec \<Rightarrow> string \<Rightarrow> entries \<Rightarrow> (string \<rightharpoonup> string \<times> sched_task) \<Rightarrow> Schedule \<Rightarrow> bool" where
  "scheduled c queue es I s \<longleftrightarrow> (\<exists>e x. es (sc_ID s) = Some e \<and> entry_of c queue s = Some x \<and> I (se_entryID e) = Some x)"

lemma in_step_unchanged:
  assumes inv: "in_step c queue es I" and "collision_free c" "es (sc_ID s) = Some e" "scheduleFingerprint c s = Some (se_fingerprint e)"
  shows "scheduled c queue es I s"
proof -
  obtain s' x where x: "scheduleFingerprint c s' = Some (se_fingerprint e)" "entry_of c queue s' = Some x" "I (se_entryID e) = Some x"
    using in_stepD(1) [OF inv assms(3)] by (auto simp: backed_def)
  then have "fingerprint_of c s = fingerprint_of c s'" using assms(2) assms(4) unfolding collision_free_def by blast
  then have "entry_of c queue s = entry_of c queue s'" using fingerprint_fields_exist [OF assms(4)] by (rule entry_of_fields)
  then show ?thesis using assms(3) x by (simp add: scheduled_def)
qed

lemma in_step_add:
  assumes inv: "in_step c queue es I" and "es i = None" "I k = None" "scheduleFingerprint c s = Some fp" "entry_of c queue s = Some x"
  shows "in_step c queue (es(i \<mapsto> \<lparr>se_entryID = k, se_fingerprint = fp\<rparr>)) (I(k \<mapsto> x))"
proof -
  let ?n = "\<lparr>se_entryID = k, se_fingerprint = fp\<rparr>"
  have fresh: "se_entryID e \<noteq> k" if "es j = Some e" for j e using in_stepD(1) [OF inv that] backed_installed assms(3) by metis
  have "backed c queue ?n (I(k \<mapsto> x))" using assms(4,5) by (auto simp: backed_def)
  then have "\<forall>j e. (es(i \<mapsto> ?n)) j = Some e \<longrightarrow> backed c queue e (I(k \<mapsto> x))"
    using in_stepD(1) [OF inv] backed_other fresh by simp
  moreover have "own_ids (es(i \<mapsto> ?n))" using in_stepD(2) [OF inv] fresh by (simp add: own_ids_def) (metis scheduleEntry.select_convs(1))
  moreover have "\<exists>j e. (es(i \<mapsto> ?n)) j = Some e \<and> se_entryID e = l" if l: "(I(k \<mapsto> x)) l \<noteq> None" for l
  proof (cases "l = k")
    case True
    then show ?thesis by (intro exI [of _ i] exI [of _ ?n]) simp
  next
    case False
    then obtain j e where "es j = Some e" "se_entryID e = l" using in_stepD(3) [OF inv, of l] l by auto
    moreover then have "j \<noteq> i" using assms(2) by auto
    ultimately show ?thesis by (intro exI [of _ j] exI [of _ e]) simp
  qed
  moreover have "finite (dom (es(i \<mapsto> ?n)))" using in_stepD(4) [OF inv] by simp
  ultimately show ?thesis unfolding in_step_def by blast
qed

lemma own_ids_other: "own_ids es \<Longrightarrow> es i = Some e \<Longrightarrow> es j = Some f \<Longrightarrow> i \<noteq> j \<Longrightarrow> se_entryID f \<noteq> se_entryID e"
  unfolding own_ids_def by metis

lemma in_step_remove:
  assumes inv: "in_step c queue es I" and e: "es i = Some e"
  shows "in_step c queue (es(i := None)) (I(se_entryID e := None))"
proof -
  have "backed c queue f (I(se_entryID e := None))" if "(es(i := None)) j = Some f" for j f
    using that own_ids_other [OF in_stepD(2) [OF inv] e, of j f] in_stepD(1) [OF inv, of j f] backed_other by (auto split: if_splits)
  moreover have "own_ids (es(i := None))" using in_stepD(2) [OF inv] by (simp add: own_ids_def)
  moreover have "\<exists>j f. (es(i := None)) j = Some f \<and> se_entryID f = l" if "(I(se_entryID e := None)) l \<noteq> None" for l
  proof -
    have "l \<noteq> se_entryID e" "I l \<noteq> None" using that by (auto split: if_splits)
    then obtain j f where "es j = Some f" "se_entryID f = l" using in_stepD(3) [OF inv] by blast
    moreover then have "j \<noteq> i" using e \<open>l \<noteq> se_entryID e\<close> by auto
    ultimately show ?thesis by (intro exI [of _ j] exI [of _ f]) simp
  qed
  moreover have "finite (dom (es(i := None)))" using in_stepD(4) [OF inv] by simp
  ultimately show ?thesis unfolding in_step_def by blast
qed

lemma in_step_keeps: "in_step c queue es I \<Longrightarrow> es i = Some e \<Longrightarrow> es j = Some f \<Longrightarrow> i \<noteq> j \<Longrightarrow> (I(se_entryID e := None)) (se_entryID f) = I (se_entryID f)"
  using own_ids_other in_stepD(2) by fastforce

text \<open>
  The one way to get out of step: an old entry could not be unregistered after its replacement was registered, and
  then, in the last call, the replacement could not be unregistered either. Exactly the replacement is left over: without
  it, map and entries are in step.
\<close>

definition left_over ::
    "('w, 'e) PeriodicScheduler \<Rightarrow> ('w \<Rightarrow> string \<rightharpoonup> string \<times> sched_task) \<Rightarrow> sched_codec \<Rightarrow> string \<Rightarrow> 'e sched_error \<Rightarrow> entries \<Rightarrow> 'w \<Rightarrow> bool" where
  "left_over P installed c queue e es w \<longleftrightarrow> (\<exists>i err k w0 err'. e = ReplacedNotUnregistered i err \<and>
     ps_Unregister P k w0 = (Inl err', w) \<and> installed w k \<noteq> None \<and> in_step c queue es ((installed w)(k := None)))"

section \<open>The contract of asynq's scheduler\<close>

text \<open>
  \<open>installed\<close> are the entries by their identifiers: \<open>Register\<close> adds one under a new identifier, \<open>Unregister\<close> removes
  the one named, and neither changes anything when it fails.
\<close>

locale periodic =
  fixes P :: "('w, 'e) PeriodicScheduler" and installed :: "'w \<Rightarrow> string \<rightharpoonup> string \<times> sched_task"
  assumes register: "ps_Register P spec task w = (Inr i, w') \<Longrightarrow> installed w i = None \<and> installed w' = (installed w)(i \<mapsto> (spec, task))"
    and register_error: "ps_Register P spec task w = (Inl e, w') \<Longrightarrow> installed w' = installed w"
    and unregister: "ps_Unregister P i w = (Inr x, w') \<Longrightarrow> installed w' = (installed w)(i := None)"
    and unregister_error: "ps_Unregister P i w = (Inl e, w') \<Longrightarrow> installed w' = installed w"
begin

lemma install_success:
  assumes inv: "in_step c queue es (installed w)" and free: "collision_free c" and run: "install P c queue s (es, w) = (Inr (), es', w')"
  shows "in_step c queue es' (installed w') \<and> scheduled c queue es' (installed w') s \<and>
    (\<forall>j e. j \<noteq> sc_ID s \<longrightarrow> es' j = es j \<and> (es j = Some e \<longrightarrow> installed w' (se_entryID e) = installed w (se_entryID e)))"
proof -
  obtain fp where fp: "scheduleFingerprint c s = Some fp" using run by (auto simp: install_def split: option.splits)
  show ?thesis
  proof (cases "\<exists>e. es (sc_ID s) = Some e \<and> se_fingerprint e = fp")
    case True
    then have "es' = es" "w' = w" using run fp by (auto simp: install_def)
    then show ?thesis using inv in_step_unchanged [OF inv free] True fp by auto
  next
    case False
    then obtain task where task: "buildScheduledTask c queue s = Some task" using run fp by (auto simp: install_def split: option.splits)
    obtain k w1 where reg: "ps_Register P (scheduleSpec s) task w = (Inr k, w1)"
      using run fp False task by (auto simp: install_def split: option.splits prod.splits sum.splits)
    note new = register [OF reg]
    have entry: "entry_of c queue s = Some (scheduleSpec s, task)" by (simp add: entry_of_def task)
    have fresh: "se_entryID e \<noteq> k" if "es j = Some e" for j e using in_stepD(1) [OF inv that] backed_installed new by metis
    show ?thesis
    proof (cases "es (sc_ID s)")
      case None
      then have "es' = es(sc_ID s \<mapsto> \<lparr>se_entryID = k, se_fingerprint = fp\<rparr>)" "w' = w1" using run fp task reg by (simp_all add: install_def)
      then show ?thesis using in_step_add [OF inv None, of k s fp "(scheduleSpec s, task)"] new fp entry fresh by (auto simp: scheduled_def)
    next
      case (Some cur)
      obtain w2 where un: "ps_Unregister P (se_entryID cur) w1 = (Inr (), w2)" and eq: "es' = es(sc_ID s \<mapsto> \<lparr>se_entryID = k, se_fingerprint = fp\<rparr>)" "w' = w2"
        using run fp False task reg Some by (auto simp: install_def split: prod.splits sum.splits)
      have I: "installed w' = ((installed w)(se_entryID cur := None))(k \<mapsto> (scheduleSpec s, task))"
        using unregister [OF un] new eq fresh [OF Some] by (auto simp: fun_eq_iff)
      have es: "es' = (es(sc_ID s := None))(sc_ID s \<mapsto> \<lparr>se_entryID = k, se_fingerprint = fp\<rparr>)" using eq by simp
      have "in_step c queue es' (installed w')" unfolding I es
        using in_step_remove [OF inv Some] new fp entry fresh [OF Some] by (intro in_step_add [where s = s]) auto
      moreover have "scheduled c queue es' (installed w') s" using I es entry by (auto simp: scheduled_def)
      moreover have "installed w' (se_entryID e) = installed w (se_entryID e)" if "j \<noteq> sc_ID s" "es j = Some e" for j e
        using I fresh [OF that(2)] in_step_keeps [OF inv Some that(2)] that(1) by simp
      ultimately show ?thesis using es by simp
    qed
  qed
qed

lemma install_error:
  assumes inv: "in_step c queue es (installed w)" and run: "install P c queue s (es, w) = (Inl e, es', w')"
  shows "in_step c queue es' (installed w') \<or> left_over P installed c queue e es' w'"
proof (cases "\<exists>i err. e = ReplacedNotUnregistered i err")
  case False
  then have "es' = es \<and> installed w' = installed w"
    using run register_error [of "scheduleSpec s"] unfolding install_def by (auto split: option.splits prod.splits sum.splits if_splits)
  then show ?thesis using inv by simp
next
  case True
  obtain fp where fp: "scheduleFingerprint c s = Some fp" using run True by (auto simp: install_def split: option.splits)
  have changed: "\<not> (\<exists>cur. es (sc_ID s) = Some cur \<and> se_fingerprint cur = fp)" using run fp by (auto simp: install_def)
  obtain task where task: "buildScheduledTask c queue s = Some task"
    using run True fp changed by (auto simp: install_def split: option.splits)
  obtain k w1 where reg: "ps_Register P (scheduleSpec s) task w = (Inr k, w1)"
    using run True fp changed task by (auto simp: install_def split: option.splits prod.splits sum.splits)
  obtain cur where cur: "es (sc_ID s) = Some cur" using run fp task reg by (cases "es (sc_ID s)") (auto simp: install_def)
  obtain err w2 where un: "ps_Unregister P (se_entryID cur) w1 = (Inl err, w2)" and e: "e = ReplacedNotUnregistered (sc_ID s) err"
    and fin: "es' = es" "w' = snd (ps_Unregister P k w2)"
    using run fp changed task reg cur by (auto simp: install_def split: prod.splits sum.splits)
  have new: "installed w k = None" "installed w2 = (installed w)(k \<mapsto> (scheduleSpec s, task))"
    using register [OF reg] unregister_error [OF un] by simp_all
  obtain x where x: "ps_Unregister P k w2 = (x, w')" using fin(2) by (metis prod.collapse)
  have restored: "(installed w2)(k := None) = installed w" using new by (auto simp: fun_eq_iff)
  show ?thesis
  proof (cases x)
    case (Inl err')
    then have "installed w' = installed w2" using unregister_error x by simp
    then have "left_over P installed c queue e es' w'"
      unfolding left_over_def using e x Inl restored inv new(2) fin(1) by (intro exI [of _ "sc_ID s"] exI [of _ err] exI [of _ k]) auto
    then show ?thesis ..
  next
    case (Inr u)
    then show ?thesis using unregister [of k w2 u w'] x restored inv fin(1) by simp
  qed
qed

text \<open>What does not concern the schedules \<open>J\<close> stays.\<close>

definition untouched :: "string set \<Rightarrow> entries \<times> 'w \<Rightarrow> entries \<times> 'w \<Rightarrow> bool" where
  "untouched J st st' \<longleftrightarrow> (\<forall>j e. j \<notin> J \<longrightarrow> fst st' j = fst st j \<and> (fst st j = Some e \<longrightarrow> installed (snd st') (se_entryID e) = installed (snd st) (se_entryID e)))"

lemma untouched_scheduled: "untouched J st st' \<Longrightarrow> sc_ID s \<notin> J \<Longrightarrow> scheduled c queue (fst st) (installed (snd st)) s \<Longrightarrow> scheduled c queue (fst st') (installed (snd st')) s"
  unfolding untouched_def scheduled_def by metis

lemma untouched_trans: "untouched J st st1 \<Longrightarrow> untouched J' st1 st2 \<Longrightarrow> untouched (J \<union> J') st st2"
  unfolding untouched_def by (metis UnCI)

lemma install_all_run:
  assumes free: "collision_free c"
  shows "in_step c queue (fst st) (installed (snd st)) \<Longrightarrow> distinct (map sc_ID (filter sc_Enabled ss)) \<Longrightarrow> install_all P c queue cancelled ss st = (r, st') \<Longrightarrow>
    (case r of
       Inl e \<Rightarrow> in_step c queue (fst st') (installed (snd st')) \<or> left_over P installed c queue e (fst st') (snd st')
     | Inr _ \<Rightarrow> in_step c queue (fst st') (installed (snd st')) \<and> untouched (sc_ID ` set (filter sc_Enabled ss)) st st' \<and>
         (\<forall>s \<in> set (filter sc_Enabled ss). scheduled c queue (fst st') (installed (snd st')) s))"
proof (induction ss arbitrary: st)
  case Nil
  then show ?case by (auto simp: untouched_def)
next
  case (Cons s ss)
  show ?case
  proof (cases "sc_Enabled s \<and> \<not> cancelled (snd st)")
    case False
    show ?thesis
    proof (cases "sc_Enabled s")
      case True
      then have "r = Inl ContextDone" "st' = st" using False Cons.prems(3) by auto
      then show ?thesis using Cons.prems(1) by simp
    next
      case off: False
      then have same: "filter sc_Enabled (s # ss) = filter sc_Enabled ss" by simp
      show ?thesis unfolding same using Cons.IH [of st] Cons.prems off by simp
    qed
  next
    case True
    obtain x es1 w1 where one: "install P c queue s st = (x, es1, w1)" by (metis prod.exhaust)
    show ?thesis
    proof (cases x)
      case (Inl e)
      then show ?thesis using Cons.prems True one install_error [of c queue "fst st" "snd st" s e es1 w1] by auto
    next
      case (Inr u)
      have sc: "in_step c queue es1 (installed w1)" "scheduled c queue es1 (installed w1) s" "untouched {sc_ID s} st (es1, w1)"
        using install_success [OF Cons.prems(1) free, of s es1 w1] one Inr by (auto simp: untouched_def)
      have rest: "install_all P c queue cancelled ss (es1, w1) = (r, st')" using Cons.prems(3) True one Inr by simp
      have ih: "case r of
       Inl e \<Rightarrow> in_step c queue (fst st') (installed (snd st')) \<or> left_over P installed c queue e (fst st') (snd st')
     | Inr _ \<Rightarrow> in_step c queue (fst st') (installed (snd st')) \<and> untouched (sc_ID ` set (filter sc_Enabled ss)) (es1, w1) st' \<and>
         (\<forall>s \<in> set (filter sc_Enabled ss). scheduled c queue (fst st') (installed (snd st')) s)"
        using Cons.IH [of "(es1, w1)"] sc(1) Cons.prems(2) rest True by simp
      show ?thesis
      proof (cases r)
        case (Inr v)
        then have "untouched (sc_ID ` set (filter sc_Enabled ss)) (es1, w1) st'" using ih by simp
        moreover have "sc_ID s \<notin> sc_ID ` set (filter sc_Enabled ss)" using Cons.prems(2) True by auto
        ultimately have "scheduled c queue (fst st') (installed (snd st')) s" "untouched (sc_ID ` set (filter sc_Enabled (s # ss))) st st'"
          using untouched_scheduled [of _ "(es1, w1)"] sc(2) untouched_trans [OF sc(3)] True by auto
        then show ?thesis using ih Inr True by simp
      qed (use ih in simp)
    qed
  qed
qed

lemma remove_all_run:
  "in_step c queue (fst st) (installed (snd st)) \<Longrightarrow> remove_all P cancelled desired is st = (r, st') \<Longrightarrow>
    in_step c queue (fst st') (installed (snd st')) \<and>
    (r = Inr () \<longrightarrow> untouched (- desired) st st' \<and> dom (fst st') = dom (fst st) - (set is - desired))"
proof (induction "is" arbitrary: st)
  case Nil
  then show ?case by (auto simp: untouched_def)
next
  case (Cons i "is")
  obtain es w where st: "st = (es, w)" by force
  show ?case
  proof (cases "\<exists>e. es i = Some e \<and> i \<notin> desired \<and> \<not> cancelled w")
    case False
    have "insert i (set is) - desired = set is - desired" if "i \<in> desired" using that by auto
    moreover have "dom es - (insert i (set is) - desired) = dom es - (set is - desired)" if "es i = None" using that by auto
    ultimately show ?thesis using Cons.IH [of st] Cons.prems False st by (cases "es i"; cases "i \<in> desired") auto
  next
    case True
    then obtain e where e: "es i = Some e" "i \<notin> desired" "\<not> cancelled w" by blast
    obtain x w1 where un: "ps_Unregister P (se_entryID e) w = (x, w1)" by force
    show ?thesis
    proof (cases x)
      case (Inl err)
      then have "r = Inl (RemovedNotUnregistered i err)" "st' = (es, w1)" "installed w1 = installed w"
        using Cons.prems(2) st e un unregister_error by auto
      then show ?thesis using Cons.prems(1) st by simp
    next
      case (Inr u)
      have I: "installed w1 = (installed w)(se_entryID e := None)" using unregister un Inr by simp
      have step: "in_step c queue (es(i := None)) (installed w1)" unfolding I using in_step_remove [OF Cons.prems(1) [unfolded st fst_conv snd_conv] e(1)] .
      have rest: "remove_all P cancelled desired is (es(i := None), w1) = (r, st')" using Cons.prems(2) st e un Inr by simp
      have keep: "untouched (- desired) st (es(i := None), w1)"
        using e I in_step_keeps [OF Cons.prems(1) [unfolded st fst_conv snd_conv] e(1)] unfolding st untouched_def by auto
      have ih: "in_step c queue (fst st') (installed (snd st')) \<and>
          (r = Inr () \<longrightarrow> untouched (- desired) (es(i := None), w1) st' \<and> dom (fst st') = dom (es(i := None)) - (set is - desired))"
        by (rule Cons.IH [of "(es(i := None), w1)", unfolded fst_conv snd_conv, OF step rest])
      moreover have "dom (es(i := None)) - (set is - desired) = dom es - (insert i (set is) - desired)" using e(2) by auto
      ultimately show ?thesis using untouched_trans [OF keep, of "- desired"] st by auto
    qed
  qed
qed

end

text \<open>
  A scheduler in memory: it numbers its entries and refuses to register or unregister while a switch is off. It also
  refuses to unregister an entry it does not have, as asynq does.
\<close>

record mem_sched =
  ms_entries :: "string \<rightharpoonup> string \<times> sched_task"
  ms_next :: nat
  ms_up :: bool

fun mem_free :: "nat \<Rightarrow> (string \<rightharpoonup> string \<times> sched_task) \<Rightarrow> nat \<Rightarrow> string option" where
  "mem_free 0 I n = (if I (FormatUint n) = None then Some (FormatUint n) else None)"
| "mem_free (Suc k) I n = (if I (FormatUint n) = None then Some (FormatUint n) else mem_free k I (Suc n))"

definition mem_periodic :: "(mem_sched, string) PeriodicScheduler" where
  "mem_periodic =
     \<lparr>ps_Register = (\<lambda>spec task m. if \<not> ms_up m then (Inl ''down'', m)
        else case mem_free 100 (ms_entries m) (ms_next m) of
          None \<Rightarrow> (Inl ''full'', m)
        | Some i \<Rightarrow> (Inr i, m\<lparr>ms_entries := (ms_entries m)(i \<mapsto> (spec, task)), ms_next := Suc (ms_next m)\<rparr>)),
      ps_Unregister = (\<lambda>i m. if \<not> ms_up m \<or> ms_entries m i = None then (Inl ''no entry'', m) else (Inr (), m\<lparr>ms_entries := (ms_entries m)(i := None)\<rparr>))\<rparr>"

lemma mem_free_unused: "mem_free k I n = Some i \<Longrightarrow> I i = None"
  by (induction k I n rule: mem_free.induct) (auto split: if_splits)

lemma mem_free_empty [simp]: "mem_free k (\<lambda>_. None) n = Some (FormatUint n)"
  by (cases k) simp_all

interpretation mem: periodic mem_periodic ms_entries
  by unfold_locales (auto simp: mem_periodic_def mem_free_unused split: if_splits option.splits)

text \<open>
  For schedules with different identifiers: when \<open>Replace\<close> succeeds, asynq holds exactly one entry per enabled
  schedule. Whatever fails, the map of the registrar and the entries of asynq stay in step; only when neither an old entry
  nor its replacement could be unregistered is the replacement left behind.
\<close>

lemma Replace_in_step:
  assumes "periodic P installed" and "collision_free c" and "in_step c queue es (installed w)" and "\<forall>m. finite (dom m) \<longrightarrow> set (order m) = dom m"
    and ids: "distinct (map sc_ID (filter sc_Enabled ss))"
    and run: "Replace P c queue cancelled order ss (es, w) = (r, es', w')"
  shows "case r of
      Inl e \<Rightarrow> in_step c queue es' (installed w') \<or> left_over P installed c queue e es' w'
    | Inr _ \<Rightarrow> in_step c queue es' (installed w') \<and> dom es' = sc_ID ` set (filter sc_Enabled ss) \<and>
        (\<forall>s \<in> set ss. sc_Enabled s \<longrightarrow> scheduled c queue es' (installed w') s)"
proof -
  obtain x st1 where one: "install_all P c queue cancelled ss (es, w) = (x, st1)" by (metis prod.exhaust)
  note inst = periodic.install_all_run [OF assms(1,2), of queue "(es, w)" ss cancelled x st1, unfolded fst_conv snd_conv, OF assms(3) ids one]
  show ?thesis
  proof (cases x)
    case (Inl e)
    then have "r = Inl e" "st1 = (es', w')" using run one by (simp_all add: Replace_def)
    then show ?thesis using inst Inl by simp
  next
    case (Inr u)
    let ?D = "sc_ID ` set (filter sc_Enabled ss)"
    have rest: "remove_all P cancelled ?D (order (fst st1)) st1 = (r, es', w')" using run one Inr by (simp add: Replace_def)
    have step: "in_step c queue (fst st1) (installed (snd st1))" and all: "\<forall>s \<in> set (filter sc_Enabled ss). scheduled c queue (fst st1) (installed (snd st1)) s"
      using inst Inr by simp_all
    note rem = periodic.remove_all_run [OF assms(1) step rest, unfolded fst_conv snd_conv]
    show ?thesis
    proof (cases r)
      case (Inr v)
      have "?D \<subseteq> dom (fst st1)" using all by (auto simp: scheduled_def)
      then have "dom es' = ?D" using rem Inr assms(4) in_stepD(4) [OF step] by auto
      moreover have "scheduled c queue es' (installed w') s" if "s \<in> set ss" "sc_Enabled s" for s
        using periodic.untouched_scheduled [OF assms(1), of "- ?D" st1 "(es', w')" s c queue] rem Inr all that by auto
      ultimately show ?thesis using rem Inr by simp
    qed (use rem in simp)
  qed
qed

section \<open>Refreshing from the database\<close>

text \<open>Relied on of the migrations: the primary keys of the two tables, which are UUIDs.\<close>

definition schedule_keys :: "task_db \<Rightarrow> bool" where
  "schedule_keys d \<longleftrightarrow> distinct (map ts_id (schedules d)) \<and> (\<forall>t \<in> set (schedules d). length (ts_id t) = 16) \<and> distinct (map td_id (definitions d))"

text \<open>What should be scheduled: the enabled schedules with an active definition.\<close>

definition wanted :: "task_db \<Rightarrow> (TaskSchedule \<times> TaskDefinition) set" where
  "wanted d = {(t, f). t \<in> set (schedules d) \<and> f \<in> set (definitions d) \<and> ts_is_enabled t \<and> td_id f = ts_definition_id t \<and> td_is_active f}"

definition schedule_of :: "TaskSchedule \<times> TaskDefinition \<Rightarrow> Schedule" where
  "schedule_of = (\<lambda>(t, f). \<lparr>sc_ID = formatUUID (Some (ts_id t)), sc_DefinitionID = formatUUID (Some (ts_definition_id t)),
     sc_CronExpression = ts_cron_expression t, sc_Timezone = ts_timezone t, sc_Payload = ts_payload t, sc_Enabled = ts_is_enabled t,
     sc_TaskType = td_task_type f, sc_MaxRetries = td_max_retries f, sc_Timeout = int64 (td_timeout_seconds f * Second)\<rparr>)"

lemma schedule_of_simps [simp]: "sc_ID (schedule_of (t, f)) = formatUUID (Some (ts_id t))" "sc_Enabled (schedule_of (t, f)) = ts_is_enabled t"
  by (simp_all add: schedule_of_def)

lemma formatUUID_inj: "length a = 16 \<Longrightarrow> length b = 16 \<Longrightarrow> formatUUID (Some a) = formatUUID (Some b) \<Longrightarrow> a = b"
  by (metis option.inject parseUUID_formatUUID)

definition join_rows :: "TaskDefinition list \<Rightarrow> TaskSchedule list \<Rightarrow> (TaskSchedule \<times> TaskDefinition) list" where
  "join_rows fs ts = concat (map (\<lambda>t. map (Pair t) (filter (\<lambda>f. td_id f = ts_definition_id t \<and> td_is_active f) fs)) ts)"

lemma key_filter: "distinct (map k xs) \<Longrightarrow> length (filter (\<lambda>x. k x = a \<and> P x) xs) \<le> 1"
  by (induction xs) (auto simp: filter_empty_conv image_iff)

lemma join_rows_ids:
  assumes "distinct (map td_id fs)"
  shows "distinct (map ts_id ts) \<Longrightarrow> \<forall>t \<in> set ts. length (ts_id t) = 16 \<Longrightarrow> distinct (map (\<lambda>x. sc_ID (schedule_of x)) (join_rows fs ts))"
proof (induction ts)
  case (Cons t ts)
  let ?one = "filter (\<lambda>f. td_id f = ts_definition_id t \<and> td_is_active f) fs"
  have rows: "join_rows fs (t # ts) = map (Pair t) ?one @ join_rows fs ts" by (simp add: join_rows_def)
  have "distinct (map (\<lambda>x. sc_ID (schedule_of x)) (map (Pair t) ?one))"
    using key_filter [OF assms, of "ts_definition_id t" td_is_active] by (cases ?one; cases "tl ?one") auto
  moreover have "t' \<in> set ts" if "(t', f) \<in> set (join_rows fs ts)" for t' f using that by (auto simp: join_rows_def)
  then have "sc_ID (schedule_of x) \<noteq> formatUUID (Some (ts_id t))" if "x \<in> set (join_rows fs ts)" for x
    using that Cons.prems formatUUID_inj by (cases x) fastforce
  ultimately show ?case using Cons unfolding rows by fastforce
qed (simp add: join_rows_def)

lemma listed_schedules:
  assumes "ListEnabledSchedules env d = (Inr ss, d')" "schedule_keys (env (db_calls d) d)"
  shows "set ss = schedule_of ` wanted (env (db_calls d) d)" "distinct (map sc_ID (filter sc_Enabled ss))"
proof -
  let ?d = "env (db_calls d) d"
  let ?ts = "sort_key (\<lambda>t. (ts_created_at t, ts_id t)) (filter ts_is_enabled (schedules ?d))"
  have ss: "ss = map schedule_of (join_rows (definitions ?d) ?ts)"
    using assms(1) by (auto simp: ListEnabledSchedules_def bindE_def mapErrE_def retE_def stmt_def Let_def ListEnabledTaskSchedules_def join_rows_def schedule_of_def
      split: net.splits if_splits)
  have "set (join_rows (definitions ?d) ?ts) = wanted ?d" by (auto simp: join_rows_def wanted_def)
  then show "set ss = schedule_of ` wanted ?d" by (simp add: ss)
  have "distinct (map ts_id ?ts)" using assms(2) by (simp add: schedule_keys_def distinct_map inj_on_def)
  then have "distinct (map sc_ID ss)" using assms(2) join_rows_ids by (simp add: ss schedule_keys_def comp_def)
  then show "distinct (map sc_ID (filter sc_Enabled ss))" by (rule distinct_map_filter)
qed

text \<open>
  C27: refreshing keeps asynq in step with the database. When \<open>Refresh\<close> succeeds, asynq holds exactly one entry per enabled
  schedule with an active definition, with the timing and the task of that schedule, and nothing else. When the schedules
  cannot be read nothing changes. Whatever else fails, the map of the registrar and the entries of asynq stay in step, so
  that a later pass can finish the work; with one exception: when an old entry could not be unregistered after its
  replacement was registered, and the last call, which takes the replacement back, failed as well, then exactly this
  replacement is left over and everything else is in step. Relied on: asynq's contract, the primary keys, and that
  schedules that differ have different fingerprints.
\<close>

theorem refresh_in_step:
  assumes "periodic P installed" and "collision_free c" and "in_step c queue es (installed w)" and "\<forall>m. finite (dom m) \<longrightarrow> set (order m) = dom m"
    and keys: "schedule_keys (env (db_calls d) d)"
    and run: "Refresh env P c queue cancelled order ((es, w), d) = (r, (es', w'), d')"
  shows "case r of
      Inl (ListFailed e) \<Rightarrow> es' = es \<and> w' = w
    | Inl (ReplaceFailed e) \<Rightarrow> in_step c queue es' (installed w') \<or> left_over P installed c queue e es' w'
    | Inr _ \<Rightarrow> in_step c queue es' (installed w') \<and> dom es' = (\<lambda>x. sc_ID (schedule_of x)) ` wanted (env (db_calls d) d) \<and>
        (\<forall>x \<in> wanted (env (db_calls d) d). scheduled c queue es' (installed w') (schedule_of x))"
proof (cases "ListEnabledSchedules env d")
  case (Pair x d1)
  show ?thesis
  proof (cases x)
    case (Inl e)
    then show ?thesis using run Pair by (auto simp: Refresh_def)
  next
    case (Inr ss)
    obtain y es1 w1 where rep: "Replace P c queue cancelled order ss (es, w) = (y, es1, w1)" by (metis prod.exhaust)
    have ss: "ListEnabledSchedules env d = (Inr ss, d1)" using Pair Inr by simp
    have on: "sc_Enabled s" if "s \<in> set ss" for s using that listed_schedules(1) [OF ss keys] by (auto simp: wanted_def)
    then have all: "set (filter sc_Enabled ss) = schedule_of ` wanted (env (db_calls d) d)" using listed_schedules(1) [OF ss keys] by auto
    note main = Replace_in_step [OF assms(1-4) listed_schedules(2) [OF ss keys] rep]
    show ?thesis
    proof (cases y)
      case (Inl e)
      then show ?thesis using main run ss rep by (auto simp: Refresh_def)
    next
      case (Inr u)
      then have "r = Inr ()" "es' = es1" "w' = w1" using run ss rep by (simp_all add: Refresh_def)
      moreover have "dom es1 = sc_ID ` (schedule_of ` wanted (env (db_calls d) d))" using main Inr all by simp
      moreover have "scheduled c queue es1 (installed w1) (schedule_of x)" if "x \<in> wanted (env (db_calls d) d)" for x
        using main Inr on that listed_schedules(1) [OF ss keys] by auto
      ultimately show ?thesis using main Inr by (simp add: image_image)
    qed
  qed
qed

text \<open>One schedule, which the scheduler in memory does not hold yet.\<close>

definition sample_definition :: TaskDefinition where
  "sample_definition = \<lparr>td_id = replicate 16 CHR ''d'', td_name = ''test'', td_task_type = ''system.test'', td_description = [], td_default_payload = ''{}'',
     td_max_retries = 3, td_timeout_seconds = 60, td_is_active = True, td_created_at = 0, td_updated_at = 0\<rparr>"

definition sample_row :: TaskSchedule where
  "sample_row = \<lparr>ts_id = replicate 16 CHR ''s'', ts_definition_id = replicate 16 CHR ''d'', ts_cron_expression = ''0 * * * *'', ts_timezone = ''UTC'',
     ts_payload = ''{}'', ts_is_enabled = True, ts_created_at = 0\<rparr>"

definition sample_db :: task_db where
  "sample_db = \<lparr>db_calls = 0, db_fault = (\<lambda>_. Delivered), db_clock = (\<lambda>_. 0), db_uuid = (\<lambda>_. []), collate_key = id, jsonb = Some,
     definitions = [sample_definition], executions = [], outbox = [], schedules = [sample_row]\<rparr>"

abbreviation sample_schedule :: Schedule where
  "sample_schedule \<equiv> schedule_of (sample_row, sample_definition)"

definition sample_fields :: fingerprint_fields where
  "sample_fields = \<lparr>ff_DefinitionID = sc_DefinitionID sample_schedule, ff_CronExpression = sc_CronExpression sample_schedule, ff_Timezone = sc_Timezone sample_schedule,
     ff_Payload = ''{}'', ff_TaskType = sc_TaskType sample_schedule, ff_MaxRetries = sc_MaxRetries sample_schedule, ff_Timeout = sc_Timeout sample_schedule\<rparr>"

definition sample_codec :: sched_codec where
  "sample_codec = \<lparr>kc_compact = (\<lambda>p. if p = ''{}'' then Some p else None), kc_submission = (\<lambda>x. Some (ss_DefinitionID x)),
     kc_fields = (\<lambda>f. if f = sample_fields then Some ''f'' else None), kc_sha256 = id\<rparr>"

definition key_list :: "entries \<Rightarrow> string list" where
  "key_list m = (if finite (dom m) then (SOME l. set l = dom m) else [])"

lemma key_list_set: "finite (dom m) \<Longrightarrow> set (key_list m) = dom m"
  unfolding key_list_def by (simp add: someI_ex [OF finite_list])

lemma sample_codec_free: "collision_free sample_codec"
  by (auto simp: collision_free_def scheduleFingerprint_def sample_codec_def bind_eq_Some_conv split: if_splits)

lemma remove_none: "set is \<subseteq> desired \<Longrightarrow> remove_all P cancelled desired is (es, w) = (Inr (), es, w)"
  by (induction "is") (auto split: option.split)

lemma sample_listed: "ListEnabledSchedules (\<lambda>_ d. d) sample_db = (Inr [sample_schedule], next_call sample_db)"
  by (simp add: ListEnabledSchedules_def bindE_def mapErrE_def retE_def stmt_def Let_def ListEnabledTaskSchedules_def sample_db_def sample_row_def sample_definition_def schedule_of_def)

lemma sample_payload: "sc_Payload sample_schedule = ''{}''"
  by (simp add: schedule_of_def sample_row_def)

theorem refresh_in_step_witness:
  "\<exists>es w d. Refresh (\<lambda>_ d. d) mem_periodic sample_codec ''default'' (\<lambda>_. False) key_list
       ((Map.empty, \<lparr>ms_entries = Map.empty, ms_next = 0, ms_up = True\<rparr>), sample_db) = (Inr (), (es, w), d) \<and>
     scheduled sample_codec ''default'' es (ms_entries w) sample_schedule"
proof -
  let ?w = "\<lparr>ms_entries = Map.empty, ms_next = 0, ms_up = True\<rparr>"
  obtain e w where "install mem_periodic sample_codec ''default'' sample_schedule (Map.empty, ?w) = (Inr (), [sc_ID sample_schedule \<mapsto> e], w)"
    by (auto simp: install_def scheduleFingerprint_def fingerprint_of_def sample_payload sample_fields_def sample_codec_def buildScheduledTask_def mem_periodic_def Let_def)
  then have run: "Refresh (\<lambda>_ d. d) mem_periodic sample_codec ''default'' (\<lambda>_. False) key_list ((Map.empty, ?w), sample_db) =
      (Inr (), ([sc_ID sample_schedule \<mapsto> e], w), next_call sample_db)"
    by (simp add: Refresh_def sample_listed Replace_def remove_none key_list_set sample_row_def)
  have start: "in_step sample_codec ''default'' Map.empty (ms_entries ?w)" by (simp add: in_step_def own_ids_def)
  have keys: "schedule_keys sample_db" by (simp add: schedule_keys_def sample_db_def sample_row_def)
  have "(sample_row, sample_definition) \<in> wanted sample_db" by (simp add: wanted_def sample_db_def sample_row_def sample_definition_def)
  then show ?thesis using refresh_in_step [OF mem.periodic_axioms sample_codec_free start _ keys run] run key_list_set by auto
qed

end
