(* ===== verification/Platform_Http.thy ===== *)
theory Platform_Http
  imports Iam_Http_Safety Task_Queue
begin

text \<open>
  The routes for tasks and audit logs: \<open>src/internal/app/platform_http.go\<close>, with the catalogue of task types of
  \<open>src/internal/app/task_catalog.go\<close> and its handler \<open>src/pkg/modules/task/system_test_task.go\<close>. The decoders of JSON,
  of instants and of UUIDs are the parameter \<open>platform_codec\<close>. Each interface of \<open>PlatformRoutes\<close> is a field with an
  operation on the world \<open>'w\<close>.
\<close>

section \<open>Interfaces\<close>

text \<open>The body of a submission: raw messages, empty when the field is missing.\<close>

record submit_body =
  sm_DefinitionID :: string
  sm_TaskType :: string
  sm_Payload :: string
  sm_IdempotencyKey :: string
  sm_MaxRetries :: string
  sm_TimeoutSeconds :: string
  sm_UniqueForSeconds :: string
  sm_ProcessAfterSeconds :: string

text \<open>
  \<open>pc_submit\<close> gives nothing when either \<open>Decode\<close> fails the request, \<open>pc_object\<close> says whether a raw message is an object,
  \<open>pc_string\<close> and \<open>pc_int\<close> decode one into a \<open>string\<close> and an \<open>int\<close>, \<open>pc_uuid\<close> is \<open>uuid.Validate\<close>.
\<close>

record ('b, 'm) platform_codec =
  pc_submit :: "'b \<Rightarrow> submit_body option"
  pc_object :: "string \<Rightarrow> bool"
  pc_string :: "string \<Rightarrow> string option"
  pc_int :: "string \<Rightarrow> int option"
  pc_uuid :: "string \<Rightarrow> bool"
  pc_time :: "string \<Rightarrow> int option"
  pc_metadata :: "'m \<Rightarrow> json"

type_synonym submit_error = "publish_error task_error"

record ('m, 'w) PlatformRoutes =
  pt_Audits :: "AuditFilter \<Rightarrow> int \<Rightarrow> int \<Rightarrow> ('w, audit_error, 'm AuditEvent page) op"
  pt_Tasks :: "Submission \<Rightarrow> ('w, submit_error, Execution) op"
  pt_GetExecution :: "string \<Rightarrow> ('w, store_error, Execution) op"
  pt_ListExecutions :: "ExecutionQuery \<Rightarrow> ('w, store_error, Execution page) op"
  pt_Recorder :: "('m NewEvent \<Rightarrow> 'w \<Rightarrow> 'w) option"
  pt_TaskObserver :: "(string \<Rightarrow> string \<Rightarrow> int \<Rightarrow> 'w \<Rightarrow> 'w) option"
  pt_TaskCatalog :: "Task_Service.handler TaskCatalog option"

section \<open>Task types\<close>

text \<open>The decoded payload of the system test: the rows to report and whether to fail.\<close>

definition SystemTestTaskType :: string where
  "SystemTestTaskType = ''system.test''"

definition SystemTestHandler :: "(string \<Rightarrow> handler_error + int \<times> bool) \<Rightarrow> ctx_error option \<Rightarrow> Task_Service.handler" where
  "SystemTestHandler unmarshal ctx payload = (case ctx of
      Some e \<Rightarrow> Inl (HandlerError (case e of Canceled \<Rightarrow> ''context canceled'' | DeadlineExceeded \<Rightarrow> ''context deadline exceeded'') [e])
    | None \<Rightarrow> (case unmarshal payload of
        Inl e \<Rightarrow> Inl e
      | Inr (rows, failing) \<Rightarrow> if failing then Inl (HandlerError ''system test task failed'' []) else Inr rows))"

text \<open>\<open>mustTaskCatalog\<close> panics when the catalogue is refused (\<open>None\<close>), which \<open>runtime_catalog_exists\<close> excludes.\<close>

definition mustTaskCatalog :: "(string \<times> 'h option) list \<Rightarrow> 'h TaskCatalog option" where
  "mustTaskCatalog rs = (case NewTaskCatalog rs of Inl _ \<Rightarrow> None | Inr c \<Rightarrow> Some c)"

definition runtimeTaskCatalog :: "'h \<Rightarrow> 'h TaskCatalog option" where
  "runtimeTaskCatalog h = mustTaskCatalog [(SystemTestTaskType, Some h)]"

definition RuntimeTaskTypes :: "'h \<Rightarrow> string list" where
  "RuntimeTaskTypes h = Types (runtimeTaskCatalog h)"

definition newTaskRegistry :: "'h TaskCatalog option \<Rightarrow> registry_error + 'h Registry" where
  "newTaskRegistry c = (case RegisterHandlers c NewRegistry of (Some e, _) \<Rightarrow> Inl e | (None, reg) \<Rightarrow> Inr reg)"

lemma system_test_trim: "TrimSpace ''system.test'' = ''system.test''"
  by code_simp

lemma runtime_catalog_exists: "runtimeTaskCatalog h = Some \<lparr>cat_registrations = [(SystemTestTaskType, h)], cat_types = {SystemTestTaskType}\<rparr>"
  by (simp add: runtimeTaskCatalog_def mustTaskCatalog_def NewTaskCatalog_def SystemTestTaskType_def system_test_trim Let_def)

text \<open>Every type of the catalogue that the API accepts has its handler in the worker.\<close>

lemma runtime_registry_resolves:
  "\<exists>reg. newTaskRegistry (runtimeTaskCatalog h) = Inr reg \<and> (\<forall>ty. Contains (runtimeTaskCatalog h) ty \<longrightarrow> Resolve ty reg = Inr h)"
  by (simp add: runtime_catalog_exists newTaskRegistry_def RegisterHandlers_def Register_def NewRegistry_def Contains_def Resolve_def)

section \<open>Bodies\<close>

definition nonempty :: "string \<Rightarrow> string \<Rightarrow> (string \<times> json) list" where
  "nonempty k v = (if v = [] then [] else [(k, JStr v)])"

definition present :: "string \<Rightarrow> ('a \<Rightarrow> json) \<Rightarrow> 'a option \<Rightarrow> (string \<times> json) list" where
  "present k f v = (case v of None \<Rightarrow> [] | Some x \<Rightarrow> [(k, f x)])"

definition execution_json :: "Execution \<Rightarrow> json" where
  "execution_json e = JObj ([(''id'', JStr (ex_ID e))] @ nonempty ''definition_id'' (ex_DefinitionID e) @ [(''task_type'', JStr (ex_TaskType e))] @
     nonempty ''queue_id'' (ex_QueueID e) @ nonempty ''idempotency_key'' (ex_IdempotencyKey e) @
     [(''payload'', JRaw (ex_Payload e)), (''status'', JStr (ex_Status e)), (''attempt'', JInt (ex_Attempt e)), (''processed_rows'', JInt (ex_ProcessedRows e))] @
     nonempty ''error_summary'' (ex_ErrorSummary e) @ present ''started_at'' JTime (ex_StartedAt e) @ present ''finished_at'' JTime (ex_FinishedAt e))"

definition event_json :: "('b, 'm) platform_codec \<Rightarrow> 'm AuditEvent \<Rightarrow> json" where
  "event_json C e = JObj ([(''id'', JStr (ev_ID e)), (''request_id'', JStr (ev_RequestID e))] @ present ''actor_id'' JStr (ev_ActorID e) @
     [(''action'', JStr (ev_Action e)), (''result'', JStr (ev_Result e)), (''resource_type'', JStr (ev_ResourceType e))] @
     nonempty ''resource_id'' (ev_ResourceID e) @ present ''ip_address'' JStr (ev_IPAddress e) @ nonempty ''user_agent'' (ev_UserAgent e) @
     [(''metadata'', pc_metadata C (ev_Metadata e)), (''created_at'', JTime (ev_CreatedAt e))])"

section \<open>Fields of a submission\<close>

text \<open>\<open>validationErrors\<close>: the map as a list with at most one entry per field; JSON writes it sorted by field.\<close>

type_synonym field_errors = "(string \<times> string) list"

definition put_error :: "string \<Rightarrow> string \<Rightarrow> field_errors \<Rightarrow> field_errors" where
  "put_error k v es = filter (\<lambda>x. fst x \<noteq> k) es @ [(k, v)]"

definition optionalString :: "('b, 'm) platform_codec \<Rightarrow> string \<Rightarrow> string \<Rightarrow> field_errors \<Rightarrow> string \<times> field_errors" where
  "optionalString C raw field es =
     (if raw = [] then ([], es)
      else case pc_string C raw of
        None \<Rightarrow> ([], put_error field ''must be a non-empty string'' es)
      | Some v \<Rightarrow> if v = [] then ([], put_error field ''must be a non-empty string'' es) else (v, es))"

definition optionalInt :: "('b, 'm) platform_codec \<Rightarrow> string \<Rightarrow> int \<Rightarrow> int \<Rightarrow> int \<Rightarrow> string \<Rightarrow> field_errors \<Rightarrow> int \<times> field_errors" where
  "optionalInt C raw fallback minimum maximum field es =
     (if raw = [] then (fallback, es)
      else case (if raw = ''null'' then None else pc_int C raw) of
        None \<Rightarrow> (fallback, put_error field ''must be an integer'' es)
      | Some v \<Rightarrow> (v,
          if v < minimum then put_error field (''must be greater than or equal to '' @ FormatInt minimum) es
          else if v > maximum then put_error field (''must be less than or equal to '' @ FormatInt maximum) es
          else es))"

definition type_errors :: "'h TaskCatalog option \<Rightarrow> string \<Rightarrow> field_errors \<Rightarrow> field_errors" where
  "type_errors catalog ty es =
     (if ty = [] then put_error ''task_type'' ''is required'' es
      else if \<not> Contains catalog ty then put_error ''task_type'' ''is not a registered task type'' es else es)"

text \<open>From the body to the submission, with the errors met on the way.\<close>

definition submission_of :: "('b, 'm) platform_codec \<Rightarrow> 'h TaskCatalog option \<Rightarrow> submit_body \<Rightarrow> Submission \<times> field_errors" where
  "submission_of C catalog b =
     (let e1 = type_errors catalog (sm_TaskType b) [];
          e2 = (if sm_Payload b = [] \<or> \<not> pc_object C (sm_Payload b) then put_error ''payload'' ''must be a JSON object'' e1 else e1);
          (definitionID, e3) = optionalString C (sm_DefinitionID b) ''definition_id'' e2;
          e4 = (if definitionID \<noteq> [] \<and> \<not> pc_uuid C definitionID then put_error ''definition_id'' ''must be a UUID'' e3 else e3);
          (key, e5) = optionalString C (sm_IdempotencyKey b) ''idempotency_key'' e4;
          (maxRetries, e6) = optionalInt C (sm_MaxRetries b) 3 0 MaxSubmissionRetries ''max_retries'' e5;
          (timeout, e7) = optionalInt C (sm_TimeoutSeconds b) 300 1 (go_div MaxSubmissionTimeout Second) ''timeout_seconds'' e6;
          (unique, e8) = optionalInt C (sm_UniqueForSeconds b) 0 0 (go_div MaxSubmissionUniqueFor Second) ''unique_for_seconds'' e7;
          (after, e9) = optionalInt C (sm_ProcessAfterSeconds b) 0 0 (go_div MaxSubmissionProcessAfter Second) ''process_after_seconds'' e8 in
      (\<lparr>su_DefinitionID = definitionID, su_TaskType = sm_TaskType b, su_Payload = sm_Payload b, su_IdempotencyKey = key,
        su_MaxRetries = maxRetries, su_Timeout = int64 (timeout * Second), su_UniqueFor = int64 (unique * Second),
        su_ProcessAfter = int64 (after * Second)\<rparr>, e9))"

section \<open>Handlers\<close>

definition platform_audit :: "('m, 'w) PlatformRoutes \<Rightarrow> request_ctx \<Rightarrow> string \<Rightarrow> string \<Rightarrow> string \<Rightarrow> bool \<Rightarrow> 'w \<Rightarrow> 'w" where
  "platform_audit deps ctx action rtype rid failed w = (case pt_Recorder deps of
      None \<Rightarrow> w
    | Some preserve \<Rightarrow> preserve
        \<lparr>ne_RequestID = rq_RequestID ctx, ne_ActorID = (if rq_Subject ctx \<noteq> [] then Some (rq_Subject ctx) else None), ne_Action = action,
         ne_Result = (if failed then ResultFailure else ResultSuccess), ne_ResourceType = rtype, ne_ResourceID = rid,
         ne_IPAddress = rq_IPAddress ctx, ne_UserAgent = rq_UserAgent ctx, ne_Metadata = None\<rparr> w)"

text \<open>\<open>errors.Is\<close> on what \<open>Submit\<close> returns.\<close>

fun publish_duplicate :: "publish_error \<Rightarrow> bool" where
  "publish_duplicate (DuplicateTaskSubmission _) = True"
| "publish_duplicate _ = False"

fun store_duplicate :: "store_error \<Rightarrow> bool" where
  "store_duplicate (ErrDuplicateSubmission _) = True"
| "store_duplicate _ = False"

fun is_definition_not_found :: "submit_error \<Rightarrow> bool" where
  "is_definition_not_found (SubmitStore e) = (e = ErrDefinitionNotFound)"
| "is_definition_not_found (PublishFailedMark _ e) = (e = ErrDefinitionNotFound)"
| "is_definition_not_found _ = False"

fun is_duplicate_submission :: "submit_error \<Rightarrow> bool" where
  "is_duplicate_submission (SubmitStore e) = store_duplicate e"
| "is_duplicate_submission (PublishFailed p) = publish_duplicate p"
| "is_duplicate_submission (PublishFailedTransition p _) = publish_duplicate p"
| "is_duplicate_submission (PublishFailedMark p e) = (publish_duplicate p \<or> store_duplicate e)"
| "is_duplicate_submission _ = False"

fun is_invalid_submission :: "submit_error \<Rightarrow> bool" where
  "is_invalid_submission (SubmitInvalid _) = True"
| "is_invalid_submission _ = False"

definition submit_response :: "submit_error + Execution \<Rightarrow> response" where
  "submit_response res = (case res of
      Inr execution \<Rightarrow> Write 202 (execution_json execution)
    | Inl e \<Rightarrow> WriteError
        (if is_definition_not_found e then NotFound ''task definition''
         else if is_duplicate_submission e then app_New 409 ''duplicate task submission'' 409
         else if is_invalid_submission e then Validation [(''body'', ''invalid task submission'')]
         else From_other))"

text \<open>The calls of the observer and of the recorder after \<open>Submit\<close>.\<close>

definition account :: "('m, 'w) PlatformRoutes \<Rightarrow> request_ctx \<Rightarrow> string \<Rightarrow> submit_error + Execution \<Rightarrow> 'w \<Rightarrow> 'w" where
  "account deps ctx ty res w =
     (let w1 = (case pt_TaskObserver deps of
            None \<Rightarrow> w
          | Some obs \<Rightarrow> obs ty (case res of Inl _ \<Rightarrow> StatusFailed | Inr _ \<Rightarrow> StatusQueued) 0 w) in
      platform_audit deps ctx ''task.submit'' ''task_execution'' (case res of Inl _ \<Rightarrow> [] | Inr ex \<Rightarrow> ex_ID ex) (isl res) w1)"

definition submitTask :: "('b, 'm) platform_codec \<Rightarrow> ('m, 'w) PlatformRoutes \<Rightarrow> ('b, 'w) Iam_Http.handler" where
  "submitTask C deps r ctx p w = (case pc_submit C (hr_Body r) of
      None \<Rightarrow> (WriteError (Validation [(''body'', ''invalid JSON body'')]), w)
    | Some b \<Rightarrow>
        let (su, es) = submission_of C (pt_TaskCatalog deps) b in
        if es \<noteq> [] then (WriteError (Validation (sort_key fst es)), w)
        else let (res, w1) = pt_Tasks deps su w in (submit_response res, account deps ctx (sm_TaskType b) res w1))"

definition listExecutions :: "('m, 'w) PlatformRoutes \<Rightarrow> ('b, 'w) Iam_Http.handler" where
  "listExecutions deps r ctx p w =
     (let query = \<lparr>eq_TaskType = hr_Query r ''task_type'', eq_Status = hr_Query r ''status'', eq_Page = queryInt r ''page'' 1, eq_Size = queryInt r ''size'' DefaultSize\<rparr> in
      if hr_Query r ''status'' \<noteq> [] \<and> \<not> snd (ParseStatus (hr_Query r ''status''))
      then (WriteError (Validation [(''status'', ''must be one of queued, running, succeeded, failed, cancelled'')]), w)
      else case pt_ListExecutions deps query w of
        (Inl _, w') \<Rightarrow> (WriteError From_other, w')
      | (Inr items, w') \<Rightarrow> (Write 200 (page_json execution_json items), w'))"

definition getExecution :: "('m, 'w) PlatformRoutes \<Rightarrow> ('b, 'w) Iam_Http.handler" where
  "getExecution deps r ctx p w = (case pt_GetExecution deps (p ''executionID'') w of
      (Inl e, w') \<Rightarrow> (WriteError (if e = ErrExecutionNotFound then NotFound ''task execution'' else From_other), w')
    | (Inr ex, w') \<Rightarrow> (Write 200 (execution_json ex), w'))"

definition listTaskTypes :: "('m, 'w) PlatformRoutes \<Rightarrow> ('b, 'w) Iam_Http.handler" where
  "listTaskTypes deps r ctx p w =
     (Write 200 (JArr (map (\<lambda>ty. JObj [(''task_type'', JStr ty)]) (Types (pt_TaskCatalog deps)))), w)"

definition queryTime :: "('b, 'm) platform_codec \<Rightarrow> string \<Rightarrow> int option" where
  "queryTime C v = (if v = [] then None else pc_time C v)"

definition auditLogs :: "('b, 'm) platform_codec \<Rightarrow> ('m, 'w) PlatformRoutes \<Rightarrow> ('b, 'w) Iam_Http.handler" where
  "auditLogs C deps r ctx p w =
     (let q = hr_Query r in
      case pt_Audits deps \<lparr>af_RequestID = q ''request_id'', af_ActorID = q ''actor_id'', af_Action = q ''action'', af_Result = q ''result'',
          af_ResourceType = q ''resource_type'', af_ResourceID = q ''resource_id'', af_From = queryTime C (q ''from''), af_To = queryTime C (q ''to'')\<rparr>
          (queryInt r ''page'' 1) (queryInt r ''size'' 20) w of
        (Inl _, w') \<Rightarrow> (WriteError From_other, w')
      | (Inr result, w') \<Rightarrow> (Write 200 (page_json (event_json C) result), w'))"

text \<open>The handlers know the catalogue of the process when none is given; \<open>h\<close> is its handler.\<close>

definition catalog_of :: "Task_Service.handler \<Rightarrow> ('m, 'w) PlatformRoutes \<Rightarrow> Task_Service.handler TaskCatalog option" where
  "catalog_of h deps = (case pt_TaskCatalog deps of None \<Rightarrow> runtimeTaskCatalog h | Some c \<Rightarrow> Some c)"

definition RegisterPlatformRoutes :: "Task_Service.handler \<Rightarrow> ('b, 'm) platform_codec \<Rightarrow> ('m, 'w) PlatformRoutes \<Rightarrow> ('b, 'w) route list" where
  "RegisterPlatformRoutes h C deps0 =
     (let deps = deps0\<lparr>pt_TaskCatalog := catalog_of h deps0\<rparr> in
      map (\<lambda>(m, q, perm, handle). \<lparr>rt_Method = m, rt_Pattern = q, rt_Guard = Permitted perm, rt_Handler = handle\<rparr>)
       [(''GET'', ''/api/v1/audit-logs'', ''audit:read'', auditLogs C deps),
        (''POST'', ''/api/v1/task-executions'', ''tasks:write'', submitTask C deps),
        (''GET'', ''/api/v1/task-executions'', ''tasks:read'', listExecutions deps),
        (''GET'', ''/api/v1/task-executions/{executionID}'', ''tasks:read'', getExecution deps),
        (''GET'', ''/api/v1/task-types'', ''tasks:read'', listTaskTypes deps)])"

section \<open>What reaches the service\<close>

lemma put_error_nonempty [simp]: "put_error k v es \<noteq> []"
  by (simp add: put_error_def)

text \<open>The value of an optional field as the client means it.\<close>

definition asked :: "('b, 'm) platform_codec \<Rightarrow> string \<Rightarrow> int \<Rightarrow> int \<Rightarrow> bool" where
  "asked C raw fallback v \<longleftrightarrow> (if raw = [] then v = fallback else pc_int C raw = Some v)"

lemma optionalInt_ok:
  "optionalInt C raw fallback lo hi field es = (v, []) \<Longrightarrow> lo \<le> fallback \<Longrightarrow> fallback \<le> hi \<Longrightarrow> es = [] \<and> asked C raw fallback v \<and> lo \<le> v \<and> v \<le> hi"
  by (auto simp: optionalInt_def asked_def split: if_splits option.splits)

definition asked_text :: "('b, 'm) platform_codec \<Rightarrow> string \<Rightarrow> string \<Rightarrow> bool" where
  "asked_text C raw v \<longleftrightarrow> (if raw = [] then v = [] else pc_string C raw = Some v \<and> v \<noteq> [])"

lemma optionalString_ok: "optionalString C raw field es = (v, []) \<Longrightarrow> es = [] \<and> asked_text C raw v"
  by (auto simp: optionalString_def asked_text_def split: if_splits option.splits)

lemma type_errors_ok: "type_errors cat ty es = [] \<longleftrightarrow> es = [] \<and> ty \<noteq> [] \<and> Contains cat ty"
  by (simp add: type_errors_def)

text \<open>
  The submission that the client asks for: registered type, an object as payload, the definition and the key of the
  body, options within the bounds.
\<close>

definition acceptable :: "('b, 'm) platform_codec \<Rightarrow> 'h TaskCatalog option \<Rightarrow> submit_body \<Rightarrow> Submission \<Rightarrow> bool" where
  "acceptable C cat b su \<longleftrightarrow>
     su_TaskType su = sm_TaskType b \<and> Contains cat (sm_TaskType b) \<and> su_Payload su = sm_Payload b \<and> pc_object C (sm_Payload b) \<and>
     asked_text C (sm_DefinitionID b) (su_DefinitionID su) \<and> (su_DefinitionID su = [] \<or> pc_uuid C (su_DefinitionID su)) \<and>
     asked_text C (sm_IdempotencyKey b) (su_IdempotencyKey su) \<and> asked C (sm_MaxRetries b) 3 (su_MaxRetries su) \<and>
     (\<exists>t u a. asked C (sm_TimeoutSeconds b) 300 t \<and> su_Timeout su = t * Second \<and> asked C (sm_UniqueForSeconds b) 0 u \<and> su_UniqueFor su = u * Second \<and>
        asked C (sm_ProcessAfterSeconds b) 0 a \<and> su_ProcessAfter su = a * Second)"

lemma whole_seconds: "0 \<le> v \<Longrightarrow> v \<le> 30 * 24 * 3600 \<Longrightarrow> int64 (v * Second) = v * Second"
  by (rule int64_id) (simp_all add: Second_def)

lemma submission_of_ok:
  assumes "submission_of C cat b = (su, [])"
  shows "acceptable C cat b su \<and> ValidateSubmission su = None"
proof -
  obtain def e3 key e5 retries e6 timeout e7 unique e8 after where
    steps: "optionalString C (sm_DefinitionID b) ''definition_id''
        (if sm_Payload b = [] \<or> \<not> pc_object C (sm_Payload b) then put_error ''payload'' ''must be a JSON object'' (type_errors cat (sm_TaskType b) [])
         else type_errors cat (sm_TaskType b) []) = (def, e3)"
      "optionalString C (sm_IdempotencyKey b) ''idempotency_key''
        (if def \<noteq> [] \<and> \<not> pc_uuid C def then put_error ''definition_id'' ''must be a UUID'' e3 else e3) = (key, e5)"
      "optionalInt C (sm_MaxRetries b) 3 0 MaxSubmissionRetries ''max_retries'' e5 = (retries, e6)"
      "optionalInt C (sm_TimeoutSeconds b) 300 1 (go_div MaxSubmissionTimeout Second) ''timeout_seconds'' e6 = (timeout, e7)"
      "optionalInt C (sm_UniqueForSeconds b) 0 0 (go_div MaxSubmissionUniqueFor Second) ''unique_for_seconds'' e7 = (unique, e8)"
      "optionalInt C (sm_ProcessAfterSeconds b) 0 0 (go_div MaxSubmissionProcessAfter Second) ''process_after_seconds'' e8 = (after, [])"
    and su: "su = \<lparr>su_DefinitionID = def, su_TaskType = sm_TaskType b, su_Payload = sm_Payload b, su_IdempotencyKey = key,
        su_MaxRetries = retries, su_Timeout = int64 (timeout * Second), su_UniqueFor = int64 (unique * Second), su_ProcessAfter = int64 (after * Second)\<rparr>"
    using assms by (auto simp: submission_of_def Let_def split: prod.splits)
  have limits: "go_div MaxSubmissionTimeout Second = 24 * 3600" "go_div MaxSubmissionUniqueFor Second = 7 * 24 * 3600"
    "go_div MaxSubmissionProcessAfter Second = 30 * 24 * 3600" by (simp_all add: submission_bounds go_div_def)
  note a = optionalInt_ok [OF steps(6), unfolded limits]
  then have "e8 = []" by simp
  note u = optionalInt_ok [OF steps(5) [unfolded this], unfolded limits]
  then have "e7 = []" by simp
  note t = optionalInt_ok [OF steps(4) [unfolded this], unfolded limits]
  then have "e6 = []" by simp
  note r = optionalInt_ok [OF steps(3) [unfolded this]]
  then have "e5 = []" by (simp add: MaxSubmissionRetries_def)
  note k = optionalString_ok [OF steps(2) [unfolded this]]
  then have uuid: "def = [] \<or> pc_uuid C def" and "e3 = []" by (auto split: if_splits)
  note d = optionalString_ok [OF steps(1) [unfolded this(2)]]
  then have ty: "Contains cat (sm_TaskType b)" "pc_object C (sm_Payload b)"
    by (auto simp: type_errors_ok split: if_splits)
  have sec: "int64 (timeout * Second) = timeout * Second" "int64 (unique * Second) = unique * Second" "int64 (after * Second) = after * Second"
    using t u a by (simp_all add: whole_seconds)
  have "acceptable C cat b su" using ty uuid d k r t u a by (auto simp: acceptable_def su sec MaxSubmissionRetries_def)
  moreover have "ValidateSubmission su = None" using r t u a unfolding ValidateSubmission_def su sec by (simp add: submission_bounds)
  ultimately show ?thesis ..
qed

lemma submitTask_cases:
  assumes "submitTask C deps r ctx p w = (resp, w')"
  shows "(hs_Status resp = 422 \<and> w' = w) \<or>
    (\<exists>b su res w1. pc_submit C (hr_Body r) = Some b \<and> acceptable C (pt_TaskCatalog deps) b su \<and> ValidateSubmission su = None \<and>
       pt_Tasks deps su w = (res, w1) \<and> resp = submit_response res \<and> w' = account deps ctx (sm_TaskType b) res w1)"
proof (cases "pc_submit C (hr_Body r)")
  case None
  then show ?thesis using assms by (auto simp: submitTask_def)
next
  case (Some b)
  obtain su es where su: "submission_of C (pt_TaskCatalog deps) b = (su, es)" by force
  obtain res w1 where w1: "pt_Tasks deps su w = (res, w1)" by force
  show ?thesis
  proof (cases "es = []")
    case True
    then show ?thesis using assms Some su w1 submission_of_ok [of C "pt_TaskCatalog deps" b su] by (auto simp: submitTask_def)
  next
    case False
    then show ?thesis using assms Some su by (auto simp: submitTask_def)
  qed
qed

section \<open>Submission over HTTP\<close>

text \<open>
  \<open>Submit\<close> with the outbox on the part of the world that holds the tables and the queue, as \<open>BuildAPI\<close> wires it; \<open>fresh\<close>
  is \<open>newUUID\<close> and \<open>now\<close> the clock at the time of the call.
\<close>

definition platform_Submit ::
    "('w \<Rightarrow> task_db \<times> 'q) \<Rightarrow> (task_db \<times> 'q \<Rightarrow> 'w \<Rightarrow> 'w) \<Rightarrow> task_env \<Rightarrow> ('q, publish_error) publisher option \<Rightarrow> (publish_error \<Rightarrow> string)
      \<Rightarrow> ('w \<Rightarrow> string) \<Rightarrow> ('w \<Rightarrow> int) \<Rightarrow> Submission \<Rightarrow> ('w, submit_error, Execution) op" where
  "platform_Submit get put env publisher errText fresh now su w =
     (case Submit env True publisher errText (fresh w) (now w) su (get w) of (r, t) \<Rightarrow> (r, put t w))"

text \<open>
  The row and the message that an acceptable body leads to, as the dispatcher reads the message back, and the execution
  that the client is shown; \<open>normal\<close> is the form in which PostgreSQL keeps JSON.
\<close>

definition stored_as_asked ::
    "('b, 'm) platform_codec \<Rightarrow> submit_body \<Rightarrow> (string \<Rightarrow> string option) \<Rightarrow> Execution \<Rightarrow> task_db \<Rightarrow> task_db \<Rightarrow> bool" where
  "stored_as_asked C b normal ex d d' \<longleftrightarrow>
     (\<exists>row m key def t u a. row \<in> set (executions d') \<and> m \<in> set (outbox d') \<and> te_id row \<notin> te_id ` set (executions d) \<and>
        te_task_type row = sm_TaskType b \<and> normal (sm_Payload b) = Some (te_payload row) \<and>
        asked_text C (sm_IdempotencyKey b) key \<and> te_idempotency_key row = nullableText key \<and>
        asked_text C (sm_DefinitionID b) def \<and> nullableUUID def = Some (te_definition_id row) \<and>
        ex_ID ex = formatUUID (Some (te_id row)) \<and> ex_TaskType ex = sm_TaskType b \<and> ex_IdempotencyKey ex = key \<and>
        ex_DefinitionID ex = formatUUID (te_definition_id row) \<and> ex_Payload ex = te_payload row \<and> ex_Status ex = StatusQueued \<and>
        ob_execution_id m = te_id row \<and>
        (let pp = pendingFromRow \<lparr>pr_ExecutionID = te_id row, pr_ExecutionStatus = te_status row, pr_Outbox = m\<rparr>; po = pp_Options pp in
         pp_Message pp = \<lparr>msg_ExecutionID = ex_ID ex, msg_TaskType = sm_TaskType b, msg_Payload = te_payload row\<rparr> \<and>
         asked C (sm_MaxRetries b) 3 (po_MaxRetries po) \<and>
         asked C (sm_TimeoutSeconds b) 300 t \<and> po_Timeout po = t * Second \<and>
         asked C (sm_UniqueForSeconds b) 0 u \<and> po_UniqueFor po = u * Second \<and>
         asked C (sm_ProcessAfterSeconds b) 0 a \<and> po_ProcessAfter po = a * Second))"

lemma acceptable_stored:
  assumes "Submit env True publisher errText newID now su (d, q) = (Inr ex, (d', q'))" and "task_rely env" "task_inv d" and ok: "acceptable C cat b su"
  shows "stored_as_asked C b (jsonb (env (db_calls d) d)) ex d d'"
proof -
  obtain t u a where tua: "asked C (sm_TimeoutSeconds b) 300 t" "su_Timeout su = t * Second" "asked C (sm_UniqueForSeconds b) 0 u" "su_UniqueFor su = u * Second"
    "asked C (sm_ProcessAfterSeconds b) 0 a" "su_ProcessAfter su = a * Second"
    using ok unfolding acceptable_def by blast
  have b: "asked C (sm_MaxRetries b) 3 (su_MaxRetries su)" "su_TaskType su = sm_TaskType b" "su_Payload su = sm_Payload b"
    "asked_text C (sm_DefinitionID b) (su_DefinitionID su)" "asked_text C (sm_IdempotencyKey b) (su_IdempotencyKey su)"
    using ok by (simp_all add: acceptable_def)
  obtain row m where rm: "row \<in> set (executions d')" "m \<in> set (outbox d')" "te_id row \<notin> te_id ` set (executions d)"
    "ex_ID ex = formatUUID (Some (te_id row))" "te_task_type row = su_TaskType su" "te_idempotency_key row = nullableText (su_IdempotencyKey su)"
    "nullableUUID (su_DefinitionID su) = Some (te_definition_id row)" "jsonb (env (db_calls d) d) (su_Payload su) = Some (te_payload row)"
    "ex_TaskType ex = su_TaskType su" "ex_IdempotencyKey ex = su_IdempotencyKey su" "ex_DefinitionID ex = formatUUID (te_definition_id row)"
    "ex_Payload ex = te_payload row" "ex_Status ex = StatusQueued" "ob_execution_id m = te_id row"
    "pp_Message (pendingFromRow \<lparr>pr_ExecutionID = te_id row, pr_ExecutionStatus = te_status row, pr_Outbox = m\<rparr>) =
      \<lparr>msg_ExecutionID = ex_ID ex, msg_TaskType = su_TaskType su, msg_Payload = te_payload row\<rparr>"
    "let po = pp_Options (pendingFromRow \<lparr>pr_ExecutionID = te_id row, pr_ExecutionStatus = te_status row, pr_Outbox = m\<rparr>) in
     po_MaxRetries po = su_MaxRetries su \<and> po_Timeout po = su_Timeout su - su_Timeout su mod Second \<and>
     po_UniqueFor po = su_UniqueFor su - su_UniqueFor su mod Second \<and> po_ProcessAfter po = su_ProcessAfter su - su_ProcessAfter su mod Second"
    using submission_stored_exactly [OF assms(1-3)] unfolding Let_def by metis
  show ?thesis unfolding stored_as_asked_def using rm tua b
    by (intro exI [of _ row] exI [of _ m] exI [of _ "su_IdempotencyKey su"] exI [of _ "su_DefinitionID su"] exI [of _ t] exI [of _ u] exI [of _ a])
      (simp add: Let_def)
qed

lemma submit_publish_succeeds: "fst (submit_publish env publisher message po ex s) = Inr ex"
  by (auto simp: submit_publish_def bindE_def tryE_def retE_def split: option.split prod.split sum.split)

lemma submit_publish_never: "submit_publish env publisher message po ex s \<noteq> (Inl e, s')"
  using submit_publish_succeeds [of env publisher message po ex s] by auto

lemma Submit_validated: "ValidateSubmission su = None \<Longrightarrow> Submit env True publisher errText newID now su s = (Inl e, s') \<Longrightarrow> \<exists>x. e = SubmitStore x"
  by (auto simp: Submit_def Let_def bindE_eq_Inl mapErrE_eq_Inl submit_publish_never)

text \<open>A refused request: nothing has run but the check of the permission.\<close>

definition turned_back :: "'w Application \<Rightarrow> string \<Rightarrow> response \<Rightarrow> 'w \<Rightarrow> 'w \<Rightarrow> bool" where
  "turned_back app perm resp w w' \<longleftrightarrow> 400 \<le> hs_Status resp \<and> (w' = w \<or> (\<exists>ctx i. w' = snd (ap_Authorize app ctx i perm w)))"

lemma permitted_cases:
  assumes "mounted parse app \<lparr>rt_Method = m, rt_Pattern = q, rt_Guard = Permitted perm, rt_Handler = next\<rparr> r ctx p w = (resp, w')"
  shows "turned_back app perm resp w w' \<or>
    (\<exists>raw claims w1. ExtractAccessToken r = Inr raw \<and> parse w raw = Inr claims \<and>
       ap_Authorize app (ctx\<lparr>rq_Subject := ac_Subject claims\<rparr>) (ac_Subject claims) perm w = (Inr (), w1) \<and>
       next r (ctx\<lparr>rq_Subject := ac_Subject claims\<rparr>) p w1 = (resp, w'))"
proof -
  have "w' = snd (ap_Authorize app c i perm w)" if "ap_Authorize app c i perm w = (x, w')" for c i x using that by simp
  then show ?thesis using assms unfolding mounted_def Authenticate_def RequirePermission_def turned_back_def
    by (auto simp: writeIAMError_refuses split: sum.splits if_splits prod.splits) (metis snd_conv)+
qed

lemma platform_submit_route:
  "find (\<lambda>rt. rt_Method rt = ''POST'' \<and> rt_Pattern rt = ''/api/v1/task-executions'') (RegisterPlatformRoutes h C deps) =
     Some \<lparr>rt_Method = ''POST'', rt_Pattern = ''/api/v1/task-executions'', rt_Guard = Permitted ''tasks:write'',
       rt_Handler = submitTask C (deps\<lparr>pt_TaskCatalog := catalog_of h deps\<rparr>)\<rparr>"
  by (simp add: RegisterPlatformRoutes_def Let_def)

lemma account_catalog [simp]: "account (deps\<lparr>pt_TaskCatalog := c\<rparr>) ctx ty res w = account deps ctx ty res w"
  by (simp add: account_def platform_audit_def split: option.split)

lemma submit_response_422: "hs_Status (submit_response (Inl (SubmitStore e))) \<noteq> 422"
  by (simp add: submit_response_def)

lemma submit_response_202: "hs_Status (submit_response res) = 202 \<Longrightarrow> \<exists>ex. res = Inr ex"
  by (auto simp: submit_response_def split: sum.splits if_splits)

text \<open>
  C31: submissions over HTTP, end to end. A request to submit a task is either turned back, and nothing has run but the
  check of the permission, or it carries a token that is accepted and whose subject \<open>Authorize\<close> has granted
  \<open>tasks:write\<close>. Then it is answered 422 without any effect, or the body names a registered type with an object as
  payload and \<open>Submit\<close> runs exactly once, on exactly the submission the body asks for, followed by one observation and one
  audit record with its result. When the answer is 202 the tables hold a new execution of that type with the payload (in
  the form PostgreSQL keeps JSON), the definition and the idempotency key of the body, the answer shows this execution,
  and there is a message from which the dispatcher reads this execution, its type and payload, and exactly the retries
  and seconds that the client asked for, or the defaults: no product, no conversion to 32 bits and no rounding changes
  them.
\<close>

theorem http_submission_exact:
  assumes lens: "\<forall>t w. get (put t w) = t" and rely: "task_rely env"
    and tasks: "pt_Tasks deps = platform_Submit get put env publisher errText fresh now"
    and route: "chi (map (\<lambda>rt. (rt_Method rt, rt_Pattern rt)) (RegisterPlatformRoutes h C deps)) r = Matched ''POST'' ''/api/v1/task-executions'' p"
    and run: "ServeHTTP chi parse app (RegisterPlatformRoutes h C deps) r ctx w = (resp, w')"
  shows "turned_back app ''tasks:write'' resp w w' \<or>
    (\<exists>raw claims w1. ExtractAccessToken r = Inr raw \<and> parse w raw = Inr claims \<and>
       ap_Authorize app (ctx\<lparr>rq_Subject := ac_Subject claims\<rparr>) (ac_Subject claims) ''tasks:write'' w = (Inr (), w1) \<and>
       (hs_Status resp = 422 \<and> w' = w1 \<or>
        hs_Status resp \<noteq> 422 \<and> (\<exists>b su res w2. pc_submit C (hr_Body r) = Some b \<and> Contains (catalog_of h deps) (sm_TaskType b) \<and> pc_object C (sm_Payload b) \<and>
           acceptable C (catalog_of h deps) b su \<and> pt_Tasks deps su w1 = (res, w2) \<and> resp = submit_response res \<and> w' = account deps (ctx\<lparr>rq_Subject := ac_Subject claims\<rparr>) (sm_TaskType b) res w2 \<and>
           (hs_Status resp = 202 \<longrightarrow> task_inv (fst (get w1)) \<longrightarrow>
              (\<exists>ex. res = Inr ex \<and> hs_Body resp = hs_Body (Write 202 (execution_json ex)) \<and>
                 stored_as_asked C b (jsonb (env (db_calls (fst (get w1))) (fst (get w1)))) ex (fst (get w1)) (fst (get w2)))))))"
proof -
  let ?deps = "deps\<lparr>pt_TaskCatalog := catalog_of h deps\<rparr>" and ?ctx = "\<lambda>claims. ctx\<lparr>rq_Subject := ac_Subject claims\<rparr>"
  have "mounted parse app \<lparr>rt_Method = ''POST'', rt_Pattern = ''/api/v1/task-executions'', rt_Guard = Permitted ''tasks:write'',
      rt_Handler = submitTask C ?deps\<rparr> r ctx p w = (resp, w')"
    using run route by (simp add: ServeHTTP_def platform_submit_route)
  from permitted_cases [OF this] consider "turned_back app ''tasks:write'' resp w w'"
    | raw claims w1 where "ExtractAccessToken r = Inr raw" "parse w raw = Inr claims"
      "ap_Authorize app (?ctx claims) (ac_Subject claims) ''tasks:write'' w = (Inr (), w1)" "submitTask C ?deps r (?ctx claims) p w1 = (resp, w')"
    by blast
  then show ?thesis
  proof cases
    case 2
    from submitTask_cases [OF 2(4)] consider "hs_Status resp = 422" "w' = w1"
      | b su res w2 where "pc_submit C (hr_Body r) = Some b" "acceptable C (catalog_of h deps) b su" "ValidateSubmission su = None"
        "pt_Tasks deps su w1 = (res, w2)" "resp = submit_response res" "w' = account deps (?ctx claims) (sm_TaskType b) res w2"
      by auto
    then show ?thesis
    proof cases
      case s: 2
      obtain d q where before: "get w1 = (d, q)" by force
      obtain r' d' q' where made: "Submit env True publisher errText (fresh w1) (now w1) su (d, q) = (r', (d', q'))" by (metis prod.exhaust)
      have "res = r'" "w2 = put (d', q') w1" using s(4) before made by (simp_all add: tasks platform_Submit_def)
      note sub = before made this(1) this(2) [THEN arg_cong, of get, unfolded lens [rule_format]]
      have "hs_Status resp \<noteq> 422"
        using s(3,5) sub Submit_validated [of su env publisher errText] submit_response_422 by (cases r') (fastforce, simp add: submit_response_def)
      moreover have "\<exists>ex. res = Inr ex \<and> hs_Body resp = hs_Body (Write 202 (execution_json ex)) \<and>
          stored_as_asked C b (jsonb (env (db_calls (fst (get w1))) (fst (get w1)))) ex (fst (get w1)) (fst (get w2))" if ok: "hs_Status resp = 202" "task_inv (fst (get w1))"
      proof -
        obtain ex where "res = Inr ex" using submit_response_202 ok(1) s(5) by blast
        then show ?thesis using acceptable_stored [of env publisher errText "fresh w1" "now w1" su d q ex d' q'] sub ok(2) rely s(2,5)
          by (auto simp: submit_response_def)
      qed
      moreover have "Contains (catalog_of h deps) (sm_TaskType b)" "pc_object C (sm_Payload b)" using s(2) by (simp_all add: acceptable_def)
      ultimately show ?thesis using 2(1-3) s(1,2,4-6) by blast
    qed (use 2 in blast)
  qed blast
qed

section \<open>Witness\<close>

text \<open>A client submits \<open>sample_submission\<close> as a JSON body; the service knows one type and grants the permission.\<close>

definition submit_app :: "(task_db \<times> nat) Application" where
  "submit_app =
     \<lparr>ap_Login = (\<lambda>_ _ _. failE ErrInvalidCredentials), ap_Refresh = (\<lambda>_ _. failE ErrInvalidCredentials), ap_Logout = (\<lambda>_ _. failE ErrInvalidCredentials), ap_CurrentUser = (\<lambda>_ _. failE ErrInvalidCredentials),
      ap_Preferences = (\<lambda>_ _. failE ErrInvalidCredentials), ap_PutPreferences = (\<lambda>_ _ _. failE ErrInvalidCredentials), ap_Users = (\<lambda>_ _. failE ErrInvalidCredentials),
      ap_CreateUser = (\<lambda>_ _. failE ErrInvalidCredentials), ap_UpdateUser = (\<lambda>_ _ _. failE ErrInvalidCredentials), ap_ResetUserPassword = (\<lambda>_ _ _. failE ErrInvalidCredentials),
      ap_SetUserActive = (\<lambda>_ _ _. failE ErrInvalidCredentials), ap_ReplaceUserRoles = (\<lambda>_ _ _. failE ErrInvalidCredentials), ap_Roles = (\<lambda>_. failE ErrInvalidCredentials),
      ap_Role = (\<lambda>_ _. failE ErrInvalidCredentials), ap_CreateRole = (\<lambda>_ _. failE ErrInvalidCredentials), ap_UpdateRole = (\<lambda>_ _ _. failE ErrInvalidCredentials),
      ap_DeleteRole = (\<lambda>_ _. failE ErrInvalidCredentials), ap_ReplaceRolePermissions = (\<lambda>_ _ _. failE ErrInvalidCredentials), ap_Permissions = (\<lambda>_. failE ErrInvalidCredentials),
      ap_AssignRole = (\<lambda>_ _ _. failE ErrInvalidCredentials), ap_GrantPermission = (\<lambda>_ _ _. failE ErrInvalidCredentials), ap_Authorize = (\<lambda>_ _ _. retE ())\<rparr>"

definition submit_body_sample :: submit_body where
  "submit_body_sample = \<lparr>sm_DefinitionID = [], sm_TaskType = ''t'', sm_Payload = ''{}'', sm_IdempotencyKey = ''k'', sm_MaxRetries = [], sm_TimeoutSeconds = ''60'',
     sm_UniqueForSeconds = [], sm_ProcessAfterSeconds = []\<rparr>"

definition submit_codec :: "(unit, unit) platform_codec" where
  "submit_codec = \<lparr>pc_submit = (\<lambda>_. Some submit_body_sample), pc_object = (\<lambda>p. p = ''{}''), pc_string = Some, pc_int = ParseInt, pc_uuid = (\<lambda>_. False),
     pc_time = (\<lambda>_. None), pc_metadata = (\<lambda>_. JNull)\<rparr>"

definition submit_deps :: "(unit, task_db \<times> nat) PlatformRoutes" where
  "submit_deps = \<lparr>pt_Audits = (\<lambda>_ _ _. failE RepositoryRequired),
     pt_Tasks = platform_Submit (\<lambda>w. w) (\<lambda>t _. t) quiet None (\<lambda>_. []) (\<lambda>_. ''q1'') (\<lambda>_. 5), pt_GetExecution = (\<lambda>_. failE ErrExecutionNotFound),
     pt_ListExecutions = (\<lambda>_. failE ErrExecutionConflict), pt_Recorder = None, pt_TaskObserver = None,
     pt_TaskCatalog = Some \<lparr>cat_registrations = [(''t'', \<lambda>_. Inr 7)], cat_types = {''t''}\<rparr>\<rparr>"

lemma submit_body_valid: "submission_of submit_codec (pt_TaskCatalog submit_deps) submit_body_sample = (sample_submission, [])"
proof -
  have "ParseInt ''60'' = Some 60" by code_simp
  moreover have "(24 * 3600 :: int) = 86400" by simp
  ultimately show ?thesis
    by (simp add: submission_of_def submit_codec_def submit_deps_def submit_body_sample_def sample_submission_def type_errors_def optionalString_def
      optionalInt_def Contains_def whole_seconds submission_bounds go_div_def Let_def) (simp add: int64_id)
qed

lemma submit_served:
  "ServeHTTP (\<lambda>_ _. Matched ''POST'' ''/api/v1/task-executions'' (\<lambda>_. [])) (\<lambda>_ _. Inr (issued_claims demo_jwt ''ada'' 1000000000000)) submit_app
     (RegisterPlatformRoutes (\<lambda>_. Inr 0) submit_codec submit_deps) http_request http_ctx (sample_db, 0) =
   (Write 202 (execution_json (executionFromRow sample_row)), (submitted_db, 0))"
proof -
  have cat: "submit_deps\<lparr>pt_TaskCatalog := catalog_of (\<lambda>_. Inr 0) submit_deps\<rparr> = submit_deps" by (simp add: catalog_of_def submit_deps_def)
  have "pc_submit submit_codec () = Some submit_body_sample" by (simp add: submit_codec_def)
  moreover have "pt_Tasks submit_deps sample_submission (sample_db, 0) = (Inr (executionFromRow sample_row), (submitted_db, 0))"
    by (simp add: submit_deps_def platform_Submit_def sample_submit)
  ultimately have "submitTask submit_codec submit_deps http_request ctx p (sample_db, 0) = (Write 202 (execution_json (executionFromRow sample_row)), (submitted_db, 0))" for ctx p
    using submit_body_valid by (simp add: submitTask_def submit_response_def account_def platform_audit_def) (simp add: submit_deps_def)
  then show ?thesis
    by (simp add: ServeHTTP_def platform_submit_route cat mounted_def Authenticate_def http_token_extracted RequirePermission_def submit_app_def Let_def issued_claims_def)
qed

theorem http_submission_exact_witness:
  "\<exists>ex. stored_as_asked submit_codec submit_body_sample (jsonb sample_db) ex sample_db submitted_db \<and> ex_IdempotencyKey ex = ''k''"
proof -
  have tasks: "pt_Tasks submit_deps = platform_Submit (\<lambda>w. w) (\<lambda>t _. t) quiet None (\<lambda>_. []) (\<lambda>_. ''q1'') (\<lambda>_. 5)" by (simp add: submit_deps_def)
  have plain: "ap_Authorize submit_app c i q (sample_db, 0) = (Inr (), w1) \<Longrightarrow> w1 = (sample_db, 0)" "account submit_deps c ty res w2 = w2"
    "pc_submit submit_codec x = Some submit_body_sample" for c i q w1 ty res w2 x
    by (simp_all add: submit_app_def account_def platform_audit_def submit_deps_def submit_codec_def)
  from http_submission_exact [OF _ quiet_rely tasks _ submit_served, of "\<lambda>_. []"]
  obtain ex where ex: "stored_as_asked submit_codec submit_body_sample (jsonb sample_db) ex sample_db submitted_db"
    using sample_inv(1) by (auto simp: turned_back_def plain quiet_def dest: plain(1))
  have "asked_text submit_codec (sm_IdempotencyKey submit_body_sample) v \<Longrightarrow> v = ''k''" for v
    by (simp add: asked_text_def submit_body_sample_def submit_codec_def)
  then have "ex_IdempotencyKey ex = ''k''" using ex unfolding stored_as_asked_def by metis
  with ex show ?thesis by blast
qed

end
