(* ===== verification/Mailer.thy ===== *)
theory Mailer
  imports Auth_Cache
begin

text \<open>
  Delivery of email codes over SMTP: \<open>src/pkg/platform/mailer/smtp.go\<close>. The network, \<open>net/smtp\<close> and \<open>crypto/tls\<close> are the
  parameter \<open>transport\<close>, which performs one action at a time; the parser of mail addresses and HMAC are parameters as well.
\<close>

section \<open>Data\<close>

record tls_config =
  tl_ServerName :: string
  tl_MinVersion :: int
  tl_InsecureSkipVerify :: bool
  tl_RootCAs :: "string option"

record mail_config =
  ml_Enabled :: bool
  ml_Host :: string
  ml_Port :: string
  ml_Username :: string
  ml_Password :: string
  ml_From :: string
  ml_TLSMode :: string
  ml_TLSConfig :: "tls_config option"

text \<open>The mechanisms of authentication: the one of the standard library, and the one for plain transport.\<close>

datatype smtp_auth = PlainAuth (auth_username: string) (auth_password: string) (auth_host: string) | explicitPlainAuth (auth_host: string) (auth_username: string) (auth_password: string)

datatype smtp_action =
    Dial string | Handshake tls_config | Greeting string | Extension string | StartTLS tls_config | Auth smtp_auth
  | MailFrom string | RcptTo string | DataCommand | Body string | EndOfData | Quit | Hangup

text \<open>An error of the network: whether it is a timeout, and the code when it is a reply of the server.\<close>

record net_error =
  nt_Timeout :: bool
  nt_Code :: "int option"

type_synonym 'w transport = "smtp_action \<Rightarrow> 'w \<Rightarrow> net_error option \<times> 'w"

text \<open>\<open>MailCanceled\<close> is \<open>context.Canceled\<close>; all others but \<open>MailRejected\<close> wrap \<open>iam.ErrAuthenticationUnavailable\<close>.\<close>

datatype mail_error = MailUnavailable | ErrTLS | ErrAuthentication | ErrTimeout | MailRejected | MailCanceled

definition mail_error_is :: "mail_error \<Rightarrow> iam_error" where
  "mail_error_is e = (case e of
      MailRejected \<Rightarrow> ErrMailRejected
    | MailCanceled \<Rightarrow> OtherError ''context canceled''
    | _ \<Rightarrow> ErrAuthenticationUnavailable)"

datatype mail_ctx = MailDeadline | MailStopped

text \<open>What is logged: the digest of the recipient, never the address or the code.\<close>

datatype mail_note = DeliveryFailed string string mail_error | DevelopmentStored string string

section \<open>Operations\<close>

definition transportError :: "mail_error \<Rightarrow> net_error \<Rightarrow> mail_error" where
  "transportError fallback e = (if nt_Timeout e then ErrTimeout else fallback)"

definition deliveryError :: "net_error \<Rightarrow> mail_error" where
  "deliveryError e = (case nt_Code e of
      Some c \<Rightarrow> if c \<in> {450, 452, 550, 551, 552, 553, 554} then MailRejected else transportError MailUnavailable e
    | None \<Rightarrow> transportError MailUnavailable e)"

definition explicitPlainAuth_Start :: "smtp_auth \<Rightarrow> string \<Rightarrow> mail_error + string \<times> string" where
  "explicitPlainAuth_Start a server =
     (if server \<noteq> auth_host a then Inl ErrAuthentication
      else Inr (''PLAIN'', [CHR 0x00] @ auth_username a @ [CHR 0x00] @ auth_password a))"

definition explicitPlainAuth_Next :: "bool \<Rightarrow> mail_error + unit" where
  "explicitPlainAuth_Next again = (if again then Inl ErrAuthentication else Inr ())"

definition recipientDigest :: "hmac \<Rightarrow> (string \<Rightarrow> string) \<Rightarrow> string \<Rightarrow> string \<Rightarrow> string" where
  "recipientDigest hm lower pepper email = hex_encode (hm pepper (normal_email lower email))"

definition JoinHostPort :: "string \<Rightarrow> string \<Rightarrow> string" where
  "JoinHostPort host port = (if CHR '':'' \<in> set host then ''['' @ host @ '']:'' @ port else host @ '':'' @ port)"

text \<open>\<open>tls.VersionTLS12\<close> is 0x0303.\<close>

definition mail_tls :: "mail_config \<Rightarrow> tls_config" where
  "mail_tls cfg = (case ml_TLSConfig cfg of
      None \<Rightarrow> \<lparr>tl_ServerName = ml_Host cfg, tl_MinVersion = 0x0303, tl_InsecureSkipVerify = False, tl_RootCAs = None\<rparr>
    | Some c \<Rightarrow> c\<lparr>tl_ServerName := ml_Host cfg, tl_MinVersion := 0x0303, tl_InsecureSkipVerify := False\<rparr>)"

definition crlf :: string where
  "crlf = [CHR 0x0D, CHR 0x0A]"

definition mail_text :: "string \<Rightarrow> string \<Rightarrow> string \<Rightarrow> string" where
  "mail_text sender recipient code =
     ''From: '' @ sender @ crlf @ ''To: '' @ recipient @ crlf @ ''Subject: Your verification code'' @ crlf @ ''MIME-Version: 1.0'' @ crlf @
     ''Content-Type: text/plain; charset=UTF-8'' @ crlf @ crlf @ ''Your verification code is '' @ code @ ''. It expires in 10 minutes.'' @ crlf"

text \<open>What happens on a connection, with the error that each failing action is reported as.\<close>

type_synonym smtp_step = "smtp_action \<times> (net_error \<Rightarrow> mail_error)"

definition smtp_steps :: "mail_config \<Rightarrow> string \<Rightarrow> string \<Rightarrow> string \<Rightarrow> smtp_step list" where
  "smtp_steps cfg sender recipient code =
     (if ml_TLSMode cfg = ''tls'' then [(Handshake (mail_tls cfg), transportError ErrTLS)] else []) @
     [(Greeting (ml_Host cfg), transportError MailUnavailable)] @
     (if ml_TLSMode cfg = ''starttls'' then [(Extension ''STARTTLS'', \<lambda>_. ErrTLS), (StartTLS (mail_tls cfg), transportError ErrTLS)] else []) @
     [(Auth (if ml_TLSMode cfg = ''plain'' then explicitPlainAuth (ml_Host cfg) (ml_Username cfg) (ml_Password cfg)
             else PlainAuth (ml_Username cfg) (ml_Password cfg) (ml_Host cfg)), transportError ErrAuthentication),
      (MailFrom sender, transportError MailUnavailable), (RcptTo recipient, deliveryError), (DataCommand, deliveryError),
      (Body (mail_text sender recipient code), transportError MailUnavailable), (EndOfData, deliveryError), (Quit, transportError MailUnavailable)]"

fun run_steps :: "'w transport \<Rightarrow> smtp_step list \<Rightarrow> 'w \<Rightarrow> (mail_error + unit) \<times> 'w" where
  "run_steps T [] w = (Inr (), w)"
| "run_steps T ((a, bad) # ss) w = (case T a w of
      (Some e, w') \<Rightarrow> (Inl (bad e), w')
    | (None, w') \<Rightarrow> run_steps T ss w')"

text \<open>\<open>ctxErr\<close> is the error of the context, with its timeout, when the session is over.\<close>

definition mail_session ::
    "'w transport \<Rightarrow> ('w \<Rightarrow> mail_ctx option) \<Rightarrow> mail_config \<Rightarrow> string \<Rightarrow> string \<Rightarrow> string \<Rightarrow> 'w \<Rightarrow> (mail_error + unit) \<times> 'w" where
  "mail_session T ctxErr cfg sender recipient code w =
     (let (r, w') = (case T (Dial (JoinHostPort (ml_Host cfg) (ml_Port cfg))) w of
            (Some e, w1) \<Rightarrow> (Inl (transportError MailUnavailable e), w1)
          | (None, w1) \<Rightarrow> let (r1, w2) = run_steps T (smtp_steps cfg sender recipient code) w1 in (r1, snd (T Hangup w2))) in
      (case r of
         Inr _ \<Rightarrow> Inr ()
       | Inl e \<Rightarrow> Inl (case ctxErr w' of Some MailDeadline \<Rightarrow> ErrTimeout | Some MailStopped \<Rightarrow> MailCanceled | None \<Rightarrow> e), w'))"

definition deliver ::
    "(string \<Rightarrow> string option) \<Rightarrow> 'w transport \<Rightarrow> ('w \<Rightarrow> mail_ctx option) \<Rightarrow> mail_config \<Rightarrow> string \<Rightarrow> string \<Rightarrow> 'w \<Rightarrow> (mail_error + unit) \<times> 'w" where
  "deliver parse T ctxErr cfg email code w =
     (if parse email \<noteq> Some email \<or> CHR 0x0D \<in> set email \<or> CHR 0x0A \<in> set email then (Inl MailRejected, w)
      else case parse (ml_From cfg) of
        None \<Rightarrow> (Inl MailUnavailable, w)
      | Some sender \<Rightarrow>
          if ml_TLSMode cfg \<notin> {''plain'', ''tls'', ''starttls''} then (Inl ErrTLS, w)
          else mail_session T ctxErr cfg sender email code w)"

definition SendCode ::
    "hmac \<Rightarrow> (string \<Rightarrow> string) \<Rightarrow> (string \<Rightarrow> string option) \<Rightarrow> 'w transport \<Rightarrow> ('w \<Rightarrow> mail_ctx option) \<Rightarrow> mail_config \<Rightarrow> bool \<Rightarrow> string
      \<Rightarrow> string \<Rightarrow> string \<Rightarrow> string \<Rightarrow> 'w \<Rightarrow> (mail_error + unit) \<times> 'w \<times> mail_note list" where
  "SendCode hm lower parse T ctxErr cfg has_logger pepper email purpose code w =
     (let digest = recipientDigest hm lower pepper email in
      if \<not> ml_Enabled cfg then (Inr (), w, if has_logger then [DevelopmentStored digest purpose] else [])
      else let (r, w') = deliver parse T ctxErr cfg email code w in
        (r, w', case r of Inl e \<Rightarrow> if has_logger then [DeliveryFailed digest purpose e] else [] | Inr _ \<Rightarrow> []))"

section \<open>What goes over the wire\<close>

text \<open>A transport that writes down what it performs and how that ended.\<close>

definition traced :: "'w transport \<Rightarrow> ('w \<times> (smtp_action \<times> net_error option) list) transport" where
  "traced T a = (\<lambda>(w, tr). case T a w of (e, w') \<Rightarrow> (e, (w', tr @ [(a, e)])))"

text \<open>Actions that reveal the account, an address or the code, and those that make a connection safe.\<close>

fun sensitive :: "smtp_action \<Rightarrow> bool" where
  "sensitive (Auth _) = True"
| "sensitive (MailFrom _) = True"
| "sensitive (RcptTo _) = True"
| "sensitive (Body _) = True"
| "sensitive _ = False"

fun securing :: "mail_config \<Rightarrow> smtp_action \<Rightarrow> bool" where
  "securing cfg (Handshake c) = (tl_ServerName c = ml_Host cfg \<and> tl_MinVersion c = 0x0303 \<and> \<not> tl_InsecureSkipVerify c)"
| "securing cfg (StartTLS c) = (tl_ServerName c = ml_Host cfg \<and> tl_MinVersion c = 0x0303 \<and> \<not> tl_InsecureSkipVerify c)"
| "securing cfg _ = False"

text \<open>Nothing sensitive before a successful verified handshake; \<open>s\<close> says whether there was one.\<close>

fun secured :: "mail_config \<Rightarrow> bool \<Rightarrow> (smtp_action \<times> net_error option) list \<Rightarrow> bool" where
  "secured cfg s [] = True"
| "secured cfg s ((a, x) # tr) = ((sensitive a \<longrightarrow> s) \<and> secured cfg (s \<or> (securing cfg a \<and> x = None)) tr)"

lemma traced_apply: "T a w = (e, w') \<Longrightarrow> traced T a (w, tr) = (e, (w', tr @ [(a, e)]))"
  by (simp add: traced_def)

lemma secured_append: "secured cfg s (tr @ u) \<longleftrightarrow> secured cfg s tr \<and> secured cfg (s \<or> (\<exists>b. (b, None) \<in> set tr \<and> securing cfg b)) u"
proof (induction cfg s tr rule: secured.induct)
  case (2 cfg s a x tr)
  have "(s \<or> (securing cfg a \<and> x = None) \<or> (\<exists>b. (b, None) \<in> set tr \<and> securing cfg b)) =
      (s \<or> (\<exists>b. (b, None) \<in> set ((a, x) # tr) \<and> securing cfg b))" by auto
  then show ?case using 2 by (simp add: disj_assoc)
qed simp

lemma secured_cut:
  "secured cfg s (map (\<lambda>s. (fst s, None)) (pre @ (a, bad) # post)) \<Longrightarrow> secured cfg s (map (\<lambda>s. (fst s, None)) pre @ [(a, Some x)])"
  by (simp add: secured_append)

text \<open>How a session ends: after all steps, or after the first that fails, which decides the error.\<close>

lemma run_steps_trace:
  "run_steps (traced T) ss (w, tr) = (r, (w', tr')) \<Longrightarrow>
    (case r of
       Inr _ \<Rightarrow> tr' = tr @ map (\<lambda>s. (fst s, None)) ss
     | Inl e \<Rightarrow> \<exists>pre a bad post x. ss = pre @ (a, bad) # post \<and> tr' = tr @ map (\<lambda>s. (fst s, None)) pre @ [(a, Some x)] \<and> e = bad x)"
proof (induction ss arbitrary: w tr)
  case (Cons s ss)
  obtain a bad where s: "s = (a, bad)" by force
  obtain e w1 where t: "T a w = (e, w1)" by force
  show ?case
  proof (cases e)
    case None
    then have "run_steps (traced T) ss (w1, tr @ [(a, None)]) = (r, (w', tr'))" using Cons.prems s t by (simp add: traced_apply)
    note ih = Cons.IH [OF this]
    show ?thesis
    proof (cases r)
      case (Inl x)
      then obtain pre b f post y where "ss = pre @ (b, f) # post" "tr' = tr @ (a, None) # map (\<lambda>s. (fst s, None)) pre @ [(b, Some y)]" "x = f y"
        using ih by auto
      then show ?thesis using Inl s by (auto intro!: exI [of _ "(a, bad) # pre"])
    next
      case (Inr u)
      then show ?thesis using ih s by simp
    qed
  next
    case (Some x)
    then have "r = Inl (bad x)" "tr' = tr @ [(a, Some x)]" using Cons.prems s t by (auto simp: traced_apply)
    then show ?thesis using s by (auto intro!: exI [of _ "[]"])
  qed
qed auto

lemma steps_secured:
  assumes "ml_TLSMode cfg = ''tls'' \<or> ml_TLSMode cfg = ''starttls''"
  shows "secured cfg False (map (\<lambda>s. (fst s, None)) (smtp_steps cfg sender recipient code))"
  using assms by (auto simp: smtp_steps_def mail_tls_def split: option.split)

text \<open>The whole trace of a session.\<close>

lemma session_trace:
  assumes "mail_session (traced T) ctxErr cfg sender recipient code (w, []) = (r, (w', tr))"
  shows "\<exists>us. set us \<subseteq> {(a, x). \<not> sensitive a} \<and>
    ((r = Inr () \<and> tr = (Dial (JoinHostPort (ml_Host cfg) (ml_Port cfg)), None) # map (\<lambda>s. (fst s, None)) (smtp_steps cfg sender recipient code) @ us) \<or>
     (\<exists>e. r = Inl e) \<and> ((\<exists>x. tr = [(Dial (JoinHostPort (ml_Host cfg) (ml_Port cfg)), Some x)]) \<or>
       (\<exists>pre a bad post x. smtp_steps cfg sender recipient code = pre @ (a, bad) # post \<and>
          tr = (Dial (JoinHostPort (ml_Host cfg) (ml_Port cfg)), None) # map (\<lambda>s. (fst s, None)) pre @ [(a, Some x)] @ us)))"
proof -
  let ?dial = "Dial (JoinHostPort (ml_Host cfg) (ml_Port cfg))"
  obtain d w1 where d: "T ?dial w = (d, w1)" by force
  show ?thesis
  proof (cases d)
    case (Some x)
    then have "tr = [(?dial, Some x)]" "\<exists>e. r = Inl e" using assms d by (auto simp: mail_session_def traced_apply)
    then show ?thesis by (intro exI [of _ "[]"]) simp
  next
    case None
    obtain r1 w2 tr2 where run: "run_steps (traced T) (smtp_steps cfg sender recipient code) (w1, [(?dial, None)]) = (r1, (w2, tr2))" by (metis prod.exhaust)
    obtain h w3 where h: "T Hangup w2 = (h, w3)" by force
    have tr: "tr = tr2 @ [(Hangup, h)]" and r: "(\<exists>e. r = Inl e) = (\<exists>e. r1 = Inl e)" "r = Inr () \<longleftrightarrow> r1 = Inr ()"
      using assms d None run h by (auto simp: mail_session_def traced_apply split: sum.splits)
    show ?thesis
    proof (cases r1)
      case (Inl e)
      then obtain pre a bad post x where "smtp_steps cfg sender recipient code = pre @ (a, bad) # post"
        "tr2 = (?dial, None) # map (\<lambda>s. (fst s, None)) pre @ [(a, Some x)]" using run_steps_trace [OF run] by auto
      then show ?thesis using tr r Inl by (intro exI [of _ "[(Hangup, h)]"]) auto
    next
      case (Inr u)
      then show ?thesis using run_steps_trace [OF run] tr r by (intro exI [of _ "[(Hangup, h)]"]) auto
    qed
  qed
qed

lemma session_secured:
  assumes run: "mail_session (traced T) ctxErr cfg sender recipient code (w, []) = (r, (w', tr))" and tls: "ml_TLSMode cfg = ''tls'' \<or> ml_TLSMode cfg = ''starttls''"
  shows "secured cfg False tr"
proof -
  have quiet: "secured cfg s us" if "set us \<subseteq> {(a, x). \<not> sensitive a}" for s and us :: "(smtp_action \<times> net_error option) list"
    using that by (induction cfg s us rule: secured.induct) auto
  note steps = steps_secured [OF tls, of sender recipient code]
  from session_trace [OF run] show ?thesis
  proof (elim exE conjE disjE)
    fix us x assume "tr = [(Dial (JoinHostPort (ml_Host cfg) (ml_Port cfg)), Some x)]"
    then show ?thesis by simp
  next
    fix us assume us: "set us \<subseteq> {(a, x). \<not> sensitive a}"
      and tr: "tr = (Dial (JoinHostPort (ml_Host cfg) (ml_Port cfg)), None) # map (\<lambda>s. (fst s, None)) (smtp_steps cfg sender recipient code) @ us"
    show ?thesis unfolding tr using steps quiet [OF us] by (simp add: secured_append)
  next
    fix us pre a bad post x assume us: "set us \<subseteq> {(a, x). \<not> sensitive a}"
      and s: "smtp_steps cfg sender recipient code = pre @ (a, bad) # post"
      and tr: "tr = (Dial (JoinHostPort (ml_Host cfg) (ml_Port cfg)), None) # map (\<lambda>s. (fst s, None)) pre @ [(a, Some x)] @ us"
    have "secured cfg False ((map (\<lambda>s. (fst s, None)) pre @ [(a, Some x)]) @ us)"
      unfolding secured_append [of _ _ "map (\<lambda>s. (fst s, None)) pre @ [(a, Some x)]"] using secured_cut [OF steps [unfolded s]] quiet [OF us] by simp
    then show ?thesis unfolding tr by simp
  qed
qed

lemma session_actions:
  assumes run: "mail_session (traced T) ctxErr cfg sender recipient code (w, []) = (r, (w', tr))" and a: "(a, x) \<in> set tr" "sensitive a"
  shows "a \<in> fst ` set (smtp_steps cfg sender recipient code)"
proof -
  obtain us where us: "set us \<subseteq> {(a, x). \<not> sensitive a}" and tr: "set tr \<subseteq> insert (Dial (JoinHostPort (ml_Host cfg) (ml_Port cfg))) (fst ` set (smtp_steps cfg sender recipient code)) \<times> UNIV \<union> set us"
    using session_trace [OF run] by fastforce
  then show ?thesis using a by auto
qed

text \<open>
  C26: delivery of codes is protected. Unless plain transport is configured, neither the account nor an address nor the
  code is sent before a successful TLS handshake that verifies the configured host with TLS 1.2 at least. The only
  recipient is the address asked for, which has no line break, so that no header can be injected; the only text is the
  message with the code. Success means that the server took the message for it, or that delivery is disabled, and then
  nothing is sent. The log holds the digest of the recipient and the error, not the address or the code.
\<close>

theorem mail_delivery_protected:
  assumes run: "SendCode hm lower parse (traced T) ctxErr cfg has_logger pepper email purpose code (w, []) = (r, (w', tr), logged)"
  shows "(\<not> ml_Enabled cfg \<longrightarrow> r = Inr () \<and> tr = []) \<and>
    (ml_TLSMode cfg \<noteq> ''plain'' \<longrightarrow> secured cfg False tr) \<and>
    (\<forall>a x. (RcptTo a, x) \<in> set tr \<longrightarrow> a = email \<and> CHR 0x0D \<notin> set a \<and> CHR 0x0A \<notin> set a) \<and>
    (\<forall>m x. (Body m, x) \<in> set tr \<longrightarrow> (\<exists>sender. parse (ml_From cfg) = Some sender \<and> m = mail_text sender email code)) \<and>
    (ml_Enabled cfg \<and> r = Inr () \<longrightarrow> (RcptTo email, None) \<in> set tr \<and> (EndOfData, None) \<in> set tr) \<and>
    (\<forall>n \<in> set logged. \<exists>e. n = DeliveryFailed (recipientDigest hm lower pepper email) purpose e \<or> n = DevelopmentStored (recipientDigest hm lower pepper email) purpose)"
proof (cases "ml_Enabled cfg")
  case False
  then show ?thesis using run by (auto simp: SendCode_def)
next
  case True
  have logged: "\<forall>n \<in> set logged. \<exists>e. n = DeliveryFailed (recipientDigest hm lower pepper email) purpose e \<or> n = DevelopmentStored (recipientDigest hm lower pepper email) purpose"
    and run': "deliver parse (traced T) ctxErr cfg email code (w, []) = (r, (w', tr))"
    using run True by (auto simp: SendCode_def Let_def split: prod.splits sum.splits if_splits)
  show ?thesis
  proof (cases "r \<noteq> Inr () \<and> tr = []")
    case True
    then show ?thesis using logged \<open>ml_Enabled cfg\<close> by simp
  next
    case False
    then obtain sender where s: "parse (ml_From cfg) = Some sender" "CHR 0x0D \<notin> set email" "CHR 0x0A \<notin> set email" "ml_TLSMode cfg \<in> {''plain'', ''tls'', ''starttls''}"
      and session: "mail_session (traced T) ctxErr cfg sender email code (w, []) = (r, (w', tr))"
      using run' by (auto simp: deliver_def split: if_splits option.splits)
    have steps: "RcptTo a \<in> fst ` set (smtp_steps cfg sender email code) \<Longrightarrow> a = email" "Body m \<in> fst ` set (smtp_steps cfg sender email code) \<Longrightarrow> m = mail_text sender email code" for a m
      by (auto simp: smtp_steps_def split: if_splits)
    have "ml_TLSMode cfg \<noteq> ''plain'' \<longrightarrow> secured cfg False tr" using session_secured [OF session] s(4) by auto
    moreover have "\<forall>a x. (RcptTo a, x) \<in> set tr \<longrightarrow> a = email" using session_actions [OF session] steps(1) by force
    moreover have "\<forall>m x. (Body m, x) \<in> set tr \<longrightarrow> m = mail_text sender email code" using session_actions [OF session] steps(2) by force
    moreover have "(RcptTo email, None) \<in> set tr \<and> (EndOfData, None) \<in> set tr" if "r = Inr ()" using session_trace [OF session] that by (auto simp: smtp_steps_def)
    ultimately show ?thesis using logged s(1-3) \<open>ml_Enabled cfg\<close> by blast
  qed
qed

text \<open>A server that takes everything.\<close>

definition sample_mail :: mail_config where
  "sample_mail = \<lparr>ml_Enabled = True, ml_Host = ''mx'', ml_Port = ''465'', ml_Username = ''u'', ml_Password = ''p'', ml_From = ''noreply@mx'', ml_TLSMode = ''tls'', ml_TLSConfig = None\<rparr>"

theorem mail_delivery_protected_witness:
  "\<exists>tr. SendCode (\<lambda>k v. v) id Some (traced (\<lambda>_ n. (None, Suc n))) (\<lambda>_. None) sample_mail True [] ''a@b'' ''login'' ''123456'' (0, []) = (Inr (), (11, tr), []) \<and>
     secured sample_mail False tr"
proof -
  obtain w tr where run: "SendCode (\<lambda>k v. v) id Some (traced (\<lambda>_ n. (None, Suc n))) (\<lambda>_. None) sample_mail True [] ''a@b'' ''login'' ''123456'' (0, []) = (Inr (), (w, tr), [])" "w = 11"
    by (simp add: SendCode_def deliver_def mail_session_def smtp_steps_def traced_def sample_mail_def Let_def)
  from mail_delivery_protected [OF this(1)] show ?thesis using run by (simp add: sample_mail_def)
qed

end
