(* ===== verification/Observability.thy ===== *)
theory Observability
  imports Platform_Http
begin

text \<open>
  Metrics, readiness and the access log: \<open>src/pkg/platform/observability/metrics.go\<close>, the readiness check of
  \<open>src/internal/app/api.go\<close> and the status writer of \<open>src/pkg/httpkit/middleware.go\<close>. Prometheus is modelled by what it
  collects: a counter per series and the list of observed durations. Upper and lower case of Unicode are parameters.
\<close>

section \<open>Labels\<close>

definition hex_text :: "string \<Rightarrow> bool" where
  "hex_text s \<longleftrightarrow> list_all (\<lambda>c. hex_val c \<noteq> None) s"

definition numericID :: "string \<Rightarrow> bool" where
  "numericID s \<longleftrightarrow> s \<noteq> [] \<and> list_all is_digit s"

definition uuidID :: "string \<Rightarrow> bool" where
  "uuidID s \<longleftrightarrow> (case split_on CHR ''-'' s of
      [a, b, c, d, e] \<Rightarrow> map length [a, b, c, d, e] = [8, 4, 4, 4, 12] \<and> list_all hex_text [a, b, c, d, e] \<and>
        hd c \<in> set ''12345678'' \<and> hd d \<in> set ''89abAB''
    | _ \<Rightarrow> False)"

definition hexID :: "string \<Rightarrow> bool" where
  "hexID s \<longleftrightarrow> 16 \<le> length s \<and> hex_text s"

definition normal_segment :: "string \<Rightarrow> string" where
  "normal_segment s = (if (has_prefix s ''{'' \<and> has_suffix s ''}'') \<or> numericID s \<or> uuidID s \<or> hexID s then ''{id}'' else s)"

definition trim_slashes :: "string \<Rightarrow> string" where
  "trim_slashes s = rev (dropWhile (\<lambda>c. c = CHR ''/'') (rev (dropWhile (\<lambda>c. c = CHR ''/'') s)))"

definition NormalizePath :: "string \<Rightarrow> string" where
  "NormalizePath path0 =
     (let path = TrimSpace (takeWhile (\<lambda>c. c \<noteq> CHR ''?'') path0) in
      if path = [] \<or> hd path \<noteq> CHR ''/'' then ''/unmatched''
      else let segments = split_on CHR ''/'' (trim_slashes path) in
        if segments = [[]] then ''/'' else ''/'' @ join_with ''/'' (map normal_segment segments))"

definition http_methods :: "string list" where
  "http_methods = [''GET'', ''HEAD'', ''POST'', ''PUT'', ''PATCH'', ''DELETE'', ''OPTIONS'']"

definition normalizeMethod :: "(string \<Rightarrow> string) \<Rightarrow> string \<Rightarrow> string" where
  "normalizeMethod upper method = (let m = upper method in if m \<in> set http_methods then m else ''OTHER'')"

definition statusClass :: "int \<Rightarrow> string" where
  "statusClass status = (if status < 100 \<or> status > 599 then ''other'' else FormatInt (go_div status 100) @ ''xx'')"

definition audit_categories :: "string list" where
  "audit_categories = [''auth'', ''authorization'', ''administration'', ''task'', ''scheduling'']"

definition actionCategory :: "(string \<Rightarrow> string) \<Rightarrow> string \<Rightarrow> string" where
  "actionCategory lower action = (let prefix = takeWhile (\<lambda>c. c \<noteq> CHR ''.'') (lower action) in if prefix \<in> set audit_categories then prefix else ''other'')"

definition enum_label :: "string list \<Rightarrow> string \<Rightarrow> string" where
  "enum_label allowed v = (if v \<in> set allowed then v else ''other'')"

definition knownOrOther :: "string set \<Rightarrow> string \<Rightarrow> string" where
  "knownOrOther known v = (if v \<in> known then v else ''other'')"

definition routeSet :: "string list \<Rightarrow> string set" where
  "routeSet vs = set (map NormalizePath vs)"

section \<open>Metrics\<close>

record metrics_config =
  mg_KnownRoutes :: "string list"
  mg_KnownDependencies :: "string list"
  mg_KnownTaskTypes :: "string list"

text \<open>A series is the name of a metric with the values of its labels.\<close>

record Metrics =
  mt_routes :: "string set"
  mt_dependencies :: "string set"
  mt_taskTypes :: "string set"
  mt_counters :: "string \<times> string list \<Rightarrow> nat"
  mt_durations :: "(string \<times> string list \<times> int) list"

definition NewMetrics :: "metrics_config \<Rightarrow> Metrics" where
  "NewMetrics cfg = \<lparr>mt_routes = routeSet (mg_KnownRoutes cfg), mt_dependencies = set (mg_KnownDependencies cfg),
     mt_taskTypes = set (mg_KnownTaskTypes cfg), mt_counters = (\<lambda>_. 0), mt_durations = []\<rparr>"

definition Inc :: "string \<Rightarrow> string list \<Rightarrow> Metrics \<Rightarrow> Metrics" where
  "Inc name labels m = m\<lparr>mt_counters := (mt_counters m)((name, labels) := Suc (mt_counters m (name, labels)))\<rparr>"

definition Observe :: "string \<Rightarrow> string list \<Rightarrow> int \<Rightarrow> Metrics \<Rightarrow> Metrics" where
  "Observe name labels d m = m\<lparr>mt_durations := mt_durations m @ [(name, labels, d)]\<rparr>"

definition ObserveHTTP :: "(string \<Rightarrow> string) \<Rightarrow> string \<Rightarrow> string \<Rightarrow> int \<Rightarrow> int \<Rightarrow> Metrics \<Rightarrow> Metrics" where
  "ObserveHTTP upper method path status d m =
     (let route = NormalizePath path;
          labels = [normalizeMethod upper method, if route \<in> mt_routes m then route else ''/unmatched'', statusClass status] in
      Observe ''http_request_duration_seconds'' labels d (Inc ''http_requests_total'' labels m))"

definition ObserveDependency :: "string \<Rightarrow> string \<Rightarrow> int \<Rightarrow> Metrics \<Rightarrow> Metrics" where
  "ObserveDependency dependency outcome d m =
     (let labels = [knownOrOther (mt_dependencies m) dependency, enum_label [''success'', ''failure'', ''timeout''] outcome] in
      Observe ''dependency_operation_duration_seconds'' labels d (Inc ''dependency_operations_total'' labels m))"

definition Metrics_ObserveAudit :: "(string \<Rightarrow> string) \<Rightarrow> string \<Rightarrow> string \<Rightarrow> Metrics \<Rightarrow> Metrics" where
  "Metrics_ObserveAudit lower action result = Inc ''audit_records_total'' [actionCategory lower action, enum_label [''success'', ''failure''] result]"

definition Metrics_AuditWriteFailed :: "(string \<Rightarrow> string) \<Rightarrow> string \<Rightarrow> Metrics \<Rightarrow> Metrics" where
  "Metrics_AuditWriteFailed lower action = Inc ''audit_write_failures_total'' [actionCategory lower action]"

definition ObserveTask :: "string \<Rightarrow> string \<Rightarrow> int \<Rightarrow> Metrics \<Rightarrow> Metrics" where
  "ObserveTask taskType status d m =
     (let labels = [knownOrOther (mt_taskTypes m) taskType, enum_label [''queued'', ''running'', ''succeeded'', ''failed'', ''cancelled''] status] in
      Observe ''task_execution_duration_seconds'' labels d (Inc ''task_executions_total'' labels m))"

section \<open>Status of a response\<close>

text \<open>The status writers of metrics and access log: the status and the bytes of what the handler writes.\<close>

record statusWriter =
  sw_status :: int
  sw_bytes :: nat
  sw_wroteHeader :: bool

definition sw_WriteHeader :: "int \<Rightarrow> statusWriter \<Rightarrow> statusWriter" where
  "sw_WriteHeader status s = (if sw_wroteHeader s then s else s\<lparr>sw_wroteHeader := True, sw_status := status\<rparr>)"

definition sw_Write :: "nat \<Rightarrow> statusWriter \<Rightarrow> statusWriter" where
  "sw_Write written s = (let s1 = (if sw_wroteHeader s then s else sw_WriteHeader 200 s) in s1\<lparr>sw_bytes := sw_bytes s1 + written\<rparr>)"

text \<open>\<open>pattern\<close> is the pattern of the matched route, empty when there is none; \<open>written\<close> is the writer after the handler.\<close>

definition HTTPMiddleware :: "(string \<Rightarrow> string) \<Rightarrow> 'b request \<Rightarrow> string \<Rightarrow> statusWriter \<Rightarrow> int \<Rightarrow> Metrics \<Rightarrow> Metrics" where
  "HTTPMiddleware upper r pattern written d =
     ObserveHTTP upper (hr_Method r) (if pattern \<noteq> [] then pattern else NormalizePath (hr_Path r)) (sw_status written) d"

definition RoutePattern :: "string \<Rightarrow> string" where
  "RoutePattern pattern = (if pattern \<noteq> [] then pattern else ''/unmatched'')"

text \<open>The attributes of a line of the access log, without the duration.\<close>

definition AccessLog :: "request_ctx \<Rightarrow> 'b request \<Rightarrow> string \<Rightarrow> statusWriter \<Rightarrow> string \<times> string \<times> string \<times> int \<times> nat" where
  "AccessLog ctx r pattern written = (rq_RequestID ctx, hr_Method r, RoutePattern pattern, sw_status written, sw_bytes written)"

section \<open>Readiness\<close>

datatype ping_error = PingDeadline | PingOther string

text \<open>\<open>pings\<close> are the two dependencies in order; the first that fails decides and the later ones are not asked.\<close>

definition readiness_check :: "string \<Rightarrow> ping_error option \<Rightarrow> int \<Rightarrow> Metrics \<Rightarrow> Metrics" where
  "readiness_check name err d = ObserveDependency name (case err of None \<Rightarrow> ''success'' | Some PingDeadline \<Rightarrow> ''timeout'' | Some (PingOther _) \<Rightarrow> ''failure'') d"

definition Ready :: "ping_error option \<Rightarrow> ping_error option \<Rightarrow> int \<Rightarrow> int \<Rightarrow> Metrics \<Rightarrow> ping_error option \<times> Metrics" where
  "Ready postgres cache d1 d2 m =
     (let m1 = readiness_check ''postgres'' postgres d1 m in
      case postgres of
        Some e \<Rightarrow> (Some e, m1)
      | None \<Rightarrow> (cache, readiness_check ''redis'' cache d2 m1))"

definition health_ready :: "ping_error option \<Rightarrow> response" where
  "health_ready err = (case err of
      Some _ \<Rightarrow> WriteError (ServiceUnavailable ''service not ready'')
    | None \<Rightarrow> Write 200 (JObj [(''status'', JStr ''ok'')]))"

section \<open>Bounded series\<close>

text \<open>The events that the processes report.\<close>

datatype event =
    HttpEvent string string int int | DependencyEvent string string int | AuditEvent string string | AuditFailureEvent string | TaskEvent string string int

fun observed :: "(string \<Rightarrow> string) \<Rightarrow> (string \<Rightarrow> string) \<Rightarrow> Metrics \<Rightarrow> event \<Rightarrow> Metrics" where
  "observed upper lower m (HttpEvent method path status d) = ObserveHTTP upper method path status d m"
| "observed upper lower m (DependencyEvent dep outcome d) = ObserveDependency dep outcome d m"
| "observed upper lower m (AuditEvent action result) = Metrics_ObserveAudit lower action result m"
| "observed upper lower m (AuditFailureEvent action) = Metrics_AuditWriteFailed lower action m"
| "observed upper lower m (TaskEvent ty st d) = ObserveTask ty st d m"

text \<open>The series that an event has to count in, and the histogram with the duration that it has to be observed in, if any.\<close>

fun counted :: "metrics_config \<Rightarrow> (string \<Rightarrow> string) \<Rightarrow> (string \<Rightarrow> string) \<Rightarrow> event \<Rightarrow> string \<times> string list" where
  "counted cfg upper lower (HttpEvent method path status d) = (''http_requests_total'',
     [normalizeMethod upper method, if NormalizePath path \<in> routeSet (mg_KnownRoutes cfg) then NormalizePath path else ''/unmatched'', statusClass status])"
| "counted cfg upper lower (DependencyEvent dep outcome d) = (''dependency_operations_total'',
     [knownOrOther (set (mg_KnownDependencies cfg)) dep, enum_label [''success'', ''failure'', ''timeout''] outcome])"
| "counted cfg upper lower (AuditEvent action result) = (''audit_records_total'', [actionCategory lower action, enum_label [''success'', ''failure''] result])"
| "counted cfg upper lower (AuditFailureEvent action) = (''audit_write_failures_total'', [actionCategory lower action])"
| "counted cfg upper lower (TaskEvent ty st d) = (''task_executions_total'',
     [knownOrOther (set (mg_KnownTaskTypes cfg)) ty, enum_label [''queued'', ''running'', ''succeeded'', ''failed'', ''cancelled''] st])"

fun timed :: "metrics_config \<Rightarrow> (string \<Rightarrow> string) \<Rightarrow> (string \<Rightarrow> string) \<Rightarrow> event \<Rightarrow> (string \<times> string list \<times> int) list" where
  "timed cfg upper lower (HttpEvent method path status d) =
     [(''http_request_duration_seconds'', snd (counted cfg upper lower (HttpEvent method path status d)), d)]"
| "timed cfg upper lower (DependencyEvent dep outcome d) =
     [(''dependency_operation_duration_seconds'', snd (counted cfg upper lower (DependencyEvent dep outcome d)), d)]"
| "timed cfg upper lower (TaskEvent ty st d) = [(''task_execution_duration_seconds'', snd (counted cfg upper lower (TaskEvent ty st d)), d)]"
| "timed cfg upper lower _ = []"

definition status_classes :: "string list" where
  "status_classes = [''other'', ''1xx'', ''2xx'', ''3xx'', ''4xx'', ''5xx'']"

text \<open>All series that can come into being, whatever clients send.\<close>

definition all_series :: "metrics_config \<Rightarrow> (string \<times> string list) list" where
  "all_series cfg =
     [(''http_requests_total'', [m, r, c]). m \<leftarrow> ''OTHER'' # http_methods, r \<leftarrow> ''/unmatched'' # map NormalizePath (mg_KnownRoutes cfg), c \<leftarrow> status_classes] @
     [(''dependency_operations_total'', [d, u]). d \<leftarrow> ''other'' # mg_KnownDependencies cfg, u \<leftarrow> [''other'', ''success'', ''failure'', ''timeout'']] @
     [(''audit_records_total'', [c, u]). c \<leftarrow> ''other'' # audit_categories, u \<leftarrow> [''other'', ''success'', ''failure'']] @
     [(''audit_write_failures_total'', [c]). c \<leftarrow> ''other'' # audit_categories] @
     [(''task_executions_total'', [y, u]). y \<leftarrow> ''other'' # mg_KnownTaskTypes cfg, u \<leftarrow> [''other'', ''queued'', ''running'', ''succeeded'', ''failed'', ''cancelled'']]"

text \<open>And all series of the histograms.\<close>

definition all_histograms :: "metrics_config \<Rightarrow> (string \<times> string list) list" where
  "all_histograms cfg =
     [(''http_request_duration_seconds'', [m, r, c]). m \<leftarrow> ''OTHER'' # http_methods, r \<leftarrow> ''/unmatched'' # map NormalizePath (mg_KnownRoutes cfg), c \<leftarrow> status_classes] @
     [(''dependency_operation_duration_seconds'', [d, u]). d \<leftarrow> ''other'' # mg_KnownDependencies cfg, u \<leftarrow> [''other'', ''success'', ''failure'', ''timeout'']] @
     [(''task_execution_duration_seconds'', [y, u]). y \<leftarrow> ''other'' # mg_KnownTaskTypes cfg, u \<leftarrow> [''other'', ''queued'', ''running'', ''succeeded'', ''failed'', ''cancelled'']]"

lemma all_histograms_length:
  "length (all_histograms cfg) = 48 * (1 + length (mg_KnownRoutes cfg)) + 4 * (1 + length (mg_KnownDependencies cfg)) + 6 * (1 + length (mg_KnownTaskTypes cfg))"
  by (simp add: all_histograms_def length_concat comp_def sum_list_triv http_methods_def status_classes_def)

lemma all_series_length:
  "length (all_series cfg) = 48 * (1 + length (mg_KnownRoutes cfg)) + 4 * (1 + length (mg_KnownDependencies cfg)) + 6 * (1 + length (mg_KnownTaskTypes cfg)) + 24"
  by (simp add: all_series_def length_concat comp_def sum_list_triv http_methods_def status_classes_def audit_categories_def)

lemma statusClass_known: "statusClass status \<in> set status_classes"
proof (cases "status < 100 \<or> status > 599")
  case False
  then have "go_div status 100 \<in> {1, 2, 3, 4, 5}" by (auto simp: go_div_nonneg)
  moreover have "FormatInt 1 = ''1''" "FormatInt 2 = ''2''" "FormatInt 3 = ''3''" "FormatInt 4 = ''4''" "FormatInt 5 = ''5''" by code_simp+
  ultimately show ?thesis using False by (auto simp: statusClass_def status_classes_def)
qed (simp add: statusClass_def status_classes_def)

lemma labels_known:
  "normalizeMethod upper v \<in> set (''OTHER'' # http_methods)" "actionCategory lower v \<in> set (''other'' # audit_categories)"
  "enum_label us v \<in> set (''other'' # us)" "knownOrOther (set us) v \<in> set (''other'' # us)"
  by (simp_all add: normalizeMethod_def actionCategory_def enum_label_def knownOrOther_def Let_def)

lemma series3: "a \<in> set A \<Longrightarrow> b \<in> set B \<Longrightarrow> c \<in> set C \<Longrightarrow> (n, [a, b, c]) \<in> set [(n, [m, r, c]). m \<leftarrow> A, r \<leftarrow> B, c \<leftarrow> C]"
  and series2: "a \<in> set A \<Longrightarrow> b \<in> set B \<Longrightarrow> (n, [a, b]) \<in> set [(n, [m, r]). m \<leftarrow> A, r \<leftarrow> B]"
  and series1: "a \<in> set A \<Longrightarrow> (n, [a]) \<in> set [(n, [m]). m \<leftarrow> A]"
  by auto

lemma all_series_member:
  "a \<in> set (''OTHER'' # http_methods) \<Longrightarrow> r \<in> set (''/unmatched'' # map NormalizePath (mg_KnownRoutes cfg)) \<Longrightarrow> c \<in> set status_classes \<Longrightarrow>
    (''http_requests_total'', [a, r, c]) \<in> set (all_series cfg)"
  "d \<in> set (''other'' # mg_KnownDependencies cfg) \<Longrightarrow> u \<in> set (''other'' # [''success'', ''failure'', ''timeout'']) \<Longrightarrow> (''dependency_operations_total'', [d, u]) \<in> set (all_series cfg)"
  "g \<in> set (''other'' # audit_categories) \<Longrightarrow> v \<in> set (''other'' # [''success'', ''failure'']) \<Longrightarrow> (''audit_records_total'', [g, v]) \<in> set (all_series cfg)"
  "g \<in> set (''other'' # audit_categories) \<Longrightarrow> (''audit_write_failures_total'', [g]) \<in> set (all_series cfg)"
  "y \<in> set (''other'' # mg_KnownTaskTypes cfg) \<Longrightarrow> s \<in> set (''other'' # [''queued'', ''running'', ''succeeded'', ''failed'', ''cancelled'']) \<Longrightarrow>
    (''task_executions_total'', [y, s]) \<in> set (all_series cfg)"
  unfolding all_series_def set_append
  by (rule UnI1, erule (2) series3)
    (rule UnI2, rule UnI1, erule (1) series2, rule UnI2, rule UnI2, rule UnI1, erule (1) series2, rule UnI2, rule UnI2, rule UnI2, rule UnI1, erule series1,
     rule UnI2, rule UnI2, rule UnI2, rule UnI2, erule (1) series2)

lemma all_histograms_member:
  "a \<in> set (''OTHER'' # http_methods) \<Longrightarrow> r \<in> set (''/unmatched'' # map NormalizePath (mg_KnownRoutes cfg)) \<Longrightarrow> c \<in> set status_classes \<Longrightarrow>
    (''http_request_duration_seconds'', [a, r, c]) \<in> set (all_histograms cfg)"
  "d \<in> set (''other'' # mg_KnownDependencies cfg) \<Longrightarrow> u \<in> set (''other'' # [''success'', ''failure'', ''timeout'']) \<Longrightarrow>
    (''dependency_operation_duration_seconds'', [d, u]) \<in> set (all_histograms cfg)"
  "y \<in> set (''other'' # mg_KnownTaskTypes cfg) \<Longrightarrow> s \<in> set (''other'' # [''queued'', ''running'', ''succeeded'', ''failed'', ''cancelled'']) \<Longrightarrow>
    (''task_execution_duration_seconds'', [y, s]) \<in> set (all_histograms cfg)"
  unfolding all_histograms_def set_append
  by (rule UnI1, erule (2) series3) (rule UnI2, rule UnI1, erule (1) series2, rule UnI2, rule UnI2, erule (1) series2)

lemma route_known: "(if r \<in> routeSet rs then r else ''/unmatched'') \<in> set (''/unmatched'' # map NormalizePath rs)"
  by (simp add: routeSet_def)

lemma counted_known: "counted cfg upper lower e \<in> set (all_series cfg)"
  by (cases e) (simp_all only: counted.simps, (intro all_series_member labels_known statusClass_known route_known)+)

lemma timed_known: "(n, ls, d) \<in> set (timed cfg upper lower e) \<Longrightarrow> (n, ls) \<in> set (all_histograms cfg)"
proof (cases e)
  case (HttpEvent m p c x)
  moreover assume "(n, ls, d) \<in> set (timed cfg upper lower e)"
  moreover have "(''http_request_duration_seconds'', snd (counted cfg upper lower (HttpEvent m p c x))) \<in> set (all_histograms cfg)"
    unfolding counted.simps snd_conv by (intro all_histograms_member labels_known statusClass_known route_known)
  ultimately show ?thesis by simp
next
  case (DependencyEvent y u x)
  moreover assume "(n, ls, d) \<in> set (timed cfg upper lower e)"
  moreover have "(''dependency_operation_duration_seconds'', snd (counted cfg upper lower (DependencyEvent y u x))) \<in> set (all_histograms cfg)"
    unfolding counted.simps snd_conv by (intro all_histograms_member labels_known)
  ultimately show ?thesis by simp
next
  case (TaskEvent y u x)
  moreover assume "(n, ls, d) \<in> set (timed cfg upper lower e)"
  moreover have "(''task_execution_duration_seconds'', snd (counted cfg upper lower (TaskEvent y u x))) \<in> set (all_histograms cfg)"
    unfolding counted.simps snd_conv by (intro all_histograms_member labels_known)
  ultimately show ?thesis by simp
qed simp_all

text \<open>What the metrics are after a sequence of events.\<close>

definition metrics_after :: "metrics_config \<Rightarrow> (string \<Rightarrow> string) \<Rightarrow> (string \<Rightarrow> string) \<Rightarrow> event list \<Rightarrow> Metrics \<Rightarrow> bool" where
  "metrics_after cfg upper lower es m \<longleftrightarrow> mt_routes m = routeSet (mg_KnownRoutes cfg) \<and> mt_dependencies m = set (mg_KnownDependencies cfg) \<and>
     mt_taskTypes m = set (mg_KnownTaskTypes cfg) \<and> (\<forall>k. mt_counters m k = count_list (map (counted cfg upper lower) es) k) \<and>
     mt_durations m = concat (map (timed cfg upper lower) es)"

lemma observed_after:
  assumes "metrics_after cfg upper lower es m"
  shows "metrics_after cfg upper lower (es @ [e]) (observed upper lower m e)"
  using assms
  by (cases e) (simp_all add: metrics_after_def ObserveHTTP_def ObserveDependency_def Metrics_ObserveAudit_def Metrics_AuditWriteFailed_def ObserveTask_def
      Let_def Inc_def Observe_def)

lemma observed_run: "metrics_after cfg upper lower es (foldl (observed upper lower) (NewMetrics cfg) es)"
proof (induction es rule: rev_induct)
  case Nil
  then show ?case by (simp add: metrics_after_def NewMetrics_def)
next
  case (snoc e es)
  then show ?case using observed_after by simp
qed

text \<open>
  C21: metrics are exact and stay bounded. Whatever methods, paths, statuses, actions and task types are reported: every
  counter is the number of events that belong to its series, the histograms hold exactly the durations of the requests,
  dependency operations and tasks, each under the labels of its counter; and only series of two lists come into being,
  whose lengths are linear in the configured routes, dependencies and task types. Together the counters have counted
  every event exactly once.
\<close>

theorem metrics_bounded:
  fixes cfg upper lower es
  defines "m \<equiv> foldl (observed upper lower) (NewMetrics cfg) es"
  shows "(\<forall>k. mt_counters m k = length (filter (\<lambda>e. counted cfg upper lower e = k) es)) \<and>
    mt_durations m = concat (map (timed cfg upper lower) es) \<and>
    {k. mt_counters m k \<noteq> 0} \<subseteq> set (all_series cfg) \<and>
    card {k. mt_counters m k \<noteq> 0} \<le> 48 * (1 + length (mg_KnownRoutes cfg)) + 4 * (1 + length (mg_KnownDependencies cfg)) + 6 * (1 + length (mg_KnownTaskTypes cfg)) + 24 \<and>
    (\<lambda>(name, labels, d). (name, labels)) ` set (mt_durations m) \<subseteq> set (all_histograms cfg) \<and>
    card ((\<lambda>(name, labels, d). (name, labels)) ` set (mt_durations m)) \<le>
      48 * (1 + length (mg_KnownRoutes cfg)) + 4 * (1 + length (mg_KnownDependencies cfg)) + 6 * (1 + length (mg_KnownTaskTypes cfg)) \<and>
    (\<Sum>k | mt_counters m k \<noteq> 0. mt_counters m k) = length es"
proof -
  have run: "metrics_after cfg upper lower es m" unfolding m_def by (rule observed_run)
  have count: "mt_counters m k = count_list (map (counted cfg upper lower) es) k" for k using run unfolding metrics_after_def by blast
  have timed: "mt_durations m = concat (map (timed cfg upper lower) es)" using run by (simp add: metrics_after_def)
  have exact: "mt_counters m k = length (filter (\<lambda>e. counted cfg upper lower e = k) es)" for k
    unfolding count by (induction es) auto
  have sub: "{k. mt_counters m k \<noteq> 0} \<subseteq> set (all_series cfg)"
    using counted_known by (auto simp: count count_list_0_iff)
  have hist: "(\<lambda>(name, labels, d). (name, labels)) ` set (mt_durations m) \<subseteq> set (all_histograms cfg)"
    using timed_known by (auto simp: timed)
  have "set (map (counted cfg upper lower) es) \<subseteq> set (all_series cfg)" using counted_known by auto
  then have "(\<Sum>k \<in> set (all_series cfg). mt_counters m k) = length es"
    using sum_count_set [of "map (counted cfg upper lower) es" "set (all_series cfg)"] by (simp add: count)
  moreover have "(\<Sum>k \<in> set (all_series cfg). mt_counters m k) = (\<Sum>k | mt_counters m k \<noteq> 0. mt_counters m k)"
    by (rule sum.mono_neutral_right) (use sub in auto)
  moreover have bound: "A \<subseteq> set xs \<Longrightarrow> card A \<le> length xs" for A and xs :: "(string \<times> string list) list"
    using card_mono [of "set xs" A] card_length [of xs] by force
  ultimately show ?thesis
    using exact timed sub hist bound [OF sub] bound [OF hist] by (simp add: all_series_length all_histograms_length)
qed

section \<open>The routes of the API\<close>

definition knownAPIRoutes :: "string list" where
  "knownAPIRoutes =
    [''/api/v1/auth/email-code'', ''/api/v1/auth/register'', ''/api/v1/auth/login/totp/verify'',
     ''/api/v1/system-settings/basic-auth'', ''/api/v1/users/me/security'',
     ''/api/v1/users/me/security/totp/enroll'', ''/api/v1/users/me/security/totp/confirm'', ''/api/v1/users/me/security/totp/disable'',
     ''/health/live'', ''/health/ready'', ''/metrics'',
     ''/api/v1/auth/login'', ''/api/v1/auth/refresh'', ''/api/v1/auth/logout'',
     ''/api/v1/users/me'', ''/api/v1/users/me/preferences'', ''/api/v1/users'', ''/api/v1/users/{userID}'',
     ''/api/v1/users/{userID}/active'', ''/api/v1/users/{userID}/password/reset'', ''/api/v1/users/{userID}/roles'',
     ''/api/v1/users/{userID}/roles/{roleID}'', ''/api/v1/roles'', ''/api/v1/roles/{roleID}'',
     ''/api/v1/permissions'', ''/api/v1/roles/{roleID}/permissions'', ''/api/v1/roles/{roleID}/permissions/{permissionID}'',
     ''/api/v1/audit-logs'', ''/api/v1/task-executions'', ''/api/v1/task-executions/{executionID}'', ''/api/v1/task-types'']"

lemma known_normal: "map NormalizePath knownAPIRoutes =
     [''/api/v1/auth/email-code'', ''/api/v1/auth/register'', ''/api/v1/auth/login/totp/verify'',
      ''/api/v1/system-settings/basic-auth'', ''/api/v1/users/me/security'', ''/api/v1/users/me/security/totp/enroll'',
      ''/api/v1/users/me/security/totp/confirm'', ''/api/v1/users/me/security/totp/disable'', ''/health/live'',
      ''/health/ready'', ''/metrics'', ''/api/v1/auth/login'', ''/api/v1/auth/refresh'', ''/api/v1/auth/logout'',
      ''/api/v1/users/me'', ''/api/v1/users/me/preferences'', ''/api/v1/users'', ''/api/v1/users/{id}'',
      ''/api/v1/users/{id}/active'', ''/api/v1/users/{id}/password/reset'', ''/api/v1/users/{id}/roles'',
      ''/api/v1/users/{id}/roles/{id}'', ''/api/v1/roles'', ''/api/v1/roles/{id}'', ''/api/v1/permissions'',
      ''/api/v1/roles/{id}/permissions'', ''/api/v1/roles/{id}/permissions/{id}'', ''/api/v1/audit-logs'',
      ''/api/v1/task-executions'', ''/api/v1/task-executions/{id}'', ''/api/v1/task-types'']"
  by code_simp

text \<open>Two routes that are registered are missing in the list: their requests are counted as unmatched.\<close>

lemma unlisted_routes:
  assumes "q \<in> {''/api/v1/users/me/email/verification-code'', ''/api/v1/users/me/email/verify''}"
  shows "NormalizePath q \<notin> routeSet knownAPIRoutes" "q \<in> rt_Pattern ` set (authentication_routes D cfg a)"
proof -
  have "NormalizePath ''/api/v1/users/me/email/verification-code'' = ''/api/v1/users/me/email/verification-code''"
    "NormalizePath ''/api/v1/users/me/email/verify'' = ''/api/v1/users/me/email/verify''" by code_simp+
  then show "NormalizePath q \<notin> routeSet knownAPIRoutes" using assms unfolding routeSet_def known_normal by auto
  show "q \<in> rt_Pattern ` set (authentication_routes D cfg a)" using assms by (auto simp: authentication_routes_def)
qed

end
