(* ===== verification/Connections.thy ===== *)
theory Connections
  imports Configuration Http_Middleware Redis_Rate_Limit Mailer
begin

text \<open>
  Connections to Redis and PostgreSQL and the standard router: \<open>src/pkg/platform/cache/cache.go\<close> and \<open>tls.go\<close>,
  \<open>src/pkg/postgres/postgres.go\<close> and \<open>src/pkg/httpkit/router.go\<close>. The drivers are parameters: records of operations on
  the world.
\<close>

section \<open>Redis\<close>

record CacheConfig =
  cc_Addr :: string
  cc_Username :: string
  cc_Password :: string
  cc_DB :: int
  cc_DialTimeout :: int
  cc_ReadTimeout :: int
  cc_WriteTimeout :: int

definition CacheConfig_Validate :: "CacheConfig \<Rightarrow> string option" where
  "CacheConfig_Validate c =
     (if TrimSpace (cc_Addr c) = [] then Some ''redis Addr is required''
      else if cc_DB c < 0 then Some ''redis DB must not be negative''
      else if cc_DialTimeout c < 0 then Some ''redis DialTimeout must not be negative''
      else if cc_ReadTimeout c < 0 then Some ''redis ReadTimeout must not be negative''
      else if cc_WriteTimeout c < 0 then Some ''redis WriteTimeout must not be negative''
      else None)"

text \<open>The Redis driver, already connected with a configuration.\<close>

record ('w, 'e) redis_driver =
  rd_Ping :: "('w, 'e, unit) op"
  rd_Close :: "('w, 'e, unit) op"
  rd_Set :: "string \<Rightarrow> string \<Rightarrow> int \<Rightarrow> ('w, 'e, unit) op"
  rd_Get :: "string \<Rightarrow> ('w, 'e, string) op"
  rd_TTL :: "string \<Rightarrow> ('w, 'e, int) op"
  rd_Del :: "string list \<Rightarrow> ('w, 'e, int) op"

datatype 'e cache_error = BadCacheConfig string | NilCacheClient | BadTTL | CacheFailed 'e

text \<open>A client may be nil: \<open>None\<close>.\<close>

definition Client_Health :: "('w, 'e) redis_driver option \<Rightarrow> ('w, 'e cache_error, unit) op" where
  "Client_Health c = (case c of None \<Rightarrow> failE NilCacheClient | Some d \<Rightarrow> mapErrE CacheFailed (rd_Ping d))"

definition Client_Close :: "('w, 'e) redis_driver option \<Rightarrow> ('w, 'e cache_error, unit) op" where
  "Client_Close c = (case c of None \<Rightarrow> retE () | Some d \<Rightarrow> mapErrE CacheFailed (rd_Close d))"

text \<open>\<open>connect\<close> is \<open>redis.NewClient\<close>; a client that does not answer is closed.\<close>

definition Cache_Open :: "(CacheConfig \<Rightarrow> ('w, 'e) redis_driver) \<Rightarrow> CacheConfig \<Rightarrow> ('w, 'e cache_error, ('w, 'e) redis_driver) op" where
  "Cache_Open connect cfg w = (case CacheConfig_Validate cfg of
      Some e \<Rightarrow> (Inl (BadCacheConfig e), w)
    | None \<Rightarrow> let d = connect cfg in (case Client_Health (Some d) w of
        (Inl e, w1) \<Rightarrow> (Inl e, snd (rd_Close d w1))
      | (Inr _, w1) \<Rightarrow> (Inr d, w1)))"

definition ValidateTTL :: "int \<Rightarrow> bool" where
  "ValidateTTL ttl = (ttl > 0)"

definition Client_Set :: "('w, 'e) redis_driver \<Rightarrow> string \<Rightarrow> string \<Rightarrow> int \<Rightarrow> ('w, 'e cache_error, unit) op" where
  "Client_Set d key v ttl = (if \<not> ValidateTTL ttl then failE BadTTL else mapErrE CacheFailed (rd_Set d key v ttl))"

definition Client_Get :: "('w, 'e) redis_driver \<Rightarrow> string \<Rightarrow> ('w, 'e cache_error, string) op" where
  "Client_Get d key = mapErrE CacheFailed (rd_Get d key)"

definition Client_TTL :: "('w, 'e) redis_driver \<Rightarrow> string \<Rightarrow> ('w, 'e cache_error, int) op" where
  "Client_TTL d key = mapErrE CacheFailed (rd_TTL d key)"

definition Client_Delete :: "('w, 'e) redis_driver \<Rightarrow> string list \<Rightarrow> ('w, 'e cache_error, int) op" where
  "Client_Delete d keys = mapErrE CacheFailed (rd_Del d keys)"

text \<open>Nothing is stored without an expiry.\<close>

lemma Set_expires: "Client_Set d key v ttl w = (Inr (), w') \<Longrightarrow> 0 < ttl \<and> rd_Set d key v ttl w = (Inr (), w')"
  by (auto simp: Client_Set_def ValidateTTL_def split: if_splits)

section \<open>Keys\<close>

definition validateSegment :: "string \<Rightarrow> bool" where
  "validateSegment s \<longleftrightarrow> s \<noteq> [] \<and> TrimSpace s = s \<and> CHR '':'' \<notin> set s"

datatype key_error = BadNamespace string | BadEnvironment string | NotInitialized | NoSegments | UnsafeSegment string

definition NewKeyBuilder :: "string \<Rightarrow> string \<Rightarrow> key_error + string" where
  "NewKeyBuilder namespace environment =
     (if \<not> validateSegment namespace then Inl (BadNamespace namespace)
      else if \<not> validateSegment environment then Inl (BadEnvironment environment)
      else Inr (namespace @ '':'' @ environment))"

definition KeyBuilder_Build :: "string \<Rightarrow> string list \<Rightarrow> key_error + string" where
  "KeyBuilder_Build pre segments =
     (if pre = [] then Inl NotInitialized
      else if segments = [] then Inl NoSegments
      else case find (\<lambda>s. \<not> validateSegment s) segments of
        Some s \<Rightarrow> Inl (UnsafeSegment s)
      | None \<Rightarrow> Inr (pre @ '':'' @ join_with '':'' segments))"

lemma join_with_Cons: "xs \<noteq> [] \<Longrightarrow> join_with s (x # xs) = x @ s @ join_with s xs"
  by (cases xs) simp_all

lemma built_key:
  assumes "NewKeyBuilder ns env = Inr pre" and "KeyBuilder_Build pre segs = Inr key"
  shows "key = join_with '':'' (ns # env # segs) \<and> (\<forall>s \<in> set (ns # env # segs). CHR '':'' \<notin> set s) \<and> segs \<noteq> []"
proof -
  have "pre = ns @ '':'' @ env" "validateSegment ns" "validateSegment env" using assms(1) by (auto simp: NewKeyBuilder_def split: if_splits)
  moreover from this assms(2) have "key = pre @ '':'' @ join_with '':'' segs" "segs \<noteq> []" "\<forall>s \<in> set segs. validateSegment s"
    by (auto simp: KeyBuilder_Build_def find_None_iff split: if_splits option.splits)
  ultimately show ?thesis by (simp add: join_with_Cons validateSegment_def)
qed

text \<open>Keys are unambiguous: the key determines namespace, environment and segments.\<close>

lemma keys_unambiguous:
  assumes "NewKeyBuilder ns env = Inr p" "KeyBuilder_Build p segs = Inr key" and "NewKeyBuilder ns' env' = Inr p'" "KeyBuilder_Build p' segs' = Inr key"
  shows "ns = ns' \<and> env = env' \<and> segs = segs'"
proof -
  have "split_on CHR '':'' key = ns # env # segs" "split_on CHR '':'' key = ns' # env' # segs'"
    using built_key [OF assms(1,2)] built_key [OF assms(3,4)] by (metis split_on_join list.distinct(1))+
  then show ?thesis by simp
qed

text \<open>\<open>NewTLSConfig\<close>: \<open>read\<close> reads a file and \<open>certificates\<close> finds the certificates of an encoded file.\<close>

datatype tls_error = TLSFile | TLSNoCertificates

definition NewTLSConfig :: "(string \<Rightarrow> string option) \<Rightarrow> (string \<Rightarrow> bool) \<Rightarrow> bool \<Rightarrow> string \<Rightarrow> string \<Rightarrow> tls_error + tls_config option" where
  "NewTLSConfig read certificates enabled serverName caFile =
     (let base = \<lparr>tl_ServerName = serverName, tl_MinVersion = 0x0303, tl_InsecureSkipVerify = False, tl_RootCAs = None\<rparr> in
      if \<not> enabled then Inr None
      else if caFile = [] then Inr (Some base)
      else case read caFile of
        None \<Rightarrow> Inl TLSFile
      | Some encoded \<Rightarrow> if \<not> certificates encoded then Inl TLSNoCertificates else Inr (Some (base\<lparr>tl_RootCAs := Some encoded\<rparr>)))"

section \<open>PostgreSQL\<close>

record PgConfig =
  pg_URL :: string
  pg_MinConns :: int
  pg_MaxConns :: int
  pg_MaxConnLifetime :: int
  pg_MaxConnIdleTime :: int
  pg_HealthCheckPeriod :: int

text \<open>\<open>scheme\<close> is the scheme of a URL that parses.\<close>

definition PgConfig_Validate :: "(string \<Rightarrow> string option) \<Rightarrow> PgConfig \<Rightarrow> string option" where
  "PgConfig_Validate scheme c =
     (if pg_URL c = [] then Some ''database URL is required''
      else if scheme (pg_URL c) \<notin> {Some ''postgres'', Some ''postgresql''} then Some ''database URL must use postgres or postgresql scheme''
      else if pg_MinConns c < 0 then Some ''database MinConns must not be negative''
      else if pg_MaxConns c \<le> 0 then Some ''database MaxConns must be positive''
      else if pg_MinConns c > pg_MaxConns c then Some ''database MinConns must not exceed MaxConns''
      else if pg_MaxConnLifetime c < 0 \<or> pg_MaxConnIdleTime c < 0 \<or> pg_HealthCheckPeriod c < 0 then Some ''database durations must not be negative''
      else None)"

text \<open>The options of a pool: those of the URL, overridden where the configuration says something.\<close>

record pool_options =
  po_MinConns :: int
  po_MaxConns :: int
  po_MaxConnLifetime :: int
  po_MaxConnIdleTime :: int
  po_HealthCheckPeriod :: int

definition pool_options_of :: "PgConfig \<Rightarrow> pool_options \<Rightarrow> pool_options" where
  "pool_options_of c o0 = \<lparr>po_MinConns = pg_MinConns c, po_MaxConns = pg_MaxConns c,
     po_MaxConnLifetime = (if pg_MaxConnLifetime c > 0 then pg_MaxConnLifetime c else po_MaxConnLifetime o0),
     po_MaxConnIdleTime = (if pg_MaxConnIdleTime c > 0 then pg_MaxConnIdleTime c else po_MaxConnIdleTime o0),
     po_HealthCheckPeriod = (if pg_HealthCheckPeriod c > 0 then pg_HealthCheckPeriod c else po_HealthCheckPeriod o0)\<rparr>"

record ('w, 'e, 'pool) pool_driver =
  pd_ParseConfig :: "string \<Rightarrow> 'e + pool_options"
  pd_New :: "pool_options \<Rightarrow> ('w, 'e, 'pool) op"
  pd_Ping :: "'pool \<Rightarrow> ('w, 'e, unit) op"
  pd_Close :: "'pool \<Rightarrow> 'w \<Rightarrow> 'w"

datatype 'e pool_error = BadPgConfig string | BadPgURL 'e | PoolFailed 'e | PingFailed 'e | NilPinger

definition Postgres_Open :: "(string \<Rightarrow> string option) \<Rightarrow> ('w, 'e, 'pool) pool_driver \<Rightarrow> PgConfig \<Rightarrow> ('w, 'e pool_error, 'pool) op" where
  "Postgres_Open scheme D c w = (case PgConfig_Validate scheme c of
      Some e \<Rightarrow> (Inl (BadPgConfig e), w)
    | None \<Rightarrow> (case pd_ParseConfig D (pg_URL c) of
        Inl e \<Rightarrow> (Inl (BadPgURL e), w)
      | Inr o0 \<Rightarrow> (case pd_New D (pool_options_of c o0) w of
          (Inl e, w1) \<Rightarrow> (Inl (PoolFailed e), w1)
        | (Inr pool, w1) \<Rightarrow> (case pd_Ping D pool w1 of
            (Inl e, w2) \<Rightarrow> (Inl (PingFailed e), pd_Close D pool w2)
          | (Inr _, w2) \<Rightarrow> (Inr pool, w2)))))"

definition Postgres_Health :: "('w, 'e, unit) op option \<Rightarrow> ('w, 'e pool_error, unit) op" where
  "Postgres_Health ping = (case ping of None \<Rightarrow> failE NilPinger | Some p \<Rightarrow> mapErrE PingFailed p)"

text \<open>How the processes open the pool, and that a configuration which \<open>Validate\<close> accepts is not refused for its numbers.\<close>

definition pg_config_of :: "Config \<Rightarrow> PgConfig" where
  "pg_config_of c = \<lparr>pg_URL = cfg_DatabaseURL c, pg_MinConns = cfg_DatabaseMinConns c, pg_MaxConns = cfg_DatabaseMaxConns c,
     pg_MaxConnLifetime = 0, pg_MaxConnIdleTime = 0, pg_HealthCheckPeriod = 30 * 1000000000\<rparr>"

lemma validated_pool:
  assumes "Config_Validate ps c = None" and "scheme (cfg_DatabaseURL c) \<in> {Some ''postgres'', Some ''postgresql''}"
  shows "PgConfig_Validate scheme (pg_config_of c) = None"
proof -
  have "cfg_DatabaseURL c \<noteq> []" "\<not> (cfg_DatabaseMinConns c < 0 \<or> cfg_DatabaseMaxConns c \<le> 0 \<or> cfg_DatabaseMinConns c > cfg_DatabaseMaxConns c)"
    using assms(1) unfolding Config_Validate_def first_error_None by simp_all
  then show ?thesis using assms(2) by (auto simp: PgConfig_Validate_def pg_config_of_def)
qed

section \<open>Router\<close>

datatype middleware = MwMetrics | MwRequestMetadata | MwRequestID | MwAccessLog | MwRecovery | MwCORS | MwRateLimit

datatype router_error = ReadinessRequired | MetricsRequired | BadCORS string | BadRateLimit string

record 'w RouterOptions =
  ro_Readiness :: bool
  ro_Metrics :: bool
  ro_CORS :: CORSConfig
  ro_RateLimit :: "'w RateLimitConfig option"

text \<open>\<open>NewRouter\<close>: the middleware from the outside to the inside; the standard routes are public.\<close>

definition NewRouter :: "'w RouterOptions \<Rightarrow> router_error + middleware list" where
  "NewRouter o0 =
     (if \<not> ro_Readiness o0 then Inl ReadinessRequired
      else if \<not> ro_Metrics o0 then Inl MetricsRequired
      else case CORSConfig_Validate (ro_CORS o0) of
        Some e \<Rightarrow> Inl (BadCORS e)
      | None \<Rightarrow> (case Option.bind (ro_RateLimit o0) RateLimitConfig_Validate of
          Some e \<Rightarrow> Inl (BadRateLimit e)
        | None \<Rightarrow> Inr ([MwRequestID, MwAccessLog, MwRecovery] @ (if co_AllowedOrigins (ro_CORS o0) \<noteq> [] then [MwCORS] else []) @
            (if ro_RateLimit o0 \<noteq> None then [MwRateLimit] else []))))"

text \<open>
  \<open>NewAPIRouter\<close>: the metrics are outside of everything, and the metadata of a request are known before the
  limiter asks for its key.
\<close>

definition NewAPIRouter :: "bool \<Rightarrow> bool \<Rightarrow> 'w RouterOptions \<Rightarrow> router_error + middleware list" where
  "NewAPIRouter metrics metadata o0 =
     (case NewRouter o0 of
        Inl e \<Rightarrow> Inl e
      | Inr ms \<Rightarrow> Inr ((if metrics then [MwMetrics] else []) @ (if metadata then [MwRequestMetadata] else []) @ ms))"

definition standard_routes :: "(string \<times> string) list" where
  "standard_routes = [(''GET'', ''/health/live''), (''GET'', ''/health/ready''), (''ANY'', ''/metrics'')]"

text \<open>A router exists only with a limiter that can refuse: backend, limit and window are there.\<close>

lemma router_limits: "NewRouter o0 = Inr ms \<Longrightarrow> ro_RateLimit o0 = Some c \<Longrightarrow> rc_Limiter c \<noteq> None \<and> 0 < rc_Limit c \<and> 0 < rc_Window c"
  by (auto simp: NewRouter_def RateLimitConfig_Validate_def split: if_splits option.splits)

end
