(* ===== verification/Lifecycle.thy ===== *)
theory Lifecycle
  imports Prelude
begin

text \<open>
  Starting and stopping of the processes: \<open>src/pkg/lifecycle/lifecycle.go\<close> and the resource stack of
  \<open>src/internal/app/stack.go\<close>. What \<open>errors.Join\<close> joins is the list of its errors, so that the empty list is \<open>nil\<close>. The
  choices of \<open>select\<close> are part of the environment: the list of what the loop receives, in that order.
\<close>

section \<open>Resource stack\<close>

type_synonym ('w, 'e) closer = "'w \<Rightarrow> 'e option \<times> 'w"

record ('w, 'e) Stack =
  st_closers :: "('w, 'e) closer list"
  st_closed :: bool

definition NewStack :: "('w, 'e) Stack" where
  "NewStack = \<lparr>st_closers = [], st_closed = False\<rparr>"

text \<open>A nil closer is \<open>None\<close>.\<close>

definition Stack_Add :: "('w, 'e) closer option \<Rightarrow> ('w, 'e) Stack \<Rightarrow> ('w, 'e) Stack" where
  "Stack_Add c s = (case c of None \<Rightarrow> s | Some f \<Rightarrow> if st_closed s then s else s\<lparr>st_closers := st_closers s @ [f]\<rparr>)"

fun close_each :: "('w, 'e) closer list \<Rightarrow> 'w \<Rightarrow> 'e list \<times> 'w" where
  "close_each [] w = ([], w)"
| "close_each (f # fs) w = (let (e, w1) = f w; (es, w2) = close_each fs w1 in (case e of None \<Rightarrow> es | Some x \<Rightarrow> x # es, w2))"

definition Stack_Close :: "('w, 'e) Stack \<Rightarrow> 'w \<Rightarrow> 'e list \<times> ('w, 'e) Stack \<times> 'w" where
  "Stack_Close s w = (if st_closed s then ([], s, w)
     else let (es, w') = close_each (rev (st_closers s)) w in (es, s\<lparr>st_closed := True\<rparr>, w'))"

type_synonym ('w, 'e) factory = "'w \<Rightarrow> ('e + ('w, 'e) closer option) \<times> 'w"

fun build_from :: "('w, 'e) factory list \<Rightarrow> ('w, 'e) Stack \<Rightarrow> 'w \<Rightarrow> ('e + ('w, 'e) Stack) \<times> 'w" where
  "build_from [] s w = (Inr s, w)"
| "build_from (f # fs) s w = (case f w of
      (Inl e, w1) \<Rightarrow> (Inl e, snd (snd (Stack_Close s w1)))
    | (Inr c, w1) \<Rightarrow> build_from fs (Stack_Add c s) w1)"

definition BuildResources :: "('w, 'e) factory list \<Rightarrow> 'w \<Rightarrow> ('e + ('w, 'e) Stack) \<times> 'w" where
  "BuildResources fs = build_from fs NewStack"

text \<open>A failed build closes what was built, and joins both errors. A missing stack is \<open>None\<close>.\<close>

definition closeBuildResources :: "('w, 'e) Stack option \<Rightarrow> 'e \<Rightarrow> 'w \<Rightarrow> 'e list \<times> 'w" where
  "closeBuildResources s e w = (case s of
      None \<Rightarrow> ([e], w)
    | Some s \<Rightarrow> let (es, _, w') = Stack_Close s w in (e # es, w'))"

section \<open>Running components\<close>

text \<open>
  What the loop receives: the end of the parent context, or the result of a component with whether the run context was
  done by then. \<open>canceled\<close> is \<open>errors.Is(err, context.Canceled)\<close>.
\<close>

datatype 'e run_event = ParentDone | Result "'e option" bool

text \<open>The error that ends the loop; nothing while it still waits.\<close>

fun await :: "('e \<Rightarrow> bool) \<Rightarrow> nat \<Rightarrow> 'e run_event list \<Rightarrow> 'e option option" where
  "await canceled 0 evs = Some None"
| "await canceled (Suc n) [] = None"
| "await canceled (Suc n) (ParentDone # evs) = Some None"
| "await canceled (Suc n) (Result err ctx_done # evs) = (case err of
      None \<Rightarrow> await canceled n evs
    | Some e \<Rightarrow> if canceled e \<and> ctx_done then await canceled n evs else Some (Some e))"

text \<open>How the call of \<open>Shutdown\<close> of one component ends, or that the deadline comes first.\<close>

datatype 'e stop = Stopped "'e option" | DeadlineFirst

datatype 'e life_error = BadShutdownTimeout | NilComponent | RunError 'e | ShutdownError 'e | ShutdownDeadline

text \<open>The calls in order, the joined errors, and whether the deadline ended the loop; \<open>stop i\<close> is the end of component \<open>i\<close>.\<close>

fun shutdown_loop :: "('e \<Rightarrow> bool) \<Rightarrow> (nat \<Rightarrow> 'e stop) \<Rightarrow> nat \<Rightarrow> nat list \<times> 'e life_error list \<times> bool" where
  "shutdown_loop canceled stop 0 = ([], [], False)"
| "shutdown_loop canceled stop (Suc i) = (case stop i of
      DeadlineFirst \<Rightarrow> ([i], [], True)
    | Stopped err \<Rightarrow> let (calls, errs, late) = shutdown_loop canceled stop i in
        (i # calls, (case err of None \<Rightarrow> [] | Some e \<Rightarrow> if canceled e then [] else [ShutdownError e]) @ errs, late))"

text \<open>
  \<open>Run\<close>: \<open>nils\<close> says which components are nil; \<open>workers_stop\<close> whether the workers end before the deadline. It returns the
  calls of \<open>Shutdown\<close> in order with the joined errors, or nothing while it waits.
\<close>

definition Lifecycle_Run ::
    "('e \<Rightarrow> bool) \<Rightarrow> int \<Rightarrow> bool list \<Rightarrow> 'e run_event list \<Rightarrow> (nat \<Rightarrow> 'e stop) \<Rightarrow> bool \<Rightarrow> (nat list \<times> 'e life_error list) option" where
  "Lifecycle_Run canceled shutdownTimeout nils evs stop workers_stop =
     (if shutdownTimeout \<le> 0 then Some ([], [BadShutdownTimeout])
      else if list_ex id nils then Some ([], [NilComponent])
      else case (if nils = [] then (if ParentDone \<in> set evs then Some None else None) else await canceled (length nils) evs) of
        None \<Rightarrow> None
      | Some err \<Rightarrow>
          let run = (case err of None \<Rightarrow> [] | Some e \<Rightarrow> [RunError e]);
              (calls, errs, late) = shutdown_loop canceled stop (length nils) in
          Some (calls, run @ errs @ (if late \<or> \<not> workers_stop then [ShutdownDeadline] else [])))"

section \<open>Everything is closed once, in reverse order\<close>

text \<open>Closers that write down their number.\<close>

definition logging :: "(nat \<Rightarrow> 'e option) \<Rightarrow> nat \<Rightarrow> (nat list, 'e) closer" where
  "logging err i l = (err i, l @ [i])"

lemma close_each_log: "close_each (map (logging err) is) l = (List.map_filter err is, l @ is)"
  by (induction "is" arbitrary: l) (simp_all add: logging_def map_filter_simps split: option.split)

datatype stack_op = AddCloser nat | AddNil | CloseStack

fun stack_step :: "(nat \<Rightarrow> 'e option) \<Rightarrow> (nat list, 'e) Stack \<times> nat list \<Rightarrow> stack_op \<Rightarrow> (nat list, 'e) Stack \<times> nat list" where
  "stack_step err (s, l) (AddCloser i) = (Stack_Add (Some (logging err i)) s, l)"
| "stack_step err (s, l) AddNil = (Stack_Add None s, l)"
| "stack_step err (s, l) CloseStack = snd (Stack_Close s l)"

text \<open>The closers added before the first \<open>Close\<close>.\<close>

definition added :: "stack_op list \<Rightarrow> nat list" where
  "added ops = concat (map (\<lambda>x. case x of AddCloser i \<Rightarrow> [i] | _ \<Rightarrow> []) (takeWhile (\<lambda>x. x \<noteq> CloseStack) ops))"

lemma stack_closed: "st_closed s \<Longrightarrow> foldl (stack_step err) (s, l) ops = (s, l)"
proof (induction ops)
  case (Cons x ops)
  then have "stack_step err (s, l) x = (s, l)" by (cases x) (simp_all add: Stack_Add_def Stack_Close_def)
  then show ?case using Cons by simp
qed simp

lemma stack_run:
  "\<not> st_closed s \<Longrightarrow> st_closers s = map (logging err) is \<Longrightarrow>
    snd (foldl (stack_step err) (s, l) ops) = l @ (if CloseStack \<in> set ops then rev (is @ added ops) else [])"
proof (induction ops arbitrary: s "is" l)
  case (Cons x ops)
  show ?case
  proof (cases x)
    case (AddCloser i)
    have "snd (foldl (stack_step err) (Stack_Add (Some (logging err i)) s, l) ops) = l @ (if CloseStack \<in> set ops then rev ((is @ [i]) @ added ops) else [])"
      using Cons.prems by (intro Cons.IH) (simp_all add: Stack_Add_def)
    then show ?thesis using AddCloser by (auto simp: added_def)
  next
    case AddNil
    then show ?thesis using Cons.IH [OF Cons.prems, of l] by (auto simp: Stack_Add_def added_def)
  next
    case CloseStack
    have "Stack_Close s l = (List.map_filter err (rev is), s\<lparr>st_closed := True\<rparr>, l @ rev is)"
      using Cons.prems close_each_log [of err "rev is" l] by (simp add: Stack_Close_def rev_map)
    then show ?thesis using CloseStack stack_closed [of "s\<lparr>st_closed := True\<rparr>" err "l @ rev is" ops] by (simp add: added_def)
  qed
qed simp

text \<open>However often a stack is closed, each closer that was added before runs once, the last first; later ones never run.\<close>

lemma stack_closes_once: "snd (foldl (stack_step err) (NewStack, []) ops) = (if CloseStack \<in> set ops then rev (added ops) else [])"
  using stack_run [of NewStack err "[]" "[]" ops] by (simp add: NewStack_def)

text \<open>A failed build leaves nothing open: the factories before the failing one are closed in reverse order.\<close>

lemma build_fails:
  assumes "fs = map (\<lambda>i l. (Inr (Some (logging err i)), l)) is @ (\<lambda>l. (Inl e, l)) # rest"
  shows "BuildResources fs l = (Inl e, l @ rev is)"
proof -
  have "build_from (map (\<lambda>i l. (Inr (Some (logging err i)), l)) is @ (\<lambda>l. (Inl e, l)) # rest) s l = (Inl e, l @ rev (js @ is))"
    if "\<not> st_closed s" "st_closers s = map (logging err) js" for s js
    using that
  proof (induction "is" arbitrary: s js)
    case Nil
    then show ?case using close_each_log [of err "rev js" l] by (simp add: Stack_Close_def rev_map)
  next
    case (Cons i "is")
    then show ?case using Cons.IH [of "s\<lparr>st_closers := st_closers s @ [logging err i]\<rparr>" "js @ [i]"] by (simp add: Stack_Add_def)
  qed
  from this [of NewStack "[]"] show ?thesis using assms by (simp add: BuildResources_def NewStack_def)
qed

section \<open>Every component is stopped\<close>

lemma await_returns: "ParentDone \<in> set evs \<or> n \<le> length evs \<Longrightarrow> await canceled n evs \<noteq> None"
  by (induction canceled n evs rule: await.induct) (auto split: option.split)

lemma await_failure:
  "await canceled n evs = Some (Some e) \<Longrightarrow> \<exists>pre d post. evs = pre @ Result (Some e) d # post \<and> length pre < n \<and> \<not> (canceled e \<and> d) \<and>
     (\<forall>x \<in> set pre. \<exists>err d. x = Result err d \<and> (\<forall>f. err = Some f \<longrightarrow> canceled f \<and> d))"
proof (induction canceled n evs rule: await.induct)
  case (4 canceled n err d evs)
  show ?case
  proof (cases "\<exists>f. err = Some f \<and> \<not> (canceled f \<and> d)")
    case True
    then show ?thesis using 4 by (intro exI [of _ "[]"]) (auto split: if_splits)
  next
    case False
    then have "await canceled n evs = Some (Some e)" using 4(3) by (auto split: option.splits)
    moreover have "err = None \<or> (\<exists>f. err = Some f \<and> canceled f \<and> d)" using False by (cases err) auto
    ultimately obtain pre d' post where ih: "evs = pre @ Result (Some e) d' # post" "length pre < n" "\<not> (canceled e \<and> d')"
      "\<forall>x \<in> set pre. \<exists>err d. x = Result err d \<and> (\<forall>f. err = Some f \<longrightarrow> canceled f \<and> d)" using 4(1,2) by auto
    then show ?thesis using False by (intro exI [of _ "Result err d # pre"]) auto
  qed
qed auto

lemma shutdown_loop_calls:
  "shutdown_loop canceled stop n = (calls, errs, late) \<Longrightarrow>
    (\<exists>k \<le> n. calls = rev [k..<n] \<and> (if late then k < n \<and> stop k = DeadlineFirst else k = 0) \<and> (\<forall>i. k + (if late then 1 else 0) \<le> i \<and> i < n \<longrightarrow> stop i \<noteq> DeadlineFirst) \<and>
      set errs = {ShutdownError e | e i. k \<le> i \<and> i < n \<and> stop i = Stopped (Some e) \<and> \<not> canceled e})"
proof (induction canceled stop n arbitrary: calls errs rule: shutdown_loop.induct)
  case (2 canceled stop i)
  show ?case
  proof (cases "stop i")
    case DeadlineFirst
    have "j = i" if "i \<le> j" "j < Suc i" for j using that by simp
    then show ?thesis using 2(2) DeadlineFirst by (intro exI [of _ i]) (auto simp: less_Suc_eq)
  next
    case (Stopped err)
    obtain calls' errs' where rest: "shutdown_loop canceled stop i = (calls', errs', late)"
      and eq: "calls = i # calls'" "errs = (case err of None \<Rightarrow> [] | Some e \<Rightarrow> if canceled e then [] else [ShutdownError e]) @ errs'"
      using 2(2) Stopped by (auto split: prod.splits)
    obtain k where k: "k \<le> i" "calls' = rev [k..<i]" "if late then k < i \<and> stop k = DeadlineFirst else k = 0"
      "\<forall>j. k + (if late then 1 else 0) \<le> j \<and> j < i \<longrightarrow> stop j \<noteq> DeadlineFirst"
      "set errs' = {ShutdownError e | e j. k \<le> j \<and> j < i \<and> stop j = Stopped (Some e) \<and> \<not> canceled e}"
      using 2(1) [OF Stopped rest] by blast
    have "set errs = {ShutdownError e | e j. k \<le> j \<and> j < Suc i \<and> stop j = Stopped (Some e) \<and> \<not> canceled e}"
      using k(1,5) Stopped unfolding eq by (auto simp: less_Suc_eq split: option.splits if_splits)
    then show ?thesis using k Stopped eq(1) by (intro exI [of _ k]) (auto simp: less_Suc_eq)
  qed
qed auto

text \<open>
  When \<open>Run\<close> returns, \<open>Shutdown\<close> was called on every component, the last first, unless the deadline cut this short, which
  is then reported; and it returns nil exactly when no component failed, every shutdown succeeded or was only cancelled,
  and all workers ended in time.
\<close>

lemma run_shuts_down:
  assumes run: "Lifecycle_Run canceled timeout nils evs stop workers = Some (calls, errs)" and ok: "0 < timeout" "\<not> list_ex id nils"
  shows "\<exists>k \<le> length nils. calls = rev [k..<length nils] \<and> (ShutdownDeadline \<notin> set errs \<longrightarrow> k = 0)"
    and "errs = [] \<longleftrightarrow> (nils = [] \<or> await canceled (length nils) evs = Some None) \<and> workers \<and>
      (\<forall>i < length nils. \<exists>err. stop i = Stopped err \<and> (\<forall>e. err = Some e \<longrightarrow> canceled e))"
proof -
  obtain c es late where loop: "shutdown_loop canceled stop (length nils) = (c, es, late)" by (metis prod.exhaust)
  obtain err where err: "(if nils = [] then (if ParentDone \<in> set evs then Some None else None) else await canceled (length nils) evs) = Some err"
    using run ok by (auto simp: Lifecycle_Run_def split: option.splits)
  have eq: "calls = c" "errs = (case err of None \<Rightarrow> [] | Some e \<Rightarrow> [RunError e]) @ es @ (if late \<or> \<not> workers then [ShutdownDeadline] else [])"
    using run ok err loop by (simp_all add: Lifecycle_Run_def)
  obtain k where k: "k \<le> length nils" "c = rev [k..<length nils]" "if late then k < length nils \<and> stop k = DeadlineFirst else k = 0"
    "\<forall>i. k + (if late then 1 else 0) \<le> i \<and> i < length nils \<longrightarrow> stop i \<noteq> DeadlineFirst"
    "set es = {ShutdownError e | e i. k \<le> i \<and> i < length nils \<and> stop i = Stopped (Some e) \<and> \<not> canceled e}"
    using shutdown_loop_calls [OF loop] by blast
  show "\<exists>k \<le> length nils. calls = rev [k..<length nils] \<and> (ShutdownDeadline \<notin> set errs \<longrightarrow> k = 0)" using k(1-3) eq by auto
  have "es = [] \<longleftrightarrow> (\<forall>i. k \<le> i \<and> i < length nils \<longrightarrow> (\<forall>e. stop i = Stopped (Some e) \<longrightarrow> canceled e))" using k(5) by (simp only: set_empty [symmetric]) blast
  moreover have "errs = [] \<longleftrightarrow> err = None \<and> es = [] \<and> \<not> late \<and> workers" unfolding eq by (auto split: option.split)
  moreover have "err = None \<longleftrightarrow> nils = [] \<or> await canceled (length nils) evs = Some None" using err by (auto split: if_splits)
  moreover have "(\<not> late \<and> (\<forall>i. k \<le> i \<and> i < length nils \<longrightarrow> (\<forall>e. stop i = Stopped (Some e) \<longrightarrow> canceled e))) \<longleftrightarrow>
      (\<forall>i < length nils. \<exists>err. stop i = Stopped err \<and> (\<forall>e. err = Some e \<longrightarrow> canceled e))"
  proof (cases late)
    case True
    then show ?thesis using k(3) by (metis (full_types) stop.distinct(1))
  next
    case False
    then have "k = 0" "\<forall>i < length nils. stop i \<noteq> DeadlineFirst" using k(3,4) by auto
    then show ?thesis using False by (metis le0 stop.exhaust stop.inject)
  qed
  ultimately show "errs = [] \<longleftrightarrow> (nils = [] \<or> await canceled (length nils) evs = Some None) \<and> workers \<and>
      (\<forall>i < length nils. \<exists>err. stop i = Stopped err \<and> (\<forall>e. err = Some e \<longrightarrow> canceled e))" by blast
qed

end
