(* ===== verification/Processes.thy ===== *)
theory Processes
  imports Lifecycle Scheduling Task_Queue
begin

text \<open>
  The processes: what they build and in which order, and their loops (\<open>src/internal/app/api.go\<close>, \<open>tasks.go\<close>,
  \<open>migrate.go\<close> and \<open>run.go\<close>). What can fail while a process is built is given by the errors of the fallible steps; tickers
  and contexts are given by the sequence of events that a loop receives.
\<close>

section \<open>Building a process\<close>

datatype resource = PgPool | RedisClient | HTTPServer | MetricsServer | AsynqServer | AsynqScheduler

text \<open>A step that acquires a resource and adds it to the stack, or one that fails when it has an error.\<close>

datatype 'e build_step = Acquire resource | Fallible "'e option"

text \<open>\<open>closeBuildResources\<close> closes the stack \<open>s\<close>; the second component is what was closed, in that order.\<close>

fun build_process :: "'e build_step list \<Rightarrow> resource list \<Rightarrow> ('e + resource list) \<times> resource list" where
  "build_process [] s = (Inr s, [])"
| "build_process (Acquire r # ss) s = build_process ss (s @ [r])"
| "build_process (Fallible e # ss) s = (case e of Some x \<Rightarrow> (Inl x, rev s) | None \<Rightarrow> build_process ss s)"

text \<open>Pool, TLS configuration, ping, token manager, cryptography and router can fail.\<close>

definition BuildAPI_steps :: "'e option \<Rightarrow> 'e option \<Rightarrow> 'e option \<Rightarrow> 'e option \<Rightarrow> 'e option \<Rightarrow> 'e option \<Rightarrow> 'e option \<Rightarrow> 'e build_step list" where
  "BuildAPI_steps config pool tls ping jwt crypto router =
     [Fallible config, Fallible pool, Acquire PgPool, Fallible tls, Acquire RedisClient, Fallible ping, Fallible jwt, Fallible crypto,
      Fallible router, Acquire HTTPServer]"

definition openTaskDependencies :: "'e option \<Rightarrow> 'e option \<Rightarrow> 'e option \<Rightarrow> ('e + resource list) \<times> resource list" where
  "openTaskDependencies pool tls ping =
     (case pool of Some e \<Rightarrow> (Inl e, [])
      | None \<Rightarrow> (case tls of Some e \<Rightarrow> (Inl e, [PgPool])
        | None \<Rightarrow> (case ping of Some e \<Rightarrow> (Inl e, [PgPool, RedisClient]) | None \<Rightarrow> (Inr [PgPool, RedisClient], []))))"

definition BuildWorker :: "'e option \<Rightarrow> 'e option \<Rightarrow> 'e option \<Rightarrow> 'e option \<Rightarrow> ('e + resource list) \<times> resource list" where
  "BuildWorker pool tls ping registry = (case openTaskDependencies pool tls ping of
      (Inl e, closed) \<Rightarrow> (Inl e, closed)
    | (Inr deps, _) \<Rightarrow> build_process [Fallible registry, Acquire MetricsServer, Acquire AsynqServer] deps)"

definition BuildScheduler :: "'e option \<Rightarrow> 'e option \<Rightarrow> ('e + resource list) \<times> resource list" where
  "BuildScheduler pool scheduler = build_process [Fallible pool, Acquire PgPool, Fallible scheduler, Acquire AsynqScheduler] []"

fun acquired :: "'e build_step list \<Rightarrow> resource list" where
  "acquired [] = []"
| "acquired (Acquire r # ss) = r # acquired ss"
| "acquired (Fallible e # ss) = (case e of Some _ \<Rightarrow> [] | None \<Rightarrow> acquired ss)"

lemma build_process_result:
  "build_process ss s = (r, closed) \<Longrightarrow> case r of Inl _ \<Rightarrow> closed = rev (s @ acquired ss) | Inr t \<Rightarrow> t = s @ acquired ss \<and> closed = []"
  by (induction ss s rule: build_process.induct) (auto split: option.splits sum.splits)

text \<open>Nothing leaks: a failed build has closed what it had acquired, in reverse order, and a successful one has closed nothing.\<close>

lemma build_no_leak:
  assumes "build_process ss [] = (r, closed)"
  shows "case r of Inl _ \<Rightarrow> closed = rev (acquired ss) | Inr open_ones \<Rightarrow> open_ones = acquired ss \<and> closed = []"
  using build_process_result [OF assms] by (cases r) simp_all

lemma worker_no_leak:
  assumes "BuildWorker pool tls ping registry = (r, closed)"
  shows "case r of
      Inl _ \<Rightarrow> set closed = (if pool \<noteq> None then {} else if tls \<noteq> None then {PgPool} else {PgPool, RedisClient})
    | Inr s \<Rightarrow> rev s = [AsynqServer, MetricsServer, RedisClient, PgPool] \<and> closed = []"
  using assms by (auto simp: BuildWorker_def openTaskDependencies_def split: option.splits)

section \<open>Loops\<close>

datatype loop_event = Tick | CtxDone

text \<open>One pass of the dispatcher; a failure is logged unless the context is done.\<close>

definition outbox_pass :: "('w \<Rightarrow> 'e option \<times> 'w) \<Rightarrow> ('w \<Rightarrow> bool) \<Rightarrow> 'w \<times> 'e list \<Rightarrow> 'w \<times> 'e list" where
  "outbox_pass dispatch ended = (\<lambda>(w, log). case dispatch w of
      (None, w') \<Rightarrow> (w', log)
    | (Some e, w') \<Rightarrow> (w', if ended w' then log else log @ [e]))"

fun outbox_loop :: "('w \<Rightarrow> 'e option \<times> 'w) \<Rightarrow> ('w \<Rightarrow> bool) \<Rightarrow> loop_event list \<Rightarrow> 'w \<times> 'e list \<Rightarrow> 'w \<times> 'e list" where
  "outbox_loop dispatch ended [] s = s"
| "outbox_loop dispatch ended (CtxDone # evs) s = s"
| "outbox_loop dispatch ended (Tick # evs) s = outbox_loop dispatch ended evs (outbox_pass dispatch ended s)"

definition runOutboxDispatcher :: "('w \<Rightarrow> 'e option \<times> 'w) \<Rightarrow> ('w \<Rightarrow> bool) \<Rightarrow> loop_event list \<Rightarrow> 'w \<times> 'e list \<Rightarrow> 'w \<times> 'e list" where
  "runOutboxDispatcher dispatch ended evs s = outbox_loop dispatch ended evs (outbox_pass dispatch ended s)"

definition outboxDispatchBatchSize :: int where
  "outboxDispatchBatchSize = 100"

text \<open>The loop of the worker over the dispatcher of \<open>Task_Queue\<close>.\<close>

definition worker_dispatch :: "task_env \<Rightarrow> ('q, publish_error) publisher \<Rightarrow> task_db \<times> 'q \<Rightarrow> dispatch_error option \<times> (task_db \<times> 'q)" where
  "worker_dispatch env publish w = (case DispatchPending env publish outboxDispatchBatchSize w of (Inl e, w') \<Rightarrow> (Some e, w') | (Inr _, w') \<Rightarrow> (None, w'))"

text \<open>A failed pass does not stop the dispatcher: there is one pass at the start and one per tick.\<close>

lemma outbox_loop_passes: "outbox_loop dispatch ended evs s = (outbox_pass dispatch ended ^^ length (takeWhile (\<lambda>e. e = Tick) evs)) s"
  by (induction dispatch ended evs s rule: outbox_loop.induct) (simp_all add: funpow_swap1)

lemma dispatcher_passes:
  "runOutboxDispatcher dispatch ended evs s = (outbox_pass dispatch ended ^^ Suc (length (takeWhile (\<lambda>e. e = Tick) evs))) s"
  by (simp add: runOutboxDispatcher_def outbox_loop_passes funpow_swap1)

text \<open>Whatever fails, the tables stay consistent and executions only advance.\<close>

lemma dispatcher_keeps:
  assumes "task_rely env" and "task_inv (fst (fst s))"
  shows "task_inv (fst (fst (runOutboxDispatcher (worker_dispatch env publish) ended evs s))) \<and>
    task_le (fst (fst s)) (fst (fst (runOutboxDispatcher (worker_dispatch env publish) ended evs s)))"
proof -
  have "task_inv (fst (fst ((outbox_pass (worker_dispatch env publish) ended ^^ n) s))) \<and> task_le (fst (fst s)) (fst (fst ((outbox_pass (worker_dispatch env publish) ended ^^ n) s)))" for n
  proof (induction n)
    case 0
    then show ?case using assms(2) task_le_refl by simp
  next
    case (Suc n)
    obtain w log where s: "(outbox_pass (worker_dispatch env publish) ended ^^ n) s = (w, log)" by (metis prod.exhaust)
    obtain r w' where d: "DispatchPending env publish outboxDispatchBatchSize w = (r, w')" by (metis prod.exhaust)
    have "task_le (fst w) (fst w')" "task_inv (fst w')"
      using guar2_DispatchPending [OF assms(1), of publish outboxDispatchBatchSize] Suc s d unfolding guar2_def by (metis fst_conv snd_conv)+
    moreover have "fst (outbox_pass (worker_dispatch env publish) ended (w, log)) = w'"
      using d by (simp add: outbox_pass_def worker_dispatch_def split: sum.split)
    ultimately show ?case using Suc s task_le_trans by auto
  qed
  then show ?thesis unfolding dispatcher_passes .
qed

text \<open>\<open>schedulerRuntime.Run\<close>: refresh, start, and refresh again at every tick until the context is done or a pass fails.\<close>

datatype 'e run_end = Ended "'e option" | StillRunning

fun scheduler_loop :: "('w \<Rightarrow> ('e + unit) \<times> 'w) \<Rightarrow> loop_event list \<Rightarrow> 'w \<Rightarrow> 'e run_end \<times> 'w" where
  "scheduler_loop refresh [] w = (StillRunning, w)"
| "scheduler_loop refresh (CtxDone # evs) w = (Ended None, w)"
| "scheduler_loop refresh (Tick # evs) w = (case refresh w of
      (Inl e, w') \<Rightarrow> (Ended (Some e), w')
    | (Inr _, w') \<Rightarrow> scheduler_loop refresh evs w')"

definition scheduler_Run :: "('w \<Rightarrow> ('e + unit) \<times> 'w) \<Rightarrow> ('w \<Rightarrow> ('e + unit) \<times> 'w) \<Rightarrow> loop_event list \<Rightarrow> 'w \<Rightarrow> 'e run_end \<times> 'w" where
  "scheduler_Run refresh start evs w = (case refresh w of
      (Inl e, w1) \<Rightarrow> (Ended (Some e), w1)
    | (Inr _, w1) \<Rightarrow> (case start w1 of
        (Inl e, w2) \<Rightarrow> (Ended (Some e), w2)
      | (Inr _, w2) \<Rightarrow> scheduler_loop refresh evs w2))"

text \<open>What every successful pass and the start keep holds as long as the process goes on.\<close>

lemma scheduler_Run_inv:
  assumes "\<And>w w'. I w \<Longrightarrow> refresh w = (Inr (), w') \<Longrightarrow> I w'" "\<And>w w'. I w \<Longrightarrow> start w = (Inr (), w') \<Longrightarrow> I w'"
    and "I w" "scheduler_Run refresh start evs w = (r, w')" "r = StillRunning \<or> r = Ended None"
  shows "I w'"
proof -
  have "scheduler_loop refresh evs w = (r, w') \<Longrightarrow> I w \<Longrightarrow> r = StillRunning \<or> r = Ended None \<Longrightarrow> I w'" for evs w
    using assms(1) by (induction refresh evs w rule: scheduler_loop.induct) (auto split: prod.splits sum.splits)
  then show ?thesis using assms(2-5) assms(1) [OF assms(3)] by (fastforce simp: scheduler_Run_def split: prod.splits sum.splits)
qed

section \<open>Serving and shutting down\<close>

text \<open>
  Servers and clients are given by how their calls end. \<open>closed\<close> is \<open>errors.Is(err, http.ErrServerClosed)\<close>; a missing
  field of a runtime is \<open>None\<close>, and what \<open>errors.Join\<close> joins is the list of its errors.
\<close>

definition serve_result :: "('e \<Rightarrow> bool) \<Rightarrow> 'e option \<Rightarrow> 'e option" where
  "serve_result closed err = (case err of Some e \<Rightarrow> if closed e then None else Some e | None \<Rightarrow> None)"

datatype 'e worker_event = WorkerCtxDone | QueueEnded "'e option" | MetricsEnded "'e option"

text \<open>What \<open>workerRuntime.Run\<close> returns after the first event its \<open>select\<close> takes.\<close>

fun worker_Run :: "('e \<Rightarrow> bool) \<Rightarrow> 'e worker_event \<Rightarrow> 'e option" where
  "worker_Run closed WorkerCtxDone = None"
| "worker_Run closed (QueueEnded err) = err"
| "worker_Run closed (MetricsEnded err) = serve_result closed err"

definition outboxDispatchInterval :: int where
  "outboxDispatchInterval = 5 * 1000000000"

definition worker_interval :: "int \<Rightarrow> int" where
  "worker_interval interval = (if interval \<le> 0 then outboxDispatchInterval else interval)"

definition optional_close :: "('w, 'e) closer option \<Rightarrow> ('w, 'e) closer list" where
  "optional_close c = (case c of Some f \<Rightarrow> [f] | None \<Rightarrow> [])"

text \<open>A call without a result as a closer.\<close>

definition silent :: "('w \<Rightarrow> 'w) \<Rightarrow> ('w, 'e) closer" where
  "silent f w = (None, f w)"

definition api_Shutdown ::
    "('w, 'e) Stack option \<Rightarrow> ('w, 'e) closer option \<Rightarrow> ('w, 'e) closer option \<Rightarrow> ('w \<Rightarrow> 'w) option \<Rightarrow> 'w \<Rightarrow> 'e list \<times> 'w" where
  "api_Shutdown resources server client pool w = (case resources of
      Some s \<Rightarrow> (let (es, _, w') = Stack_Close s w in (es, w'))
    | None \<Rightarrow> close_each (optional_close server @ optional_close client @ optional_close (map_option silent pool)) w)"

definition worker_Shutdown ::
    "('w, 'e) Stack option \<Rightarrow> ('w \<Rightarrow> 'w) \<Rightarrow> ('w, 'e) closer option \<Rightarrow> ('w, 'e) closer option \<Rightarrow> ('w \<Rightarrow> 'w) option \<Rightarrow> 'w \<Rightarrow> 'e list \<times> 'w" where
  "worker_Shutdown resources server metrics client pool w = (case resources of
      Some s \<Rightarrow> (let (es, _, w') = Stack_Close s w in (es, w'))
    | None \<Rightarrow> close_each (silent server # optional_close metrics @ optional_close client @ optional_close (map_option silent pool)) w)"

definition scheduler_Shutdown ::
    "('w, 'e) Stack option \<Rightarrow> ('w \<Rightarrow> 'w) \<Rightarrow> ('w, 'e) closer option \<Rightarrow> ('w \<Rightarrow> 'w) option \<Rightarrow> 'w \<Rightarrow> 'e list \<times> 'w" where
  "scheduler_Shutdown resources scheduler client pool w = (case resources of
      Some s \<Rightarrow> (let (es, _, w') = Stack_Close s w in (es, w'))
    | None \<Rightarrow> close_each (silent scheduler # optional_close client @ optional_close (map_option silent pool)) w)"

text \<open>
  The stack that the builders leave shuts a process down as its own fields would: first what takes requests, then the
  connections that these use.
\<close>

definition stack_of :: "('w, 'e) closer list \<Rightarrow> ('w, 'e) Stack" where
  "stack_of cs = foldl (\<lambda>s c. Stack_Add (Some c) s) NewStack cs"

lemma stack_of_close: "Stack_Close (stack_of cs) w = (let (es, w') = close_each (rev cs) w in (es, \<lparr>st_closers = cs, st_closed = True\<rparr>, w'))"
proof -
  have "foldl (\<lambda>s c. Stack_Add (Some c) s) \<lparr>st_closers = ds, st_closed = False\<rparr> cs = \<lparr>st_closers = ds @ cs, st_closed = False\<rparr>" for ds
    by (induction cs arbitrary: ds) (simp_all add: Stack_Add_def)
  from this [of "[]"] show ?thesis by (simp add: stack_of_def NewStack_def Stack_Close_def)
qed

lemma shutdown_order:
  "api_Shutdown (Some (stack_of [silent pool, client, server])) a b c w = api_Shutdown None (Some server) (Some client) (Some pool) w"
  "worker_Shutdown (Some (stack_of [silent pool, client, metrics, silent queue])) q a b c w =
     worker_Shutdown None queue (Some metrics) (Some client) (Some pool) w"
  "scheduler_Shutdown (Some (stack_of [silent pool, silent sched])) q b c w = scheduler_Shutdown None sched None (Some pool) w"
  by (simp_all add: api_Shutdown_def worker_Shutdown_def scheduler_Shutdown_def stack_of_close optional_close_def Let_def split: prod.split)

section \<open>Migrations and roles\<close>

datatype migrate_error = NoChange | MigrateFailed string

datatype migration_result = Migrated | BadDirection string | MigrationError migrate_error

definition migration_Run :: "migrate_error option \<Rightarrow> migrate_error option \<Rightarrow> string \<Rightarrow> migration_result" where
  "migration_Run up down direction =
     (let outcome = (\<lambda>e. case e of None \<Rightarrow> Migrated | Some NoChange \<Rightarrow> Migrated | Some x \<Rightarrow> MigrationError x) in
      if direction = [] \<or> direction = ''up'' then outcome up
      else if direction = ''down'' then outcome down
      else BadDirection direction)"

datatype 'e execute_error = LoadFailed 'e | BadLevel 'e | UnknownRole string | BuildFailed string 'e | RunFailed 'e

text \<open>\<open>Execute\<close>: load, choose the builder by the role, build, run; each argument is the error of that part.\<close>

definition Execute_role :: "'e option \<Rightarrow> 'e option \<Rightarrow> (string \<Rightarrow> 'e option) \<Rightarrow> 'e option \<Rightarrow> string \<Rightarrow> 'e execute_error option" where
  "Execute_role load level builders run role =
     (case load of Some e \<Rightarrow> Some (LoadFailed e)
      | None \<Rightarrow> (case level of Some e \<Rightarrow> Some (BadLevel e)
        | None \<Rightarrow>
          if role \<notin> {''api'', ''worker'', ''scheduler''} then Some (UnknownRole role)
          else (case builders role of
              Some e \<Rightarrow> Some (BuildFailed role e)
            | None \<Rightarrow> map_option RunFailed run)))"

end
