(* ===== verification/Spec2Isabelle.thy ===== *)
theory Spec2Isabelle
  imports Pagination Resilience Retry Redis_Rate_Limit Task_Queue Deployment_Safety Iam_Http_Safety Http_Middleware Configuration Admin_Seed Scheduling Platform_Http Mailer Observability Connections Processes
begin

text \<open>
  Verification library of the backend infrastructure, the Go program under \<open>src/\<close>.

  \<^bold>\<open>The program.\<close> Three processes share one PostgreSQL database and one Redis server. The API process serves HTTP: metrics,
  request metadata, request identifiers, access log, recovery, cross-origin headers and rate limiting surround the
  handlers of the identity module (\<open>iamhttp\<close>) and those for tasks and audit logs (\<open>platform_http.go\<close>). The handlers call
  audited wrappers of the identity service and the authentication service; these call the stores on PostgreSQL, and on
  Redis the refresh sessions, the email codes and the login challenges; they use the password hasher, the token manager,
  the cryptography of second factors and the mailer. Submitting a task writes an execution and an outbox message in one
  statement and tries to publish at once. The worker process takes messages from asynq's queue, claims the
  execution, runs its handler and records the result; its dispatcher publishes what the outbox still holds. The scheduler
  process keeps asynq's periodic entries in step with the schedules of the database. Configuration, resource
  stacks and the run of components are common to all of them.

  \<^bold>\<open>Foundations.\<close>
  \<^item> \<open>Prelude\<close>: fallible stateful operations (\<open>op\<close>, \<open>retE\<close>, \<open>failE\<close>, \<open>bindE\<close>), the wrap-around of \<open>int64\<close> and \<open>int32\<close>,
    fates of messages, and the part of Go's \<open>strings\<close> in use. \<open>Strconv\<close>: decimal and hexadecimal texts, UTF-8 rune counts.
    \<open>Base_Encoding\<close>: base64 and base32 with their decoders; its locale \<open>base_alphabet\<close> proves the round trip once and
    is interpreted for the three alphabets.
  \<^item> \<open>Redis\<close>: scripts and clients as programs over a parameter for the server, and the locale \<open>redis\<close> with what is
    relied on: every command behaves as documented on the live keys, and keys end exactly at their deadline. The interpretation
    \<open>lazy\<close> is a server that expires lazily. Lemmas \<open>redis_sim\<close> carry every script to the reference server.
  \<^item> \<open>Database\<close>: statements and transactions with their fate and the interference of other sessions before them, and the
    locale \<open>db_contract\<close> (an invariant and an order on table states that every query follows), interpreted
    for the task tables (\<open>tasks\<close>) and the identity tables (\<open>iam\<close>).

  \<^bold>\<open>Generic packages.\<close>
  \<^item> \<open>Pagination\<close> (\<open>pkg/pagination\<close>), \<open>Resilience\<close> and \<open>Retry\<close> (\<open>pkg/platform/resilience\<close>): page bounds, the breaker as
    a step relation of concurrent callers with reachable states, the retry loop with its termination and backoff.
  \<^item> \<open>Rate_Limit\<close> (\<open>MemoryRateLimiter\<close>) and \<open>Redis_Rate_Limit\<close> (\<open>redis_rate_limiter.go\<close> and the middleware): the number of
    admitted requests per window, and the equivalence of both limiters.
  \<^item> \<open>Http_Middleware\<close> (\<open>pkg/httpkit/middleware.go\<close>, \<open>requestmeta\<close>), \<open>Observability\<close> (\<open>metrics.go\<close>, readiness, access log),
    \<open>Mailer\<close> (\<open>smtp.go\<close>), \<open>Configuration\<close> (\<open>pkg/config\<close>), \<open>Connections\<close> (\<open>cache.go\<close>, \<open>tls.go\<close>, \<open>postgres.go\<close>,
    \<open>router.go\<close>, \<open>NewAPIRouter\<close>), \<open>Lifecycle\<close> (\<open>lifecycle.go\<close>, \<open>stack.go\<close>) and \<open>Processes\<close> (\<open>api.go\<close>, \<open>tasks.go\<close>, \<open>migrate.go\<close>,
    \<open>run.go\<close>): recovery is transparent or complete, client addresses cannot be forged behind trusted proxies, metrics count exactly in
    a bounded number of series,
    codes travel only over a verified connection, a validated configuration builds the services, every acquired resource
    is closed once and in reverse order, whatever step fails.

  \<^bold>\<open>Tasks.\<close> \<open>Task_Model\<close> (\<open>model.go\<close>, registry, catalogue), \<open>Task_Store\<close> (tables, queries, \<open>taskstore\<close>),
  \<open>Task_Service\<close> (\<open>service.go\<close>, scheduled submissions), \<open>Task_Queue\<close> (\<open>queue/asynq.go\<close>, runs of the whole system; locale
  \<open>asynq\<close> for the queue), \<open>Scheduling\<close> (\<open>platform/scheduler\<close>; locale \<open>periodic\<close> for asynq's scheduler) and \<open>Platform_Http\<close>
  (\<open>platform_http.go\<close>, \<open>task_catalog.go\<close>, \<open>system_test_task.go\<close>). The lemmas show that executions only advance, claims are
  exclusive, the dispatcher loses nothing and drains the outbox when nothing fails, submissions are idempotent and stored
  exactly, and a refresh leaves the scheduler in step with the database, up to one replacement when asynq refuses to take it
  back.

  \<^bold>\<open>Identity.\<close>
  \<^item> Tables and stores: \<open>Iam_Db\<close> (queries of \<open>dbgen\<close>), \<open>Iam_Model\<close> (\<open>modules/iam\<close>), \<open>Iam_Store\<close> and \<open>Auth_Store\<close>
    (\<open>iamstore\<close>). \<open>Iam_Contract\<close> states the integrity of the tables and how they may change; \<open>Iam_Runs\<close> shows that every
    operation follows it, and \<open>Iam_History\<close>, \<open>Iam_Security\<close> and \<open>Iam_Registration\<close> conclude over every run: an administrator
    remains, system roles stay, no update of second factors is lost, proofs and receipts are used once.
  \<^item> On Redis: \<open>Refresh_Sessions\<close> (\<open>refresh.go\<close>), and \<open>Auth_Cache\<close>, \<open>Auth_Guessing\<close>, \<open>Auth_Limits\<close> (\<open>authcache/redis.go\<close>): one
    session per user, single use of tokens, no session after a revocation until the next login, five guesses per code and
    challenge, for any interleaving.
  \<^item> Cryptography: \<open>Passwords\<close> (\<open>password.go\<close>), \<open>Tokens\<close> (\<open>token.go\<close>), \<open>Authcrypto\<close> (\<open>authcrypto/crypto.go\<close>).
  \<^item> Services: \<open>Iam_Ports\<close> has the Go interfaces as records of operations; \<open>Iam_Service\<close> and \<open>Auth_Service\<close> are the services over
    them; \<open>Service_Contract\<close> (locales \<open>preorder_world\<close>, \<open>service_ports\<close>) shows what a service inherits from its ports, and
    \<open>Service_Gates\<close> what a login must pass and for whom its tokens are made, for any ports. \<open>Audit_Trail\<close> and \<open>Audited_Service\<close> (\<open>modules/audit\<close>,
    \<open>auditstore\<close>, \<open>audited_iam.go\<close>, \<open>audited_authentication.go\<close>): auditing does not change what an operation does, and
    every event says what the operation did, for whom and with what result.
  \<^item> Composition: \<open>Deployment\<close> wires the services as \<open>BuildAPI\<close> does; \<open>Deployment_Safety\<close> has the locale \<open>deployment\<close>, which
    gives the two service locales as sublocales, with the interpretation \<open>demo\<close>. \<open>Http_Kit\<close>, \<open>Iam_Http\<close> and \<open>Iam_Http_Safety\<close> are
    \<open>pkg/apikit\<close> and \<open>iamhttp\<close>: the routes enforce their policy, cookies are protected, and a refresh token that is handed out is
    in its cookie only. \<open>Admin_Seed\<close> is the seeding of the bootstrap
    administrator.

  \<^bold>\<open>Conventions.\<close> Go's \<open>(T, error)\<close> is a sum with the error on the left, \<open>nil\<close> is \<open>None\<close>, structures are records with a short
  prefix per structure, interfaces are records of operations on a state of the world. Texts are byte strings. Times are integers in
  nanoseconds unless a definition says otherwise; \<open>int\<close> and \<open>int64\<close> values that the sources may overflow are wrapped
  explicitly. Functions are total: recursion is structural or has a measure, and no fuel is used. Loops that wait (tickers,
  \<open>select\<close>, connections) consume the list of events they receive, so theorems about them hold for every such list.

  \<^bold>\<open>What is relied on.\<close>
  \<^item> One SQL statement and one transaction is an atomic step: the sources lock the rows they decide on. Other sessions may
    change the tables in every way the contract allows before every statement, and a statement may fail before or after its effect.
  \<^item> A Lua script is atomic on Redis; its numbers are exact below \<open>2^53\<close>. Requests and replies may be lost.
  \<^item> Parameters of the definitions: JSON codecs, Argon2id, HMAC, SHA-256, AES-GCM, random sources, clocks, Unicode lower case,
    parsers of URLs, mail addresses, durations, instants, UUIDs and network addresses, the choice of the route by the router,
    asynq, SMTP, TLS, the drivers of Redis and PostgreSQL and what Prometheus collects. Laws of a parameter are named hypotheses of the
    theorems that need them; each such theorem is applied to a concrete parameter after it.
  \<^item> Texts in the database are valid UTF-8 without NUL; a nil and an empty slice are the same in a JSON body;
    \<open>ttl.Seconds()\<close> is exact for whole seconds. Goroutines appear through their results, methods under a mutex are one step.

  \<^bold>\<open>Not modelled.\<close> Logging output, embedded migration files and the tool that applies them (their constraints are in the table
  models), flag parsing under \<open>cmd\<close>, generated interfaces and aliases, test utilities and scripts, documentation. The services
  of \<open>modules/task/catalog.go\<close> only pass calls on to the store and appear as these calls. The parts of
  \<open>net/http\<close>, asynq and the drivers that run servers, clients and tickers are outside the repository; only the results of
  their calls appear. Timeouts of single calls show up as failures of these calls.
\<close>

end
